(* ===== verification/Prelude.thy ===== *)
theory Prelude
  imports Main "HOL-Library.Word"
begin

text \<open>
  What every component of the development shares: the machine types of the C
  sources, memory blocks as byte lists, NUL-terminated strings, the first-match
  loop over a fixed-size array, and sequences of operations with the locale of simulations.

  Conventions.  A value the code compares or treats bitwise (identifiers, flags,
  wire fields) is a word of its C width, so increments wrap as in C.  An index,
  a counter or a clock value is a natural number, and every arithmetic operation
  on it is followed by \<open>wrap\<close> of its C width.  A C array is a list of
  its declared length; a \<open>char\<close> array is a byte list whose string is the
  part before the first NUL.
\<close>

unbundle bit_operations_syntax

section \<open>Machine types\<close>

type_synonym u8 = "8 word"
type_synonym u16 = "16 word"
type_synonym u32 = "32 word"
type_synonym u64 = "64 word"
type_synonym bytes = "8 word list"

definition wrap :: "nat \<Rightarrow> nat \<Rightarrow> nat" where
  "wrap w n = n mod 2 ^ w"

text \<open>The post-decrement of an unsigned counter of width \<open>w\<close>.\<close>

definition wrap_dec :: "nat \<Rightarrow> nat \<Rightarrow> nat" where
  "wrap_dec w n = (n + (2 ^ w - 1)) mod 2 ^ w"

text \<open>\<open>a - b\<close> in an unsigned type of \<open>w\<close> bits.\<close>

definition wrap_sub :: "nat \<Rightarrow> nat \<Rightarrow> nat \<Rightarrow> nat" where
  "wrap_sub w a b = (a + (2 ^ w - b mod 2 ^ w)) mod 2 ^ w"

named_theorems layout \<open>lengths and reads of encoded messages\<close>
named_theorems table_simps \<open>rewrite rules of slot tables\<close>

lemma wrap_id [simp]: "n < 2 ^ w \<Longrightarrow> wrap w n = n"
  by (simp add: wrap_def)

lemma wrap_sub_id: "b \<le> a \<Longrightarrow> a < 2 ^ w \<Longrightarrow> wrap_sub w a b = a - b"
  by (simp add: wrap_sub_def Nat.diff_add_assoc2 [symmetric] less_imp_le_nat mod_if)

lemma wrap_less: "wrap w n < 2 ^ w"
  by (simp add: wrap_def)

lemma wrap_dec_pos: "0 < n \<Longrightarrow> n < 2 ^ w \<Longrightarrow> wrap_dec w n = n - 1"
proof -
  assume pos: "0 < n" and bound: "n < 2 ^ w"
  have p: "(1 :: nat) \<le> 2 ^ w"
    by simp
  have "n + (2 ^ w - 1) = (n - 1) + 2 ^ w"
    using pos p by linarith
  moreover have "n - 1 < 2 ^ w"
    using bound by linarith
  ultimately show ?thesis
    by (simp only: wrap_dec_def mod_add_self2 mod_less)
qed

lemma unat_u8_less [simp]: "unat (c :: u8) < 256"
  using unsigned_less [of c] by simp

lemma flag_set_iff: "(a AND b \<noteq> 0) \<longleftrightarrow> (\<exists>n. bit a n \<and> bit (b :: 'a::len word) n)"
  by (auto simp: bit_eq_iff bit_and_iff dest: bit_imp_le_length)

section \<open>The first-match loop\<close>

text \<open>
  \<open>for (i = 0; i < N; i++) if (P(a[i])) return i;\<close> over an array of length N.
\<close>

fun find_index :: "('a \<Rightarrow> bool) \<Rightarrow> 'a list \<Rightarrow> nat option" where
  "find_index P [] = None"
| "find_index P (x # xs) = (if P x then Some 0 else map_option Suc (find_index P xs))"

lemma find_index_None: "find_index P xs = None \<longleftrightarrow> (\<forall>x \<in> set xs. \<not> P x)"
  by (induction xs) auto

lemma find_index_Some:
  "find_index P xs = Some i \<longleftrightarrow> i < length xs \<and> P (xs ! i) \<and> (\<forall>j < i. \<not> P (xs ! j))"
proof (induction xs arbitrary: i)
  case Nil
  then show ?case by simp
next
  case (Cons x xs)
  show ?case
  proof (cases i)
    case 0
    then show ?thesis by auto
  next
    case (Suc k)
    then show ?thesis
      using Cons.IH [of k] by (auto simp: less_Suc_eq_0_disj)
  qed
qed

lemma find_index_SomeD:
  assumes "find_index P xs = Some i"
  shows "i < length xs" and "P (xs ! i)"
  using assms by (auto simp: find_index_Some)

lemma find_index_NoneD: "find_index P xs = None \<Longrightarrow> i < length xs \<Longrightarrow> \<not> P (xs ! i)"
  by (auto simp: find_index_None)

lemma find_index_exists: "i < length xs \<Longrightarrow> P (xs ! i) \<Longrightarrow> \<exists>j. find_index P xs = Some j"
  by (cases "find_index P xs") (auto simp: find_index_None)

lemma find_index_find: "find P xs = map_option (\<lambda>i. xs ! i) (find_index P xs)"
  by (induction xs) (simp_all add: option.map_comp comp_def)

lemma find_index_append_Cons:
  "(\<And>z. z \<in> set xs \<Longrightarrow> \<not> P z) \<Longrightarrow> P y \<Longrightarrow> find_index P (xs @ y # ys) = Some (length xs)"
  by (induction xs) auto

lemma find_index_unique:
  assumes "i < length xs" and "P (xs ! i)"
    and "\<And>j. j < length xs \<Longrightarrow> P (xs ! j) \<Longrightarrow> j = i"
  shows "find_index P xs = Some i"
proof -
  obtain j where j: "find_index P xs = Some j"
    using assms(1,2) find_index_exists by blast
  then have "j = i"
    using assms(3) [of j] find_index_SomeD [OF j] by blast
  with j show ?thesis by simp
qed

lemma find_index_cong:
  "length xs = length ys \<Longrightarrow> (\<And>i. i < length xs \<Longrightarrow> P (xs ! i) = Q (ys ! i)) \<Longrightarrow>
   find_index P xs = find_index Q ys"
proof (induction xs ys rule: list_induct2')
  case (4 x xs y ys)
  have "P x = Q y" and "\<And>i. i < length xs \<Longrightarrow> P (xs ! i) = Q (ys ! i)"
    using "4.prems"(2) [of 0] "4.prems"(2) [of "Suc i" for i] by auto
  then show ?case
    using 4 by simp
qed auto

section \<open>Memory blocks\<close>

text \<open>\<open>memcpy(buf + off, bs, n)\<close> and the bytes at \<open>buf + off\<close>.\<close>

definition mem_write :: "bytes \<Rightarrow> nat \<Rightarrow> bytes \<Rightarrow> bytes" where
  "mem_write buf off bs = take off buf @ bs @ drop (off + length bs) buf"

definition mem_read :: "bytes \<Rightarrow> nat \<Rightarrow> nat \<Rightarrow> bytes" where
  "mem_read buf off n = take n (drop off buf)"

lemma length_mem_write [simp, layout]:
  "off + length bs \<le> length buf \<Longrightarrow> length (mem_write buf off bs) = length buf"
  by (simp add: mem_write_def)

lemma length_mem_read [simp, layout]:
  "off + n \<le> length buf \<Longrightarrow> length (mem_read buf off n) = n"
  by (simp add: mem_read_def)

lemma nth_mem_write:
  assumes "off + length bs \<le> length buf" and "i < length buf"
  shows "mem_write buf off bs ! i =
    (if off \<le> i \<and> i < off + length bs then bs ! (i - off) else buf ! i)"
  using assms by (auto simp: mem_write_def nth_append)

lemma nth_mem_write_other [layout]:
  "off + length bs \<le> length buf \<Longrightarrow> i < off \<or> off + length bs \<le> i \<Longrightarrow>
   mem_write buf off bs ! i = buf ! i"
  by (auto simp: mem_write_def nth_append)

lemma nth_mem_write_byte [layout]: "off < length buf \<Longrightarrow> mem_write buf off [b] ! off = b"
  by (simp add: nth_mem_write Suc_leI)

lemma nth_mem_write_first [layout]: "mem_write buf 0 (b # bs) ! 0 = b"
  by (simp add: mem_write_def)

lemma nth_mem_read: "i < n \<Longrightarrow> off + n \<le> length buf \<Longrightarrow> mem_read buf off n ! i = buf ! (off + i)"
  by (simp add: mem_read_def)

lemma mem_read_write_same [layout]:
  "off + length bs \<le> length buf \<Longrightarrow> n = length bs \<Longrightarrow> mem_read (mem_write buf off bs) off n = bs"
  by (simp add: mem_read_def mem_write_def)

lemma mem_read_write_other [layout]:
  assumes "off + length bs \<le> length buf" and "off' + n \<le> length buf"
    and "off' + n \<le> off \<or> off + length bs \<le> off'"
  shows "mem_read (mem_write buf off bs) off' n = mem_read buf off' n"
  using assms by (intro nth_equalityI) (auto simp: nth_mem_read nth_mem_write)

lemma mem_read_all [simp]: "mem_read buf 0 (length buf) = buf"
  by (simp add: mem_read_def)

lemma mem_read_drop [simp]: "mem_read (drop k buf) off n = mem_read buf (k + off) n"
  by (simp add: mem_read_def add.commute)

lemma mem_read_append1: "off + n \<le> length xs \<Longrightarrow> mem_read (xs @ ys) off n = mem_read xs off n"
  by (simp add: mem_read_def)

lemma take_mem_write_before: "n \<le> off \<Longrightarrow> off \<le> length buf \<Longrightarrow> take n (mem_write buf off bs) = take n buf"
  by (simp add: mem_write_def min_def)

lemma drop_mem_write_after:
  "off + length bs \<le> n \<Longrightarrow> off + length bs \<le> length buf \<Longrightarrow>
   drop n (mem_write buf off bs) = drop n buf"
  by (simp add: mem_write_def min_def)

text \<open>\<open>memcpy(dst, src, n * sizeof(*src))\<close> on arrays of structs.\<close>

definition array_copy :: "nat \<Rightarrow> 'a list \<Rightarrow> 'a list \<Rightarrow> 'a list" where
  "array_copy n src dst = map (\<lambda>i. if i < n then src ! i else dst ! i) [0..<length dst]"

lemma length_array_copy [simp]: "length (array_copy n src dst) = length dst"
  by (simp add: array_copy_def)

lemma take_array_copy: "n \<le> length dst \<Longrightarrow> take n (array_copy n src dst) = map (\<lambda>i. src ! i) [0..<n]"
  by (intro nth_equalityI) (auto simp: array_copy_def)

section \<open>NUL-terminated strings\<close>

text \<open>
  \<open>cstr a\<close> is the string a \<open>char\<close> array holds, so \<open>strlen(a)\<close> is its length and
  \<open>strcmp(a, b) == 0\<close> is equality of the two.  \<open>strnlen(a, n)\<close> stops at \<open>n\<close>.
\<close>

definition cstr :: "bytes \<Rightarrow> bytes" where
  "cstr a = takeWhile (\<lambda>b. b \<noteq> 0) a"

definition strlen :: "bytes \<Rightarrow> nat" where
  "strlen a = length (cstr a)"

definition strnlen :: "bytes \<Rightarrow> nat \<Rightarrow> nat" where
  "strnlen a n = length (cstr (take n a))"

definition str_eq :: "bytes \<Rightarrow> bytes \<Rightarrow> bool" where
  "str_eq a b \<longleftrightarrow> cstr a = cstr b"

definition strn_eq :: "nat \<Rightarrow> bytes \<Rightarrow> bytes \<Rightarrow> bool" where
  "strn_eq n a b \<longleftrightarrow> cstr (take n a) = cstr (take n b)"

text \<open>\<open>BoundedString_Copy\<close> of a non-NULL source, over the destination's old bytes.\<close>

definition BoundedString_Copy :: "bytes \<Rightarrow> bytes option \<Rightarrow> bytes" where
  "BoundedString_Copy destination source =
     (if length destination = 0 then destination
      else case source of
        None \<Rightarrow> mem_write destination 0 [0]
      | Some s \<Rightarrow>
          (let n = strnlen s (length destination - 1)
           in mem_write (mem_write destination 0 (take n s)) n [0]))"

lemma cstr_no_nul: "0 \<notin> set (cstr a)"
  by (auto simp: cstr_def dest: set_takeWhileD)

lemma cstr_append_nul [simp]: "0 \<notin> set s \<Longrightarrow> cstr (s @ 0 # rest) = s"
  by (induction s) (auto simp: cstr_def)

lemma cstr_idem [simp]: "cstr (cstr a) = cstr a"
  by (simp add: cstr_def)

lemma take_cstr: "take (length (cstr a)) a = cstr a"
  by (simp add: cstr_def takeWhile_eq_take [symmetric])

lemma cstr_take: "cstr (take n a) = take n (cstr a)"
proof (induction a arbitrary: n)
  case (Cons b a)
  then show ?case by (cases n) (auto simp: cstr_def)
qed (simp add: cstr_def)

lemma length_cstr_le [simp]: "length (cstr a) \<le> length a"
  by (simp add: cstr_def length_takeWhile_le)

lemma cstr_Nil_iff: "cstr a = [] \<longleftrightarrow> a = [] \<or> hd a = 0"
  by (cases a) (auto simp: cstr_def)

lemma cstr_replicate_nul [simp]: "cstr (replicate n 0) = []"
  by (cases n) (auto simp: cstr_def)

lemma cstr_drop: "k \<le> length (cstr a) \<Longrightarrow> cstr (drop k a) = drop k (cstr a)"
proof (induction a arbitrary: k)
  case (Cons b a)
  then show ?case by (cases k) (auto simp: cstr_def split: if_splits)
qed (simp add: cstr_def)

lemma nth_cstr: "k < length (cstr a) \<Longrightarrow> cstr a ! k = a ! k"
  by (simp add: cstr_def takeWhile_nth)

lemma nth_length_cstr: "0 \<in> set a \<Longrightarrow> a ! length (cstr a) = 0"
  by (induction a) (auto simp: cstr_def)

lemma cstr_split: "0 \<in> set a \<Longrightarrow> \<exists>r. a = cstr a @ 0 # r"
  by (induction a) (auto simp: cstr_def)

lemma str_eq_refl [simp]: "str_eq a a"
  by (simp add: str_eq_def)

lemma length_BoundedString_Copy [simp]:
  "length (BoundedString_Copy d s) = length d"
proof (cases "d = [] \<or> s = None")
  case True
  then show ?thesis
    by (auto simp: BoundedString_Copy_def Suc_leI)
next
  case False
  then obtain src where s: "s = Some src" and d: "0 < length d" by auto
  let ?n = "strnlen src (length d - 1)"
  have n: "?n \<le> length d - 1"
    by (simp add: strnlen_def cstr_take)
  then have "length (mem_write d 0 (take ?n src)) = length d"
    by (intro length_mem_write) auto
  moreover have "?n + length [0 :: u8] \<le> length d"
    using n d by (simp only: list.size)
  ultimately have "length (mem_write (mem_write d 0 (take ?n src)) ?n [0]) = length d"
    by (metis length_mem_write)
  then show ?thesis
    using s d by (simp add: BoundedString_Copy_def Let_def)
qed

lemma cstr_write_nul:
  "0 \<notin> set c \<Longrightarrow> length c < length d \<Longrightarrow> cstr (mem_write (mem_write d 0 c) (length c) [0]) = c"
  by (simp add: mem_write_def)

text \<open>The copy holds the source's string, truncated to leave room for the NUL.\<close>

lemma cstr_BoundedString_Copy:
  assumes "0 < length d"
  shows "cstr (BoundedString_Copy d (Some s)) = take (length d - 1) (cstr s)"
proof -
  let ?m = "length d - 1"
  let ?c = "take ?m (cstr s)"
  have n: "strnlen s ?m = length ?c"
    by (simp add: strnlen_def cstr_take)
  have copied: "take (strnlen s ?m) s = ?c"
    using take_cstr [of "take ?m s"] by (simp add: strnlen_def cstr_take)
  have "length ?c \<le> ?m"
    by simp
  then have len: "length ?c < length d"
    using assms by linarith
  have "0 \<notin> set ?c"
    using cstr_no_nul [of s] by (auto dest: in_set_takeD)
  then have "cstr (mem_write (mem_write d 0 ?c) (length ?c) [0]) = ?c"
    using len by (rule cstr_write_nul)
  then show ?thesis
    using assms copied n by (simp add: BoundedString_Copy_def Let_def)
qed

section \<open>Running operations\<close>

text \<open>
  A sequence of calls on a component: the results they return and the state after
  them.  \<open>simulation\<close> is the contract between a component and its abstract
  specification; the invariant and the agreement of the two lift to every sequence.
\<close>

fun run :: "('s \<Rightarrow> 'o \<Rightarrow> 'r \<times> 's) \<Rightarrow> 's \<Rightarrow> 'o list \<Rightarrow> 'r list \<times> 's" where
  "run step s [] = ([], s)"
| "run step s (x # xs) = (let (r, s') = step s x; (rs, s'') = run step s' xs in (r # rs, s''))"

lemma run_Cons [simp]:
  "snd (run step s (x # xs)) = snd (run step (snd (step s x)) xs)"
  "fst (run step s (x # xs)) = fst (step s x) # fst (run step (snd (step s x)) xs)"
  by (simp_all add: split_def Let_def)

declare run.simps(2) [simp del]

lemma run_snd_append: "snd (run step s (xs @ ys)) = snd (run step (snd (run step s xs)) ys)"
  by (induction xs arbitrary: s) simp_all

locale stepper =
  fixes step :: "'s \<Rightarrow> 'o \<Rightarrow> 'r \<times> 's" and inv :: "'s \<Rightarrow> bool"
  assumes step_inv: "inv s \<Longrightarrow> inv (snd (step s x))"
begin

lemma run_inv: "inv s \<Longrightarrow> inv (snd (run step s xs))"
  by (induction xs arbitrary: s) (simp_all add: step_inv)

end

locale simulation = stepper +
  fixes astep :: "'a \<Rightarrow> 'b \<Rightarrow> 'c \<times> 'a" and abs :: "'d \<Rightarrow> 'a"
  assumes step_sim: "inv s \<Longrightarrow> astep (abs s) x = (fst (step s x), abs (snd (step s x)))"
begin

lemma run_sim: "inv s \<Longrightarrow> run astep (abs s) xs = (fst (run step s xs), abs (snd (run step s xs)))"
  by (induction xs arbitrary: s) (simp_all add: step_inv step_sim prod_eq_iff)

end

text \<open>
  A specification that leaves choices open states what a call may return and leave
  behind.  It holds of every call made in a state some sequence of calls reaches.
\<close>

locale contract = stepper +
  fixes post :: "'a \<Rightarrow> 'b \<Rightarrow> 'c \<Rightarrow> 'a \<Rightarrow> bool" and abs :: "'d \<Rightarrow> 'a"
  assumes step_post: "inv s \<Longrightarrow> post (abs s) x (fst (step s x)) (abs (snd (step s x)))"
begin

lemma reachable_post:
  "inv s \<Longrightarrow> post (abs (snd (run step s xs))) x (fst (step (snd (run step s xs)) x))
     (abs (snd (step (snd (run step s xs)) x)))"
  by (simp add: run_inv step_post)

end

sublocale simulation \<subseteq> contract step inv "\<lambda>a x r a'. astep a x = (r, a')" abs
  by unfold_locales (rule step_sim)

text \<open>
  Some invariants hold only until a counter wraps: every call uses up at most its cost,
  and the invariant is kept while the total stays within the limit.
\<close>

locale budgeted =
  fixes step :: "'s \<Rightarrow> 'o \<Rightarrow> 'r \<times> 's" and inv :: "'s \<Rightarrow> bool" and used :: "'s \<Rightarrow> nat"
    and cost :: "'o \<Rightarrow> nat" and limit :: nat
  assumes step_budget: "inv s \<Longrightarrow> used s + cost x \<le> limit \<Longrightarrow>
    inv (snd (step s x)) \<and> used (snd (step s x)) \<le> used s + cost x"
begin

lemma run_budget:
  "inv s \<Longrightarrow> used s + sum_list (map cost xs) \<le> limit \<Longrightarrow>
   inv (snd (run step s xs)) \<and> used (snd (run step s xs)) \<le> used s + sum_list (map cost xs)"
proof (induction xs arbitrary: s)
  case (Cons x xs)
  then have "inv (snd (step s x)) \<and> used (snd (step s x)) \<le> used s + cost x"
    using step_budget [of s x] by simp
  then show ?case
    using Cons.IH [of "snd (step s x)"] Cons.prems(2) by simp
qed simp

end

sublocale stepper \<subseteq> budgeted step inv "\<lambda>s. 0" "\<lambda>x. 0" 0
  by unfold_locales (simp add: step_inv)

locale budgeted_contract = budgeted +
  fixes post :: "'a \<Rightarrow> 'c \<Rightarrow> 'd \<Rightarrow> 'a \<Rightarrow> bool" and abs :: "'b \<Rightarrow> 'a"
  assumes step_budget_post: "inv s \<Longrightarrow> used s + cost x \<le> limit \<Longrightarrow> post (abs s) x (fst (step s x)) (abs (snd (step s x)))"
begin

lemma reachable_budget_post:
  assumes "inv s" and "used s + sum_list (map cost xs) + cost x \<le> limit"
  shows "post (abs (snd (run step s xs))) x (fst (step (snd (run step s xs)) x)) (abs (snd (step (snd (run step s xs)) x)))"
  using run_budget [OF assms(1), of xs] assms(2) by (intro step_budget_post) simp_all

end

sublocale contract \<subseteq> budgeted_contract step inv "\<lambda>s. 0" "\<lambda>x. 0" 0 post abs
  by unfold_locales (simp add: step_post)

end
