(* ===== verification/Wire.thy ===== *)
theory Wire
  imports Prelude
begin

text \<open>
  The byte order of the protocol (\<open>src/protocol/wire.c\<close>) and the message header
  (\<open>src/protocol/message_header.c\<close>), with the locale \<open>message_codec\<close>: what a
  pair of an \<open>_Encode\<close> and a \<open>_Decode\<close> function promises to the code that
  sends and dispatches messages.
\<close>

section \<open>Little-endian integers\<close>

definition Wire_WriteU16 :: "bytes \<Rightarrow> nat \<Rightarrow> u16 \<Rightarrow> bytes" where
  "Wire_WriteU16 buffer off v =
     mem_write buffer off [ucast (v AND 0xFF), ucast (drop_bit 8 v AND 0xFF)]"

definition Wire_WriteU32 :: "bytes \<Rightarrow> nat \<Rightarrow> u32 \<Rightarrow> bytes" where
  "Wire_WriteU32 buffer off v =
     Wire_WriteU16 (Wire_WriteU16 buffer off (ucast (v AND 0xFFFF))) (off + 2) (ucast (drop_bit 16 v))"

definition Wire_WriteU64 :: "bytes \<Rightarrow> nat \<Rightarrow> u64 \<Rightarrow> bytes" where
  "Wire_WriteU64 buffer off v =
     Wire_WriteU32 (Wire_WriteU32 buffer off (ucast (v AND 0xFFFFFFFF))) (off + 4) (ucast (drop_bit 32 v))"

definition Wire_ReadU16 :: "bytes \<Rightarrow> nat \<Rightarrow> u16" where
  "Wire_ReadU16 buffer off = ucast (buffer ! off) OR push_bit 8 (ucast (buffer ! (off + 1)))"

definition Wire_ReadU32 :: "bytes \<Rightarrow> nat \<Rightarrow> u32" where
  "Wire_ReadU32 buffer off =
     ucast (Wire_ReadU16 buffer off) OR push_bit 16 (ucast (Wire_ReadU16 buffer (off + 2)))"

definition Wire_ReadU64 :: "bytes \<Rightarrow> nat \<Rightarrow> u64" where
  "Wire_ReadU64 buffer off =
     ucast (Wire_ReadU32 buffer off) OR push_bit 32 (ucast (Wire_ReadU32 buffer (off + 4)))"

text \<open>The bytes of a value, least significant first.\<close>

definition le16 :: "u16 \<Rightarrow> bytes" where
  "le16 v = [ucast v, ucast (drop_bit 8 v)]"

definition le32 :: "u32 \<Rightarrow> bytes" where
  "le32 v = le16 (ucast v) @ le16 (ucast (drop_bit 16 v))"

definition le64 :: "u64 \<Rightarrow> bytes" where
  "le64 v = le32 (ucast v) @ le32 (ucast (drop_bit 32 v))"

lemma length_le [simp, layout]: "length (le16 a) = 2" "length (le32 b) = 4" "length (le64 c) = 8"
  by (simp_all add: le16_def le32_def le64_def)

lemma mem_write_append:
  "off + length as + length bs \<le> length buf \<Longrightarrow>
   mem_write (mem_write buf off as) (off + length as) bs = mem_write buf off (as @ bs)"
  by (simp add: mem_write_def ac_simps)

lemma ucast_and_mask:
  "n = LENGTH('b::len) \<Longrightarrow> ucast ((v :: 'a::len word) AND mask n) = (ucast v :: 'b word)"
  by (auto intro!: bit_word_eqI simp: bit_simps dest: bit_imp_le_length)

lemma low_masks: "(0xFF :: u16) = mask 8" "(0xFFFF :: u32) = mask 16" "(0xFFFFFFFF :: u64) = mask 32"
  by (simp_all add: mask_eq_exp_minus_1)

lemma Wire_WriteU16_eq [layout]: "Wire_WriteU16 buf off v = mem_write buf off (le16 v)"
  by (simp add: Wire_WriteU16_def le16_def low_masks ucast_and_mask)

lemma Wire_WriteU32_eq [layout]:
  assumes "off + 4 \<le> length buf"
  shows "Wire_WriteU32 buf off v = mem_write buf off (le32 v)"
  using mem_write_append [of off "le16 (ucast v)" "le16 (ucast (drop_bit 16 v))" buf] assms
  by (simp add: Wire_WriteU32_def Wire_WriteU16_eq le32_def low_masks ucast_and_mask)

lemma Wire_WriteU64_eq [layout]:
  assumes "off + 8 \<le> length buf"
  shows "Wire_WriteU64 buf off v = mem_write buf off (le64 v)"
  using mem_write_append [of off "le32 (ucast v)" "le32 (ucast (drop_bit 32 v))" buf] assms
  by (simp add: Wire_WriteU64_def Wire_WriteU32_eq le64_def low_masks ucast_and_mask)

text \<open>Consecutive writes are one write, so an encoder's stores merge into an image.\<close>

lemma mem_write_merge [layout]:
  "off' = off + length as \<Longrightarrow> off' + length bs \<le> length buf \<Longrightarrow>
   mem_write (mem_write buf off as) off' bs = mem_write buf off (as @ bs)"
  by (simp add: mem_write_append)

lemma join16: "ucast (ucast v :: u8) OR push_bit 8 (ucast (ucast (drop_bit 8 v) :: u8)) = (v :: u16)"
  by (auto intro!: bit_word_eqI simp: bit_simps)

lemma join32: "ucast (ucast v :: u16) OR push_bit 16 (ucast (ucast (drop_bit 16 v) :: u16)) = (v :: u32)"
  by (auto intro!: bit_word_eqI simp: bit_simps)

lemma join64: "ucast (ucast v :: u32) OR push_bit 32 (ucast (ucast (drop_bit 32 v) :: u32)) = (v :: u64)"
  by (auto intro!: bit_word_eqI simp: bit_simps)

text \<open>Reading a field of an image: skip what lies before it, then read it back.\<close>

lemma Wire_Read_append [layout]:
  "length xs \<le> n \<Longrightarrow> Wire_ReadU16 (xs @ ys) n = Wire_ReadU16 ys (n - length xs)"
  "length xs \<le> n \<Longrightarrow> Wire_ReadU32 (xs @ ys) n = Wire_ReadU32 ys (n - length xs)"
  "length xs \<le> n \<Longrightarrow> Wire_ReadU64 (xs @ ys) n = Wire_ReadU64 ys (n - length xs)"
  by (auto simp: Wire_ReadU16_def Wire_ReadU32_def Wire_ReadU64_def nth_append
      eval_nat_numeral dest!: le_Suc_ex)

lemma Wire_Read_Cons [layout]:
  "0 < n \<Longrightarrow> Wire_ReadU16 (b # ys) n = Wire_ReadU16 ys (n - 1)"
  "0 < n \<Longrightarrow> Wire_ReadU32 (b # ys) n = Wire_ReadU32 ys (n - 1)"
  "0 < n \<Longrightarrow> Wire_ReadU64 (b # ys) n = Wire_ReadU64 ys (n - 1)"
  using Wire_Read_append [of "[b]" n ys] by simp_all

lemma Wire_ReadU16_le16 [layout]: "Wire_ReadU16 (le16 v @ ys) 0 = v" "Wire_ReadU16 (le16 v) 0 = v"
  by (simp_all add: Wire_ReadU16_def le16_def join16)

lemma Wire_ReadU32_le32 [layout]: "Wire_ReadU32 (le32 v @ ys) 0 = v" "Wire_ReadU32 (le32 v) 0 = v"
  by (simp_all add: Wire_ReadU32_def le32_def layout join32)

lemma Wire_ReadU64_le64 [layout]: "Wire_ReadU64 (le64 v @ ys) 0 = v" "Wire_ReadU64 (le64 v) 0 = v"
  by (simp_all add: Wire_ReadU64_def le64_def layout join64)

lemma nth_append_skip [layout]: "length xs \<le> n \<Longrightarrow> (xs @ ys) ! n = ys ! (n - length xs)"
  by (simp add: nth_append)

lemma mem_read_skip [layout]: "length xs \<le> n \<Longrightarrow> mem_read (xs @ ys) n k = mem_read ys (n - length xs) k"
  by (simp add: mem_read_def)

lemma mem_read_skip_Cons [layout]: "0 < n \<Longrightarrow> mem_read (b # ys) n k = mem_read ys (n - 1) k"
  by (cases n) (simp_all add: mem_read_def)

lemma mem_read_prefix [layout]: "k = length xs \<Longrightarrow> mem_read (xs @ ys) 0 k = xs" "k = length xs \<Longrightarrow> mem_read xs 0 k = xs"
  by (simp_all add: mem_read_def)

section \<open>The message header\<close>

text \<open>The types of the modelled messages.\<close>

abbreviation (input) kMESSAGE_TYPE_HELLO :: u8 where "kMESSAGE_TYPE_HELLO \<equiv> 0x01"

abbreviation (input) kMESSAGE_TYPE_REGISTER :: u8 where "kMESSAGE_TYPE_REGISTER \<equiv> 0x02"

abbreviation (input) kMESSAGE_TYPE_REGISTER_ACK :: u8 where "kMESSAGE_TYPE_REGISTER_ACK \<equiv> 0x03"

abbreviation (input) kMESSAGE_TYPE_LIST :: u8 where "kMESSAGE_TYPE_LIST \<equiv> 0x04"

abbreviation (input) kMESSAGE_TYPE_LIST_REPLY :: u8 where "kMESSAGE_TYPE_LIST_REPLY \<equiv> 0x05"

abbreviation (input) kMESSAGE_TYPE_OPEN :: u8 where "kMESSAGE_TYPE_OPEN \<equiv> 0x06"

abbreviation (input) kMESSAGE_TYPE_CLOSE :: u8 where "kMESSAGE_TYPE_CLOSE \<equiv> 0x07"

abbreviation (input) kMESSAGE_TYPE_SUBSCRIBE :: u8 where "kMESSAGE_TYPE_SUBSCRIBE \<equiv> 0x08"

abbreviation (input) kMESSAGE_TYPE_ERROR :: u8 where "kMESSAGE_TYPE_ERROR \<equiv> 0x09"

abbreviation (input) kMESSAGE_TYPE_OPEN_ACK :: u8 where "kMESSAGE_TYPE_OPEN_ACK \<equiv> 0x0A"

abbreviation (input) kMESSAGE_TYPE_INTERFACE_STATUS :: u8 where "kMESSAGE_TYPE_INTERFACE_STATUS \<equiv> 0x0D"

abbreviation (input) kMESSAGE_TYPE_FRAME :: u8 where "kMESSAGE_TYPE_FRAME \<equiv> 0x40"

abbreviation (input) kMESSAGE_TYPE_TXN_BEGIN :: u8 where "kMESSAGE_TYPE_TXN_BEGIN \<equiv> 0x41"

abbreviation (input) kMESSAGE_TYPE_TXN_BEGIN_ACK :: u8 where "kMESSAGE_TYPE_TXN_BEGIN_ACK \<equiv> 0x42"

abbreviation (input) kMESSAGE_TYPE_TXN_TEMPLATE :: u8 where "kMESSAGE_TYPE_TXN_TEMPLATE \<equiv> 0x43"

abbreviation (input) kMESSAGE_TYPE_TXN_STEPS :: u8 where "kMESSAGE_TYPE_TXN_STEPS \<equiv> 0x44"

abbreviation (input) kMESSAGE_TYPE_TXN_PROGRESS :: u8 where "kMESSAGE_TYPE_TXN_PROGRESS \<equiv> 0x45"

abbreviation (input) kMESSAGE_TYPE_TXN_STATUS :: u8 where "kMESSAGE_TYPE_TXN_STATUS \<equiv> 0x46"

abbreviation (input) kMESSAGE_TYPE_TXN_ABORT :: u8 where "kMESSAGE_TYPE_TXN_ABORT \<equiv> 0x47"

abbreviation (input) kMESSAGE_TYPE_TXN_ROSTER :: u8 where "kMESSAGE_TYPE_TXN_ROSTER \<equiv> 0x48"

abbreviation (input) kMESSAGE_TYPE_TXN_ROSTER_REPORT :: u8 where "kMESSAGE_TYPE_TXN_ROSTER_REPORT \<equiv> 0x49"

abbreviation (input) kMESSAGE_TYPE_PING :: u8 where "kMESSAGE_TYPE_PING \<equiv> 0x7F"

record MessageHeader =
  mh_type :: u8
  mh_flags :: u8
  mh_length :: u16

abbreviation (input) MESSAGE_HEADER_SIZE :: nat where "MESSAGE_HEADER_SIZE \<equiv> 4"

definition MessageHeader_Encode :: "MessageHeader \<Rightarrow> bytes \<Rightarrow> nat \<times> bytes" where
  "MessageHeader_Encode self buffer =
     (if length buffer < MESSAGE_HEADER_SIZE then (0, buffer)
      else (MESSAGE_HEADER_SIZE,
            Wire_WriteU16 (mem_write (mem_write buffer 0 [mh_type self]) 1 [mh_flags self])
              2 (mh_length self)))"

definition MessageHeader_Decode :: "bytes \<Rightarrow> MessageHeader option" where
  "MessageHeader_Decode buffer =
     (if length buffer < MESSAGE_HEADER_SIZE then None
      else Some \<lparr>mh_type = buffer ! 0, mh_flags = buffer ! 1, mh_length = Wire_ReadU16 buffer 2\<rparr>)"

text \<open>The bytes of a header with flags 0, which every encoder writes.\<close>

definition header_image :: "u8 \<Rightarrow> nat \<Rightarrow> bytes" where
  "header_image t n = [t, 0] @ le16 (of_nat n)"

lemma length_header_image [simp, layout]: "length (header_image t n) = 4"
  by (simp add: header_image_def)

lemma MessageHeader_Encode_image [layout]:
  "4 \<le> length buf \<Longrightarrow>
   MessageHeader_Encode \<lparr>mh_type = t, mh_flags = 0, mh_length = of_nat n\<rparr> buf =
     (4, mem_write buf 0 (header_image t n))"
  by (simp add: MessageHeader_Encode_def header_image_def layout)

lemma MessageHeader_Decode_image [layout]:
  "MessageHeader_Decode (header_image t n @ rest) =
     Some \<lparr>mh_type = t, mh_flags = 0, mh_length = of_nat n\<rparr>"
  by (simp add: MessageHeader_Decode_def header_image_def layout)

lemma MessageHeader_roundtrip:
  "4 \<le> length buf \<Longrightarrow> MessageHeader_Decode (snd (MessageHeader_Encode h buf)) = Some h"
  by (simp add: MessageHeader_Encode_def MessageHeader_Decode_def layout) (simp add: mem_write_def layout)

section \<open>Building a message in a zeroed body\<close>

text \<open>
  The prologue of the control encoders: the header, then \<open>memset(body, 0, n)\<close>.
  The fields are stored into the zeroed body at their offsets.
\<close>

definition message_begin :: "u8 \<Rightarrow> nat \<Rightarrow> bytes \<Rightarrow> bytes" where
  "message_begin t n buffer =
     mem_write (snd (MessageHeader_Encode \<lparr>mh_type = t, mh_flags = 0, mh_length = of_nat n\<rparr> buffer))
       MESSAGE_HEADER_SIZE (replicate n 0)"

definition encodeFixedBody :: "u8 \<Rightarrow> nat \<Rightarrow> bytes \<Rightarrow> nat \<times> bytes" where
  "encodeFixedBody type body_size buffer =
     (let total_size = MESSAGE_HEADER_SIZE + body_size
      in if length buffer < total_size then (0, buffer)
         else (total_size, message_begin type body_size buffer))"

lemma encodeFixedBody_begin:
  "encodeFixedBody t n buf = (if 4 + n \<le> length buf then (4 + n, message_begin t n buf) else (0, buf))"
  by (simp add: encodeFixedBody_def Let_def)

text \<open>The zeroed body, split where the fields of the message start.\<close>

definition zero_fields :: "nat list \<Rightarrow> bytes" where
  "zero_fields ns = concat (map (\<lambda>n. replicate n 0) ns)"

lemma zero_fields_simps [simp, layout]:
  "zero_fields [] = []" "zero_fields (n # ns) = replicate n 0 @ zero_fields ns"
  by (simp_all add: zero_fields_def)

lemma zero_fields_sum: "zero_fields ns = replicate (sum_list ns) 0"
  by (induction ns) (simp_all add: replicate_add)

lemma message_begin_fields:
  assumes "4 + n \<le> length buf" and "n = sum_list ns"
  shows "message_begin t n buf = header_image t n @ zero_fields ns @ drop (4 + n) buf"
proof -
  have "message_begin t n buf = mem_write buf 0 (header_image t n @ replicate n 0)"
    using assms mem_write_append [of 0 "header_image t n" "replicate n 0" buf]
    by (simp add: message_begin_def MessageHeader_Encode_image)
  then show ?thesis
    using assms(2) by (simp add: mem_write_def zero_fields_sum)
qed

text \<open>A store skips what lies before it and splits the zeroes it falls into.\<close>

lemma mem_write_skip [layout]:
  "length xs \<le> off \<Longrightarrow> mem_write (xs @ ys) off bs = xs @ mem_write ys (off - length xs) bs"
  by (simp add: mem_write_def)

lemma Wire_Write_skip:
  "Wire_WriteU16 (xs @ ys) (length xs + k) a = xs @ Wire_WriteU16 ys k a"
  "Wire_WriteU32 (xs @ ys) (length xs + k) b = xs @ Wire_WriteU32 ys k b"
  "Wire_WriteU64 (xs @ ys) (length xs + k) c = xs @ Wire_WriteU64 ys k c"
  by (simp_all add: Wire_WriteU64_def Wire_WriteU32_def Wire_WriteU16_def mem_write_skip add.assoc)

lemma mem_write_skip_Cons [layout]:
  "0 < off \<Longrightarrow> mem_write (x # ys) off bs = x # mem_write ys (off - 1) bs"
  by (cases off) (simp_all add: mem_write_def)

lemma mem_write_head:
  "mem_write (y # ys) 0 (x # xs) = x # mem_write ys 0 xs" "mem_write ys 0 [] = ys"
  by (simp_all add: mem_write_def)

lemma mem_write_zeroes [layout]:
  "off + length bs \<le> n \<Longrightarrow>
   mem_write (replicate n 0 @ ys) off bs = replicate off 0 @ bs @ replicate (n - off - length bs) 0 @ ys"
  "off + length bs \<le> n \<Longrightarrow>
   mem_write (replicate n 0) off bs = replicate off 0 @ bs @ replicate (n - off - length bs) 0"
  by (simp_all add: mem_write_def min_def)

lemma mem_write_start: "mem_write buf 0 bs = bs @ drop (length bs) buf"
  by (simp add: mem_write_def)

definition zero_pad :: "nat \<Rightarrow> bytes \<Rightarrow> bytes" where
  "zero_pad n s = s @ replicate (n - length s) 0"

lemma length_zero_pad [simp, layout]: "length s \<le> n \<Longrightarrow> length (zero_pad n s) = n"
  by (simp add: zero_pad_def)

lemma cstr_zero_pad [simp]: "0 \<notin> set s \<Longrightarrow> cstr (zero_pad n s) = s"
  by (cases "n - length s") (simp_all add: zero_pad_def, auto simp: cstr_def)

text \<open>A name field on the wire: the string cut to leave room for a NUL, padded with zeroes.\<close>

definition name_field :: "nat \<Rightarrow> bytes \<Rightarrow> bytes" where
  "name_field n a = zero_pad n (take (n - 1) (cstr a))"

lemma take_strnlen: "take (strnlen a n) a = take n (cstr a)"
  using take_cstr [of "take n a"] by (simp add: strnlen_def cstr_take)

lemma length_take_strnlen: "length (take n (cstr a)) = strnlen a n"
  by (simp add: strnlen_def cstr_take)

lemma length_name_field [simp, layout]: "0 < n \<Longrightarrow> length (name_field n a) = n"
  by (simp add: name_field_def)

text \<open>The decoder's NUL at the end of the field changes nothing.\<close>

lemma name_field_terminate [layout]:
  assumes "0 < n" and "k = n - 1"
  shows "mem_write (name_field n a) k [0] = name_field n a"
proof -
  have "length (take (n - 1) (cstr a)) \<le> n - 1"
    by simp
  then have "replicate (n - length (take (n - 1) (cstr a))) (0 :: u8) =
      replicate (n - 1 - length (take (n - 1) (cstr a))) 0 @ [0]"
    using assms(1) by (metis Suc_diff_le Suc_pred' replicate_append_same replicate_Suc)
  then show ?thesis
    using assms by (simp add: name_field_def zero_pad_def layout) (simp add: mem_write_def)
qed

lemma cstr_name_field [simp]: "cstr (name_field n a) = take (n - 1) (cstr a)"
  unfolding name_field_def using cstr_no_nul [of a] by (intro cstr_zero_pad) (auto dest: in_set_takeD)

lemma name_field_last [simp]: "0 < n \<Longrightarrow> k = n - 1 \<Longrightarrow> name_field n a ! k = 0"
  by (simp add: name_field_def zero_pad_def nth_append)

lemma nth_zeroes [layout]: "k < n \<Longrightarrow> (replicate n 0 @ ys) ! k = (0 :: u8)"
  by (simp add: nth_append)

lemma mem_write_name [layout]:
  "n = k + 1 \<Longrightarrow> mem_write (replicate n 0 @ ys) 0 (take (strnlen a k) a) = name_field n a @ ys"
  "n = k + 1 \<Longrightarrow> mem_write (replicate n 0) 0 (take (strnlen a k) a) = name_field n a"
  using mem_write_zeroes [of 0 "take k (cstr a)" n] by (simp_all add: take_strnlen name_field_def zero_pad_def)

text \<open>A char array with its NUL in place, copied without it.\<close>

lemma terminated_strlen: "length a = n \<Longrightarrow> 0 < n \<Longrightarrow> a ! (n - 1) = 0 \<Longrightarrow> length (cstr a) < n"
  using cstr_no_nul [of a] take_cstr [of a] length_cstr_le [of a]
  by (metis diff_less le_neq_implies_less less_one nth_mem take_all_iff)

lemma mem_write_cstr [layout]:
  "length (cstr a) < n \<Longrightarrow> mem_write (replicate n 0 @ ys) 0 (take (strlen a) a) = name_field n a @ ys"
  "length (cstr a) < n \<Longrightarrow> mem_write (replicate n 0) 0 (take (strlen a) a) = name_field n a"
  using mem_write_zeroes [of 0 "cstr a" n]
  by (simp_all add: strlen_def take_cstr name_field_def zero_pad_def)

text \<open>\<open>memcpy(destination, text, strlen(text))\<close> and its counterpart that reads a field of \<open>n\<close>
  bytes and terminates it.\<close>

abbreviation (input) write_text :: "bytes \<Rightarrow> nat \<Rightarrow> bytes \<Rightarrow> bytes" where
  "write_text b off s \<equiv> mem_write b off (take (strlen s) s)"

abbreviation (input) read_text :: "bytes \<Rightarrow> nat \<Rightarrow> nat \<Rightarrow> bytes" where
  "read_text p off n \<equiv> mem_write (mem_read p off n) (n - 1) [0]"

text \<open>The loop that stores one entry after the other, and the loop that loads them.\<close>

fun write_entries :: "(bytes \<Rightarrow> nat \<Rightarrow> 'a \<Rightarrow> bytes) \<Rightarrow> nat \<Rightarrow> bytes \<Rightarrow> nat \<Rightarrow> 'a list \<Rightarrow> bytes" where
  "write_entries w sz buffer off [] = buffer"
| "write_entries w sz buffer off (x # xs) =
     write_entries w sz (w buffer off x) (off + sz) xs"

definition read_entries ::
    "(bytes \<Rightarrow> nat \<Rightarrow> 'a \<Rightarrow> 'a) \<Rightarrow> nat \<Rightarrow> bytes \<Rightarrow> nat \<Rightarrow> nat \<Rightarrow> 'a list \<Rightarrow> 'a list" where
  "read_entries r sz payload off n olds =
     map (\<lambda>i. r payload (off + i * sz) (olds ! i)) [0..<n] @ drop n olds"

lemma write_entries_image:
  assumes "\<And>x pre post. x \<in> set xs \<Longrightarrow>
      w (pre @ replicate sz 0 @ post) (length pre) x = pre @ img x @ post \<and> length (img x) = sz"
  shows "write_entries w sz (pre @ replicate (length xs * sz) 0 @ post) (length pre) xs =
    pre @ concat (map img xs) @ post"
  using assms
proof (induction xs arbitrary: pre)
  case (Cons x xs)
  have "w (pre @ replicate (length (x # xs) * sz) 0 @ post) (length pre) x =
      (pre @ img x) @ replicate (length xs * sz) 0 @ post"
    using Cons.prems [of x pre "replicate (length xs * sz) 0 @ post"] by (simp add: replicate_add)
  moreover have "length (pre @ img x) = length pre + sz"
    using Cons.prems [of x] by simp
  ultimately show ?case
    using Cons.IH [of "pre @ img x"] Cons.prems by simp
qed simp

lemma read_entries_image:
  assumes "\<And>x pre post old. x \<in> set xs \<Longrightarrow> r (pre @ img x @ post) (length pre) old = got x"
    and "\<And>x. x \<in> set xs \<Longrightarrow> length (img x) = sz"
  shows "read_entries r sz (pre @ concat (map img xs) @ post) (length pre) (length xs) olds =
    map got xs @ drop (length xs) olds"
proof -
  have "map (\<lambda>i. r (pre @ concat (map img xs) @ post) (length pre + i * sz) (olds ! i)) [0..<length xs] =
      map got xs"
  proof (rule nth_equalityI)
    fix i
    assume "i < length (map (\<lambda>i. r (pre @ concat (map img xs) @ post) (length pre + i * sz) (olds ! i))
        [0..<length xs])"
    then have i: "i < length xs" by simp
    have split: "xs = take i xs @ xs ! i # drop (Suc i) xs"
      using i by (simp add: id_take_nth_drop)
    have "length (concat (map img (take i xs))) = i * sz"
      using i assms(2) by (induction i) (auto simp: take_Suc_conv_app_nth)
    then have "r ((pre @ concat (map img (take i xs))) @ img (xs ! i) @ concat (map img (drop (Suc i) xs)) @ post)
        (length pre + i * sz) (olds ! i) = got (xs ! i)"
      using assms(1) [of "xs ! i" "pre @ concat (map img (take i xs))"] i by simp
    moreover have "concat (map img xs) =
        concat (map img (take i xs)) @ img (xs ! i) @ concat (map img (drop (Suc i) xs))"
      by (subst split) simp
    ultimately show "map (\<lambda>i. r (pre @ concat (map img xs) @ post) (length pre + i * sz) (olds ! i))
        [0..<length xs] ! i = map got xs ! i"
      using i by simp
  qed simp
  then show ?thesis
    by (simp add: read_entries_def)
qed

lemma length_concat_entries:
  "(\<And>x. x \<in> set xs \<Longrightarrow> length (img x) = sz) \<Longrightarrow> length (concat (map img xs)) = length xs * sz"
  by (induction xs) auto

lemma length_read_entries [simp]: "n \<le> length olds \<Longrightarrow> length (read_entries r sz p off n olds) = length olds"
  by (simp add: read_entries_def)

text \<open>What an encoder that starts with \<open>encodeFixedBody\<close> answers and leaves in the buffer.\<close>

definition framed :: "u8 \<Rightarrow> bool \<Rightarrow> bytes \<Rightarrow> bytes \<Rightarrow> nat \<times> bytes" where
  "framed t valid body buf =
     (if valid \<and> 4 + length body \<le> length buf
      then (4 + length body, header_image t (length body) @ body @ drop (4 + length body) buf)
      else (0, buf))"

section \<open>What a message codec promises\<close>

text \<open>
  \<open>encode m buffer\<close> returns the number of bytes written and the buffer after the
  call; 0 means refused.  \<open>wf m\<close> says that the arrays of the struct have their
  declared sizes, \<open>valid m\<close> is the encoder's own test.  \<open>body m\<close> is the payload the protocol prescribes for the
  message, and \<open>received m\<close> is what the receiver's struct holds after decoding it:
  equal fields, array elements past a count as the struct had them.
\<close>

text \<open>A decoder fills the caller's struct and returns whether the payload is acceptable.\<close>

definition accepted :: "('m \<Rightarrow> bytes \<Rightarrow> bool \<times> 'm) \<Rightarrow> 'm \<Rightarrow> bytes \<Rightarrow> 'm option" where
  "accepted decode old p = (let (ok, d) = decode old p in if ok then Some d else None)"

text \<open>
  The contract as a predicate: the message is refused, with the buffer untouched,
  exactly when it is not encodable or the buffer is too small for it; otherwise
  its bytes carry a header of the right type and length and a payload that decodes
  to the message, and the rest of the buffer is untouched.
\<close>

definition delivers ::
    "('m \<Rightarrow> bytes \<Rightarrow> nat \<times> bytes) \<Rightarrow> ('m \<Rightarrow> bytes \<Rightarrow> bool \<times> 'm) \<Rightarrow> u8 \<Rightarrow> bool \<Rightarrow> nat \<Rightarrow> 'm \<Rightarrow>
     'm \<Rightarrow> 'm \<Rightarrow> bytes \<Rightarrow> bool" where
  "delivers encode decode t valid sz got m old buf =
     (case encode m buf of (n, buf') \<Rightarrow>
       if n = 0 then buf' = buf \<and> (\<not> valid \<or> length buf < 4 + sz)
       else valid \<and> n = 4 + sz \<and> length buf' = length buf \<and> drop n buf' = drop n buf \<and>
         MessageHeader_Decode buf' = Some \<lparr>mh_type = t, mh_flags = 0, mh_length = of_nat sz\<rparr> \<and>
         unat (of_nat sz :: u16) = sz \<and>
         decode old (mem_read buf' 4 sz) = (True, got))"

locale message_codec =
  fixes encode :: "'m \<Rightarrow> bytes \<Rightarrow> nat \<times> bytes"
    and decode :: "'m \<Rightarrow> bytes \<Rightarrow> bool \<times> 'm"
    and mtype :: u8
    and wf :: "'m \<Rightarrow> bool"
    and valid :: "'m \<Rightarrow> bool"
    and body :: "'m \<Rightarrow> bytes"
    and received :: "'m \<Rightarrow> 'm \<Rightarrow> 'm"
  assumes encode_image: "wf m \<Longrightarrow> encode m buf =
      (if valid m \<and> 4 + length (body m) \<le> length buf
       then (4 + length (body m), header_image mtype (length (body m)) @ body m @ drop (4 + length (body m)) buf)
       else (0, buf))"
    and body_fits: "wf m \<Longrightarrow> valid m \<Longrightarrow> length (body m) < 2 ^ 16"
    and decode_body: "wf m \<Longrightarrow> wf old \<Longrightarrow> valid m \<Longrightarrow> decode old (body m) = (True, received old m)"
begin

lemma body_length_word:
  "wf m \<Longrightarrow> valid m \<Longrightarrow> unat (of_nat (length (body m)) :: u16) = length (body m)"
  using body_fits [of m] by (simp add: unat_of_nat take_bit_nat_eq_self)

theorem delivers_codec:
  assumes "wf m" and "wf old"
  shows "delivers encode decode mtype (valid m) (length (body m)) (received old m) m old buf"
  using assms body_length_word [of m] decode_body [of m old]
  by (auto simp: delivers_def encode_image layout)

corollary delivers_sized:
  assumes "wf m" and "wf old" and "valid m \<Longrightarrow> length (body m) = n"
  shows "delivers encode decode mtype (valid m) n (received old m) m old buf"
proof (cases "valid m")
  case True
  then show ?thesis
    using delivers_codec [OF assms(1,2), of buf] assms(3) by simp
next
  case False
  then show ?thesis
    using assms(1) by (simp add: delivers_def encode_image)
qed

text \<open>
  Messages written one after the other are found one after the other: at a message
  boundary, the header gives the type and the length, and the length the next boundary.
\<close>

lemma dispatch:
  assumes "wf m" and "wf old" and "valid m"
  shows "\<exists>h. MessageHeader_Decode (header_image mtype (length (body m)) @ body m @ rest) = Some h \<and>
    mh_type h = mtype \<and> 4 + unat (mh_length h) = length (header_image mtype (length (body m)) @ body m) \<and>
    accepted decode old (mem_read (header_image mtype (length (body m)) @ body m @ rest) 4 (unat (mh_length h))) =
      Some (received old m)"
  using assms body_length_word [of m] decode_body [of m old]
  by (simp add: layout accepted_def)

end

end
