(* ===== verification/FrameMessage.thy ===== *)
theory FrameMessage
  imports Wire
begin

text \<open>
  CAN frames on the wire (\<open>src/protocol/frame_message.c\<close>): the codec of one FRAME
  and \<open>FrameStream\<close>, which walks the frames of a datagram.
\<close>

section \<open>Frames\<close>

abbreviation (input) FRAME_PAYLOAD_MAX_CLASSIC :: nat where "FRAME_PAYLOAD_MAX_CLASSIC \<equiv> 8"

abbreviation (input) FRAME_PAYLOAD_MAX_FD :: nat where "FRAME_PAYLOAD_MAX_FD \<equiv> 64"

abbreviation (input) FRAME_FIXED_FIELDS_SIZE :: nat where "FRAME_FIXED_FIELDS_SIZE \<equiv> 16"

abbreviation (input) FRAME_FLAG_FD :: u8 where "FRAME_FLAG_FD \<equiv> 1"

record FrameMessage =
  fm_can_id :: u32
  fm_timestamp_us :: u64
  fm_channel :: u8
  fm_payload_length :: u8
  fm_frame_flags :: u8
  fm_route_flags :: u8
  fm_payload :: bytes

definition FrameMessage_IsPayloadLengthValid :: "u8 \<Rightarrow> u8 \<Rightarrow> bool" where
  "FrameMessage_IsPayloadLengthValid payload_length frame_flags =
     (if frame_flags AND FRAME_FLAG_FD \<noteq> 0 then unat payload_length \<le> FRAME_PAYLOAD_MAX_FD
      else unat payload_length \<le> FRAME_PAYLOAD_MAX_CLASSIC)"

definition FrameMessage_Encode :: "FrameMessage \<Rightarrow> bytes \<Rightarrow> nat \<times> bytes" where
  "FrameMessage_Encode self buffer =
     (let n = unat (fm_payload_length self);
          total_size = MESSAGE_HEADER_SIZE + FRAME_FIXED_FIELDS_SIZE + n
      in if \<not> FrameMessage_IsPayloadLengthValid (fm_payload_length self) (fm_frame_flags self)
         then (0, buffer)
         else if length buffer < total_size then (0, buffer)
         else
           let header = \<lparr>mh_type = kMESSAGE_TYPE_FRAME, mh_flags = 0,
                          mh_length = of_nat (FRAME_FIXED_FIELDS_SIZE + n)\<rparr>;
               b = snd (MessageHeader_Encode header buffer);
               body = MESSAGE_HEADER_SIZE;
               b = Wire_WriteU32 b (body + 0) (fm_can_id self);
               b = Wire_WriteU64 b (body + 4) (fm_timestamp_us self);
               b = mem_write b (body + 12) [fm_channel self];
               b = mem_write b (body + 13) [fm_payload_length self];
               b = mem_write b (body + 14) [fm_frame_flags self];
               b = mem_write b (body + 15) [fm_route_flags self];
               b = mem_write b (body + 16) (take n (fm_payload self))
           in (total_size, b))"

text \<open>The struct is written field by field, so a refused payload leaves some of them new.\<close>

definition FrameMessage_Decode :: "FrameMessage \<Rightarrow> bytes \<Rightarrow> bool \<times> FrameMessage" where
  "FrameMessage_Decode self payload =
     (if length payload < FRAME_FIXED_FIELDS_SIZE then (False, self)
      else
        let self = self\<lparr>fm_can_id := Wire_ReadU32 payload 0,
                        fm_timestamp_us := Wire_ReadU64 payload 4,
                        fm_channel := payload ! 12,
                        fm_payload_length := payload ! 13,
                        fm_frame_flags := payload ! 14,
                        fm_route_flags := payload ! 15\<rparr>;
            n = unat (fm_payload_length self)
        in if \<not> FrameMessage_IsPayloadLengthValid (fm_payload_length self) (fm_frame_flags self)
           then (False, self)
           else if length payload < FRAME_FIXED_FIELDS_SIZE + n then (False, self)
           else (True, self\<lparr>fm_payload := mem_write (fm_payload self) 0 (mem_read payload 16 n)\<rparr>))"

section \<open>Streams of frames\<close>

record FrameStream =
  fs_data :: bytes
  fs_offset :: nat

definition FrameStream_Init :: "bytes \<Rightarrow> FrameStream" where
  "FrameStream_Init data = \<lparr>fs_data = data, fs_offset = 0\<rparr>"

definition FrameStream_Next :: "FrameStream \<Rightarrow> FrameMessage \<Rightarrow> bool \<times> FrameStream \<times> FrameMessage" where
  "FrameStream_Next self frame =
     (let here = drop (fs_offset self) (fs_data self); remaining = length here
      in if length (fs_data self) \<le> fs_offset self then (False, self, frame)
         else case MessageHeader_Decode here of
           None \<Rightarrow> (False, self, frame)
         | Some header \<Rightarrow>
             if mh_type header \<noteq> kMESSAGE_TYPE_FRAME then (False, self, frame)
             else
               let total = MESSAGE_HEADER_SIZE + unat (mh_length header)
               in if remaining < total then (False, self, frame)
                  else case FrameMessage_Decode frame
                      (mem_read here MESSAGE_HEADER_SIZE (unat (mh_length header))) of
                    (False, frame) \<Rightarrow> (False, self, frame)
                  | (True, frame) \<Rightarrow> (True, self\<lparr>fs_offset := fs_offset self + total\<rparr>, frame))"

text \<open>
  The receivers' loop \<open>while (FrameStream_Next(&stream, &frame)) ...\<close>: the frames it
  hands out, in order.  One struct is decoded into all the way.
\<close>

function FrameStream_frames :: "FrameStream \<Rightarrow> FrameMessage \<Rightarrow> FrameMessage list" where
  "FrameStream_frames s frame =
     (let (more, s', frame') = FrameStream_Next s frame
      in if more then frame' # FrameStream_frames s' frame' else [])"
  by pat_completeness auto

lemma FrameStream_Next_advances:
  assumes "FrameStream_Next s f = (True, s', f')"
  shows "fs_data s' = fs_data s" and "fs_offset s < fs_offset s'" and "fs_offset s' \<le> length (fs_data s)"
  using assms
  by (auto simp: FrameStream_Next_def Let_def split: if_splits option.splits prod.splits bool.splits)

lemma FrameStream_Next_decreases:
  "(True, s', f') = FrameStream_Next s f \<Longrightarrow>
   length (fs_data s') - fs_offset s' < length (fs_data s) - fs_offset s"
  using FrameStream_Next_advances [of s f s' f'] by (simp add: diff_less_mono2)

termination FrameStream_frames
  by (relation "measure (\<lambda>(s, f). length (fs_data s) - fs_offset s)")
    (auto simp: FrameStream_Next_decreases)

declare FrameStream_frames.simps [simp del]

section \<open>The layout of a frame\<close>

definition FrameMessage_wf :: "FrameMessage \<Rightarrow> bool" where
  "FrameMessage_wf m \<longleftrightarrow> length (fm_payload m) = FRAME_PAYLOAD_MAX_FD"

definition FrameMessage_valid :: "FrameMessage \<Rightarrow> bool" where
  "FrameMessage_valid m \<longleftrightarrow> FrameMessage_IsPayloadLengthValid (fm_payload_length m) (fm_frame_flags m)"

definition frame_body :: "FrameMessage \<Rightarrow> bytes" where
  "frame_body m = le32 (fm_can_id m) @ le64 (fm_timestamp_us m) @
     [fm_channel m, fm_payload_length m, fm_frame_flags m, fm_route_flags m] @
     take (unat (fm_payload_length m)) (fm_payload m)"

definition frame_image :: "FrameMessage \<Rightarrow> bytes" where
  "frame_image m = header_image kMESSAGE_TYPE_FRAME (length (frame_body m)) @ frame_body m"

text \<open>What decoding \<open>m\<close> into the struct \<open>old\<close> leaves there.\<close>

definition frame_received :: "FrameMessage \<Rightarrow> FrameMessage \<Rightarrow> FrameMessage" where
  "frame_received old m =
     m\<lparr>fm_payload := mem_write (fm_payload old) 0 (take (unat (fm_payload_length m)) (fm_payload m))\<rparr>"

lemma valid_payload_le: "FrameMessage_valid m \<Longrightarrow> unat (fm_payload_length m) \<le> 64"
  by (auto simp: FrameMessage_valid_def FrameMessage_IsPayloadLengthValid_def split: if_splits)

lemma length_frame_body:
  "FrameMessage_wf m \<Longrightarrow> FrameMessage_valid m \<Longrightarrow> length (frame_body m) = 16 + unat (fm_payload_length m)"
  using valid_payload_le [of m] by (simp add: frame_body_def FrameMessage_wf_def)

lemma FrameMessage_Encode_image:
  assumes "FrameMessage_wf m"
  shows "FrameMessage_Encode m buf =
    (if FrameMessage_valid m \<and> 4 + length (frame_body m) \<le> length buf
     then (4 + length (frame_body m), mem_write buf 0 (frame_image m)) else (0, buf))"
proof (cases "FrameMessage_valid m \<and> 4 + length (frame_body m) \<le> length buf")
  case True
  then show ?thesis
    using length_frame_body [of m] valid_payload_le [of m] assms
    by (simp add: FrameMessage_Encode_def FrameMessage_valid_def FrameMessage_wf_def frame_image_def
        layout del: of_nat_add) (simp add: frame_body_def Let_def)
next
  case False
  then show ?thesis
    using length_frame_body [of m] assms
    by (auto simp: FrameMessage_Encode_def FrameMessage_valid_def Let_def)
qed

lemma FrameMessage_Decode_body:
  assumes "FrameMessage_wf m" and "FrameMessage_valid m"
  shows "FrameMessage_Decode old (frame_body m) = (True, frame_received old m)"
  using assms length_frame_body [of m] valid_payload_le [of m]
  by (simp add: FrameMessage_Decode_def FrameMessage_valid_def FrameMessage_wf_def)
    (simp add: frame_body_def frame_received_def layout)

interpretation frame: message_codec FrameMessage_Encode FrameMessage_Decode kMESSAGE_TYPE_FRAME
  FrameMessage_wf FrameMessage_valid frame_body frame_received
proof unfold_locales
  fix m old :: FrameMessage and buf :: bytes
  assume wf: "FrameMessage_wf m"
  then show "FrameMessage_Encode m buf =
      (if FrameMessage_valid m \<and> 4 + length (frame_body m) \<le> length buf
       then (4 + length (frame_body m),
         header_image kMESSAGE_TYPE_FRAME (length (frame_body m)) @ frame_body m @
         drop (4 + length (frame_body m)) buf)
       else (0, buf))"
    by (simp add: FrameMessage_Encode_image frame_image_def mem_write_start)
  assume "FrameMessage_valid m"
  with wf show "length (frame_body m) < 2 ^ 16"
    and "FrameMessage_Decode old (frame_body m) = (True, frame_received old m)"
    using valid_payload_le [of m] by (simp_all add: length_frame_body FrameMessage_Decode_body)
qed

section \<open>Walking a datagram\<close>

lemma FrameStream_Next_image:
  assumes "FrameMessage_wf m" and "FrameMessage_valid m"
  shows "FrameStream_Next \<lparr>fs_data = pre @ frame_image m @ rest, fs_offset = length pre\<rparr> old =
    (True, \<lparr>fs_data = (pre @ frame_image m) @ rest, fs_offset = length (pre @ frame_image m)\<rparr>,
     frame_received old m)"
proof -
  have n: "unat (of_nat (length (frame_body m)) :: u16) = length (frame_body m)"
    by (rule frame.body_length_word [OF assms])
  show ?thesis
    using FrameMessage_Decode_body [OF assms, of old]
    by (simp add: FrameStream_Next_def frame_image_def n layout Let_def)
qed

lemma FrameStream_Next_truncated:
  assumes "FrameMessage_wf m" and "FrameMessage_valid m" and "k < length (frame_image m)"
  shows "\<not> fst (FrameStream_Next \<lparr>fs_data = pre @ take k (frame_image m), fs_offset = length pre\<rparr> old)"
proof (cases "4 \<le> k")
  case True
  have n: "unat (of_nat (length (frame_body m)) :: u16) = length (frame_body m)"
    by (rule frame.body_length_word [OF assms(1,2)])
  have "take k (frame_image m) =
      header_image kMESSAGE_TYPE_FRAME (length (frame_body m)) @ take (k - 4) (frame_body m)"
    using True by (simp add: frame_image_def)
  then show ?thesis
    using assms(3) True
    by (simp add: FrameStream_Next_def frame_image_def n layout Let_def)
next
  case False
  then show ?thesis
    by (simp add: FrameStream_Next_def MessageHeader_Decode_def Let_def)
qed

fun frames_received :: "FrameMessage \<Rightarrow> FrameMessage list \<Rightarrow> FrameMessage list" where
  "frames_received old [] = []"
| "frames_received old (m # ms) = (let d = frame_received old m in d # frames_received d ms)"

lemma FrameStream_frames_from:
  assumes "list_all (\<lambda>m. FrameMessage_wf m \<and> FrameMessage_valid m) ms"
    and "\<And>pre old. \<not> fst (FrameStream_Next \<lparr>fs_data = pre @ rest, fs_offset = length pre\<rparr> old)"
  shows "FrameStream_frames \<lparr>fs_data = pre @ concat (map frame_image ms) @ rest, fs_offset = length pre\<rparr> old =
    frames_received old ms"
  using assms(1)
proof (induction ms arbitrary: pre old)
  case Nil
  then show ?case
    using assms(2) [of pre old] by (subst FrameStream_frames.simps) (auto simp: Let_def split: prod.splits)
next
  case (Cons m ms)
  then show ?case
    using FrameStream_Next_image [of m pre "concat (map frame_image ms) @ rest" old]
      Cons.IH [of "pre @ frame_image m" "frame_received old m"]
    by (subst FrameStream_frames.simps) (simp add: Let_def)
qed

section \<open>Properties\<close>

text \<open>
  C24.  A frame is either refused, with the buffer untouched, exactly when its length
  is over the limit of its kind or the buffer is too small; or its bytes announce a
  FRAME of the right length, decode back to it, and leave the rest of the buffer alone.
\<close>

theorem FrameMessage_roundtrip:
  assumes "FrameMessage_wf m" and "FrameMessage_wf old"
  shows "delivers FrameMessage_Encode FrameMessage_Decode kMESSAGE_TYPE_FRAME
    (FrameMessage_IsPayloadLengthValid (fm_payload_length m) (fm_frame_flags m))
    (16 + unat (fm_payload_length m)) (frame_received old m) m old buf"
proof (cases "FrameMessage_valid m")
  case True
  then show ?thesis
    using frame.delivers_codec [OF assms, of buf] length_frame_body [OF assms(1)]
    by (simp add: FrameMessage_valid_def)
next
  case False
  then show ?thesis
    using assms(1) by (simp add: delivers_def FrameMessage_Encode_image FrameMessage_valid_def)
qed

definition sample_frame :: FrameMessage where
  "sample_frame = \<lparr>fm_can_id = 0x123, fm_timestamp_us = 7, fm_channel = 2, fm_payload_length = 3,
     fm_frame_flags = 0, fm_route_flags = 0, fm_payload = [1, 2, 3] @ replicate 61 0\<rparr>"

lemma sample_frame_ok: "FrameMessage_wf sample_frame" "FrameMessage_valid sample_frame"
  by (simp_all add: sample_frame_def FrameMessage_wf_def FrameMessage_valid_def
      FrameMessage_IsPayloadLengthValid_def)

theorem FrameMessage_roundtrip_witness:
  "FrameMessage_wf sample_frame \<and>
   (case FrameMessage_Encode sample_frame (replicate 32 0) of (n, buf') \<Rightarrow>
      n = 23 \<and> FrameMessage_Decode sample_frame (mem_read buf' 4 19) = (True, sample_frame))"
proof -
  have "length (frame_body sample_frame) = 19"
    using length_frame_body [OF sample_frame_ok] by (simp add: sample_frame_def)
  then have n: "fst (FrameMessage_Encode sample_frame (replicate 32 0)) = 23"
    by (simp add: FrameMessage_Encode_image sample_frame_ok)
  have "frame_received sample_frame sample_frame = sample_frame" "unat (fm_payload_length sample_frame) = 3"
    by (simp_all add: frame_received_def sample_frame_def mem_write_def)
  then show ?thesis
    using FrameMessage_roundtrip [of sample_frame sample_frame "replicate 32 0"] sample_frame_ok n
    by (auto simp: delivers_def split: prod.splits)
qed

text \<open>
  C25.  A datagram of valid frames sent back to back, even one cut inside the frame that
  follows them, is walked frame by frame: each one is handed out once, in order, and the
  cut frame is not.
\<close>

theorem FrameStream_walks:
  assumes "list_all (\<lambda>m. FrameMessage_wf m \<and> FrameMessage_valid m) (ms @ [last_frame])"
    and "k < length (frame_image last_frame)"
  shows "FrameStream_frames (FrameStream_Init (concat (map frame_image ms) @ take k (frame_image last_frame))) old =
    frames_received old ms"
  using FrameStream_frames_from [of ms "take k (frame_image last_frame)" "[]" old]
    FrameStream_Next_truncated [of last_frame k] assms
  by (simp add: FrameStream_Init_def)

theorem FrameStream_walks_witness:
  "list_all (\<lambda>m. FrameMessage_wf m \<and> FrameMessage_valid m) ([sample_frame, sample_frame] @ [sample_frame]) \<and>
   22 < length (frame_image sample_frame) \<and>
   length (FrameStream_frames (FrameStream_Init
     (concat (map frame_image [sample_frame, sample_frame]) @ take 22 (frame_image sample_frame))) sample_frame) = 2"
proof -
  have len: "22 < length (frame_image sample_frame)"
    using length_frame_body [OF sample_frame_ok] by (simp add: frame_image_def sample_frame_def)
  have ok: "list_all (\<lambda>m. FrameMessage_wf m \<and> FrameMessage_valid m) ([sample_frame, sample_frame] @ [sample_frame])"
    by (simp add: sample_frame_ok)
  show ?thesis
    using FrameStream_walks [OF ok len, of sample_frame] ok len by (simp add: Let_def)
qed

end
