(* ===== verification/ControlMessages.thy ===== *)
theory ControlMessages
  imports FrameMessage
begin

text \<open>
  The control messages of sessions and registration, one section per file of
  \<open>src/protocol\<close>: \<open>hello_message.c\<close>, \<open>error_message.c\<close>, \<open>open_message.c\<close>,
  \<open>subscribe_message.c\<close>, \<open>register_message.c\<close>, \<open>list_message.c\<close> and
  \<open>interface_status_message.c\<close>.  Every pair of functions is an instance of
  \<open>message_codec\<close>.
\<close>

section \<open>HELLO\<close>

abbreviation (input) HELLO_NAME_SIZE :: nat where "HELLO_NAME_SIZE \<equiv> 64"
abbreviation (input) HELLO_BODY_SIZE :: nat where "HELLO_BODY_SIZE \<equiv> 72"
abbreviation (input) PROTOCOL_VERSION :: u8 where "PROTOCOL_VERSION \<equiv> 0"
abbreviation (input) kPEER_ROLE_AGENT :: u8 where "kPEER_ROLE_AGENT \<equiv> 1"
abbreviation (input) kPEER_ROLE_CLIENT :: u8 where "kPEER_ROLE_CLIENT \<equiv> 2"
abbreviation (input) kPEER_ROLE_ADMIN :: u8 where "kPEER_ROLE_ADMIN \<equiv> 3"
abbreviation (input) kPEER_ROLE_MAX :: u8 where "kPEER_ROLE_MAX \<equiv> 4"

record HelloMessage =
  hello_version :: u8
  hello_role :: u8
  hello_capabilities :: u32
  hello_name :: bytes

definition isRoleValid :: "u8 \<Rightarrow> bool" where
  "isRoleValid role \<longleftrightarrow> kPEER_ROLE_AGENT \<le> role \<and> role < kPEER_ROLE_MAX"

definition HelloMessage_Encode :: "HelloMessage \<Rightarrow> bytes \<Rightarrow> nat \<times> bytes" where
  "HelloMessage_Encode self buffer =
     (let total_size = MESSAGE_HEADER_SIZE + HELLO_BODY_SIZE
      in if \<not> isRoleValid (hello_role self) then (0, buffer)
         else if length buffer < total_size then (0, buffer)
         else
           let b = message_begin kMESSAGE_TYPE_HELLO HELLO_BODY_SIZE buffer;
               body = MESSAGE_HEADER_SIZE;
               b = mem_write b (body + 0) [hello_version self];
               b = mem_write b (body + 1) [hello_role self];
               b = Wire_WriteU32 b (body + 4) (hello_capabilities self);
               b = mem_write b (body + 8)
                     (take (strnlen (hello_name self) (HELLO_NAME_SIZE - 1)) (hello_name self))
           in (total_size, b))"

definition HelloMessage_Build :: "u8 \<Rightarrow> bytes option \<Rightarrow> u32 \<Rightarrow> bytes \<Rightarrow> bytes \<Rightarrow> nat \<times> bytes" where
  "HelloMessage_Build role name capabilities uninit buffer =
     (let hello_name = mem_write uninit 0 [0];
          hello_name = (case name of
              None \<Rightarrow> hello_name
            | Some name \<Rightarrow>
                let n = strnlen name (HELLO_NAME_SIZE - 1)
                in mem_write (mem_write hello_name 0 (take n name)) n [0])
      in HelloMessage_Encode \<lparr>hello_version = PROTOCOL_VERSION, hello_role = role,
           hello_capabilities = capabilities, hello_name = hello_name\<rparr> buffer)"

definition HelloMessage_Decode :: "HelloMessage \<Rightarrow> bytes \<Rightarrow> bool \<times> HelloMessage" where
  "HelloMessage_Decode self payload =
     (if length payload < HELLO_BODY_SIZE then (False, self)
      else
        let self = self\<lparr>hello_version := payload ! 0,
              hello_role := payload ! 1,
              hello_capabilities := Wire_ReadU32 payload 4,
              hello_name := mem_write (mem_read payload 8 HELLO_NAME_SIZE) (HELLO_NAME_SIZE - 1) [0]\<rparr>
        in (isRoleValid (hello_role self), self))"

definition HelloMessage_wf :: "HelloMessage \<Rightarrow> bool" where
  "HelloMessage_wf m \<longleftrightarrow> length (hello_name m) = HELLO_NAME_SIZE"

definition hello_body :: "HelloMessage \<Rightarrow> bytes" where
  "hello_body m = [hello_version m, hello_role m] @ replicate 2 0 @ le32 (hello_capabilities m) @
     name_field HELLO_NAME_SIZE (hello_name m)"

definition hello_received :: "HelloMessage \<Rightarrow> HelloMessage \<Rightarrow> HelloMessage" where
  "hello_received old m = m\<lparr>hello_name := name_field HELLO_NAME_SIZE (hello_name m)\<rparr>"

interpretation hello: message_codec HelloMessage_Encode HelloMessage_Decode kMESSAGE_TYPE_HELLO
  HelloMessage_wf "\<lambda>m. isRoleValid (hello_role m)" hello_body hello_received
proof unfold_locales
  fix m old :: HelloMessage and buf :: bytes
  assume wf: "HelloMessage_wf m"
  then show "HelloMessage_Encode m buf =
      (if isRoleValid (hello_role m) \<and> 4 + length (hello_body m) \<le> length buf
       then (4 + length (hello_body m),
         header_image kMESSAGE_TYPE_HELLO (length (hello_body m)) @ hello_body m @
         drop (4 + length (hello_body m)) buf)
       else (0, buf))"
    by (simp add: HelloMessage_Encode_def hello_body_def message_begin_fields [of 72 _ "[8, 64]"] layout Let_def)
  assume "isRoleValid (hello_role m)"
  with wf show "length (hello_body m) < 2 ^ 16"
    and "HelloMessage_Decode old (hello_body m) = (True, hello_received old m)"
    by (simp_all add: HelloMessage_Decode_def hello_body_def hello_received_def layout)
qed

section \<open>ERROR\<close>

abbreviation (input) ERROR_BODY_SIZE :: nat where "ERROR_BODY_SIZE \<equiv> 68"
abbreviation (input) ERROR_DETAIL_SIZE :: nat where "ERROR_DETAIL_SIZE \<equiv> 64"

record ErrorMessage =
  err_code :: u16
  err_detail :: bytes

definition ErrorMessage_Encode :: "ErrorMessage \<Rightarrow> bytes \<Rightarrow> nat \<times> bytes" where
  "ErrorMessage_Encode self buffer =
     (let total_size = MESSAGE_HEADER_SIZE + ERROR_BODY_SIZE
      in if err_detail self ! (ERROR_DETAIL_SIZE - 1) \<noteq> 0 then (0, buffer)
         else if length buffer < total_size then (0, buffer)
         else
           let b = message_begin kMESSAGE_TYPE_ERROR ERROR_BODY_SIZE buffer;
               body = MESSAGE_HEADER_SIZE;
               b = Wire_WriteU16 b (body + 0) (err_code self);
               b = mem_write b (body + 4) (take (strlen (err_detail self)) (err_detail self))
           in (total_size, b))"

definition ErrorMessage_Decode :: "ErrorMessage \<Rightarrow> bytes \<Rightarrow> bool \<times> ErrorMessage" where
  "ErrorMessage_Decode self payload =
     (if length payload < ERROR_BODY_SIZE then (False, self)
      else (True, self\<lparr>err_code := Wire_ReadU16 payload 0,
        err_detail := mem_write (mem_read payload 4 ERROR_DETAIL_SIZE) (ERROR_DETAIL_SIZE - 1) [0]\<rparr>))"

definition ErrorMessage_wf :: "ErrorMessage \<Rightarrow> bool" where
  "ErrorMessage_wf m \<longleftrightarrow> length (err_detail m) = ERROR_DETAIL_SIZE"

definition error_body :: "ErrorMessage \<Rightarrow> bytes" where
  "error_body m = le16 (err_code m) @ replicate 2 0 @ name_field ERROR_DETAIL_SIZE (err_detail m)"

definition error_received :: "ErrorMessage \<Rightarrow> ErrorMessage \<Rightarrow> ErrorMessage" where
  "error_received old m = m\<lparr>err_detail := name_field ERROR_DETAIL_SIZE (err_detail m)\<rparr>"

interpretation err: message_codec ErrorMessage_Encode ErrorMessage_Decode kMESSAGE_TYPE_ERROR
  ErrorMessage_wf "\<lambda>m. err_detail m ! 63 = 0" error_body error_received
proof unfold_locales
  fix m old :: ErrorMessage and buf :: bytes
  assume wf: "ErrorMessage_wf m"
  have "err_detail m ! 63 = 0 \<Longrightarrow> length (cstr (err_detail m)) < 64"
    using wf terminated_strlen [of "err_detail m" 64] by (simp add: ErrorMessage_wf_def)
  then show "ErrorMessage_Encode m buf =
      (if err_detail m ! 63 = 0 \<and> 4 + length (error_body m) \<le> length buf
       then (4 + length (error_body m),
         header_image kMESSAGE_TYPE_ERROR (length (error_body m)) @ error_body m @
         drop (4 + length (error_body m)) buf)
       else (0, buf))"
    by (simp add: ErrorMessage_Encode_def error_body_def message_begin_fields [of 68 _ "[4, 64]"] layout Let_def)
  show "length (error_body m) < 2 ^ 16"
    and "ErrorMessage_Decode old (error_body m) = (True, error_received old m)"
    by (simp_all add: ErrorMessage_Decode_def error_body_def error_received_def layout)
qed

section \<open>OPEN, OPEN\_ACK and CLOSE\<close>

abbreviation (input) OPEN_BODY_SIZE :: nat where "OPEN_BODY_SIZE \<equiv> 8"
abbreviation (input) OPEN_ACK_BODY_SIZE :: nat where "OPEN_ACK_BODY_SIZE \<equiv> 8"
abbreviation (input) CLOSE_BODY_SIZE :: nat where "CLOSE_BODY_SIZE \<equiv> 4"

record OpenMessage =
  open_interface_id :: u32
  open_flags :: u8

record OpenAckMessage =
  ack_status :: u8
  ack_channel :: u8
  ack_interface_id :: u32

record CloseMessage =
  close_channel :: u8

definition OpenMessage_Encode :: "OpenMessage \<Rightarrow> bytes \<Rightarrow> nat \<times> bytes" where
  "OpenMessage_Encode self buffer =
     (let total_size = MESSAGE_HEADER_SIZE + OPEN_BODY_SIZE
      in if length buffer < total_size then (0, buffer)
         else
           let b = message_begin kMESSAGE_TYPE_OPEN OPEN_BODY_SIZE buffer;
               body = MESSAGE_HEADER_SIZE;
               b = Wire_WriteU32 b (body + 0) (open_interface_id self);
               b = mem_write b (body + 4) [open_flags self]
           in (total_size, b))"

definition OpenMessage_Decode :: "OpenMessage \<Rightarrow> bytes \<Rightarrow> bool \<times> OpenMessage" where
  "OpenMessage_Decode self payload =
     (if length payload < OPEN_BODY_SIZE then (False, self)
      else (True, self\<lparr>open_interface_id := Wire_ReadU32 payload 0, open_flags := payload ! 4\<rparr>))"

definition OpenAckMessage_Encode :: "OpenAckMessage \<Rightarrow> bytes \<Rightarrow> nat \<times> bytes" where
  "OpenAckMessage_Encode self buffer =
     (let total_size = MESSAGE_HEADER_SIZE + OPEN_ACK_BODY_SIZE
      in if length buffer < total_size then (0, buffer)
         else
           let b = message_begin kMESSAGE_TYPE_OPEN_ACK OPEN_ACK_BODY_SIZE buffer;
               body = MESSAGE_HEADER_SIZE;
               b = mem_write b (body + 0) [ack_status self];
               b = mem_write b (body + 1) [ack_channel self];
               b = Wire_WriteU32 b (body + 4) (ack_interface_id self)
           in (total_size, b))"

definition OpenAckMessage_Decode :: "OpenAckMessage \<Rightarrow> bytes \<Rightarrow> bool \<times> OpenAckMessage" where
  "OpenAckMessage_Decode self payload =
     (if length payload < OPEN_ACK_BODY_SIZE then (False, self)
      else (True, self\<lparr>ack_status := payload ! 0, ack_channel := payload ! 1,
        ack_interface_id := Wire_ReadU32 payload 4\<rparr>))"

definition CloseMessage_Encode :: "CloseMessage \<Rightarrow> bytes \<Rightarrow> nat \<times> bytes" where
  "CloseMessage_Encode self buffer =
     (let total_size = MESSAGE_HEADER_SIZE + CLOSE_BODY_SIZE
      in if length buffer < total_size then (0, buffer)
         else
           let b = message_begin kMESSAGE_TYPE_CLOSE CLOSE_BODY_SIZE buffer;
               b = mem_write b (MESSAGE_HEADER_SIZE + 0) [close_channel self]
           in (total_size, b))"

definition CloseMessage_Decode :: "CloseMessage \<Rightarrow> bytes \<Rightarrow> bool \<times> CloseMessage" where
  "CloseMessage_Decode self payload =
     (if length payload < CLOSE_BODY_SIZE then (False, self)
      else (True, self\<lparr>close_channel := payload ! 0\<rparr>))"

definition open_body :: "OpenMessage \<Rightarrow> bytes" where
  "open_body m = le32 (open_interface_id m) @ [open_flags m] @ replicate 3 0"

definition open_ack_body :: "OpenAckMessage \<Rightarrow> bytes" where
  "open_ack_body m = [ack_status m, ack_channel m] @ replicate 2 0 @ le32 (ack_interface_id m)"

definition close_body :: "CloseMessage \<Rightarrow> bytes" where
  "close_body m = [close_channel m] @ replicate 3 0"

interpretation opn: message_codec OpenMessage_Encode OpenMessage_Decode kMESSAGE_TYPE_OPEN
  "\<lambda>m. True" "\<lambda>m. True" open_body "\<lambda>old m. m"
  by unfold_locales
    (simp_all add: message_begin_fields [of 8 _ "[8]"] OpenMessage_Encode_def OpenMessage_Decode_def open_body_def layout Let_def)

interpretation open_ack: message_codec OpenAckMessage_Encode OpenAckMessage_Decode kMESSAGE_TYPE_OPEN_ACK
  "\<lambda>m. True" "\<lambda>m. True" open_ack_body "\<lambda>old m. m"
  by unfold_locales
    (simp_all add: message_begin_fields [of 8 _ "[8]"] OpenAckMessage_Encode_def OpenAckMessage_Decode_def open_ack_body_def layout Let_def)

interpretation cls: message_codec CloseMessage_Encode CloseMessage_Decode kMESSAGE_TYPE_CLOSE
  "\<lambda>m. True" "\<lambda>m. True" close_body "\<lambda>old m. m"
  by unfold_locales
    (simp_all add: message_begin_fields [of 4 _ "[4]"] CloseMessage_Encode_def CloseMessage_Decode_def close_body_def layout Let_def)

section \<open>SUBSCRIBE\<close>

abbreviation (input) SUBSCRIBE_FILTERS_MAX :: nat where "SUBSCRIBE_FILTERS_MAX \<equiv> 16"
abbreviation (input) SUBSCRIBE_FIXED_FIELDS_SIZE :: nat where "SUBSCRIBE_FIXED_FIELDS_SIZE \<equiv> 4"
abbreviation (input) CAN_FILTER_SIZE :: nat where "CAN_FILTER_SIZE \<equiv> 8"

record CanFilter =
  flt_can_id :: u32
  flt_can_mask :: u32

record SubscribeMessage =
  sub_channel :: u8
  sub_filter_count :: u8
  sub_filters :: "CanFilter list"

definition write_filter :: "bytes \<Rightarrow> nat \<Rightarrow> CanFilter \<Rightarrow> bytes" where
  "write_filter b off f =
     Wire_WriteU32 (Wire_WriteU32 b (off + 0) (flt_can_id f)) (off + 4) (flt_can_mask f)"

definition read_filter :: "bytes \<Rightarrow> nat \<Rightarrow> CanFilter \<Rightarrow> CanFilter" where
  "read_filter p off old =
     old\<lparr>flt_can_id := Wire_ReadU32 p (off + 0), flt_can_mask := Wire_ReadU32 p (off + 4)\<rparr>"

definition SubscribeMessage_Encode :: "SubscribeMessage \<Rightarrow> bytes \<Rightarrow> nat \<times> bytes" where
  "SubscribeMessage_Encode self buffer =
     (let n = unat (sub_filter_count self);
          body_size = SUBSCRIBE_FIXED_FIELDS_SIZE + n * CAN_FILTER_SIZE;
          total_size = MESSAGE_HEADER_SIZE + body_size
      in if SUBSCRIBE_FILTERS_MAX < n \<or> length buffer < total_size then (0, buffer)
         else
           let b = message_begin kMESSAGE_TYPE_SUBSCRIBE body_size buffer;
               body = MESSAGE_HEADER_SIZE;
               b = mem_write b (body + 0) [sub_channel self];
               b = mem_write b (body + 1) [sub_filter_count self];
               b = write_entries write_filter CAN_FILTER_SIZE b (body + 4) (take n (sub_filters self))
           in (total_size, b))"

definition SubscribeMessage_Decode :: "SubscribeMessage \<Rightarrow> bytes \<Rightarrow> bool \<times> SubscribeMessage" where
  "SubscribeMessage_Decode self payload =
     (if length payload < SUBSCRIBE_FIXED_FIELDS_SIZE then (False, self)
      else
        let self = self\<lparr>sub_channel := payload ! 0, sub_filter_count := payload ! 1\<rparr>;
            n = unat (sub_filter_count self)
        in if SUBSCRIBE_FILTERS_MAX < n then (False, self)
           else if length payload < SUBSCRIBE_FIXED_FIELDS_SIZE + n * CAN_FILTER_SIZE then (False, self)
           else (True, self\<lparr>sub_filters :=
             read_entries read_filter CAN_FILTER_SIZE payload 4 n (sub_filters self)\<rparr>))"

definition SubscribeMessage_wf :: "SubscribeMessage \<Rightarrow> bool" where
  "SubscribeMessage_wf m \<longleftrightarrow> length (sub_filters m) = SUBSCRIBE_FILTERS_MAX"

definition filter_image :: "CanFilter \<Rightarrow> bytes" where
  "filter_image f = le32 (flt_can_id f) @ le32 (flt_can_mask f)"

definition subscribe_body :: "SubscribeMessage \<Rightarrow> bytes" where
  "subscribe_body m = [sub_channel m, sub_filter_count m] @ replicate 2 0 @
     concat (map filter_image (take (unat (sub_filter_count m)) (sub_filters m)))"

definition subscribe_received :: "SubscribeMessage \<Rightarrow> SubscribeMessage \<Rightarrow> SubscribeMessage" where
  "subscribe_received old m =
     (let n = unat (sub_filter_count m)
      in m\<lparr>sub_filters := take n (sub_filters m) @ drop n (sub_filters old)\<rparr>)"

lemma length_filter_image [simp]: "length (filter_image f) = 8"
  by (simp add: filter_image_def)

lemma write_filter_image: "write_filter (pre @ replicate 8 0 @ post) (length pre) f = pre @ filter_image f @ post"
  by (simp add: write_filter_def filter_image_def layout)

lemma read_filter_image: "read_filter (pre @ filter_image f @ post) (length pre) old = f"
  by (simp add: read_filter_def filter_image_def layout)

interpretation subscribe: message_codec SubscribeMessage_Encode SubscribeMessage_Decode
  kMESSAGE_TYPE_SUBSCRIBE SubscribeMessage_wf "\<lambda>m. unat (sub_filter_count m) \<le> 16"
  subscribe_body subscribe_received
proof unfold_locales
  fix m old :: SubscribeMessage and buf :: bytes
  let ?n = "unat (sub_filter_count m)"
  let ?fs = "take ?n (sub_filters m)"
  assume wf: "SubscribeMessage_wf m"
  have len: "?n \<le> 16 \<Longrightarrow> length (subscribe_body m) = 4 + ?n * 8"
    using wf length_concat_entries [of ?fs filter_image 8] by (simp add: subscribe_body_def SubscribeMessage_wf_def)
  have fs: "?n \<le> 16 \<Longrightarrow> length ?fs = ?n"
    using wf by (simp add: SubscribeMessage_wf_def)
  show "SubscribeMessage_Encode m buf =
      (if ?n \<le> 16 \<and> 4 + length (subscribe_body m) \<le> length buf
       then (4 + length (subscribe_body m),
         header_image kMESSAGE_TYPE_SUBSCRIBE (length (subscribe_body m)) @ subscribe_body m @
         drop (4 + length (subscribe_body m)) buf)
       else (0, buf))"
  proof (cases "?n \<le> 16 \<and> 8 + ?n * 8 \<le> length buf")
    case True
    let ?pre = "header_image kMESSAGE_TYPE_SUBSCRIBE (4 + ?n * 8) @ [sub_channel m, sub_filter_count m] @ replicate 2 0"
    have "write_entries write_filter 8 (?pre @ replicate (length ?fs * 8) 0 @ drop (8 + ?n * 8) buf) (length ?pre) ?fs =
        ?pre @ concat (map filter_image ?fs) @ drop (8 + ?n * 8) buf"
      by (rule write_entries_image) (simp add: write_filter_image)
    then show ?thesis
      using True fs len
      by (simp add: SubscribeMessage_Encode_def message_begin_fields [of "4 + ?n * 8" _ "[4, ?n * 8]"] layout)
        (simp add: subscribe_body_def Let_def)
  next
    case False
    then show ?thesis
      using len by (auto simp: SubscribeMessage_Encode_def Let_def)
  qed
  assume n: "?n \<le> 16"
  show "length (subscribe_body m) < 2 ^ 16"
    using len n by simp
  show "SubscribeMessage_Decode old (subscribe_body m) = (True, subscribe_received old m)"
    using n fs len
      read_entries_image [of ?fs read_filter filter_image "\<lambda>f. f" 8
        "[sub_channel m, sub_filter_count m] @ replicate 2 0" "[]" "sub_filters old"]
    by (simp add: SubscribeMessage_Decode_def subscribe_received_def read_filter_image)
      (simp add: subscribe_body_def Let_def)
qed

section \<open>REGISTER and REGISTER\_ACK\<close>

abbreviation (input) REGISTER_BODY_SIZE :: nat where "REGISTER_BODY_SIZE \<equiv> 388"
abbreviation (input) REGISTER_ACK_BODY_SIZE :: nat where "REGISTER_ACK_BODY_SIZE \<equiv> 20"
abbreviation (input) REGISTER_AGENT_NAME_SIZE :: nat where "REGISTER_AGENT_NAME_SIZE \<equiv> 128"
abbreviation (input) REGISTER_INTERFACES_MAX :: nat where "REGISTER_INTERFACES_MAX \<equiv> 16"
abbreviation (input) REGISTER_INTERFACE_NAME_SIZE :: nat where "REGISTER_INTERFACE_NAME_SIZE \<equiv> 16"
abbreviation (input) REGISTER_FLAG_FD_REPORTED :: u8 where "REGISTER_FLAG_FD_REPORTED \<equiv> 1"

record RegisterMessage =
  reg_agent_name :: bytes
  reg_interface_count :: u8
  reg_interface_names :: "bytes list"
  reg_fd_reported :: bool
  reg_fd_interfaces :: u16

record RegisterAckMessage =
  rack_status :: u8
  rack_interface_count :: u8
  rack_channels :: bytes

definition areInterfaceNamesValid :: "RegisterMessage \<Rightarrow> bool" where
  "areInterfaceNamesValid message =
     list_all (\<lambda>name. name ! (REGISTER_INTERFACE_NAME_SIZE - 1) = 0 \<and> strlen name \<noteq> 0)
       (take (unat (reg_interface_count message)) (reg_interface_names message))"

definition write_name :: "bytes \<Rightarrow> nat \<Rightarrow> bytes \<Rightarrow> bytes" where
  "write_name b off name = mem_write b off (take (strlen name) name)"

definition read_interface_name :: "bytes \<Rightarrow> nat \<Rightarrow> bytes \<Rightarrow> bytes" where
  "read_interface_name p off old =
     mem_write (mem_read p off REGISTER_INTERFACE_NAME_SIZE) (REGISTER_INTERFACE_NAME_SIZE - 1) [0]"

definition RegisterMessage_Encode :: "RegisterMessage \<Rightarrow> bytes \<Rightarrow> nat \<times> bytes" where
  "RegisterMessage_Encode self buffer =
     (let total_size = MESSAGE_HEADER_SIZE + REGISTER_BODY_SIZE; n = unat (reg_interface_count self)
      in if reg_agent_name self ! (REGISTER_AGENT_NAME_SIZE - 1) \<noteq> 0 then (0, buffer)
         else if REGISTER_INTERFACES_MAX < n \<or> \<not> areInterfaceNamesValid self then (0, buffer)
         else if length buffer < total_size then (0, buffer)
         else
           let b = message_begin kMESSAGE_TYPE_REGISTER REGISTER_BODY_SIZE buffer;
               body = MESSAGE_HEADER_SIZE;
               b = mem_write b (body + 0) (take (strlen (reg_agent_name self)) (reg_agent_name self));
               b = mem_write b (body + 128) [reg_interface_count self];
               b = (if reg_fd_reported self
                    then Wire_WriteU16 (mem_write b (body + 129) [REGISTER_FLAG_FD_REPORTED])
                           (body + 130) (reg_fd_interfaces self)
                    else b);
               b = write_entries write_name REGISTER_INTERFACE_NAME_SIZE b (body + 132)
                     (take n (reg_interface_names self))
           in (total_size, b))"

definition RegisterMessage_Decode :: "RegisterMessage \<Rightarrow> bytes \<Rightarrow> bool \<times> RegisterMessage" where
  "RegisterMessage_Decode self payload =
     (if length payload < REGISTER_BODY_SIZE then (False, self)
      else
        let self = self\<lparr>reg_agent_name :=
                mem_write (mem_read payload 0 REGISTER_AGENT_NAME_SIZE) (REGISTER_AGENT_NAME_SIZE - 1) [0],
              reg_interface_count := payload ! 128\<rparr>;
            n = unat (reg_interface_count self)
        in if REGISTER_INTERFACES_MAX < n then (False, self)
           else
             let reported = (payload ! 129) AND REGISTER_FLAG_FD_REPORTED \<noteq> 0;
                 self = self\<lparr>reg_fd_reported := reported,
                   reg_fd_interfaces := (if reported then Wire_ReadU16 payload 130 else 0),
                   reg_interface_names := read_entries read_interface_name REGISTER_INTERFACE_NAME_SIZE
                     payload 132 n (reg_interface_names self)\<rparr>
             in (areInterfaceNamesValid self, self))"

definition RegisterAckMessage_Encode :: "RegisterAckMessage \<Rightarrow> bytes \<Rightarrow> nat \<times> bytes" where
  "RegisterAckMessage_Encode self buffer =
     (let total_size = MESSAGE_HEADER_SIZE + REGISTER_ACK_BODY_SIZE; n = unat (rack_interface_count self)
      in if REGISTER_INTERFACES_MAX < n then (0, buffer)
         else if length buffer < total_size then (0, buffer)
         else
           let b = message_begin kMESSAGE_TYPE_REGISTER_ACK REGISTER_ACK_BODY_SIZE buffer;
               body = MESSAGE_HEADER_SIZE;
               b = mem_write b (body + 0) [rack_status self];
               b = mem_write b (body + 1) [rack_interface_count self];
               b = mem_write b (body + 4) (take n (rack_channels self))
           in (total_size, b))"

definition RegisterAckMessage_Decode :: "RegisterAckMessage \<Rightarrow> bytes \<Rightarrow> bool \<times> RegisterAckMessage" where
  "RegisterAckMessage_Decode self payload =
     (if length payload < REGISTER_ACK_BODY_SIZE then (False, self)
      else
        let self = self\<lparr>rack_status := payload ! 0, rack_interface_count := payload ! 1\<rparr>;
            n = unat (rack_interface_count self)
        in if REGISTER_INTERFACES_MAX < n then (False, self)
           else (True, self\<lparr>rack_channels := mem_write (rack_channels self) 0 (mem_read payload 4 n)\<rparr>))"

definition RegisterMessage_wf :: "RegisterMessage \<Rightarrow> bool" where
  "RegisterMessage_wf m \<longleftrightarrow> length (reg_agent_name m) = REGISTER_AGENT_NAME_SIZE \<and>
     length (reg_interface_names m) = REGISTER_INTERFACES_MAX \<and>
     list_all (\<lambda>name. length name = REGISTER_INTERFACE_NAME_SIZE) (reg_interface_names m)"

definition RegisterMessage_valid :: "RegisterMessage \<Rightarrow> bool" where
  "RegisterMessage_valid m \<longleftrightarrow> reg_agent_name m ! 127 = 0 \<and> unat (reg_interface_count m) \<le> 16 \<and>
     areInterfaceNamesValid m"

definition register_body :: "RegisterMessage \<Rightarrow> bytes" where
  "register_body m = (let n = unat (reg_interface_count m)
     in name_field REGISTER_AGENT_NAME_SIZE (reg_agent_name m) @ [reg_interface_count m] @
        (if reg_fd_reported m then [1] @ le16 (reg_fd_interfaces m) else replicate 3 0) @
        concat (map (name_field REGISTER_INTERFACE_NAME_SIZE) (take n (reg_interface_names m))) @
        replicate ((16 - n) * 16) 0)"

definition register_received :: "RegisterMessage \<Rightarrow> RegisterMessage \<Rightarrow> RegisterMessage" where
  "register_received old m = (let n = unat (reg_interface_count m)
     in m\<lparr>reg_agent_name := name_field REGISTER_AGENT_NAME_SIZE (reg_agent_name m),
       reg_fd_interfaces := (if reg_fd_reported m then reg_fd_interfaces m else 0),
       reg_interface_names := map (name_field REGISTER_INTERFACE_NAME_SIZE) (take n (reg_interface_names m)) @
         drop n (reg_interface_names old)\<rparr>)"

definition RegisterAckMessage_wf :: "RegisterAckMessage \<Rightarrow> bool" where
  "RegisterAckMessage_wf m \<longleftrightarrow> length (rack_channels m) = REGISTER_INTERFACES_MAX"

definition register_ack_body :: "RegisterAckMessage \<Rightarrow> bytes" where
  "register_ack_body m = [rack_status m, rack_interface_count m] @ replicate 2 0 @
     zero_pad 16 (take (unat (rack_interface_count m)) (rack_channels m))"

definition register_ack_received :: "RegisterAckMessage \<Rightarrow> RegisterAckMessage \<Rightarrow> RegisterAckMessage" where
  "register_ack_received old m =
     m\<lparr>rack_channels := mem_write (rack_channels old) 0 (take (unat (rack_interface_count m)) (rack_channels m))\<rparr>"

lemma write_name_image:
  "length (cstr a) < n \<Longrightarrow> write_name (pre @ replicate n 0 @ post) (length pre) a = pre @ name_field n a @ post"
  by (simp add: write_name_def layout)

lemma read_interface_name_image:
  "read_interface_name (pre @ name_field 16 a @ post) (length pre) old = name_field 16 a"
  by (simp add: read_interface_name_def layout)

lemma register_names:
  assumes "RegisterMessage_wf m" and "RegisterMessage_valid m"
    and "name \<in> set (take (unat (reg_interface_count m)) (reg_interface_names m))"
  shows "length (cstr name) < 16" and "cstr name \<noteq> []"
proof -
  have "length name = 16"
    using assms(1,3) by (auto simp: RegisterMessage_wf_def list_all_iff dest: in_set_takeD)
  moreover have "name ! 15 = 0" "strlen name \<noteq> 0"
    using assms(2,3) by (auto simp: RegisterMessage_valid_def areInterfaceNamesValid_def list_all_iff)
  ultimately show "length (cstr name) < 16" and "cstr name \<noteq> []"
    using terminated_strlen [of name 16] by (auto simp: strlen_def)
qed

lemma length_register_body:
  assumes "RegisterMessage_wf m" and "unat (reg_interface_count m) \<le> 16"
  shows "length (register_body m) = 388"
  using assms length_concat_entries [of "take (unat (reg_interface_count m)) (reg_interface_names m)"
      "name_field 16" 16]
  by (simp add: register_body_def RegisterMessage_wf_def Let_def)

lemma RegisterMessage_Encode_image:
  assumes "RegisterMessage_wf m" and "RegisterMessage_valid m" and "392 \<le> length buf"
  shows "RegisterMessage_Encode m buf =
    (392, header_image kMESSAGE_TYPE_REGISTER 388 @ register_body m @ drop 392 buf)"
proof -
  let ?n = "unat (reg_interface_count m)"
  let ?names = "take ?n (reg_interface_names m)"
  let ?rest = "replicate ((16 - ?n) * 16) 0 @ drop 392 buf"
  let ?pre = "header_image kMESSAGE_TYPE_REGISTER 388 @ name_field 128 (reg_agent_name m) @
    [reg_interface_count m] @ (if reg_fd_reported m then [1] @ le16 (reg_fd_interfaces m) else replicate 3 0)"
  have n: "?n \<le> 16" "length ?names = ?n"
    using assms by (auto simp: RegisterMessage_valid_def RegisterMessage_wf_def)
  have agent: "length (cstr (reg_agent_name m)) < 128"
    using assms terminated_strlen [of "reg_agent_name m" 128]
    by (simp add: RegisterMessage_wf_def RegisterMessage_valid_def)
  have "write_entries write_name 16 (?pre @ replicate (length ?names * 16) 0 @ ?rest) (length ?pre) ?names =
      ?pre @ concat (map (name_field 16) ?names) @ ?rest"
    by (rule write_entries_image) (simp add: write_name_image register_names(1) [OF assms(1,2)])
  moreover have "message_begin kMESSAGE_TYPE_REGISTER 388 buf = header_image kMESSAGE_TYPE_REGISTER 388 @
      zero_fields [128, 4, ?n * 16, (16 - ?n) * 16] @ drop (4 + 388) buf"
    using assms(3) n by (intro message_begin_fields) simp_all
  ultimately show ?thesis
    using assms n agent
    by (cases "reg_fd_reported m")
      (simp_all add: RegisterMessage_Encode_def RegisterMessage_valid_def register_body_def layout Let_def)
qed

lemma RegisterMessage_Decode_body:
  assumes "RegisterMessage_wf m" and "RegisterMessage_valid m" and "RegisterMessage_wf old"
  shows "RegisterMessage_Decode old (register_body m) = (True, register_received old m)"
proof -
  let ?n = "unat (reg_interface_count m)"
  let ?names = "take ?n (reg_interface_names m)"
  let ?pre = "name_field 128 (reg_agent_name m) @
    [reg_interface_count m] @ (if reg_fd_reported m then [1] @ le16 (reg_fd_interfaces m) else replicate 3 0)"
  have n: "?n \<le> 16" "length ?names = ?n"
    using assms by (auto simp: RegisterMessage_valid_def RegisterMessage_wf_def)
  have "read_entries read_interface_name 16
      (?pre @ concat (map (name_field 16) ?names) @ replicate ((16 - ?n) * 16) 0) (length ?pre) (length ?names)
      (reg_interface_names old) = map (name_field 16) ?names @ drop (length ?names) (reg_interface_names old)"
    by (rule read_entries_image) (simp_all add: read_interface_name_image)
  moreover have "areInterfaceNamesValid r" if "reg_interface_count r = reg_interface_count m"
      and "reg_interface_names r = map (name_field 16) ?names @ drop ?n (reg_interface_names old)" for r
    using that n register_names [OF assms(1,2)]
    by (auto simp: areInterfaceNamesValid_def list_all_iff strlen_def)
  ultimately show ?thesis
    using n length_register_body [OF assms(1)]
    by (cases "reg_fd_reported m")
      (simp_all add: RegisterMessage_Decode_def register_received_def register_body_def layout Let_def)
qed

interpretation register: message_codec RegisterMessage_Encode RegisterMessage_Decode kMESSAGE_TYPE_REGISTER
  RegisterMessage_wf RegisterMessage_valid register_body register_received
proof unfold_locales
  fix m old :: RegisterMessage and buf :: bytes
  assume wf: "RegisterMessage_wf m"
  have len: "RegisterMessage_valid m \<Longrightarrow> length (register_body m) = 388"
    using wf length_register_body [of m] by (simp add: RegisterMessage_valid_def)
  show "RegisterMessage_Encode m buf =
      (if RegisterMessage_valid m \<and> 4 + length (register_body m) \<le> length buf
       then (4 + length (register_body m),
         header_image kMESSAGE_TYPE_REGISTER (length (register_body m)) @ register_body m @
         drop (4 + length (register_body m)) buf)
       else (0, buf))"
  proof (cases "RegisterMessage_valid m \<and> 392 \<le> length buf")
    case True
    then show ?thesis
      using RegisterMessage_Encode_image [OF wf] len by simp
  next
    case False
    then show ?thesis
      using len by (auto simp: RegisterMessage_Encode_def RegisterMessage_valid_def Let_def)
  qed
  assume v: "RegisterMessage_valid m"
  show "length (register_body m) < 2 ^ 16"
    using len v by simp
  assume "RegisterMessage_wf old"
  then show "RegisterMessage_Decode old (register_body m) = (True, register_received old m)"
    using RegisterMessage_Decode_body wf v by blast
qed

interpretation register_ack: message_codec RegisterAckMessage_Encode RegisterAckMessage_Decode
  kMESSAGE_TYPE_REGISTER_ACK RegisterAckMessage_wf "\<lambda>m. unat (rack_interface_count m) \<le> 16"
  register_ack_body register_ack_received
proof unfold_locales
  fix m old :: RegisterAckMessage and buf :: bytes
  let ?n = "unat (rack_interface_count m)"
  assume wf: "RegisterAckMessage_wf m"
  then have ch: "length (take ?n (rack_channels m)) = min 16 ?n"
    by (simp add: RegisterAckMessage_wf_def)
  have len: "length (register_ack_body m) = 20"
    using ch by (simp add: register_ack_body_def)
  show "RegisterAckMessage_Encode m buf =
      (if ?n \<le> 16 \<and> 4 + length (register_ack_body m) \<le> length buf
       then (4 + length (register_ack_body m),
         header_image kMESSAGE_TYPE_REGISTER_ACK (length (register_ack_body m)) @ register_ack_body m @
         drop (4 + length (register_ack_body m)) buf)
       else (0, buf))"
    using ch len
    by (simp add: RegisterAckMessage_Encode_def message_begin_fields [of 20 _ "[4, 16]"] layout)
      (simp add: register_ack_body_def zero_pad_def Let_def)
  show "length (register_ack_body m) < 2 ^ 16"
    using len by simp
  assume "?n \<le> 16"
  then show "RegisterAckMessage_Decode old (register_ack_body m) = (True, register_ack_received old m)"
    using ch len
    by (simp add: RegisterAckMessage_Decode_def register_ack_received_def register_ack_body_def
        zero_pad_def layout Let_def)
qed

lemma length_read_interface_name: "off + 16 \<le> length p \<Longrightarrow> length (read_interface_name p off old) = 16"
  by (simp add: read_interface_name_def)

lemma register_decoded_ok:
  assumes "RegisterMessage_wf old" and "RegisterMessage_Decode old p = (True, m)"
  shows "RegisterMessage_wf m" and "RegisterMessage_valid m"
proof -
  let ?n = "unat (p ! 128)"
  have len: "388 \<le> length p" "?n \<le> 16" and valid: "areInterfaceNamesValid m"
    and count: "reg_interface_count m = p ! 128"
    and agent: "reg_agent_name m = mem_write (mem_read p 0 128) 127 [0]"
    and names: "reg_interface_names m = read_entries read_interface_name 16 p 132 ?n (reg_interface_names old)"
    using assms(2) by (auto simp: RegisterMessage_Decode_def Let_def split: if_splits)
  have "length name = 16" if "name \<in> set (reg_interface_names m)" for name
    using that assms(1) len
    by (auto simp: names read_entries_def RegisterMessage_wf_def list_all_iff length_read_interface_name
        dest: in_set_dropD)
  then show "RegisterMessage_wf m"
    using assms(1) len by (simp add: RegisterMessage_wf_def list_all_iff agent) (simp add: names)
  show "RegisterMessage_valid m"
    using valid len count agent by (simp add: RegisterMessage_valid_def nth_mem_write)
qed

lemma hello_arrives:
  assumes "HelloMessage_wf m" and "HelloMessage_wf old" and "isRoleValid (hello_role m)" and "76 \<le> length buf"
  obtains buf' where "HelloMessage_Encode m buf = (76, buf')"
    and "HelloMessage_Decode old (mem_read buf' 4 72) = (True, hello_received old m)"
  using hello.delivers_codec [OF assms(1,2), of buf] assms(3,4)
  by (auto simp: delivers_def hello_body_def split: prod.splits if_splits)

text \<open>The name \<open>HelloMessage_Build\<close> leaves in its struct.\<close>

lemma built_name:
  fixes s uninit :: bytes
  assumes "length uninit = 64"
  defines "built \<equiv> mem_write (mem_write (mem_write uninit 0 [0]) 0 (take (strnlen s 63) s)) (strnlen s 63) [0]"
  shows "length built = 64" and "cstr built = take 63 (cstr s)"
proof -
  let ?c = "take 63 (cstr s)" and ?d = "mem_write uninit 0 [0]"
  have built: "built = mem_write (mem_write ?d 0 ?c) (length ?c) [0]"
    unfolding built_def take_strnlen length_take_strnlen ..
  have d: "length ?d = 64" and c: "length ?c \<le> 63"
    using assms(1) by simp_all
  then have "length (mem_write ?d 0 ?c) = 64"
    by (subst length_mem_write) simp_all
  then show "length built = 64"
    unfolding built using c by (subst length_mem_write) simp_all
  show "cstr built = ?c"
    unfolding built using d c cstr_no_nul [of s] by (intro cstr_write_nul) (auto dest: in_set_takeD)
qed

section \<open>Properties\<close>

text \<open>
  C26.  The session messages are delivered: HELLO (unless its role is unknown), ERROR
  (unless its text has no NUL), OPEN, OPEN\_ACK and CLOSE are refused only for lack of
  space and otherwise arrive with every field intact.
\<close>

theorem session_messages_delivered:
  assumes "HelloMessage_wf h" and "HelloMessage_wf h0" and "ErrorMessage_wf e" and "ErrorMessage_wf e0"
  shows "delivers HelloMessage_Encode HelloMessage_Decode kMESSAGE_TYPE_HELLO
      (isRoleValid (hello_role h)) 72 (hello_received h0 h) h h0 buf \<and>
    delivers ErrorMessage_Encode ErrorMessage_Decode kMESSAGE_TYPE_ERROR
      (err_detail e ! 63 = 0) 68 (error_received e0 e) e e0 buf \<and>
    delivers OpenMessage_Encode OpenMessage_Decode kMESSAGE_TYPE_OPEN True 8 op op op0 buf \<and>
    delivers OpenAckMessage_Encode OpenAckMessage_Decode kMESSAGE_TYPE_OPEN_ACK True 8 oa oa oa0 buf \<and>
    delivers CloseMessage_Encode CloseMessage_Decode kMESSAGE_TYPE_CLOSE True 4 cl cl cl0 buf"
  using hello.delivers_codec [OF assms(1,2), of buf] err.delivers_codec [OF assms(3,4), of buf]
    opn.delivers_codec [of op op0 buf] open_ack.delivers_codec [of oa oa0 buf] cls.delivers_codec [of cl cl0 buf]
  by (simp add: hello_body_def error_body_def open_body_def open_ack_body_def close_body_def)

definition sample_hello :: HelloMessage where
  "sample_hello = \<lparr>hello_version = 0, hello_role = 2, hello_capabilities = 1, hello_name = 99 # replicate 63 0\<rparr>"

definition sample_error :: ErrorMessage where
  "sample_error = \<lparr>err_code = 3, err_detail = 70 # replicate 63 0\<rparr>"

theorem session_messages_delivered_witness:
  "HelloMessage_wf sample_hello \<and> ErrorMessage_wf sample_error \<and> isRoleValid (hello_role sample_hello) \<and>
   err_detail sample_error ! 63 = 0 \<and>
   delivers HelloMessage_Encode HelloMessage_Decode kMESSAGE_TYPE_HELLO True 72
     (hello_received sample_hello sample_hello) sample_hello sample_hello (replicate 80 0) \<and>
   delivers ErrorMessage_Encode ErrorMessage_Decode kMESSAGE_TYPE_ERROR True 68
     (error_received sample_error sample_error) sample_error sample_error (replicate 80 0)"
  using session_messages_delivered [of sample_hello sample_hello sample_error sample_error "replicate 80 0"]
  by (simp add: HelloMessage_wf_def ErrorMessage_wf_def sample_hello_def sample_error_def isRoleValid_def)

text \<open>
  \<open>HelloMessage_Build\<close> announces the protocol version, the role, the capabilities
  and the name cut to 63 bytes (an empty name when there is none), whatever the stack
  held where the struct is built.
\<close>

theorem HelloMessage_Build_announces:
  assumes "isRoleValid role" and "76 \<le> length buf" and "length uninit = HELLO_NAME_SIZE" and "HelloMessage_wf old"
  shows "case HelloMessage_Build role name capabilities uninit buf of (n, buf') \<Rightarrow>
    n = 76 \<and> (\<exists>d. HelloMessage_Decode old (mem_read buf' 4 72) = (True, d) \<and>
      hello_version d = PROTOCOL_VERSION \<and> hello_role d = role \<and> hello_capabilities d = capabilities \<and>
      cstr (hello_name d) = (case name of None \<Rightarrow> [] | Some s \<Rightarrow> take 63 (cstr s)))"
proof -
  obtain field where build: "HelloMessage_Build role name capabilities uninit buf =
      HelloMessage_Encode \<lparr>hello_version = PROTOCOL_VERSION, hello_role = role,
        hello_capabilities = capabilities, hello_name = field\<rparr> buf"
    and field: "length field = 64" "cstr field = (case name of None \<Rightarrow> [] | Some s \<Rightarrow> take 63 (cstr s))"
  proof (cases name)
    case None
    then show ?thesis
      using that [of "mem_write uninit 0 [0]"] assms(3)
      by (simp add: HelloMessage_Build_def mem_write_start cstr_def)
  next
    case (Some s)
    then show ?thesis
      using that built_name [of uninit s] assms(3) by (simp add: HelloMessage_Build_def Let_def)
  qed
  let ?m = "\<lparr>hello_version = PROTOCOL_VERSION, hello_role = role,
    hello_capabilities = capabilities, hello_name = field\<rparr>"
  have "HelloMessage_wf ?m" and "isRoleValid (hello_role ?m)"
    using field assms(1) by (simp_all add: HelloMessage_wf_def)
  from hello_arrives [OF this(1) assms(4) this(2) assms(2)]
  obtain buf' where enc: "HelloMessage_Encode ?m buf = (76, buf')"
    and dec: "HelloMessage_Decode old (mem_read buf' 4 72) = (True, hello_received old ?m)" .
  have "cstr (hello_name (hello_received old ?m)) = (case name of None \<Rightarrow> [] | Some s \<Rightarrow> take 63 (cstr s))"
    by (cases name) (simp_all add: hello_received_def field(2))
  then show ?thesis
    by (simp add: build enc dec) (simp add: hello_received_def)
qed

theorem HelloMessage_Build_announces_witness:
  "isRoleValid kPEER_ROLE_CLIENT \<and> HelloMessage_wf sample_hello \<and>
   (case HelloMessage_Build kPEER_ROLE_CLIENT (Some [99, 0]) 1 (replicate 64 7) (replicate 80 0) of (n, buf') \<Rightarrow>
      n = 76 \<and> cstr (hello_name (snd (HelloMessage_Decode sample_hello (mem_read buf' 4 72)))) = [99])"
proof -
  have ok: "isRoleValid kPEER_ROLE_CLIENT" "HelloMessage_wf sample_hello"
    by (simp_all add: isRoleValid_def
        HelloMessage_wf_def sample_hello_def)
  show ?thesis
    using HelloMessage_Build_announces [OF ok(1) _ _ ok(2), where buf = "replicate 80 0" and
        uninit = "replicate 64 7" and name = "Some [99, 0]" and capabilities = 1] ok
    by (auto simp: cstr_def)
qed

text \<open>
  C27.  Subscriptions and registrations are delivered: SUBSCRIBE with up to 16 filters,
  REGISTER with up to 16 non-empty terminated interface names, and REGISTER\_ACK.
\<close>

theorem registration_messages_delivered:
  assumes "SubscribeMessage_wf s" and "SubscribeMessage_wf s0" and "RegisterMessage_wf r" and "RegisterMessage_wf r0"
    and "RegisterAckMessage_wf a" and "RegisterAckMessage_wf a0"
  shows "(unat (sub_filter_count s) \<le> 16 \<longrightarrow>
      delivers SubscribeMessage_Encode SubscribeMessage_Decode kMESSAGE_TYPE_SUBSCRIBE True
        (4 + 8 * unat (sub_filter_count s)) (subscribe_received s0 s) s s0 buf) \<and>
    (RegisterMessage_valid r \<longrightarrow>
      delivers RegisterMessage_Encode RegisterMessage_Decode kMESSAGE_TYPE_REGISTER True 388
        (register_received r0 r) r r0 buf) \<and>
    delivers RegisterAckMessage_Encode RegisterAckMessage_Decode kMESSAGE_TYPE_REGISTER_ACK
        (unat (rack_interface_count a) \<le> 16) 20 (register_ack_received a0 a) a a0 buf"
proof (intro conjI impI)
  assume n: "unat (sub_filter_count s) \<le> 16"
  have "length (subscribe_body s) = 4 + 8 * unat (sub_filter_count s)"
    using assms(1) n length_concat_entries [of "take (unat (sub_filter_count s)) (sub_filters s)" filter_image 8]
    by (simp add: subscribe_body_def SubscribeMessage_wf_def)
  then show "delivers SubscribeMessage_Encode SubscribeMessage_Decode kMESSAGE_TYPE_SUBSCRIBE True
      (4 + 8 * unat (sub_filter_count s)) (subscribe_received s0 s) s s0 buf"
    using subscribe.delivers_codec [OF assms(1,2), of buf] n by simp
next
  assume v: "RegisterMessage_valid r"
  then show "delivers RegisterMessage_Encode RegisterMessage_Decode kMESSAGE_TYPE_REGISTER True 388
      (register_received r0 r) r r0 buf"
    using register.delivers_codec [OF assms(3,4), of buf] length_register_body [OF assms(3)]
    by (simp add: RegisterMessage_valid_def)
next
  have "length (register_ack_body a) = 20"
    using assms(5) by (simp add: register_ack_body_def RegisterAckMessage_wf_def)
  then show "delivers RegisterAckMessage_Encode RegisterAckMessage_Decode kMESSAGE_TYPE_REGISTER_ACK
      (unat (rack_interface_count a) \<le> 16) 20 (register_ack_received a0 a) a a0 buf"
    using register_ack.delivers_codec [OF assms(5,6), of buf] by simp
qed

definition sample_subscribe :: SubscribeMessage where
  "sample_subscribe = \<lparr>sub_channel = 1, sub_filter_count = 2,
     sub_filters = replicate 16 \<lparr>flt_can_id = 0x100, flt_can_mask = 0x700\<rparr>\<rparr>"

definition sample_register :: RegisterMessage where
  "sample_register = \<lparr>reg_agent_name = 97 # replicate 127 0, reg_interface_count = 1,
     reg_interface_names = replicate 16 (99 # replicate 15 0), reg_fd_reported = True, reg_fd_interfaces = 1\<rparr>"

definition sample_register_ack :: RegisterAckMessage where
  "sample_register_ack = \<lparr>rack_status = 0, rack_interface_count = 1, rack_channels = replicate 16 1\<rparr>"

lemma sample_registration_ok:
  "SubscribeMessage_wf sample_subscribe" "RegisterMessage_wf sample_register"
  "RegisterAckMessage_wf sample_register_ack" "RegisterMessage_valid sample_register"
  by (simp_all add: SubscribeMessage_wf_def RegisterMessage_wf_def RegisterAckMessage_wf_def
      RegisterMessage_valid_def areInterfaceNamesValid_def sample_subscribe_def sample_register_def
      sample_register_ack_def strlen_def cstr_def list_all_iff)

theorem registration_messages_delivered_witness:
  "unat (sub_filter_count sample_subscribe) \<le> 16 \<and> RegisterMessage_valid sample_register \<and>
   delivers SubscribeMessage_Encode SubscribeMessage_Decode kMESSAGE_TYPE_SUBSCRIBE True
     20 (subscribe_received sample_subscribe sample_subscribe) sample_subscribe sample_subscribe (replicate 400 0) \<and>
   delivers RegisterMessage_Encode RegisterMessage_Decode kMESSAGE_TYPE_REGISTER True 388
     (register_received sample_register sample_register) sample_register sample_register (replicate 400 0)"
  using registration_messages_delivered [OF sample_registration_ok(1,1,2,2,3,3), of "replicate 400 0"]
    sample_registration_ok
  by (simp add: sample_subscribe_def)

text \<open>
  What the REGISTER decoder accepts is safe to use and could have been sent: at most
  16 interfaces, every name terminated inside its array and not empty.
\<close>

theorem RegisterMessage_decoded_valid:
  assumes "RegisterMessage_wf old" and "RegisterMessage_Decode old p = (True, m)"
  shows "RegisterMessage_wf m \<and> RegisterMessage_valid m"
  using register_decoded_ok [OF assms] by simp

theorem RegisterMessage_decoded_valid_witness:
  "RegisterMessage_wf sample_register \<and>
   fst (RegisterMessage_Decode sample_register (register_body sample_register)) \<and>
   RegisterMessage_valid (snd (RegisterMessage_Decode sample_register (register_body sample_register)))"
  using RegisterMessage_Decode_body [OF sample_registration_ok(2,4,2)]
    RegisterMessage_decoded_valid [OF sample_registration_ok(2), of "register_body sample_register"]
    sample_registration_ok(2)
  by simp

end
