(* ===== verification/ListingMessages.thy ===== *)
theory ListingMessages
  imports ControlMessages
begin

text \<open>
  Interface listings: \<open>list_message.c\<close>, \<open>interface_status_message.c\<close> and the
  resolution of \<open>agent/interface\<close> names against a listing, \<open>interface_name.c\<close>.
\<close>

section \<open>LIST and LIST\_REPLY\<close>

abbreviation (input) LIST_BODY_SIZE :: nat where "LIST_BODY_SIZE \<equiv> 4"
abbreviation (input) LIST_REPLY_ENTRIES_MAX :: nat where "LIST_REPLY_ENTRIES_MAX \<equiv> 16"
abbreviation (input) LIST_REPLY_ENTRY_SIZE :: nat where "LIST_REPLY_ENTRY_SIZE \<equiv> 148"
abbreviation (input) LIST_REPLY_FIXED_FIELDS_SIZE :: nat where "LIST_REPLY_FIXED_FIELDS_SIZE \<equiv> 4"

record ListMessage =
  list_offset :: u16

record ListReplyEntry =
  le_interface_id :: u32
  le_agent_name :: bytes
  le_interface_name :: bytes

record ListReplyMessage =
  lr_count :: u8
  lr_flags :: u8
  lr_entries :: "ListReplyEntry list"

definition ListMessage_Encode :: "ListMessage \<Rightarrow> bytes \<Rightarrow> nat \<times> bytes" where
  "ListMessage_Encode self buffer =
     (let total_size = MESSAGE_HEADER_SIZE + LIST_BODY_SIZE
      in if length buffer < total_size then (0, buffer)
         else
           let b = message_begin kMESSAGE_TYPE_LIST LIST_BODY_SIZE buffer;
               b = Wire_WriteU16 b (MESSAGE_HEADER_SIZE + 0) (list_offset self)
           in (total_size, b))"

definition ListMessage_Decode :: "ListMessage \<Rightarrow> bytes \<Rightarrow> bool \<times> ListMessage" where
  "ListMessage_Decode self payload =
     (if length payload < LIST_BODY_SIZE then (False, self)
      else (True, self\<lparr>list_offset := Wire_ReadU16 payload 0\<rparr>))"

definition areEntriesValid :: "ListReplyMessage \<Rightarrow> bool" where
  "areEntriesValid message =
     list_all (\<lambda>e. le_agent_name e ! (REGISTER_AGENT_NAME_SIZE - 1) = 0 \<and>
         le_interface_name e ! (REGISTER_INTERFACE_NAME_SIZE - 1) = 0)
       (take (unat (lr_count message)) (lr_entries message))"

definition writeEntry :: "bytes \<Rightarrow> nat \<Rightarrow> ListReplyEntry \<Rightarrow> bytes" where
  "writeEntry b off entry =
     (let b = Wire_WriteU32 b (off + 0) (le_interface_id entry);
          b = mem_write b (off + 4) (take (strlen (le_agent_name entry)) (le_agent_name entry))
      in mem_write b (off + 132) (take (strlen (le_interface_name entry)) (le_interface_name entry)))"

definition readEntry :: "bytes \<Rightarrow> nat \<Rightarrow> ListReplyEntry \<Rightarrow> ListReplyEntry" where
  "readEntry p off entry = entry\<lparr>
     le_interface_id := Wire_ReadU32 p (off + 0),
     le_agent_name := mem_write (mem_read p (off + 4) REGISTER_AGENT_NAME_SIZE) (REGISTER_AGENT_NAME_SIZE - 1) [0],
     le_interface_name :=
       mem_write (mem_read p (off + 132) REGISTER_INTERFACE_NAME_SIZE) (REGISTER_INTERFACE_NAME_SIZE - 1) [0]\<rparr>"

definition ListReplyMessage_Encode :: "ListReplyMessage \<Rightarrow> bytes \<Rightarrow> nat \<times> bytes" where
  "ListReplyMessage_Encode self buffer =
     (let n = unat (lr_count self)
      in if LIST_REPLY_ENTRIES_MAX < n \<or> \<not> areEntriesValid self then (0, buffer)
         else
           let body_size = LIST_REPLY_FIXED_FIELDS_SIZE + n * LIST_REPLY_ENTRY_SIZE;
               total_size = MESSAGE_HEADER_SIZE + body_size
           in if length buffer < total_size then (0, buffer)
              else
                let b = message_begin kMESSAGE_TYPE_LIST_REPLY body_size buffer;
                    body = MESSAGE_HEADER_SIZE;
                    b = mem_write b (body + 0) [lr_count self];
                    b = mem_write b (body + 1) [lr_flags self];
                    b = write_entries writeEntry LIST_REPLY_ENTRY_SIZE b (body + 4) (take n (lr_entries self))
                in (total_size, b))"

definition ListReplyMessage_Decode :: "ListReplyMessage \<Rightarrow> bytes \<Rightarrow> bool \<times> ListReplyMessage" where
  "ListReplyMessage_Decode self payload =
     (if length payload < LIST_REPLY_FIXED_FIELDS_SIZE then (False, self)
      else
        let self = self\<lparr>lr_count := payload ! 0, lr_flags := payload ! 1\<rparr>; n = unat (lr_count self)
        in if LIST_REPLY_ENTRIES_MAX < n then (False, self)
           else if length payload < LIST_REPLY_FIXED_FIELDS_SIZE + n * LIST_REPLY_ENTRY_SIZE then (False, self)
           else (True, self\<lparr>lr_entries :=
             read_entries readEntry LIST_REPLY_ENTRY_SIZE payload 4 n (lr_entries self)\<rparr>))"

definition ListReplyEntry_wf :: "ListReplyEntry \<Rightarrow> bool" where
  "ListReplyEntry_wf e \<longleftrightarrow> length (le_agent_name e) = REGISTER_AGENT_NAME_SIZE \<and>
     length (le_interface_name e) = REGISTER_INTERFACE_NAME_SIZE"

definition ListReplyMessage_wf :: "ListReplyMessage \<Rightarrow> bool" where
  "ListReplyMessage_wf m \<longleftrightarrow> length (lr_entries m) = LIST_REPLY_ENTRIES_MAX \<and>
     list_all ListReplyEntry_wf (lr_entries m)"

definition ListReplyMessage_valid :: "ListReplyMessage \<Rightarrow> bool" where
  "ListReplyMessage_valid m \<longleftrightarrow> unat (lr_count m) \<le> 16 \<and> areEntriesValid m"

definition list_body :: "ListMessage \<Rightarrow> bytes" where
  "list_body m = le16 (list_offset m) @ replicate 2 0"

definition entry_image :: "ListReplyEntry \<Rightarrow> bytes" where
  "entry_image e = le32 (le_interface_id e) @ name_field REGISTER_AGENT_NAME_SIZE (le_agent_name e) @
     name_field REGISTER_INTERFACE_NAME_SIZE (le_interface_name e)"

definition entry_received :: "ListReplyEntry \<Rightarrow> ListReplyEntry" where
  "entry_received e = e\<lparr>le_agent_name := name_field REGISTER_AGENT_NAME_SIZE (le_agent_name e),
     le_interface_name := name_field REGISTER_INTERFACE_NAME_SIZE (le_interface_name e)\<rparr>"

definition list_reply_body :: "ListReplyMessage \<Rightarrow> bytes" where
  "list_reply_body m = [lr_count m, lr_flags m] @ replicate 2 0 @
     concat (map entry_image (take (unat (lr_count m)) (lr_entries m)))"

definition list_reply_received :: "ListReplyMessage \<Rightarrow> ListReplyMessage \<Rightarrow> ListReplyMessage" where
  "list_reply_received old m = (let n = unat (lr_count m)
     in m\<lparr>lr_entries := map entry_received (take n (lr_entries m)) @ drop n (lr_entries old)\<rparr>)"

interpretation lst: message_codec ListMessage_Encode ListMessage_Decode kMESSAGE_TYPE_LIST
  "\<lambda>m. True" "\<lambda>m. True" list_body "\<lambda>old m. m"
  by unfold_locales
    (simp_all add: ListMessage_Encode_def ListMessage_Decode_def list_body_def
      message_begin_fields [of 4 _ "[4]"] layout Let_def)

lemma length_entry_image [simp]: "length (entry_image e) = 148"
  by (simp add: entry_image_def)

lemma writeEntry_image:
  assumes "length (cstr (le_agent_name e)) < 128" and "length (cstr (le_interface_name e)) < 16"
  shows "writeEntry (pre @ replicate 148 0 @ post) (length pre) e = pre @ entry_image e @ post"
proof -
  have "replicate 148 0 = zero_fields [4, 128, 16]"
    by (simp add: zero_fields_sum)
  then show ?thesis
    using assms by (simp add: writeEntry_def entry_image_def layout Let_def)
qed

lemma readEntry_image: "readEntry (pre @ entry_image e @ post) (length pre) old = entry_received e"
  by (simp add: readEntry_def entry_image_def entry_received_def layout)

lemma list_reply_names:
  assumes "ListReplyMessage_wf m" and "areEntriesValid m"
    and "e \<in> set (take (unat (lr_count m)) (lr_entries m))"
  shows "length (cstr (le_agent_name e)) < 128" and "length (cstr (le_interface_name e)) < 16"
proof -
  have "ListReplyEntry_wf e"
    using assms(1,3) by (auto simp: ListReplyMessage_wf_def list_all_iff dest: in_set_takeD)
  moreover have "le_agent_name e ! 127 = 0" "le_interface_name e ! 15 = 0"
    using assms(2,3) by (auto simp: areEntriesValid_def list_all_iff)
  ultimately show "length (cstr (le_agent_name e)) < 128" and "length (cstr (le_interface_name e)) < 16"
    using terminated_strlen [of "le_agent_name e" 128] terminated_strlen [of "le_interface_name e" 16]
    by (simp_all add: ListReplyEntry_wf_def)
qed

interpretation list_reply: message_codec ListReplyMessage_Encode ListReplyMessage_Decode
  kMESSAGE_TYPE_LIST_REPLY ListReplyMessage_wf ListReplyMessage_valid list_reply_body list_reply_received
proof unfold_locales
  fix m old :: ListReplyMessage and buf :: bytes
  let ?n = "unat (lr_count m)"
  let ?es = "take ?n (lr_entries m)"
  assume wf: "ListReplyMessage_wf m"
  have len: "?n \<le> 16 \<Longrightarrow> length (list_reply_body m) = 4 + ?n * 148"
    using wf length_concat_entries [of ?es entry_image 148]
    by (simp add: list_reply_body_def ListReplyMessage_wf_def)
  have es: "?n \<le> 16 \<Longrightarrow> length ?es = ?n"
    using wf by (simp add: ListReplyMessage_wf_def)
  show "ListReplyMessage_Encode m buf =
      (if ListReplyMessage_valid m \<and> 4 + length (list_reply_body m) \<le> length buf
       then (4 + length (list_reply_body m),
         header_image kMESSAGE_TYPE_LIST_REPLY (length (list_reply_body m)) @ list_reply_body m @
         drop (4 + length (list_reply_body m)) buf)
       else (0, buf))"
  proof (cases "ListReplyMessage_valid m \<and> 8 + ?n * 148 \<le> length buf")
    case True
    let ?pre = "header_image kMESSAGE_TYPE_LIST_REPLY (4 + ?n * 148) @ [lr_count m, lr_flags m] @ replicate 2 0"
    have "write_entries writeEntry 148 (?pre @ replicate (length ?es * 148) 0 @ drop (8 + ?n * 148) buf)
        (length ?pre) ?es = ?pre @ concat (map entry_image ?es) @ drop (8 + ?n * 148) buf"
      using True list_reply_names [OF wf]
      by (intro write_entries_image) (simp add: writeEntry_image ListReplyMessage_valid_def)
    then show ?thesis
      using True es len
      by (simp add: ListReplyMessage_Encode_def ListReplyMessage_valid_def
          message_begin_fields [of "4 + ?n * 148" _ "[4, ?n * 148]"] layout)
        (simp add: list_reply_body_def Let_def)
  next
    case False
    then show ?thesis
      using len by (auto simp: ListReplyMessage_Encode_def ListReplyMessage_valid_def Let_def)
  qed
  assume "ListReplyMessage_valid m"
  then have n: "?n \<le> 16"
    by (simp add: ListReplyMessage_valid_def)
  show "length (list_reply_body m) < 2 ^ 16"
    using len n by simp
  show "ListReplyMessage_Decode old (list_reply_body m) = (True, list_reply_received old m)"
    using n es len
      read_entries_image [of ?es readEntry entry_image entry_received 148
        "[lr_count m, lr_flags m] @ replicate 2 0" "[]" "lr_entries old"]
    by (simp add: ListReplyMessage_Decode_def list_reply_received_def readEntry_image)
      (simp add: list_reply_body_def Let_def)
qed

section \<open>INTERFACE\_STATUS\<close>

abbreviation (input) INTERFACE_STATUS_ENTRY_SIZE :: nat where "INTERFACE_STATUS_ENTRY_SIZE \<equiv> 20"
abbreviation (input) INTERFACE_STATUS_BODY_SIZE :: nat where "INTERFACE_STATUS_BODY_SIZE \<equiv> 4 + REGISTER_INTERFACES_MAX * INTERFACE_STATUS_ENTRY_SIZE"

record InterfaceStatusEntry =
  ise_channel :: u8
  ise_flags :: u8
  ise_advertised_rate :: u32
  ise_credit :: u32
  ise_tx_dropped :: u64

record InterfaceStatusMessage =
  ism_interface_count :: u8
  ism_entries :: "InterfaceStatusEntry list"

definition encode_status_header :: "u8 \<Rightarrow> nat \<Rightarrow> bytes \<Rightarrow> nat \<times> bytes" where
  "encode_status_header type body_size buffer =
     (let total_size = MESSAGE_HEADER_SIZE + body_size
      in if length buffer < total_size then (0, buffer)
         else (total_size, message_begin type body_size buffer))"

definition write_status_entry :: "bytes \<Rightarrow> nat \<Rightarrow> InterfaceStatusEntry \<Rightarrow> bytes" where
  "write_status_entry b off e =
     (let b = mem_write b (off + 0) [ise_channel e];
          b = mem_write b (off + 1) [ise_flags e];
          b = Wire_WriteU32 b (off + 4) (ise_advertised_rate e);
          b = Wire_WriteU32 b (off + 8) (ise_credit e)
      in Wire_WriteU64 b (off + 12) (ise_tx_dropped e))"

definition read_status_entry :: "bytes \<Rightarrow> nat \<Rightarrow> InterfaceStatusEntry \<Rightarrow> InterfaceStatusEntry" where
  "read_status_entry p off e = e\<lparr>
     ise_channel := p ! (off + 0), ise_flags := p ! (off + 1),
     ise_advertised_rate := Wire_ReadU32 p (off + 4), ise_credit := Wire_ReadU32 p (off + 8),
     ise_tx_dropped := Wire_ReadU64 p (off + 12)\<rparr>"

definition InterfaceStatusMessage_Encode :: "InterfaceStatusMessage \<Rightarrow> bytes \<Rightarrow> nat \<times> bytes" where
  "InterfaceStatusMessage_Encode self buffer =
     (let n = unat (ism_interface_count self)
      in if REGISTER_INTERFACES_MAX < n then (0, buffer)
         else case encode_status_header kMESSAGE_TYPE_INTERFACE_STATUS INTERFACE_STATUS_BODY_SIZE buffer of
           (encoded, b) \<Rightarrow>
             if encoded = 0 then (0, b)
             else
               let body = MESSAGE_HEADER_SIZE;
                   b = mem_write b (body + 0) [ism_interface_count self];
                   b = write_entries write_status_entry INTERFACE_STATUS_ENTRY_SIZE b (body + 4)
                         (take n (ism_entries self))
               in (MESSAGE_HEADER_SIZE + INTERFACE_STATUS_BODY_SIZE, b))"

definition InterfaceStatusMessage_Decode ::
    "InterfaceStatusMessage \<Rightarrow> bytes \<Rightarrow> bool \<times> InterfaceStatusMessage" where
  "InterfaceStatusMessage_Decode self payload =
     (if length payload < INTERFACE_STATUS_BODY_SIZE then (False, self)
      else
        let self = self\<lparr>ism_interface_count := payload ! 0\<rparr>; n = unat (ism_interface_count self)
        in if REGISTER_INTERFACES_MAX < n then (False, self)
           else (True, self\<lparr>ism_entries :=
             read_entries read_status_entry INTERFACE_STATUS_ENTRY_SIZE payload 4 n (ism_entries self)\<rparr>))"

definition InterfaceStatusMessage_wf :: "InterfaceStatusMessage \<Rightarrow> bool" where
  "InterfaceStatusMessage_wf m \<longleftrightarrow> length (ism_entries m) = REGISTER_INTERFACES_MAX"

definition status_entry_image :: "InterfaceStatusEntry \<Rightarrow> bytes" where
  "status_entry_image e = [ise_channel e, ise_flags e] @ replicate 2 0 @ le32 (ise_advertised_rate e) @
     le32 (ise_credit e) @ le64 (ise_tx_dropped e)"

definition interface_status_body :: "InterfaceStatusMessage \<Rightarrow> bytes" where
  "interface_status_body m = (let n = unat (ism_interface_count m)
     in [ism_interface_count m] @ replicate 3 0 @ concat (map status_entry_image (take n (ism_entries m))) @
        replicate ((16 - n) * 20) 0)"

definition interface_status_received ::
    "InterfaceStatusMessage \<Rightarrow> InterfaceStatusMessage \<Rightarrow> InterfaceStatusMessage" where
  "interface_status_received old m = (let n = unat (ism_interface_count m)
     in m\<lparr>ism_entries := take n (ism_entries m) @ drop n (ism_entries old)\<rparr>)"

lemma length_status_entry_image [simp]: "length (status_entry_image e) = 20"
  by (simp add: status_entry_image_def)

lemma write_status_entry_image:
  "write_status_entry (pre @ replicate 20 0 @ post) (length pre) e = pre @ status_entry_image e @ post"
  by (simp add: write_status_entry_def status_entry_image_def layout Let_def)

lemma read_status_entry_image:
  "read_status_entry (pre @ status_entry_image e @ post) (length pre) old = e"
  by (simp add: read_status_entry_def status_entry_image_def layout)

interpretation interface_status: message_codec InterfaceStatusMessage_Encode InterfaceStatusMessage_Decode
  kMESSAGE_TYPE_INTERFACE_STATUS InterfaceStatusMessage_wf "\<lambda>m. unat (ism_interface_count m) \<le> 16"
  interface_status_body interface_status_received
proof unfold_locales
  fix m old :: InterfaceStatusMessage and buf :: bytes
  let ?n = "unat (ism_interface_count m)"
  let ?es = "take ?n (ism_entries m)"
  let ?zeroes = "replicate ((16 - ?n) * 20) 0"
  assume wf: "InterfaceStatusMessage_wf m"
  have es: "?n \<le> 16 \<Longrightarrow> length ?es = ?n"
    using wf by (simp add: InterfaceStatusMessage_wf_def)
  have len: "?n \<le> 16 \<Longrightarrow> length (interface_status_body m) = 324"
    using es length_concat_entries [of ?es status_entry_image 20]
    by (simp add: interface_status_body_def Let_def)
  show "InterfaceStatusMessage_Encode m buf =
      (if ?n \<le> 16 \<and> 4 + length (interface_status_body m) \<le> length buf
       then (4 + length (interface_status_body m),
         header_image kMESSAGE_TYPE_INTERFACE_STATUS (length (interface_status_body m)) @
         interface_status_body m @ drop (4 + length (interface_status_body m)) buf)
       else (0, buf))"
  proof (cases "?n \<le> 16 \<and> 328 \<le> length buf")
    case True
    let ?pre = "header_image kMESSAGE_TYPE_INTERFACE_STATUS 324 @ [ism_interface_count m] @ replicate 3 0"
    have "write_entries write_status_entry 20 (?pre @ replicate (length ?es * 20) 0 @ ?zeroes @ drop 328 buf)
        (length ?pre) ?es = ?pre @ concat (map status_entry_image ?es) @ ?zeroes @ drop 328 buf"
      by (rule write_entries_image) (simp add: write_status_entry_image)
    moreover have "message_begin kMESSAGE_TYPE_INTERFACE_STATUS 324 buf =
        header_image kMESSAGE_TYPE_INTERFACE_STATUS 324 @ zero_fields [4, ?n * 20, (16 - ?n) * 20] @ drop (4 + 324) buf"
      using True by (intro message_begin_fields) auto
    ultimately show ?thesis
      using True es len
      by (simp add: InterfaceStatusMessage_Encode_def encode_status_header_def
          layout Let_def) (simp add: interface_status_body_def Let_def)
  next
    case False
    then show ?thesis
      using len by (auto simp: InterfaceStatusMessage_Encode_def encode_status_header_def Let_def)
  qed
  assume n: "?n \<le> 16"
  show "length (interface_status_body m) < 2 ^ 16"
    using len n by simp
  show "InterfaceStatusMessage_Decode old (interface_status_body m) = (True, interface_status_received old m)"
    using n es len
      read_entries_image [of ?es read_status_entry status_entry_image "\<lambda>e. e" 20
        "[ism_interface_count m] @ replicate 3 0" ?zeroes "ism_entries old"]
    by (simp add: InterfaceStatusMessage_Decode_def
        interface_status_received_def read_status_entry_image)
      (simp add: interface_status_body_def Let_def)
qed

section \<open>Namespaced interface names\<close>

abbreviation (input) INTERFACE_NAME_SEPARATOR :: u8 where "INTERFACE_NAME_SEPARATOR \<equiv> 47"

definition InterfaceName_IsNamespaced :: "bytes \<Rightarrow> bool" where
  "InterfaceName_IsNamespaced target \<longleftrightarrow> INTERFACE_NAME_SEPARATOR \<in> set (cstr target)"

definition InterfaceName_Split :: "bytes \<Rightarrow> bytes \<Rightarrow> bytes \<Rightarrow> bool \<times> bytes \<times> bytes" where
  "InterfaceName_Split namespaced agent_name interface_name =
     (case find_index (\<lambda>c. c = INTERFACE_NAME_SEPARATOR) (cstr namespaced) of
        None \<Rightarrow> (False, agent_name, interface_name)
      | Some agent_length \<Rightarrow>
          let rest = drop (agent_length + 1) namespaced; interface_length = strlen rest
          in if agent_length = 0 \<or> REGISTER_AGENT_NAME_SIZE \<le> agent_length
             then (False, agent_name, interface_name)
             else if interface_length = 0 \<or> REGISTER_INTERFACE_NAME_SIZE \<le> interface_length
             then (False, agent_name, interface_name)
             else (True, mem_write (mem_write agent_name 0 (take agent_length namespaced)) agent_length [0],
               mem_write interface_name 0 (take (interface_length + 1) rest)))"

definition namesEntry :: "bytes \<Rightarrow> ListReplyEntry \<Rightarrow> bool" where
  "namesEntry namespaced entry =
     (let agent_length = strlen (le_agent_name entry)
      in if \<not> strn_eq agent_length namespaced (le_agent_name entry) then False
         else if namespaced ! agent_length \<noteq> INTERFACE_NAME_SEPARATOR then False
         else str_eq (drop (agent_length + 1) namespaced) (le_interface_name entry))"

definition InterfaceName_Find :: "ListReplyMessage \<Rightarrow> bytes \<Rightarrow> u32 option" where
  "InterfaceName_Find reply namespaced =
     (case find_index (namesEntry namespaced) (take (unat (lr_count reply)) (lr_entries reply)) of
        Some i \<Rightarrow> Some (le_interface_id (lr_entries reply ! i))
      | None \<Rightarrow> None)"

lemma namesEntry_iff:
  assumes "0 \<in> set ns"
  shows "namesEntry ns e \<longleftrightarrow>
    cstr ns = cstr (le_agent_name e) @ INTERFACE_NAME_SEPARATOR # cstr (le_interface_name e)"
proof -
  let ?a = "cstr (le_agent_name e)" and ?c = "cstr ns"
  let ?n = "length ?a"
  have prefix: "strn_eq ?n ns (le_agent_name e) \<longleftrightarrow> take ?n ?c = ?a"
    by (simp add: strn_eq_def cstr_take)
  have at: "ns ! ?n = INTERFACE_NAME_SEPARATOR \<longleftrightarrow> ?n < length ?c \<and> ?c ! ?n = INTERFACE_NAME_SEPARATOR"
    if "take ?n ?c = ?a"
  proof (cases "?n < length ?c")
    case True
    then show ?thesis by (simp add: nth_cstr)
  next
    case False
    moreover have "length (take ?n ?c) = ?n"
      by (subst that) (rule refl)
    ultimately have "?n = length ?c"
      by simp
    then show ?thesis
      using nth_length_cstr [OF assms] by simp
  qed
  have tail: "cstr (drop (?n + 1) ns) = drop (Suc ?n) ?c" if "?n < length ?c"
    using that cstr_drop [of "Suc ?n" ns] by simp
  show ?thesis
  proof
    assume "namesEntry ns e"
    then have got: "take ?n ?c = ?a" "?n < length ?c" "?c ! ?n = INTERFACE_NAME_SEPARATOR"
      and rest: "cstr (drop (?n + 1) ns) = cstr (le_interface_name e)"
      using prefix at by (auto simp: namesEntry_def strlen_def str_eq_def Let_def split: if_splits)
    show "?c = ?a @ INTERFACE_NAME_SEPARATOR # cstr (le_interface_name e)"
      using id_take_nth_drop [OF got(2)] got(1,3) tail [OF got(2)] rest by metis
  next
    assume eq: "?c = ?a @ INTERFACE_NAME_SEPARATOR # cstr (le_interface_name e)"
    have "take ?n ?c = ?a" "?n < length ?c" "?c ! ?n = INTERFACE_NAME_SEPARATOR"
      "drop (Suc ?n) ?c = cstr (le_interface_name e)"
      unfolding eq by simp_all
    then show "namesEntry ns e"
      using prefix at tail by (simp add: namesEntry_def strlen_def str_eq_def Let_def)
  qed
qed

section \<open>Properties\<close>

text \<open>
  Resolving \<open>agent/interface\<close> in a listing returns the identifier of the first
  listed interface whose agent and interface names, joined by the separator, are the
  name asked for, and nothing when no entry has that name.
\<close>

theorem InterfaceName_Find_resolves:
  assumes "0 \<in> set namespaced"
  shows "InterfaceName_Find reply namespaced =
    map_option le_interface_id
      (find (\<lambda>e. cstr namespaced =
           cstr (le_agent_name e) @ INTERFACE_NAME_SEPARATOR # cstr (le_interface_name e))
         (take (unat (lr_count reply)) (lr_entries reply)))"
proof -
  let ?es = "take (unat (lr_count reply)) (lr_entries reply)"
  have P: "namesEntry namespaced = (\<lambda>e. cstr namespaced =
      cstr (le_agent_name e) @ INTERFACE_NAME_SEPARATOR # cstr (le_interface_name e))"
    using namesEntry_iff [OF assms] by auto
  have "i < unat (lr_count reply)" if "find_index Q ?es = Some i" for Q i
    using find_index_SomeD(1) [OF that] by simp
  then show ?thesis
    by (auto simp: InterfaceName_Find_def find_index_find P split: option.splits)
qed

definition sample_entry :: ListReplyEntry where
  "sample_entry = \<lparr>le_interface_id = 9, le_agent_name = 97 # replicate 127 0,
     le_interface_name = 99 # replicate 15 0\<rparr>"

definition sample_reply :: ListReplyMessage where
  "sample_reply = \<lparr>lr_count = 1, lr_flags = 0, lr_entries = replicate 16 sample_entry\<rparr>"

definition sample_status :: InterfaceStatusMessage where
  "sample_status = \<lparr>ism_interface_count = 1, ism_entries = replicate 16 \<lparr>ise_channel = 1, ise_flags = 0,
     ise_advertised_rate = 1000, ise_credit = 5, ise_tx_dropped = 3\<rparr>\<rparr>"

lemma sample_listing_ok:
  "ListReplyMessage_wf sample_reply" "ListReplyMessage_valid sample_reply" "InterfaceStatusMessage_wf sample_status"
  by (simp_all add: ListReplyMessage_wf_def ListReplyMessage_valid_def ListReplyEntry_wf_def areEntriesValid_def
      InterfaceStatusMessage_wf_def sample_reply_def sample_entry_def sample_status_def list_all_iff)

theorem InterfaceName_Find_resolves_witness:
  "0 \<in> set [97, 47, 99, 0 :: u8] \<and> InterfaceName_Find sample_reply [97, 47, 99, 0] = Some 9"
  using InterfaceName_Find_resolves [of "[97, 47, 99, 0]" sample_reply]
  by (simp add: sample_reply_def sample_entry_def cstr_def)

text \<open>
  Splitting a name succeeds exactly for a non-empty agent part before the first
  separator and a non-empty interface part after it that fit their buffers, and then the
  two parts, joined by the separator, are the name.
\<close>

theorem InterfaceName_Split_parts:
  assumes "0 \<in> set ns" and "length a = REGISTER_AGENT_NAME_SIZE" and "length i = REGISTER_INTERFACE_NAME_SIZE"
  shows "case InterfaceName_Split ns a i of (ok, a', i') \<Rightarrow>
    (ok \<longleftrightarrow> (\<exists>x y. cstr ns = x @ INTERFACE_NAME_SEPARATOR # y \<and> INTERFACE_NAME_SEPARATOR \<notin> set x \<and>
       0 < length x \<and> length x < REGISTER_AGENT_NAME_SIZE \<and>
       0 < length y \<and> length y < REGISTER_INTERFACE_NAME_SIZE)) \<and>
    (ok \<longrightarrow> cstr ns = cstr a' @ INTERFACE_NAME_SEPARATOR # cstr i' \<and> INTERFACE_NAME_SEPARATOR \<notin> set (cstr a'))"
proof (cases "find_index (\<lambda>c. c = INTERFACE_NAME_SEPARATOR) (cstr ns)")
  case None
  then have "INTERFACE_NAME_SEPARATOR \<notin> set (cstr ns)"
    by (auto simp: find_index_None)
  then show ?thesis
    using None by (auto simp: InterfaceName_Split_def)
next
  case (Some n)
  obtain x y where ns: "cstr ns = x @ INTERFACE_NAME_SEPARATOR # y"
    and x: "INTERFACE_NAME_SEPARATOR \<notin> set x" "length x = n"
  proof
    have "n < length (cstr ns)" "cstr ns ! n = INTERFACE_NAME_SEPARATOR"
      and "\<forall>j < n. cstr ns ! j \<noteq> INTERFACE_NAME_SEPARATOR"
      using Some by (auto simp: find_index_Some)
    then show "cstr ns = take n (cstr ns) @ INTERFACE_NAME_SEPARATOR # drop (Suc n) (cstr ns)"
      "INTERFACE_NAME_SEPARATOR \<notin> set (take n (cstr ns))" "length (take n (cstr ns)) = n"
      using id_take_nth_drop [of n "cstr ns"] by (auto simp: in_set_conv_nth)
  qed
  obtain r where r: "ns = x @ INTERFACE_NAME_SEPARATOR # y @ 0 # r"
    using cstr_split [OF assms(1)] ns by auto
  have uniq: "length x' = n \<and> y' = y"
    if "cstr ns = x' @ INTERFACE_NAME_SEPARATOR # y'" and "INTERFACE_NAME_SEPARATOR \<notin> set x'" for x' y'
  proof -
    have "find_index (\<lambda>c. c = INTERFACE_NAME_SEPARATOR) (cstr ns) = Some (length x')"
      unfolding that(1) using that(2) by (intro find_index_append_Cons) auto
    then show ?thesis
      using Some ns x that by simp
  qed
  have nul: "0 \<notin> set x" "0 \<notin> set y"
    using cstr_no_nul [of ns] by (auto simp: ns)
  have agent: "cstr (mem_write (mem_write a 0 (take n ns)) n [0]) = x" if "n < 128"
    using cstr_write_nul [of x a] that nul(1) x(2) assms(2) by (simp add: r)
  have iface: "cstr (mem_write i 0 (take (Suc (strlen (y @ 0 # r))) (y @ 0 # r))) = y"
    using nul(2) by (simp add: strlen_def mem_write_start)
  have rest: "drop (Suc n) ns = y @ 0 # r"
    using x(2) by (simp add: r)
  let ?a = "mem_write (mem_write a 0 (take n ns)) n [0]"
    and ?i = "mem_write i 0 (take (Suc (strlen (y @ 0 # r))) (y @ 0 # r))"
  let ?ok = "0 < n \<and> n < 128 \<and> 0 < length y \<and> length y < 16"
  have eval: "InterfaceName_Split ns a i = (if ?ok then (True, ?a, ?i) else (False, a, i))"
    using Some nul(2) by (auto simp: InterfaceName_Split_def rest strlen_def Let_def)
  have "(\<exists>x y. cstr ns = x @ INTERFACE_NAME_SEPARATOR # y \<and> INTERFACE_NAME_SEPARATOR \<notin> set x \<and>
       0 < length x \<and> length x < REGISTER_AGENT_NAME_SIZE \<and>
       0 < length y \<and> length y < REGISTER_INTERFACE_NAME_SIZE) \<longleftrightarrow> ?ok" (is "?ex \<longleftrightarrow> _")
  proof
    assume ?ex
    then show ?ok using uniq by auto
  next
    assume ?ok
    then show ?ex using ns x by (intro exI [of _ x] exI [of _ y]) simp
  qed
  then show ?thesis
    unfolding eval using agent iface ns x(1) by simp
qed

theorem InterfaceName_Split_parts_witness:
  "case InterfaceName_Split [97, 47, 99, 0] (replicate 128 7) (replicate 16 7) of (ok, a', i') \<Rightarrow>
     ok \<and> cstr a' @ INTERFACE_NAME_SEPARATOR # cstr i' = [97, 47, 99]"
proof -
  have "fst (InterfaceName_Split [97, 47, 99, 0] (replicate 128 7) (replicate 16 7))"
    by (simp add: InterfaceName_Split_def cstr_def strlen_def)
  then show ?thesis
    using InterfaceName_Split_parts [of "[97, 47, 99, 0]" "replicate 128 7" "replicate 16 7"]
    by (auto simp: cstr_def split: prod.splits)
qed

text \<open>
  C28.  Listings are delivered: LIST, LIST\_REPLY with up to 16 entries, and the periodic
  INTERFACE\_STATUS with its counters.
\<close>

theorem listing_messages_delivered:
  assumes "ListReplyMessage_wf r" and "ListReplyMessage_wf r0"
    and "InterfaceStatusMessage_wf s" and "InterfaceStatusMessage_wf s0"
  shows "delivers ListMessage_Encode ListMessage_Decode kMESSAGE_TYPE_LIST True 4 l l l0 buf \<and>
    (ListReplyMessage_valid r \<longrightarrow>
      delivers ListReplyMessage_Encode ListReplyMessage_Decode kMESSAGE_TYPE_LIST_REPLY True
        (4 + 148 * unat (lr_count r)) (list_reply_received r0 r) r r0 buf) \<and>
    (unat (ism_interface_count s) \<le> 16 \<longrightarrow>
      delivers InterfaceStatusMessage_Encode InterfaceStatusMessage_Decode kMESSAGE_TYPE_INTERFACE_STATUS True
        324 (interface_status_received s0 s) s s0 buf)"
proof (intro conjI impI)
  show "delivers ListMessage_Encode ListMessage_Decode kMESSAGE_TYPE_LIST True 4 l l l0 buf"
    using lst.delivers_codec [of l l0 buf] by (simp add: list_body_def)
next
  assume v: "ListReplyMessage_valid r"
  then have "length (list_reply_body r) = 4 + 148 * unat (lr_count r)"
    using assms(1) length_concat_entries [of "take (unat (lr_count r)) (lr_entries r)" entry_image 148]
    by (simp add: list_reply_body_def ListReplyMessage_wf_def ListReplyMessage_valid_def)
  then show "delivers ListReplyMessage_Encode ListReplyMessage_Decode kMESSAGE_TYPE_LIST_REPLY True
      (4 + 148 * unat (lr_count r)) (list_reply_received r0 r) r r0 buf"
    using list_reply.delivers_codec [OF assms(1,2), of buf] v by simp
next
  let ?n = "unat (ism_interface_count s)"
  assume n: "?n \<le> 16"
  then have "length (interface_status_body s) = 324"
    using assms(3) length_concat_entries [of "take ?n (ism_entries s)" status_entry_image 20]
    by (simp add: interface_status_body_def InterfaceStatusMessage_wf_def Let_def)
  then show "delivers InterfaceStatusMessage_Encode InterfaceStatusMessage_Decode kMESSAGE_TYPE_INTERFACE_STATUS
      True 324 (interface_status_received s0 s) s s0 buf"
    using interface_status.delivers_codec [OF assms(3,4), of buf] n by simp
qed

theorem listing_messages_delivered_witness:
  "ListReplyMessage_valid sample_reply \<and> unat (ism_interface_count sample_status) \<le> 16 \<and>
   delivers ListReplyMessage_Encode ListReplyMessage_Decode kMESSAGE_TYPE_LIST_REPLY True 152
     (list_reply_received sample_reply sample_reply) sample_reply sample_reply (replicate 400 0) \<and>
   delivers InterfaceStatusMessage_Encode InterfaceStatusMessage_Decode kMESSAGE_TYPE_INTERFACE_STATUS True 324
     (interface_status_received sample_status sample_status) sample_status sample_status (replicate 400 0)"
proof -
  have "unat (lr_count sample_reply) = 1" "unat (ism_interface_count sample_status) = 1"
    by (simp_all add: sample_reply_def sample_status_def)
  then show ?thesis
    using listing_messages_delivered [OF sample_listing_ok(1,1,3,3), of undefined undefined "replicate 400 0"]
      sample_listing_ok(2) by simp
qed

end
