(* ===== verification/AdminMessages.thy ===== *)
theory AdminMessages
  imports ListingMessages
begin

text \<open>
  The administration protocol (\<open>protocol/admin_message.c\<close>).  Requests are an offset, a name
  or a fixed struct; the listing replies are pages of a fixed number of entries, so the
  eight of them share one record and one pair of loops, with the entry's reader and writer
  and its sizes as parameters.  Pages whose entries can be refused stop at the first bad one.
\<close>

section \<open>Message types\<close>

abbreviation (input) kMESSAGE_TYPE_ADMIN_STATUS :: u8 where "kMESSAGE_TYPE_ADMIN_STATUS \<equiv> 0x10"
abbreviation (input) kMESSAGE_TYPE_ADMIN_STATUS_REPLY :: u8 where "kMESSAGE_TYPE_ADMIN_STATUS_REPLY \<equiv> 0x11"
abbreviation (input) kMESSAGE_TYPE_ADMIN_PEERS :: u8 where "kMESSAGE_TYPE_ADMIN_PEERS \<equiv> 0x12"
abbreviation (input) kMESSAGE_TYPE_ADMIN_PEERS_REPLY :: u8 where "kMESSAGE_TYPE_ADMIN_PEERS_REPLY \<equiv> 0x13"
abbreviation (input) kMESSAGE_TYPE_ADMIN_KICK :: u8 where "kMESSAGE_TYPE_ADMIN_KICK \<equiv> 0x14"
abbreviation (input) kMESSAGE_TYPE_ADMIN_KICK_REPLY :: u8 where "kMESSAGE_TYPE_ADMIN_KICK_REPLY \<equiv> 0x15"
abbreviation (input) kMESSAGE_TYPE_ADMIN_PINS :: u8 where "kMESSAGE_TYPE_ADMIN_PINS \<equiv> 0x16"
abbreviation (input) kMESSAGE_TYPE_ADMIN_PINS_REPLY :: u8 where "kMESSAGE_TYPE_ADMIN_PINS_REPLY \<equiv> 0x17"
abbreviation (input) kMESSAGE_TYPE_ADMIN_FORGET :: u8 where "kMESSAGE_TYPE_ADMIN_FORGET \<equiv> 0x18"
abbreviation (input) kMESSAGE_TYPE_ADMIN_FORGET_REPLY :: u8 where "kMESSAGE_TYPE_ADMIN_FORGET_REPLY \<equiv> 0x19"
abbreviation (input) kMESSAGE_TYPE_ADMIN_KICK_PEER :: u8 where "kMESSAGE_TYPE_ADMIN_KICK_PEER \<equiv> 0x1A"
abbreviation (input) kMESSAGE_TYPE_ADMIN_KICK_PEER_REPLY :: u8 where "kMESSAGE_TYPE_ADMIN_KICK_PEER_REPLY \<equiv> 0x1B"
abbreviation (input) kMESSAGE_TYPE_ADMIN_AGENTS :: u8 where "kMESSAGE_TYPE_ADMIN_AGENTS \<equiv> 0x1C"
abbreviation (input) kMESSAGE_TYPE_ADMIN_AGENTS_REPLY :: u8 where "kMESSAGE_TYPE_ADMIN_AGENTS_REPLY \<equiv> 0x1D"
abbreviation (input) kMESSAGE_TYPE_ADMIN_CLIENTS :: u8 where "kMESSAGE_TYPE_ADMIN_CLIENTS \<equiv> 0x1E"
abbreviation (input) kMESSAGE_TYPE_ADMIN_CLIENTS_REPLY :: u8 where "kMESSAGE_TYPE_ADMIN_CLIENTS_REPLY \<equiv> 0x1F"
abbreviation (input) kMESSAGE_TYPE_ADMIN_INTERFACES :: u8 where "kMESSAGE_TYPE_ADMIN_INTERFACES \<equiv> 0x20"
abbreviation (input) kMESSAGE_TYPE_ADMIN_INTERFACES_REPLY :: u8 where "kMESSAGE_TYPE_ADMIN_INTERFACES_REPLY \<equiv> 0x21"
abbreviation (input) kMESSAGE_TYPE_ADMIN_PIN_ADD :: u8 where "kMESSAGE_TYPE_ADMIN_PIN_ADD \<equiv> 0x22"
abbreviation (input) kMESSAGE_TYPE_ADMIN_PIN_ADD_REPLY :: u8 where "kMESSAGE_TYPE_ADMIN_PIN_ADD_REPLY \<equiv> 0x23"
abbreviation (input) kMESSAGE_TYPE_ADMIN_ACL_SET :: u8 where "kMESSAGE_TYPE_ADMIN_ACL_SET \<equiv> 0x24"
abbreviation (input) kMESSAGE_TYPE_ADMIN_ACL_SET_REPLY :: u8 where "kMESSAGE_TYPE_ADMIN_ACL_SET_REPLY \<equiv> 0x25"
abbreviation (input) kMESSAGE_TYPE_ADMIN_ACL_REVOKE :: u8 where "kMESSAGE_TYPE_ADMIN_ACL_REVOKE \<equiv> 0x26"
abbreviation (input) kMESSAGE_TYPE_ADMIN_ACL_REVOKE_REPLY :: u8 where "kMESSAGE_TYPE_ADMIN_ACL_REVOKE_REPLY \<equiv> 0x27"
abbreviation (input) kMESSAGE_TYPE_ADMIN_ACL_LIST :: u8 where "kMESSAGE_TYPE_ADMIN_ACL_LIST \<equiv> 0x28"
abbreviation (input) kMESSAGE_TYPE_ADMIN_ACL_LIST_REPLY :: u8 where "kMESSAGE_TYPE_ADMIN_ACL_LIST_REPLY \<equiv> 0x29"
abbreviation (input) kMESSAGE_TYPE_ADMIN_BRIDGE_SET :: u8 where "kMESSAGE_TYPE_ADMIN_BRIDGE_SET \<equiv> 0x2A"
abbreviation (input) kMESSAGE_TYPE_ADMIN_BRIDGE_SET_REPLY :: u8 where "kMESSAGE_TYPE_ADMIN_BRIDGE_SET_REPLY \<equiv> 0x2B"
abbreviation (input) kMESSAGE_TYPE_ADMIN_REJECTED :: u8 where "kMESSAGE_TYPE_ADMIN_REJECTED \<equiv> 0x2C"
abbreviation (input) kMESSAGE_TYPE_ADMIN_REJECTED_REPLY :: u8 where "kMESSAGE_TYPE_ADMIN_REJECTED_REPLY \<equiv> 0x2D"
abbreviation (input) kMESSAGE_TYPE_ADMIN_BRIDGE_DELETE :: u8 where "kMESSAGE_TYPE_ADMIN_BRIDGE_DELETE \<equiv> 0x2E"
abbreviation (input) kMESSAGE_TYPE_ADMIN_BRIDGE_DELETE_REPLY :: u8 where "kMESSAGE_TYPE_ADMIN_BRIDGE_DELETE_REPLY \<equiv> 0x2F"
abbreviation (input) kMESSAGE_TYPE_ADMIN_BRIDGE_LIST :: u8 where "kMESSAGE_TYPE_ADMIN_BRIDGE_LIST \<equiv> 0x30"
abbreviation (input) kMESSAGE_TYPE_ADMIN_BRIDGE_LIST_REPLY :: u8 where "kMESSAGE_TYPE_ADMIN_BRIDGE_LIST_REPLY \<equiv> 0x31"
abbreviation (input) kMESSAGE_TYPE_ADMIN_GROUP_SET :: u8 where "kMESSAGE_TYPE_ADMIN_GROUP_SET \<equiv> 0x32"
abbreviation (input) kMESSAGE_TYPE_ADMIN_GROUP_SET_REPLY :: u8 where "kMESSAGE_TYPE_ADMIN_GROUP_SET_REPLY \<equiv> 0x33"
abbreviation (input) kMESSAGE_TYPE_ADMIN_GROUP_DELETE :: u8 where "kMESSAGE_TYPE_ADMIN_GROUP_DELETE \<equiv> 0x34"
abbreviation (input) kMESSAGE_TYPE_ADMIN_GROUP_DELETE_REPLY :: u8 where "kMESSAGE_TYPE_ADMIN_GROUP_DELETE_REPLY \<equiv> 0x35"
abbreviation (input) kMESSAGE_TYPE_ADMIN_GROUP_JOIN :: u8 where "kMESSAGE_TYPE_ADMIN_GROUP_JOIN \<equiv> 0x36"
abbreviation (input) kMESSAGE_TYPE_ADMIN_GROUP_JOIN_REPLY :: u8 where "kMESSAGE_TYPE_ADMIN_GROUP_JOIN_REPLY \<equiv> 0x37"
abbreviation (input) kMESSAGE_TYPE_ADMIN_GROUP_LEAVE :: u8 where "kMESSAGE_TYPE_ADMIN_GROUP_LEAVE \<equiv> 0x38"
abbreviation (input) kMESSAGE_TYPE_ADMIN_GROUP_LEAVE_REPLY :: u8 where "kMESSAGE_TYPE_ADMIN_GROUP_LEAVE_REPLY \<equiv> 0x39"
abbreviation (input) kMESSAGE_TYPE_ADMIN_GROUP_LIST :: u8 where "kMESSAGE_TYPE_ADMIN_GROUP_LIST \<equiv> 0x3A"
abbreviation (input) kMESSAGE_TYPE_ADMIN_GROUP_LIST_REPLY :: u8 where "kMESSAGE_TYPE_ADMIN_GROUP_LIST_REPLY \<equiv> 0x3B"
abbreviation (input) kMESSAGE_TYPE_ADMIN_TXNS :: u8 where "kMESSAGE_TYPE_ADMIN_TXNS \<equiv> 0x3C"
abbreviation (input) kMESSAGE_TYPE_ADMIN_TXNS_REPLY :: u8 where "kMESSAGE_TYPE_ADMIN_TXNS_REPLY \<equiv> 0x3D"

section \<open>The bodies the messages share\<close>

definition isNameTerminated :: "bytes \<Rightarrow> bool" where
  "isNameTerminated agent_name \<longleftrightarrow> agent_name ! (REGISTER_AGENT_NAME_SIZE - 1) = 0"

abbreviation (input) ADMIN_FINGERPRINT_HEX_SIZE :: nat where "ADMIN_FINGERPRINT_HEX_SIZE \<equiv> 65"
abbreviation (input) ADMIN_ORIGIN_SIZE :: nat where "ADMIN_ORIGIN_SIZE \<equiv> 56"

record AdminOffset =
  ao_offset :: u16

record AdminName =
  an_agent_name :: bytes

record AdminFiltered =
  af_offset :: u16
  af_agent_name :: bytes

record AdminStatus =
  as_status :: u8

type_synonym AdminPeersMessage = AdminOffset
type_synonym AdminPinsMessage = AdminOffset
type_synonym AdminAclListMessage = AdminOffset
type_synonym AdminInterfacesMessage = AdminOffset
type_synonym AdminTxnsMessage = AdminOffset
type_synonym AdminRejectedMessage = AdminOffset
type_synonym AdminBridgeListMessage = AdminOffset
type_synonym AdminGroupListMessage = AdminOffset
type_synonym AdminKickMessage = AdminName
type_synonym AdminForgetMessage = AdminName
type_synonym AdminAgentsMessage = AdminFiltered
type_synonym AdminClientsMessage = AdminFiltered

definition encodeAgentName :: "u8 \<Rightarrow> AdminName \<Rightarrow> bytes \<Rightarrow> nat \<times> bytes" where
  "encodeAgentName type self buffer =
     (if \<not> isNameTerminated (an_agent_name self) \<or> an_agent_name self ! 0 = 0 then (0, buffer)
      else case encodeFixedBody type REGISTER_AGENT_NAME_SIZE buffer of (total_size, b) \<Rightarrow>
        if total_size = 0 then (0, b)
        else (total_size, write_text b (MESSAGE_HEADER_SIZE + 0) (an_agent_name self)))"

definition decodeAgentName :: "AdminName \<Rightarrow> bytes \<Rightarrow> bool \<times> AdminName" where
  "decodeAgentName self payload =
     (if length payload < REGISTER_AGENT_NAME_SIZE then (False, self)
      else
        let self = self\<lparr>an_agent_name := mem_read payload 0 REGISTER_AGENT_NAME_SIZE\<rparr>
        in (an_agent_name self ! (REGISTER_AGENT_NAME_SIZE - 1) = 0 \<and> an_agent_name self ! 0 \<noteq> 0, self))"

definition encodeStatusReply :: "u8 \<Rightarrow> AdminStatus \<Rightarrow> bytes \<Rightarrow> nat \<times> bytes" where
  "encodeStatusReply type self buffer =
     (case encodeFixedBody type 4 buffer of (total_size, b) \<Rightarrow>
        if total_size = 0 then (0, b) else (total_size, mem_write b (MESSAGE_HEADER_SIZE + 0) [as_status self]))"

definition decodeStatusReply :: "AdminStatus \<Rightarrow> bytes \<Rightarrow> bool \<times> AdminStatus" where
  "decodeStatusReply self payload =
     (if length payload < 4 then (False, self) else (True, self\<lparr>as_status := payload ! 0\<rparr>))"

definition encodeOffsetRequest :: "u8 \<Rightarrow> AdminOffset \<Rightarrow> bytes \<Rightarrow> nat \<times> bytes" where
  "encodeOffsetRequest type self buffer =
     (case encodeFixedBody type 4 buffer of (total_size, b) \<Rightarrow>
        if total_size = 0 then (0, b) else (total_size, Wire_WriteU16 b (MESSAGE_HEADER_SIZE + 0) (ao_offset self)))"

text \<open>\<open>AdminPeersMessage_Decode\<close> and the seven other decoders of an offset.\<close>

definition decodeOffsetRequest :: "AdminOffset \<Rightarrow> bytes \<Rightarrow> bool \<times> AdminOffset" where
  "decodeOffsetRequest self payload =
     (if length payload < 4 then (False, self) else (True, self\<lparr>ao_offset := Wire_ReadU16 payload 0\<rparr>))"

definition encodeFilteredRequest :: "u8 \<Rightarrow> AdminFiltered \<Rightarrow> bytes \<Rightarrow> nat \<times> bytes" where
  "encodeFilteredRequest type self buffer =
     (if \<not> isNameTerminated (af_agent_name self) then (0, buffer)
      else case encodeFixedBody type 132 buffer of (total_size, b) \<Rightarrow>
        if total_size = 0 then (0, b)
        else
          let b = Wire_WriteU16 b (MESSAGE_HEADER_SIZE + 0) (af_offset self)
          in (total_size, write_text b (MESSAGE_HEADER_SIZE + 4) (af_agent_name self)))"

definition decodeFilteredRequest :: "AdminFiltered \<Rightarrow> bytes \<Rightarrow> bool \<times> AdminFiltered" where
  "decodeFilteredRequest self payload =
     (if length payload < 132 then (False, self)
      else
        let self = self\<lparr>af_offset := Wire_ReadU16 payload 0, af_agent_name := mem_read payload 4 REGISTER_AGENT_NAME_SIZE\<rparr>
        in (af_agent_name self ! (REGISTER_AGENT_NAME_SIZE - 1) = 0, self))"

section \<open>Pages\<close>

record 'e AdminPage =
  pg_count :: u8
  pg_flags :: u8
  pg_entries :: "'e list"

definition encode_page ::
    "u8 \<Rightarrow> nat \<Rightarrow> nat \<Rightarrow> ('e \<Rightarrow> bool) \<Rightarrow> (bytes \<Rightarrow> nat \<Rightarrow> 'e \<Rightarrow> bytes) \<Rightarrow> 'e AdminPage \<Rightarrow> bytes \<Rightarrow> nat \<times> bytes" where
  "encode_page type entries_max entry_size is_valid write_entry self buffer =
     (let n = unat (pg_count self)
      in if entries_max < n then (0, buffer)
         else if \<not> list_all is_valid (take n (pg_entries self)) then (0, buffer)
         else case encodeFixedBody type (4 + n * entry_size) buffer of (total_size, b) \<Rightarrow>
           if total_size = 0 then (0, b)
           else
             let body = MESSAGE_HEADER_SIZE;
                 b = mem_write b (body + 0) [pg_count self];
                 b = mem_write b (body + 1) [pg_flags self]
             in (total_size, write_entries write_entry entry_size b (body + 4) (take n (pg_entries self))))"

text \<open>The loop of a decoder from entry \<open>i\<close> on; an entry that is refused ends it.\<close>

function read_page ::
    "(bytes \<Rightarrow> nat \<Rightarrow> 'e \<Rightarrow> bool \<times> 'e) \<Rightarrow> nat \<Rightarrow> bytes \<Rightarrow> nat \<Rightarrow> nat \<Rightarrow> nat \<Rightarrow> 'e list \<Rightarrow> bool \<times> 'e list" where
  "read_page read_entry entry_size payload base n i entries =
     (if n \<le> i then (True, entries)
      else case read_entry payload (base + i * entry_size) (entries ! i) of (ok, e) \<Rightarrow>
        if ok then read_page read_entry entry_size payload base n (i + 1) (entries[i := e])
        else (False, entries[i := e]))"
  by pat_completeness auto

termination read_page
  by (relation "measure (\<lambda>(_, _, _, _, n, i, _). n - i)") auto

definition decode_page ::
    "nat \<Rightarrow> nat \<Rightarrow> (bytes \<Rightarrow> nat \<Rightarrow> 'e \<Rightarrow> bool \<times> 'e) \<Rightarrow> 'e AdminPage \<Rightarrow> bytes \<Rightarrow> bool \<times> 'e AdminPage" where
  "decode_page entries_max entry_size read_entry self payload =
     (if length payload < 4 then (False, self)
      else
        let self = self\<lparr>pg_count := payload ! 0, pg_flags := payload ! 1\<rparr>; n = unat (pg_count self)
        in if entries_max < n then (False, self)
           else if length payload < 4 + n * entry_size then (False, self)
           else
             let (ok, entries) = read_page read_entry entry_size payload 4 n 0 (pg_entries self)
             in (ok, self\<lparr>pg_entries := entries\<rparr>))"

declare read_page.simps [simp del]

definition page_body :: "('e \<Rightarrow> bytes) \<Rightarrow> 'e AdminPage \<Rightarrow> bytes" where
  "page_body img m = [pg_count m, pg_flags m] @ replicate 2 0 @
     concat (map img (take (unat (pg_count m)) (pg_entries m)))"

definition page_received :: "('e \<Rightarrow> 'e \<Rightarrow> 'e) \<Rightarrow> 'e AdminPage \<Rightarrow> 'e AdminPage \<Rightarrow> 'e AdminPage" where
  "page_received got old m = (let n = unat (pg_count m)
     in m\<lparr>pg_entries := map2 got (take n (pg_entries old)) (take n (pg_entries m)) @ drop n (pg_entries old)\<rparr>)"

definition page_wf :: "nat \<Rightarrow> ('e \<Rightarrow> bool) \<Rightarrow> 'e AdminPage \<Rightarrow> bool" where
  "page_wf entries_max wfe m \<longleftrightarrow> length (pg_entries m) = entries_max \<and> list_all wfe (pg_entries m)"

definition page_valid :: "nat \<Rightarrow> ('e \<Rightarrow> bool) \<Rightarrow> 'e AdminPage \<Rightarrow> bool" where
  "page_valid entries_max valid m \<longleftrightarrow> unat (pg_count m) \<le> entries_max \<and>
     list_all valid (take (unat (pg_count m)) (pg_entries m))"

lemma read_page_image:
  assumes "\<And>e pre post old. e \<in> set es \<Longrightarrow> P old \<Longrightarrow> r (pre @ img e @ post) (length pre) old = (True, got old e)"
    and "\<And>e. e \<in> set es \<Longrightarrow> length (img e) = sz"
    and "list_all P olds" and "length es \<le> length olds" and "i \<le> length es"
  shows "read_page r sz (pre @ concat (map img es) @ post) (length pre) (length es) i
      (map2 got (take i olds) (take i es) @ drop i olds) =
    (True, map2 got (take (length es) olds) es @ drop (length es) olds)"
  using assms(5)
proof (induction "length es - i" arbitrary: i)
  case 0
  then show ?case by (simp add: read_page.simps)
next
  case (Suc k)
  then have i: "i < length es" by simp
  let ?done = "map2 got (take i olds) (take i es)"
  let ?before = "pre @ concat (map img (take i es))"
  have len: "length ?done = i" and "length (concat (map img (take i es))) = i * sz"
    using i assms(2,4) length_concat_entries [of "take i es" img sz] by (auto dest: in_set_takeD)
  then have at: "length ?before = length pre + i * sz"
    by simp
  have entries: "concat (map img es) = concat (map img (take i es)) @ img (es ! i) @ concat (map img (drop (Suc i) es))"
    by (subst id_take_nth_drop [OF i]) simp
  have old: "P (olds ! i)"
    using assms(3,4) i by (simp add: list_all_length)
  have "r (?before @ img (es ! i) @ concat (map img (drop (Suc i) es)) @ post) (length ?before) (olds ! i) =
      (True, got (olds ! i) (es ! i))"
    using assms(1) [OF nth_mem [OF i] old] .
  then have read: "r (pre @ concat (map img es) @ post) (length pre + i * sz) ((?done @ drop i olds) ! i) =
      (True, got (olds ! i) (es ! i))"
    using i assms(4) len unfolding at by (simp add: entries nth_append)
  have stored: "(?done @ drop i olds)[i := got (olds ! i) (es ! i)] =
      map2 got (take (Suc i) olds) (take (Suc i) es) @ drop (Suc i) olds"
    using i assms(4) len
    by (simp add: list_update_append take_Suc_conv_app_nth Cons_nth_drop_Suc [symmetric])
  show ?case
    using Suc(1) [of "Suc i"] Suc(2) i read stored by (subst read_page.simps) simp
qed

locale page_codec =
  fixes mtype :: u8 and entries_max entry_size :: nat
    and is_valid :: "'e \<Rightarrow> bool" and write_entry :: "bytes \<Rightarrow> nat \<Rightarrow> 'e \<Rightarrow> bytes"
    and read_entry :: "bytes \<Rightarrow> nat \<Rightarrow> 'e \<Rightarrow> bool \<times> 'e"
    and wf_entry :: "'e \<Rightarrow> bool" and img :: "'e \<Rightarrow> bytes" and got :: "'e \<Rightarrow> 'e \<Rightarrow> 'e"
  assumes page_fits: "4 + entries_max * entry_size < 2 ^ 16"
    and length_img: "wf_entry e \<Longrightarrow> is_valid e \<Longrightarrow> length (img e) = entry_size"
    and write_img: "wf_entry e \<Longrightarrow> is_valid e \<Longrightarrow>
      write_entry (pre @ replicate entry_size 0 @ post) (length pre) e = pre @ img e @ post"
    and read_img: "wf_entry e \<Longrightarrow> is_valid e \<Longrightarrow> wf_entry old \<Longrightarrow>
      read_entry (pre @ img e @ post) (length pre) old = (True, got old e)"
begin

lemma page_length:
  assumes "page_wf entries_max wf_entry m" and "page_valid entries_max is_valid m"
  shows "length (page_body img m) = 4 + unat (pg_count m) * entry_size"
    and "length (take (unat (pg_count m)) (pg_entries m)) = unat (pg_count m)"
    and "e \<in> set (take (unat (pg_count m)) (pg_entries m)) \<Longrightarrow> wf_entry e \<and> is_valid e"
proof -
  let ?es = "take (unat (pg_count m)) (pg_entries m)"
  show each: "wf_entry e \<and> is_valid e" if "e \<in> set ?es" for e
    using assms that by (auto simp: page_wf_def page_valid_def list_all_iff dest: in_set_takeD)
  show n: "length ?es = unat (pg_count m)"
    using assms by (simp add: page_wf_def page_valid_def)
  show "length (page_body img m) = 4 + unat (pg_count m) * entry_size"
    using length_concat_entries [of ?es img entry_size] each length_img n by (auto simp: page_body_def)
qed

lemma page_image:
  assumes "page_wf entries_max wf_entry m"
  shows "encode_page mtype entries_max entry_size is_valid write_entry m buf =
    (if page_valid entries_max is_valid m \<and> 4 + length (page_body img m) \<le> length buf
     then (4 + length (page_body img m), header_image mtype (length (page_body img m)) @ page_body img m @
       drop (4 + length (page_body img m)) buf)
     else (0, buf))"
proof (cases "page_valid entries_max is_valid m \<and> 4 + length (page_body img m) \<le> length buf")
  case True
  let ?n = "unat (pg_count m)"
  let ?es = "take ?n (pg_entries m)"
  let ?pre = "header_image mtype (4 + ?n * entry_size) @ [pg_count m, pg_flags m] @ replicate 2 0"
  note page = page_length [OF assms] True
  have body: "8 + ?n * entry_size \<le> length buf"
    using page by simp
  have "write_entries write_entry entry_size
      (?pre @ replicate (length ?es * entry_size) 0 @ drop (8 + ?n * entry_size) buf) (length ?pre) ?es =
      ?pre @ concat (map img ?es) @ drop (8 + ?n * entry_size) buf"
    using page write_img length_img by (intro write_entries_image) blast
  then have "write_entries write_entry entry_size
      (?pre @ replicate (?n * entry_size) 0 @ drop (8 + ?n * entry_size) buf) (length ?pre) ?es =
      ?pre @ concat (map img ?es) @ drop (8 + ?n * entry_size) buf"
    using page by simp
  then show ?thesis
    using page body
    by (simp add: encode_page_def page_valid_def encodeFixedBody_begin
        message_begin_fields [of "4 + ?n * entry_size" _ "[4, ?n * entry_size]"] layout Let_def)
      (simp add: page_body_def)
next
  case False
  then show ?thesis
    using page_length(1) [OF assms]
    by (auto simp: encode_page_def page_valid_def encodeFixedBody_begin Let_def)
qed

end

sublocale page_codec \<subseteq> message_codec "encode_page mtype entries_max entry_size is_valid write_entry"
  "decode_page entries_max entry_size read_entry" mtype "page_wf entries_max wf_entry"
  "page_valid entries_max is_valid" "page_body img" "page_received got"
proof unfold_locales
  fix m old :: "'e AdminPage" and buf :: bytes
  let ?n = "unat (pg_count m)"
  let ?es = "take ?n (pg_entries m)"
  assume m: "page_wf entries_max wf_entry m"
  show "encode_page mtype entries_max entry_size is_valid write_entry m buf =
    (if page_valid entries_max is_valid m \<and> 4 + length (page_body img m) \<le> length buf
     then (4 + length (page_body img m), header_image mtype (length (page_body img m)) @ page_body img m @
       drop (4 + length (page_body img m)) buf)
     else (0, buf))"
    using m by (rule page_image)
  assume v: "page_valid entries_max is_valid m"
  note page = page_length [OF m v]
  have "?n * entry_size \<le> entries_max * entry_size"
    using v by (simp add: page_valid_def)
  then show "length (page_body img m) < 2 ^ 16"
    using page(1) page_fits by linarith
  assume old: "page_wf entries_max wf_entry old"
  let ?pre = "[pg_count m, pg_flags m] @ replicate 2 0"
  have fits: "?n \<le> length (pg_entries old)" "list_all wf_entry (pg_entries old)"
    using old v by (simp_all add: page_wf_def page_valid_def)
  have "read_page read_entry entry_size (?pre @ concat (map img ?es) @ []) (length ?pre) (length ?es) 0
      (map2 got (take 0 (pg_entries old)) (take 0 ?es) @ drop 0 (pg_entries old)) =
    (True, map2 got (take (length ?es) (pg_entries old)) ?es @ drop (length ?es) (pg_entries old))"
    using page(2,3) fits length_img read_img by (intro read_page_image [where P = wf_entry]) auto
  then have "read_page read_entry entry_size (page_body img m) 4 ?n 0 (pg_entries old) =
    (True, map2 got (take ?n (pg_entries old)) ?es @ drop ?n (pg_entries old))"
    using page(2) by (simp add: page_body_def)
  moreover have "page_body img m ! 0 = pg_count m" "page_body img m ! 1 = pg_flags m"
    by (simp_all add: page_body_def)
  ultimately show "decode_page entries_max entry_size read_entry old (page_body img m) = (True, page_received got old m)"
    using page(1) v by (simp add: decode_page_def page_received_def page_valid_def Let_def)
qed

context page_codec
begin

lemma page_delivers:
  assumes "page_wf entries_max wf_entry m" and "page_wf entries_max wf_entry old"
  shows "delivers (encode_page mtype entries_max entry_size is_valid write_entry)
    (decode_page entries_max entry_size read_entry) mtype (page_valid entries_max is_valid m)
    (4 + entry_size * unat (pg_count m)) (page_received got old m) m old buf"
proof (cases "page_valid entries_max is_valid m")
  case True
  then show ?thesis
    using delivers_codec [OF assms, of buf] page_length(1) [OF assms(1) True] by (simp add: mult.commute)
next
  case False
  then show ?thesis
    using page_image [OF assms(1), of buf] by (simp add: delivers_def)
qed

end

lemma mem_write_first_byte [layout]: "mem_write (x # ys) 0 [b] = b # ys"
  by (simp add: mem_write_def)

section \<open>Entries\<close>

record AdminPeersReplyEntry =
  ape_peer_id :: u32
  ape_frames_forwarded :: u32
  ape_frames_dropped :: u32
  ape_uptime_seconds :: u32
  ape_role :: u8
  ape_transport_kind :: u8
  ape_agent_name :: bytes
  ape_fingerprint_hex :: bytes
  ape_origin :: bytes

record AdminPinsReplyEntry =
  api_agent_name :: bytes
  api_fingerprint_hex :: bytes

record AdminAgentsReplyEntry =
  aae_peer_id :: u32
  aae_interface_count :: u8
  aae_agent_name :: bytes
  aae_fingerprint_hex :: bytes

record AdminClientsReplyEntry =
  ace_peer_id :: u32
  ace_interface_id :: u32
  ace_channel :: u8
  ace_agent_name :: bytes
  ace_interface_name :: bytes
  ace_frames_forwarded :: u32
  ace_frames_dropped :: u32

record AdminAclListReplyEntry =
  acl_agent_name :: bytes
  acl_interface_name :: bytes
  acl_fingerprint_hex :: bytes
  acl_can_read :: u8
  acl_can_write :: u8
  acl_can_admin :: u8

record AdminInterfacesReplyEntry =
  aie_interface_id :: u32
  aie_subscriber_count :: u8
  aie_frames_received :: u64
  aie_tx_dropped :: u64
  aie_agent_name :: bytes
  aie_interface_name :: bytes
  aie_mode :: u8

record AdminTxnsReplyEntry =
  ate_interface_id :: u32
  ate_client_peer_id :: u32
  ate_agent_peer_id :: u32
  ate_txn_id :: u16
  ate_state :: u8
  ate_flags :: u8
  ate_completed_steps :: u32
  ate_bytes_in_flight :: u32
  ate_age_ms :: u32
  ate_progress_age_ms :: u32
  ate_agent_name :: bytes
  ate_interface_name :: bytes

record AdminRejectedReplyEntry =
  are_role :: u8
  are_reason :: u8
  are_attempts :: u32
  are_last_seen_seconds :: u32
  are_name :: bytes
  are_fingerprint_hex :: bytes
  are_origin :: bytes

definition writePeerEntry :: "bytes \<Rightarrow> nat \<Rightarrow> AdminPeersReplyEntry \<Rightarrow> bytes" where
  "writePeerEntry b off entry =
     (let b = Wire_WriteU32 b (off + 0) (ape_peer_id entry);
          b = Wire_WriteU32 b (off + 4) (ape_frames_forwarded entry);
          b = Wire_WriteU32 b (off + 8) (ape_frames_dropped entry);
          b = Wire_WriteU32 b (off + 209) (ape_uptime_seconds entry);
          b = mem_write b (off + 12) [ape_role entry];
          b = mem_write b (off + 13) [ape_transport_kind entry];
          b = write_text b (off + 16) (ape_agent_name entry);
          b = write_text b (off + 144) (ape_fingerprint_hex entry)
      in write_text b (off + 213) (ape_origin entry))"

definition readPeerEntry :: "bytes \<Rightarrow> nat \<Rightarrow> AdminPeersReplyEntry \<Rightarrow> AdminPeersReplyEntry" where
  "readPeerEntry p off entry = entry\<lparr>
     ape_peer_id := Wire_ReadU32 p (off + 0), ape_frames_forwarded := Wire_ReadU32 p (off + 4),
     ape_frames_dropped := Wire_ReadU32 p (off + 8), ape_uptime_seconds := Wire_ReadU32 p (off + 209),
     ape_role := p ! (off + 12), ape_transport_kind := p ! (off + 13),
     ape_agent_name := read_text p (off + 16) REGISTER_AGENT_NAME_SIZE,
     ape_fingerprint_hex := read_text p (off + 144) ADMIN_FINGERPRINT_HEX_SIZE,
     ape_origin := read_text p (off + 213) ADMIN_ORIGIN_SIZE\<rparr>"

definition writePinEntry :: "bytes \<Rightarrow> nat \<Rightarrow> AdminPinsReplyEntry \<Rightarrow> bytes" where
  "writePinEntry b off entry =
     (let b = write_text b (off + 0) (api_agent_name entry)
      in write_text b (off + 128) (api_fingerprint_hex entry))"

definition readPinEntry :: "bytes \<Rightarrow> nat \<Rightarrow> AdminPinsReplyEntry \<Rightarrow> AdminPinsReplyEntry" where
  "readPinEntry p off entry = entry\<lparr>
     api_agent_name := read_text p (off + 0) REGISTER_AGENT_NAME_SIZE,
     api_fingerprint_hex := read_text p (off + 128) ADMIN_FINGERPRINT_HEX_SIZE\<rparr>"

definition writeAgentEntry :: "bytes \<Rightarrow> nat \<Rightarrow> AdminAgentsReplyEntry \<Rightarrow> bytes" where
  "writeAgentEntry b off entry =
     (let b = Wire_WriteU32 b (off + 0) (aae_peer_id entry);
          b = mem_write b (off + 4) [aae_interface_count entry];
          b = write_text b (off + 8) (aae_agent_name entry)
      in write_text b (off + 136) (aae_fingerprint_hex entry))"

definition readAgentEntry :: "bytes \<Rightarrow> nat \<Rightarrow> AdminAgentsReplyEntry \<Rightarrow> AdminAgentsReplyEntry" where
  "readAgentEntry p off entry = entry\<lparr>
     aae_peer_id := Wire_ReadU32 p (off + 0), aae_interface_count := p ! (off + 4),
     aae_agent_name := read_text p (off + 8) REGISTER_AGENT_NAME_SIZE,
     aae_fingerprint_hex := read_text p (off + 136) ADMIN_FINGERPRINT_HEX_SIZE\<rparr>"

definition writeClientEntry :: "bytes \<Rightarrow> nat \<Rightarrow> AdminClientsReplyEntry \<Rightarrow> bytes" where
  "writeClientEntry b off entry =
     (let b = Wire_WriteU32 b (off + 0) (ace_peer_id entry);
          b = Wire_WriteU32 b (off + 4) (ace_interface_id entry);
          b = mem_write b (off + 8) [ace_channel entry];
          b = write_text b (off + 12) (ace_agent_name entry);
          b = write_text b (off + 140) (ace_interface_name entry);
          b = Wire_WriteU32 b (off + 156) (ace_frames_forwarded entry)
      in Wire_WriteU32 b (off + 160) (ace_frames_dropped entry))"

definition readClientEntry :: "bytes \<Rightarrow> nat \<Rightarrow> AdminClientsReplyEntry \<Rightarrow> AdminClientsReplyEntry" where
  "readClientEntry p off entry = entry\<lparr>
     ace_peer_id := Wire_ReadU32 p (off + 0), ace_interface_id := Wire_ReadU32 p (off + 4), ace_channel := p ! (off + 8),
     ace_agent_name := read_text p (off + 12) REGISTER_AGENT_NAME_SIZE,
     ace_interface_name := read_text p (off + 140) REGISTER_INTERFACE_NAME_SIZE,
     ace_frames_forwarded := Wire_ReadU32 p (off + 156), ace_frames_dropped := Wire_ReadU32 p (off + 160)\<rparr>"

definition writeAclEntry :: "bytes \<Rightarrow> nat \<Rightarrow> AdminAclListReplyEntry \<Rightarrow> bytes" where
  "writeAclEntry b off entry =
     (let b = write_text b (off + 0) (acl_agent_name entry);
          b = write_text b (off + 128) (acl_interface_name entry);
          b = write_text b (off + 144) (acl_fingerprint_hex entry);
          b = mem_write b (off + 209) [acl_can_read entry];
          b = mem_write b (off + 210) [acl_can_write entry]
      in mem_write b (off + 211) [acl_can_admin entry])"

definition readAclEntry :: "bytes \<Rightarrow> nat \<Rightarrow> AdminAclListReplyEntry \<Rightarrow> AdminAclListReplyEntry" where
  "readAclEntry p off entry = entry\<lparr>
     acl_agent_name := read_text p (off + 0) REGISTER_AGENT_NAME_SIZE,
     acl_interface_name := read_text p (off + 128) REGISTER_INTERFACE_NAME_SIZE,
     acl_fingerprint_hex := read_text p (off + 144) ADMIN_FINGERPRINT_HEX_SIZE,
     acl_can_read := p ! (off + 209), acl_can_write := p ! (off + 210), acl_can_admin := p ! (off + 211)\<rparr>"

definition writeInterfaceEntry :: "bytes \<Rightarrow> nat \<Rightarrow> AdminInterfacesReplyEntry \<Rightarrow> bytes" where
  "writeInterfaceEntry b off entry =
     (let b = Wire_WriteU32 b (off + 0) (aie_interface_id entry);
          b = mem_write b (off + 4) [aie_subscriber_count entry];
          b = mem_write b (off + 5) [aie_mode entry];
          b = Wire_WriteU64 b (off + 8) (aie_frames_received entry);
          b = write_text b (off + 16) (aie_agent_name entry);
          b = write_text b (off + 144) (aie_interface_name entry)
      in Wire_WriteU64 b (off + 160) (aie_tx_dropped entry))"

definition readInterfaceEntry :: "bytes \<Rightarrow> nat \<Rightarrow> AdminInterfacesReplyEntry \<Rightarrow> AdminInterfacesReplyEntry" where
  "readInterfaceEntry p off entry = entry\<lparr>
     aie_interface_id := Wire_ReadU32 p (off + 0), aie_subscriber_count := p ! (off + 4), aie_mode := p ! (off + 5),
     aie_frames_received := Wire_ReadU64 p (off + 8),
     aie_agent_name := read_text p (off + 16) REGISTER_AGENT_NAME_SIZE,
     aie_interface_name := read_text p (off + 144) REGISTER_INTERFACE_NAME_SIZE,
     aie_tx_dropped := Wire_ReadU64 p (off + 160)\<rparr>"

definition areTxnEntryNamesTerminated :: "AdminTxnsReplyEntry \<Rightarrow> bool" where
  "areTxnEntryNamesTerminated entry =
     (if \<not> isNameTerminated (ate_agent_name entry) then False
      else ate_interface_name entry ! (REGISTER_INTERFACE_NAME_SIZE - 1) = 0)"

definition writeTxnEntry :: "bytes \<Rightarrow> nat \<Rightarrow> AdminTxnsReplyEntry \<Rightarrow> bytes" where
  "writeTxnEntry b off entry =
     (let b = Wire_WriteU32 b (off + 0) (ate_interface_id entry);
          b = Wire_WriteU32 b (off + 4) (ate_client_peer_id entry);
          b = Wire_WriteU32 b (off + 8) (ate_agent_peer_id entry);
          b = Wire_WriteU16 b (off + 12) (ate_txn_id entry);
          b = mem_write b (off + 14) [ate_state entry];
          b = mem_write b (off + 15) [ate_flags entry];
          b = Wire_WriteU32 b (off + 16) (ate_completed_steps entry);
          b = Wire_WriteU32 b (off + 20) (ate_bytes_in_flight entry);
          b = Wire_WriteU32 b (off + 24) (ate_age_ms entry);
          b = Wire_WriteU32 b (off + 28) (ate_progress_age_ms entry);
          b = write_text b (off + 32) (ate_agent_name entry)
      in write_text b (off + 160) (ate_interface_name entry))"

definition readTxnEntry :: "bytes \<Rightarrow> nat \<Rightarrow> AdminTxnsReplyEntry \<Rightarrow> AdminTxnsReplyEntry" where
  "readTxnEntry p off entry = entry\<lparr>
     ate_interface_id := Wire_ReadU32 p (off + 0), ate_client_peer_id := Wire_ReadU32 p (off + 4),
     ate_agent_peer_id := Wire_ReadU32 p (off + 8), ate_txn_id := Wire_ReadU16 p (off + 12),
     ate_state := p ! (off + 14), ate_flags := p ! (off + 15),
     ate_completed_steps := Wire_ReadU32 p (off + 16), ate_bytes_in_flight := Wire_ReadU32 p (off + 20),
     ate_age_ms := Wire_ReadU32 p (off + 24), ate_progress_age_ms := Wire_ReadU32 p (off + 28),
     ate_agent_name := read_text p (off + 32) REGISTER_AGENT_NAME_SIZE,
     ate_interface_name := read_text p (off + 160) REGISTER_INTERFACE_NAME_SIZE\<rparr>"

definition isRejectedEntryTerminated :: "AdminRejectedReplyEntry \<Rightarrow> bool" where
  "isRejectedEntryTerminated entry =
     (if \<not> isNameTerminated (are_name entry) then False
      else if are_fingerprint_hex entry ! (ADMIN_FINGERPRINT_HEX_SIZE - 1) \<noteq> 0 then False
      else are_origin entry ! (ADMIN_ORIGIN_SIZE - 1) = 0)"

definition writeRejectedEntry :: "bytes \<Rightarrow> nat \<Rightarrow> AdminRejectedReplyEntry \<Rightarrow> bytes" where
  "writeRejectedEntry b off entry =
     (let b = mem_write b (off + 0) [are_role entry];
          b = mem_write b (off + 1) [are_reason entry];
          b = Wire_WriteU32 b (off + 4) (are_attempts entry);
          b = Wire_WriteU32 b (off + 8) (are_last_seen_seconds entry);
          b = write_text b (off + 12) (are_name entry);
          b = write_text b (off + 140) (are_fingerprint_hex entry)
      in write_text b (off + 205) (are_origin entry))"

definition readRejectedEntry :: "bytes \<Rightarrow> nat \<Rightarrow> AdminRejectedReplyEntry \<Rightarrow> AdminRejectedReplyEntry" where
  "readRejectedEntry p off entry = entry\<lparr>
     are_role := p ! (off + 0), are_reason := p ! (off + 1),
     are_attempts := Wire_ReadU32 p (off + 4), are_last_seen_seconds := Wire_ReadU32 p (off + 8),
     are_name := read_text p (off + 12) REGISTER_AGENT_NAME_SIZE,
     are_fingerprint_hex := read_text p (off + 140) ADMIN_FINGERPRINT_HEX_SIZE,
     are_origin := read_text p (off + 205) ADMIN_ORIGIN_SIZE\<rparr>"

section \<open>Listing replies\<close>

abbreviation (input) peer_terminated :: "AdminPeersReplyEntry \<Rightarrow> bool" where
  "peer_terminated \<equiv> (\<lambda>e. isNameTerminated (ape_agent_name e) \<and> ape_fingerprint_hex e ! (ADMIN_FINGERPRINT_HEX_SIZE - 1) = 0)"

definition AdminPeersReplyMessage_Encode :: "AdminPeersReplyEntry AdminPage \<Rightarrow> bytes \<Rightarrow> nat \<times> bytes" where
  "AdminPeersReplyMessage_Encode = encode_page kMESSAGE_TYPE_ADMIN_PEERS_REPLY 15 272
     peer_terminated writePeerEntry"

definition AdminPeersReplyMessage_Decode :: "AdminPeersReplyEntry AdminPage \<Rightarrow> bytes \<Rightarrow> bool \<times> AdminPeersReplyEntry AdminPage" where
  "AdminPeersReplyMessage_Decode = decode_page 15 272 (\<lambda>p off e. (True, readPeerEntry p off e))"

abbreviation (input) pin_terminated :: "AdminPinsReplyEntry \<Rightarrow> bool" where
  "pin_terminated \<equiv> (\<lambda>e. isNameTerminated (api_agent_name e) \<and> api_fingerprint_hex e ! (ADMIN_FINGERPRINT_HEX_SIZE - 1) = 0)"

definition AdminPinsReplyMessage_Encode :: "AdminPinsReplyEntry AdminPage \<Rightarrow> bytes \<Rightarrow> nat \<times> bytes" where
  "AdminPinsReplyMessage_Encode = encode_page kMESSAGE_TYPE_ADMIN_PINS_REPLY 16 196
     pin_terminated writePinEntry"

definition AdminPinsReplyMessage_Decode :: "AdminPinsReplyEntry AdminPage \<Rightarrow> bytes \<Rightarrow> bool \<times> AdminPinsReplyEntry AdminPage" where
  "AdminPinsReplyMessage_Decode = decode_page 16 196 (\<lambda>p off e. (True, readPinEntry p off e))"

abbreviation (input) agent_terminated :: "AdminAgentsReplyEntry \<Rightarrow> bool" where
  "agent_terminated \<equiv> (\<lambda>e. isNameTerminated (aae_agent_name e) \<and> aae_fingerprint_hex e ! (ADMIN_FINGERPRINT_HEX_SIZE - 1) = 0)"

definition AdminAgentsReplyMessage_Encode :: "AdminAgentsReplyEntry AdminPage \<Rightarrow> bytes \<Rightarrow> nat \<times> bytes" where
  "AdminAgentsReplyMessage_Encode = encode_page kMESSAGE_TYPE_ADMIN_AGENTS_REPLY 16 204
     agent_terminated writeAgentEntry"

definition AdminAgentsReplyMessage_Decode :: "AdminAgentsReplyEntry AdminPage \<Rightarrow> bytes \<Rightarrow> bool \<times> AdminAgentsReplyEntry AdminPage" where
  "AdminAgentsReplyMessage_Decode = decode_page 16 204 (\<lambda>p off e. (True, readAgentEntry p off e))"

abbreviation (input) client_terminated :: "AdminClientsReplyEntry \<Rightarrow> bool" where
  "client_terminated \<equiv> (\<lambda>e. isNameTerminated (ace_agent_name e) \<and> ace_interface_name e ! (REGISTER_INTERFACE_NAME_SIZE - 1) = 0)"

definition AdminClientsReplyMessage_Encode :: "AdminClientsReplyEntry AdminPage \<Rightarrow> bytes \<Rightarrow> nat \<times> bytes" where
  "AdminClientsReplyMessage_Encode = encode_page kMESSAGE_TYPE_ADMIN_CLIENTS_REPLY 16 164
     client_terminated writeClientEntry"

definition AdminClientsReplyMessage_Decode :: "AdminClientsReplyEntry AdminPage \<Rightarrow> bytes \<Rightarrow> bool \<times> AdminClientsReplyEntry AdminPage" where
  "AdminClientsReplyMessage_Decode = decode_page 16 164 (\<lambda>p off e. (True, readClientEntry p off e))"

abbreviation (input) acl_terminated :: "AdminAclListReplyEntry \<Rightarrow> bool" where
  "acl_terminated \<equiv> (\<lambda>e. isNameTerminated (acl_agent_name e) \<and> acl_interface_name e ! (REGISTER_INTERFACE_NAME_SIZE - 1) = 0 \<and> acl_fingerprint_hex e ! (ADMIN_FINGERPRINT_HEX_SIZE - 1) = 0)"

definition AdminAclListReplyMessage_Encode :: "AdminAclListReplyEntry AdminPage \<Rightarrow> bytes \<Rightarrow> nat \<times> bytes" where
  "AdminAclListReplyMessage_Encode = encode_page kMESSAGE_TYPE_ADMIN_ACL_LIST_REPLY 16 212
     acl_terminated writeAclEntry"

definition AdminAclListReplyMessage_Decode :: "AdminAclListReplyEntry AdminPage \<Rightarrow> bytes \<Rightarrow> bool \<times> AdminAclListReplyEntry AdminPage" where
  "AdminAclListReplyMessage_Decode = decode_page 16 212 (\<lambda>p off e. (True, readAclEntry p off e))"

abbreviation (input) interface_terminated :: "AdminInterfacesReplyEntry \<Rightarrow> bool" where
  "interface_terminated \<equiv> (\<lambda>e. isNameTerminated (aie_agent_name e) \<and> aie_interface_name e ! (REGISTER_INTERFACE_NAME_SIZE - 1) = 0)"

definition AdminInterfacesReplyMessage_Encode :: "AdminInterfacesReplyEntry AdminPage \<Rightarrow> bytes \<Rightarrow> nat \<times> bytes" where
  "AdminInterfacesReplyMessage_Encode = encode_page kMESSAGE_TYPE_ADMIN_INTERFACES_REPLY 16 168
     interface_terminated writeInterfaceEntry"

definition AdminInterfacesReplyMessage_Decode :: "AdminInterfacesReplyEntry AdminPage \<Rightarrow> bytes \<Rightarrow> bool \<times> AdminInterfacesReplyEntry AdminPage" where
  "AdminInterfacesReplyMessage_Decode = decode_page 16 168 (\<lambda>p off e. (True, readInterfaceEntry p off e))"

definition AdminTxnsReplyMessage_Encode :: "AdminTxnsReplyEntry AdminPage \<Rightarrow> bytes \<Rightarrow> nat \<times> bytes" where
  "AdminTxnsReplyMessage_Encode = encode_page kMESSAGE_TYPE_ADMIN_TXNS_REPLY 16 176
     areTxnEntryNamesTerminated writeTxnEntry"

definition AdminTxnsReplyMessage_Decode :: "AdminTxnsReplyEntry AdminPage \<Rightarrow> bytes \<Rightarrow> bool \<times> AdminTxnsReplyEntry AdminPage" where
  "AdminTxnsReplyMessage_Decode = decode_page 16 176 (\<lambda>p off e. (True, readTxnEntry p off e))"

definition AdminRejectedReplyMessage_Encode :: "AdminRejectedReplyEntry AdminPage \<Rightarrow> bytes \<Rightarrow> nat \<times> bytes" where
  "AdminRejectedReplyMessage_Encode = encode_page kMESSAGE_TYPE_ADMIN_REJECTED_REPLY 15 264
     isRejectedEntryTerminated writeRejectedEntry"

definition AdminRejectedReplyMessage_Decode :: "AdminRejectedReplyEntry AdminPage \<Rightarrow> bytes \<Rightarrow> bool \<times> AdminRejectedReplyEntry AdminPage" where
  "AdminRejectedReplyMessage_Decode = decode_page 15 264 (\<lambda>p off e. (True, readRejectedEntry p off e))"

text \<open>The bytes of an entry on the wire and what the receiver's struct holds of it.\<close>

definition peer_image :: "AdminPeersReplyEntry \<Rightarrow> bytes" where
  "peer_image e = le32 (ape_peer_id e) @ le32 (ape_frames_forwarded e) @ le32 (ape_frames_dropped e) @ [ape_role e, ape_transport_kind e] @ replicate 2 0 @ name_field 128 (ape_agent_name e) @ name_field 65 (ape_fingerprint_hex e) @ le32 (ape_uptime_seconds e) @ name_field 56 (ape_origin e) @ replicate 3 0"

definition peer_received :: "AdminPeersReplyEntry \<Rightarrow> AdminPeersReplyEntry \<Rightarrow> AdminPeersReplyEntry" where
  "peer_received old e = e\<lparr>ape_agent_name := name_field 128 (ape_agent_name e), ape_fingerprint_hex := name_field 65 (ape_fingerprint_hex e), ape_origin := name_field 56 (ape_origin e)\<rparr>"

definition peer_wf :: "AdminPeersReplyEntry \<Rightarrow> bool" where
  "peer_wf e \<longleftrightarrow> length (ape_agent_name e) = 128 \<and> length (ape_fingerprint_hex e) = 65 \<and> length (ape_origin e) = 56"

text \<open>The encoder checks the name and the fingerprint of a peer, never its origin; \<open>peer_wf\<close> does not ask it either.\<close>

definition origin_terminated :: "AdminPeersReplyEntry \<Rightarrow> bool" where
  "origin_terminated e \<longleftrightarrow> ape_origin e ! (56 - 1) = 0"

definition pin_image :: "AdminPinsReplyEntry \<Rightarrow> bytes" where
  "pin_image e = name_field 128 (api_agent_name e) @ name_field 65 (api_fingerprint_hex e) @ replicate 3 0"

definition pin_received :: "AdminPinsReplyEntry \<Rightarrow> AdminPinsReplyEntry \<Rightarrow> AdminPinsReplyEntry" where
  "pin_received old e = e\<lparr>api_agent_name := name_field 128 (api_agent_name e), api_fingerprint_hex := name_field 65 (api_fingerprint_hex e)\<rparr>"

definition pin_wf :: "AdminPinsReplyEntry \<Rightarrow> bool" where
  "pin_wf e \<longleftrightarrow> length (api_agent_name e) = 128 \<and> length (api_fingerprint_hex e) = 65"

definition agent_image :: "AdminAgentsReplyEntry \<Rightarrow> bytes" where
  "agent_image e = le32 (aae_peer_id e) @ [aae_interface_count e] @ replicate 3 0 @ name_field 128 (aae_agent_name e) @ name_field 65 (aae_fingerprint_hex e) @ replicate 3 0"

definition agent_received :: "AdminAgentsReplyEntry \<Rightarrow> AdminAgentsReplyEntry \<Rightarrow> AdminAgentsReplyEntry" where
  "agent_received old e = e\<lparr>aae_agent_name := name_field 128 (aae_agent_name e), aae_fingerprint_hex := name_field 65 (aae_fingerprint_hex e)\<rparr>"

definition agent_wf :: "AdminAgentsReplyEntry \<Rightarrow> bool" where
  "agent_wf e \<longleftrightarrow> length (aae_agent_name e) = 128 \<and> length (aae_fingerprint_hex e) = 65"

definition client_image :: "AdminClientsReplyEntry \<Rightarrow> bytes" where
  "client_image e = le32 (ace_peer_id e) @ le32 (ace_interface_id e) @ [ace_channel e] @ replicate 3 0 @ name_field 128 (ace_agent_name e) @ name_field 16 (ace_interface_name e) @ le32 (ace_frames_forwarded e) @ le32 (ace_frames_dropped e)"

definition client_received :: "AdminClientsReplyEntry \<Rightarrow> AdminClientsReplyEntry \<Rightarrow> AdminClientsReplyEntry" where
  "client_received old e = e\<lparr>ace_agent_name := name_field 128 (ace_agent_name e), ace_interface_name := name_field 16 (ace_interface_name e)\<rparr>"

definition client_wf :: "AdminClientsReplyEntry \<Rightarrow> bool" where
  "client_wf e \<longleftrightarrow> length (ace_agent_name e) = 128 \<and> length (ace_interface_name e) = 16"

definition acl_image :: "AdminAclListReplyEntry \<Rightarrow> bytes" where
  "acl_image e = name_field 128 (acl_agent_name e) @ name_field 16 (acl_interface_name e) @ name_field 65 (acl_fingerprint_hex e) @ [acl_can_read e, acl_can_write e, acl_can_admin e]"

definition acl_received :: "AdminAclListReplyEntry \<Rightarrow> AdminAclListReplyEntry \<Rightarrow> AdminAclListReplyEntry" where
  "acl_received old e = e\<lparr>acl_agent_name := name_field 128 (acl_agent_name e), acl_interface_name := name_field 16 (acl_interface_name e), acl_fingerprint_hex := name_field 65 (acl_fingerprint_hex e)\<rparr>"

definition acl_wf :: "AdminAclListReplyEntry \<Rightarrow> bool" where
  "acl_wf e \<longleftrightarrow> length (acl_agent_name e) = 128 \<and> length (acl_interface_name e) = 16 \<and> length (acl_fingerprint_hex e) = 65"

definition interface_image :: "AdminInterfacesReplyEntry \<Rightarrow> bytes" where
  "interface_image e = le32 (aie_interface_id e) @ [aie_subscriber_count e, aie_mode e] @ replicate 2 0 @ le64 (aie_frames_received e) @ name_field 128 (aie_agent_name e) @ name_field 16 (aie_interface_name e) @ le64 (aie_tx_dropped e)"

definition interface_received :: "AdminInterfacesReplyEntry \<Rightarrow> AdminInterfacesReplyEntry \<Rightarrow> AdminInterfacesReplyEntry" where
  "interface_received old e = e\<lparr>aie_agent_name := name_field 128 (aie_agent_name e), aie_interface_name := name_field 16 (aie_interface_name e)\<rparr>"

definition interface_wf :: "AdminInterfacesReplyEntry \<Rightarrow> bool" where
  "interface_wf e \<longleftrightarrow> length (aie_agent_name e) = 128 \<and> length (aie_interface_name e) = 16"

definition txn_image :: "AdminTxnsReplyEntry \<Rightarrow> bytes" where
  "txn_image e = le32 (ate_interface_id e) @ le32 (ate_client_peer_id e) @ le32 (ate_agent_peer_id e) @ le16 (ate_txn_id e) @ [ate_state e, ate_flags e] @ le32 (ate_completed_steps e) @ le32 (ate_bytes_in_flight e) @ le32 (ate_age_ms e) @ le32 (ate_progress_age_ms e) @ name_field 128 (ate_agent_name e) @ name_field 16 (ate_interface_name e)"

definition txn_received :: "AdminTxnsReplyEntry \<Rightarrow> AdminTxnsReplyEntry \<Rightarrow> AdminTxnsReplyEntry" where
  "txn_received old e = e\<lparr>ate_agent_name := name_field 128 (ate_agent_name e), ate_interface_name := name_field 16 (ate_interface_name e)\<rparr>"

definition txn_wf :: "AdminTxnsReplyEntry \<Rightarrow> bool" where
  "txn_wf e \<longleftrightarrow> length (ate_agent_name e) = 128 \<and> length (ate_interface_name e) = 16"

definition rejected_image :: "AdminRejectedReplyEntry \<Rightarrow> bytes" where
  "rejected_image e = [are_role e, are_reason e] @ replicate 2 0 @ le32 (are_attempts e) @ le32 (are_last_seen_seconds e) @ name_field 128 (are_name e) @ name_field 65 (are_fingerprint_hex e) @ name_field 56 (are_origin e) @ replicate 3 0"

definition rejected_received :: "AdminRejectedReplyEntry \<Rightarrow> AdminRejectedReplyEntry \<Rightarrow> AdminRejectedReplyEntry" where
  "rejected_received old e = e\<lparr>are_name := name_field 128 (are_name e), are_fingerprint_hex := name_field 65 (are_fingerprint_hex e), are_origin := name_field 56 (are_origin e)\<rparr>"

definition rejected_wf :: "AdminRejectedReplyEntry \<Rightarrow> bool" where
  "rejected_wf e \<longleftrightarrow> length (are_name e) = 128 \<and> length (are_fingerprint_hex e) = 65 \<and> length (are_origin e) = 56"

interpretation peer_page: page_codec kMESSAGE_TYPE_ADMIN_PEERS_REPLY 15 272
  peer_terminated writePeerEntry
  "\<lambda>p off e. (True, readPeerEntry p off e)" "\<lambda>e. peer_wf e \<and> origin_terminated e" peer_image peer_received
proof unfold_locales
  have zeroes: "replicate 272 (0 :: u8) = zero_fields [16, 128, 65, 4, 56, 3]"
    by (simp add: zero_fields_sum)
  fix e :: AdminPeersReplyEntry and pre post
  assume "peer_wf e \<and> origin_terminated e" and "peer_terminated e"
  then have "length (cstr (ape_agent_name e)) < 128" "length (cstr (ape_fingerprint_hex e)) < 65" "length (cstr (ape_origin e)) < 56"
    using terminated_strlen [of "ape_agent_name e" 128] terminated_strlen [of "ape_fingerprint_hex e" 65] terminated_strlen [of "ape_origin e" 56]
    by (simp_all add: peer_wf_def origin_terminated_def isNameTerminated_def split: if_splits)
  then show "writePeerEntry (pre @ replicate 272 0 @ post) (length pre) e = pre @ peer_image e @ post"
    unfolding zeroes by (simp add: writePeerEntry_def peer_image_def layout Let_def)
qed (simp_all add: readPeerEntry_def peer_image_def peer_received_def layout)

interpretation pin_page: page_codec kMESSAGE_TYPE_ADMIN_PINS_REPLY 16 196
  pin_terminated writePinEntry
  "\<lambda>p off e. (True, readPinEntry p off e)" pin_wf pin_image pin_received
proof unfold_locales
  have zeroes: "replicate 196 (0 :: u8) = zero_fields [128, 65, 3]"
    by (simp add: zero_fields_sum)
  fix e :: AdminPinsReplyEntry and pre post
  assume "pin_wf e" and "pin_terminated e"
  then have "length (cstr (api_agent_name e)) < 128" "length (cstr (api_fingerprint_hex e)) < 65"
    using terminated_strlen [of "api_agent_name e" 128] terminated_strlen [of "api_fingerprint_hex e" 65]
    by (simp_all add: pin_wf_def isNameTerminated_def split: if_splits)
  then show "writePinEntry (pre @ replicate 196 0 @ post) (length pre) e = pre @ pin_image e @ post"
    unfolding zeroes by (simp add: writePinEntry_def pin_image_def layout Let_def)
qed (simp_all add: readPinEntry_def pin_image_def pin_received_def layout)

interpretation agent_page: page_codec kMESSAGE_TYPE_ADMIN_AGENTS_REPLY 16 204
  agent_terminated writeAgentEntry
  "\<lambda>p off e. (True, readAgentEntry p off e)" agent_wf agent_image agent_received
proof unfold_locales
  have zeroes: "replicate 204 (0 :: u8) = zero_fields [8, 128, 65, 3]"
    by (simp add: zero_fields_sum)
  fix e :: AdminAgentsReplyEntry and pre post
  assume "agent_wf e" and "agent_terminated e"
  then have "length (cstr (aae_agent_name e)) < 128" "length (cstr (aae_fingerprint_hex e)) < 65"
    using terminated_strlen [of "aae_agent_name e" 128] terminated_strlen [of "aae_fingerprint_hex e" 65]
    by (simp_all add: agent_wf_def isNameTerminated_def split: if_splits)
  then show "writeAgentEntry (pre @ replicate 204 0 @ post) (length pre) e = pre @ agent_image e @ post"
    unfolding zeroes by (simp add: writeAgentEntry_def agent_image_def layout Let_def)
qed (simp_all add: readAgentEntry_def agent_image_def agent_received_def layout)

interpretation client_page: page_codec kMESSAGE_TYPE_ADMIN_CLIENTS_REPLY 16 164
  client_terminated writeClientEntry
  "\<lambda>p off e. (True, readClientEntry p off e)" client_wf client_image client_received
proof unfold_locales
  have zeroes: "replicate 164 (0 :: u8) = zero_fields [12, 128, 16, 8]"
    by (simp add: zero_fields_sum)
  fix e :: AdminClientsReplyEntry and pre post
  assume "client_wf e" and "client_terminated e"
  then have "length (cstr (ace_agent_name e)) < 128" "length (cstr (ace_interface_name e)) < 16"
    using terminated_strlen [of "ace_agent_name e" 128] terminated_strlen [of "ace_interface_name e" 16]
    by (simp_all add: client_wf_def isNameTerminated_def split: if_splits)
  then show "writeClientEntry (pre @ replicate 164 0 @ post) (length pre) e = pre @ client_image e @ post"
    unfolding zeroes by (simp add: writeClientEntry_def client_image_def layout Let_def)
qed (simp_all add: readClientEntry_def client_image_def client_received_def layout)

interpretation acl_page: page_codec kMESSAGE_TYPE_ADMIN_ACL_LIST_REPLY 16 212
  acl_terminated writeAclEntry
  "\<lambda>p off e. (True, readAclEntry p off e)" acl_wf acl_image acl_received
proof unfold_locales
  have zeroes: "replicate 212 (0 :: u8) = zero_fields [128, 16, 65, 3]"
    by (simp add: zero_fields_sum)
  fix e :: AdminAclListReplyEntry and pre post
  assume "acl_wf e" and "acl_terminated e"
  then have "length (cstr (acl_agent_name e)) < 128" "length (cstr (acl_interface_name e)) < 16" "length (cstr (acl_fingerprint_hex e)) < 65"
    using terminated_strlen [of "acl_agent_name e" 128] terminated_strlen [of "acl_interface_name e" 16] terminated_strlen [of "acl_fingerprint_hex e" 65]
    by (simp_all add: acl_wf_def isNameTerminated_def split: if_splits)
  then show "writeAclEntry (pre @ replicate 212 0 @ post) (length pre) e = pre @ acl_image e @ post"
    unfolding zeroes by (simp add: writeAclEntry_def acl_image_def layout Let_def)
qed (simp_all add: readAclEntry_def acl_image_def acl_received_def layout)

interpretation interface_page: page_codec kMESSAGE_TYPE_ADMIN_INTERFACES_REPLY 16 168
  interface_terminated writeInterfaceEntry
  "\<lambda>p off e. (True, readInterfaceEntry p off e)" interface_wf interface_image interface_received
proof unfold_locales
  have zeroes: "replicate 168 (0 :: u8) = zero_fields [16, 128, 16, 8]"
    by (simp add: zero_fields_sum)
  fix e :: AdminInterfacesReplyEntry and pre post
  assume "interface_wf e" and "interface_terminated e"
  then have "length (cstr (aie_agent_name e)) < 128" "length (cstr (aie_interface_name e)) < 16"
    using terminated_strlen [of "aie_agent_name e" 128] terminated_strlen [of "aie_interface_name e" 16]
    by (simp_all add: interface_wf_def isNameTerminated_def split: if_splits)
  then show "writeInterfaceEntry (pre @ replicate 168 0 @ post) (length pre) e = pre @ interface_image e @ post"
    unfolding zeroes by (simp add: writeInterfaceEntry_def interface_image_def layout Let_def)
qed (simp_all add: readInterfaceEntry_def interface_image_def interface_received_def layout)

interpretation txn_page: page_codec kMESSAGE_TYPE_ADMIN_TXNS_REPLY 16 176
  areTxnEntryNamesTerminated writeTxnEntry
  "\<lambda>p off e. (True, readTxnEntry p off e)" txn_wf txn_image txn_received
proof unfold_locales
  have zeroes: "replicate 176 (0 :: u8) = zero_fields [32, 128, 16]"
    by (simp add: zero_fields_sum)
  fix e :: AdminTxnsReplyEntry and pre post
  assume "txn_wf e" and "areTxnEntryNamesTerminated e"
  then have "length (cstr (ate_agent_name e)) < 128" "length (cstr (ate_interface_name e)) < 16"
    using terminated_strlen [of "ate_agent_name e" 128] terminated_strlen [of "ate_interface_name e" 16]
    by (simp_all add: txn_wf_def areTxnEntryNamesTerminated_def isNameTerminated_def split: if_splits)
  then show "writeTxnEntry (pre @ replicate 176 0 @ post) (length pre) e = pre @ txn_image e @ post"
    unfolding zeroes by (simp add: writeTxnEntry_def txn_image_def layout Let_def)
qed (simp_all add: readTxnEntry_def txn_image_def txn_received_def layout)

interpretation rejected_page: page_codec kMESSAGE_TYPE_ADMIN_REJECTED_REPLY 15 264
  isRejectedEntryTerminated writeRejectedEntry
  "\<lambda>p off e. (True, readRejectedEntry p off e)" rejected_wf rejected_image rejected_received
proof unfold_locales
  have zeroes: "replicate 264 (0 :: u8) = zero_fields [12, 128, 65, 56, 3]"
    by (simp add: zero_fields_sum)
  fix e :: AdminRejectedReplyEntry and pre post
  assume "rejected_wf e" and "isRejectedEntryTerminated e"
  then have "length (cstr (are_name e)) < 128" "length (cstr (are_fingerprint_hex e)) < 65" "length (cstr (are_origin e)) < 56"
    using terminated_strlen [of "are_name e" 128] terminated_strlen [of "are_fingerprint_hex e" 65] terminated_strlen [of "are_origin e" 56]
    by (simp_all add: rejected_wf_def isRejectedEntryTerminated_def isNameTerminated_def split: if_splits)
  then show "writeRejectedEntry (pre @ replicate 264 0 @ post) (length pre) e = pre @ rejected_image e @ post"
    unfolding zeroes by (simp add: writeRejectedEntry_def rejected_image_def layout Let_def)
qed (simp_all add: readRejectedEntry_def rejected_image_def rejected_received_def layout)
section \<open>Requests and replies of fixed size\<close>

record TransactionCounters =
  tc_started :: u64
  tc_completed :: u64
  tc_aborted :: u64
  tc_rejected :: u64
  tc_steps_completed :: u64
  tc_lease_frame_drops :: u64

record AdminStatusReplyMessage =
  asr_peer_count :: u16
  asr_agent_count :: u16
  asr_client_count :: u16
  asr_interface_count :: u16
  asr_receive_overflows :: u32
  asr_frames_received :: u64
  asr_frames_forwarded :: u64
  asr_frames_dropped :: u64
  asr_frames_unroutable :: u64
  asr_transactions :: TransactionCounters

record AdminKickPeerMessage =
  akp_peer_id :: u32

type_synonym AdminPinAddMessage = AdminPinsReplyEntry
type_synonym AdminAclSetMessage = AdminAclListReplyEntry

record AdminAclRevokeMessage =
  aar_agent_name :: bytes
  aar_interface_name :: bytes
  aar_fingerprint_hex :: bytes

definition AdminStatusMessage_Encode :: "bytes \<Rightarrow> nat \<times> bytes" where
  "AdminStatusMessage_Encode buffer = encodeFixedBody kMESSAGE_TYPE_ADMIN_STATUS 0 buffer"

definition AdminStatusReplyMessage_Encode :: "AdminStatusReplyMessage \<Rightarrow> bytes \<Rightarrow> nat \<times> bytes" where
  "AdminStatusReplyMessage_Encode self buffer =
     (case encodeFixedBody kMESSAGE_TYPE_ADMIN_STATUS_REPLY 92 buffer of (total_size, b) \<Rightarrow>
        if total_size = 0 then (0, b)
        else
          let body = MESSAGE_HEADER_SIZE; t = asr_transactions self;
              b = Wire_WriteU16 b (body + 0) (asr_peer_count self);
              b = Wire_WriteU16 b (body + 2) (asr_agent_count self);
              b = Wire_WriteU16 b (body + 4) (asr_client_count self);
              b = Wire_WriteU16 b (body + 6) (asr_interface_count self);
              b = Wire_WriteU32 b (body + 8) (asr_receive_overflows self);
              b = Wire_WriteU64 b (body + 12) (asr_frames_received self);
              b = Wire_WriteU64 b (body + 20) (asr_frames_forwarded self);
              b = Wire_WriteU64 b (body + 28) (asr_frames_dropped self);
              b = Wire_WriteU64 b (body + 36) (asr_frames_unroutable self);
              b = Wire_WriteU64 b (body + 44) (tc_started t);
              b = Wire_WriteU64 b (body + 52) (tc_completed t);
              b = Wire_WriteU64 b (body + 60) (tc_aborted t);
              b = Wire_WriteU64 b (body + 68) (tc_rejected t);
              b = Wire_WriteU64 b (body + 76) (tc_steps_completed t);
              b = Wire_WriteU64 b (body + 84) (tc_lease_frame_drops t)
          in (total_size, b))"

definition AdminStatusReplyMessage_Decode ::
    "AdminStatusReplyMessage \<Rightarrow> bytes \<Rightarrow> bool \<times> AdminStatusReplyMessage" where
  "AdminStatusReplyMessage_Decode self payload =
     (if length payload < 92 then (False, self)
      else (True, self\<lparr>
        asr_peer_count := Wire_ReadU16 payload 0, asr_agent_count := Wire_ReadU16 payload 2,
        asr_client_count := Wire_ReadU16 payload 4, asr_interface_count := Wire_ReadU16 payload 6,
        asr_receive_overflows := Wire_ReadU32 payload 8,
        asr_frames_received := Wire_ReadU64 payload 12, asr_frames_forwarded := Wire_ReadU64 payload 20,
        asr_frames_dropped := Wire_ReadU64 payload 28, asr_frames_unroutable := Wire_ReadU64 payload 36,
        asr_transactions := (asr_transactions self)\<lparr>
          tc_started := Wire_ReadU64 payload 44, tc_completed := Wire_ReadU64 payload 52,
          tc_aborted := Wire_ReadU64 payload 60, tc_rejected := Wire_ReadU64 payload 68,
          tc_steps_completed := Wire_ReadU64 payload 76, tc_lease_frame_drops := Wire_ReadU64 payload 84\<rparr>\<rparr>))"

definition AdminKickPeerMessage_Encode :: "AdminKickPeerMessage \<Rightarrow> bytes \<Rightarrow> nat \<times> bytes" where
  "AdminKickPeerMessage_Encode self buffer =
     (case encodeFixedBody kMESSAGE_TYPE_ADMIN_KICK_PEER 4 buffer of (total_size, b) \<Rightarrow>
        if total_size = 0 then (0, b) else (total_size, Wire_WriteU32 b (MESSAGE_HEADER_SIZE + 0) (akp_peer_id self)))"

definition AdminKickPeerMessage_Decode :: "AdminKickPeerMessage \<Rightarrow> bytes \<Rightarrow> bool \<times> AdminKickPeerMessage" where
  "AdminKickPeerMessage_Decode self payload =
     (if length payload < 4 then (False, self) else (True, self\<lparr>akp_peer_id := Wire_ReadU32 payload 0\<rparr>))"

definition AdminPinAddMessage_Encode :: "AdminPinAddMessage \<Rightarrow> bytes \<Rightarrow> nat \<times> bytes" where
  "AdminPinAddMessage_Encode self buffer =
     (if \<not> isNameTerminated (api_agent_name self) \<or> api_agent_name self ! 0 = 0 then (0, buffer)
      else if api_fingerprint_hex self ! (ADMIN_FINGERPRINT_HEX_SIZE - 1) \<noteq> 0 \<or> api_fingerprint_hex self ! 0 = 0
      then (0, buffer)
      else case encodeFixedBody kMESSAGE_TYPE_ADMIN_PIN_ADD 196 buffer of (total_size, b) \<Rightarrow>
        if total_size = 0 then (0, b)
        else
          let b = write_text b (MESSAGE_HEADER_SIZE + 0) (api_agent_name self)
          in (total_size, write_text b (MESSAGE_HEADER_SIZE + 128) (api_fingerprint_hex self)))"

definition AdminPinAddMessage_Decode :: "AdminPinAddMessage \<Rightarrow> bytes \<Rightarrow> bool \<times> AdminPinAddMessage" where
  "AdminPinAddMessage_Decode self payload =
     (if length payload < 196 then (False, self)
      else
        let self = self\<lparr>api_agent_name := read_text payload 0 REGISTER_AGENT_NAME_SIZE,
              api_fingerprint_hex := read_text payload 128 ADMIN_FINGERPRINT_HEX_SIZE\<rparr>
        in (api_agent_name self ! 0 \<noteq> 0 \<and> api_fingerprint_hex self ! 0 \<noteq> 0, self))"

definition AdminAclSetMessage_Encode :: "AdminAclSetMessage \<Rightarrow> bytes \<Rightarrow> nat \<times> bytes" where
  "AdminAclSetMessage_Encode self buffer =
     (if \<not> isNameTerminated (acl_agent_name self) \<or> acl_agent_name self ! 0 = 0 then (0, buffer)
      else if acl_interface_name self ! (REGISTER_INTERFACE_NAME_SIZE - 1) \<noteq> 0 \<or> acl_interface_name self ! 0 = 0
      then (0, buffer)
      else if acl_fingerprint_hex self ! (ADMIN_FINGERPRINT_HEX_SIZE - 1) \<noteq> 0 \<or> acl_fingerprint_hex self ! 0 = 0
      then (0, buffer)
      else case encodeFixedBody kMESSAGE_TYPE_ADMIN_ACL_SET 212 buffer of (total_size, b) \<Rightarrow>
        if total_size = 0 then (0, b)
        else
          let body = MESSAGE_HEADER_SIZE;
              b = write_text b (body + 0) (acl_agent_name self);
              b = write_text b (body + 128) (acl_interface_name self);
              b = write_text b (body + 144) (acl_fingerprint_hex self);
              b = mem_write b (body + 209) [acl_can_read self];
              b = mem_write b (body + 210) [acl_can_write self];
              b = mem_write b (body + 211) [acl_can_admin self]
          in (total_size, b))"

definition AdminAclSetMessage_Decode :: "AdminAclSetMessage \<Rightarrow> bytes \<Rightarrow> bool \<times> AdminAclSetMessage" where
  "AdminAclSetMessage_Decode self payload =
     (if length payload < 212 then (False, self)
      else
        let self = self\<lparr>acl_agent_name := read_text payload 0 REGISTER_AGENT_NAME_SIZE,
              acl_interface_name := read_text payload 128 REGISTER_INTERFACE_NAME_SIZE,
              acl_fingerprint_hex := read_text payload 144 ADMIN_FINGERPRINT_HEX_SIZE,
              acl_can_read := payload ! 209, acl_can_write := payload ! 210, acl_can_admin := payload ! 211\<rparr>
        in (acl_agent_name self ! 0 \<noteq> 0 \<and> acl_interface_name self ! 0 \<noteq> 0 \<and> acl_fingerprint_hex self ! 0 \<noteq> 0, self))"

definition AdminAclRevokeMessage_Encode :: "AdminAclRevokeMessage \<Rightarrow> bytes \<Rightarrow> nat \<times> bytes" where
  "AdminAclRevokeMessage_Encode self buffer =
     (if \<not> isNameTerminated (aar_agent_name self) \<or> aar_agent_name self ! 0 = 0 then (0, buffer)
      else if aar_interface_name self ! (REGISTER_INTERFACE_NAME_SIZE - 1) \<noteq> 0 \<or> aar_interface_name self ! 0 = 0
      then (0, buffer)
      else if aar_fingerprint_hex self ! (ADMIN_FINGERPRINT_HEX_SIZE - 1) \<noteq> 0 \<or> aar_fingerprint_hex self ! 0 = 0
      then (0, buffer)
      else case encodeFixedBody kMESSAGE_TYPE_ADMIN_ACL_REVOKE 212 buffer of (total_size, b) \<Rightarrow>
        if total_size = 0 then (0, b)
        else
          let body = MESSAGE_HEADER_SIZE;
              b = write_text b (body + 0) (aar_agent_name self);
              b = write_text b (body + 128) (aar_interface_name self);
              b = write_text b (body + 144) (aar_fingerprint_hex self)
          in (total_size, b))"

definition AdminAclRevokeMessage_Decode :: "AdminAclRevokeMessage \<Rightarrow> bytes \<Rightarrow> bool \<times> AdminAclRevokeMessage" where
  "AdminAclRevokeMessage_Decode self payload =
     (if length payload < 212 then (False, self)
      else
        let self = self\<lparr>aar_agent_name := read_text payload 0 REGISTER_AGENT_NAME_SIZE,
              aar_interface_name := read_text payload 128 REGISTER_INTERFACE_NAME_SIZE,
              aar_fingerprint_hex := read_text payload 144 ADMIN_FINGERPRINT_HEX_SIZE\<rparr>
        in (aar_agent_name self ! 0 \<noteq> 0 \<and> aar_interface_name self ! 0 \<noteq> 0 \<and> aar_fingerprint_hex self ! 0 \<noteq> 0, self))"

lemma name_field_head [simp]:
  assumes "1 < n" and "length a = n"
  shows "name_field n a ! 0 = a ! 0"
proof (cases a)
  case Nil
  then show ?thesis using assms by simp
next
  case (Cons x xs)
  then show ?thesis
    using assms by (cases n) (auto simp: name_field_def zero_pad_def cstr_def nth_append take_Cons' split: if_splits)
qed

definition name_wf :: "AdminName \<Rightarrow> bool" where
  "name_wf m \<longleftrightarrow> length (an_agent_name m) = REGISTER_AGENT_NAME_SIZE"

definition filtered_wf :: "AdminFiltered \<Rightarrow> bool" where
  "filtered_wf m \<longleftrightarrow> length (af_agent_name m) = REGISTER_AGENT_NAME_SIZE"

definition revoke_wf :: "AdminAclRevokeMessage \<Rightarrow> bool" where
  "revoke_wf m \<longleftrightarrow> length (aar_agent_name m) = REGISTER_AGENT_NAME_SIZE \<and>
     length (aar_interface_name m) = REGISTER_INTERFACE_NAME_SIZE \<and> length (aar_fingerprint_hex m) = ADMIN_FINGERPRINT_HEX_SIZE"

text \<open>A text field that is terminated and not empty.\<close>

definition text_given :: "nat \<Rightarrow> bytes \<Rightarrow> bool" where
  "text_given n a \<longleftrightarrow> a ! (n - 1) = 0 \<and> a ! 0 \<noteq> 0"

lemma text_given_fits: "text_given n a \<Longrightarrow> length a = n \<Longrightarrow> 0 < n \<Longrightarrow> length (cstr a) < n"
  by (simp add: text_given_def terminated_strlen)

definition status_reply_body :: "AdminStatusReplyMessage \<Rightarrow> bytes" where
  "status_reply_body m = (let t = asr_transactions m
     in le16 (asr_peer_count m) @ le16 (asr_agent_count m) @ le16 (asr_client_count m) @ le16 (asr_interface_count m) @
        le32 (asr_receive_overflows m) @ le64 (asr_frames_received m) @ le64 (asr_frames_forwarded m) @
        le64 (asr_frames_dropped m) @ le64 (asr_frames_unroutable m) @ le64 (tc_started t) @ le64 (tc_completed t) @
        le64 (tc_aborted t) @ le64 (tc_rejected t) @ le64 (tc_steps_completed t) @ le64 (tc_lease_frame_drops t))"

interpretation offset_request: message_codec "encodeOffsetRequest t" decodeOffsetRequest t
  "\<lambda>m. True" "\<lambda>m. True" "\<lambda>m. le16 (ao_offset m) @ replicate 2 0" "\<lambda>old m. m" for t
  by unfold_locales
    (simp_all add: encodeOffsetRequest_def decodeOffsetRequest_def encodeFixedBody_begin
      message_begin_fields [of 4 _ "[4]"] layout Let_def)

interpretation status_code: message_codec "encodeStatusReply t" decodeStatusReply t
  "\<lambda>m. True" "\<lambda>m. True" "\<lambda>m. [as_status m] @ replicate 3 0" "\<lambda>old m. m" for t
  by unfold_locales
    (simp_all add: encodeStatusReply_def decodeStatusReply_def encodeFixedBody_begin
      message_begin_fields [of 4 _ "[4]"] layout Let_def)

interpretation kick_peer: message_codec AdminKickPeerMessage_Encode AdminKickPeerMessage_Decode
  kMESSAGE_TYPE_ADMIN_KICK_PEER "\<lambda>m. True" "\<lambda>m. True" "\<lambda>m. le32 (akp_peer_id m)" "\<lambda>old m. m"
  by unfold_locales
    (simp_all add: AdminKickPeerMessage_Encode_def AdminKickPeerMessage_Decode_def encodeFixedBody_begin
      message_begin_fields [of 4 _ "[4]"] layout Let_def)

interpretation status_reply: message_codec AdminStatusReplyMessage_Encode AdminStatusReplyMessage_Decode
  kMESSAGE_TYPE_ADMIN_STATUS_REPLY "\<lambda>m. True" "\<lambda>m. True" status_reply_body "\<lambda>old m. m"
proof unfold_locales
  fix m old :: AdminStatusReplyMessage and buf :: bytes
  have len: "length (status_reply_body m) = 92"
    by (simp add: status_reply_body_def Let_def)
  show "AdminStatusReplyMessage_Encode m buf =
      (if True \<and> 4 + length (status_reply_body m) \<le> length buf
       then (4 + length (status_reply_body m), header_image kMESSAGE_TYPE_ADMIN_STATUS_REPLY (length (status_reply_body m)) @
         status_reply_body m @ drop (4 + length (status_reply_body m)) buf)
       else (0, buf))"
    unfolding len AdminStatusReplyMessage_Encode_def Let_def encodeFixedBody_begin
    by (simp add: message_begin_fields [of 92 _ "[2, 2, 2, 2, 4, 8, 8, 8, 8, 8, 8, 8, 8, 8, 8]"] layout)
      (simp add: status_reply_body_def Let_def)
  show "length (status_reply_body m) < 2 ^ 16"
    by (simp add: len)
  show "AdminStatusReplyMessage_Decode old (status_reply_body m) = (True, m)"
    unfolding AdminStatusReplyMessage_Decode_def len by (simp add: status_reply_body_def layout Let_def)
qed

interpretation name_request: message_codec "encodeAgentName t" decodeAgentName t
  name_wf "\<lambda>m. text_given 128 (an_agent_name m)" "\<lambda>m. name_field 128 (an_agent_name m)"
  "\<lambda>old m. m\<lparr>an_agent_name := name_field 128 (an_agent_name m)\<rparr>" for t
proof unfold_locales
  fix m :: AdminName and buf :: bytes
  assume w: "name_wf m"
  have "length (cstr (an_agent_name m)) < 128" if "text_given 128 (an_agent_name m)"
    using w that text_given_fits [of 128 "an_agent_name m"] by (simp add: name_wf_def)
  then show "encodeAgentName t m buf =
      (if text_given 128 (an_agent_name m) \<and> 4 + length (name_field 128 (an_agent_name m)) \<le> length buf
       then (4 + length (name_field 128 (an_agent_name m)),
         header_image t (length (name_field 128 (an_agent_name m))) @ name_field 128 (an_agent_name m) @
         drop (4 + length (name_field 128 (an_agent_name m))) buf)
       else (0, buf))"
    by (auto simp: encodeAgentName_def encodeFixedBody_begin isNameTerminated_def text_given_def
        message_begin_fields [of 128 _ "[128]"] layout)
qed (simp_all add: decodeAgentName_def name_wf_def text_given_def layout)

interpretation filtered_request: message_codec "encodeFilteredRequest t" decodeFilteredRequest t
  filtered_wf "\<lambda>m. isNameTerminated (af_agent_name m)"
  "\<lambda>m. le16 (af_offset m) @ replicate 2 0 @ name_field 128 (af_agent_name m)"
  "\<lambda>old m. m\<lparr>af_agent_name := name_field 128 (af_agent_name m)\<rparr>" for t
proof unfold_locales
  fix m :: AdminFiltered and buf :: bytes
  assume w: "filtered_wf m"
  have "length (cstr (af_agent_name m)) < 128" if "isNameTerminated (af_agent_name m)"
    using w that terminated_strlen [of "af_agent_name m" 128] by (simp add: filtered_wf_def isNameTerminated_def)
  then show "encodeFilteredRequest t m buf =
      (if isNameTerminated (af_agent_name m) \<and>
          4 + length (le16 (af_offset m) @ replicate 2 0 @ name_field 128 (af_agent_name m)) \<le> length buf
       then (4 + length (le16 (af_offset m) @ replicate 2 0 @ name_field 128 (af_agent_name m)),
         header_image t (length (le16 (af_offset m) @ replicate 2 0 @ name_field 128 (af_agent_name m))) @
         (le16 (af_offset m) @ replicate 2 0 @ name_field 128 (af_agent_name m)) @
         drop (4 + length (le16 (af_offset m) @ replicate 2 0 @ name_field 128 (af_agent_name m))) buf)
       else (0, buf))"
    by (auto simp: encodeFilteredRequest_def encodeFixedBody_begin message_begin_fields [of 132 _ "[4, 128]"] layout Let_def)
qed (simp_all add: decodeFilteredRequest_def filtered_wf_def layout Let_def)

definition revoke_body :: "AdminAclRevokeMessage \<Rightarrow> bytes" where
  "revoke_body m = name_field 128 (aar_agent_name m) @ name_field 16 (aar_interface_name m) @
     name_field 65 (aar_fingerprint_hex m) @ replicate 3 0"

definition revoke_received :: "AdminAclRevokeMessage \<Rightarrow> AdminAclRevokeMessage \<Rightarrow> AdminAclRevokeMessage" where
  "revoke_received old m = m\<lparr>aar_agent_name := name_field 128 (aar_agent_name m),
     aar_interface_name := name_field 16 (aar_interface_name m), aar_fingerprint_hex := name_field 65 (aar_fingerprint_hex m)\<rparr>"

interpretation pin_add: message_codec AdminPinAddMessage_Encode AdminPinAddMessage_Decode kMESSAGE_TYPE_ADMIN_PIN_ADD
  pin_wf "\<lambda>m. text_given 128 (api_agent_name m) \<and> text_given 65 (api_fingerprint_hex m)" pin_image pin_received
proof unfold_locales
  fix m :: AdminPinAddMessage and buf :: bytes
  assume w: "pin_wf m"
  have len: "length (pin_image m) = 196"
    by (simp add: pin_image_def)
  have fits: "length (cstr (api_agent_name m)) < 128" "length (cstr (api_fingerprint_hex m)) < 65"
    if "text_given 128 (api_agent_name m) \<and> text_given 65 (api_fingerprint_hex m)"
    using w that text_given_fits [of 128 "api_agent_name m"] text_given_fits [of 65 "api_fingerprint_hex m"]
    by (simp_all add: pin_wf_def)
  show "AdminPinAddMessage_Encode m buf =
      (if (text_given 128 (api_agent_name m) \<and> text_given 65 (api_fingerprint_hex m)) \<and>
          4 + length (pin_image m) \<le> length buf
       then (4 + length (pin_image m), header_image kMESSAGE_TYPE_ADMIN_PIN_ADD (length (pin_image m)) @ pin_image m @
         drop (4 + length (pin_image m)) buf)
       else (0, buf))"
    using fits
    by (auto simp: len AdminPinAddMessage_Encode_def encodeFixedBody_begin isNameTerminated_def text_given_def
        message_begin_fields [of 196 _ "[128, 65, 3]"] layout pin_image_def)
qed (simp_all add: AdminPinAddMessage_Decode_def pin_image_def pin_received_def pin_wf_def text_given_def layout)

interpretation acl_set: message_codec AdminAclSetMessage_Encode AdminAclSetMessage_Decode kMESSAGE_TYPE_ADMIN_ACL_SET
  acl_wf "\<lambda>m. text_given 128 (acl_agent_name m) \<and> text_given 16 (acl_interface_name m) \<and> text_given 65 (acl_fingerprint_hex m)"
  acl_image acl_received
proof unfold_locales
  fix m :: AdminAclSetMessage and buf :: bytes
  assume w: "acl_wf m"
  have len: "length (acl_image m) = 212"
    by (simp add: acl_image_def)
  let ?given = "text_given 128 (acl_agent_name m) \<and> text_given 16 (acl_interface_name m) \<and> text_given 65 (acl_fingerprint_hex m)"
  have fits: "length (cstr (acl_agent_name m)) < 128" "length (cstr (acl_interface_name m)) < 16"
    "length (cstr (acl_fingerprint_hex m)) < 65" if ?given
    using w that text_given_fits [of 128 "acl_agent_name m"] text_given_fits [of 16 "acl_interface_name m"]
      text_given_fits [of 65 "acl_fingerprint_hex m"] by (simp_all add: acl_wf_def)
  show "AdminAclSetMessage_Encode m buf =
      (if ?given \<and> 4 + length (acl_image m) \<le> length buf
       then (4 + length (acl_image m), header_image kMESSAGE_TYPE_ADMIN_ACL_SET (length (acl_image m)) @ acl_image m @
         drop (4 + length (acl_image m)) buf)
       else (0, buf))"
    using fits
    by (auto simp: len AdminAclSetMessage_Encode_def encodeFixedBody_begin isNameTerminated_def text_given_def
        message_begin_fields [of 212 _ "[128, 16, 65, 1, 1, 1]"] layout acl_image_def)
qed (simp_all add: AdminAclSetMessage_Decode_def acl_image_def acl_received_def acl_wf_def text_given_def layout)

interpretation acl_revoke: message_codec AdminAclRevokeMessage_Encode AdminAclRevokeMessage_Decode
  kMESSAGE_TYPE_ADMIN_ACL_REVOKE revoke_wf
  "\<lambda>m. text_given 128 (aar_agent_name m) \<and> text_given 16 (aar_interface_name m) \<and> text_given 65 (aar_fingerprint_hex m)"
  revoke_body revoke_received
proof unfold_locales
  fix m :: AdminAclRevokeMessage and buf :: bytes
  assume w: "revoke_wf m"
  have len: "length (revoke_body m) = 212"
    by (simp add: revoke_body_def)
  let ?given = "text_given 128 (aar_agent_name m) \<and> text_given 16 (aar_interface_name m) \<and> text_given 65 (aar_fingerprint_hex m)"
  have fits: "length (cstr (aar_agent_name m)) < 128" "length (cstr (aar_interface_name m)) < 16"
    "length (cstr (aar_fingerprint_hex m)) < 65" if ?given
    using w that text_given_fits [of 128 "aar_agent_name m"] text_given_fits [of 16 "aar_interface_name m"]
      text_given_fits [of 65 "aar_fingerprint_hex m"] by (simp_all add: revoke_wf_def)
  show "AdminAclRevokeMessage_Encode m buf =
      (if ?given \<and> 4 + length (revoke_body m) \<le> length buf
       then (4 + length (revoke_body m), header_image kMESSAGE_TYPE_ADMIN_ACL_REVOKE (length (revoke_body m)) @ revoke_body m @
         drop (4 + length (revoke_body m)) buf)
       else (0, buf))"
    using fits
    by (auto simp: len AdminAclRevokeMessage_Encode_def encodeFixedBody_begin isNameTerminated_def text_given_def
        message_begin_fields [of 212 _ "[128, 16, 65, 3]"] layout revoke_body_def)
qed (simp_all add: AdminAclRevokeMessage_Decode_def revoke_body_def revoke_received_def revoke_wf_def text_given_def layout)

section \<open>Properties\<close>

text \<open>
  C29.  The eight listings of the administration protocol survive the wire: a page is refused
  exactly when it claims more entries than fit, when one of the strings its encoder checks is not
  terminated, or when the buffer is too small, and otherwise every entry arrives, strings padded
  with zeroes.  The encoders check every string but one, the origin of a peer: an unterminated
  origin is not refused, and the page of peers is delivered under the hypothesis
  \<open>origin_terminated\<close> on its entries.
\<close>

theorem admin_pages_delivered:
  assumes "page_wf 15 (\<lambda>e. peer_wf e \<and> origin_terminated e) p" "page_wf 15 (\<lambda>e. peer_wf e \<and> origin_terminated e) p0" "page_wf 16 pin_wf i" "page_wf 16 pin_wf i0"
    and "page_wf 16 agent_wf a" "page_wf 16 agent_wf a0" "page_wf 16 client_wf c" "page_wf 16 client_wf c0"
    and "page_wf 16 acl_wf l" "page_wf 16 acl_wf l0" "page_wf 16 interface_wf f" "page_wf 16 interface_wf f0"
    and "page_wf 16 txn_wf t" "page_wf 16 txn_wf t0" "page_wf 15 rejected_wf r" "page_wf 15 rejected_wf r0"
  shows "delivers AdminPeersReplyMessage_Encode AdminPeersReplyMessage_Decode kMESSAGE_TYPE_ADMIN_PEERS_REPLY
      (page_valid 15 peer_terminated p) (4 + 272 * unat (pg_count p)) (page_received peer_received p0 p) p p0 buf \<and>
    delivers AdminPinsReplyMessage_Encode AdminPinsReplyMessage_Decode kMESSAGE_TYPE_ADMIN_PINS_REPLY
      (page_valid 16 pin_terminated i) (4 + 196 * unat (pg_count i)) (page_received pin_received i0 i) i i0 buf \<and>
    delivers AdminAgentsReplyMessage_Encode AdminAgentsReplyMessage_Decode kMESSAGE_TYPE_ADMIN_AGENTS_REPLY
      (page_valid 16 agent_terminated a) (4 + 204 * unat (pg_count a)) (page_received agent_received a0 a) a a0 buf \<and>
    delivers AdminClientsReplyMessage_Encode AdminClientsReplyMessage_Decode kMESSAGE_TYPE_ADMIN_CLIENTS_REPLY
      (page_valid 16 client_terminated c) (4 + 164 * unat (pg_count c)) (page_received client_received c0 c) c c0 buf \<and>
    delivers AdminAclListReplyMessage_Encode AdminAclListReplyMessage_Decode kMESSAGE_TYPE_ADMIN_ACL_LIST_REPLY
      (page_valid 16 acl_terminated l) (4 + 212 * unat (pg_count l)) (page_received acl_received l0 l) l l0 buf \<and>
    delivers AdminInterfacesReplyMessage_Encode AdminInterfacesReplyMessage_Decode kMESSAGE_TYPE_ADMIN_INTERFACES_REPLY
      (page_valid 16 interface_terminated f) (4 + 168 * unat (pg_count f)) (page_received interface_received f0 f) f f0 buf \<and>
    delivers AdminTxnsReplyMessage_Encode AdminTxnsReplyMessage_Decode kMESSAGE_TYPE_ADMIN_TXNS_REPLY
      (page_valid 16 areTxnEntryNamesTerminated t) (4 + 176 * unat (pg_count t)) (page_received txn_received t0 t) t t0 buf \<and>
    delivers AdminRejectedReplyMessage_Encode AdminRejectedReplyMessage_Decode kMESSAGE_TYPE_ADMIN_REJECTED_REPLY
      (page_valid 15 isRejectedEntryTerminated r) (4 + 264 * unat (pg_count r)) (page_received rejected_received r0 r) r r0 buf"
  unfolding AdminPeersReplyMessage_Encode_def AdminPeersReplyMessage_Decode_def
    AdminPinsReplyMessage_Encode_def AdminPinsReplyMessage_Decode_def
    AdminAgentsReplyMessage_Encode_def AdminAgentsReplyMessage_Decode_def
    AdminClientsReplyMessage_Encode_def AdminClientsReplyMessage_Decode_def
    AdminAclListReplyMessage_Encode_def AdminAclListReplyMessage_Decode_def
    AdminInterfacesReplyMessage_Encode_def AdminInterfacesReplyMessage_Decode_def
    AdminTxnsReplyMessage_Encode_def AdminTxnsReplyMessage_Decode_def
    AdminRejectedReplyMessage_Encode_def AdminRejectedReplyMessage_Decode_def
  by (intro conjI peer_page.page_delivers pin_page.page_delivers agent_page.page_delivers client_page.page_delivers
      acl_page.page_delivers interface_page.page_delivers txn_page.page_delivers rejected_page.page_delivers assms)

definition sample_page :: "nat \<Rightarrow> 'e \<Rightarrow> 'e AdminPage" where
  "sample_page n e = \<lparr>pg_count = 1, pg_flags = 0, pg_entries = replicate n e\<rparr>"

lemma sample_page_wf: "wf_entry e \<Longrightarrow> page_wf n wf_entry (sample_page n e)"
  by (simp add: page_wf_def sample_page_def list_all_length)

theorem admin_pages_delivered_witness:
  "let e = \<lparr>ace_peer_id = 7, ace_interface_id = 3, ace_channel = 1, ace_agent_name = name_field 128 [97],
        ace_interface_name = name_field 16 [99], ace_frames_forwarded = 5, ace_frames_dropped = 0\<rparr>;
      c = sample_page 16 e
   in page_valid 16 client_terminated c \<and>
      delivers AdminClientsReplyMessage_Encode AdminClientsReplyMessage_Decode kMESSAGE_TYPE_ADMIN_CLIENTS_REPLY
        True 168 (page_received client_received c c) c c (replicate 200 0)"
proof -
  let ?n = "name_field 128 [97]" and ?i = "name_field 16 [99]" and ?f = "name_field 65 [48]" and ?o = "name_field 56 []"
  let ?c = "\<lparr>ace_peer_id = 7, ace_interface_id = 3, ace_channel = 1, ace_agent_name = ?n,
        ace_interface_name = ?i, ace_frames_forwarded = 5, ace_frames_dropped = 0\<rparr>"
  have c: "page_wf 16 client_wf (sample_page 16 ?c)"
    by (intro sample_page_wf) (simp add: client_wf_def)
  have p: "page_wf 15 (\<lambda>e. peer_wf e \<and> origin_terminated e) (sample_page 15 \<lparr>ape_peer_id = 1, ape_frames_forwarded = 0, ape_frames_dropped = 0,
      ape_uptime_seconds = 0, ape_role = 2, ape_transport_kind = 1, ape_agent_name = ?n, ape_fingerprint_hex = ?f, ape_origin = ?o\<rparr>)"
    by (intro sample_page_wf) (simp add: peer_wf_def origin_terminated_def)
  have i: "page_wf 16 pin_wf (sample_page 16 \<lparr>api_agent_name = ?n, api_fingerprint_hex = ?f\<rparr>)"
    by (intro sample_page_wf) (simp add: pin_wf_def)
  have a: "page_wf 16 agent_wf (sample_page 16 \<lparr>aae_peer_id = 1, aae_interface_count = 1, aae_agent_name = ?n, aae_fingerprint_hex = ?f\<rparr>)"
    by (intro sample_page_wf) (simp add: agent_wf_def)
  have l: "page_wf 16 acl_wf (sample_page 16 \<lparr>acl_agent_name = ?n, acl_interface_name = ?i, acl_fingerprint_hex = ?f,
      acl_can_read = 1, acl_can_write = 0, acl_can_admin = 0\<rparr>)"
    by (intro sample_page_wf) (simp add: acl_wf_def)
  have f: "page_wf 16 interface_wf (sample_page 16 \<lparr>aie_interface_id = 3, aie_subscriber_count = 1, aie_frames_received = 0,
      aie_tx_dropped = 0, aie_agent_name = ?n, aie_interface_name = ?i, aie_mode = 1\<rparr>)"
    by (intro sample_page_wf) (simp add: interface_wf_def)
  have t: "page_wf 16 txn_wf (sample_page 16 \<lparr>ate_interface_id = 3, ate_client_peer_id = 7, ate_agent_peer_id = 1, ate_txn_id = 4,
      ate_state = 2, ate_flags = 0, ate_completed_steps = 0, ate_bytes_in_flight = 0, ate_age_ms = 0, ate_progress_age_ms = 0,
      ate_agent_name = ?n, ate_interface_name = ?i\<rparr>)"
    by (intro sample_page_wf) (simp add: txn_wf_def)
  have r: "page_wf 15 rejected_wf (sample_page 15 \<lparr>are_role = 1, are_reason = 0, are_attempts = 1, are_last_seen_seconds = 0,
      are_name = ?n, are_fingerprint_hex = ?f, are_origin = ?o\<rparr>)"
    by (intro sample_page_wf) (simp add: rejected_wf_def)
  have v: "page_valid 16 client_terminated (sample_page 16 ?c)"
    by (simp add: page_valid_def sample_page_def isNameTerminated_def)
  have one: "unat (pg_count (sample_page 16 ?c)) = 1"
    by (simp add: sample_page_def)
  have "delivers AdminClientsReplyMessage_Encode AdminClientsReplyMessage_Decode kMESSAGE_TYPE_ADMIN_CLIENTS_REPLY
      (page_valid 16 client_terminated (sample_page 16 ?c)) (4 + 164 * unat (pg_count (sample_page 16 ?c)))
      (page_received client_received (sample_page 16 ?c) (sample_page 16 ?c)) (sample_page 16 ?c) (sample_page 16 ?c) (replicate 200 0)"
    using admin_pages_delivered [OF p p i i a a c c l l f f t t r r, of "replicate 200 0"] by (elim conjE)
  then show ?thesis
    unfolding Let_def using v unfolding one by simp
qed

end
