(* ===== verification/SlotTable.thy ===== *)
theory SlotTable
  imports Prelude
begin

text \<open>Slot tables, the storage of the hub's catalogues: their meaning and their laws.\<close>

section \<open>Slot tables\<close>

text \<open>
  A fixed array of slots, some of them in use, each live slot known by its key: what
  the array means is the finite map from the keys to the live slots.
\<close>

definition slot_map :: "('s \<Rightarrow> bool) \<Rightarrow> ('s \<Rightarrow> 'k) \<Rightarrow> 's list \<Rightarrow> 'k \<Rightarrow> 's option" where
  "slot_map in_use key xs k = find (\<lambda>s. in_use s \<and> key s = k) xs"

definition slots_distinct :: "('s \<Rightarrow> bool) \<Rightarrow> ('s \<Rightarrow> 'k) \<Rightarrow> 's list \<Rightarrow> bool" where
  "slots_distinct in_use key xs \<longleftrightarrow> distinct (map key (filter in_use xs))"

text \<open>The position-th live slot, counting from \<open>seen\<close>.\<close>

fun nth_live :: "('s \<Rightarrow> bool) \<Rightarrow> 's list \<Rightarrow> nat \<Rightarrow> nat \<Rightarrow> 's option" where
  "nth_live in_use [] seen position = None"
| "nth_live in_use (s # ss) seen position =
     (if \<not> in_use s then nth_live in_use ss seen position
      else if seen = position then Some s
      else nth_live in_use ss (seen + 1) position)"

lemma nth_live_filter:
  "nth_live in_use xs seen (seen + p) =
     (if p < length (filter in_use xs) then Some (filter in_use xs ! p) else None)"
proof (induction xs arbitrary: seen p)
  case (Cons x xs)
  then show ?case
    using Cons.IH [of "Suc seen" "p - 1"] Cons.IH [of seen p] by (cases p) auto
qed simp

lemma slot_map_Nil [simp]: "slot_map in_use key [] = Map.empty"
  by (simp add: slot_map_def fun_eq_iff)

lemma find_append: "find P (xs @ ys) = (case find P xs of None \<Rightarrow> find P ys | Some x \<Rightarrow> Some x)"
  by (induction xs) simp_all

lemma option_eqI: "(\<And>t. a = Some t \<longleftrightarrow> b = Some t) \<Longrightarrow> a = b"
  by (cases a; cases b) auto

text \<open>
  The loop behind every paged listing of the hub: skip \<open>offset\<close> live entries, then collect
  at most \<open>limit\<close>, and report when one more was met.
\<close>

fun page_scan :: "('s \<Rightarrow> bool) \<Rightarrow> nat \<Rightarrow> nat \<Rightarrow> 's list \<Rightarrow> nat \<Rightarrow> 's list \<Rightarrow> bool \<times> 's list" where
  "page_scan in_use limit offset [] skipped page = (False, page)"
| "page_scan in_use limit offset (e # es) skipped page =
     (if \<not> in_use e then page_scan in_use limit offset es skipped page
      else if skipped < offset then page_scan in_use limit offset es (skipped + 1) page
      else if length page = limit then (True, page)
      else page_scan in_use limit offset es skipped (page @ [e]))"

lemma page_scan_page:
  "length page \<le> limit \<Longrightarrow> page_scan in_use limit offset es skipped page =
     (let rest = drop (offset - skipped) (filter in_use es)
      in (limit < length page + length rest, page @ take (limit - length page) rest))"
proof (induction es arbitrary: skipped page)
  case (Cons e es)
  show ?case
  proof (cases "in_use e \<and> skipped < offset")
    case True
    then have "offset - skipped = Suc (offset - Suc skipped)"
      by (simp add: Suc_diff_Suc)
    then show ?thesis
      using True Cons.IH [of page "Suc skipped"] Cons.prems by (simp add: Let_def)
  next
    case False
    then show ?thesis
      using Cons.IH [of page skipped] Cons.IH [of "page @ [e]" skipped] Cons.prems
      by (auto simp: Let_def take_Cons' Suc_le_eq)
  qed
qed (simp add: Let_def)

text \<open>Following the pages from the first one visits every live entry once, in order.\<close>

lemma pages_enumerate:
  assumes "0 < limit"
  shows "concat (map (\<lambda>k. snd (page_scan in_use limit (k * limit) es 0 [])) [0..<n]) = take (n * limit) (filter in_use es)"
proof (induction n)
  case (Suc n)
  then show ?case
    using assms take_add [of "n * limit" limit "filter in_use es"] by (simp add: page_scan_page Let_def add.commute)
qed simp

locale keyed_slots =
  fixes in_use :: "'s \<Rightarrow> bool" and key :: "'s \<Rightarrow> 'k"
begin

lemma distinct_iff:
  "slots_distinct in_use key xs \<longleftrightarrow>
   (\<forall>i < length xs. \<forall>j < length xs. in_use (xs ! i) \<longrightarrow> in_use (xs ! j) \<longrightarrow> key (xs ! i) = key (xs ! j) \<longrightarrow> i = j)"
proof (induction xs)
  case (Cons x xs)
  have "slots_distinct in_use key (x # xs) \<longleftrightarrow>
      (in_use x \<longrightarrow> (\<forall>j < length xs. in_use (xs ! j) \<longrightarrow> key x \<noteq> key (xs ! j))) \<and> slots_distinct in_use key xs"
    by (auto simp: slots_distinct_def image_iff in_set_conv_nth)
  then show ?case
    unfolding Cons.IH by (simp add: All_less_Suc2) (blast dest: sym)
qed (simp add: slots_distinct_def)

lemma map_index: "slot_map in_use key xs k = map_option (\<lambda>i. xs ! i) (find_index (\<lambda>s. in_use s \<and> key s = k) xs)"
  by (simp add: slot_map_def find_index_find)

lemma map_Some:
  assumes "slots_distinct in_use key xs"
  shows "slot_map in_use key xs k = Some s \<longleftrightarrow> (\<exists>i < length xs. xs ! i = s \<and> in_use s \<and> key s = k)"
proof
  assume "slot_map in_use key xs k = Some s"
  then show "\<exists>i < length xs. xs ! i = s \<and> in_use s \<and> key s = k"
    by (auto simp: map_index find_index_Some)
next
  assume "\<exists>i < length xs. xs ! i = s \<and> in_use s \<and> key s = k"
  then obtain i where i: "i < length xs" "xs ! i = s" "in_use s" "key s = k" by blast
  then have "find_index (\<lambda>s. in_use s \<and> key s = k) xs = Some i"
    using assms by (intro find_index_unique) (auto simp: distinct_iff)
  then show "slot_map in_use key xs k = Some s"
    using i by (simp add: map_index)
qed

lemma map_None: "slot_map in_use key xs k = None \<longleftrightarrow> (\<forall>i < length xs. in_use (xs ! i) \<longrightarrow> key (xs ! i) \<noteq> k)"
  by (auto simp: slot_map_def find_None_iff in_set_conv_nth)

lemma map_at:
  "slots_distinct in_use key xs \<Longrightarrow> i < length xs \<Longrightarrow> in_use (xs ! i) \<Longrightarrow> slot_map in_use key xs (key (xs ! i)) = Some (xs ! i)"
  by (auto simp: map_Some)

text \<open>Storing a slot whose key no other live slot has.\<close>

lemma distinct_store:
  assumes "slots_distinct in_use key xs"
    and "\<And>j. j < length xs \<Longrightarrow> j \<noteq> i \<Longrightarrow> in_use (xs ! j) \<Longrightarrow> in_use s \<Longrightarrow> key (xs ! j) \<noteq> key s"
  shows "slots_distinct in_use key (xs[i := s])"
proof (unfold distinct_iff, intro allI impI)
  fix a b
  assume "a < length (xs[i := s])" "b < length (xs[i := s])" "in_use (xs[i := s] ! a)" "in_use (xs[i := s] ! b)"
    "key (xs[i := s] ! a) = key (xs[i := s] ! b)"
  then show "a = b"
    using assms by (cases "a = i"; cases "b = i") (auto simp: distinct_iff)
qed

lemma map_store:
  assumes "slots_distinct in_use key xs" and "i < length xs"
    and "\<And>j. j < length xs \<Longrightarrow> j \<noteq> i \<Longrightarrow> in_use (xs ! j) \<Longrightarrow> in_use s \<Longrightarrow> key (xs ! j) \<noteq> key s"
  shows "slot_map in_use key (xs[i := s]) =
    (let m = (if in_use (xs ! i) then (slot_map in_use key xs)(key (xs ! i) := None) else slot_map in_use key xs)
     in if in_use s then m(key s \<mapsto> s) else m)"
proof -
  have d: "slots_distinct in_use key (xs[i := s])"
    using assms by (intro distinct_store)
  have split: "(\<exists>j < length xs. xs[i := s] ! j = t \<and> P t) \<longleftrightarrow>
      (t = s \<and> P t) \<or> (\<exists>j < length xs. j \<noteq> i \<and> xs ! j = t \<and> P t)" for t P
    using assms(2) by (auto simp: nth_list_update)
  have others: "(\<exists>j < length xs. j \<noteq> i \<and> xs ! j = t \<and> in_use t \<and> key t = k) \<longleftrightarrow>
      slot_map in_use key xs k = Some t \<and> \<not> (in_use (xs ! i) \<and> key (xs ! i) = k)" for k t
    using assms(1,2) unfolding map_Some [OF assms(1)] distinct_iff by blast
  have at: "slot_map in_use key (xs[i := s]) k = Some t \<longleftrightarrow>
      (if in_use s \<and> k = key s then t = s
       else slot_map in_use key xs k = Some t \<and> \<not> (in_use (xs ! i) \<and> key (xs ! i) = k))" for k t
  proof -
    have "\<not> (\<exists>j < length xs. j \<noteq> i \<and> xs ! j = t \<and> in_use t \<and> key t = k)" if "in_use s" "k = key s"
      using assms(3) that by blast
    then show ?thesis
      using split [of t "\<lambda>t. in_use t \<and> key t = k"]
      unfolding map_Some [OF d] length_list_update others [symmetric] by auto
  qed
  show ?thesis
    by (intro ext option_eqI) (auto simp: at Let_def)
qed

lemma dom_keys: "dom (slot_map in_use key xs) = set (map key (filter in_use xs))"
  by (auto simp: dom_def slot_map_def find_None_iff)

lemma card_dom: "slots_distinct in_use key xs \<Longrightarrow> card (dom (slot_map in_use key xs)) = length (filter in_use xs)"
  unfolding dom_keys slots_distinct_def using distinct_card by fastforce

lemma free_index_iff: "(\<exists>i. find_index (\<lambda>s. \<not> in_use s) xs = Some i) \<longleftrightarrow> length (filter in_use xs) < length xs"
proof -
  have "(\<exists>i. find_index (\<lambda>s. \<not> in_use s) xs = Some i) \<longleftrightarrow> \<not> (\<forall>s \<in> set xs. in_use s)"
    by (metis find_index_None not_None_eq not_not)
  then show ?thesis
    using length_filter_le [of in_use xs] by (metis filter_id_conv length_filter_less nat_less_le)
qed

lemma live_store:
  assumes "i < length xs"
  shows "length (filter in_use (xs[i := s])) + (if in_use (xs ! i) then 1 else 0) =
    length (filter in_use xs) + (if in_use s then 1 else 0)"
  using assms
proof (induction xs arbitrary: i)
  case (Cons x xs)
  then show ?case by (cases i) auto
qed simp

text \<open>The three updates the tables make: a new key in a free slot, a new slot for a key, a key removed.\<close>

lemma store_new:
  assumes "slots_distinct in_use key xs" and "find_index (\<lambda>s. \<not> in_use s) xs = Some i"
    and "slot_map in_use key xs (key s) = None" and "in_use s"
  shows "slots_distinct in_use key (xs[i := s])"
    and "slot_map in_use key (xs[i := s]) = (slot_map in_use key xs)(key s \<mapsto> s)"
    and "length (filter in_use (xs[i := s])) = Suc (length (filter in_use xs))"
proof -
  have i: "i < length xs" "\<not> in_use (xs ! i)"
    using find_index_SomeD [OF assms(2)] by simp_all
  have other: "key (xs ! j) \<noteq> key s" if "j < length xs" "in_use (xs ! j)" for j
    using assms(3) that by (auto simp: map_None)
  show "slots_distinct in_use key (xs[i := s])"
    using assms(1) other by (intro distinct_store)
  show "slot_map in_use key (xs[i := s]) = (slot_map in_use key xs)(key s \<mapsto> s)"
    using map_store [OF assms(1) i(1), of s] other i assms(4) by simp
  show "length (filter in_use (xs[i := s])) = Suc (length (filter in_use xs))"
    using live_store [OF i(1), of s] i assms(4) by simp
qed

lemma store_again:
  assumes "slots_distinct in_use key xs" and "find_index (\<lambda>s. in_use s \<and> key s = k) xs = Some i"
    and "in_use s" and "key s = k"
  shows "slots_distinct in_use key (xs[i := s])"
    and "slot_map in_use key (xs[i := s]) = (slot_map in_use key xs)(k \<mapsto> s)"
    and "length (filter in_use (xs[i := s])) = length (filter in_use xs)"
proof -
  have i: "i < length xs" "in_use (xs ! i)" "key (xs ! i) = k"
    using find_index_SomeD [OF assms(2)] by simp_all
  have other: "key (xs ! j) \<noteq> key s" if "j < length xs" "j \<noteq> i" "in_use (xs ! j)" for j
    using assms(1,4) i that by (auto simp: distinct_iff)
  show "slots_distinct in_use key (xs[i := s])"
    using assms(1) other by (intro distinct_store)
  show "slot_map in_use key (xs[i := s]) = (slot_map in_use key xs)(k \<mapsto> s)"
    using map_store [OF assms(1) i(1), of s] other i assms(3,4) by simp
  show "length (filter in_use (xs[i := s])) = length (filter in_use xs)"
    using live_store [OF i(1), of s] i assms(3) by simp
qed

lemma index_None: "find_index (\<lambda>s. in_use s \<and> key s = k) xs = None \<longleftrightarrow> slot_map in_use key xs k = None"
  by (simp add: map_index)

lemma index_Some:
  "find_index (\<lambda>s. in_use s \<and> key s = k) xs = Some i \<Longrightarrow> slot_map in_use key xs k = Some (xs ! i)"
  by (simp add: map_index)

lemma full_iff:
  assumes "slots_distinct in_use key xs"
  shows "find_index (\<lambda>s. \<not> in_use s) xs = None \<longleftrightarrow> card (dom (slot_map in_use key xs)) = length xs"
  using free_index_iff [of xs] card_dom [OF assms] length_filter_le [of in_use xs]
  by (cases "find_index (\<lambda>s. \<not> in_use s) xs") auto

text \<open>Updates of every slot that keep who is live and under which key, and what is in the table.\<close>

lemma map_each:
  assumes "\<And>s. in_use (f s) = in_use s" and "\<And>s. in_use s \<Longrightarrow> key (f s) = key s"
  shows "slot_map in_use key (map f xs) = map_option f \<circ> slot_map in_use key xs"
    and "slots_distinct in_use key (map f xs) = slots_distinct in_use key xs"
proof -
  show "slot_map in_use key (map f xs) = map_option f \<circ> slot_map in_use key xs"
    by (rule ext) (induction xs, auto simp: slot_map_def assms)
  have "map key (filter in_use (map f xs)) = map key (filter in_use xs)"
    by (induction xs) (simp_all add: assms)
  then show "slots_distinct in_use key (map f xs) = slots_distinct in_use key xs"
    by (simp add: slots_distinct_def)
qed

lemma index_at:
  assumes "slots_distinct in_use key xs" and "i < length xs" and "in_use (xs ! i)"
  shows "find_index (\<lambda>s. in_use s \<and> key s = key (xs ! i)) xs = Some i"
  using assms by (intro find_index_unique) (auto simp: distinct_iff)

lemma store_same:
  assumes "i < length xs" and "in_use s = in_use (xs ! i)" and "in_use s \<Longrightarrow> key s = key (xs ! i)"
  shows "slots_distinct in_use key (xs[i := s]) = slots_distinct in_use key xs"
proof -
  have "map key (filter in_use (xs[i := s])) = map key (filter in_use xs)"
    using assms
  proof (induction xs arbitrary: i)
    case (Cons x xs)
    then show ?case
      by (cases i) auto
  qed simp
  then show ?thesis
    by (simp add: slots_distinct_def)
qed

lemma ran_live: "slots_distinct in_use key xs \<Longrightarrow> ran (slot_map in_use key xs) = {s \<in> set xs. in_use s}"
  by (auto simp: ran_def map_Some in_set_conv_nth)

text \<open>An array packed from the front, where leaving moves the last element into the gap.\<close>

lemma map_append:
  "slot_map in_use key (xs @ [s]) k =
     (case slot_map in_use key xs k of
        Some t \<Rightarrow> Some t
      | None \<Rightarrow> if in_use s \<and> key s = k then Some s else None)"
  by (induction xs) (simp_all add: slot_map_def)

lemma append_new:
  assumes "slots_distinct in_use key xs" and "slot_map in_use key xs (key s) = None" and "in_use s"
  shows "slots_distinct in_use key (xs @ [s])"
    and "slot_map in_use key (xs @ [s]) = (slot_map in_use key xs)(key s \<mapsto> s)"
proof -
  have other: "key t \<noteq> key s" if "t \<in> set xs" "in_use t" for t
    using assms(2) that by (auto simp: slot_map_def find_None_iff)
  then show "slots_distinct in_use key (xs @ [s])"
    using assms(1) by (force simp: slots_distinct_def)
  show "slot_map in_use key (xs @ [s]) = (slot_map in_use key xs)(key s \<mapsto> s)"
    using assms(2,3) by (intro ext) (auto simp: map_append split: option.splits)
qed

end

lemma set_remove_swap:
  assumes "distinct (us @ [l])" and "i \<le> length us"
  shows "set (us[i := l]) = set (us @ [l]) - {(us @ [l]) ! i}" and "distinct (us[i := l])"
proof -
  have d: "distinct us" "l \<notin> set us"
    using assms(1) by simp_all
  show "set (us[i := l]) = set (us @ [l]) - {(us @ [l]) ! i}"
  proof (cases "i = length us")
    case True
    then show ?thesis using d(2) by (simp add: list_update_beyond)
  next
    case False
    then have i: "i < length us"
      using assms(2) by simp
    then have "us ! i \<noteq> l"
      using d(2) nth_mem by force
    then show ?thesis
      using set_update_distinct [OF d(1) i, of l] i by (auto simp: nth_append)
  qed
  show "distinct (us[i := l])"
    using d by (intro distinct_list_update) auto
qed

lemma slot_map_all: "slot_map (\<lambda>s. True) key xs = map_of (map (\<lambda>s. (key s, s)) xs)"
  by (rule ext) (induction xs, simp_all add: slot_map_def)

lemma remove_swap:
  assumes "distinct (map key (us @ [l]))" and "i \<le> length us" and "key ((us @ [l]) ! i) = k"
  shows "distinct (map key (us[i := l]))"
    and "slot_map (\<lambda>s. True) key (us[i := l]) = (slot_map (\<lambda>s. True) key (us @ [l]))(k := None)"
proof -
  have keys: "set (us[i := l]) = set (us @ [l]) - {(us @ [l]) ! i}"
    using set_remove_swap(1) [of us l i] assms(1,2) by (metis distinct_map)
  show d: "distinct (map key (us[i := l]))"
    using set_remove_swap(2) [of "map key us" "key l" i] assms(1,2) by (simp add: map_update)
  have at: "(us @ [l]) ! i \<in> set (us @ [l])"
    using assms(2) by (intro nth_mem) simp
  have only: "s = (us @ [l]) ! i \<longleftrightarrow> key s = k" if "s \<in> set (us @ [l])" for s
    using that at assms(1,3) unfolding distinct_map inj_on_def by blast
  have all: "map_of (map (\<lambda>s. (key s, s)) xs) q = Some s \<longleftrightarrow> s \<in> set xs \<and> key s = q"
    if "distinct (map key xs)" for xs q s
    using that by (subst map_of_eq_Some_iff) (auto simp: comp_def)
  show "slot_map (\<lambda>s. True) key (us[i := l]) = (slot_map (\<lambda>s. True) key (us @ [l]))(k := None)"
    unfolding slot_map_all
    by (intro ext option_eqI) (use keys only in \<open>auto simp only: all [OF d] all [OF assms(1)] fun_upd_apply
        option.distinct if_False if_True split: if_splits\<close>)
qed

locale slot_table = keyed_slots +
  fixes empty :: 'a
  assumes empty_free: "\<not> in_use empty"
begin

lemma distinct_empty [simp]: "slots_distinct in_use key (replicate n empty)"
  by (induction n) (simp_all add: slots_distinct_def empty_free)

lemma map_empty [simp]: "slot_map in_use key (replicate n empty) = Map.empty"
  by (auto simp: slot_map_def find_None_iff empty_free)

lemma store_empty:
  assumes "slots_distinct in_use key xs" and "find_index (\<lambda>s. in_use s \<and> key s = k) xs = Some i"
  shows "slots_distinct in_use key (xs[i := empty])"
    and "slot_map in_use key (xs[i := empty]) = (slot_map in_use key xs)(k := None)"
    and "Suc (length (filter in_use (xs[i := empty]))) = length (filter in_use xs)"
proof -
  have i: "i < length xs" "in_use (xs ! i)" "key (xs ! i) = k"
    using find_index_SomeD [OF assms(2)] by simp_all
  show "slots_distinct in_use key (xs[i := empty])"
    using assms(1) empty_free by (intro distinct_store) auto
  show "slot_map in_use key (xs[i := empty]) = (slot_map in_use key xs)(k := None)"
    using map_store [OF assms(1) i(1), of empty] i empty_free by simp
  show "Suc (length (filter in_use (xs[i := empty]))) = length (filter in_use xs)"
    using live_store [OF i(1), of empty] i empty_free by simp
qed

lemma clear_each:
  assumes "slots_distinct in_use key xs"
  shows "slots_distinct in_use key (map (\<lambda>s. if P s then empty else s) xs)"
    and "slot_map in_use key (map (\<lambda>s. if P s then empty else s) xs) =
      (\<lambda>k. case slot_map in_use key xs k of None \<Rightarrow> None | Some s \<Rightarrow> if P s then None else Some s)"
proof -
  let ?f = "\<lambda>s. if P s then empty else s"
  show d: "slots_distinct in_use key (map ?f xs)"
    using assms empty_free unfolding distinct_iff by (auto split: if_splits)
  show "slot_map in_use key (map ?f xs) =
      (\<lambda>k. case slot_map in_use key xs k of None \<Rightarrow> None | Some s \<Rightarrow> if P s then None else Some s)"
  proof (rule ext, rule option_eqI)
    fix k t
    have "slot_map in_use key (map ?f xs) k = Some t \<longleftrightarrow> slot_map in_use key xs k = Some t \<and> \<not> P t"
      unfolding map_Some [OF d] map_Some [OF assms] using empty_free by (auto split: if_splits)
    then show "slot_map in_use key (map ?f xs) k = Some t \<longleftrightarrow>
        (case slot_map in_use key xs k of None \<Rightarrow> None | Some s \<Rightarrow> if P s then None else Some s) = Some t"
      by (auto split: option.splits)
  qed
qed

end

end
