(* ===== verification/BridgeRoutes.thy ===== *)
theory BridgeRoutes
  imports SlotTable ControlMessages
begin

text \<open>
  Bus-to-bus routes (\<open>src/hub/domain/bridge_routes.c\<close>): a table of at most 64 routes
  keyed by their two endpoints.  The table refines a finite map.
\<close>

section \<open>Endpoints, filters and routes\<close>

abbreviation (input) BRIDGE_ROUTES_MAX :: nat where "BRIDGE_ROUTES_MAX \<equiv> 64"
abbreviation (input) BRIDGE_FILTERS_MAX :: nat where "BRIDGE_FILTERS_MAX \<equiv> 16"

abbreviation (input) FRAME_CAN_ID_FLAG_ERR :: u32 where "FRAME_CAN_ID_FLAG_ERR \<equiv> push_bit 29 1"

record BridgeEndpoint =
  be_agent_name :: bytes
  be_interface_name :: bytes

record BridgeRoute =
  br_source :: BridgeEndpoint
  br_destination :: BridgeEndpoint
  br_filter_count :: u8
  br_filters :: "CanFilter list"

record BridgeRouteSlot =
  brs_in_use :: bool
  brs_route :: BridgeRoute
  brs_forwarded :: u64
  brs_dropped :: u64

record BridgeRoutes =
  brt_slots :: "BridgeRouteSlot list"
  brt_count :: nat

definition BridgeFilters_Pass :: "CanFilter list \<Rightarrow> u8 \<Rightarrow> u32 \<Rightarrow> bool" where
  "BridgeFilters_Pass filters filter_count can_id =
     (if can_id AND FRAME_CAN_ID_FLAG_ERR \<noteq> 0 then False
      else if filter_count = 0 then True
      else list_ex (\<lambda>f. can_id AND flt_can_mask f = flt_can_id f AND flt_can_mask f)
             (take (unat filter_count) filters))"

definition BridgeEndpoint_IsNamed :: "BridgeEndpoint \<Rightarrow> bool" where
  "BridgeEndpoint_IsNamed self \<longleftrightarrow> be_agent_name self ! 0 \<noteq> 0 \<and> be_interface_name self ! 0 \<noteq> 0"

definition BridgeEndpoint_Names :: "BridgeEndpoint \<Rightarrow> bytes \<Rightarrow> bytes \<Rightarrow> bool" where
  "BridgeEndpoint_Names self agent_name interface_name \<longleftrightarrow>
     str_eq (be_agent_name self) agent_name \<and> str_eq (be_interface_name self) interface_name"

definition BridgeEndpoint_Equals :: "BridgeEndpoint \<Rightarrow> BridgeEndpoint \<Rightarrow> bool" where
  "BridgeEndpoint_Equals self other = BridgeEndpoint_Names self (be_agent_name other) (be_interface_name other)"

definition BridgeRoute_IsValid :: "BridgeRoute \<Rightarrow> bool" where
  "BridgeRoute_IsValid route =
     (if \<not> BridgeEndpoint_IsNamed (br_source route) \<or> \<not> BridgeEndpoint_IsNamed (br_destination route) then False
      else if BridgeEndpoint_Equals (br_source route) (br_destination route) then False
      else unat (br_filter_count route) \<le> BRIDGE_FILTERS_MAX)"

definition BridgeRoute_Passes :: "BridgeRoute \<Rightarrow> u32 \<Rightarrow> bool" where
  "BridgeRoute_Passes route can_id = BridgeFilters_Pass (br_filters route) (br_filter_count route) can_id"

section \<open>The table\<close>

text \<open>A slot after \<open>memset\<close>.\<close>

definition CanFilter_zero :: CanFilter where
  "CanFilter_zero = \<lparr>flt_can_id = 0, flt_can_mask = 0\<rparr>"

definition BridgeEndpoint_zero :: BridgeEndpoint where
  "BridgeEndpoint_zero = \<lparr>be_agent_name = replicate REGISTER_AGENT_NAME_SIZE 0,
     be_interface_name = replicate REGISTER_INTERFACE_NAME_SIZE 0\<rparr>"

definition BridgeRouteSlot_zero :: BridgeRouteSlot where
  "BridgeRouteSlot_zero = \<lparr>brs_in_use = False,
     brs_route = \<lparr>br_source = BridgeEndpoint_zero, br_destination = BridgeEndpoint_zero, br_filter_count = 0,
       br_filters = replicate BRIDGE_FILTERS_MAX CanFilter_zero\<rparr>,
     brs_forwarded = 0, brs_dropped = 0\<rparr>"

definition BridgeRoutes_Reset :: BridgeRoutes where
  "BridgeRoutes_Reset = \<lparr>brt_slots = replicate BRIDGE_ROUTES_MAX BridgeRouteSlot_zero, brt_count = 0\<rparr>"

definition route_findIndex :: "BridgeRoutes \<Rightarrow> BridgeEndpoint \<Rightarrow> BridgeEndpoint \<Rightarrow> nat option" where
  "route_findIndex self source destination =
     find_index (\<lambda>slot. brs_in_use slot \<and> BridgeEndpoint_Equals (br_source (brs_route slot)) source \<and>
       BridgeEndpoint_Equals (br_destination (brs_route slot)) destination) (brt_slots self)"

definition route_freeIndex :: "BridgeRoutes \<Rightarrow> nat option" where
  "route_freeIndex self = find_index (\<lambda>slot. \<not> brs_in_use slot) (brt_slots self)"

definition BridgeRoutes_Set :: "BridgeRoutes \<Rightarrow> BridgeRoute \<Rightarrow> bool \<times> BridgeRoutes" where
  "BridgeRoutes_Set self route =
     (if \<not> BridgeRoute_IsValid route then (False, self)
      else
        let found = (case route_findIndex self (br_source route) (br_destination route) of
              Some index \<Rightarrow> Some index
            | None \<Rightarrow> route_freeIndex self)
        in case found of
             None \<Rightarrow> (False, self)
           | Some index \<Rightarrow>
               let slot = brt_slots self ! index;
                   (slot, count) =
                     (if \<not> brs_in_use slot
                      then (BridgeRouteSlot_zero\<lparr>brs_in_use := True\<rparr>, wrap 8 (brt_count self + 1))
                      else (slot, brt_count self));
                   slot = slot\<lparr>brs_route := route\<rparr>
               in (True, self\<lparr>brt_slots := (brt_slots self)[index := slot], brt_count := count\<rparr>))"

definition BridgeRoutes_Remove :: "BridgeRoutes \<Rightarrow> BridgeEndpoint \<Rightarrow> BridgeEndpoint \<Rightarrow> bool \<times> BridgeRoutes" where
  "BridgeRoutes_Remove self source destination =
     (case route_findIndex self source destination of
        None \<Rightarrow> (False, self)
      | Some index \<Rightarrow>
          (True, self\<lparr>brt_slots := (brt_slots self)[index := BridgeRouteSlot_zero],
             brt_count := wrap_dec 8 (brt_count self)\<rparr>))"

definition BridgeRoutes_Find :: "BridgeRoutes \<Rightarrow> BridgeEndpoint \<Rightarrow> BridgeEndpoint \<Rightarrow> BridgeRouteSlot option" where
  "BridgeRoutes_Find self source destination =
     (case route_findIndex self source destination of
        None \<Rightarrow> None
      | Some index \<Rightarrow> Some (brt_slots self ! index))"

definition BridgeRoutes_IsEmpty :: "BridgeRoutes \<Rightarrow> bool" where
  "BridgeRoutes_IsEmpty self \<longleftrightarrow> brt_count self = 0"

definition BridgeRoutes_HasRoom :: "BridgeRoutes \<Rightarrow> BridgeRoute \<Rightarrow> bool" where
  "BridgeRoutes_HasRoom self route \<longleftrightarrow>
     route_findIndex self (br_source route) (br_destination route) \<noteq> None \<or> route_freeIndex self \<noteq> None"

definition BridgeRoutes_Slot :: "BridgeRoutes \<Rightarrow> nat \<Rightarrow> BridgeRouteSlot option" where
  "BridgeRoutes_Slot self slot_index =
     (if BRIDGE_ROUTES_MAX \<le> slot_index \<or> \<not> brs_in_use (brt_slots self ! slot_index) then None
      else Some (brt_slots self ! slot_index))"

definition BridgeRoutes_Nth :: "BridgeRoutes \<Rightarrow> nat \<Rightarrow> BridgeRouteSlot option" where
  "BridgeRoutes_Nth self position = nth_live brs_in_use (brt_slots self) 0 position"

section \<open>The table as a finite map\<close>

definition endpoint_key :: "BridgeEndpoint \<Rightarrow> bytes \<times> bytes" where
  "endpoint_key e = (cstr (be_agent_name e), cstr (be_interface_name e))"

definition route_key :: "BridgeRoute \<Rightarrow> (bytes \<times> bytes) \<times> (bytes \<times> bytes)" where
  "route_key r = (endpoint_key (br_source r), endpoint_key (br_destination r))"

abbreviation slot_route_key :: "BridgeRouteSlot \<Rightarrow> (bytes \<times> bytes) \<times> (bytes \<times> bytes)" where
  "slot_route_key s \<equiv> route_key (brs_route s)"

definition BridgeRoutes_map :: "BridgeRoutes \<Rightarrow> (bytes \<times> bytes) \<times> (bytes \<times> bytes) \<Rightarrow> BridgeRouteSlot option" where
  "BridgeRoutes_map t = slot_map brs_in_use slot_route_key (brt_slots t)"

definition BridgeRoutes_inv :: "BridgeRoutes \<Rightarrow> bool" where
  "BridgeRoutes_inv t \<longleftrightarrow> length (brt_slots t) = BRIDGE_ROUTES_MAX \<and>
     slots_distinct brs_in_use slot_route_key (brt_slots t) \<and>
     brt_count t = length (filter brs_in_use (brt_slots t))"

text \<open>The operations the broker calls, and what they mean on the map.\<close>

datatype RoutesOp =
    RoutesSet BridgeRoute
  | RoutesRemove BridgeEndpoint BridgeEndpoint
  | RoutesFind BridgeEndpoint BridgeEndpoint
  | RoutesHasRoom BridgeRoute
  | RoutesIsEmpty

datatype RoutesResult = RoutesFlag bool | RoutesFound "BridgeRouteSlot option"

fun BridgeRoutes_step :: "BridgeRoutes \<Rightarrow> RoutesOp \<Rightarrow> RoutesResult \<times> BridgeRoutes" where
  "BridgeRoutes_step t (RoutesSet r) = apfst RoutesFlag (BridgeRoutes_Set t r)"
| "BridgeRoutes_step t (RoutesRemove s d) = apfst RoutesFlag (BridgeRoutes_Remove t s d)"
| "BridgeRoutes_step t (RoutesFind s d) = (RoutesFound (BridgeRoutes_Find t s d), t)"
| "BridgeRoutes_step t (RoutesHasRoom r) = (RoutesFlag (BridgeRoutes_HasRoom t r), t)"
| "BridgeRoutes_step t RoutesIsEmpty = (RoutesFlag (BridgeRoutes_IsEmpty t), t)"

fun routes_spec :: "((bytes \<times> bytes) \<times> (bytes \<times> bytes) \<Rightarrow> BridgeRouteSlot option) \<Rightarrow> RoutesOp \<Rightarrow>
    RoutesResult \<times> ((bytes \<times> bytes) \<times> (bytes \<times> bytes) \<Rightarrow> BridgeRouteSlot option)" where
  "routes_spec m (RoutesSet r) =
     (if \<not> BridgeRoute_IsValid r then (RoutesFlag False, m)
      else case m (route_key r) of
        Some s \<Rightarrow> (RoutesFlag True, m(route_key r \<mapsto> s\<lparr>brs_route := r\<rparr>))
      | None \<Rightarrow>
          if card (dom m) < BRIDGE_ROUTES_MAX
          then (RoutesFlag True,
            m(route_key r \<mapsto> \<lparr>brs_in_use = True, brs_route = r, brs_forwarded = 0, brs_dropped = 0\<rparr>))
          else (RoutesFlag False, m))"
| "routes_spec m (RoutesRemove s d) =
     (let k = (endpoint_key s, endpoint_key d) in (RoutesFlag (m k \<noteq> None), m(k := None)))"
| "routes_spec m (RoutesFind s d) = (RoutesFound (m (endpoint_key s, endpoint_key d)), m)"
| "routes_spec m (RoutesHasRoom r) =
     (RoutesFlag (m (route_key r) \<noteq> None \<or> card (dom m) < BRIDGE_ROUTES_MAX), m)"
| "routes_spec m RoutesIsEmpty = (RoutesFlag (dom m = {}), m)"

interpretation routes: slot_table brs_in_use slot_route_key BridgeRouteSlot_zero
  by unfold_locales (simp add: BridgeRouteSlot_zero_def)

lemma BridgeEndpoint_Equals_iff: "BridgeEndpoint_Equals a b \<longleftrightarrow> endpoint_key a = endpoint_key b"
  by (auto simp: BridgeEndpoint_Equals_def BridgeEndpoint_Names_def str_eq_def endpoint_key_def)

lemma route_findIndex_key:
  "route_findIndex t s d =
     find_index (\<lambda>slot. brs_in_use slot \<and> slot_route_key slot = (endpoint_key s, endpoint_key d)) (brt_slots t)"
  by (simp add: route_findIndex_def BridgeEndpoint_Equals_iff route_key_def)

lemma route_findIndex_route:
  "route_findIndex t (br_source r) (br_destination r) =
     find_index (\<lambda>slot. brs_in_use slot \<and> slot_route_key slot = route_key r) (brt_slots t)"
  by (simp add: route_findIndex_key route_key_def)

lemma live_le_max: "BridgeRoutes_inv t \<Longrightarrow> brt_count t \<le> 64"
  using length_filter_le [of brs_in_use "brt_slots t"] by (simp add: BridgeRoutes_inv_def)

lemma route_freeIndex_room:
  "BridgeRoutes_inv t \<Longrightarrow> route_freeIndex t = None \<longleftrightarrow> \<not> card (dom (BridgeRoutes_map t)) < 64"
  using routes.full_iff [of "brt_slots t"] routes.card_dom [of "brt_slots t"]
    length_filter_le [of brs_in_use "brt_slots t"]
  by (auto simp: route_freeIndex_def BridgeRoutes_inv_def BridgeRoutes_map_def)

lemma BridgeRoutes_Set_spec:
  assumes "BridgeRoutes_inv t"
  shows "BridgeRoutes_inv (snd (BridgeRoutes_Set t r)) \<and>
    routes_spec (BridgeRoutes_map t) (RoutesSet r) =
      (RoutesFlag (fst (BridgeRoutes_Set t r)), BridgeRoutes_map (snd (BridgeRoutes_Set t r)))"
proof (cases "BridgeRoute_IsValid r")
  case False
  then show ?thesis
    using assms by (simp add: BridgeRoutes_Set_def)
next
  case valid: True
  have d: "slots_distinct brs_in_use slot_route_key (brt_slots t)"
    using assms by (simp add: BridgeRoutes_inv_def)
  show ?thesis
  proof (cases "route_findIndex t (br_source r) (br_destination r)")
    case (Some i)
    note found = Some [unfolded route_findIndex_route]
    let ?s = "(brt_slots t ! i)\<lparr>brs_route := r\<rparr>"
    have live: "brs_in_use (brt_slots t ! i)"
      using find_index_SomeD [OF found] by simp
    show ?thesis
      using valid Some live assms routes.index_Some [OF found] routes.store_again [OF d found, of ?s]
      by (simp add: BridgeRoutes_Set_def BridgeRoutes_map_def BridgeRoutes_inv_def)
  next
    case None
    note absent = None [unfolded route_findIndex_route routes.index_None]
    show ?thesis
    proof (cases "route_freeIndex t")
      case no_room: None
      then show ?thesis
        using valid None absent assms route_freeIndex_room [OF assms]
        by (simp add: BridgeRoutes_Set_def BridgeRoutes_map_def)
    next
      case (Some i)
      note free = Some [unfolded route_freeIndex_def]
      let ?s = "\<lparr>brs_in_use = True, brs_route = r, brs_forwarded = 0, brs_dropped = 0\<rparr>"
      have "\<not> brs_in_use (brt_slots t ! i)"
        using find_index_SomeD [OF free] by simp
      then show ?thesis
        using valid None absent Some assms route_freeIndex_room [OF assms] live_le_max [OF assms]
          routes.store_new [OF d free, of ?s]
        by (simp add: BridgeRoutes_Set_def BridgeRoutes_map_def BridgeRoutes_inv_def BridgeRouteSlot_zero_def)
    qed
  qed
qed

lemma BridgeRoutes_Remove_spec:
  assumes "BridgeRoutes_inv t"
  shows "BridgeRoutes_inv (snd (BridgeRoutes_Remove t s d)) \<and>
    routes_spec (BridgeRoutes_map t) (RoutesRemove s d) =
      (RoutesFlag (fst (BridgeRoutes_Remove t s d)), BridgeRoutes_map (snd (BridgeRoutes_Remove t s d)))"
proof (cases "route_findIndex t s d")
  case None
  then show ?thesis
    using assms routes.index_None [of "(endpoint_key s, endpoint_key d)" "brt_slots t"]
    by (auto simp: BridgeRoutes_Remove_def BridgeRoutes_map_def route_findIndex_key fun_upd_idem)
next
  case (Some i)
  note found = Some [unfolded route_findIndex_key]
  have "slots_distinct brs_in_use slot_route_key (brt_slots t)"
    using assms by (simp add: BridgeRoutes_inv_def)
  note gone = routes.store_empty [OF this found]
  have "wrap_dec 8 (brt_count t) = brt_count t - 1"
    using gone(3) live_le_max [OF assms] assms by (intro wrap_dec_pos) (auto simp: BridgeRoutes_inv_def)
  then show ?thesis
    using Some gone assms routes.index_Some [OF found]
    by (simp add: BridgeRoutes_Remove_def BridgeRoutes_map_def BridgeRoutes_inv_def flip: gone(3))
qed

interpretation routes_map: simulation BridgeRoutes_step BridgeRoutes_inv routes_spec BridgeRoutes_map
proof unfold_locales
  fix t x
  assume inv: "BridgeRoutes_inv t"
  have nonempty: "dom (BridgeRoutes_map t) = {} \<longleftrightarrow> brt_count t = 0"
    using inv routes.dom_keys [of "brt_slots t"] by (auto simp: BridgeRoutes_inv_def BridgeRoutes_map_def filter_empty_conv)
  show "BridgeRoutes_inv (snd (BridgeRoutes_step t x))"
    using inv BridgeRoutes_Set_spec [OF inv] BridgeRoutes_Remove_spec [OF inv] by (cases x) simp_all
  show "routes_spec (BridgeRoutes_map t) x =
      (fst (BridgeRoutes_step t x), BridgeRoutes_map (snd (BridgeRoutes_step t x)))"
  proof (cases x)
    case (RoutesFind s d)
    then show ?thesis
      by (simp add: BridgeRoutes_Find_def BridgeRoutes_map_def route_findIndex_key routes.map_index split: option.splits)
  next
    case (RoutesHasRoom r)
    then show ?thesis
      using route_freeIndex_room [OF inv] routes.index_None [of "route_key r" "brt_slots t"]
      by (simp add: BridgeRoutes_HasRoom_def BridgeRoutes_map_def route_findIndex_route del: not_None_eq)
  qed (use BridgeRoutes_Set_spec [OF inv] BridgeRoutes_Remove_spec [OF inv] nonempty in
      \<open>simp_all add: BridgeRoutes_IsEmpty_def\<close>)
qed

lemma BridgeRoutes_Reset_inv: "BridgeRoutes_inv BridgeRoutes_Reset"
  using routes.empty_free by (simp add: BridgeRoutes_inv_def BridgeRoutes_Reset_def)

lemma BridgeRoutes_Reset_map: "BridgeRoutes_map BridgeRoutes_Reset = Map.empty"
  by (simp add: BridgeRoutes_map_def BridgeRoutes_Reset_def)

section \<open>Properties\<close>

text \<open>
  C20.  The route table is a finite map from pairs of endpoint names to routes, with room
  for 64: after any sequence of calls, every call has returned what it returns on the map.
  Setting a known pair replaces its filters and keeps its counters, setting a new one
  starts its counters at zero, and an invalid route or a full table changes nothing.
\<close>

theorem BridgeRoutes_refines_map:
  "run routes_spec Map.empty ops =
     (let (results, t) = run BridgeRoutes_step BridgeRoutes_Reset ops in (results, BridgeRoutes_map t))"
  using routes_map.run_sim [OF BridgeRoutes_Reset_inv, of ops]
  by (simp add: BridgeRoutes_Reset_map split_def Let_def)

end
