(* ===== verification/ClientSession.thy ===== *)
theory ClientSession
  imports BridgeRoutes
begin

text \<open>
  One client's session (\<open>src/hub/domain/client_session.c\<close>): up to 32 open interfaces,
  each bound to a channel.  The session refines a map from channels to bindings.
\<close>

section \<open>Bindings\<close>

abbreviation (input) CLIENT_SESSION_BINDINGS_MAX :: nat where "CLIENT_SESSION_BINDINGS_MAX \<equiv> 32"

record ChannelBinding =
  cb_in_use :: bool
  cb_dormant :: bool
  cb_suppress_echo :: bool
  cb_can_write :: bool
  cb_reliable :: bool
  cb_error_frames :: bool
  cb_interface_id :: u32
  cb_channel :: u8
  cb_filter_count :: u8
  cb_frames_forwarded :: u32
  cb_frames_dropped :: u32
  cb_agent_name :: bytes
  cb_interface_name :: bytes
  cb_filters :: "CanFilter list"

record ClientSession =
  cs_bindings :: "ChannelBinding list"
  cs_next_channel :: u8

record ChannelOpenRequest =
  cor_interface_id :: u32
  cor_suppress_echo :: bool
  cor_can_write :: bool
  cor_reliable :: bool
  cor_error_frames :: bool
  cor_agent_name :: bytes
  cor_interface_name :: bytes

definition ChannelBinding_zero :: ChannelBinding where
  "ChannelBinding_zero = \<lparr>cb_in_use = False, cb_dormant = False, cb_suppress_echo = False, cb_can_write = False,
     cb_reliable = False, cb_error_frames = False, cb_interface_id = 0, cb_channel = 0, cb_filter_count = 0,
     cb_frames_forwarded = 0, cb_frames_dropped = 0, cb_agent_name = replicate REGISTER_AGENT_NAME_SIZE 0,
     cb_interface_name = replicate REGISTER_INTERFACE_NAME_SIZE 0,
     cb_filters = replicate SUBSCRIBE_FILTERS_MAX CanFilter_zero\<rparr>"

section \<open>Operations\<close>

definition ClientSession_Reset :: ClientSession where
  "ClientSession_Reset =
     \<lparr>cs_bindings = replicate CLIENT_SESSION_BINDINGS_MAX ChannelBinding_zero, cs_next_channel = 0\<rparr>"

definition session_findByChannel :: "ClientSession \<Rightarrow> u8 \<Rightarrow> nat option" where
  "session_findByChannel self channel = find_index (\<lambda>b. cb_in_use b \<and> cb_channel b = channel) (cs_bindings self)"

definition session_findFree :: "ClientSession \<Rightarrow> nat option" where
  "session_findFree self = find_index (\<lambda>b. \<not> cb_in_use b) (cs_bindings self)"

fun allocate_attempts :: "nat \<Rightarrow> ClientSession \<Rightarrow> u8 option \<times> ClientSession" where
  "allocate_attempts 0 self = (None, self)"
| "allocate_attempts (Suc n) self =
     (let next = cs_next_channel self; advanced = self\<lparr>cs_next_channel := next + 1\<rparr>
      in if session_findByChannel self next = None then (Some next, advanced) else allocate_attempts n advanced)"

definition allocateChannel :: "ClientSession \<Rightarrow> u8 option \<times> ClientSession" where
  "allocateChannel self = allocate_attempts (CLIENT_SESSION_BINDINGS_MAX + 1) self"

text \<open>Returns the channel, or \<open>None\<close> for \<open>false\<close>.\<close>

definition ClientSession_OpenInterface :: "ClientSession \<Rightarrow> ChannelOpenRequest \<Rightarrow> u8 option \<times> ClientSession" where
  "ClientSession_OpenInterface self request =
     (case session_findFree self of
        None \<Rightarrow> (None, self)
      | Some i \<Rightarrow>
          (case allocateChannel self of
             (None, self) \<Rightarrow> (None, self)
           | (Some channel, self) \<Rightarrow>
               let b = cs_bindings self ! i;
                   b = b\<lparr>cb_in_use := True, cb_dormant := False, cb_suppress_echo := cor_suppress_echo request,
                     cb_can_write := cor_can_write request, cb_reliable := cor_reliable request,
                     cb_error_frames := cor_error_frames request, cb_interface_id := cor_interface_id request,
                     cb_channel := channel,
                     cb_agent_name := BoundedString_Copy (cb_agent_name b) (Some (cor_agent_name request)),
                     cb_interface_name := BoundedString_Copy (cb_interface_name b) (Some (cor_interface_name request))\<rparr>
               in (Some channel, self\<lparr>cs_bindings := (cs_bindings self)[i := b]\<rparr>)))"

definition ClientSession_CanWrite :: "ClientSession \<Rightarrow> u8 \<Rightarrow> bool" where
  "ClientSession_CanWrite self channel =
     (case find_index (\<lambda>b. cb_in_use b \<and> cb_channel b = channel) (cs_bindings self) of
        Some i \<Rightarrow> cb_can_write (cs_bindings self ! i)
      | None \<Rightarrow> False)"

definition ClientSession_ChannelReliable :: "ClientSession \<Rightarrow> u8 \<Rightarrow> bool" where
  "ClientSession_ChannelReliable self channel =
     (case find_index (\<lambda>b. cb_in_use b \<and> cb_channel b = channel) (cs_bindings self) of
        Some i \<Rightarrow> cb_reliable (cs_bindings self ! i)
      | None \<Rightarrow> False)"

definition ClientSession_SetFilters :: "ClientSession \<Rightarrow> u8 \<Rightarrow> CanFilter list \<Rightarrow> u8 \<Rightarrow> bool \<times> ClientSession" where
  "ClientSession_SetFilters self channel filters count =
     (case session_findByChannel self channel of
        None \<Rightarrow> (False, self)
      | Some i \<Rightarrow>
          if SUBSCRIBE_FILTERS_MAX < unat count then (False, self)
          else
            let b = (cs_bindings self ! i)\<lparr>cb_filter_count := count\<rparr>;
                b = (if 0 < count then b\<lparr>cb_filters := array_copy (unat count) filters (cb_filters b)\<rparr> else b)
            in (True, self\<lparr>cs_bindings := (cs_bindings self)[i := b]\<rparr>))"

definition binding_accepts :: "ChannelBinding \<Rightarrow> u32 \<Rightarrow> bool" where
  "binding_accepts b can_id =
     (if can_id AND FRAME_CAN_ID_FLAG_ERR \<noteq> 0 then cb_error_frames b
      else if cb_filter_count b = 0 then True
      else list_ex (\<lambda>f. can_id AND flt_can_mask f = flt_can_id f AND flt_can_mask f)
             (take (unat (cb_filter_count b)) (cb_filters b)))"

definition ClientSession_ChannelAccepts :: "ClientSession \<Rightarrow> u8 \<Rightarrow> u32 \<Rightarrow> bool" where
  "ClientSession_ChannelAccepts self channel can_id =
     (case find_index (\<lambda>b. cb_in_use b \<and> cb_channel b = channel) (cs_bindings self) of
        Some i \<Rightarrow> binding_accepts (cs_bindings self ! i) can_id
      | None \<Rightarrow> True)"

definition ClientSession_CloseChannel :: "ClientSession \<Rightarrow> u8 \<Rightarrow> ClientSession" where
  "ClientSession_CloseChannel self channel =
     (case session_findByChannel self channel of
        None \<Rightarrow> self
      | Some i \<Rightarrow> self\<lparr>cs_bindings := (cs_bindings self)[i := ChannelBinding_zero]\<rparr>)"

definition ClientSession_InterfaceForChannel :: "ClientSession \<Rightarrow> u8 \<Rightarrow> u32 option" where
  "ClientSession_InterfaceForChannel self channel =
     (case find_index (\<lambda>b. cb_in_use b \<and> \<not> cb_dormant b \<and> cb_channel b = channel) (cs_bindings self) of
        Some i \<Rightarrow> Some (cb_interface_id (cs_bindings self ! i))
      | None \<Rightarrow> None)"

definition ClientSession_ChannelForInterface :: "ClientSession \<Rightarrow> u32 \<Rightarrow> u8 option" where
  "ClientSession_ChannelForInterface self interface_id =
     (case find_index (\<lambda>b. cb_in_use b \<and> \<not> cb_dormant b \<and> cb_interface_id b = interface_id) (cs_bindings self) of
        Some i \<Rightarrow> Some (cb_channel (cs_bindings self ! i))
      | None \<Rightarrow> None)"

text \<open>The iterator: the binding found, if any, and the index to continue from.\<close>

definition ClientSession_NextBindingForInterface ::
    "ClientSession \<Rightarrow> u32 \<Rightarrow> nat \<Rightarrow> ChannelBinding option \<times> nat" where
  "ClientSession_NextBindingForInterface self interface_id iterator =
     (case find_index (\<lambda>b. cb_in_use b \<and> \<not> cb_dormant b \<and> cb_interface_id b = interface_id)
         (drop iterator (cs_bindings self)) of
        Some k \<Rightarrow> (Some (cs_bindings self ! (iterator + k)), iterator + k + 1)
      | None \<Rightarrow> (None, CLIENT_SESSION_BINDINGS_MAX))"

text \<open>The binding of a channel, by its index.\<close>

definition ClientSession_BindingForChannel :: "ClientSession \<Rightarrow> u8 \<Rightarrow> nat option" where
  "ClientSession_BindingForChannel self channel = session_findByChannel self channel"

definition ClientSession_HoldsReliable :: "ClientSession \<Rightarrow> u32 \<Rightarrow> bool" where
  "ClientSession_HoldsReliable self interface_id =
     list_ex (\<lambda>b. cb_in_use b \<and> cb_reliable b \<and> cb_interface_id b = interface_id) (cs_bindings self)"

definition ClientSession_HoldsChannels :: "ClientSession \<Rightarrow> bool" where
  "ClientSession_HoldsChannels self = list_ex cb_in_use (cs_bindings self)"

definition ClientSession_TakeReliableBinding :: "ClientSession \<Rightarrow> u32 option \<times> ClientSession" where
  "ClientSession_TakeReliableBinding self =
     (case find_index (\<lambda>b. cb_in_use b \<and> cb_reliable b) (cs_bindings self) of
        Some i \<Rightarrow> (Some (cb_interface_id (cs_bindings self ! i)),
          self\<lparr>cs_bindings := (cs_bindings self)[i := ChannelBinding_zero]\<rparr>)
      | None \<Rightarrow> (None, self))"

definition detach_binding :: "u32 \<Rightarrow> ChannelBinding \<Rightarrow> ChannelBinding" where
  "detach_binding interface_id b =
     (if cb_in_use b \<and> \<not> cb_dormant b \<and> cb_interface_id b = interface_id then b\<lparr>cb_dormant := True\<rparr> else b)"

definition ClientSession_DetachInterface :: "ClientSession \<Rightarrow> u32 \<Rightarrow> ClientSession" where
  "ClientSession_DetachInterface self interface_id =
     self\<lparr>cs_bindings := map (detach_binding interface_id) (cs_bindings self)\<rparr>"

definition reattaches :: "bytes \<Rightarrow> bytes \<Rightarrow> ChannelBinding \<Rightarrow> bool" where
  "reattaches agent_name interface_name b \<longleftrightarrow> cb_in_use b \<and> cb_dormant b \<and>
     strn_eq REGISTER_AGENT_NAME_SIZE (cb_agent_name b) agent_name \<and>
     strn_eq REGISTER_INTERFACE_NAME_SIZE (cb_interface_name b) interface_name"

definition reattach_binding :: "bytes \<Rightarrow> bytes \<Rightarrow> u32 \<Rightarrow> bool \<Rightarrow> ChannelBinding \<Rightarrow> ChannelBinding" where
  "reattach_binding agent_name interface_name interface_id can_write b =
     (if reattaches agent_name interface_name b
      then b\<lparr>cb_interface_id := interface_id, cb_can_write := can_write, cb_dormant := False\<rparr> else b)"

definition ClientSession_ReattachInterface ::
    "ClientSession \<Rightarrow> bytes \<Rightarrow> bytes \<Rightarrow> u32 \<Rightarrow> bool \<Rightarrow> bool \<times> ClientSession" where
  "ClientSession_ReattachInterface self agent_name interface_name interface_id can_write =
     (list_ex (reattaches agent_name interface_name) (cs_bindings self),
      self\<lparr>cs_bindings := map (reattach_binding agent_name interface_name interface_id can_write) (cs_bindings self)\<rparr>)"

section \<open>The session as a map\<close>

definition session_map :: "ClientSession \<Rightarrow> u8 \<Rightarrow> ChannelBinding option" where
  "session_map s = slot_map cb_in_use cb_channel (cs_bindings s)"

definition filters_fit :: "ChannelBinding \<Rightarrow> bool" where
  "filters_fit b \<longleftrightarrow> length (cb_filters b) = SUBSCRIBE_FILTERS_MAX \<and> unat (cb_filter_count b) \<le> SUBSCRIBE_FILTERS_MAX"

definition ClientSession_inv :: "ClientSession \<Rightarrow> bool" where
  "ClientSession_inv s \<longleftrightarrow> length (cs_bindings s) = CLIENT_SESSION_BINDINGS_MAX \<and>
     slots_distinct cb_in_use cb_channel (cs_bindings s) \<and>
     (\<forall>b \<in> set (cs_bindings s). (\<not> cb_in_use b \<longrightarrow> b = ChannelBinding_zero) \<and>
        filters_fit b)"

datatype SessionOp =
    SessionOpen ChannelOpenRequest
  | SessionSetFilters u8 "CanFilter list" u8
  | SessionClose u8
  | SessionDetach u32
  | SessionReattach bytes bytes u32 bool
  | SessionTakeReliable
  | SessionAccepts u8 u32
  | SessionCanWrite u8
  | SessionReliable u8
  | SessionInterface u8
  | SessionChannel u32
  | SessionHoldsReliable u32
  | SessionHoldsChannels

datatype SessionResult = SessDone | SessFlag bool | SessChannel "u8 option" | SessInterface "u32 option"

fun session_step :: "ClientSession \<Rightarrow> SessionOp \<Rightarrow> SessionResult \<times> ClientSession" where
  "session_step s (SessionOpen r) = apfst SessChannel (ClientSession_OpenInterface s r)"
| "session_step s (SessionSetFilters c fs n) = apfst SessFlag (ClientSession_SetFilters s c fs n)"
| "session_step s (SessionClose c) = (SessDone, ClientSession_CloseChannel s c)"
| "session_step s (SessionDetach i) = (SessDone, ClientSession_DetachInterface s i)"
| "session_step s (SessionReattach a n i w) = apfst SessFlag (ClientSession_ReattachInterface s a n i w)"
| "session_step s SessionTakeReliable = apfst SessInterface (ClientSession_TakeReliableBinding s)"
| "session_step s (SessionAccepts c f) = (SessFlag (ClientSession_ChannelAccepts s c f), s)"
| "session_step s (SessionCanWrite c) = (SessFlag (ClientSession_CanWrite s c), s)"
| "session_step s (SessionReliable c) = (SessFlag (ClientSession_ChannelReliable s c), s)"
| "session_step s (SessionInterface c) = (SessInterface (ClientSession_InterfaceForChannel s c), s)"
| "session_step s (SessionChannel i) = (SessChannel (ClientSession_ChannelForInterface s i), s)"
| "session_step s (SessionHoldsReliable i) = (SessFlag (ClientSession_HoldsReliable s i), s)"
| "session_step s SessionHoldsChannels = (SessFlag (ClientSession_HoldsChannels s), s)"

text \<open>A binding as \<open>OPEN\<close> creates it: no filters, no counts, nothing left of an earlier one.\<close>

definition opened_binding :: "ChannelOpenRequest \<Rightarrow> u8 \<Rightarrow> ChannelBinding" where
  "opened_binding r c = ChannelBinding_zero\<lparr>cb_in_use := True, cb_suppress_echo := cor_suppress_echo r,
     cb_can_write := cor_can_write r, cb_reliable := cor_reliable r, cb_error_frames := cor_error_frames r,
     cb_interface_id := cor_interface_id r, cb_channel := c,
     cb_agent_name := BoundedString_Copy (replicate REGISTER_AGENT_NAME_SIZE 0) (Some (cor_agent_name r)),
     cb_interface_name := BoundedString_Copy (replicate REGISTER_INTERFACE_NAME_SIZE 0) (Some (cor_interface_name r))\<rparr>"

type_synonym session = "(u8 \<Rightarrow> ChannelBinding option) \<times> u8"

definition session_abs :: "ClientSession \<Rightarrow> session" where
  "session_abs s = (session_map s, cs_next_channel s)"

text \<open>
  What the map says of a binding: whether it waits for the agent's interface of the given names,
  and whether its filters let a frame through.
\<close>

definition awaits :: "bytes \<Rightarrow> bytes \<Rightarrow> ChannelBinding \<Rightarrow> bool" where
  "awaits a f b \<longleftrightarrow> cb_dormant b \<and> strn_eq REGISTER_AGENT_NAME_SIZE (cb_agent_name b) a \<and>
     strn_eq REGISTER_INTERFACE_NAME_SIZE (cb_interface_name b) f"

definition lets_through :: "ChannelBinding \<Rightarrow> u32 \<Rightarrow> bool" where
  "lets_through b can_id \<longleftrightarrow>
     (if can_id AND FRAME_CAN_ID_FLAG_ERR \<noteq> 0 then cb_error_frames b
      else cb_filter_count b = 0 \<or>
        (\<exists>k < unat (cb_filter_count b).
           can_id AND flt_can_mask (cb_filters b ! k) = flt_can_id (cb_filters b ! k) AND flt_can_mask (cb_filters b ! k)))"

text \<open>
  What each call does on the map; the second component is the channel tried next.  A binding that
  is kept is written as a record update: the fields not named, its channel and filters among them,
  are those it had.
\<close>

fun session_post :: "session \<Rightarrow> SessionOp \<Rightarrow> SessionResult \<Rightarrow> session \<Rightarrow> bool" where
  "session_post (m, n) (SessionOpen q) r (m', n') =
     (if card (dom m) = CLIENT_SESSION_BINDINGS_MAX then r = SessChannel None \<and> m' = m \<and> n' = n
      else (\<exists>k. let c = n + of_nat k
              in r = SessChannel (Some c) \<and> c \<notin> dom m \<and> (\<forall>j < k. n + of_nat j \<in> dom m) \<and>
                 m' = m(c \<mapsto> opened_binding q c) \<and> n' = c + 1))"
| "session_post (m, n) (SessionSetFilters c fs k) r (m', n') =
     (n' = n \<and>
      (case m c of
         None \<Rightarrow> r = SessFlag False \<and> m' = m
       | Some b \<Rightarrow>
           if SUBSCRIBE_FILTERS_MAX < unat k then r = SessFlag False \<and> m' = m
           else r = SessFlag True \<and>
             (\<exists>fs'. m' = m(c \<mapsto> b\<lparr>cb_filter_count := k, cb_filters := fs'\<rparr>) \<and>
                take (unat k) fs' = map (\<lambda>i. fs ! i) [0..<unat k])))"
| "session_post (m, n) (SessionClose c) r (m', n') = (r = SessDone \<and> m' = m(c := None) \<and> n' = n)"
| "session_post (m, n) (SessionDetach i) r (m', n') =
     (r = SessDone \<and> n' = n \<and>
      m' = (\<lambda>c. case m c of
          None \<Rightarrow> None
        | Some b \<Rightarrow> Some (b\<lparr>cb_dormant := (cb_dormant b \<or> cb_interface_id b = i)\<rparr>)))"
| "session_post (m, n) (SessionReattach a f i w) r (m', n') =
     (r = SessFlag (\<exists>b \<in> ran m. awaits a f b) \<and> n' = n \<and>
      m' = (\<lambda>c. case m c of
          None \<Rightarrow> None
        | Some b \<Rightarrow>
            Some (if awaits a f b then b\<lparr>cb_interface_id := i, cb_can_write := w, cb_dormant := False\<rparr> else b)))"
| "session_post (m, n) SessionTakeReliable r (m', n') =
     (n' = n \<and>
      ((r = SessInterface None \<and> m' = m \<and> (\<forall>b \<in> ran m. \<not> cb_reliable b)) \<or>
       (\<exists>c b. m c = Some b \<and> cb_reliable b \<and> r = SessInterface (Some (cb_interface_id b)) \<and> m' = m(c := None))))"
| "session_post (m, n) (SessionAccepts c f) r (m', n') =
     (r = SessFlag (case m c of None \<Rightarrow> True | Some b \<Rightarrow> lets_through b f) \<and> m' = m \<and> n' = n)"
| "session_post (m, n) (SessionCanWrite c) r (m', n') =
     (r = SessFlag (case m c of None \<Rightarrow> False | Some b \<Rightarrow> cb_can_write b) \<and> m' = m \<and> n' = n)"
| "session_post (m, n) (SessionReliable c) r (m', n') =
     (r = SessFlag (case m c of None \<Rightarrow> False | Some b \<Rightarrow> cb_reliable b) \<and> m' = m \<and> n' = n)"
| "session_post (m, n) (SessionInterface c) r (m', n') =
     (r = SessInterface (case m c of
          None \<Rightarrow> None
        | Some b \<Rightarrow> if cb_dormant b then None else Some (cb_interface_id b)) \<and> m' = m \<and> n' = n)"
| "session_post (m, n) (SessionChannel i) r (m', n') =
     (m' = m \<and> n' = n \<and>
      ((r = SessChannel None \<and> (\<forall>b \<in> ran m. cb_dormant b \<or> cb_interface_id b \<noteq> i)) \<or>
       (\<exists>c b. r = SessChannel (Some c) \<and> m c = Some b \<and> \<not> cb_dormant b \<and> cb_interface_id b = i)))"
| "session_post (m, n) (SessionHoldsReliable i) r (m', n') =
     (r = SessFlag (\<exists>b \<in> ran m. cb_reliable b \<and> cb_interface_id b = i) \<and> m' = m \<and> n' = n)"
| "session_post (m, n) SessionHoldsChannels r (m', n') = (r = SessFlag (dom m \<noteq> {}) \<and> m' = m \<and> n' = n)"

interpretation bindings: slot_table cb_in_use cb_channel ChannelBinding_zero
  by unfold_locales (simp add: ChannelBinding_zero_def)

lemma session_distinct: "ClientSession_inv s \<Longrightarrow> slots_distinct cb_in_use cb_channel (cs_bindings s)"
  by (simp add: ClientSession_inv_def)

lemma session_find: "session_findByChannel s c = None \<longleftrightarrow> session_map s c = None"
  "session_findByChannel s c = Some i \<Longrightarrow> session_map s c = Some (cs_bindings s ! i)"
  by (simp_all add: session_findByChannel_def session_map_def bindings.index_None bindings.index_Some)

lemma session_full:
  "ClientSession_inv s \<Longrightarrow> session_findFree s = None \<longleftrightarrow> card (dom (session_map s)) = 32"
  using bindings.full_iff [OF session_distinct] by (simp add: session_findFree_def session_map_def ClientSession_inv_def)

text \<open>The allocator visits consecutive channels, and among 33 of them one is unused.\<close>

lemma allocate_attempts_scan:
  assumes "k < n" and "\<And>j. j < k \<Longrightarrow> session_map s (cs_next_channel s + of_nat j) \<noteq> None"
    and "session_map s (cs_next_channel s + of_nat k) = None"
  shows "allocate_attempts n s =
    (Some (cs_next_channel s + of_nat k), s\<lparr>cs_next_channel := cs_next_channel s + of_nat k + 1\<rparr>)"
  using assms
proof (induction n arbitrary: s k)
  case (Suc n)
  let ?s = "s\<lparr>cs_next_channel := cs_next_channel s + 1\<rparr>"
  have same: "session_map ?s = session_map s"
    by (simp add: session_map_def)
  show ?case
  proof (cases k)
    case 0
    then show ?thesis
      using Suc.prems by (simp add: session_find Let_def)
  next
    case (Suc k')
    have "allocate_attempts n ?s = (Some (cs_next_channel ?s + of_nat k'),
        ?s\<lparr>cs_next_channel := cs_next_channel ?s + of_nat k' + 1\<rparr>)"
      using Suc Suc.prems(1) Suc.prems(2) [of "Suc j" for j] Suc.prems(3)
      by (intro Suc.IH) (simp_all add: same add.assoc)
    then show ?thesis
      using Suc Suc.prems(2) [of 0] by (auto simp: session_find Let_def add.assoc)
  qed
qed simp

lemma unused_channel:
  assumes "ClientSession_inv s" and "card (dom (session_map s)) \<noteq> 32"
  shows "\<exists>k < 33. session_map s (n + of_nat k) = None"
proof (rule ccontr)
  assume "\<not> (\<exists>k < 33. session_map s (n + of_nat k) = None)"
  then have sub: "(\<lambda>k. n + of_nat k) ` {..<33} \<subseteq> dom (session_map s)"
    by auto
  have "inj_on (\<lambda>k. n + of_nat k :: u8) {..<33}"
    by (auto simp: inj_on_def word_of_nat_eq_iff take_bit_nat_eq_self)
  then have "33 \<le> card (dom (session_map s))"
    using card_mono [OF _ sub] bindings.dom_keys [of "cs_bindings s"] by (simp add: card_image session_map_def)
  moreover have "card (dom (session_map s)) \<le> length (cs_bindings s)"
    using bindings.card_dom [OF session_distinct [OF assms(1)]] by (simp add: session_map_def)
  ultimately show False
    using assms(1) by (simp add: ClientSession_inv_def)
qed

lemma allocateChannel_first:
  assumes "ClientSession_inv s" and "card (dom (session_map s)) \<noteq> 32"
  shows "\<exists>k. allocateChannel s =
      (Some (cs_next_channel s + of_nat k), s\<lparr>cs_next_channel := cs_next_channel s + of_nat k + 1\<rparr>) \<and>
    session_map s (cs_next_channel s + of_nat k) = None \<and>
    (\<forall>j < k. session_map s (cs_next_channel s + of_nat j) \<noteq> None)"
proof -
  let ?P = "\<lambda>k. session_map s (cs_next_channel s + of_nat k) = None"
  obtain k0 where k0: "k0 < 33" "?P k0"
    using unused_channel [OF assms] by blast
  define k where "k = (LEAST k. ?P k)"
  have k: "?P k" "k \<le> k0"
    unfolding k_def using k0 by (auto intro: LeastI Least_le)
  have below: "\<not> ?P j" if "j < k" for j
    using not_less_Least that unfolding k_def by blast
  show ?thesis
    using allocate_attempts_scan [of k 33 s, OF _ below] k k0 below
    by (auto simp: allocateChannel_def intro!: exI [of _ k])
qed

lemma session_inv_store:
  assumes "ClientSession_inv s" and "slots_distinct cb_in_use cb_channel ((cs_bindings s)[i := b])"
    and "cb_in_use b \<or> b = ChannelBinding_zero" and "filters_fit b"
  shows "ClientSession_inv (s\<lparr>cs_bindings := (cs_bindings s)[i := b]\<rparr>)"
  using assms set_update_subset_insert [of "cs_bindings s" i b] unfolding ClientSession_inv_def by auto

lemma session_binding:
  assumes "ClientSession_inv s" and "i < length (cs_bindings s)"
  shows "filters_fit (cs_bindings s ! i)"
    and "\<not> cb_in_use (cs_bindings s ! i) \<Longrightarrow> cs_bindings s ! i = ChannelBinding_zero"
  using assms nth_mem [of i "cs_bindings s"] unfolding ClientSession_inv_def by blast+

lemma zero_filters: "filters_fit ChannelBinding_zero"
  by (simp add: filters_fit_def ChannelBinding_zero_def)

lemma OpenInterface_spec:
  assumes inv: "ClientSession_inv s"
  shows "ClientSession_inv (snd (ClientSession_OpenInterface s r)) \<and>
    session_post (session_abs s) (SessionOpen r) (SessChannel (fst (ClientSession_OpenInterface s r)))
      (session_abs (snd (ClientSession_OpenInterface s r)))"
proof (cases "session_findFree s")
  case None
  then show ?thesis
    using inv session_full [OF inv] by (simp add: ClientSession_OpenInterface_def session_abs_def)
next
  case (Some i)
  then have room: "card (dom (session_map s)) \<noteq> 32"
    using session_full [OF inv] by simp
  obtain k where k: "allocateChannel s =
      (Some (cs_next_channel s + of_nat k), s\<lparr>cs_next_channel := cs_next_channel s + of_nat k + 1\<rparr>)"
    and fresh: "session_map s (cs_next_channel s + of_nat k) = None"
    and below: "\<And>j. j < k \<Longrightarrow> session_map s (cs_next_channel s + of_nat j) \<noteq> None"
    using allocateChannel_first [OF inv room] by blast
  let ?c = "cs_next_channel s + of_nat k"
  note free = Some [unfolded session_findFree_def]
  have zero: "cs_bindings s ! i = ChannelBinding_zero"
    using find_index_SomeD [OF free] session_binding(2) [OF inv] by simp
  note new = bindings.store_new [OF session_distinct [OF inv] free, of "opened_binding r ?c"]
  have opened: "ClientSession_OpenInterface s r =
      (Some ?c, s\<lparr>cs_bindings := (cs_bindings s)[i := opened_binding r ?c]\<rparr>\<lparr>cs_next_channel := ?c + 1\<rparr>)"
    using Some k zero by (simp add: ClientSession_OpenInterface_def opened_binding_def ChannelBinding_zero_def)
  have shape: "cb_in_use (opened_binding r ?c)" "cb_channel (opened_binding r ?c) = ?c"
      "filters_fit (opened_binding r ?c)"
    using zero_filters by (simp_all add: opened_binding_def filters_fit_def)
  have "ClientSession_inv (s\<lparr>cs_bindings := (cs_bindings s)[i := opened_binding r ?c]\<rparr>)"
    using session_inv_store [OF inv] new(1) fresh shape by (simp add: session_map_def)
  then have "ClientSession_inv (snd (ClientSession_OpenInterface s r))"
    by (simp add: opened ClientSession_inv_def)
  moreover have "session_map (snd (ClientSession_OpenInterface s r)) = (session_map s)(?c \<mapsto> opened_binding r ?c)"
    using new(2) fresh shape by (simp add: session_map_def opened)
  ultimately show ?thesis
    using room fresh below by (auto simp: session_abs_def opened Let_def domIff intro!: exI [of _ k])
qed

lemma SetFilters_spec:
  assumes inv: "ClientSession_inv s"
  shows "ClientSession_inv (snd (ClientSession_SetFilters s c fs n)) \<and>
    session_post (session_abs s) (SessionSetFilters c fs n) (SessFlag (fst (ClientSession_SetFilters s c fs n)))
      (session_abs (snd (ClientSession_SetFilters s c fs n)))"
proof (cases "session_findByChannel s c")
  case None
  then show ?thesis
    using inv session_find(1) [of s c] by (simp add: ClientSession_SetFilters_def session_abs_def)
next
  case (Some i)
  note found = Some [unfolded session_findByChannel_def]
  let ?b = "cs_bindings s ! i"
  let ?fs = "if 0 < n then array_copy (unat n) fs (cb_filters ?b) else cb_filters ?b"
  let ?b' = "?b\<lparr>cb_filter_count := n, cb_filters := ?fs\<rparr>"
  have at: "i < length (cs_bindings s)" "cb_in_use ?b" "cb_channel ?b = c"
    using find_index_SomeD [OF found] by auto
  show ?thesis
  proof (cases "SUBSCRIBE_FILTERS_MAX < unat n")
    case True
    then show ?thesis
      using inv Some session_find(2) [OF Some] by (simp add: ClientSession_SetFilters_def session_abs_def)
  next
    case False
    have set_filters: "ClientSession_SetFilters s c fs n = (True, s\<lparr>cs_bindings := (cs_bindings s)[i := ?b']\<rparr>)"
      using Some False by (simp add: ClientSession_SetFilters_def Let_def)
    note again = bindings.store_again [OF session_distinct [OF inv] found, of ?b']
    have "ClientSession_inv (s\<lparr>cs_bindings := (cs_bindings s)[i := ?b']\<rparr>)"
      using again(1) at session_binding(1) [OF inv at(1)] False
      by (intro session_inv_store [OF inv]) (simp_all add: filters_fit_def length_array_copy)
    moreover have "take (unat n) ?fs = map (\<lambda>i. fs ! i) [0..<unat n]"
      using session_binding(1) [OF inv at(1)] False
      by (auto simp: filters_fit_def take_array_copy word_greater_zero_iff)
    moreover have "session_map (s\<lparr>cs_bindings := (cs_bindings s)[i := ?b']\<rparr>) = (session_map s)(c \<mapsto> ?b')"
      using again(2) at by (simp add: session_map_def)
    ultimately show ?thesis
      using False session_find(2) [OF Some] unfolding set_filters session_abs_def
      by (auto intro!: exI [of _ ?fs])
  qed
qed

lemma CloseChannel_spec:
  assumes inv: "ClientSession_inv s"
  shows "ClientSession_inv (ClientSession_CloseChannel s c) \<and>
    session_map (ClientSession_CloseChannel s c) = (session_map s)(c := None) \<and>
    cs_next_channel (ClientSession_CloseChannel s c) = cs_next_channel s"
proof (cases "session_findByChannel s c")
  case None
  then show ?thesis
    using inv session_find(1) [of s c] by (simp add: ClientSession_CloseChannel_def fun_upd_idem)
next
  case (Some i)
  note gone = bindings.store_empty [OF session_distinct [OF inv] Some [unfolded session_findByChannel_def]]
  show ?thesis
    using Some gone(2) session_inv_store [OF inv gone(1)] zero_filters
    by (simp add: ClientSession_CloseChannel_def session_map_def)
qed

lemma session_ran: "ClientSession_inv s \<Longrightarrow> ran (session_map s) = {b \<in> set (cs_bindings s). cb_in_use b}"
  by (simp add: session_map_def bindings.ran_live session_distinct)

lemma session_first:
  assumes "ClientSession_inv s" and "find_index (\<lambda>b. cb_in_use b \<and> P b) (cs_bindings s) = Some i"
  shows "session_findByChannel s (cb_channel (cs_bindings s ! i)) = Some i"
    and "session_map s (cb_channel (cs_bindings s ! i)) = Some (cs_bindings s ! i)"
    and "P (cs_bindings s ! i)"
proof -
  have at: "i < length (cs_bindings s)" "cb_in_use (cs_bindings s ! i)" "P (cs_bindings s ! i)"
    using find_index_SomeD [OF assms(2)] by auto
  then show "session_findByChannel s (cb_channel (cs_bindings s ! i)) = Some i"
    using session_distinct [OF assms(1)] unfolding session_findByChannel_def bindings.distinct_iff
    by (auto simp: find_index_Some) (metis less_irrefl less_trans)
  then show "session_map s (cb_channel (cs_bindings s ! i)) = Some (cs_bindings s ! i)"
    by (rule session_find(2))
  show "P (cs_bindings s ! i)"
    by (rule at)
qed

lemma TakeReliable_spec:
  assumes inv: "ClientSession_inv s"
  shows "ClientSession_inv (snd (ClientSession_TakeReliableBinding s)) \<and>
    session_post (session_abs s) SessionTakeReliable (SessInterface (fst (ClientSession_TakeReliableBinding s)))
      (session_abs (snd (ClientSession_TakeReliableBinding s)))"
proof (cases "find_index (\<lambda>b. cb_in_use b \<and> cb_reliable b) (cs_bindings s)")
  case None
  then show ?thesis
    using inv session_ran [OF inv] None [unfolded find_index_None]
    by (auto simp: ClientSession_TakeReliableBinding_def session_abs_def)
next
  case (Some i)
  note first = session_first [OF inv Some]
  have "snd (ClientSession_TakeReliableBinding s) = ClientSession_CloseChannel s (cb_channel (cs_bindings s ! i))"
    using Some first(1) by (simp add: ClientSession_TakeReliableBinding_def ClientSession_CloseChannel_def)
  then show ?thesis
    using Some first CloseChannel_spec [OF inv, of "cb_channel (cs_bindings s ! i)"]
    by (auto simp: session_abs_def ClientSession_TakeReliableBinding_def)
qed

lemma session_each:
  assumes "ClientSession_inv s" and "\<And>b. cb_in_use (f b) = cb_in_use b"
    and "\<And>b. cb_channel (f b) = cb_channel b" and "\<And>b. filters_fit (f b) = filters_fit b"
    and "\<And>b. \<not> cb_in_use b \<Longrightarrow> f b = b"
  shows "ClientSession_inv (s\<lparr>cs_bindings := map f (cs_bindings s)\<rparr>) \<and>
    session_abs (s\<lparr>cs_bindings := map f (cs_bindings s)\<rparr>) = (map_option f \<circ> session_map s, cs_next_channel s)"
  using assms(1) bindings.map_each [of f "cs_bindings s", OF assms(2,3)] assms(2-)
  by (auto simp: ClientSession_inv_def session_abs_def session_map_def)

lemma session_map_in_use: "session_map s c = Some b \<Longrightarrow> cb_in_use b"
  unfolding session_map_def bindings.map_index by (auto dest: find_index_SomeD split: option.splits)

lemma Detach_spec:
  assumes inv: "ClientSession_inv s"
  shows "ClientSession_inv (ClientSession_DetachInterface s i) \<and>
    session_post (session_abs s) (SessionDetach i) SessDone (session_abs (ClientSession_DetachInterface s i))"
proof -
  have "ClientSession_inv (ClientSession_DetachInterface s i) \<and>
    session_abs (ClientSession_DetachInterface s i) = (map_option (detach_binding i) \<circ> session_map s, cs_next_channel s)"
    unfolding ClientSession_DetachInterface_def using inv
    by (rule session_each) (simp_all add: detach_binding_def filters_fit_def)
  then show ?thesis
    by (auto simp: session_abs_def detach_binding_def fun_eq_iff dest: session_map_in_use split: option.splits)
qed

lemma Reattach_spec:
  assumes inv: "ClientSession_inv s"
  shows "ClientSession_inv (snd (ClientSession_ReattachInterface s a n i w)) \<and>
    session_post (session_abs s) (SessionReattach a n i w) (SessFlag (fst (ClientSession_ReattachInterface s a n i w)))
      (session_abs (snd (ClientSession_ReattachInterface s a n i w)))"
proof -
  have "ClientSession_inv (snd (ClientSession_ReattachInterface s a n i w)) \<and>
    session_abs (snd (ClientSession_ReattachInterface s a n i w)) =
      (map_option (reattach_binding a n i w) \<circ> session_map s, cs_next_channel s)"
    unfolding ClientSession_ReattachInterface_def snd_conv using inv
    by (rule session_each) (simp_all add: reattach_binding_def reattaches_def filters_fit_def)
  moreover have "fst (ClientSession_ReattachInterface s a n i w) \<longleftrightarrow> (\<exists>b \<in> ran (session_map s). awaits a n b)"
    using session_ran [OF inv] by (auto simp: ClientSession_ReattachInterface_def list_ex_iff reattaches_def awaits_def)
  ultimately show ?thesis
    by (auto simp: session_abs_def reattach_binding_def reattaches_def awaits_def fun_eq_iff
      dest: session_map_in_use split: option.splits)
qed

lemma binding_accepts_spec:
  assumes "ClientSession_inv s" and "session_map s c = Some b"
  shows "binding_accepts b f = lets_through b f"
proof -
  have "b \<in> ran (session_map s)"
    using assms(2) by (rule ranI)
  then have "unat (cb_filter_count b) \<le> length (cb_filters b)"
    using assms(1) session_ran [OF assms(1)] by (auto simp: ClientSession_inv_def filters_fit_def)
  then have "list_ex P (take (unat (cb_filter_count b)) (cb_filters b)) \<longleftrightarrow>
      (\<exists>k < unat (cb_filter_count b). P (cb_filters b ! k))" for P
    by (auto simp: list_ex_length)
  then show ?thesis
    by (simp add: binding_accepts_def lets_through_def)
qed

lemma InterfaceForChannel_spec:
  assumes "ClientSession_inv s"
  shows "ClientSession_InterfaceForChannel s c =
    (case session_map s c of None \<Rightarrow> None | Some b \<Rightarrow> if cb_dormant b then None else Some (cb_interface_id b))"
proof (cases "find_index (\<lambda>b. cb_in_use b \<and> \<not> cb_dormant b \<and> cb_channel b = c) (cs_bindings s)")
  case None
  then show ?thesis
    using session_distinct [OF assms] None [unfolded find_index_None]
    by (auto simp: ClientSession_InterfaceForChannel_def session_map_def bindings.map_Some split: option.splits)
next
  case (Some i)
  then show ?thesis
    using session_first [OF assms Some] by (auto simp: ClientSession_InterfaceForChannel_def)
qed

lemma ChannelForInterface_spec:
  assumes "ClientSession_inv s"
  shows "session_post (session_abs s) (SessionChannel i) (SessChannel (ClientSession_ChannelForInterface s i)) (session_abs s)"
proof (cases "find_index (\<lambda>b. cb_in_use b \<and> \<not> cb_dormant b \<and> cb_interface_id b = i) (cs_bindings s)")
  case None
  then show ?thesis
    using session_ran [OF assms] None [unfolded find_index_None]
    by (auto simp: ClientSession_ChannelForInterface_def session_abs_def)
next
  case (Some k)
  then show ?thesis
    using session_first [OF assms Some] by (auto simp: ClientSession_ChannelForInterface_def session_abs_def)
qed

lemma session_query:
  "(case find_index (\<lambda>b. cb_in_use b \<and> cb_channel b = c) (cs_bindings s) of Some i \<Rightarrow> g (cs_bindings s ! i) | None \<Rightarrow> d) =
   (case session_map s c of Some b \<Rightarrow> g b | None \<Rightarrow> d)"
  by (simp add: session_map_def bindings.map_index split: option.splits)

lemmas session_queries =
  session_query [where g = cb_can_write] session_query [where g = cb_reliable]
  session_query [where g = "\<lambda>b. binding_accepts b f" for f]

interpretation session: contract session_step ClientSession_inv session_post session_abs
proof unfold_locales
  fix s x
  assume inv: "ClientSession_inv s"
  note ops = OpenInterface_spec [OF inv] SetFilters_spec [OF inv] CloseChannel_spec [OF inv] TakeReliable_spec [OF inv]
    Detach_spec [OF inv] Reattach_spec [OF inv]
  show "ClientSession_inv (snd (session_step s x))"
    using inv ops by (cases x) simp_all
  show "session_post (session_abs s) x (fst (session_step s x)) (session_abs (snd (session_step s x)))"
  proof (cases x)
    case (SessionAccepts c f)
    then show ?thesis
      using binding_accepts_spec [OF inv]
      by (simp add: session_abs_def session_queries ClientSession_ChannelAccepts_def split: option.splits)
  next
    case (SessionHoldsReliable i)
    then show ?thesis
      using session_ran [OF inv] by (auto simp: session_abs_def ClientSession_HoldsReliable_def list_ex_iff)
  next
    case SessionHoldsChannels
    then show ?thesis
      using bindings.dom_keys [of "cs_bindings s"]
      by (auto simp: session_abs_def session_map_def ClientSession_HoldsChannels_def list_ex_iff)
  qed (use ops InterfaceForChannel_spec [OF inv] ChannelForInterface_spec [OF inv] in
      \<open>simp_all add: session_abs_def session_queries ClientSession_ChannelAccepts_def
         ClientSession_CanWrite_def ClientSession_ChannelReliable_def del: session_post.simps(1)\<close>)
qed

lemma ClientSession_Reset_inv: "ClientSession_inv ClientSession_Reset"
  using zero_filters by (simp add: ClientSession_inv_def ClientSession_Reset_def)

section \<open>Properties\<close>

text \<open>
  C17.  Whatever sequence of calls a session has served, each call does to its channels what
  it does on a map from channel numbers to bindings.  \<open>OPEN\<close> succeeds exactly while fewer
  than 32 channels are open, on the first unused number from the session's counter on, with
  no filters or counts of an earlier binding of that slot; closing forgets the channel alone;
  an agent's loss makes its bindings dormant and its return revives those of the same names
  under the new interface id, keeping channel number and filters; a dormant channel names no
  interface; and a frame is accepted exactly when the binding's filters accept it.
\<close>

theorem ClientSession_contract:
  "let s = snd (run session_step ClientSession_Reset ops); (r, s') = session_step s x
   in session_post (session_abs s) x r (session_abs s')"
  using session.reachable_post [OF ClientSession_Reset_inv, of ops x] by (simp add: Let_def split_def)

end
