(* ===== verification/EchoTokens.thy ===== *)
theory EchoTokens
  imports SlotTable FrameMessage
begin

text \<open>
  Echo attribution (\<open>hub/domain/echo_tokens.c\<close>).  Each agent has a table of 63 tokens
  naming the clients that inject through it; a frame that comes back as an echo carries
  its token in the upper bits of the route flags.  Peer ids are 32-bit words with 0 for
  nobody, the token is an 8-bit word, \<open>next_index\<close> a natural number below 63.
\<close>

section \<open>The token table\<close>

abbreviation (input) FRAME_ROUTE_FLAG_ECHO :: u8 where "FRAME_ROUTE_FLAG_ECHO \<equiv> 2"

abbreviation (input) FRAME_ROUTE_TOKEN_SHIFT :: nat where "FRAME_ROUTE_TOKEN_SHIFT \<equiv> 2"

abbreviation (input) FRAME_ROUTE_TOKEN_MASK :: u8 where "FRAME_ROUTE_TOKEN_MASK \<equiv> 0xFC"

abbreviation (input) FRAME_ROUTE_NO_TOKEN :: u8 where "FRAME_ROUTE_NO_TOKEN \<equiv> 0"

abbreviation (input) FRAME_ROUTE_TOKEN_VALUES_MAX :: nat where "FRAME_ROUTE_TOKEN_VALUES_MAX \<equiv> 63"

abbreviation (input) ECHO_TOKENS_BRIDGE_OWNER :: u32 where "ECHO_TOKENS_BRIDGE_OWNER \<equiv> 0xFFFFFFFF"

abbreviation (input) NO_OWNER :: u32 where "NO_OWNER \<equiv> 0"

record EchoTokens =
  et_owner_peer_ids :: "u32 list"
  et_next_index :: nat

definition EchoTokens_Reset :: EchoTokens where
  "EchoTokens_Reset = \<lparr>et_owner_peer_ids = replicate FRAME_ROUTE_TOKEN_VALUES_MAX NO_OWNER, et_next_index = 0\<rparr>"

definition findOwnerIndex :: "EchoTokens \<Rightarrow> u32 \<Rightarrow> nat option" where
  "findOwnerIndex self client_peer_id = find_index (\<lambda>owner. owner = client_peer_id) (et_owner_peer_ids self)"

definition claimFreeIndex :: "EchoTokens \<Rightarrow> nat option \<times> EchoTokens" where
  "claimFreeIndex self =
     (case find (\<lambda>candidate. et_owner_peer_ids self ! candidate = NO_OWNER)
         (map (\<lambda>i. (et_next_index self + i) mod FRAME_ROUTE_TOKEN_VALUES_MAX) [0..<FRAME_ROUTE_TOKEN_VALUES_MAX]) of
        Some candidate \<Rightarrow>
          (Some candidate, self\<lparr>et_next_index := (candidate + 1) mod FRAME_ROUTE_TOKEN_VALUES_MAX\<rparr>)
      | None \<Rightarrow> (None, self))"

definition isTokenValid :: "u8 \<Rightarrow> bool" where
  "isTokenValid token \<longleftrightarrow> token \<noteq> FRAME_ROUTE_NO_TOKEN \<and> unat token \<le> FRAME_ROUTE_TOKEN_VALUES_MAX"

definition EchoTokens_Issue :: "EchoTokens \<Rightarrow> u32 \<Rightarrow> u8 \<times> EchoTokens" where
  "EchoTokens_Issue self client_peer_id =
     (if client_peer_id = NO_OWNER then (FRAME_ROUTE_NO_TOKEN, self)
      else case findOwnerIndex self client_peer_id of
        Some index \<Rightarrow> (of_nat (index + 1), self)
      | None \<Rightarrow>
          (case claimFreeIndex self of
             (None, self) \<Rightarrow> (FRAME_ROUTE_NO_TOKEN, self)
           | (Some index, self) \<Rightarrow>
               (of_nat (index + 1), self\<lparr>et_owner_peer_ids := (et_owner_peer_ids self)[index := client_peer_id]\<rparr>)))"

definition EchoTokens_Originator :: "EchoTokens \<Rightarrow> u8 \<Rightarrow> u32" where
  "EchoTokens_Originator self route_flags =
     (let token = drop_bit FRAME_ROUTE_TOKEN_SHIFT (route_flags AND FRAME_ROUTE_TOKEN_MASK)
      in if route_flags AND FRAME_ROUTE_FLAG_ECHO = 0 then NO_OWNER
         else if \<not> isTokenValid token then NO_OWNER
         else et_owner_peer_ids self ! (unat token - 1))"

definition EchoTokens_ReleaseClient :: "EchoTokens \<Rightarrow> u32 \<Rightarrow> EchoTokens" where
  "EchoTokens_ReleaseClient self client_peer_id =
     (case findOwnerIndex self client_peer_id of
        Some index \<Rightarrow> self\<lparr>et_owner_peer_ids := (et_owner_peer_ids self)[index := NO_OWNER]\<rparr>
      | None \<Rightarrow> self)"

section \<open>The table as a map from token indices to owners\<close>

definition owner_map :: "EchoTokens \<Rightarrow> nat \<Rightarrow> u32 option" where
  "owner_map self i =
     (if i < FRAME_ROUTE_TOKEN_VALUES_MAX \<and> et_owner_peer_ids self ! i \<noteq> NO_OWNER
      then Some (et_owner_peer_ids self ! i) else None)"

definition EchoTokens_inv :: "EchoTokens \<Rightarrow> bool" where
  "EchoTokens_inv self \<longleftrightarrow> length (et_owner_peer_ids self) = FRAME_ROUTE_TOKEN_VALUES_MAX \<and>
     slots_distinct (\<lambda>owner. owner \<noteq> NO_OWNER) id (et_owner_peer_ids self)"

datatype EchoOp = EchoIssue u32 | EchoRelease u32 | EchoOriginator u8

datatype EchoResult = EchoToken u8 | EchoOwner u32 | EchoDone

fun echo_step :: "EchoTokens \<Rightarrow> EchoOp \<Rightarrow> EchoResult \<times> EchoTokens" where
  "echo_step s (EchoIssue c) = apfst EchoToken (EchoTokens_Issue s c)"
| "echo_step s (EchoRelease c) = (EchoDone, EchoTokens_ReleaseClient s c)"
| "echo_step s (EchoOriginator f) = (EchoOwner (EchoTokens_Originator s f), s)"

type_synonym echo_table = "(nat \<Rightarrow> u32 option) \<times> nat"

definition echo_abs :: "EchoTokens \<Rightarrow> echo_table" where
  "echo_abs s = (owner_map s, et_next_index s)"

fun echo_post :: "echo_table \<Rightarrow> EchoOp \<Rightarrow> EchoResult \<Rightarrow> echo_table \<Rightarrow> bool" where
  "echo_post (m, n) (EchoIssue c) r (m', n') =
     (if c = 0 \<or> (c \<notin> ran m \<and> dom m = {..<63}) then r = EchoToken 0 \<and> m' = m \<and> n' = n
      else if c \<in> ran m then (\<exists>i < 63. m i = Some c \<and> r = EchoToken (of_nat (i + 1)) \<and> m' = m \<and> n' = n)
      else (\<exists>k < 63. let i = (n + k) mod 63
              in r = EchoToken (of_nat (i + 1)) \<and> m i = None \<and> (\<forall>j < k. m ((n + j) mod 63) \<noteq> None) \<and>
                 m' = m(i \<mapsto> c) \<and> n' = (i + 1) mod 63))"
| "echo_post (m, n) (EchoRelease c) r (m', n') =
     (r = EchoDone \<and> m' = (\<lambda>i. if m i = Some c then None else m i) \<and> n' = n)"
| "echo_post (m, n) (EchoOriginator f) r (m', n') =
     (r = EchoOwner
        (if bit f 1 \<and> 4 \<le> unat f then case m (unat f div 4 - 1) of Some c \<Rightarrow> c | None \<Rightarrow> 0 else 0) \<and>
      m' = m \<and> n' = n)"

interpretation owners: slot_table "\<lambda>owner :: u32. owner \<noteq> NO_OWNER" id NO_OWNER
  by unfold_locales simp

lemma owner_unique:
  assumes "EchoTokens_inv s" and "owner_map s i = Some c" and "owner_map s j = Some c"
  shows "i = j"
  using assms unfolding EchoTokens_inv_def owners.distinct_iff owner_map_def by (auto split: if_splits)

lemma findOwnerIndex_map:
  assumes "EchoTokens_inv s" and "c \<noteq> 0"
  shows "findOwnerIndex s c = Some i \<longleftrightarrow> owner_map s i = Some c"
proof
  assume "findOwnerIndex s c = Some i"
  then show "owner_map s i = Some c"
    using find_index_SomeD assms unfolding findOwnerIndex_def owner_map_def EchoTokens_inv_def by fastforce
next
  assume owned: "owner_map s i = Some c"
  show "findOwnerIndex s c = Some i"
    unfolding findOwnerIndex_def
  proof (rule find_index_unique)
    show "i < length (et_owner_peer_ids s)" and "et_owner_peer_ids s ! i = c"
      using owned assms(1) by (simp_all add: owner_map_def EchoTokens_inv_def split: if_splits)
    fix j
    assume "j < length (et_owner_peer_ids s)" and "et_owner_peer_ids s ! j = c"
    then have "owner_map s j = Some c"
      using assms by (simp add: owner_map_def EchoTokens_inv_def)
    then show "j = i"
      using owner_unique [OF assms(1)] owned by blast
  qed
qed

lemma findOwnerIndex_None:
  assumes "EchoTokens_inv s" and "c \<noteq> 0"
  shows "findOwnerIndex s c = None \<longleftrightarrow> c \<notin> ran (owner_map s)"
  using findOwnerIndex_map [OF assms] by (cases "findOwnerIndex s c") (auto simp: ran_def)

lemma owner_map_store:
  "length (et_owner_peer_ids s) = 63 \<Longrightarrow> i < 63 \<Longrightarrow>
   owner_map (s\<lparr>et_owner_peer_ids := (et_owner_peer_ids s)[i := c]\<rparr>) =
     (owner_map s)(i := if c = 0 then None else Some c)"
  by (auto simp: owner_map_def fun_eq_iff nth_list_update)

lemma owner_map_next [simp]: "owner_map (s\<lparr>et_next_index := n\<rparr>) = owner_map s"
  by (simp add: owner_map_def fun_eq_iff)

lemma find_index_map: "find_index P (map f xs) = find_index (\<lambda>x. P (f x)) xs"
  by (induction xs) auto

lemma claimFreeIndex_scan:
  "claimFreeIndex s = (None, s) \<and> (\<forall>k < 63. owner_map s ((et_next_index s + k) mod 63) \<noteq> None) \<or>
   (\<exists>k < 63. let i = (et_next_index s + k) mod 63
      in claimFreeIndex s = (Some i, s\<lparr>et_next_index := (i + 1) mod 63\<rparr>) \<and> owner_map s i = None \<and>
         (\<forall>j < k. owner_map s ((et_next_index s + j) mod 63) \<noteq> None))"
proof (cases "find_index (\<lambda>k. et_owner_peer_ids s ! ((et_next_index s + k) mod 63) = 0) [0..<63]")
  case None
  then show ?thesis
    using None [unfolded find_index_None]
    by (simp add: claimFreeIndex_def find_index_find find_index_map owner_map_def del: upt_rec_numeral)
next
  case (Some k)
  have "k < 63" "et_owner_peer_ids s ! ((et_next_index s + k) mod 63) = 0"
      "\<And>j. j < k \<Longrightarrow> et_owner_peer_ids s ! ((et_next_index s + j) mod 63) \<noteq> 0"
    using Some [unfolded find_index_Some] by (auto simp del: upt_rec_numeral)
  then show ?thesis
    using Some by (intro disjI2 exI [of _ k])
      (simp add: claimFreeIndex_def find_index_find find_index_map owner_map_def del: upt_rec_numeral)
qed

lemma cyclic_covers:
  assumes "i < (63 :: nat)"
  shows "\<exists>k < 63. (n + k) mod 63 = i"
proof -
  define q r where "q = n div 63" and "r = n mod 63"
  have r: "r < 63" and n: "n = 63 * q + r"
    by (simp_all add: q_def r_def)
  define k where "k = (if r \<le> i then i - r else i + 63 - r)"
  have "\<exists>p. n + k = i + 63 * p" and "k < 63"
    using r assms by (auto simp: n k_def intro: exI [of _ q] exI [of _ "Suc q"])
  then show ?thesis
    using assms by (intro exI [of _ k]) (auto simp: mod_mult_self2)
qed

lemma all_owned: "(\<forall>k < 63. owner_map s ((n + k) mod 63) \<noteq> None) \<longleftrightarrow> dom (owner_map s) = {..<63}"
proof
  assume "\<forall>k < 63. owner_map s ((n + k) mod 63) \<noteq> None"
  then have "owner_map s i \<noteq> None" if "i < 63" for i
    using cyclic_covers [OF that, of n] by metis
  then show "dom (owner_map s) = {..<63}"
    by (auto simp: owner_map_def split: if_splits)
next
  assume all: "dom (owner_map s) = {..<63}"
  have "(n + k) mod 63 \<in> dom (owner_map s)" for k
    unfolding all by simp
  then show "\<forall>k < 63. owner_map s ((n + k) mod 63) \<noteq> None"
    by (simp add: domIff del: not_None_eq)
qed

lemma Issue_spec:
  assumes inv: "EchoTokens_inv s"
  shows "EchoTokens_inv (snd (EchoTokens_Issue s c)) \<and>
    echo_post (echo_abs s) (EchoIssue c) (EchoToken (fst (EchoTokens_Issue s c))) (echo_abs (snd (EchoTokens_Issue s c)))"
proof (cases "c = 0")
  case True
  then show ?thesis
    using inv by (simp add: EchoTokens_Issue_def echo_abs_def)
next
  case c: False
  show ?thesis
  proof (cases "findOwnerIndex s c")
    case (Some i)
    then have "owner_map s i = Some c"
      using findOwnerIndex_map [OF inv c] by simp
    then show ?thesis
      using Some c inv findOwnerIndex_None [OF inv c]
      by (auto simp: EchoTokens_Issue_def echo_abs_def owner_map_def intro!: exI [of _ i] split: if_splits)
  next
    case None
    then have new: "c \<notin> ran (owner_map s)"
      using findOwnerIndex_None [OF inv c] by simp
    show ?thesis
      using claimFreeIndex_scan [of s]
    proof (elim disjE exE conjE)
      assume "claimFreeIndex s = (None, s)" and "\<forall>k < 63. owner_map s ((et_next_index s + k) mod 63) \<noteq> None"
      then show ?thesis
        using None c inv new all_owned [of s "et_next_index s"]
        by (simp add: EchoTokens_Issue_def echo_abs_def)
    next
      fix k
      let ?i = "(et_next_index s + k) mod 63"
      let ?s = "s\<lparr>et_owner_peer_ids := (et_owner_peer_ids s)[?i := c]\<rparr>"
      assume k: "k < 63" and scan: "let i = ?i
        in claimFreeIndex s = (Some i, s\<lparr>et_next_index := (i + 1) mod 63\<rparr>) \<and> owner_map s i = None \<and>
           (\<forall>j < k. owner_map s ((et_next_index s + j) mod 63) \<noteq> None)"
      then have issued: "EchoTokens_Issue s c = (of_nat (?i + 1), ?s\<lparr>et_next_index := (?i + 1) mod 63\<rparr>)"
        using None c by (simp add: EchoTokens_Issue_def Let_def)
      have len: "length (et_owner_peer_ids s) = 63"
        using inv by (simp add: EchoTokens_inv_def)
      have "et_owner_peer_ids s ! j \<noteq> c" if "j < 63" for j
        using ranI [of "owner_map s" j c] new c that by (auto simp: owner_map_def)
      then have "slots_distinct (\<lambda>owner. owner \<noteq> NO_OWNER) id ((et_owner_peer_ids s)[?i := c])"
        using inv len by (intro owners.distinct_store) (auto simp: EchoTokens_inv_def)
      moreover have "dom (owner_map s) \<noteq> {..<63}"
        using scan by (auto simp: Let_def dom_def set_eq_iff intro!: exI [of _ ?i])
      ultimately show ?thesis
        using c new k scan len owner_map_store [OF len, of ?i c]
        by (auto simp: issued EchoTokens_inv_def echo_abs_def Let_def intro!: exI [of _ k])
    qed
  qed
qed

lemma Release_spec:
  assumes inv: "EchoTokens_inv s"
  shows "EchoTokens_inv (EchoTokens_ReleaseClient s c) \<and>
    echo_post (echo_abs s) (EchoRelease c) EchoDone (echo_abs (EchoTokens_ReleaseClient s c))"
proof (cases "findOwnerIndex s c")
  case None
  have "owner_map s i \<noteq> Some c" for i
    using None [unfolded findOwnerIndex_def, THEN find_index_NoneD, of i] inv
    by (simp add: owner_map_def EchoTokens_inv_def)
  then show ?thesis
    using None inv by (simp add: EchoTokens_ReleaseClient_def echo_abs_def fun_eq_iff)
next
  case (Some i)
  have len: "length (et_owner_peer_ids s) = 63" and i: "i < 63" "et_owner_peer_ids s ! i = c"
    using inv find_index_SomeD [OF Some [unfolded findOwnerIndex_def]] by (simp_all add: EchoTokens_inv_def)
  have "slots_distinct (\<lambda>owner. owner \<noteq> NO_OWNER) id ((et_owner_peer_ids s)[i := NO_OWNER])"
    using inv by (intro owners.distinct_store) (simp_all add: EchoTokens_inv_def)
  moreover have "owner_map (EchoTokens_ReleaseClient s c) = (owner_map s)(i := None)"
    using Some owner_map_store [OF len i(1), of 0] by (simp add: EchoTokens_ReleaseClient_def)
  moreover have "(owner_map s)(i := None) = (\<lambda>j. if owner_map s j = Some c then None else owner_map s j)"
  proof (rule ext)
    fix j
    have "owner_map s j = Some c \<Longrightarrow> owner_map s i = Some c" and "owner_map s i = None \<or> owner_map s i = Some c"
      using i by (auto simp: owner_map_def split: if_splits)
    then show "((owner_map s)(i := None)) j = (if owner_map s j = Some c then None else owner_map s j)"
      using owner_unique [OF inv, of j c i] by (cases "j = i") auto
  qed
  ultimately show ?thesis
    using Some len by (simp add: EchoTokens_inv_def echo_abs_def EchoTokens_ReleaseClient_def)
qed

lemma route_token:
  "drop_bit FRAME_ROUTE_TOKEN_SHIFT (f AND FRAME_ROUTE_TOKEN_MASK) = drop_bit 2 (f :: u8)"
proof (rule bit_word_eqI)
  have mask: "FRAME_ROUTE_TOKEN_MASK = push_bit 2 (mask 6)"
    by (simp add: mask_eq_exp_minus_1 push_bit_eq_mult)
  show "bit (drop_bit FRAME_ROUTE_TOKEN_SHIFT (f AND FRAME_ROUTE_TOKEN_MASK)) n \<longleftrightarrow> bit (drop_bit 2 f) n"
    if "n < LENGTH(8)" for n
    unfolding mask using bit_imp_le_length [of f "n + 2"]
    by (auto simp: bit_simps add.commute)
qed

lemma echo_flag: "f AND FRAME_ROUTE_FLAG_ECHO = 0 \<longleftrightarrow> \<not> bit f 1"
  using and_exp_eq_0_iff_not_bit [of f 1] by simp

lemma Originator_map:
  assumes "EchoTokens_inv s"
  shows "EchoTokens_Originator s f =
     (if bit f 1 \<and> 4 \<le> unat f then case owner_map s (unat f div 4 - 1) of Some c \<Rightarrow> c | None \<Rightarrow> 0 else 0)"
proof -
  have tok: "unat (drop_bit 2 f) = unat f div 4"
    by (simp add: unat_drop_bit_eq drop_bit_nat_def)
  have "unat f \<le> 255"
    using unat_u8_less [of f] by linarith
  then have bound: "unat f div 4 \<le> 63"
    using div_le_mono [of "unat f" 255 4] by simp
  have "drop_bit 2 f = 0 \<longleftrightarrow> unat f div 4 = 0"
    by (metis tok unat_eq_zero)
  then have "isTokenValid (drop_bit 2 f) \<longleftrightarrow> 4 \<le> unat f"
    by (auto simp: isTokenValid_def tok bound div_eq_0_iff)
  moreover have "owner_map s i = (if et_owner_peer_ids s ! i = 0 then None else Some (et_owner_peer_ids s ! i))"
    if "i = unat f div 4 - 1" for i
    using bound that by (auto simp: owner_map_def)
  ultimately show ?thesis
    unfolding EchoTokens_Originator_def Let_def route_token echo_flag by (auto simp: tok)
qed

interpretation echo: contract echo_step EchoTokens_inv echo_post echo_abs
proof unfold_locales
  fix s x
  assume inv: "EchoTokens_inv s"
  show "EchoTokens_inv (snd (echo_step s x))"
    using inv Issue_spec [OF inv] Release_spec [OF inv] by (cases x) simp_all
  show "echo_post (echo_abs s) x (fst (echo_step s x)) (echo_abs (snd (echo_step s x)))"
    using Issue_spec [OF inv] Release_spec [OF inv] Originator_map [OF inv]
    by (cases x) (simp_all add: echo_abs_def del: echo_post.simps(1,2))
qed

lemma EchoTokens_Reset_inv: "EchoTokens_inv EchoTokens_Reset"
  using owners.distinct_empty [of 63] by (simp add: EchoTokens_inv_def EchoTokens_Reset_def)

text \<open>A token stays with its owner until the owner is released.\<close>

lemma echo_post_keeps: "echo_post (m, n) x r (m', n') \<Longrightarrow> x \<noteq> EchoRelease c \<Longrightarrow> m i = Some c \<Longrightarrow> m' i = Some c"
  by (cases x) (auto simp: Let_def split: if_splits)

lemma owner_kept:
  assumes "EchoTokens_inv s" and "EchoRelease c \<notin> set ops" and "owner_map s i = Some c"
  shows "owner_map (snd (run echo_step s ops)) i = Some c"
  using assms
proof (induction ops arbitrary: s)
  case (Cons x ops)
  have "owner_map (snd (echo_step s x)) i = Some c"
    by (rule echo_post_keeps [OF echo.step_post [OF Cons.prems(1), of x, unfolded echo_abs_def]])
      (use Cons.prems(2,3) in auto)
  then show ?case
    using Cons echo.step_inv [OF Cons.prems(1), of x] by simp
qed simp

lemma issued_owner:
  assumes "EchoTokens_inv s" and "fst (EchoTokens_Issue s c) = t" and "t \<noteq> FRAME_ROUTE_NO_TOKEN"
  shows "owner_map (snd (EchoTokens_Issue s c)) (unat t - 1) = Some c \<and> 0 < unat t \<and> unat t < 64"
proof -
  have "unat (of_nat (Suc i) :: u8) = Suc i" if "i < 63" for i :: nat
    using that by (subst unat_of_nat) simp
  then have "unat (1 + of_nat i :: u8) = Suc i" if "i < 63" for i :: nat
    using that by simp
  then show ?thesis
    using Issue_spec [OF assms(1), of c] assms(2,3)
    by (auto simp: echo_abs_def Let_def split: if_splits)
qed

lemma flags_of_token:
  fixes t :: u8
  assumes "unat t < 64"
  shows "unat (FRAME_ROUTE_FLAG_ECHO OR push_bit FRAME_ROUTE_TOKEN_SHIFT t) div 4 = unat t \<and>
    bit (FRAME_ROUTE_FLAG_ECHO OR push_bit FRAME_ROUTE_TOKEN_SHIFT t) 1"
proof -
  let ?f = "FRAME_ROUTE_FLAG_ECHO OR push_bit FRAME_ROUTE_TOKEN_SHIFT t"
  have two: "FRAME_ROUTE_FLAG_ECHO = push_bit 1 1"
    by (simp add: push_bit_eq_mult)
  have flag: "bit FRAME_ROUTE_FLAG_ECHO n \<longleftrightarrow> n = 1" for n
    by (subst two) (auto simp: bit_simps)
  have "take_bit 6 t = t"
    using assms by (simp add: word_unat_eq_iff unsigned_take_bit_eq take_bit_nat_eq_self)
  then have small: "bit t n \<Longrightarrow> n < 6" for n
    by (metis bit_take_bit_iff)
  have "drop_bit 2 ?f = t"
    by (rule bit_word_eqI) (use small in \<open>auto simp: flag bit_simps\<close>)
  then have "unat ?f div 4 = unat t"
    using unat_drop_bit_eq [of 2 ?f] by (simp add: drop_bit_nat_def)
  then show ?thesis
    by (simp add: flag bit_simps)
qed

section \<open>Properties\<close>

text \<open>
  C14.  In every state the table can reach, a call does what it does on a map from token
  indices to owners: a client that has a token gets the same one again, a new client gets
  the first free one from the rotating cursor on, and none exactly when all 63 are owned;
  releasing a client frees its token alone; an echo names the owner of its token and any
  other frame names nobody.
\<close>

theorem EchoTokens_contract:
  "let s = snd (run echo_step EchoTokens_Reset ops); (r, s') = echo_step s x
   in echo_post (echo_abs s) x r (echo_abs s')"
  using echo.reachable_post [OF EchoTokens_Reset_inv, of ops x] by (simp add: Let_def split_def)

text \<open>
  C9.  Echoes are attributed to the writer: once a client has been issued a token, an echo
  with that token resolves to this client after any calls in between, for whatever other
  clients, until the client itself is released.
\<close>

theorem EchoTokens_attribution:
  assumes "echo_step (snd (run echo_step EchoTokens_Reset before)) (EchoIssue c) = (EchoToken t, s)"
    and "t \<noteq> FRAME_ROUTE_NO_TOKEN" and "EchoRelease c \<notin> set between"
  shows "EchoTokens_Originator (snd (run echo_step s between))
    (FRAME_ROUTE_FLAG_ECHO OR push_bit FRAME_ROUTE_TOKEN_SHIFT t) = c"
proof -
  let ?s = "snd (run echo_step EchoTokens_Reset before)"
  let ?f = "FRAME_ROUTE_FLAG_ECHO OR push_bit FRAME_ROUTE_TOKEN_SHIFT t"
  have inv: "EchoTokens_inv ?s"
    by (rule echo.run_inv [OF EchoTokens_Reset_inv])
  have issued: "EchoTokens_Issue ?s c = (t, s)"
    using assms(1) by (simp add: apfst_def map_prod_def split: prod.splits)
  note owned = issued_owner [OF inv, of c t, unfolded issued fst_conv snd_conv, OF refl assms(2)]
  have inv': "EchoTokens_inv s"
    using Issue_spec [OF inv, of c] issued by simp
  have "unat ?f div 4 = unat t \<and> bit ?f 1"
    by (rule flags_of_token) (use owned in simp)
  then show ?thesis
    using owner_kept [OF inv' assms(3)] owned echo.run_inv [OF inv', of between]
    by (auto simp: Originator_map)
qed

theorem EchoTokens_attribution_witness:
  "echo_step (snd (run echo_step EchoTokens_Reset [EchoIssue 7])) (EchoIssue 9) =
     (EchoToken 2, \<lparr>et_owner_peer_ids = 7 # 9 # replicate 61 0, et_next_index = 2\<rparr>) \<and>
   (2 :: u8) \<noteq> FRAME_ROUTE_NO_TOKEN \<and> EchoRelease 9 \<notin> set [EchoRelease 7, EchoIssue 5] \<and>
   EchoTokens_Originator
     (snd (run echo_step \<lparr>et_owner_peer_ids = 7 # 9 # replicate 61 0, et_next_index = 2\<rparr> [EchoRelease 7, EchoIssue 5]))
     (FRAME_ROUTE_FLAG_ECHO OR push_bit FRAME_ROUTE_TOKEN_SHIFT 2) = 9"
proof -
  let ?t = "\<lparr>et_owner_peer_ids = 7 # 9 # replicate 61 0, et_next_index = 2\<rparr>"
  have "echo_step (snd (run echo_step EchoTokens_Reset [EchoIssue 7])) (EchoIssue 9) = (EchoToken 2, ?t)"
    by code_simp
  moreover have "(2 :: u8) \<noteq> FRAME_ROUTE_NO_TOKEN"
    by simp
  moreover have "EchoRelease 9 \<notin> set [EchoRelease 7, EchoIssue 5]"
    by simp
  ultimately show ?thesis
    using EchoTokens_attribution by blast
qed

end
