(* ===== verification/EgressQueue.thy ===== *)
theory EgressQueue
  imports FrameMessage
begin

text \<open>
  The per-peer pool of parked frames (\<open>hub/domain/egress_queue.c\<close>): 512 slots threaded
  into a free list and one list per channel through their \<open>next\<close> fields, which are slot
  indices with 0xFFFF for the end.  The slots, channel lists and counters are the arrays
  and fields of the struct; 16-bit counters are natural numbers with the wrap written out.
  The pool is shown to be 256 bounded first-in first-out queues over a shared capacity.
\<close>

section \<open>The pool\<close>

abbreviation (input) EGRESS_QUEUE_SLOTS_MAX :: nat where "EGRESS_QUEUE_SLOTS_MAX \<equiv> 512"

abbreviation (input) EGRESS_QUEUE_CHANNEL_CAP :: nat where "EGRESS_QUEUE_CHANNEL_CAP \<equiv> 64"

abbreviation (input) EGRESS_QUEUE_CHANNELS_MAX :: nat where "EGRESS_QUEUE_CHANNELS_MAX \<equiv> 256"

abbreviation (input) EGRESS_FRAME_BYTES_MAX :: nat where "EGRESS_FRAME_BYTES_MAX \<equiv> MESSAGE_HEADER_SIZE + FRAME_FIXED_FIELDS_SIZE + FRAME_PAYLOAD_MAX_FD"

abbreviation (input) EGRESS_SLOT_NIL :: nat where "EGRESS_SLOT_NIL \<equiv> 0xFFFF"

datatype TEGRESS_PUSH_RESULT = kEGRESS_PUSH_QUEUED | kEGRESS_PUSH_EVICTED_SELF | kEGRESS_PUSH_EVICTED_OTHER

record EgressSlot =
  sl_data :: bytes
  sl_enqueued_us :: nat
  sl_size :: nat
  sl_channel :: u8
  sl_next :: nat

record EgressChannelList =
  cl_head :: nat
  cl_tail :: nat
  cl_count :: nat

record EgressQueue =
  eq_slots :: "EgressSlot list"
  eq_channels :: "EgressChannelList list"
  eq_free_head :: nat
  eq_used :: nat
  eq_cursor :: nat

definition EgressQueue_Reset :: EgressQueue where
  "EgressQueue_Reset =
     \<lparr>eq_slots = (map (\<lambda>i. \<lparr>sl_data = replicate EGRESS_FRAME_BYTES_MAX 0, sl_enqueued_us = 0, sl_size = 0,
         sl_channel = 0, sl_next = if i = EGRESS_QUEUE_SLOTS_MAX - 1 then EGRESS_SLOT_NIL else i + 1\<rparr>)
         [0..<EGRESS_QUEUE_SLOTS_MAX]),
      eq_channels = replicate EGRESS_QUEUE_CHANNELS_MAX
        \<lparr>cl_head = EGRESS_SLOT_NIL, cl_tail = EGRESS_SLOT_NIL, cl_count = 0\<rparr>,
      eq_free_head = 0, eq_used = 0, eq_cursor = 0\<rparr>"

definition popChannelHead :: "EgressQueue \<Rightarrow> u8 \<Rightarrow> nat \<times> EgressQueue" where
  "popChannelHead self channel =
     (let l = eq_channels self ! unat channel;
          slot = cl_head l;
          l = l\<lparr>cl_head := sl_next (eq_slots self ! slot)\<rparr>;
          l = (if cl_head l = EGRESS_SLOT_NIL then l\<lparr>cl_tail := EGRESS_SLOT_NIL\<rparr> else l);
          l = l\<lparr>cl_count := wrap_dec 16 (cl_count l)\<rparr>
      in (slot, self\<lparr>eq_channels := (eq_channels self)[unat channel := l]\<rparr>))"

definition set_next :: "nat \<Rightarrow> nat \<Rightarrow> EgressSlot list \<Rightarrow> EgressSlot list" where
  "set_next i n slots = slots[i := (slots ! i)\<lparr>sl_next := n\<rparr>]"

definition appendChannelTail :: "EgressQueue \<Rightarrow> u8 \<Rightarrow> nat \<Rightarrow> EgressQueue" where
  "appendChannelTail self channel slot =
     (let slots = set_next slot EGRESS_SLOT_NIL (eq_slots self);
          l = eq_channels self ! unat channel;
          (slots, l) = (if cl_tail l = EGRESS_SLOT_NIL then (slots, l\<lparr>cl_head := slot\<rparr>)
                        else (set_next (cl_tail l) slot slots, l));
          l = l\<lparr>cl_tail := slot, cl_count := wrap 16 (cl_count l + 1)\<rparr>
      in self\<lparr>eq_slots := slots, eq_channels := (eq_channels self)[unat channel := l]\<rparr>)"

fun fullest_scan :: "EgressChannelList list \<Rightarrow> nat \<Rightarrow> nat \<Rightarrow> nat \<Rightarrow> nat" where
  "fullest_scan [] i best best_count = best"
| "fullest_scan (l # ls) i best best_count =
     (if cl_count l > best_count then fullest_scan ls (i + 1) i (cl_count l)
      else fullest_scan ls (i + 1) best best_count)"

definition fullestChannel :: "EgressQueue \<Rightarrow> u8" where
  "fullestChannel self = of_nat (fullest_scan (eq_channels self) 0 0 0)"

definition fillSlot :: "EgressSlot \<Rightarrow> u8 \<Rightarrow> bytes \<Rightarrow> nat \<Rightarrow> nat \<Rightarrow> EgressSlot" where
  "fillSlot slot channel data sz now_us =
     slot\<lparr>sl_channel := channel, sl_size := sz, sl_enqueued_us := now_us, sl_data := array_copy sz data (sl_data slot)\<rparr>"

definition fill_at :: "nat \<Rightarrow> u8 \<Rightarrow> bytes \<Rightarrow> nat \<Rightarrow> nat \<Rightarrow> EgressQueue \<Rightarrow> EgressQueue" where
  "fill_at i channel data sz now_us self =
     self\<lparr>eq_slots := (eq_slots self)[i := fillSlot (eq_slots self ! i) channel data sz now_us]\<rparr>"

text \<open>The second component is the evicted channel, when the call reports one.\<close>

definition EgressQueue_Push ::
    "EgressQueue \<Rightarrow> u8 \<Rightarrow> bytes \<Rightarrow> nat \<Rightarrow> nat \<Rightarrow> (TEGRESS_PUSH_RESULT \<times> u8 option) \<times> EgressQueue" where
  "EgressQueue_Push self channel data sz now_us =
     (if EGRESS_FRAME_BYTES_MAX < sz then ((kEGRESS_PUSH_QUEUED, None), self)
      else if EGRESS_QUEUE_CHANNEL_CAP \<le> cl_count (eq_channels self ! unat channel) then
        let (slot, self) = popChannelHead self channel;
            self = fill_at slot channel data sz now_us self
        in ((kEGRESS_PUSH_EVICTED_SELF, Some channel), appendChannelTail self channel slot)
      else if eq_free_head self \<noteq> EGRESS_SLOT_NIL then
        let slot = eq_free_head self;
            self = self\<lparr>eq_free_head := sl_next (eq_slots self ! slot), eq_used := wrap 16 (eq_used self + 1)\<rparr>;
            self = fill_at slot channel data sz now_us self
        in ((kEGRESS_PUSH_QUEUED, None), appendChannelTail self channel slot)
      else
        let bully = fullestChannel self;
            (slot, self) = popChannelHead self bully;
            self = fill_at slot channel data sz now_us self
        in ((kEGRESS_PUSH_EVICTED_OTHER, Some bully), appendChannelTail self channel slot))"

definition EgressQueue_HasPending :: "EgressQueue \<Rightarrow> bool" where
  "EgressQueue_HasPending self \<longleftrightarrow> eq_used self > 0"

definition EgressQueue_ChannelPending :: "EgressQueue \<Rightarrow> u8 \<Rightarrow> bool" where
  "EgressQueue_ChannelPending self channel \<longleftrightarrow> cl_count (eq_channels self ! unat channel) > 0"

definition EgressQueue_FrontOfChannel :: "EgressQueue \<Rightarrow> u8 \<Rightarrow> (bytes \<times> nat) option" where
  "EgressQueue_FrontOfChannel self channel =
     (let head = cl_head (eq_channels self ! unat channel)
      in if head = EGRESS_SLOT_NIL then None
         else Some (sl_data (eq_slots self ! head), sl_size (eq_slots self ! head)))"

definition EgressQueue_FrontEnqueuedUs :: "EgressQueue \<Rightarrow> u8 \<Rightarrow> nat" where
  "EgressQueue_FrontEnqueuedUs self channel =
     (let head = cl_head (eq_channels self ! unat channel)
      in if head = EGRESS_SLOT_NIL then 0 else sl_enqueued_us (eq_slots self ! head))"

definition EgressQueue_PopChannel :: "EgressQueue \<Rightarrow> u8 \<Rightarrow> EgressQueue" where
  "EgressQueue_PopChannel self channel =
     (if cl_head (eq_channels self ! unat channel) = EGRESS_SLOT_NIL then self
      else
        let (slot, self) = popChannelHead self channel
        in self\<lparr>eq_slots := set_next slot (eq_free_head self) (eq_slots self), eq_free_head := slot,
             eq_used := wrap_dec 16 (eq_used self)\<rparr>)"

definition EgressQueue_NextPendingChannel :: "EgressQueue \<Rightarrow> u8 option \<times> EgressQueue" where
  "EgressQueue_NextPendingChannel self =
     (case find (\<lambda>candidate. cl_count (eq_channels self ! candidate) > 0)
         (map (\<lambda>i. (eq_cursor self + i) mod EGRESS_QUEUE_CHANNELS_MAX) [0..<EGRESS_QUEUE_CHANNELS_MAX]) of
        Some candidate \<Rightarrow>
          (Some (of_nat candidate), self\<lparr>eq_cursor := (candidate + 1) mod EGRESS_QUEUE_CHANNELS_MAX\<rparr>)
      | None \<Rightarrow> (None, self))"

section \<open>Lists threaded through an array\<close>

text \<open>\<open>chain f h is\<close>: following \<open>f\<close> from \<open>h\<close> visits the slots \<open>is\<close> and ends.\<close>

fun chain :: "(nat \<Rightarrow> nat) \<Rightarrow> nat \<Rightarrow> nat list \<Rightarrow> bool" where
  "chain f h [] \<longleftrightarrow> h = EGRESS_SLOT_NIL"
| "chain f h (i # is) \<longleftrightarrow> h = i \<and> i < EGRESS_QUEUE_SLOTS_MAX \<and> chain f (f i) is"

fun walk :: "(nat \<Rightarrow> nat) \<Rightarrow> nat \<Rightarrow> nat \<Rightarrow> nat list" where
  "walk f h 0 = []"
| "walk f h (Suc n) = h # walk f (f h) n"

lemma chain_walk: "chain f h is \<Longrightarrow> walk f h (length is) = is"
  by (induction "is" arbitrary: h) auto

lemma chain_upd [simp]: "i \<notin> set is \<Longrightarrow> chain (f(i := n)) h is = chain f h is"
  by (induction "is" arbitrary: h) auto

lemma chain_nil: "chain f h is \<Longrightarrow> h = 65535 \<longleftrightarrow> is = []"
  by (cases "is") auto

lemma chain_tl: "chain f h is \<Longrightarrow> is \<noteq> [] \<Longrightarrow> hd is = h \<and> chain f (f h) (tl is)"
  by (cases "is") auto

lemma chain_snoc:
  "chain f h is \<Longrightarrow> distinct is \<Longrightarrow> is \<noteq> [] \<Longrightarrow> n < 512 \<Longrightarrow> n \<notin> set is \<Longrightarrow>
   chain (f(n := 65535, last is := n)) h (is @ [n])"
proof (induction "is" arbitrary: h)
  case (Cons i "is")
  show ?case
  proof (cases "is = []")
    case False
    then have "i \<noteq> last is" and "n \<noteq> i"
      using Cons.prems(2,5) by auto
    then show ?thesis
      using False Cons.prems Cons.IH [of "f i"] by simp
  qed (use Cons.prems in auto)
qed simp

section \<open>Where each slot is\<close>

datatype place = Free | Held | Queued u8

definition nexts :: "EgressQueue \<Rightarrow> nat \<Rightarrow> nat" where
  "nexts q i = sl_next (eq_slots q ! i)"

definition frame_at :: "EgressQueue \<Rightarrow> nat \<Rightarrow> bytes \<times> nat" where
  "frame_at q i = (take (sl_size (eq_slots q ! i)) (sl_data (eq_slots q ! i)), sl_enqueued_us (eq_slots q ! i))"

definition threaded :: "EgressQueue \<Rightarrow> u8 \<Rightarrow> nat list \<Rightarrow> bool" where
  "threaded q c is \<longleftrightarrow>
     (let l = eq_channels q ! unat c
      in chain (nexts q) (cl_head l) is \<and> cl_tail l = (if is = [] then EGRESS_SLOT_NIL else last is) \<and>
         cl_count l = length is)"

definition shaped :: "EgressQueue \<Rightarrow> bool" where
  "shaped q \<longleftrightarrow> length (eq_slots q) = EGRESS_QUEUE_SLOTS_MAX \<and> length (eq_channels q) = EGRESS_QUEUE_CHANNELS_MAX \<and>
     (\<forall>i < EGRESS_QUEUE_SLOTS_MAX. length (sl_data (eq_slots q ! i)) = EGRESS_FRAME_BYTES_MAX)"

text \<open>
  Every slot is in the free list, in the list of one channel, or held by the operation
  under way.
\<close>

definition placed :: "(nat \<Rightarrow> place) \<Rightarrow> nat list \<Rightarrow> (u8 \<Rightarrow> nat list) \<Rightarrow> bool" where
  "placed own free ids \<longleftrightarrow> distinct free \<and> set free = {i. i < 512 \<and> own i = Free} \<and>
     (\<forall>c. distinct (ids c) \<and> set (ids c) = {i. i < 512 \<and> own i = Queued c})"

definition linked :: "EgressQueue \<Rightarrow> nat list \<Rightarrow> (u8 \<Rightarrow> nat list) \<Rightarrow> bool" where
  "linked q free ids \<longleftrightarrow> shaped q \<and> chain (nexts q) (eq_free_head q) free \<and> (\<forall>c. threaded q c (ids c))"

definition pool :: "EgressQueue \<Rightarrow> (nat \<Rightarrow> place) \<Rightarrow> nat list \<Rightarrow> (u8 \<Rightarrow> nat list) \<Rightarrow> bool" where
  "pool q own free ids \<longleftrightarrow> linked q free ids \<and> placed own free ids"

lemma pool_threaded: "pool q own free ids \<Longrightarrow> threaded q c (ids c)"
  by (simp add: pool_def linked_def)

lemma pool_shape:
  "pool q own free ids \<Longrightarrow> length (eq_slots q) = 512 \<and> length (eq_channels q) = 256"
  by (simp add: pool_def linked_def shaped_def)

lemma pool_slot: "pool q own free ids \<Longrightarrow> i \<in> set (ids c) \<longleftrightarrow> i < 512 \<and> own i = Queued c"
  "pool q own free ids \<Longrightarrow> i \<in> set free \<longleftrightarrow> i < 512 \<and> own i = Free"
  by (simp_all add: pool_def placed_def)

lemma placed_pop:
  assumes "placed own free ids" and "ids c = i # is"
  shows "placed (own(i := Held)) free (ids(c := is)) \<and> i < 512 \<and> own i = Queued c"
proof -
  have "distinct (i # is)" and is_set: "set (i # is) = {j. j < 512 \<and> own j = Queued c}"
    using assms by (simp_all add: placed_def flip: assms(2))
  moreover from is_set have "i < 512" "own i = Queued c"
    by auto
  moreover from calculation have "set is = {j. j < 512 \<and> (own(i := Held)) j = Queued c}"
    by (auto simp: set_eq_iff)
  ultimately show ?thesis
    using assms(1) by (auto simp: placed_def)
qed

lemma placed_push:
  "placed own free ids \<Longrightarrow> i < 512 \<Longrightarrow> own i = Held \<Longrightarrow> placed (own(i := Queued c)) free (ids(c := ids c @ [i]))"
  by (auto simp: placed_def)

lemma placed_take:
  assumes "placed own (i # free) ids"
  shows "placed (own(i := Held)) free ids \<and> i < 512 \<and> own i = Free"
proof -
  have "i < 512" "own i = Free" "i \<notin> set free"
    using assms by (auto simp: placed_def)
  then show ?thesis
    using assms by (auto simp: placed_def set_eq_iff)
qed

lemma placed_free: "placed own free ids \<Longrightarrow> i < 512 \<Longrightarrow> own i = Held \<Longrightarrow> placed (own(i := Free)) (i # free) ids"
  by (auto simp: placed_def)

lemma pool_length:
  assumes "pool q own free ids"
  shows "length (ids c) \<le> 512"
proof -
  have "distinct (ids c)" and "set (ids c) \<subseteq> {..<512}"
    using assms by (auto simp: pool_def placed_def)
  then show ?thesis
    using card_mono [of "{..<512}" "set (ids c)"] distinct_card [of "ids c"] by simp
qed

lemma threaded_same:
  "eq_channels q' ! unat c = eq_channels q ! unat c \<Longrightarrow> (\<And>i. i \<in> set is \<Longrightarrow> nexts q' i = nexts q i) \<Longrightarrow>
   threaded q' c is = threaded q c is"
proof -
  have cong: "(\<And>i. i \<in> set is \<Longrightarrow> f i = g i) \<Longrightarrow> chain f h is = chain g h is" for f g h
    by (induction "is" arbitrary: h) auto
  show "eq_channels q' ! unat c = eq_channels q ! unat c \<Longrightarrow> (\<And>i. i \<in> set is \<Longrightarrow> nexts q' i = nexts q i) \<Longrightarrow> ?thesis"
    using cong [of "nexts q'" "nexts q"] by (simp add: threaded_def Let_def)
qed

lemma set_next_nth: "i < length xs \<Longrightarrow> sl_next (set_next i n xs ! j) = (if j = i then n else sl_next (xs ! j))"
  by (simp add: set_next_def nth_list_update)

lemma set_next_frame:
  "i < length xs \<Longrightarrow> sl_data (set_next i n xs ! j) = sl_data (xs ! j) \<and> sl_size (set_next i n xs ! j) = sl_size (xs ! j) \<and>
     sl_enqueued_us (set_next i n xs ! j) = sl_enqueued_us (xs ! j)"
  by (simp add: set_next_def nth_list_update)

lemma set_next_length [simp]: "length (set_next i n xs) = length xs"
  by (simp add: set_next_def)

lemma popChannelHead_simp:
  "popChannelHead q c =
     (let l = eq_channels q ! unat c; n = nexts q (cl_head l)
      in (cl_head l, q\<lparr>eq_channels := (eq_channels q)[unat c := \<lparr>cl_head = n,
           cl_tail = if n = 65535 then 65535 else cl_tail l, cl_count = wrap_dec 16 (cl_count l)\<rparr>]\<rparr>))"
  by (cases "eq_channels q ! unat c") (simp add: popChannelHead_def nexts_def Let_def)

lemma nexts_channels [simp]:
  "nexts (q\<lparr>eq_channels := x\<rparr>) = nexts q" "nexts (q\<lparr>eq_free_head := h\<rparr>) = nexts q"
  "nexts (q\<lparr>eq_used := u\<rparr>) = nexts q" "nexts (q\<lparr>eq_cursor := k\<rparr>) = nexts q"
  by (simp_all add: nexts_def fun_eq_iff)

lemma frame_at_channels [simp]:
  "frame_at (q\<lparr>eq_channels := x\<rparr>) = frame_at q" "frame_at (q\<lparr>eq_free_head := h\<rparr>) = frame_at q"
  "frame_at (q\<lparr>eq_used := u\<rparr>) = frame_at q" "frame_at (q\<lparr>eq_cursor := k\<rparr>) = frame_at q"
  by (simp_all add: frame_at_def fun_eq_iff)

lemma popChannelHead_pool:
  assumes pool: "pool q own free ids" and c: "ids c = i # is"
  shows "\<exists>chs. popChannelHead q c = (i, q\<lparr>eq_channels := chs\<rparr>) \<and>
    pool (q\<lparr>eq_channels := chs\<rparr>) (own(i := Held)) free (ids(c := is)) \<and> i < 512 \<and> own i = Queued c"
proof -
  let ?l = "eq_channels q ! unat c"
  let ?l' = "\<lparr>cl_head = nexts q i, cl_tail = if nexts q i = 65535 then 65535 else cl_tail ?l, cl_count = length is\<rparr>"
  let ?q = "q\<lparr>eq_channels := (eq_channels q)[unat c := ?l']\<rparr>"
  have t: "threaded q c (i # is)"
    using pool_threaded [OF pool, of c] c by simp
  then have rest: "chain (nexts q) (nexts q i) is"
    by (simp add: threaded_def Let_def)
  have "wrap_dec 16 (Suc (length is)) = length is"
    using pool_length [OF pool, of c] c by (subst wrap_dec_pos) simp_all
  then have pop: "popChannelHead q c = (i, ?q)"
    using t by (simp add: popChannelHead_simp Let_def threaded_def)
  have shape: "length (eq_channels q) = 256"
    using pool_shape [OF pool] by simp
  have "threaded ?q c is"
    using t rest chain_nil [OF rest] shape by (auto simp: threaded_def Let_def)
  moreover have "threaded ?q e (ids e)" if "e \<noteq> c" for e
    using that pool_threaded [OF pool, of e] by (simp add: threaded_def word_unat_eq_iff)
  ultimately have "linked ?q free (ids(c := is))"
    using pool by (auto simp: pool_def linked_def shaped_def)
  then show ?thesis
    using pop placed_pop [of own free ids c i "is"] pool c by (auto simp: pool_def)
qed

lemma nexts_set_next [simp]:
  "i < length S \<Longrightarrow> nexts (q\<lparr>eq_slots := set_next i n S\<rparr>) = (nexts (q\<lparr>eq_slots := S\<rparr>))(i := n)"
  by (simp add: nexts_def fun_eq_iff set_next_nth)

lemma shaped_set_next [simp]:
  "i < length S \<Longrightarrow> shaped (q\<lparr>eq_slots := set_next i n S\<rparr>) = shaped (q\<lparr>eq_slots := S\<rparr>)"
  by (simp add: shaped_def set_next_frame)

lemma frame_at_set_next [simp]:
  "i < length S \<Longrightarrow> frame_at (q\<lparr>eq_slots := set_next i n S\<rparr>) = frame_at (q\<lparr>eq_slots := S\<rparr>)"
  by (simp add: frame_at_def fun_eq_iff set_next_frame)

lemma shaped_other [simp]:
  "shaped (q\<lparr>eq_channels := (eq_channels q)[k := l]\<rparr>) = shaped q" "shaped (q\<lparr>eq_free_head := h\<rparr>) = shaped q"
  "shaped (q\<lparr>eq_used := u\<rparr>) = shaped q" "shaped (q\<lparr>eq_cursor := j\<rparr>) = shaped q"
  by (simp_all add: shaped_def)

lemma appendChannelTail_simp:
  "appendChannelTail q c i =
     (let l = eq_channels q ! unat c;
          q = q\<lparr>eq_slots := set_next i 65535 (eq_slots q)\<rparr>;
          q = (if cl_tail l = 65535 then q else q\<lparr>eq_slots := set_next (cl_tail l) i (eq_slots q)\<rparr>)
      in q\<lparr>eq_channels := (eq_channels q)[unat c := \<lparr>cl_head = if cl_tail l = 65535 then i else cl_head l,
           cl_tail = i, cl_count = wrap 16 (cl_count l + 1)\<rparr>]\<rparr>)"
  by (cases "eq_channels q ! unat c") (simp add: appendChannelTail_def Let_def)

lemma appendChannelTail_pool:
  assumes pool: "pool q own free ids" and i: "i < 512" "own i = Held"
  shows "pool (appendChannelTail q c i) (own(i := Queued c)) free (ids(c := ids c @ [i])) \<and>
    frame_at (appendChannelTail q c i) = frame_at q \<and> eq_used (appendChannelTail q c i) = eq_used q \<and>
    eq_cursor (appendChannelTail q c i) = eq_cursor q"
proof -
  let ?is = "ids c"
  let ?l = "eq_channels q ! unat c"
  let ?n = "if ?is = [] then (nexts q)(i := 65535) else (nexts q)(i := 65535, last ?is := i)"
  let ?q = "appendChannelTail q c i"
  have t: "threaded q c ?is" and shape: "length (eq_slots q) = 512" "length (eq_channels q) = 256"
    using pool_threaded [OF pool, of c] pool_shape [OF pool] by simp_all
  have out: "i \<notin> set (ids e)" "i \<notin> set free" for e
    using i pool_slot [OF pool, of i] by simp_all
  have last: "last ?is < 512" "own (last ?is) = Queued c" if "?is \<noteq> []"
    using that pool_slot(1) [OF pool, of "last ?is" c] by simp_all
  have tail: "cl_tail ?l = 65535 \<longleftrightarrow> ?is = []" "cl_count ?l = length ?is"
    using t last by (auto simp: threaded_def Let_def)
  have "length ?is \<le> 512"
    by (rule pool_length [OF pool])
  then have l': "eq_channels ?q = (eq_channels q)[unat c := \<lparr>cl_head = if ?is = [] then i else cl_head ?l,
      cl_tail = i, cl_count = length ?is + 1\<rparr>]"
    by (simp add: appendChannelTail_simp Let_def tail)
  have same: "eq_free_head ?q = eq_free_head q" "eq_used ?q = eq_used q" "eq_cursor ?q = eq_cursor q"
    by (simp_all add: appendChannelTail_simp Let_def)
  have n: "nexts ?q = ?n" and frames: "frame_at ?q = frame_at q" and "shaped ?q = shaped q"
  proof (atomize (full), cases "?is = []")
    case True
    then show "nexts ?q = ?n \<and> frame_at ?q = frame_at q \<and> shaped ?q = shaped q"
      using i shape tail(1) by (simp add: appendChannelTail_simp Let_def shaped_def set_next_frame)
  next
    case False
    then have "cl_tail ?l = last ?is"
      using t by (simp add: threaded_def Let_def)
    then show "nexts ?q = ?n \<and> frame_at ?q = frame_at q \<and> shaped ?q = shaped q"
      using False i shape last tail(1) by (simp add: appendChannelTail_simp Let_def shaped_def set_next_frame)
  qed
  then have "shaped ?q"
    using pool by (simp add: pool_def linked_def)
  have "chain (nexts q) (cl_head ?l) ?is" and "distinct ?is"
    using t pool by (simp_all add: threaded_def Let_def pool_def placed_def)
  then have "chain ?n (if ?is = [] then i else cl_head ?l) (?is @ [i])"
    using chain_snoc [of "nexts q" "cl_head ?l" ?is i] i out by simp
  then have "threaded ?q c (?is @ [i])"
    using shape by (simp add: threaded_def l' n)
  moreover have "chain ?n (cl_head (eq_channels q ! unat e)) (ids e)" if "e \<noteq> c" for e
    using that out pool_threaded [OF pool, of e] last pool_slot(1) [OF pool, of "last ?is" e]
    by (auto simp: threaded_def Let_def)
  then have "threaded ?q e (ids e)" if "e \<noteq> c" for e
    using that pool_threaded [OF pool, of e] by (simp add: threaded_def Let_def l' n word_unat_eq_iff)
  moreover have "chain (nexts ?q) (eq_free_head ?q) free"
    using pool out last pool_slot(2) [OF pool, of "last ?is"] by (auto simp: pool_def linked_def n same)
  ultimately have "linked ?q free (ids(c := ?is @ [i]))"
    using \<open>shaped ?q\<close> by (simp add: linked_def)
  then show ?thesis
    using placed_push [of own free ids i c] pool i frames same by (simp add: pool_def)
qed

lemma fill_at_pool:
  assumes pool: "pool q own free ids" and i: "i < 512" and sz: "sz \<le> EGRESS_FRAME_BYTES_MAX"
  shows "pool (fill_at i c data sz now q) own free ids"
    and "frame_at (fill_at i c data sz now q) = (frame_at q)(i := (map (\<lambda>k. data ! k) [0..<sz], now))"
proof -
  let ?q = "fill_at i c data sz now q"
  have len: "length (eq_slots q) = 512" "length (sl_data (eq_slots q ! i)) = 84"
    using pool i by (simp_all add: pool_def linked_def shaped_def)
  have n: "nexts ?q = nexts q"
    using i len by (auto simp: nexts_def fun_eq_iff fill_at_def fillSlot_def nth_list_update)
  have "shaped ?q"
    using pool i by (simp add: pool_def linked_def shaped_def fill_at_def fillSlot_def nth_list_update)
  moreover have "eq_channels ?q = eq_channels q" "eq_free_head ?q = eq_free_head q"
    by (simp_all add: fill_at_def)
  ultimately show "pool ?q own free ids"
    using pool by (simp add: pool_def linked_def threaded_def n)
  show "frame_at ?q = (frame_at q)(i := (map (\<lambda>k. data ! k) [0..<sz], now))"
    using i len sz take_array_copy [of sz "sl_data (eq_slots q ! i)" data]
    by (auto simp: frame_at_def fun_eq_iff fill_at_def fillSlot_def nth_list_update)
qed

lemma take_free_pool:
  assumes pool: "pool q own (i # free) ids"
  shows "eq_free_head q = i \<and> i < 512 \<and> own i = Free \<and>
    pool (q\<lparr>eq_free_head := nexts q i, eq_used := u\<rparr>) (own(i := Held)) free ids"
  using pool placed_take [of own i free ids] by (simp add: pool_def linked_def threaded_def)

lemma release_pool:
  assumes pool: "pool q own free ids" and i: "i < 512" "own i = Held"
  shows "pool (q\<lparr>eq_slots := set_next i (eq_free_head q) (eq_slots q), eq_free_head := i, eq_used := u\<rparr>)
    (own(i := Free)) (i # free) ids"
proof -
  have len: "length (eq_slots q) = 512" and out: "i \<notin> set free" "\<And>c. i \<notin> set (ids c)"
    using pool_shape [OF pool] pool_slot [OF pool, of i] i by auto
  then have "linked (q\<lparr>eq_slots := set_next i (eq_free_head q) (eq_slots q), eq_free_head := i, eq_used := u\<rparr>)
      (i # free) ids"
    using pool i by (simp add: pool_def linked_def threaded_def Let_def)
  then show ?thesis
    using pool placed_free [of own free ids i] i by (simp add: pool_def)
qed

lemma placed_total:
  assumes "placed own free ids" and "\<And>i. own i \<noteq> Held"
  shows "(\<Sum>c \<in> UNIV. length (ids c)) + length free = 512"
proof -
  have "{..<512} = set free \<union> (\<Union>c. set (ids c))"
    using assms by (auto simp: placed_def) (metis place.exhaust)
  then have "512 = card (set free \<union> (\<Union>c. set (ids c)))"
    by (metis card_lessThan)
  also have "\<dots> = card (set free) + card (\<Union>c. set (ids c))"
    using assms(1) by (intro card_Un_disjoint) (auto simp: placed_def)
  also have "card (\<Union>c. set (ids c)) = (\<Sum>c \<in> UNIV. card (set (ids c)))"
    using assms(1) by (intro card_UN_disjoint) (auto simp: placed_def)
  also have "(\<Sum>c \<in> UNIV. card (set (ids c))) = (\<Sum>c \<in> UNIV. length (ids c))"
    using assms(1) by (intro sum.cong refl distinct_card) (simp add: placed_def)
  finally show ?thesis
    using assms(1) distinct_card [of free] by (simp add: placed_def)
qed

section \<open>The pool as 256 queues\<close>

type_synonym frame_queues = "(u8 \<Rightarrow> (bytes \<times> nat) list) \<times> u8"

definition contents :: "EgressQueue \<Rightarrow> u8 \<Rightarrow> (bytes \<times> nat) list" where
  "contents q c =
     (let l = eq_channels q ! unat c in map (frame_at q) (walk (nexts q) (cl_head l) (cl_count l)))"

definition egress_abs :: "EgressQueue \<Rightarrow> frame_queues" where
  "egress_abs q = (contents q, of_nat (eq_cursor q))"

definition settled :: "EgressQueue \<Rightarrow> (nat \<Rightarrow> place) \<Rightarrow> nat list \<Rightarrow> (u8 \<Rightarrow> nat list) \<Rightarrow> bool" where
  "settled q own free ids \<longleftrightarrow> pool q own free ids \<and> (\<forall>i. own i \<noteq> Held) \<and> eq_used q + length free = 512 \<and>
     eq_cursor q < 256 \<and> (\<forall>c. length (ids c) \<le> 64)"

definition EgressQueue_inv :: "EgressQueue \<Rightarrow> bool" where
  "EgressQueue_inv q \<longleftrightarrow> (\<exists>own free ids. settled q own free ids)"

datatype EgressOp =
    EgressPush u8 bytes nat nat
  | EgressPop u8
  | EgressNext
  | EgressFront u8
  | EgressPending u8
  | EgressAny

datatype EgressResult =
    EgressPushed TEGRESS_PUSH_RESULT "u8 option"
  | EgressDone
  | EgressChannel "u8 option"
  | EgressFrame "bytes option" nat
  | EgressFlag bool

fun egress_step :: "EgressQueue \<Rightarrow> EgressOp \<Rightarrow> EgressResult \<times> EgressQueue" where
  "egress_step q (EgressPush c data sz now) = apfst (\<lambda>(r, e). EgressPushed r e) (EgressQueue_Push q c data sz now)"
| "egress_step q (EgressPop c) = (EgressDone, EgressQueue_PopChannel q c)"
| "egress_step q EgressNext = apfst EgressChannel (EgressQueue_NextPendingChannel q)"
| "egress_step q (EgressFront c) =
     (EgressFrame (map_option (\<lambda>(data, sz). take sz data) (EgressQueue_FrontOfChannel q c))
        (EgressQueue_FrontEnqueuedUs q c), q)"
| "egress_step q (EgressPending c) = (EgressFlag (EgressQueue_ChannelPending q c), q)"
| "egress_step q EgressAny = (EgressFlag (EgressQueue_HasPending q), q)"

text \<open>
  The specification: a full channel loses its oldest frame to a new one; with all 512
  frames in use the fullest channel, the first among equals, loses its oldest.
\<close>

definition fullest :: "(u8 \<Rightarrow> 'a list) \<Rightarrow> u8" where
  "fullest m = of_nat (LEAST i. \<forall>c. length (m c) \<le> length (m (of_nat i)))"

fun egress_spec :: "frame_queues \<Rightarrow> EgressOp \<Rightarrow> EgressResult \<times> frame_queues" where
  "egress_spec (m, k) (EgressPush c data sz now) =
     (let f = (map (\<lambda>i. data ! i) [0..<sz], now)
      in if sz > 84 then (EgressPushed kEGRESS_PUSH_QUEUED None, (m, k))
         else if length (m c) \<ge> 64 then
           (EgressPushed kEGRESS_PUSH_EVICTED_SELF (Some c), (m(c := tl (m c) @ [f]), k))
         else if (\<Sum>e \<in> UNIV. length (m e)) < 512 then
           (EgressPushed kEGRESS_PUSH_QUEUED None, (m(c := m c @ [f]), k))
         else
           let b = fullest m; m = m(b := tl (m b))
           in (EgressPushed kEGRESS_PUSH_EVICTED_OTHER (Some b), (m(c := m c @ [f]), k)))"
| "egress_spec (m, k) (EgressPop c) = (EgressDone, (m(c := tl (m c)), k))"
| "egress_spec (m, k) EgressNext =
     (case find (\<lambda>i. m (k + of_nat i) \<noteq> []) [0..<256] of
        None \<Rightarrow> (EgressChannel None, (m, k))
      | Some i \<Rightarrow> (EgressChannel (Some (k + of_nat i)), (m, k + of_nat i + 1)))"
| "egress_spec (m, k) (EgressFront c) =
     ((case m c of [] \<Rightarrow> EgressFrame None 0 | (data, t) # fs \<Rightarrow> EgressFrame (Some data) t), (m, k))"
| "egress_spec (m, k) (EgressPending c) = (EgressFlag (m c \<noteq> []), (m, k))"
| "egress_spec (m, k) EgressAny = (EgressFlag (\<exists>c. m c \<noteq> []), (m, k))"

lemma contents_pool: "pool q own free ids \<Longrightarrow> contents q c = map (frame_at q) (ids c)"
  using pool_threaded [of q own free ids c] chain_walk [of "nexts q" _ "ids c"]
  by (auto simp: contents_def threaded_def Let_def)

lemma count_pool: "pool q own free ids \<Longrightarrow> cl_count (eq_channels q ! unat c) = length (ids c)"
  using pool_threaded [of q own free ids c] by (simp add: threaded_def Let_def)

lemma head_pool: "pool q own free ids \<Longrightarrow> cl_head (eq_channels q ! unat c) = (if ids c = [] then 65535 else hd (ids c))"
  using pool_threaded [of q own free ids c] by (cases "ids c") (simp_all add: threaded_def Let_def)

lemma park_pool:
  fixes c :: u8 and data :: bytes and now :: nat
  assumes pool: "pool q own free ids" and i: "i < 512" "own i = Held" and sz: "sz \<le> EGRESS_FRAME_BYTES_MAX"
  defines "q' \<equiv> appendChannelTail (fill_at i c data sz now q) c i"
  shows "pool q' (own(i := Queued c)) free (ids(c := ids c @ [i]))"
    and "contents q' = (contents q)(c := contents q c @ [(map (\<lambda>k. data ! k) [0..<sz], now)])"
    and "eq_used q' = eq_used q" and "eq_cursor q' = eq_cursor q"
proof -
  note filled = fill_at_pool [OF pool i(1) sz, where data = data and c = c and now = now]
  note appended = appendChannelTail_pool [OF filled(1) i, of c]
  show p: "pool q' (own(i := Queued c)) free (ids(c := ids c @ [i]))"
    and "eq_used q' = eq_used q" and "eq_cursor q' = eq_cursor q"
    using appended by (simp_all add: q'_def) (simp_all add: fill_at_def)
  have out: "i \<notin> set (ids e)" for e
    using pool_slot(1) [OF pool, of i e] i by simp
  have "contents q' e = ((contents q)(c := contents q c @ [(map (\<lambda>k. data ! k) [0..<sz], now)])) e" for e
    unfolding contents_pool [OF p] contents_pool [OF pool] fun_upd_apply
    using out [of e] appended filled(2) unfolding q'_def by auto
  then show "contents q' = (contents q)(c := contents q c @ [(map (\<lambda>k. data ! k) [0..<sz], now)])"
    by blast
qed

lemma pop_contents:
  assumes pool: "pool q own free ids" and c: "ids c \<noteq> []"
  shows "\<exists>i chs. popChannelHead q c = (i, q\<lparr>eq_channels := chs\<rparr>) \<and> i < 512 \<and>
    pool (q\<lparr>eq_channels := chs\<rparr>) (own(i := Held)) free (ids(c := tl (ids c))) \<and>
    contents (q\<lparr>eq_channels := chs\<rparr>) = (contents q)(c := tl (contents q c))"
proof -
  obtain i "is" where "ids c = i # is"
    using c by (cases "ids c") auto
  then obtain chs where p: "popChannelHead q c = (i, q\<lparr>eq_channels := chs\<rparr>)" "i < 512"
      "pool (q\<lparr>eq_channels := chs\<rparr>) (own(i := Held)) free (ids(c := tl (ids c)))"
    using popChannelHead_pool [OF pool, of c i "is"] by auto
  have "contents (q\<lparr>eq_channels := chs\<rparr>) e = ((contents q)(c := tl (contents q c))) e" for e
    unfolding contents_pool [OF p(3)] contents_pool [OF pool] fun_upd_apply by (simp add: map_tl)
  then show ?thesis
    using p by blast
qed

lemma fullest_scan_max:
  "fullest_scan ls n best m = best \<and> (\<forall>l \<in> set ls. cl_count l \<le> m) \<or>
   (\<exists>k < length ls. fullest_scan ls n best m = n + k \<and> m < cl_count (ls ! k) \<and>
      (\<forall>l \<in> set ls. cl_count l \<le> cl_count (ls ! k)) \<and> (\<forall>j < k. cl_count (ls ! j) < cl_count (ls ! k)))"
proof (induction ls arbitrary: n best m)
  case (Cons l ls)
  let ?m = "max m (cl_count l)"
  let ?best = "if m < cl_count l then n else best"
  have scan: "fullest_scan (l # ls) n best m = fullest_scan ls (n + 1) ?best ?m"
    by (simp add: max_def)
  from Cons.IH [of "n + 1" ?best ?m] show ?case
  proof (elim disjE exE conjE)
    assume "fullest_scan ls (n + 1) ?best ?m = ?best" and "\<forall>l \<in> set ls. cl_count l \<le> ?m"
    then show ?case
      unfolding scan by (cases "m < cl_count l") (auto intro!: exI [of _ 0])
  next
    fix k
    assume k: "k < length ls" "fullest_scan ls (n + 1) ?best ?m = n + 1 + k" "?m < cl_count (ls ! k)"
      "\<forall>l \<in> set ls. cl_count l \<le> cl_count (ls ! k)" "\<forall>j < k. cl_count (ls ! j) < cl_count (ls ! k)"
    then have "cl_count ((l # ls) ! j) < cl_count (ls ! k)" if "j < Suc k" for j
      using that by (cases j) auto
    then show ?case
      unfolding scan using k by (intro disjI2 exI [of _ "Suc k"]) auto
  qed
qed simp

lemma fullestChannel_fullest:
  assumes "pool q own free ids"
  shows "fullestChannel q = fullest (contents q)" and "length (contents q c) \<le> length (contents q (fullestChannel q))"
proof -
  let ?m = "contents q"
  let ?r = "fullest_scan (eq_channels q) 0 0 0"
  have len: "length (eq_channels q) = 256"
    using pool_shape [OF assms] by simp
  have nat: "unat (of_nat i :: u8) = i" if "i < 256" for i
    using that by (subst unat_of_nat) simp
  have count: "cl_count (eq_channels q ! i) = length (?m (of_nat i))" if "i < 256" for i
    using count_pool [OF assms, of "of_nat i"] nat [OF that] by (simp add: contents_pool [OF assms])
  have "?r < 256 \<and> (\<forall>i < 256. length (?m (of_nat i)) \<le> length (?m (of_nat ?r))) \<and>
      (\<forall>j < ?r. length (?m (of_nat j)) < length (?m (of_nat ?r)))"
    using fullest_scan_max [of "eq_channels q" 0 0 0]
  proof (elim disjE exE conjE)
    assume "?r = 0" and "\<forall>l \<in> set (eq_channels q). cl_count l \<le> 0"
    then show ?thesis
      using count len by (simp add: all_set_conv_all_nth)
  next
    fix k
    assume "k < length (eq_channels q)" "?r = 0 + k" "\<forall>l \<in> set (eq_channels q). cl_count l \<le> cl_count (eq_channels q ! k)"
      "\<forall>j < k. cl_count (eq_channels q ! j) < cl_count (eq_channels q ! k)"
    then show ?thesis
      using count len by (simp add: all_set_conv_all_nth)
  qed
  then have r: "?r < 256" "\<And>i. i < 256 \<Longrightarrow> length (?m (of_nat i)) \<le> length (?m (of_nat ?r))"
      "\<And>j. j < ?r \<Longrightarrow> length (?m (of_nat j)) < length (?m (of_nat ?r))"
    by auto
  have every: "length (?m e) \<le> length (?m (of_nat ?r))" for e
    using r(2) [of "unat e"] by simp
  then show "length (?m c) \<le> length (?m (fullestChannel q))"
    by (simp add: fullestChannel_def)
  have "(LEAST i. \<forall>e. length (?m e) \<le> length (?m (of_nat i))) = ?r"
    using every r(3) by (intro Least_equality) (auto simp: not_less [symmetric])
  then show "fullestChannel q = fullest ?m"
    by (simp add: fullestChannel_def fullest_def)
qed

lemma settledD:
  assumes "settled q own free ids"
  shows "pool q own free ids" and "own i \<noteq> Held" and "eq_used q + length free = 512" and "eq_cursor q < 256"
    and "length (ids c) \<le> 64" and "(\<Sum>c \<in> UNIV. length (contents q c)) = eq_used q"
proof -
  show pool: "pool q own free ids" and held: "own i \<noteq> Held" for i
    using assms by (simp_all add: settled_def)
  show used: "eq_used q + length free = 512" and "eq_cursor q < 256" and "length (ids c) \<le> 64"
    using assms by (simp_all add: settled_def)
  show "(\<Sum>c \<in> UNIV. length (contents q c)) = eq_used q"
    using placed_total [of own free ids] pool held used contents_pool [OF pool] by (simp add: pool_def)
qed

lemma settledI:
  "pool q own free ids \<Longrightarrow> (\<And>i. own i \<noteq> Held) \<Longrightarrow> eq_used q + length free = 512 \<Longrightarrow> eq_cursor q < 256 \<Longrightarrow>
   (\<And>c. length (ids c) \<le> 64) \<Longrightarrow> EgressQueue_inv q"
  by (auto simp: EgressQueue_inv_def settled_def)

text \<open>Moving the oldest frame's slot of one channel to the end of another.\<close>

lemma replace_oldest:
  fixes data :: bytes and now :: nat
  assumes s: "settled q own free ids" and b: "ids b \<noteq> []" and sz: "sz \<le> EGRESS_FRAME_BYTES_MAX"
    and cap: "length ((ids(b := tl (ids b))) c) < 64"
  defines "q' \<equiv> (let (slot, q) = popChannelHead q b in appendChannelTail (fill_at slot c data sz now q) c slot)"
  shows "EgressQueue_inv q'"
    and "egress_abs q' = (let m = (contents q)(b := tl (contents q b))
      in (m(c := m c @ [(map (\<lambda>k. data ! k) [0..<sz], now)]), of_nat (eq_cursor q)))"
proof -
  obtain i chs where p: "popChannelHead q b = (i, q\<lparr>eq_channels := chs\<rparr>)" "i < 512"
      "pool (q\<lparr>eq_channels := chs\<rparr>) (own(i := Held)) free (ids(b := tl (ids b)))"
      "contents (q\<lparr>eq_channels := chs\<rparr>) = (contents q)(b := tl (contents q b))"
    using pop_contents [OF settledD(1) [OF s] b] by blast
  have q': "q' = appendChannelTail (fill_at i c data sz now (q\<lparr>eq_channels := chs\<rparr>)) c i"
    by (simp add: q'_def p(1))
  note park = park_pool [OF p(3,2) _ sz, of c data now, folded q', simplified]
  show "EgressQueue_inv q'"
    using park settledD [OF s] cap diff_le_self [THEN le_trans, OF settledD(5) [OF s, of b], of 1]
    by (intro settledI [OF park(1)]) (auto simp: Suc_le_eq)
  show "egress_abs q' = (let m = (contents q)(b := tl (contents q b))
      in (m(c := m c @ [(map (\<lambda>k. data ! k) [0..<sz], now)]), of_nat (eq_cursor q)))"
    using park(2,4) p(4) by (simp add: egress_abs_def Let_def)
qed

lemma Push_spec:
  assumes s: "settled q own free ids"
  shows "EgressQueue_inv (snd (EgressQueue_Push q c data sz now)) \<and>
    egress_spec (egress_abs q) (EgressPush c data sz now) =
      (case fst (EgressQueue_Push q c data sz now) of (r, e) \<Rightarrow> EgressPushed r e,
       egress_abs (snd (EgressQueue_Push q c data sz now)))"
proof -
  note pool = settledD(1) [OF s]
  let ?P = "EgressQueue_Push q c data sz now"
  have len: "length (contents q e) = length (ids e)" for e
    by (simp add: contents_pool [OF pool])
  have inv: "EgressQueue_inv q"
    using s by (auto simp: EgressQueue_inv_def)
  consider (big) "84 < sz" | (cap) "sz \<le> 84" "64 \<le> length (ids c)"
    | (room) i rest where "sz \<le> 84" "length (ids c) < 64" "free = i # rest"
    | (full) "sz \<le> 84" "length (ids c) < 64" "free = []"
    by (cases free) fastforce+
  then show ?thesis
  proof cases
    case big
    then show ?thesis
      using inv by (simp add: EgressQueue_Push_def egress_abs_def)
  next
    case cap
    then have P: "?P = ((kEGRESS_PUSH_EVICTED_SELF, Some c),
        let (slot, q) = popChannelHead q c in appendChannelTail (fill_at slot c data sz now q) c slot)"
      by (simp add: EgressQueue_Push_def count_pool [OF pool] Let_def split_def)
    have "ids c \<noteq> []" "sz \<le> EGRESS_FRAME_BYTES_MAX" "length ((ids(c := tl (ids c))) c) < 64"
      using cap settledD(5) [OF s, of c] by (auto simp: nat_less_le)
    note moved = replace_oldest [OF s this, of data now]
    show ?thesis
      using moved cap unfolding P fst_conv snd_conv by (simp add: egress_abs_def [of q] len)
  next
    case room
    let ?q = "q\<lparr>eq_free_head := nexts q i, eq_used := Suc (eq_used q)\<rparr>"
    have free: "eq_free_head q = i" "i < 512" "pool ?q (own(i := Held)) rest ids"
      using take_free_pool [OF pool [unfolded room(3)], of "Suc (eq_used q)"] by simp_all
    have used: "eq_used q < 512"
      using settledD(3) [OF s] room by simp
    have P: "?P = ((kEGRESS_PUSH_QUEUED, None), appendChannelTail (fill_at i c data sz now ?q) c i)"
      using room free used by (simp add: EgressQueue_Push_def count_pool [OF pool] nexts_def Let_def)
    have "sz \<le> EGRESS_FRAME_BYTES_MAX" "(own(i := Held)) i = Held"
      using room by simp_all
    note park = park_pool [OF free(3,2) this(2,1), of c data now, simplified]
    have "EgressQueue_inv (snd ?P)"
      unfolding P snd_conv using park room settledD [OF s]
      by (intro settledI [OF park(1)]) (auto simp: Suc_le_eq)
    moreover have "contents ?q = contents q"
      by (simp add: contents_def fun_eq_iff)
    ultimately show ?thesis
      using room park(2,4) used settledD(6) [OF s] unfolding P fst_conv snd_conv by (simp add: egress_abs_def len)
  next
    case full
    let ?b = "fullestChannel q"
    have used: "eq_used q = 512" and head: "eq_free_head q = 65535"
      using settledD(3) [OF s] full pool by (simp_all add: pool_def linked_def)
    then have P: "?P = ((kEGRESS_PUSH_EVICTED_OTHER, Some ?b),
        let (slot, q) = popChannelHead q ?b in appendChannelTail (fill_at slot c data sz now q) c slot)"
      using full by (simp add: EgressQueue_Push_def count_pool [OF pool] Let_def split_def)
    have "ids ?b \<noteq> []"
    proof
      assume "ids ?b = []"
      then have "length (contents q e) = 0" for e
        using fullestChannel_fullest(2) [OF pool, of e] by (simp add: len)
      then show False
        using settledD(6) [OF s] used by simp
    qed
    moreover have "sz \<le> EGRESS_FRAME_BYTES_MAX" "length ((ids(?b := tl (ids ?b))) c) < 64"
      using full by auto
    ultimately have moved: "EgressQueue_inv (snd ?P)" "egress_abs (snd ?P) =
        (let m = (contents q)(?b := tl (contents q ?b))
         in (m(c := m c @ [(map (\<lambda>k. data ! k) [0..<sz], now)]), of_nat (eq_cursor q)))"
      unfolding P snd_conv by (rule replace_oldest [OF s])+
    have "egress_spec (egress_abs q) (EgressPush c data sz now) =
        (EgressPushed kEGRESS_PUSH_EVICTED_OTHER (Some ?b), egress_abs (snd ?P))"
      using full settledD(6) [OF s] used
      unfolding moved(2) by (simp add: egress_abs_def len fullestChannel_fullest(1) [OF pool] Let_def)
    then show ?thesis
      using moved(1) by (simp add: P)
  qed
qed

lemma Pop_spec:
  assumes s: "settled q own free ids"
  shows "EgressQueue_inv (EgressQueue_PopChannel q c) \<and>
    egress_abs (EgressQueue_PopChannel q c) = ((contents q)(c := tl (contents q c)), of_nat (eq_cursor q))"
proof (cases "ids c = []")
  case True
  then have "EgressQueue_PopChannel q c = q" and "contents q c = []"
    using head_pool [OF settledD(1) [OF s], of c] contents_pool [OF settledD(1) [OF s], of c]
    by (simp_all add: EgressQueue_PopChannel_def)
  then show ?thesis
    using s by (auto simp: EgressQueue_inv_def egress_abs_def fun_upd_idem)
next
  case False
  note pool = settledD(1) [OF s]
  obtain i chs where p: "popChannelHead q c = (i, q\<lparr>eq_channels := chs\<rparr>)" "i < 512"
      "pool (q\<lparr>eq_channels := chs\<rparr>) (own(i := Held)) free (ids(c := tl (ids c)))"
      "contents (q\<lparr>eq_channels := chs\<rparr>) = (contents q)(c := tl (contents q c))"
    using pop_contents [OF pool False] by blast
  let ?q = "q\<lparr>eq_channels := chs, eq_slots := set_next i (eq_free_head q) (eq_slots q), eq_free_head := i,
    eq_used := eq_used q - 1\<rparr>"
  have "cl_head (eq_channels q ! unat c) \<noteq> 65535"
    using head_pool [OF pool, of c] False hd_in_set [OF False] pool_slot(1) [OF pool, of "hd (ids c)" c] by auto
  moreover have "length (ids c) \<le> eq_used q"
    using settledD(6) [OF s] contents_pool [OF pool, of c] member_le_sum [of c UNIV "\<lambda>c. length (contents q c)"] by simp
  then have used: "0 < eq_used q" "eq_used q \<le> 512"
    using settledD(3) [OF s] False by (cases "ids c"; simp)+
  moreover have "wrap_dec 16 (eq_used q) = eq_used q - 1"
    using used by (subst wrap_dec_pos) simp_all
  ultimately have pop: "EgressQueue_PopChannel q c = ?q"
    by (simp add: EgressQueue_PopChannel_def p(1))
  have released: "pool ?q (own(i := Free)) (i # free) (ids(c := tl (ids c)))"
    using release_pool [OF p(3,2), of "eq_used q - 1"] by simp
  have "frame_at ?q = frame_at q"
    using p(2) pool_shape [OF pool] by (simp add: frame_at_set_next [of i "eq_slots q"])
  then have "contents ?q = contents (q\<lparr>eq_channels := chs\<rparr>)"
    using contents_pool [OF released] contents_pool [OF p(3)] by (simp add: fun_eq_iff)
  moreover have "length (tl (ids c)) \<le> 64"
    using settledD(5) [OF s, of c] by simp
  then have "EgressQueue_inv ?q"
    using used settledD(2-5) [OF s] by (intro settledI [OF released]) auto
  ultimately show ?thesis
    by (simp add: pop p(4) egress_abs_def)
qed

lemma of_nat_channel: "(of_nat (n mod 256) :: u8) = of_nat n"
  by (simp add: word_of_nat_eq_iff take_bit_eq_mod)

lemma find_map_same:
  "(\<And>i. i \<in> set xs \<Longrightarrow> P (f i) \<longleftrightarrow> Q i) \<Longrightarrow> find P (map f xs) = map_option f (find Q xs)"
  by (induction xs) auto

lemma Next_spec:
  assumes s: "settled q own free ids"
  shows "EgressQueue_inv (snd (EgressQueue_NextPendingChannel q)) \<and>
    egress_spec (egress_abs q) EgressNext = (EgressChannel (fst (EgressQueue_NextPendingChannel q)),
      egress_abs (snd (EgressQueue_NextPendingChannel q)))"
proof -
  note pool = settledD(1) [OF s]
  let ?f = "\<lambda>i. (eq_cursor q + i) mod 256"
  let ?Q = "\<lambda>i. contents q (of_nat (eq_cursor q) + of_nat i) \<noteq> []"
  have pending: "cl_count (eq_channels q ! ?f i) > 0 \<longleftrightarrow> ?Q i" for i
  proof -
    have "unat (of_nat (?f i) :: u8) = ?f i"
      by (subst unat_of_nat) simp
    then show ?thesis
      using count_pool [OF pool, of "of_nat (?f i)"] contents_pool [OF pool, of "of_nat (?f i)"]
      by (simp add: of_nat_channel)
  qed
  have found: "find (\<lambda>k. cl_count (eq_channels q ! k) > 0) (map ?f [0..<256]) = map_option ?f (find ?Q [0..<256])"
    by (rule find_map_same) (rule pending)
  have next_channel: "EgressQueue_NextPendingChannel q =
      (case find ?Q [0..<256] of
         Some i \<Rightarrow> (Some (of_nat (eq_cursor q) + of_nat i), q\<lparr>eq_cursor := (?f i + 1) mod 256\<rparr>)
       | None \<Rightarrow> (None, q))"
    unfolding EgressQueue_NextPendingChannel_def found
    by (cases "find ?Q [0..<256]") (simp_all only: option.map option.case of_nat_channel of_nat_add)
  have cursor: "contents (q\<lparr>eq_cursor := k\<rparr>) = contents q" for k
    by (simp add: contents_def fun_eq_iff)
  have "EgressQueue_inv (q\<lparr>eq_cursor := (?f i + 1) mod 256\<rparr>)" for i
    using settledD [OF s] by (intro settledI [of _ own free ids]) (simp_all add: pool_def linked_def threaded_def)
  moreover have "(of_nat ((?f i + 1) mod 256) :: u8) = of_nat (eq_cursor q) + of_nat i + 1" for i
    by (simp only: of_nat_channel of_nat_add of_nat_1)
  moreover have "EgressQueue_inv q"
    using s by (auto simp: EgressQueue_inv_def)
  ultimately show ?thesis
    by (cases "find ?Q [0..<256]") (simp_all add: next_channel egress_abs_def cursor del: upt_rec_numeral)
qed

interpretation egress: simulation egress_step EgressQueue_inv egress_spec egress_abs
proof unfold_locales
  fix q x
  assume inv: "EgressQueue_inv q"
  then obtain own free ids where s: "settled q own free ids"
    by (auto simp: EgressQueue_inv_def)
  note pool = settledD(1) [OF s]
  show "EgressQueue_inv (snd (egress_step q x))"
    using inv Push_spec [OF s] Pop_spec [OF s] Next_spec [OF s] by (cases x) simp_all
  show "egress_spec (egress_abs q) x = (fst (egress_step q x), egress_abs (snd (egress_step q x)))"
  proof (cases x)
    case (EgressPop c)
    then show ?thesis
      using Pop_spec [OF s, of c] by (simp add: egress_abs_def [of q])
  next
    case (EgressFront c)
    have "hd (ids c) < 512" if "ids c \<noteq> []"
      using hd_in_set [OF that] pool_slot(1) [OF pool, of "hd (ids c)" c] by simp
    then show ?thesis
      using EgressFront contents_pool [OF pool, of c] head_pool [OF pool, of c]
      by (cases "ids c") (auto simp: egress_abs_def EgressQueue_FrontOfChannel_def EgressQueue_FrontEnqueuedUs_def
          frame_at_def)
  next
    case (EgressPending c)
    then show ?thesis
      using contents_pool [OF pool, of c] count_pool [OF pool, of c]
      by (simp add: egress_abs_def EgressQueue_ChannelPending_def)
  next
    case EgressAny
    have "(\<exists>c. contents q c \<noteq> []) \<longleftrightarrow> eq_used q \<noteq> 0"
      by (simp flip: settledD(6) [OF s])
    then show ?thesis
      using EgressAny by (simp add: egress_abs_def EgressQueue_HasPending_def)
  qed (use Push_spec [OF s] Next_spec [OF s] in \<open>simp_all add: apfst_def map_prod_def split_def
      del: egress_spec.simps\<close>)
qed

lemma reset_chain: "i \<le> 512 \<Longrightarrow> chain (nexts EgressQueue_Reset) (if i = 512 then 65535 else i) [i..<512]"
proof (induction "512 - i" arbitrary: i)
  case (Suc n)
  then have "i < 512"
    by simp
  then have "nexts EgressQueue_Reset i = (if Suc i = 512 then 65535 else Suc i)"
    by (simp add: nexts_def EgressQueue_Reset_def del: upt_rec_numeral)
  moreover have "[i..<512] = i # [Suc i..<512]"
    using \<open>i < 512\<close> by (rule upt_conv_Cons)
  ultimately show ?case
    using Suc.hyps(1) [of "Suc i"] Suc.hyps(2) \<open>i < 512\<close> by (simp del: upt_rec_numeral)
qed simp

lemma EgressQueue_Reset_settled: "settled EgressQueue_Reset (\<lambda>i. Free) [0..<512] (\<lambda>c. [])"
proof -
  have "chain (nexts EgressQueue_Reset) (eq_free_head EgressQueue_Reset) [0..<512]"
    using reset_chain [of 0] by (simp add: EgressQueue_Reset_def del: upt_rec_numeral)
  moreover have "shaped EgressQueue_Reset"
    by (simp add: shaped_def EgressQueue_Reset_def del: upt_rec_numeral)
  moreover have "threaded EgressQueue_Reset c []" for c
    by (simp add: threaded_def EgressQueue_Reset_def del: upt_rec_numeral)
  moreover have "placed (\<lambda>i. Free) [0..<512] (\<lambda>c. [])"
    by (auto simp: placed_def simp del: upt_rec_numeral)
  ultimately show ?thesis
    by (simp add: settled_def pool_def linked_def EgressQueue_Reset_def del: upt_rec_numeral)
qed

lemma EgressQueue_Reset_inv: "EgressQueue_inv EgressQueue_Reset"
  using EgressQueue_Reset_settled by (auto simp: EgressQueue_inv_def)

lemma EgressQueue_Reset_abs: "egress_abs EgressQueue_Reset = (\<lambda>c. [], 0)"
  using contents_pool [OF settledD(1) [OF EgressQueue_Reset_settled]]
  by (simp add: egress_abs_def fun_eq_iff) (simp add: EgressQueue_Reset_def)

lemmas egress_run = egress.run_sim [OF EgressQueue_Reset_inv, unfolded EgressQueue_Reset_abs]

text \<open>The cursor only moves when a channel is handed out, and never past a pending one.\<close>

lemma next_visits:
  assumes "m c \<noteq> []"
  shows "fst (egress_spec (m, k) EgressNext) = EgressChannel (Some c) \<or>
    unat (c - snd (snd (egress_spec (m, k) EgressNext))) < unat (c - k)"
proof -
  let ?Q = "\<lambda>i. m (k + of_nat i) \<noteq> []"
  let ?d = "unat (c - k)"
  have d: "?d < 256" "k + of_nat ?d = c"
    by simp_all
  then obtain i where i: "find_index ?Q [0..<256] = Some i"
    using find_index_exists [of ?d "[0..<256]" ?Q] assms by (auto simp del: upt_rec_numeral)
  then have "i < 256" and first: "\<And>j. j < i \<Longrightarrow> \<not> ?Q j"
    using find_index_Some [of ?Q "[0..<256]" i] by (auto simp del: upt_rec_numeral)
  then have "i \<le> ?d"
    using first [of ?d] d assms by (metis not_le)
  have spec: "egress_spec (m, k) EgressNext = (EgressChannel (Some (k + of_nat i)), (m, k + of_nat i + 1))"
    using i \<open>i < 256\<close> by (simp add: find_index_find del: upt_rec_numeral)
  show ?thesis
  proof (cases "i = ?d")
    case True
    then show ?thesis
      using spec d by simp
  next
    case False
    then have "Suc i \<le> ?d"
      using \<open>i \<le> ?d\<close> by simp
    have "c - (k + of_nat i + 1) = of_nat (?d - Suc i)"
      using d(2) \<open>Suc i \<le> ?d\<close> by (simp add: of_nat_diff)
    then have "unat (c - (k + of_nat i + 1)) = (?d - Suc i) mod 256"
      by (simp only: unat_of_nat) simp
    then show ?thesis
      using spec d(1) \<open>Suc i \<le> ?d\<close> by simp
  qed
qed

lemma next_keeps: "fst (snd (egress_spec st EgressNext)) = fst st"
  by (cases st) (simp split: option.split del: upt_rec_numeral)

lemma asking_keeps: "fst (snd (run egress_spec st (replicate n EgressNext))) = fst st"
  by (induction n arbitrary: st) (simp_all add: next_keeps del: egress_spec.simps)

lemma cursor_kept: "x \<noteq> EgressNext \<Longrightarrow> snd (snd (egress_spec st x)) = snd st"
  by (cases st; cases x) (auto simp: Let_def)

lemma visited_spec:
  assumes "\<And>n. n \<le> length ops \<Longrightarrow> fst (snd (run egress_spec st (take n ops))) c \<noteq> []"
    and "unat (c - snd st) < length (filter (\<lambda>x. x = EgressNext) ops)"
  shows "EgressChannel (Some c) \<in> set (fst (run egress_spec st ops))"
  using assms
proof (induction ops arbitrary: st)
  case (Cons x ops)
  let ?st = "snd (egress_spec st x)"
  have later: "fst (snd (run egress_spec ?st (take n ops))) c \<noteq> []" if "n \<le> length ops" for n
    using Cons.prems(1) [of "Suc n"] that by (simp add: split_def)
  have now: "fst st c \<noteq> []"
    using Cons.prems(1) [of 0] by simp
  show ?case
  proof (cases "x = EgressNext")
    case True
    then show ?thesis
      using next_visits [of "fst st" c "snd st"] now Cons.IH [OF later] Cons.prems(2) by (auto simp: run_Cons)
  next
    case False
    then show ?thesis
      using Cons.IH [OF later] Cons.prems(2) cursor_kept [OF False, of st] by (auto simp: run_Cons)
  qed
qed simp

lemma pending_abs: "EgressQueue_inv q \<Longrightarrow> EgressQueue_ChannelPending q c \<longleftrightarrow> fst (egress_abs q) c \<noteq> []"
  using egress.step_sim [of q "EgressPending c"] by (cases "egress_abs q") auto

section \<open>Properties\<close>

text \<open>
  C6.  The linked pool is 256 first-in first-out queues: after any sequence of calls every
  call has returned what it returns on the queues.  Frames of a channel leave in the order
  they were parked and with the bytes they were parked with; a frame is lost only to the
  two evictions the caller is told of (or when it exceeds the slot size); the pool never
  holds more than 512 frames nor a channel more than 64.
\<close>

theorem EgressQueue_refines_queues:
  "run egress_spec (\<lambda>c. [], 0) ops =
     (let (results, q) = run egress_step EgressQueue_Reset ops in (results, egress_abs q))"
  using egress_run [of ops] by (simp add: split_def Let_def)

text \<open>
  C8.  A busy channel never starves a quiet one: while a channel stays pending, whatever is
  parked and popped meanwhile, the round robin hands it out before its cursor has been
  asked more often than there are channels from the cursor to it, at most 256 times.
\<close>

theorem EgressQueue_no_starvation:
  assumes "\<And>n. n \<le> length ops \<Longrightarrow>
      EgressQueue_ChannelPending (snd (run egress_step EgressQueue_Reset (before @ take n ops))) c"
    and "unat (c - of_nat (eq_cursor (snd (run egress_step EgressQueue_Reset before)))) <
      length (filter (\<lambda>x. x = EgressNext) ops)"
  shows "EgressChannel (Some c) \<in> set (fst (run egress_step (snd (run egress_step EgressQueue_Reset before)) ops))"
proof -
  let ?q = "snd (run egress_step EgressQueue_Reset before)"
  have inv: "EgressQueue_inv (snd (run egress_step EgressQueue_Reset xs))" for xs
    by (rule egress.run_inv [OF EgressQueue_Reset_inv])
  have "fst (snd (run egress_spec (egress_abs ?q) (take n ops))) c \<noteq> []" if "n \<le> length ops" for n
    using assms(1) [OF that] pending_abs [OF inv, of "before @ take n ops" c] egress.run_sim [OF inv, of before "take n ops"]
    by (simp add: run_snd_append)
  then have "EgressChannel (Some c) \<in> set (fst (run egress_spec (egress_abs ?q) ops))"
    using assms(2) by (intro visited_spec) (simp_all add: egress_abs_def)
  then show ?thesis
    by (simp add: egress.run_sim [OF inv])
qed

theorem EgressQueue_no_starvation_witness:
  "list_all (\<lambda>n. EgressQueue_ChannelPending
      (snd (run egress_step EgressQueue_Reset ([EgressPush 1 [7] 1 0] @ take n [EgressNext, EgressNext]))) 1) [0, 1, 2] \<and>
   unat (1 - of_nat (eq_cursor (snd (run egress_step EgressQueue_Reset [EgressPush 1 [7] 1 0]))) :: u8) <
     length (filter (\<lambda>x. x = EgressNext) [EgressNext, EgressNext]) \<and>
   EgressChannel (Some 1) \<in>
     set (fst (run egress_step (snd (run egress_step EgressQueue_Reset [EgressPush 1 [7] 1 0])) [EgressNext, EgressNext]))"
proof -
  let ?before = "[EgressPush 1 [7] 1 0]" and ?ops = "[EgressNext, EgressNext]"
  have parked: "egress_abs (snd (run egress_step EgressQueue_Reset ?before)) = ((\<lambda>c. [])(1 := [([7], 0)]), 0)"
    using egress_run [of ?before] by (simp add: prod_eq_iff)
  have inv: "EgressQueue_inv (snd (run egress_step EgressQueue_Reset xs))" for xs
    by (rule egress.run_inv [OF EgressQueue_Reset_inv])
  have pending: "EgressQueue_ChannelPending (snd (run egress_step EgressQueue_Reset (?before @ take n ?ops))) 1"
    if "n \<le> 2" for n
  proof -
    have "take n ?ops = replicate n EgressNext"
      using that by (cases n; cases "n - 1") auto
    then have "fst (egress_abs (snd (run egress_step EgressQueue_Reset (?before @ take n ?ops)))) =
        fst (egress_abs (snd (run egress_step EgressQueue_Reset ?before)))"
      using egress.run_sim [OF inv, of ?before "replicate n EgressNext"] asking_keeps [of _ n]
      unfolding run_snd_append by (metis snd_conv)
    then show ?thesis
      unfolding pending_abs [OF inv] parked by simp
  qed
  moreover have "of_nat (eq_cursor (snd (run egress_step EgressQueue_Reset ?before))) = (0 :: u8)"
    using parked by (simp add: egress_abs_def)
  ultimately show ?thesis
    using EgressQueue_no_starvation [of ?ops ?before 1] pending pending [of 0] pending [of 1] pending [of 2]
    by (simp del: egress_step.simps run.simps run_Cons)
qed

end
