(* ===== verification/TransactionTable.thy ===== *)
theory TransactionTable
  imports SlotTable
begin

text \<open>
  The transactions the hub relays (\<open>hub/domain/transaction_table.c\<close>): 512 entries, a
  pointer to an entry being its index.  Clock values and byte counts are natural numbers,
  ids are words; \<open>active_leases\<close> is kept as a 16-bit count.
\<close>

section \<open>The table\<close>

abbreviation (input) PEER_DIRECTORY_MAX :: nat where "PEER_DIRECTORY_MAX \<equiv> 512"

abbreviation (input) TRANSACTION_TABLE_MAX :: nat where "TRANSACTION_TABLE_MAX \<equiv> PEER_DIRECTORY_MAX"

abbreviation (input) TRANSACTION_NO_CLIENT :: u32 where "TRANSACTION_NO_CLIENT \<equiv> 0"

datatype TTRANSACTION_RELAY_STATE =
    kTRANSACTION_RELAY_STATE_FREE
  | kTRANSACTION_RELAY_STATE_PENDING
  | kTRANSACTION_RELAY_STATE_ACTIVE

record RelayedTransaction =
  rt_state :: TTRANSACTION_RELAY_STATE
  rt_exclusive :: bool
  rt_txn_id :: u16
  rt_interface_id :: u32
  rt_agent_peer_id :: u32
  rt_agent_channel :: u8
  rt_client_peer_id :: u32
  rt_client_channel :: u8
  rt_started_at_us :: nat
  rt_last_progress_us :: nat
  rt_completed_steps :: nat
  rt_relayed_bytes :: nat
  rt_consumed_bytes :: nat

record TransactionTable =
  tt_entries :: "RelayedTransaction list"
  tt_active_leases :: nat

definition RelayedTransaction_zero :: RelayedTransaction where
  "RelayedTransaction_zero = \<lparr>rt_state = kTRANSACTION_RELAY_STATE_FREE, rt_exclusive = False, rt_txn_id = 0,
     rt_interface_id = 0, rt_agent_peer_id = 0, rt_agent_channel = 0, rt_client_peer_id = 0, rt_client_channel = 0,
     rt_started_at_us = 0, rt_last_progress_us = 0, rt_completed_steps = 0, rt_relayed_bytes = 0, rt_consumed_bytes = 0\<rparr>"

definition isInUse :: "RelayedTransaction \<Rightarrow> bool" where
  "isInUse transaction \<longleftrightarrow> rt_state transaction \<noteq> kTRANSACTION_RELAY_STATE_FREE"

definition holdsLease :: "RelayedTransaction \<Rightarrow> bool" where
  "holdsLease transaction \<longleftrightarrow> rt_state transaction = kTRANSACTION_RELAY_STATE_ACTIVE \<and> rt_exclusive transaction"

definition TransactionTable_Reset :: TransactionTable where
  "TransactionTable_Reset = \<lparr>tt_entries = replicate TRANSACTION_TABLE_MAX RelayedTransaction_zero, tt_active_leases = 0\<rparr>"

definition TransactionTable_ForAgent :: "TransactionTable \<Rightarrow> u32 \<Rightarrow> nat option" where
  "TransactionTable_ForAgent self agent_peer_id =
     find_index (\<lambda>t. isInUse t \<and> rt_agent_peer_id t = agent_peer_id) (tt_entries self)"

definition TransactionTable_Open :: "TransactionTable \<Rightarrow> RelayedTransaction \<Rightarrow> nat option \<times> TransactionTable" where
  "TransactionTable_Open self request =
     (if TransactionTable_ForAgent self (rt_agent_peer_id request) \<noteq> None then (None, self)
      else case find_index (\<lambda>t. \<not> isInUse t) (tt_entries self) of
        Some i \<Rightarrow> (Some i,
          self\<lparr>tt_entries := (tt_entries self)[i := request\<lparr>rt_state := kTRANSACTION_RELAY_STATE_PENDING\<rparr>]\<rparr>)
      | None \<Rightarrow> (None, self))"

definition TransactionTable_Activate :: "TransactionTable \<Rightarrow> nat \<Rightarrow> u16 \<Rightarrow> TransactionTable" where
  "TransactionTable_Activate self i txn_id =
     (let t = (tt_entries self ! i)\<lparr>rt_state := kTRANSACTION_RELAY_STATE_ACTIVE, rt_txn_id := txn_id\<rparr>;
          self = self\<lparr>tt_entries := (tt_entries self)[i := t]\<rparr>
      in if rt_exclusive t then self\<lparr>tt_active_leases := wrap 16 (tt_active_leases self + 1)\<rparr> else self)"

definition TransactionTable_Close :: "TransactionTable \<Rightarrow> nat \<Rightarrow> TransactionTable" where
  "TransactionTable_Close self i =
     (let self = (if holdsLease (tt_entries self ! i)
                  then self\<lparr>tt_active_leases := wrap_dec 16 (tt_active_leases self)\<rparr> else self)
      in self\<lparr>tt_entries := (tt_entries self)[i := RelayedTransaction_zero]\<rparr>)"

definition TransactionTable_NextForClient :: "TransactionTable \<Rightarrow> u32 \<Rightarrow> nat \<Rightarrow> nat option \<times> nat" where
  "TransactionTable_NextForClient self client_peer_id iterator =
     (case find_index (\<lambda>t. isInUse t \<and> rt_client_peer_id t = client_peer_id) (drop iterator (tt_entries self)) of
        Some k \<Rightarrow> (Some (iterator + k), iterator + k + 1)
      | None \<Rightarrow> (None, max iterator TRANSACTION_TABLE_MAX))"

function for_client_channel :: "TransactionTable \<Rightarrow> u32 \<Rightarrow> u8 \<Rightarrow> nat \<Rightarrow> nat option" where
  "for_client_channel self client_peer_id client_channel iterator =
     (case TransactionTable_NextForClient self client_peer_id iterator of
        (None, _) \<Rightarrow> None
      | (Some i, iterator) \<Rightarrow>
          if rt_client_channel (tt_entries self ! i) = client_channel then Some i
          else for_client_channel self client_peer_id client_channel iterator)"
  by pat_completeness auto

definition TransactionTable_AnyLease :: "TransactionTable \<Rightarrow> bool" where
  "TransactionTable_AnyLease self \<longleftrightarrow> tt_active_leases self > 0"

definition TransactionTable_LeaseHolder :: "TransactionTable \<Rightarrow> u32 \<Rightarrow> u32 option" where
  "TransactionTable_LeaseHolder self interface_id =
     (if \<not> TransactionTable_AnyLease self then None
      else case find_index (\<lambda>t. holdsLease t \<and> rt_interface_id t = interface_id) (tt_entries self) of
        Some i \<Rightarrow> Some (rt_client_peer_id (tt_entries self ! i))
      | None \<Rightarrow> None)"

lemma NextForClient_advances:
  "TransactionTable_NextForClient self c n = (Some i, m) \<Longrightarrow> n \<le> i \<and> i < m \<and> i < length (tt_entries self)"
  by (auto simp: TransactionTable_NextForClient_def split: option.splits dest!: find_index_SomeD(1))

termination for_client_channel
  by (relation "measure (\<lambda>(self, _, _, n). length (tt_entries self) - n)")
    (auto dest!: NextForClient_advances [OF sym])

definition TransactionTable_ForClientChannel :: "TransactionTable \<Rightarrow> u32 \<Rightarrow> u8 \<Rightarrow> nat option" where
  "TransactionTable_ForClientChannel self client_peer_id client_channel =
     for_client_channel self client_peer_id client_channel 0"

section \<open>The table as a map from agents to transactions\<close>

definition transaction_map :: "TransactionTable \<Rightarrow> u32 \<Rightarrow> RelayedTransaction option" where
  "transaction_map t = slot_map isInUse rt_agent_peer_id (tt_entries t)"

definition TransactionTable_inv :: "TransactionTable \<Rightarrow> bool" where
  "TransactionTable_inv t \<longleftrightarrow> length (tt_entries t) = TRANSACTION_TABLE_MAX \<and>
     slots_distinct isInUse rt_agent_peer_id (tt_entries t) \<and>
     tt_active_leases t = length (filter holdsLease (tt_entries t))"

text \<open>The calls as the broker makes them, a transaction being looked up by its agent.\<close>

datatype TransactionOp =
    TransactionOpen RelayedTransaction
  | TransactionGrant u32 u16
  | TransactionClose u32
  | TransactionHolder u32
  | TransactionAny
  | TransactionOfClient u32 u8

datatype TransactionResult =
    TransactionFlag bool
  | TransactionDone
  | TransactionPeer "u32 option"
  | TransactionEntry "RelayedTransaction option"

fun transaction_step :: "TransactionTable \<Rightarrow> TransactionOp \<Rightarrow> TransactionResult \<times> TransactionTable" where
  "transaction_step t (TransactionOpen r) = apfst (\<lambda>i. TransactionFlag (i \<noteq> None)) (TransactionTable_Open t r)"
| "transaction_step t (TransactionGrant a n) =
     (TransactionDone,
      case TransactionTable_ForAgent t a of
        None \<Rightarrow> t
      | Some i \<Rightarrow>
          if rt_state (tt_entries t ! i) \<noteq> kTRANSACTION_RELAY_STATE_PENDING then t
          else TransactionTable_Activate t i n)"
| "transaction_step t (TransactionClose a) =
     (TransactionDone, case TransactionTable_ForAgent t a of None \<Rightarrow> t | Some i \<Rightarrow> TransactionTable_Close t i)"
| "transaction_step t (TransactionHolder i) = (TransactionPeer (TransactionTable_LeaseHolder t i), t)"
| "transaction_step t TransactionAny = (TransactionFlag (TransactionTable_AnyLease t), t)"
| "transaction_step t (TransactionOfClient c k) =
     (TransactionEntry (map_option (\<lambda>i. tt_entries t ! i) (TransactionTable_ForClientChannel t c k)), t)"

type_synonym transactions = "u32 \<Rightarrow> RelayedTransaction option"

fun transaction_post :: "transactions \<Rightarrow> TransactionOp \<Rightarrow> TransactionResult \<Rightarrow> transactions \<Rightarrow> bool" where
  "transaction_post m (TransactionOpen q) r m' =
     (if rt_agent_peer_id q \<in> dom m \<or> card (dom m) = 512 then r = TransactionFlag False \<and> m' = m
      else r = TransactionFlag True \<and>
        m' = m(rt_agent_peer_id q \<mapsto> q\<lparr>rt_state := kTRANSACTION_RELAY_STATE_PENDING\<rparr>))"
| "transaction_post m (TransactionGrant a n) r m' =
     (r = TransactionDone \<and>
      m' = (case m a of
              None \<Rightarrow> m
            | Some t \<Rightarrow> if rt_state t = kTRANSACTION_RELAY_STATE_PENDING
                then m(a \<mapsto> t\<lparr>rt_state := kTRANSACTION_RELAY_STATE_ACTIVE, rt_txn_id := n\<rparr>) else m))"
| "transaction_post m (TransactionClose a) r m' = (r = TransactionDone \<and> m' = m(a := None))"
| "transaction_post m (TransactionHolder i) r m' =
     (m' = m \<and>
      ((r = TransactionPeer None \<and> (\<forall>t \<in> ran m. holdsLease t \<longrightarrow> rt_interface_id t \<noteq> i)) \<or>
       (\<exists>t \<in> ran m. holdsLease t \<and> rt_interface_id t = i \<and> r = TransactionPeer (Some (rt_client_peer_id t)))))"
| "transaction_post m TransactionAny r m' = (m' = m \<and> r = TransactionFlag (\<exists>t \<in> ran m. holdsLease t))"
| "transaction_post m (TransactionOfClient c k) r m' =
     (m' = m \<and>
      ((r = TransactionEntry None \<and> (\<forall>t \<in> ran m. rt_client_peer_id t = c \<longrightarrow> rt_client_channel t \<noteq> k)) \<or>
       (\<exists>t \<in> ran m. rt_client_peer_id t = c \<and> rt_client_channel t = k \<and> r = TransactionEntry (Some t))))"

interpretation transactions: slot_table isInUse rt_agent_peer_id RelayedTransaction_zero
  by unfold_locales (simp add: isInUse_def RelayedTransaction_zero_def)

lemma transactions_distinct: "TransactionTable_inv t \<Longrightarrow> slots_distinct isInUse rt_agent_peer_id (tt_entries t)"
  by (simp add: TransactionTable_inv_def)

lemma transactions_ran: "TransactionTable_inv t \<Longrightarrow> ran (transaction_map t) = {x \<in> set (tt_entries t). isInUse x}"
  by (simp add: transaction_map_def transactions.ran_live transactions_distinct)

lemma lease_in_use: "holdsLease t \<Longrightarrow> isInUse t"
  by (auto simp: holdsLease_def isInUse_def)

text \<open>Counting the leases across the update of one entry.\<close>

interpretation leases: keyed_slots holdsLease rt_agent_peer_id .

lemma leases_update:
  "i < length xs \<Longrightarrow> length (filter holdsLease (xs[i := x])) + (if holdsLease (xs ! i) then 1 else 0) =
     length (filter holdsLease xs) + (if holdsLease x then 1 else 0)"
  by (rule leases.live_store)

lemma Open_spec:
  assumes inv: "TransactionTable_inv t"
  shows "TransactionTable_inv (snd (TransactionTable_Open t q)) \<and>
    transaction_post (transaction_map t) (TransactionOpen q) (TransactionFlag (fst (TransactionTable_Open t q) \<noteq> None))
      (transaction_map (snd (TransactionTable_Open t q)))"
proof (cases "TransactionTable_ForAgent t (rt_agent_peer_id q)")
  case (Some i)
  then have "rt_agent_peer_id q \<in> dom (transaction_map t)"
    using transactions.index_Some [of _ "tt_entries t"] by (auto simp: TransactionTable_ForAgent_def transaction_map_def)
  then show ?thesis
    using Some inv by (simp add: TransactionTable_Open_def)
next
  case None
  let ?q = "q\<lparr>rt_state := kTRANSACTION_RELAY_STATE_PENDING\<rparr>"
  have new: "slot_map isInUse rt_agent_peer_id (tt_entries t) (rt_agent_peer_id ?q) = None"
    using None transactions.index_None by (simp add: TransactionTable_ForAgent_def)
  note d = transactions_distinct [OF inv]
  show ?thesis
  proof (cases "find_index (\<lambda>t. \<not> isInUse t) (tt_entries t)")
    case no_room: None
    then have "card (dom (transaction_map t)) = 512"
      using transactions.full_iff [OF d] inv by (simp add: transaction_map_def TransactionTable_inv_def)
    then show ?thesis
      using None no_room inv by (simp add: TransactionTable_Open_def)
  next
    case (Some i)
    have pending: "isInUse ?q" "\<not> holdsLease ?q"
      by (simp_all add: isInUse_def holdsLease_def)
    have "card (dom (transaction_map t)) \<noteq> 512"
      using transactions.full_iff [OF d] inv Some by (simp add: transaction_map_def TransactionTable_inv_def)
    moreover have "\<not> holdsLease (tt_entries t ! i)" "i < length (tt_entries t)"
      using find_index_SomeD [OF Some] lease_in_use by auto
    ultimately show ?thesis
      using None Some new transactions.store_new [OF d Some new pending(1)] inv pending(2) leases_update [of i "tt_entries t" ?q]
      by (simp add: TransactionTable_Open_def TransactionTable_inv_def transaction_map_def domIff)
  qed
qed

lemma lease_count: "TransactionTable_inv t \<Longrightarrow> tt_active_leases t \<le> 512"
  using length_filter_le [of holdsLease "tt_entries t"] by (simp add: TransactionTable_inv_def)

lemma Grant_spec:
  assumes inv: "TransactionTable_inv t" and found: "TransactionTable_ForAgent t a = Some i"
    and pending: "rt_state (tt_entries t ! i) = kTRANSACTION_RELAY_STATE_PENDING"
  shows "TransactionTable_inv (TransactionTable_Activate t i n) \<and>
    transaction_map (TransactionTable_Activate t i n) = (transaction_map t)
      (a \<mapsto> (tt_entries t ! i)\<lparr>rt_state := kTRANSACTION_RELAY_STATE_ACTIVE, rt_txn_id := n\<rparr>)"
proof -
  let ?x = "(tt_entries t ! i)\<lparr>rt_state := kTRANSACTION_RELAY_STATE_ACTIVE, rt_txn_id := n\<rparr>"
  note at = found [unfolded TransactionTable_ForAgent_def]
  have "i < length (tt_entries t)" "\<not> holdsLease (tt_entries t ! i)"
    using find_index_SomeD [OF at] pending by (simp_all add: holdsLease_def)
  moreover have "isInUse ?x" "rt_agent_peer_id ?x = a" "holdsLease ?x = rt_exclusive (tt_entries t ! i)"
    using find_index_SomeD [OF at] by (simp_all add: isInUse_def holdsLease_def)
  ultimately show ?thesis
    using transactions.store_again [OF transactions_distinct [OF inv] at, of ?x] leases_update [of i "tt_entries t" ?x]
      lease_count [OF inv] inv
    by (auto simp: TransactionTable_Activate_def TransactionTable_inv_def transaction_map_def Let_def)
qed

lemma Close_spec:
  assumes inv: "TransactionTable_inv t" and found: "TransactionTable_ForAgent t a = Some i"
  shows "TransactionTable_inv (TransactionTable_Close t i) \<and>
    transaction_map (TransactionTable_Close t i) = (transaction_map t)(a := None)"
proof -
  note at = found [unfolded TransactionTable_ForAgent_def]
  have "\<not> holdsLease RelayedTransaction_zero"
    by (simp add: holdsLease_def RelayedTransaction_zero_def)
  then have count: "length (filter holdsLease ((tt_entries t)[i := RelayedTransaction_zero])) +
      (if holdsLease (tt_entries t ! i) then 1 else 0) = tt_active_leases t"
    using leases_update [of i "tt_entries t" RelayedTransaction_zero] find_index_SomeD(1) [OF at] inv
    by (simp add: TransactionTable_inv_def)
  have "wrap_dec 16 (tt_active_leases t) = tt_active_leases t - 1" if "holdsLease (tt_entries t ! i)"
    using that count lease_count [OF inv] by (subst wrap_dec_pos) auto
  then show ?thesis
    using transactions.store_empty [OF transactions_distinct [OF inv] at] count inv
    by (auto simp: TransactionTable_Close_def TransactionTable_inv_def transaction_map_def Let_def)
qed

lemma for_client_channel_finds:
  "(for_client_channel t c k n = None \<longrightarrow>
      (\<forall>x \<in> set (drop n (tt_entries t)). isInUse x \<longrightarrow> rt_client_peer_id x = c \<longrightarrow> rt_client_channel x \<noteq> k)) \<and>
   (for_client_channel t c k n = Some i \<longrightarrow> i < length (tt_entries t) \<and> isInUse (tt_entries t ! i) \<and>
      rt_client_peer_id (tt_entries t ! i) = c \<and> rt_client_channel (tt_entries t ! i) = k)"
proof (induction t c k n rule: for_client_channel.induct)
  case (1 t c k n)
  let ?P = "\<lambda>x. isInUse x \<and> rt_client_peer_id x = c"
  show ?case
  proof (cases "find_index ?P (drop n (tt_entries t))")
    case None
    then show ?thesis
      using None [unfolded find_index_None]
      by (subst (1 2) for_client_channel.simps) (auto simp: TransactionTable_NextForClient_def)
  next
    case (Some j)
    then have step: "TransactionTable_NextForClient t c n = (Some (n + j), n + j + 1)"
      by (simp add: TransactionTable_NextForClient_def)
    have at: "n + j < length (tt_entries t)" "?P (tt_entries t ! (n + j))"
      using find_index_SomeD [OF Some] by auto
    show ?thesis
    proof (cases "rt_client_channel (tt_entries t ! (n + j)) = k")
      case True
      then show ?thesis
        using step at by (subst (1 2) for_client_channel.simps) auto
    next
      case False
      have "drop n (tt_entries t) = take j (drop n (tt_entries t)) @ tt_entries t ! (n + j) # drop (n + j + 1) (tt_entries t)"
        using at(1) id_take_nth_drop [of j "drop n (tt_entries t)"] by (simp add: add.commute add.left_commute)
      moreover have "\<not> ?P x" if "x \<in> set (take j (drop n (tt_entries t)))" for x
        using that Some [unfolded find_index_Some] at(1) by (auto simp: in_set_conv_nth)
      ultimately have "x \<in> set (drop (n + j + 1) (tt_entries t)) \<or> \<not> ?P x \<or> rt_client_channel x \<noteq> k"
        if "x \<in> set (drop n (tt_entries t))" for x
        using that False by (metis UnE set_ConsD set_append)
      moreover have "for_client_channel t c k n = for_client_channel t c k (n + j + 1)"
        using step False by (subst for_client_channel.simps) simp
      ultimately show ?thesis
        using "1.IH" [OF step [symmetric] refl False] by auto
    qed
  qed
qed

lemma for_agent_map:
  "TransactionTable_ForAgent t a = None \<Longrightarrow> transaction_map t a = None"
  "TransactionTable_ForAgent t a = Some i \<Longrightarrow> transaction_map t a = Some (tt_entries t ! i)"
  using transactions.index_None [of a "tt_entries t"] transactions.index_Some [of a "tt_entries t" i]
  by (simp_all add: TransactionTable_ForAgent_def transaction_map_def)

lemma any_lease: "TransactionTable_inv t \<Longrightarrow> TransactionTable_AnyLease t \<longleftrightarrow> (\<exists>x \<in> ran (transaction_map t). holdsLease x)"
  using lease_in_use by (auto simp: TransactionTable_AnyLease_def TransactionTable_inv_def transactions_ran filter_empty_conv)

lemma Holder_spec:
  assumes "TransactionTable_inv t"
  shows "transaction_post (transaction_map t) (TransactionHolder i) (TransactionPeer (TransactionTable_LeaseHolder t i))
    (transaction_map t)"
proof (cases "find_index (\<lambda>x. holdsLease x \<and> rt_interface_id x = i) (tt_entries t)")
  case None
  then show ?thesis
    using None [unfolded find_index_None] transactions_ran [OF assms] by (auto simp: TransactionTable_LeaseHolder_def)
next
  case (Some j)
  then have "tt_entries t ! j \<in> ran (transaction_map t)" "holdsLease (tt_entries t ! j)"
      "rt_interface_id (tt_entries t ! j) = i"
    using find_index_SomeD [OF Some] lease_in_use transactions_ran [OF assms] by auto
  then show ?thesis
    using Some any_lease [OF assms] by (auto simp: TransactionTable_LeaseHolder_def)
qed

lemma OfClient_spec:
  assumes "TransactionTable_inv t"
  shows "transaction_post (transaction_map t) (TransactionOfClient c k)
    (TransactionEntry (map_option (\<lambda>i. tt_entries t ! i) (TransactionTable_ForClientChannel t c k))) (transaction_map t)"
  using for_client_channel_finds [of t c k 0] transactions_ran [OF assms]
  by (cases "for_client_channel t c k 0")
    (auto simp: TransactionTable_ForClientChannel_def simp del: for_client_channel.simps)

interpretation transaction: contract transaction_step TransactionTable_inv transaction_post transaction_map
proof unfold_locales
  fix t x
  assume inv: "TransactionTable_inv t"
  have lookup: "TransactionTable_inv (snd (transaction_step t x)) \<and>
      transaction_post (transaction_map t) x (fst (transaction_step t x)) (transaction_map (snd (transaction_step t x)))"
  proof (cases x)
    case (TransactionGrant a n)
    then show ?thesis
      using inv for_agent_map [of t a] Grant_spec [OF inv, of a _ n]
      by (cases "TransactionTable_ForAgent t a") auto
  next
    case (TransactionClose a)
    then show ?thesis
      using inv for_agent_map [of t a] Close_spec [OF inv, of a]
      by (cases "TransactionTable_ForAgent t a") (auto simp: fun_upd_idem)
  qed (use inv Open_spec [OF inv] Holder_spec [OF inv] OfClient_spec [OF inv] any_lease [OF inv] in
      \<open>simp_all del: transaction_post.simps(1,4,6)\<close>)
  then show "TransactionTable_inv (snd (transaction_step t x))"
    and "transaction_post (transaction_map t) x (fst (transaction_step t x)) (transaction_map (snd (transaction_step t x)))"
    by simp_all
qed

lemma TransactionTable_Reset_inv: "TransactionTable_inv TransactionTable_Reset"
  using transactions.distinct_empty [of 512]
  by (simp add: TransactionTable_inv_def TransactionTable_Reset_def filter_empty_conv holdsLease_def RelayedTransaction_zero_def)

section \<open>Properties\<close>

text \<open>
  C10.  The table holds at most one transaction per agent and keeps its leases straight: in
  every state it can reach, opening succeeds exactly when the agent has none and one of the
  512 entries is free, a grant turns the agent's pending transaction active and changes no
  other, closing removes it; an interface is reported leased exactly while some active
  exclusive transaction is on it, and to that transaction's client.
\<close>

theorem TransactionTable_contract:
  "let t = snd (run transaction_step TransactionTable_Reset ops); (r, t') = transaction_step t x
   in transaction_post (transaction_map t) x r (transaction_map t')"
  using transaction.reachable_post [OF TransactionTable_Reset_inv, of ops x] by (simp add: Let_def split_def)

end
