(* ===== verification/PeerDirectory.thy ===== *)
theory PeerDirectory
  imports AdminMessages ClientSession EchoTokens EgressQueue TransactionTable
begin

text \<open>
  The peers of the hub (\<open>hub/domain/hub_peer.c\<close>, \<open>hub/domain/peer_directory.c\<close>,
  \<open>hub/domain/rejected_peers.c\<close>).  \<open>HubPeer\<close> is the record of one connection, the directory
  an array of \<open>PEER_DIRECTORY_MAX\<close> of them, and a pointer to a peer is its index in that array.
  Roles, transports and displacement classes keep their 8-bit wire values; times are natural
  numbers of microseconds.
\<close>

section \<open>One peer\<close>

abbreviation (input) kHUB_PEER_ROLE_UNKNOWN :: u8 where "kHUB_PEER_ROLE_UNKNOWN \<equiv> 0"
abbreviation (input) kHUB_PEER_ROLE_AGENT :: u8 where "kHUB_PEER_ROLE_AGENT \<equiv> 1"
abbreviation (input) kHUB_PEER_ROLE_CLIENT :: u8 where "kHUB_PEER_ROLE_CLIENT \<equiv> 2"
abbreviation (input) kHUB_PEER_ROLE_ADMIN :: u8 where "kHUB_PEER_ROLE_ADMIN \<equiv> 3"
abbreviation (input) kHUB_PEER_DISPLACEMENT_UNIDENTIFIED :: u8 where "kHUB_PEER_DISPLACEMENT_UNIDENTIFIED \<equiv> 0"
abbreviation (input) kHUB_PEER_DISPLACEMENT_IDLE_CLIENT :: u8 where "kHUB_PEER_DISPLACEMENT_IDLE_CLIENT \<equiv> 1"
abbreviation (input) kHUB_PEER_DISPLACEMENT_ACTIVE_CLIENT :: u8 where "kHUB_PEER_DISPLACEMENT_ACTIVE_CLIENT \<equiv> 2"
abbreviation (input) kHUB_PEER_DISPLACEMENT_UNVOUCHED_AGENT :: u8 where "kHUB_PEER_DISPLACEMENT_UNVOUCHED_AGENT \<equiv> 3"
abbreviation (input) kHUB_PEER_DISPLACEMENT_NEVER :: u8 where "kHUB_PEER_DISPLACEMENT_NEVER \<equiv> 4"
abbreviation (input) IDENTITY_FINGERPRINT_HEX_SIZE :: nat where "IDENTITY_FINGERPRINT_HEX_SIZE \<equiv> 65"
abbreviation (input) HUB_PEER_ORIGIN_SIZE :: nat where "HUB_PEER_ORIGIN_SIZE \<equiv> 56"

record HubPeer =
  hp_in_use :: bool
  hp_local :: bool
  hp_send_failed :: bool
  hp_vouched :: bool
  hp_peer_id :: u32
  hp_capabilities :: u32
  hp_role :: u8
  hp_transport_kind :: u8
  hp_hello_deadline_us :: nat
  hp_connected_at_us :: nat
  hp_frames_forwarded :: u32
  hp_frames_dropped :: u32
  hp_fingerprint_hex :: bytes
  hp_agent_name :: bytes
  hp_origin :: bytes
  hp_origin_host :: bytes
  hp_session :: ClientSession
  hp_echo_tokens :: EchoTokens
  hp_egress :: EgressQueue

text \<open>A cleared peer.  The echo table has no other reset than the clearing of its peer.\<close>

definition EgressQueue_zero :: EgressQueue where
  "EgressQueue_zero =
     \<lparr>eq_slots = replicate EGRESS_QUEUE_SLOTS_MAX
        \<lparr>sl_data = replicate EGRESS_FRAME_BYTES_MAX 0, sl_enqueued_us = 0, sl_size = 0, sl_channel = 0, sl_next = 0\<rparr>,
      eq_channels = replicate EGRESS_QUEUE_CHANNELS_MAX \<lparr>cl_head = 0, cl_tail = 0, cl_count = 0\<rparr>,
      eq_free_head = 0, eq_used = 0, eq_cursor = 0\<rparr>"

definition HubPeer_zero :: HubPeer where
  "HubPeer_zero =
     \<lparr>hp_in_use = False, hp_local = False, hp_send_failed = False, hp_vouched = False, hp_peer_id = 0,
      hp_capabilities = 0, hp_role = 0, hp_transport_kind = 0, hp_hello_deadline_us = 0, hp_connected_at_us = 0,
      hp_frames_forwarded = 0, hp_frames_dropped = 0,
      hp_fingerprint_hex = replicate IDENTITY_FINGERPRINT_HEX_SIZE 0, hp_agent_name = replicate REGISTER_AGENT_NAME_SIZE 0,
      hp_origin = replicate HUB_PEER_ORIGIN_SIZE 0, hp_origin_host = replicate HUB_PEER_ORIGIN_SIZE 0,
      hp_session = ClientSession_Reset, hp_echo_tokens = EchoTokens_Reset, hp_egress = EgressQueue_zero\<rparr>"

definition HubPeer_AdoptRole :: "HubPeer \<Rightarrow> u8 \<Rightarrow> bool \<times> HubPeer" where
  "HubPeer_AdoptRole self wire_role =
     (if wire_role = kPEER_ROLE_ADMIN
      then (if \<not> hp_local self then (False, self) else (True, self\<lparr>hp_role := kHUB_PEER_ROLE_ADMIN\<rparr>))
      else (True, self\<lparr>hp_role := if wire_role = kPEER_ROLE_AGENT then kHUB_PEER_ROLE_AGENT else kHUB_PEER_ROLE_CLIENT\<rparr>))"

definition HubPeer_SetAgentName :: "HubPeer \<Rightarrow> bytes \<Rightarrow> HubPeer" where
  "HubPeer_SetAgentName self agent_name =
     self\<lparr>hp_agent_name := BoundedString_Copy (hp_agent_name self) (Some agent_name)\<rparr>"

definition isSamePlaintextAgent :: "HubPeer \<Rightarrow> HubPeer \<Rightarrow> bool" where
  "isSamePlaintextAgent self other =
     (if hp_transport_kind self \<noteq> hp_transport_kind other then False
      else if hp_local self \<and> hp_local other then True
      else hp_origin_host self ! 0 \<noteq> 0 \<and> str_eq (hp_origin_host self) (hp_origin_host other))"

definition HubPeer_IsSameAgent :: "HubPeer \<Rightarrow> HubPeer \<Rightarrow> bool" where
  "HubPeer_IsSameAgent self other =
     (if hp_fingerprint_hex self ! 0 \<noteq> 0 \<or> hp_fingerprint_hex other ! 0 \<noteq> 0
      then str_eq (hp_fingerprint_hex self) (hp_fingerprint_hex other)
      else isSamePlaintextAgent self other)"

definition isUnidentified :: "HubPeer \<Rightarrow> bool" where
  "isUnidentified self =
     (if hp_role self = kHUB_PEER_ROLE_UNKNOWN then True
      else hp_role self = kHUB_PEER_ROLE_AGENT \<and> hp_agent_name self ! 0 = 0)"

definition HubPeer_Displacement :: "HubPeer \<Rightarrow> u8" where
  "HubPeer_Displacement self =
     (if hp_local self \<or> hp_fingerprint_hex self ! 0 = 0 \<or> hp_vouched self then kHUB_PEER_DISPLACEMENT_NEVER
      else if isUnidentified self then kHUB_PEER_DISPLACEMENT_UNIDENTIFIED
      else if hp_role self = kHUB_PEER_ROLE_AGENT then kHUB_PEER_DISPLACEMENT_UNVOUCHED_AGENT
      else if hp_role self \<noteq> kHUB_PEER_ROLE_CLIENT then kHUB_PEER_DISPLACEMENT_NEVER
      else if ClientSession_HoldsChannels (hp_session self) then kHUB_PEER_DISPLACEMENT_ACTIVE_CLIENT
      else kHUB_PEER_DISPLACEMENT_IDLE_CLIENT)"

definition HubPeer_FillAdminEntry :: "HubPeer \<Rightarrow> nat \<Rightarrow> AdminPeersReplyEntry" where
  "HubPeer_FillAdminEntry self now_us =
     \<lparr>ape_peer_id = hp_peer_id self, ape_frames_forwarded = hp_frames_forwarded self,
      ape_frames_dropped = hp_frames_dropped self,
      ape_uptime_seconds = (if hp_connected_at_us self < now_us
        then of_nat ((now_us - hp_connected_at_us self) div 1000000) else 0),
      ape_role = hp_role self, ape_transport_kind = hp_transport_kind self, ape_agent_name = hp_agent_name self,
      ape_fingerprint_hex = hp_fingerprint_hex self, ape_origin = hp_origin self\<rparr>"

section \<open>The directory\<close>

record PeerDirectory =
  pd_peers :: "HubPeer list"

definition PeerDirectory_Reset :: PeerDirectory where
  "PeerDirectory_Reset = \<lparr>pd_peers = replicate PEER_DIRECTORY_MAX HubPeer_zero\<rparr>"

definition PeerDirectory_Allocate :: "PeerDirectory \<Rightarrow> u32 \<Rightarrow> nat option \<times> PeerDirectory" where
  "PeerDirectory_Allocate self peer_id =
     (case find_index (\<lambda>p. \<not> hp_in_use p) (pd_peers self) of
        Some i \<Rightarrow>
          (Some i, self\<lparr>pd_peers := (pd_peers self)[i := HubPeer_zero\<lparr>hp_in_use := True, hp_peer_id := peer_id,
             hp_session := ClientSession_Reset, hp_egress := EgressQueue_Reset\<rparr>]\<rparr>)
      | None \<Rightarrow> (None, self))"

definition PeerDirectory_Find :: "PeerDirectory \<Rightarrow> u32 \<Rightarrow> nat option" where
  "PeerDirectory_Find self peer_id = find_index (\<lambda>p. hp_in_use p \<and> hp_peer_id p = peer_id) (pd_peers self)"

definition PeerDirectory_Release :: "PeerDirectory \<Rightarrow> u32 \<Rightarrow> PeerDirectory" where
  "PeerDirectory_Release self peer_id =
     (case PeerDirectory_Find self peer_id of
        Some i \<Rightarrow> self\<lparr>pd_peers := (pd_peers self)[i := HubPeer_zero]\<rparr>
      | None \<Rightarrow> self)"

definition PeerDirectory_At :: "PeerDirectory \<Rightarrow> nat \<Rightarrow> nat option" where
  "PeerDirectory_At self index =
     (if index \<ge> PEER_DIRECTORY_MAX \<or> \<not> hp_in_use (pd_peers self ! index) then None else Some index)"

definition PeerDirectory_FindAgentByName :: "PeerDirectory \<Rightarrow> bytes \<Rightarrow> nat option" where
  "PeerDirectory_FindAgentByName self agent_name =
     find_index (\<lambda>p. \<not> (\<not> hp_in_use p \<or> hp_role p \<noteq> kHUB_PEER_ROLE_AGENT) \<and> str_eq (hp_agent_name p) agent_name) (pd_peers self)"

definition displacesBefore :: "HubPeer \<Rightarrow> HubPeer \<Rightarrow> bool" where
  "displacesBefore peer other =
     (if HubPeer_Displacement peer \<noteq> HubPeer_Displacement other
      then HubPeer_Displacement peer < HubPeer_Displacement other
      else hp_connected_at_us peer > hp_connected_at_us other)"

text \<open>
  The loop of both searches for a victim: the eligible peer that every later eligible one
  fails to beat.
\<close>

fun displaceable_scan ::
    "(HubPeer \<Rightarrow> bool) \<Rightarrow> (HubPeer \<Rightarrow> HubPeer \<Rightarrow> bool) \<Rightarrow> HubPeer list \<Rightarrow> nat \<Rightarrow> (nat \<times> HubPeer) option \<Rightarrow> (nat \<times> HubPeer) option"
  where
  "displaceable_scan eligible before [] i candidate = candidate"
| "displaceable_scan eligible before (peer # peers) i candidate =
     displaceable_scan eligible before peers (i + 1)
       (if \<not> eligible peer then candidate
        else case candidate of
          None \<Rightarrow> Some (i, peer)
        | Some (_, best) \<Rightarrow> if before peer best then Some (i, peer) else candidate)"

definition PeerDirectory_FindDisplaceable :: "PeerDirectory \<Rightarrow> nat option" where
  "PeerDirectory_FindDisplaceable self =
     map_option fst (displaceable_scan (\<lambda>p. \<not> (\<not> hp_in_use p \<or> HubPeer_Displacement p = kHUB_PEER_DISPLACEMENT_NEVER))
       displacesBefore (pd_peers self) 0 None)"

definition PeerDirectory_FindDisplaceableAgent :: "PeerDirectory \<Rightarrow> nat option" where
  "PeerDirectory_FindDisplaceableAgent self =
     map_option fst (displaceable_scan (\<lambda>p. \<not> (\<not> hp_in_use p \<or> HubPeer_Displacement p \<noteq> kHUB_PEER_DISPLACEMENT_UNVOUCHED_AGENT))
       (\<lambda>peer candidate. hp_connected_at_us peer > hp_connected_at_us candidate) (pd_peers self) 0 None)"

definition PeerDirectory_Count :: "PeerDirectory \<Rightarrow> nat" where
  "PeerDirectory_Count self = length (filter hp_in_use (pd_peers self))"

definition PeerDirectory_IsFull :: "PeerDirectory \<Rightarrow> bool" where
  "PeerDirectory_IsFull self \<longleftrightarrow> PeerDirectory_Count self = PEER_DIRECTORY_MAX"

definition PeerDirectory_CountRole :: "PeerDirectory \<Rightarrow> u8 \<Rightarrow> nat" where
  "PeerDirectory_CountRole self role = length (filter (\<lambda>p. hp_in_use p \<and> hp_role p = role) (pd_peers self))"

definition PeerDirectory_CountAwaitingHelloFrom :: "PeerDirectory \<Rightarrow> bytes \<Rightarrow> nat" where
  "PeerDirectory_CountAwaitingHelloFrom self origin_host =
     length (filter (\<lambda>p. hp_in_use p \<and> hp_role p = kHUB_PEER_ROLE_UNKNOWN \<and> str_eq (hp_origin_host p) origin_host)
       (pd_peers self))"

section \<open>Listings\<close>

abbreviation (input) ADMIN_REPLY_FLAG_MORE :: u8 where "ADMIN_REPLY_FLAG_MORE \<equiv> 1"
abbreviation (input) ADMIN_PEERS_REPLY_ENTRIES_MAX :: nat where "ADMIN_PEERS_REPLY_ENTRIES_MAX \<equiv> 15"

text \<open>
  The page every listing of the administration interface replies with: the entries collected
  by the scan at the front of a cleared array.
\<close>

definition admin_page :: "nat \<Rightarrow> 'e \<Rightarrow> ('s \<Rightarrow> 'e) \<Rightarrow> ('s \<Rightarrow> bool) \<Rightarrow> nat \<Rightarrow> 's list \<Rightarrow> 'e AdminPage" where
  "admin_page limit cleared fill listed offset slots =
     (let (more, page) = page_scan listed limit offset slots 0 []
      in \<lparr>pg_count = of_nat (length page), pg_flags = (if more then ADMIN_REPLY_FLAG_MORE else 0),
          pg_entries = map fill page @ replicate (limit - length page) cleared\<rparr>)"

text \<open>The rows a page carries, and the rows the first \<open>n\<close> pages of a listing carry.\<close>

definition page_rows :: "'e AdminPage \<Rightarrow> 'e list" where
  "page_rows reply = take (unat (pg_count reply)) (pg_entries reply)"

definition rows_of_pages :: "nat \<Rightarrow> (nat \<Rightarrow> 'e AdminPage) \<Rightarrow> nat \<Rightarrow> 'e list" where
  "rows_of_pages limit listing n = concat (map (\<lambda>k. page_rows (listing (k * limit))) [0..<n])"

text \<open>
  What a paged listing promises: the page at an offset carries the rows from there up to the
  limit, says whether there are more, and following the pages visits every row once.
\<close>

definition lists_rows :: "nat \<Rightarrow> (nat \<Rightarrow> 'e AdminPage) \<Rightarrow> 'e list \<Rightarrow> bool" where
  "lists_rows limit listing rows \<longleftrightarrow>
     (\<forall>offset. page_rows (listing offset) = take limit (drop offset rows) \<and>
        (pg_flags (listing offset) = ADMIN_REPLY_FLAG_MORE) = (offset + limit < length rows) \<and>
        length (pg_entries (listing offset)) = limit) \<and>
     (\<forall>n. rows_of_pages limit listing n = take (n * limit) rows)"

lemma page_rows_admin_page:
  "limit < 256 \<Longrightarrow> page_rows (admin_page limit cleared fill listed offset slots) =
     map fill (take limit (drop offset (filter listed slots)))"
  by (simp add: page_rows_def admin_page_def page_scan_page Let_def unat_of_nat)

lemma lists_rowsI:
  assumes "\<And>offset. page_rows (listing offset) = take limit (drop offset rows)"
    and "\<And>offset. (pg_flags (listing offset) = ADMIN_REPLY_FLAG_MORE) = (offset + limit < length rows)"
    and "\<And>offset. length (pg_entries (listing offset)) = limit"
  shows "lists_rows limit listing rows"
proof -
  have "rows_of_pages limit listing n = take (n * limit) rows" for n
  proof (induction n)
    case (Suc n)
    then show ?case
      using take_add [of "n * limit" limit rows] by (simp add: rows_of_pages_def assms(1) add.commute)
  qed (simp add: rows_of_pages_def)
  then show ?thesis
    by (simp add: lists_rows_def assms)
qed

lemma admin_page_lists:
  assumes "limit < 256"
  shows "lists_rows limit (\<lambda>offset. admin_page limit cleared fill listed offset slots) (map fill (filter listed slots))"
proof (rule lists_rowsI)
  show "page_rows (admin_page limit cleared fill listed offset slots) = take limit (drop offset (map fill (filter listed slots)))"
    for offset
    using assms by (simp add: page_rows_admin_page take_map drop_map)
qed (auto simp: admin_page_def page_scan_page Let_def)

definition AdminPeersReplyEntry_zero :: AdminPeersReplyEntry where
  "AdminPeersReplyEntry_zero =
     \<lparr>ape_peer_id = 0, ape_frames_forwarded = 0, ape_frames_dropped = 0, ape_uptime_seconds = 0, ape_role = 0,
      ape_transport_kind = 0, ape_agent_name = replicate REGISTER_AGENT_NAME_SIZE 0,
      ape_fingerprint_hex = replicate ADMIN_FINGERPRINT_HEX_SIZE 0, ape_origin = replicate ADMIN_ORIGIN_SIZE 0\<rparr>"

definition PeerDirectory_List :: "PeerDirectory \<Rightarrow> nat \<Rightarrow> nat \<Rightarrow> AdminPeersReplyEntry AdminPage" where
  "PeerDirectory_List self offset now_us =
     admin_page ADMIN_PEERS_REPLY_ENTRIES_MAX AdminPeersReplyEntry_zero (\<lambda>p. HubPeer_FillAdminEntry p now_us)
       hp_in_use offset (pd_peers self)"

section \<open>The peer to displace\<close>

text \<open>
  Both searches go through the array once and keep the best candidate.  With a strict weak
  order the result is the first of the best ones.
\<close>

definition best_peer ::
    "(HubPeer \<Rightarrow> bool) \<Rightarrow> (HubPeer \<Rightarrow> HubPeer \<Rightarrow> bool) \<Rightarrow> HubPeer list \<Rightarrow> (nat \<times> HubPeer) option \<Rightarrow> bool" where
  "best_peer eligible before peers candidate \<longleftrightarrow>
     (case candidate of
        None \<Rightarrow> \<forall>q \<in> set peers. \<not> eligible q
      | Some (i, p) \<Rightarrow> i < length peers \<and> peers ! i = p \<and> eligible p \<and> (\<forall>q \<in> set peers. eligible q \<longrightarrow> \<not> before q p))"

locale displacement_order =
  fixes before :: "HubPeer \<Rightarrow> HubPeer \<Rightarrow> bool"
  assumes weakly_trans: "\<not> before a b \<Longrightarrow> \<not> before b c \<Longrightarrow> \<not> before a c"
    and asym: "before a b \<Longrightarrow> \<not> before b a"
begin

lemma irrefl: "\<not> before a a"
  using asym by blast

lemma best_next:
  assumes best: "best_peer eligible before seen candidate"
  shows "best_peer eligible before (seen @ [x])
    (if \<not> eligible x then candidate
     else case candidate of
       None \<Rightarrow> Some (length seen, x)
     | Some (_, best) \<Rightarrow> if before x best then Some (length seen, x) else candidate)"
proof (cases candidate)
  case None
  then show ?thesis
    using best irrefl by (simp add: best_peer_def)
next
  case (Some c)
  obtain i p where c: "c = (i, p)" by (cases c)
  have p: "i < length seen" "seen ! i = p" "eligible p" "\<forall>q \<in> set seen. eligible q \<longrightarrow> \<not> before q p"
    using best Some c by (simp_all add: best_peer_def)
  have "\<not> before q x" if "before x p" "q \<in> set seen" "eligible q" for q
    using that p(4) asym [of q x] weakly_trans [of x q p] by blast
  then show ?thesis
    using p Some c irrefl asym [of x p] by (simp add: best_peer_def nth_append)
qed

lemma scan_best:
  assumes "best_peer eligible before seen candidate"
  shows "best_peer eligible before (seen @ peers) (displaceable_scan eligible before peers (length seen) candidate)"
  using assms
proof (induction peers arbitrary: seen candidate)
  case (Cons x peers)
  from Cons.IH [OF best_next [OF Cons.prems, of x]] show ?case
    unfolding displaceable_scan.simps append_assoc length_append by simp
qed simp

lemma scan_all: "best_peer eligible before peers (displaceable_scan eligible before peers 0 None)"
  using scan_best [of eligible "[]" None peers] by (simp add: best_peer_def)

end

interpretation any_peer: displacement_order displacesBefore
  by unfold_locales (auto simp: displacesBefore_def split: if_splits)

interpretation any_agent: displacement_order "\<lambda>peer candidate. hp_connected_at_us peer > hp_connected_at_us candidate"
  by unfold_locales auto

lemma FindDisplaceable_best:
  "case PeerDirectory_FindDisplaceable d of
     None \<Rightarrow> \<forall>q \<in> set (pd_peers d). hp_in_use q \<longrightarrow> HubPeer_Displacement q = kHUB_PEER_DISPLACEMENT_NEVER
   | Some i \<Rightarrow> i < length (pd_peers d) \<and> hp_in_use (pd_peers d ! i) \<and>
       HubPeer_Displacement (pd_peers d ! i) \<noteq> kHUB_PEER_DISPLACEMENT_NEVER \<and>
       (\<forall>q \<in> set (pd_peers d). hp_in_use q \<longrightarrow> HubPeer_Displacement q \<noteq> kHUB_PEER_DISPLACEMENT_NEVER \<longrightarrow>
         \<not> displacesBefore q (pd_peers d ! i))"
  using any_peer.scan_all [of "\<lambda>p. \<not> (\<not> hp_in_use p \<or> HubPeer_Displacement p = kHUB_PEER_DISPLACEMENT_NEVER)" "pd_peers d"]
  by (auto simp: PeerDirectory_FindDisplaceable_def best_peer_def split: option.splits)

lemma FindDisplaceableAgent_best:
  "case PeerDirectory_FindDisplaceableAgent d of
     None \<Rightarrow> \<forall>q \<in> set (pd_peers d). hp_in_use q \<longrightarrow> HubPeer_Displacement q \<noteq> kHUB_PEER_DISPLACEMENT_UNVOUCHED_AGENT
   | Some i \<Rightarrow> i < length (pd_peers d) \<and> hp_in_use (pd_peers d ! i) \<and>
       HubPeer_Displacement (pd_peers d ! i) = kHUB_PEER_DISPLACEMENT_UNVOUCHED_AGENT \<and>
       (\<forall>q \<in> set (pd_peers d). hp_in_use q \<longrightarrow> HubPeer_Displacement q = kHUB_PEER_DISPLACEMENT_UNVOUCHED_AGENT \<longrightarrow>
         hp_connected_at_us q \<le> hp_connected_at_us (pd_peers d ! i))"
  using any_agent.scan_all [of "\<lambda>p. \<not> (\<not> hp_in_use p \<or> HubPeer_Displacement p \<noteq> kHUB_PEER_DISPLACEMENT_UNVOUCHED_AGENT)" "pd_peers d"]
  by (auto simp: PeerDirectory_FindDisplaceableAgent_def best_peer_def not_less split: option.splits)

lemma Displacement_le: "HubPeer_Displacement p \<le> kHUB_PEER_DISPLACEMENT_NEVER"
  by (simp add: HubPeer_Displacement_def)

text \<open>
  C37. A full hub displaces the peer it can best spare.  The peer found is connected, remote and
  identified by a certificate nobody vouched for; no connected peer is in a lower displacement
  class (unidentified, idle client, active client, agent), and among those of its class none
  connected later.  The search for an agent to displace returns an agent of that kind, the
  latest connected one.
\<close>

theorem PeerDirectory_displaces_least:
  "(case PeerDirectory_FindDisplaceable d of
      None \<Rightarrow> list_all (\<lambda>q. \<not> hp_in_use q \<or> HubPeer_Displacement q = kHUB_PEER_DISPLACEMENT_NEVER) (pd_peers d)
    | Some i \<Rightarrow> i < length (pd_peers d) \<and> (let v = pd_peers d ! i
        in hp_in_use v \<and> \<not> hp_local v \<and> hp_fingerprint_hex v ! 0 \<noteq> 0 \<and> \<not> hp_vouched v \<and>
           list_all (\<lambda>q. \<not> hp_in_use q \<or> HubPeer_Displacement v < HubPeer_Displacement q \<or>
             (HubPeer_Displacement v = HubPeer_Displacement q \<and> hp_connected_at_us q \<le> hp_connected_at_us v)) (pd_peers d))) \<and>
   (case PeerDirectory_FindDisplaceableAgent d of
      None \<Rightarrow> list_all (\<lambda>q. \<not> hp_in_use q \<or> HubPeer_Displacement q \<noteq> kHUB_PEER_DISPLACEMENT_UNVOUCHED_AGENT) (pd_peers d)
    | Some i \<Rightarrow> i < length (pd_peers d) \<and> (let v = pd_peers d ! i
        in hp_in_use v \<and> hp_role v = kHUB_PEER_ROLE_AGENT \<and> \<not> hp_local v \<and> \<not> hp_vouched v \<and>
           list_all (\<lambda>q. \<not> hp_in_use q \<or> HubPeer_Displacement q \<noteq> kHUB_PEER_DISPLACEMENT_UNVOUCHED_AGENT \<or>
             hp_connected_at_us q \<le> hp_connected_at_us v) (pd_peers d)))"
proof (rule conjI)
  have spared: "\<not> hp_local v \<and> hp_fingerprint_hex v ! 0 \<noteq> 0 \<and> \<not> hp_vouched v"
    if "HubPeer_Displacement v \<noteq> kHUB_PEER_DISPLACEMENT_NEVER" for v
    using that by (auto simp: HubPeer_Displacement_def split: if_splits)
  have never: "HubPeer_Displacement v < HubPeer_Displacement q"
    if "HubPeer_Displacement v \<noteq> kHUB_PEER_DISPLACEMENT_NEVER" "HubPeer_Displacement q = kHUB_PEER_DISPLACEMENT_NEVER" for v q
    using that Displacement_le [of v] by simp
  show "case PeerDirectory_FindDisplaceable d of
      None \<Rightarrow> list_all (\<lambda>q. \<not> hp_in_use q \<or> HubPeer_Displacement q = kHUB_PEER_DISPLACEMENT_NEVER) (pd_peers d)
    | Some i \<Rightarrow> i < length (pd_peers d) \<and> (let v = pd_peers d ! i
        in hp_in_use v \<and> \<not> hp_local v \<and> hp_fingerprint_hex v ! 0 \<noteq> 0 \<and> \<not> hp_vouched v \<and>
           list_all (\<lambda>q. \<not> hp_in_use q \<or> HubPeer_Displacement v < HubPeer_Displacement q \<or>
             (HubPeer_Displacement v = HubPeer_Displacement q \<and> hp_connected_at_us q \<le> hp_connected_at_us v)) (pd_peers d))"
    using FindDisplaceable_best [of d] spared never
    by (fastforce simp: list_all_iff Let_def displacesBefore_def not_less split: option.splits if_splits)
  have agent: "hp_role v = kHUB_PEER_ROLE_AGENT \<and> \<not> hp_local v \<and> \<not> hp_vouched v"
    if "HubPeer_Displacement v = kHUB_PEER_DISPLACEMENT_UNVOUCHED_AGENT" for v
    using that by (auto simp: HubPeer_Displacement_def split: if_splits)
  show "case PeerDirectory_FindDisplaceableAgent d of
      None \<Rightarrow> list_all (\<lambda>q. \<not> hp_in_use q \<or> HubPeer_Displacement q \<noteq> kHUB_PEER_DISPLACEMENT_UNVOUCHED_AGENT) (pd_peers d)
    | Some i \<Rightarrow> i < length (pd_peers d) \<and> (let v = pd_peers d ! i
        in hp_in_use v \<and> hp_role v = kHUB_PEER_ROLE_AGENT \<and> \<not> hp_local v \<and> \<not> hp_vouched v \<and>
           list_all (\<lambda>q. \<not> hp_in_use q \<or> HubPeer_Displacement q \<noteq> kHUB_PEER_DISPLACEMENT_UNVOUCHED_AGENT \<or>
             hp_connected_at_us q \<le> hp_connected_at_us v) (pd_peers d))"
    using FindDisplaceableAgent_best [of d] agent by (fastforce simp: list_all_iff Let_def split: option.splits)
qed

definition sample_spare :: "nat \<Rightarrow> HubPeer" where
  "sample_spare since = HubPeer_zero\<lparr>hp_in_use := True, hp_role := kHUB_PEER_ROLE_CLIENT,
     hp_fingerprint_hex := 49 # replicate 64 0, hp_connected_at_us := since\<rparr>"

lemma sample_spare_class: "HubPeer_Displacement (sample_spare t) = kHUB_PEER_DISPLACEMENT_IDLE_CLIENT"
  by (simp add: HubPeer_Displacement_def sample_spare_def HubPeer_zero_def isUnidentified_def ClientSession_HoldsChannels_def
      ClientSession_Reset_def ChannelBinding_zero_def list_ex_iff)

theorem PeerDirectory_displaces_least_witness:
  "PeerDirectory_FindDisplaceable \<lparr>pd_peers = [sample_spare 10, sample_spare 20]\<rparr> = Some 1 \<and>
   \<not> hp_local (sample_spare 20) \<and> \<not> hp_vouched (sample_spare 20)"
proof -
  have "PeerDirectory_FindDisplaceable \<lparr>pd_peers = [sample_spare 10, sample_spare 20]\<rparr> = Some 1"
    by (simp add: PeerDirectory_FindDisplaceable_def displacesBefore_def sample_spare_class)
      (simp add: sample_spare_def)
  then show ?thesis
    using PeerDirectory_displaces_least [of "\<lparr>pd_peers = [sample_spare 10, sample_spare 20]\<rparr>"]
    by (simp add: Let_def)
qed

end
