(* ===== verification/Pacing.thy ===== *)
theory Pacing
  imports Prelude
begin

text \<open>
  Rates and delays: the token bucket of \<open>src/shared/egress_shaper.c\<close>, the reconnect
  delays of \<open>src/shared/reconnect_backoff.c\<close> and the agent's measured credit of
  \<open>src/agent/domain/tx_pacer.c\<close>.
\<close>

section \<open>The egress shaper\<close>

abbreviation (input) MICROSECONDS_PER_SECOND :: nat where "MICROSECONDS_PER_SECOND \<equiv> 1000000"

record EgressShaper =
  es_rate_bits_per_s :: nat
  es_tokens_bits :: nat
  es_burst_bits :: nat
  es_remainder :: nat
  es_last_us :: nat

definition EgressShaper_Init :: "nat \<Rightarrow> nat \<Rightarrow> nat \<Rightarrow> EgressShaper" where
  "EgressShaper_Init now_us rate_bits_per_s burst_bits =
     \<lparr>es_rate_bits_per_s = rate_bits_per_s, es_tokens_bits = burst_bits, es_burst_bits = burst_bits,
      es_remainder = 0, es_last_us = now_us\<rparr>"

definition EgressShaper_SetRate :: "EgressShaper \<Rightarrow> nat \<Rightarrow> EgressShaper" where
  "EgressShaper_SetRate self rate_bits_per_s =
     (let self = self\<lparr>es_rate_bits_per_s := rate_bits_per_s\<rparr>
      in if es_burst_bits self < es_tokens_bits self then self\<lparr>es_tokens_bits := es_burst_bits self\<rparr> else self)"

definition EgressShaper_Refill :: "EgressShaper \<Rightarrow> nat \<Rightarrow> EgressShaper" where
  "EgressShaper_Refill self now_us =
     (if es_rate_bits_per_s self = 0 \<or> now_us \<le> es_last_us self then self\<lparr>es_last_us := now_us\<rparr>
      else
        let elapsed = now_us - es_last_us self;
            self = self\<lparr>es_last_us := now_us\<rparr>;
            fill_us = wrap 64 (wrap 64 (es_burst_bits self * MICROSECONDS_PER_SECOND) div es_rate_bits_per_s self + 1)
        in if fill_us \<le> elapsed then self\<lparr>es_tokens_bits := es_burst_bits self, es_remainder := 0\<rparr>
           else
             let numerator = wrap 64 (es_rate_bits_per_s self * elapsed + es_remainder self);
                 self = self\<lparr>es_tokens_bits := wrap 64 (es_tokens_bits self + numerator div MICROSECONDS_PER_SECOND),
                             es_remainder := numerator mod MICROSECONDS_PER_SECOND\<rparr>
             in if es_burst_bits self < es_tokens_bits self
                then self\<lparr>es_tokens_bits := es_burst_bits self, es_remainder := 0\<rparr>
                else self)"

definition EgressShaper_TryConsume :: "EgressShaper \<Rightarrow> nat \<Rightarrow> bool \<times> EgressShaper" where
  "EgressShaper_TryConsume self bits =
     (if es_rate_bits_per_s self = 0 then (True, self)
      else
        let bits = (if es_burst_bits self < bits then es_burst_bits self else bits)
        in if es_tokens_bits self < bits then (False, self)
           else (True, self\<lparr>es_tokens_bits := es_tokens_bits self - bits\<rparr>))"

definition EgressShaper_DelayUs :: "EgressShaper \<Rightarrow> nat \<Rightarrow> nat" where
  "EgressShaper_DelayUs self bits =
     (if es_rate_bits_per_s self = 0 \<or> bits \<le> es_tokens_bits self then 0
      else
        let deficit = bits - es_tokens_bits self
        in wrap 64 (deficit * MICROSECONDS_PER_SECOND + es_rate_bits_per_s self - 1) div es_rate_bits_per_s self)"

text \<open>
  The credit of a bucket in micro-bits.  The invariant keeps every product below
  \<open>2 ^ 64\<close>: the burst is at most \<open>2 ^ 43\<close> bits (the hub uses 8192) and the rate
  fits 32 bits.
\<close>

definition shaper_credit :: "EgressShaper \<Rightarrow> nat" where
  "shaper_credit s = es_tokens_bits s * 1000000 + es_remainder s"

definition shaper_inv :: "nat \<Rightarrow> nat \<Rightarrow> EgressShaper \<Rightarrow> bool" where
  "shaper_inv rate burst s \<longleftrightarrow> es_rate_bits_per_s s = rate \<and> es_burst_bits s = burst \<and> 0 < rate \<and> rate < 2 ^ 32 \<and>
     burst \<le> 2 ^ 43 \<and> es_tokens_bits s \<le> burst \<and> es_remainder s < 1000000"

lemma fill_covers:
  fixes r :: nat
  assumes "0 < r" and "b div r + 1 \<le> e"
  shows "b \<le> r * e"
proof -
  have "b < r * (b div r + 1)"
    using assms(1) dividend_less_times_div [of r b] by simp
  also have "\<dots> \<le> r * e"
    using assms(2) by (rule mult_le_mono2)
  finally show ?thesis by simp
qed

lemma ceiling_covers:
  fixes r :: nat
  assumes "0 < r"
  shows "d \<le> r * ((d + r - 1) div r)"
  using assms mult_div_mod_eq [of r "d + r - 1"] mod_less_divisor [OF assms, of "d + r - 1"] by linarith

lemma Refill_cases:
  assumes inv: "shaper_inv rate burst s" and later: "es_last_us s < now"
  obtains (full) "EgressShaper_Refill s now = s\<lparr>es_last_us := now, es_tokens_bits := burst, es_remainder := 0\<rparr>"
      "burst * 1000000 \<le> shaper_credit s + rate * (now - es_last_us s)"
  | (partial) t r where "EgressShaper_Refill s now = s\<lparr>es_last_us := now, es_tokens_bits := t, es_remainder := r\<rparr>"
      "t * 1000000 + r = shaper_credit s + rate * (now - es_last_us s)" "t \<le> burst" "r < 1000000"
proof -
  let ?e = "now - es_last_us s"
  have s: "es_rate_bits_per_s s = rate" "es_burst_bits s = burst" "0 < rate" "burst \<le> 2 ^ 43"
    "es_tokens_bits s \<le> burst" "es_remainder s < 1000000"
    using inv by (simp_all add: shaper_inv_def)
  have product: "burst * 1000000 < 2 ^ 63"
    using s(4) by simp
  have quotient: "burst * 1000000 div rate < 2 ^ 63"
    using product div_le_dividend [of "burst * 1000000" rate] by linarith
  have fill: "wrap 64 (wrap 64 (burst * 1000000) div rate + 1) = burst * 1000000 div rate + 1"
    using product quotient by (simp add: wrap_def)
  show ?thesis
  proof (cases "burst * 1000000 div rate + 1 \<le> ?e")
    case True
    then have "burst * 1000000 \<le> rate * ?e"
      by (rule fill_covers [OF s(3)])
    moreover have "EgressShaper_Refill s now = s\<lparr>es_last_us := now, es_tokens_bits := burst, es_remainder := 0\<rparr>"
      using True later s fill by (simp add: EgressShaper_Refill_def Let_def)
    ultimately show ?thesis
      using full by simp
  next
    case False
    let ?n = "rate * ?e + es_remainder s"
    have "rate * ?e \<le> rate * (burst * 1000000 div rate)"
      using False by (intro mult_le_mono2) linarith
    then have n: "rate * ?e \<le> burst * 1000000"
      using times_div_less_eq_dividend [of rate "burst * 1000000"] by linarith
    then have small: "?n < 2 ^ 64"
      using product s(6) by simp
    have "?n div 1000000 \<le> ?n"
      by simp
    then have sum: "es_tokens_bits s + ?n div 1000000 < 2 ^ 64"
      using n product s(4,5,6) by simp
    have total: "(es_tokens_bits s + ?n div 1000000) * 1000000 + ?n mod 1000000 = shaper_credit s + rate * ?e"
      by (simp add: shaper_credit_def algebra_simps)
    have eq: "EgressShaper_Refill s now =
        (let t = es_tokens_bits s + ?n div 1000000
         in if burst < t then s\<lparr>es_last_us := now, es_tokens_bits := burst, es_remainder := 0\<rparr>
            else s\<lparr>es_last_us := now, es_tokens_bits := t, es_remainder := ?n mod 1000000\<rparr>)"
      using False later s fill small sum by (simp add: EgressShaper_Refill_def Let_def)
    show ?thesis
    proof (cases "burst < es_tokens_bits s + ?n div 1000000")
      case True
      then have "burst * 1000000 \<le> (es_tokens_bits s + ?n div 1000000) * 1000000"
        by (intro mult_le_mono1) simp
      then show ?thesis
        using full eq True total by (simp add: Let_def)
    next
      case False
      then show ?thesis
        using partial [OF _ total] eq by (simp add: Let_def)
    qed
  qed
qed

lemma Refill_credit:
  assumes inv: "shaper_inv rate burst s" and later: "es_last_us s \<le> now"
  shows "shaper_inv rate burst (EgressShaper_Refill s now)"
    and "es_last_us (EgressShaper_Refill s now) = now"
    and "shaper_credit (EgressShaper_Refill s now) \<le> shaper_credit s + rate * (now - es_last_us s)"
    and "burst * 1000000 \<le> shaper_credit (EgressShaper_Refill s now) \<or>
      shaper_credit s + rate * (now - es_last_us s) \<le> shaper_credit (EgressShaper_Refill s now)"
proof -
  have "shaper_inv rate burst (EgressShaper_Refill s now) \<and> es_last_us (EgressShaper_Refill s now) = now \<and>
    shaper_credit (EgressShaper_Refill s now) \<le> shaper_credit s + rate * (now - es_last_us s) \<and>
    (burst * 1000000 \<le> shaper_credit (EgressShaper_Refill s now) \<or>
      shaper_credit s + rate * (now - es_last_us s) \<le> shaper_credit (EgressShaper_Refill s now))"
  proof (cases "es_last_us s < now")
    case True
    show ?thesis
    proof (cases rule: Refill_cases [OF inv True, case_names full partial])
      case full
      then show ?thesis
        using inv by (simp add: shaper_inv_def shaper_credit_def)
    next
      case (partial t r)
      then show ?thesis
        using inv by (simp add: shaper_inv_def shaper_credit_def)
    qed
  next
    case False
    then show ?thesis
      using inv later by (simp add: EgressShaper_Refill_def shaper_inv_def shaper_credit_def)
  qed
  then show "shaper_inv rate burst (EgressShaper_Refill s now)"
    and "es_last_us (EgressShaper_Refill s now) = now"
    and "shaper_credit (EgressShaper_Refill s now) \<le> shaper_credit s + rate * (now - es_last_us s)"
    and "burst * 1000000 \<le> shaper_credit (EgressShaper_Refill s now) \<or>
      shaper_credit s + rate * (now - es_last_us s) \<le> shaper_credit (EgressShaper_Refill s now)"
    by simp_all
qed

text \<open>Time passing and frames offered; the result is the size of the frame released, if one
  was.\<close>

datatype ShaperOp = ShaperElapse nat | ShaperOffer nat

fun shaper_step :: "EgressShaper \<Rightarrow> ShaperOp \<Rightarrow> nat \<times> EgressShaper" where
  "shaper_step s (ShaperElapse us) = (0, EgressShaper_Refill s (es_last_us s + us))"
| "shaper_step s (ShaperOffer bits) =
     (let (ok, s') = EgressShaper_TryConsume s bits in (if ok then bits else 0, s'))"

fun elapsed_us :: "ShaperOp list \<Rightarrow> nat" where
  "elapsed_us [] = 0"
| "elapsed_us (ShaperElapse us # ops) = us + elapsed_us ops"
| "elapsed_us (ShaperOffer bits # ops) = elapsed_us ops"

fun offer_fits :: "nat \<Rightarrow> ShaperOp \<Rightarrow> bool" where
  "offer_fits burst (ShaperElapse us) = True"
| "offer_fits burst (ShaperOffer bits) = (bits \<le> burst)"

lemma TryConsume_credit:
  assumes "shaper_inv rate burst s"
  shows "shaper_inv rate burst (snd (EgressShaper_TryConsume s bits))"
    and "fst (EgressShaper_TryConsume s bits) \<longleftrightarrow> min bits burst \<le> es_tokens_bits s"
    and "shaper_credit (snd (EgressShaper_TryConsume s bits)) +
      1000000 * (if fst (EgressShaper_TryConsume s bits) then min bits burst else 0) = shaper_credit s"
  using assms
  by (auto simp: EgressShaper_TryConsume_def shaper_inv_def shaper_credit_def min_def diff_mult_distrib Let_def)

interpretation shaper: stepper shaper_step "shaper_inv rate burst" for rate burst
proof unfold_locales
  fix s x
  assume inv: "shaper_inv rate burst s"
  then show "shaper_inv rate burst (snd (shaper_step s x))"
    by (cases x) (simp_all add: Refill_credit(1) TryConsume_credit(1) split_def Let_def)
qed

lemma shaper_conforms:
  "shaper_inv rate burst s \<Longrightarrow>
   1000000 * sum_list (map (min burst) (fst (run shaper_step s ops))) + shaper_credit (snd (run shaper_step s ops)) \<le>
     shaper_credit s + rate * elapsed_us ops"
proof (induction ops arbitrary: s)
  case (Cons x ops)
  note inv = shaper.step_inv [OF Cons.prems, of x]
  show ?case
  proof (cases x)
    case (ShaperElapse us)
    then show ?thesis
      using Cons.IH [OF inv] Refill_credit(3) [OF Cons.prems, of "es_last_us s + us"] by (simp add: algebra_simps)
  next
    case (ShaperOffer bits)
    then show ?thesis
      using Cons.IH [OF inv] TryConsume_credit(3) [OF Cons.prems, of bits]
      by (auto simp: Let_def split_def algebra_simps min.commute [of burst] split: if_splits)
  qed
qed simp

lemma shaper_Init_inv:
  "0 < rate \<Longrightarrow> rate < 2 ^ 32 \<Longrightarrow> burst \<le> 2 ^ 43 \<Longrightarrow> shaper_inv rate burst (EgressShaper_Init now rate burst)"
  by (simp add: shaper_inv_def EgressShaper_Init_def)

lemma released_fits:
  "list_all (offer_fits burst) ops \<Longrightarrow> map (min burst) (fst (run shaper_step s ops)) = fst (run shaper_step s ops)"
proof (induction ops arbitrary: s)
  case (Cons x ops)
  then show ?case
    by (cases x) (simp_all add: Let_def split_def)
qed simp

section \<open>Properties of the shaper\<close>

text \<open>
  C18.  The shaper holds its rate.  Whatever frames are offered and whenever, the bits of the
  frames released since it was set up, a frame larger than the burst counting as one burst
  (which is what the bucket is charged for it), are at most the burst plus the rate times the
  time elapsed, in micro-bits, so nothing is lost to rounding.  When no frame offered is larger
  than the burst this bounds the very bits released.
\<close>

theorem EgressShaper_rate_bound:
  assumes "0 < rate" and "rate < 2 ^ 32" and "burst \<le> 2 ^ 43"
  shows "1000000 * sum_list (map (min burst) (fst (run shaper_step (EgressShaper_Init now rate burst) ops))) \<le>
      1000000 * burst + rate * elapsed_us ops \<and>
    (list_all (offer_fits burst) ops \<longrightarrow>
      1000000 * sum_list (fst (run shaper_step (EgressShaper_Init now rate burst) ops)) \<le>
        1000000 * burst + rate * elapsed_us ops)"
proof -
  have "shaper_credit (EgressShaper_Init now rate burst) = burst * 1000000"
    by (simp add: shaper_credit_def EgressShaper_Init_def)
  then show ?thesis
    using shaper_conforms [OF shaper_Init_inv [OF assms], of now ops] by (auto simp: released_fits)
qed

theorem EgressShaper_rate_bound_witness:
  "(0 :: nat) < 500000 \<and> (500000 :: nat) < 2 ^ 32 \<and> (8192 :: nat) \<le> 2 ^ 43 \<and>
   list_all (offer_fits 8192) [ShaperOffer 8000, ShaperOffer 500, ShaperElapse 1000, ShaperOffer 500] \<and>
   sum_list (fst (run shaper_step (EgressShaper_Init 0 500000 8192)
     [ShaperOffer 8000, ShaperOffer 500, ShaperElapse 1000, ShaperOffer 500])) = 8500 \<and>
   1000000 * (8500 :: nat) \<le> 1000000 * 8192 + 500000 * 1000"
proof -
  have "sum_list (fst (run shaper_step (EgressShaper_Init 0 500000 8192)
      [ShaperOffer 8000, ShaperOffer 500, ShaperElapse 1000, ShaperOffer 500])) = 8500"
    by (simp add: EgressShaper_Init_def EgressShaper_TryConsume_def EgressShaper_Refill_def wrap_def Let_def)
  then show ?thesis
    using EgressShaper_rate_bound [of 500000 8192 0
        "[ShaperOffer 8000, ShaperOffer 500, ShaperElapse 1000, ShaperOffer 500]"] by simp
qed

text \<open>
  C21.  The advertised delay is enough: in every state the shaper can be in, waiting the
  microseconds \<open>EgressShaper_DelayUs\<close> returns and refilling lets a frame of at most the
  burst size through.
\<close>

theorem EgressShaper_delay_suffices:
  assumes "0 < rate" and "rate < 2 ^ 32" and "burst \<le> 2 ^ 43" and "bits \<le> burst"
  shows "let s = snd (run shaper_step (EgressShaper_Init now rate burst) ops)
    in fst (EgressShaper_TryConsume (EgressShaper_Refill s (es_last_us s + EgressShaper_DelayUs s bits)) bits)"
proof -
  let ?s = "snd (run shaper_step (EgressShaper_Init now rate burst) ops)"
  let ?d = "EgressShaper_DelayUs ?s bits"
  let ?s' = "EgressShaper_Refill ?s (es_last_us ?s + ?d)"
  have inv: "shaper_inv rate burst ?s"
    by (rule shaper.run_inv [OF shaper_Init_inv [OF assms(1-3)]])
  note refill = Refill_credit [OF inv, of "es_last_us ?s + ?d"]
  have need: "bits * 1000000 \<le> shaper_credit ?s + rate * ?d"
  proof (cases "bits \<le> es_tokens_bits ?s")
    case True
    then show ?thesis
      by (simp add: shaper_credit_def)
  next
    case False
    let ?deficit = "(bits - es_tokens_bits ?s) * 1000000"
    have "?deficit + rate - 1 < 2 ^ 64"
      using assms(2-4) by simp
    then have "?d = (?deficit + rate - 1) div rate"
      using False inv by (simp add: EgressShaper_DelayUs_def shaper_inv_def)
    then have "?deficit \<le> rate * ?d"
      using ceiling_covers [OF assms(1)] by simp
    then show ?thesis
      using False by (simp add: shaper_credit_def diff_mult_distrib)
  qed
  have "bits * 1000000 \<le> shaper_credit ?s'"
    using refill(4) need assms(4) by auto
  moreover have "es_remainder ?s' < 1000000"
    using refill(1) by (simp add: shaper_inv_def)
  ultimately have "bits \<le> es_tokens_bits ?s'"
    by (simp add: shaper_credit_def)
  then show ?thesis
    using TryConsume_credit(2) [OF refill(1)] by (simp add: Let_def)
qed

theorem EgressShaper_delay_suffices_witness:
  "(0 :: nat) < 500000 \<and> (500000 :: nat) < 2 ^ 32 \<and> (8192 :: nat) \<le> 2 ^ 43 \<and> (500 :: nat) \<le> 8192 \<and>
   (let s = snd (run shaper_step (EgressShaper_Init 0 500000 8192) [ShaperOffer 8000])
    in EgressShaper_DelayUs s 500 = 616 \<and>
      fst (EgressShaper_TryConsume (EgressShaper_Refill s (es_last_us s + 616)) 500))"
proof -
  have "EgressShaper_DelayUs (snd (run shaper_step (EgressShaper_Init 0 500000 8192) [ShaperOffer 8000])) 500 = 616"
    by (simp add: EgressShaper_Init_def EgressShaper_TryConsume_def EgressShaper_DelayUs_def wrap_def Let_def)
  then show ?thesis
    using EgressShaper_delay_suffices [of 500000 8192 500 0 "[ShaperOffer 8000]"] by (simp add: Let_def)
qed

section \<open>Reconnect delays\<close>

record ReconnectBackoff =
  rb_initial_delay_ms :: nat
  rb_max_delay_ms :: nat
  rb_current_delay_ms :: nat

abbreviation (input) BACKOFF_FACTOR :: nat where "BACKOFF_FACTOR \<equiv> 2"

definition ReconnectBackoff_Init :: "nat \<Rightarrow> nat \<Rightarrow> ReconnectBackoff" where
  "ReconnectBackoff_Init initial_delay_ms max_delay_ms =
     \<lparr>rb_initial_delay_ms = initial_delay_ms, rb_max_delay_ms = max_delay_ms, rb_current_delay_ms = initial_delay_ms\<rparr>"

definition ReconnectBackoff_Reset :: "ReconnectBackoff \<Rightarrow> ReconnectBackoff" where
  "ReconnectBackoff_Reset self = self\<lparr>rb_current_delay_ms := rb_initial_delay_ms self\<rparr>"

definition ReconnectBackoff_NextDelayMs :: "ReconnectBackoff \<Rightarrow> nat \<times> ReconnectBackoff" where
  "ReconnectBackoff_NextDelayMs self =
     (let delay_ms = rb_current_delay_ms self;
          self = self\<lparr>rb_current_delay_ms := wrap 32 (rb_current_delay_ms self * BACKOFF_FACTOR)\<rparr>;
          self = (if rb_max_delay_ms self < rb_current_delay_ms self
                  then self\<lparr>rb_current_delay_ms := rb_max_delay_ms self\<rparr> else self)
      in (delay_ms, self))"

text \<open>Failed attempts (\<open>True\<close>) and successful connections (\<open>False\<close>), which reset the delay.\<close>

fun backoff_step :: "ReconnectBackoff \<Rightarrow> bool \<Rightarrow> nat \<times> ReconnectBackoff" where
  "backoff_step b True = ReconnectBackoff_NextDelayMs b"
| "backoff_step b False = (0, ReconnectBackoff_Reset b)"

definition backoff_after :: "nat \<Rightarrow> nat \<Rightarrow> nat \<Rightarrow> ReconnectBackoff" where
  "backoff_after initial max_delay n = \<lparr>rb_initial_delay_ms = initial, rb_max_delay_ms = max_delay,
     rb_current_delay_ms = (if n = 0 then initial else min max_delay (initial * 2 ^ n))\<rparr>"

lemma NextDelayMs_after:
  assumes "initial < 2 ^ 31" and "max_delay < 2 ^ 31"
  shows "ReconnectBackoff_NextDelayMs (backoff_after initial max_delay n) =
    (if n = 0 then initial else min max_delay (initial * 2 ^ n), backoff_after initial max_delay (Suc n))"
proof -
  let ?c = "if n = 0 then initial else min max_delay (initial * 2 ^ n)"
  have "?c * 2 < 2 ^ 32"
    using assms by (simp add: min_def)
  then have "wrap 32 (?c * 2) = ?c * 2"
    by (rule wrap_id)
  then show ?thesis
    by (auto simp: ReconnectBackoff_NextDelayMs_def backoff_after_def min_def Let_def)
qed

lemma delays_from:
  assumes "initial < 2 ^ 31" and "max_delay < 2 ^ 31"
  shows "run backoff_step (backoff_after initial max_delay n) (replicate k True) =
    (map (\<lambda>i. if i = 0 then initial else min max_delay (initial * 2 ^ i)) [n..<n + k], backoff_after initial max_delay (n + k))"
proof (induction k arbitrary: n)
  case (Suc k)
  then show ?case
    using NextDelayMs_after [OF assms, of n] by (simp add: prod_eq_iff upt_rec [of n])
qed simp

text \<open>
  C23.  Retries back off exponentially: however the link behaved before, after a
  successful connection the delays of the following failed attempts are the initial
  delay, then its doublings capped at the maximum.
\<close>

theorem ReconnectBackoff_doubles:
  assumes "initial < 2 ^ 31" and "max_delay < 2 ^ 31"
  shows "fst (run backoff_step (snd (run backoff_step (ReconnectBackoff_Init initial max_delay) (history @ [False])))
      (replicate k True)) =
    map (\<lambda>i. if i = 0 then initial else min max_delay (initial * 2 ^ i)) [0..<k]"
proof -
  have keeps: "rb_initial_delay_ms (snd (backoff_step b x)) = rb_initial_delay_ms b \<and>
      rb_max_delay_ms (snd (backoff_step b x)) = rb_max_delay_ms b" for b x
    by (cases x) (simp_all add: ReconnectBackoff_NextDelayMs_def ReconnectBackoff_Reset_def Let_def)
  have "rb_initial_delay_ms (snd (run backoff_step b h)) = rb_initial_delay_ms b \<and>
      rb_max_delay_ms (snd (run backoff_step b h)) = rb_max_delay_ms b" for b h
    by (induction h arbitrary: b) (simp_all add: keeps)
  then have "snd (run backoff_step (ReconnectBackoff_Init initial max_delay) (history @ [False])) =
      backoff_after initial max_delay 0"
    by (simp add: run_snd_append ReconnectBackoff_Reset_def backoff_after_def ReconnectBackoff_Init_def)
  then show ?thesis
    using delays_from [OF assms, of 0 k] by simp
qed

theorem ReconnectBackoff_doubles_witness:
  "(1000 :: nat) < 2 ^ 31 \<and> (60000 :: nat) < 2 ^ 31 \<and>
   fst (run backoff_step (snd (run backoff_step (ReconnectBackoff_Init 1000 60000) [True, True, False]))
     (replicate 8 True)) = [1000, 2000, 4000, 8000, 16000, 32000, 60000, 60000]"
  using ReconnectBackoff_doubles [of 1000 60000 "[True, True]" 8] by (simp add: upt_rec)

section \<open>The agent's credit\<close>

record TxPacer =
  tp_credit :: "nat list"
  tp_last_tx_dropped :: "nat list"
  tp_seen :: "bool list"

abbreviation (input) PACER_INTERFACES :: nat where "PACER_INTERFACES \<equiv> 16"

definition TxPacer_Reset :: TxPacer where
  "TxPacer_Reset = \<lparr>tp_credit = replicate PACER_INTERFACES 0, tp_last_tx_dropped = replicate PACER_INTERFACES 0,
     tp_seen = replicate PACER_INTERFACES False\<rparr>"

definition TxPacer_Update :: "TxPacer \<Rightarrow> nat \<Rightarrow> nat \<Rightarrow> nat \<Rightarrow> nat \<times> TxPacer" where
  "TxPacer_Update self interface_index advertised_rate tx_dropped =
     (if PACER_INTERFACES \<le> interface_index then (advertised_rate, self)
      else if \<not> tp_seen self ! interface_index
      then (advertised_rate,
        self\<lparr>tp_seen := (tp_seen self)[interface_index := True],
             tp_last_tx_dropped := (tp_last_tx_dropped self)[interface_index := tx_dropped],
             tp_credit := (tp_credit self)[interface_index := advertised_rate]\<rparr>)
      else
        let credit = tp_credit self ! interface_index;
            credit =
              (if tp_last_tx_dropped self ! interface_index < tx_dropped
               then let floor_rate = advertised_rate div 16; credit = wrap 32 (credit * 4 div 5)
                    in if credit < floor_rate then floor_rate else credit
               else let credit = wrap 32 (credit + advertised_rate div 8)
                    in if advertised_rate < credit then advertised_rate else credit)
        in (credit, self\<lparr>tp_credit := (tp_credit self)[interface_index := credit],
              tp_last_tx_dropped := (tp_last_tx_dropped self)[interface_index := tx_dropped]\<rparr>))"

text \<open>One status window of one interface: the index, the advertised rate, the drop counter.\<close>

fun pacer_step :: "TxPacer \<Rightarrow> nat \<times> nat \<times> nat \<Rightarrow> nat \<times> TxPacer" where
  "pacer_step p (i, rate, dropped) = TxPacer_Update p i rate dropped"

definition pacer_inv :: "nat \<Rightarrow> nat \<Rightarrow> TxPacer \<Rightarrow> bool" where
  "pacer_inv i peak p \<longleftrightarrow> length (tp_credit p) = 16 \<and> length (tp_last_tx_dropped p) = 16 \<and> length (tp_seen p) = 16 \<and>
     (tp_seen p ! i \<longrightarrow> tp_credit p ! i \<le> peak)"

text \<open>
  The rate is read anew for every window, so a credit is compared with the rate of its own window
  from below and with the highest rate advertised from above: a window with new drops only
  takes a fifth off the last credit, which may have been earned at a higher rate.  The windows of
  one interface never touch the others.
\<close>

lemma pacer_wrap:
  assumes "peak + peak div 8 < (2 :: nat) ^ 32" and "c \<le> peak"
  shows "wrap 32 (c * 4 div 5) = c * 4 div 5" and "r \<le> peak \<Longrightarrow> wrap 32 (c + r div 8) = c + r div 8"
proof -
  have "r div 8 \<le> peak div 8" if "r \<le> peak"
    using that by (rule div_le_mono)
  then show "r \<le> peak \<Longrightarrow> wrap 32 (c + r div 8) = c + r div 8"
    using assms by (intro wrap_id) linarith
qed (use assms in \<open>intro wrap_id; simp\<close>)

lemma Update_bounds:
  assumes inv: "pacer_inv i peak p" and i: "i < 16" and peak: "peak + peak div 8 < 2 ^ 32"
    and x: "fst x = i \<Longrightarrow> fst (snd x) \<le> peak"
  shows "pacer_inv i peak (snd (pacer_step p x))"
    and "fst x = i \<Longrightarrow> fst (snd x) div 16 \<le> fst (pacer_step p x) \<and> fst (pacer_step p x) \<le> peak"
proof -
  obtain j r d where [simp]: "x = (j, r, d)"
    by (cases x) auto
  have "pacer_inv i peak (snd (pacer_step p x)) \<and>
    (j = i \<longrightarrow> r div 16 \<le> fst (pacer_step p x) \<and> fst (pacer_step p x) \<le> peak)"
  proof (cases "j = i")
    case True
    then have "r \<le> peak"
      using x by simp
    moreover have "r div 16 \<le> r div 8"
      by linarith
    ultimately show ?thesis
      using inv i True pacer_wrap(1) [OF peak, of "tp_credit p ! i"] pacer_wrap(2) [OF peak, of "tp_credit p ! i" r]
      by (auto simp: pacer_inv_def TxPacer_Update_def Let_def nth_list_update)
  next
    case False
    then show ?thesis
      using inv i by (auto simp: pacer_inv_def TxPacer_Update_def Let_def nth_list_update)
  qed
  then show "pacer_inv i peak (snd (pacer_step p x))"
    and "fst x = i \<Longrightarrow> fst (snd x) div 16 \<le> fst (pacer_step p x) \<and> fst (pacer_step p x) \<le> peak"
    by simp_all
qed

lemma run_bounds:
  assumes i: "i < 16" and peak: "peak + peak div 8 < 2 ^ 32"
  shows "pacer_inv i peak p \<Longrightarrow> list_all (\<lambda>w. fst w = i \<longrightarrow> fst (snd w) \<le> peak) ws \<Longrightarrow>
    pacer_inv i peak (snd (run pacer_step p ws)) \<and>
    list_all2 (\<lambda>c w. fst w = i \<longrightarrow> fst (snd w) div 16 \<le> c \<and> c \<le> peak) (fst (run pacer_step p ws)) ws"
proof (induction ws arbitrary: p)
  case (Cons w ws)
  then show ?case
    using Update_bounds [OF Cons.prems(1) i peak, of w] by simp
qed simp

definition clean_window :: "nat \<Rightarrow> nat \<Rightarrow> nat \<Rightarrow> nat \<Rightarrow> TxPacer \<Rightarrow> bool" where
  "clean_window i peak d c p \<longleftrightarrow> pacer_inv i peak p \<and> tp_seen p ! i \<and> tp_last_tx_dropped p ! i = d \<and> tp_credit p ! i = c"

lemma Update_seen:
  assumes "pacer_inv i peak p" and "i < 16" and "peak + peak div 8 < 2 ^ 32" and "rate \<le> peak"
  shows "clean_window i peak d (fst (pacer_step p (i, rate, d))) (snd (pacer_step p (i, rate, d)))"
  using Update_bounds(1) [OF assms(1-3), of "(i, rate, d)"] assms(1,2,4)
  by (auto simp: clean_window_def pacer_inv_def TxPacer_Update_def Let_def)

lemma Update_clean:
  assumes "clean_window i peak e c p" and "i < 16" and "peak + peak div 8 < 2 ^ 32" and "rate \<le> peak" and "d \<le> e"
  shows "fst (pacer_step p (i, rate, d)) = min rate (c + rate div 8)"
proof -
  have "c \<le> peak"
    using assms(1) by (auto simp: clean_window_def pacer_inv_def)
  from pacer_wrap(2) [OF assms(3) this assms(4)] show ?thesis
    using assms by (auto simp: clean_window_def TxPacer_Update_def Let_def)
qed

lemma clean_run:
  assumes i: "i < 16" and peak: "peak + peak div 8 < 2 ^ 32" and rate: "rate \<le> peak"
  shows "clean_window i peak d c p \<Longrightarrow>
    clean_window i peak d (min rate (c + Suc k * (rate div 8)))
      (snd (run pacer_step p (replicate (Suc k) (i, rate, d))))"
proof (induction k arbitrary: p c)
  case 0
  then have "pacer_inv i peak p"
    by (simp add: clean_window_def)
  from Update_seen [OF this i peak rate, of d] show ?case
    using Update_clean [OF 0 i peak rate order_refl] by simp
next
  case (Suc k)
  have inv: "pacer_inv i peak p"
    using Suc.prems by (simp add: clean_window_def)
  have "clean_window i peak d (min rate (c + rate div 8)) (snd (pacer_step p (i, rate, d)))"
    using Update_seen [OF inv i peak rate, of d] Update_clean [OF Suc.prems i peak rate order_refl] by simp
  moreover have "min rate (min rate (c + rate div 8) + Suc k * (rate div 8)) = min rate (c + Suc (Suc k) * (rate div 8))"
    by (simp add: min_def algebra_simps)
  ultimately show ?case
    using Suc.IH by (metis replicate_Suc run_Cons snd_conv)
qed

text \<open>
  C22.  The credit an agent reports for an interface, when the rate advertised may change from
  window to window: it is at least a sixteenth of the rate advertised in its own window and at
  most the highest rate advertised so far, whatever the drop counters and whatever the other
  interfaces report; a window without a new drop reports at most its own rate; and nine windows
  without a new drop bring it back to the rate they advertise, when that is at least 112.
\<close>

theorem TxPacer_credit_bounds:
  assumes "i < 16" and "112 \<le> rate" and "rate \<le> peak" and "peak + peak div 8 < 2 ^ 32"
    and "list_all (\<lambda>w. fst w = i \<longrightarrow> fst (snd w) \<le> peak) ws" and "r \<le> peak" and "d \<le> e"
  shows "list_all2 (\<lambda>c w. fst w = i \<longrightarrow> fst (snd w) div 16 \<le> c \<and> c \<le> peak) (fst (run pacer_step TxPacer_Reset ws)) ws \<and>
    fst (pacer_step (snd (run pacer_step TxPacer_Reset (ws @ [(i, r, e)]))) (i, rate, d)) \<le> rate \<and>
    fst (pacer_step (snd (run pacer_step TxPacer_Reset (ws @ replicate 9 (i, rate, d)))) (i, rate, d)) = rate"
proof (intro conjI)
  have reset: "pacer_inv i peak TxPacer_Reset"
    using assms(1) by (simp add: pacer_inv_def TxPacer_Reset_def)
  note bounds = run_bounds [OF assms(1,4) reset assms(5)]
  then show "list_all2 (\<lambda>c w. fst w = i \<longrightarrow> fst (snd w) div 16 \<le> c \<and> c \<le> peak)
      (fst (run pacer_step TxPacer_Reset ws)) ws"
    by simp
  let ?p = "snd (run pacer_step TxPacer_Reset ws)"
  note seen = Update_seen [OF conjunct1 [OF bounds] assms(1,4)]
  show "fst (pacer_step (snd (run pacer_step TxPacer_Reset (ws @ [(i, r, e)]))) (i, rate, d)) \<le> rate"
    using Update_clean [OF seen [OF assms(6), of e] assms(1,4,3,7)] by (simp add: run_snd_append)
  let ?c = "fst (pacer_step ?p (i, rate, d))"
  have "rate div 16 \<le> ?c"
    using Update_bounds(2) [OF conjunct1 [OF bounds] assms(1,4), of "(i, rate, d)"] assms(3) by simp
  then have "rate \<le> ?c + 8 * (rate div 8)"
    using assms(2) by linarith
  then have "min rate (?c + 8 * (rate div 8)) = rate"
    by (rule min_absorb1)
  moreover have "Suc 7 = 8"
    by simp
  ultimately have "clean_window i peak d rate (snd (run pacer_step (snd (pacer_step ?p (i, rate, d))) (replicate 8 (i, rate, d))))"
    using clean_run [OF assms(1,4,3) seen [OF assms(3), of d], of 7] by (simp only:)
  from Update_clean [OF this assms(1,4,3) order_refl]
  have "fst (pacer_step (snd (run pacer_step (snd (pacer_step ?p (i, rate, d))) (replicate 8 (i, rate, d)))) (i, rate, d)) = rate"
    by (simp only: min_absorb1 le_add1)
  moreover have "replicate 9 w = w # replicate 8 w" for w :: "nat \<times> nat \<times> nat"
    by (simp add: numeral_eq_Suc)
  ultimately show "fst (pacer_step (snd (run pacer_step TxPacer_Reset (ws @ replicate 9 (i, rate, d)))) (i, rate, d)) = rate"
    by (simp only: run_snd_append run_Cons snd_conv)
qed

theorem TxPacer_credit_bounds_witness:
  "(0 :: nat) < 16 \<and> (112 :: nat) \<le> 250000 \<and> (500000 :: nat) + 500000 div 8 < 2 ^ 32 \<and>
   fst (run pacer_step TxPacer_Reset [(0, 500000, 0), (0, 500000, 5), (1, 9, 2), (0, 250000, 9)]) =
     [500000, 400000, 9, 320000] \<and>
   fst (pacer_step (snd (run pacer_step TxPacer_Reset
     ([(0, 500000, 0), (0, 500000, 5), (1, 9, 2), (0, 250000, 9)] @ replicate 9 (0, 250000, 9)))) (0, 250000, 9)) = 250000"
proof -
  have "fst (run pacer_step TxPacer_Reset [(0, 500000, 0), (0, 500000, 5), (1, 9, 2), (0, 250000, 9)]) =
      [500000, 400000, 9, 320000]"
    by (simp add: TxPacer_Reset_def TxPacer_Update_def wrap_def Let_def nth_list_update)
  then show ?thesis
    using TxPacer_credit_bounds [of 0 250000 500000 "[(0, 500000, 0), (0, 500000, 5), (1, 9, 2), (0, 250000, 9)]" 250000 9 9]
    by simp
qed

end
