(* ===== verification/InterfaceRegistry.thy ===== *)
theory InterfaceRegistry
  imports SlotTable FrameMessage ListingMessages Pacing
begin

text \<open>
  The hub's catalogue of interfaces (\<open>hub/domain/interface_registry.c\<close>): 256 entries, a
  pointer to an entry being the entry itself or its index.  Interface ids are 32-bit words
  handed out in sequence; frame and drop counts are natural numbers, the 64-bit frame
  count with its wrap written out.
\<close>

section \<open>The registry\<close>

abbreviation (input) INTERFACE_REGISTRY_MAX :: nat where "INTERFACE_REGISTRY_MAX \<equiv> 256"

abbreviation (input) INTERFACE_REGISTRY_HUB_PEER :: u32 where "INTERFACE_REGISTRY_HUB_PEER \<equiv> 0"

abbreviation (input) PACE_EFFECTIVE_PERCENT :: nat where "PACE_EFFECTIVE_PERCENT \<equiv> 80"

abbreviation (input) PACE_BURST_BITS :: nat where "PACE_BURST_BITS \<equiv> 8192"

abbreviation (input) REGISTER_STATUS_OK :: u8 where "REGISTER_STATUS_OK \<equiv> 0"

abbreviation (input) REGISTER_STATUS_REJECTED :: u8 where "REGISTER_STATUS_REJECTED \<equiv> 1"

abbreviation (input) LIST_REPLY_FLAG_MORE :: u8 where "LIST_REPLY_FLAG_MORE \<equiv> 1"

record InterfaceEntry =
  ie_in_use :: bool
  ie_interface_id :: u32
  ie_agent_peer_id :: u32
  ie_agent_channel :: u8
  ie_frames_received :: nat
  ie_tx_dropped :: nat
  ie_advertised_rate :: nat
  ie_fd_reported :: bool
  ie_fd_capable :: bool
  ie_shaper :: EgressShaper
  ie_agent_name :: bytes
  ie_interface_name :: bytes

record InterfaceRegistry =
  ir_entries :: "InterfaceEntry list"
  ir_next_interface_id :: u32

definition InterfaceEntry_zero :: InterfaceEntry where
  "InterfaceEntry_zero = \<lparr>ie_in_use = False, ie_interface_id = 0, ie_agent_peer_id = 0, ie_agent_channel = 0,
     ie_frames_received = 0, ie_tx_dropped = 0, ie_advertised_rate = 0, ie_fd_reported = False, ie_fd_capable = False,
     ie_shaper = \<lparr>es_rate_bits_per_s = 0, es_tokens_bits = 0, es_burst_bits = 0, es_remainder = 0, es_last_us = 0\<rparr>,
     ie_agent_name = replicate REGISTER_AGENT_NAME_SIZE 0, ie_interface_name = replicate REGISTER_INTERFACE_NAME_SIZE 0\<rparr>"

definition InterfaceRegistry_Reset :: InterfaceRegistry where
  "InterfaceRegistry_Reset =
     \<lparr>ir_entries = replicate INTERFACE_REGISTRY_MAX InterfaceEntry_zero, ir_next_interface_id = 1\<rparr>"

definition namesMatch :: "InterfaceEntry \<Rightarrow> bytes \<Rightarrow> bytes \<Rightarrow> bool" where
  "namesMatch entry agent_name interface_name \<longleftrightarrow>
     str_eq (ie_agent_name entry) agent_name \<and> str_eq (ie_interface_name entry) interface_name"

definition isPeerRegistered :: "InterfaceRegistry \<Rightarrow> u32 \<Rightarrow> bool" where
  "isPeerRegistered self agent_peer_id =
     list_ex (\<lambda>e. ie_in_use e \<and> ie_agent_peer_id e = agent_peer_id) (ir_entries self)"

definition matches_registration :: "RegisterMessage \<Rightarrow> InterfaceEntry \<Rightarrow> bool" where
  "matches_registration registration e \<longleftrightarrow> ie_in_use e \<and>
     list_ex (\<lambda>i. namesMatch e (reg_agent_name registration) (reg_interface_names registration ! i))
       [0..<unat (reg_interface_count registration)]"

definition isRegistrationColliding :: "InterfaceRegistry \<Rightarrow> RegisterMessage \<Rightarrow> bool" where
  "isRegistrationColliding self registration = list_ex (matches_registration registration) (ir_entries self)"

definition findFreeEntry :: "InterfaceRegistry \<Rightarrow> nat option" where
  "findFreeEntry self = find_index (\<lambda>e. \<not> ie_in_use e) (ir_entries self)"

definition findMutableByAgentChannel :: "InterfaceRegistry \<Rightarrow> u32 \<Rightarrow> u8 \<Rightarrow> nat option" where
  "findMutableByAgentChannel self agent_peer_id agent_channel =
     find_index (\<lambda>e. ie_in_use e \<and> ie_agent_peer_id e = agent_peer_id \<and> ie_agent_channel e = agent_channel)
       (ir_entries self)"

definition InterfaceRegistry_RemovePeer :: "InterfaceRegistry \<Rightarrow> u32 \<Rightarrow> InterfaceRegistry" where
  "InterfaceRegistry_RemovePeer self agent_peer_id =
     self\<lparr>ir_entries := map (\<lambda>e. if ie_in_use e \<and> ie_agent_peer_id e = agent_peer_id then InterfaceEntry_zero else e)
       (ir_entries self)\<rparr>"

text \<open>The loop of \<open>RegisterAgent\<close> over the interface indices still to be entered.\<close>

fun register_interfaces ::
    "nat list \<Rightarrow> u32 \<Rightarrow> RegisterMessage \<Rightarrow> InterfaceRegistry \<Rightarrow> RegisterAckMessage \<Rightarrow>
     bool \<times> RegisterAckMessage \<times> InterfaceRegistry" where
  "register_interfaces [] agent_peer_id registration self ack = (True, ack\<lparr>rack_status := REGISTER_STATUS_OK\<rparr>, self)"
| "register_interfaces (i # is) agent_peer_id registration self ack =
     (case findFreeEntry self of
        None \<Rightarrow>
          (False, ack\<lparr>rack_status := REGISTER_STATUS_REJECTED\<rparr>, InterfaceRegistry_RemovePeer self agent_peer_id)
      | Some k \<Rightarrow>
          let entry = (ir_entries self ! k)\<lparr>ie_in_use := True, ie_interface_id := ir_next_interface_id self,
                ie_agent_peer_id := agent_peer_id, ie_agent_channel := of_nat i,
                ie_fd_reported := reg_fd_reported registration,
                ie_fd_capable := bit (reg_fd_interfaces registration) i,
                ie_agent_name := reg_agent_name registration,
                ie_interface_name := reg_interface_names registration ! i\<rparr>
          in register_interfaces is agent_peer_id registration
               (self\<lparr>ir_entries := (ir_entries self)[k := entry], ir_next_interface_id := ir_next_interface_id self + 1\<rparr>)
               (ack\<lparr>rack_channels := (rack_channels ack)[i := ie_agent_channel entry]\<rparr>))"

definition InterfaceRegistry_RegisterAgent ::
    "InterfaceRegistry \<Rightarrow> u32 \<Rightarrow> RegisterMessage \<Rightarrow> bool \<times> RegisterAckMessage \<times> InterfaceRegistry" where
  "InterfaceRegistry_RegisterAgent self agent_peer_id registration =
     (let ack = \<lparr>rack_status = 0, rack_interface_count = reg_interface_count registration,
                 rack_channels = replicate REGISTER_INTERFACES_MAX 0\<rparr>
      in if isPeerRegistered self agent_peer_id then (False, ack\<lparr>rack_status := REGISTER_STATUS_REJECTED\<rparr>, self)
         else if isRegistrationColliding self registration
         then (False, ack\<lparr>rack_status := REGISTER_STATUS_REJECTED\<rparr>, self)
         else register_interfaces [0..<unat (reg_interface_count registration)] agent_peer_id registration self ack)"

definition InterfaceRegistry_FindByName :: "InterfaceRegistry \<Rightarrow> bytes \<Rightarrow> bytes \<Rightarrow> InterfaceEntry option" where
  "InterfaceRegistry_FindByName self agent_name interface_name =
     find (\<lambda>e. ie_in_use e \<and> namesMatch e agent_name interface_name) (ir_entries self)"

definition InterfaceRegistry_AddVirtual ::
    "InterfaceRegistry \<Rightarrow> bytes \<Rightarrow> bytes \<Rightarrow> InterfaceEntry option \<times> InterfaceRegistry" where
  "InterfaceRegistry_AddVirtual self agent_name interface_name =
     (if InterfaceRegistry_FindByName self agent_name interface_name \<noteq> None then (None, self)
      else case findFreeEntry self of
        None \<Rightarrow> (None, self)
      | Some k \<Rightarrow>
          let e = ir_entries self ! k;
              e = e\<lparr>ie_in_use := True, ie_interface_id := ir_next_interface_id self,
                    ie_agent_peer_id := INTERFACE_REGISTRY_HUB_PEER,
                    ie_agent_name := BoundedString_Copy (ie_agent_name e) (Some agent_name),
                    ie_interface_name := BoundedString_Copy (ie_interface_name e) (Some interface_name)\<rparr>
          in (Some e, self\<lparr>ir_entries := (ir_entries self)[k := e], ir_next_interface_id := ir_next_interface_id self + 1\<rparr>))"

definition InterfaceEntry_IsVirtual :: "InterfaceEntry \<Rightarrow> bool" where
  "InterfaceEntry_IsVirtual entry \<longleftrightarrow> ie_agent_peer_id entry = INTERFACE_REGISTRY_HUB_PEER"

definition InterfaceRegistry_RemoveVirtual :: "InterfaceRegistry \<Rightarrow> u32 \<Rightarrow> InterfaceRegistry" where
  "InterfaceRegistry_RemoveVirtual self interface_id =
     self\<lparr>ir_entries := map (\<lambda>e. if ie_in_use e \<and> ie_interface_id e = interface_id \<and> InterfaceEntry_IsVirtual e
       then InterfaceEntry_zero else e) (ir_entries self)\<rparr>"

definition InterfaceEntry_RefusesFrame :: "InterfaceEntry \<Rightarrow> u8 \<Rightarrow> bool" where
  "InterfaceEntry_RefusesFrame entry frame_flags \<longleftrightarrow>
     frame_flags AND FRAME_FLAG_FD \<noteq> 0 \<and> ie_fd_reported entry \<and> \<not> ie_fd_capable entry"

definition InterfaceRegistry_SetFdCapable :: "InterfaceRegistry \<Rightarrow> u32 \<Rightarrow> bool \<Rightarrow> InterfaceRegistry" where
  "InterfaceRegistry_SetFdCapable self interface_id fd_capable =
     self\<lparr>ir_entries := map (\<lambda>e. if ie_in_use e \<and> ie_interface_id e = interface_id
       then e\<lparr>ie_fd_reported := True, ie_fd_capable := fd_capable\<rparr> else e) (ir_entries self)\<rparr>"

definition InterfaceRegistry_CollidingPeer :: "InterfaceRegistry \<Rightarrow> RegisterMessage \<Rightarrow> u32 option" where
  "InterfaceRegistry_CollidingPeer self registration =
     map_option ie_agent_peer_id (find (matches_registration registration) (ir_entries self))"

definition InterfaceRegistry_FindById :: "InterfaceRegistry \<Rightarrow> u32 \<Rightarrow> InterfaceEntry option" where
  "InterfaceRegistry_FindById self interface_id =
     find (\<lambda>e. ie_in_use e \<and> ie_interface_id e = interface_id) (ir_entries self)"

definition InterfaceRegistry_FindByAgentChannel :: "InterfaceRegistry \<Rightarrow> u32 \<Rightarrow> u8 \<Rightarrow> InterfaceEntry option" where
  "InterfaceRegistry_FindByAgentChannel self agent_peer_id agent_channel =
     find (\<lambda>e. ie_in_use e \<and> ie_agent_peer_id e = agent_peer_id \<and> ie_agent_channel e = agent_channel) (ir_entries self)"

definition listed :: "InterfaceEntry \<Rightarrow> ListReplyEntry" where
  "listed e = \<lparr>le_interface_id = ie_interface_id e, le_agent_name = ie_agent_name e, le_interface_name = ie_interface_name e\<rparr>"

definition InterfaceRegistry_List :: "InterfaceRegistry \<Rightarrow> nat \<Rightarrow> ListReplyMessage" where
  "InterfaceRegistry_List self offset =
     (let (more, page) = page_scan ie_in_use LIST_REPLY_ENTRIES_MAX offset (ir_entries self) 0 []
      in \<lparr>lr_count = of_nat (length page), lr_flags = (if more then LIST_REPLY_FLAG_MORE else 0),
          lr_entries = map listed page @ replicate (LIST_REPLY_ENTRIES_MAX - length page)
            \<lparr>le_interface_id = 0, le_agent_name = replicate REGISTER_AGENT_NAME_SIZE 0,
             le_interface_name = replicate REGISTER_INTERFACE_NAME_SIZE 0\<rparr>\<rparr>)"

definition InterfaceRegistry_Count :: "InterfaceRegistry \<Rightarrow> nat" where
  "InterfaceRegistry_Count self = length (filter ie_in_use (ir_entries self))"

definition update_entry :: "InterfaceRegistry \<Rightarrow> nat \<Rightarrow> (InterfaceEntry \<Rightarrow> InterfaceEntry) \<Rightarrow> InterfaceRegistry" where
  "update_entry self k f = self\<lparr>ir_entries := (ir_entries self)[k := f (ir_entries self ! k)]\<rparr>"

definition InterfaceRegistry_CountFrame :: "InterfaceRegistry \<Rightarrow> u32 \<Rightarrow> InterfaceRegistry" where
  "InterfaceRegistry_CountFrame self interface_id =
     (case find_index (\<lambda>e. ie_in_use e \<and> ie_interface_id e = interface_id) (ir_entries self) of
        Some k \<Rightarrow> update_entry self k (\<lambda>e. e\<lparr>ie_frames_received := wrap 64 (ie_frames_received e + 1)\<rparr>)
      | None \<Rightarrow> self)"

definition InterfaceRegistry_SetTxDropped :: "InterfaceRegistry \<Rightarrow> u32 \<Rightarrow> u8 \<Rightarrow> nat \<Rightarrow> InterfaceRegistry" where
  "InterfaceRegistry_SetTxDropped self agent_peer_id agent_channel tx_dropped =
     (case findMutableByAgentChannel self agent_peer_id agent_channel of
        Some k \<Rightarrow> update_entry self k (\<lambda>e. e\<lparr>ie_tx_dropped := tx_dropped\<rparr>)
      | None \<Rightarrow> self)"

definition pace_entry :: "nat \<Rightarrow> nat \<Rightarrow> nat \<Rightarrow> InterfaceEntry \<Rightarrow> InterfaceEntry" where
  "pace_entry advertised_rate paced_rate now_us e =
     e\<lparr>ie_advertised_rate := advertised_rate,
       ie_shaper := (if es_burst_bits (ie_shaper e) = 0 then EgressShaper_Init now_us paced_rate PACE_BURST_BITS
                     else EgressShaper_SetRate (ie_shaper e) paced_rate)\<rparr>"

definition InterfaceRegistry_ApplyAdvertisedRate ::
    "InterfaceRegistry \<Rightarrow> u32 \<Rightarrow> u8 \<Rightarrow> nat \<Rightarrow> nat \<Rightarrow> nat \<Rightarrow> InterfaceRegistry" where
  "InterfaceRegistry_ApplyAdvertisedRate self agent_peer_id agent_channel advertised_rate credit now_us =
     (let effective_rate = (if credit \<noteq> 0 then credit else advertised_rate);
          paced_rate = wrap 32 (wrap 64 (effective_rate * PACE_EFFECTIVE_PERCENT) div 100)
      in case findMutableByAgentChannel self agent_peer_id agent_channel of
           None \<Rightarrow> self
         | Some k \<Rightarrow> update_entry self k (pace_entry advertised_rate paced_rate now_us))"

definition InterfaceRegistry_TryEgress ::
    "InterfaceRegistry \<Rightarrow> u32 \<Rightarrow> u8 \<Rightarrow> nat \<Rightarrow> nat \<Rightarrow> bool \<times> InterfaceRegistry" where
  "InterfaceRegistry_TryEgress self agent_peer_id agent_channel bits now_us =
     (case findMutableByAgentChannel self agent_peer_id agent_channel of
        None \<Rightarrow> (True, self)
      | Some k \<Rightarrow>
          let (sent, shaper) = EgressShaper_TryConsume (EgressShaper_Refill (ie_shaper (ir_entries self ! k)) now_us) bits
          in (sent, update_entry self k (\<lambda>e. e\<lparr>ie_shaper := shaper\<rparr>)))"

definition InterfaceRegistry_EgressDelayUs ::
    "InterfaceRegistry \<Rightarrow> u32 \<Rightarrow> u8 \<Rightarrow> nat \<Rightarrow> nat \<Rightarrow> nat \<times> InterfaceRegistry" where
  "InterfaceRegistry_EgressDelayUs self agent_peer_id agent_channel bits now_us =
     (case findMutableByAgentChannel self agent_peer_id agent_channel of
        None \<Rightarrow> (0, self)
      | Some k \<Rightarrow>
          let shaper = EgressShaper_Refill (ie_shaper (ir_entries self ! k)) now_us
          in (EgressShaper_DelayUs shaper bits, update_entry self k (\<lambda>e. e\<lparr>ie_shaper := shaper\<rparr>)))"

section \<open>The registry as a map from interface ids\<close>

definition agent_key :: "InterfaceEntry \<Rightarrow> u32 \<times> u8" where
  "agent_key e = (ie_agent_peer_id e, ie_agent_channel e)"

definition agent_entry :: "InterfaceEntry \<Rightarrow> bool" where
  "agent_entry e \<longleftrightarrow> ie_in_use e \<and> \<not> InterfaceEntry_IsVirtual e"

definition InterfaceRegistry_inv :: "InterfaceRegistry \<Rightarrow> bool" where
  "InterfaceRegistry_inv s \<longleftrightarrow> length (ir_entries s) = INTERFACE_REGISTRY_MAX \<and>
     slots_distinct ie_in_use ie_interface_id (ir_entries s) \<and> slots_distinct agent_entry agent_key (ir_entries s) \<and>
     0 < unat (ir_next_interface_id s) \<and>
     (\<forall>e \<in> set (ir_entries s). (\<not> ie_in_use e \<longrightarrow> e = InterfaceEntry_zero) \<and>
        (ie_in_use e \<longrightarrow> 0 < unat (ie_interface_id e) \<and> unat (ie_interface_id e) < unat (ir_next_interface_id s)))"

type_synonym registry = "(u32 \<Rightarrow> InterfaceEntry option) \<times> u32"

definition registry_abs :: "InterfaceRegistry \<Rightarrow> registry" where
  "registry_abs s = (slot_map ie_in_use ie_interface_id (ir_entries s), ir_next_interface_id s)"

datatype RegistryOp =
    RegistryRegister u32 RegisterMessage
  | RegistryRemovePeer u32
  | RegistryAddVirtual bytes bytes
  | RegistryRemoveVirtual u32
  | RegistrySetFd u32 bool
  | RegistryCountFrame u32
  | RegistrySetTxDropped u32 u8 nat
  | RegistryRate u32 u8 nat nat nat
  | RegistryTryEgress u32 u8 nat nat
  | RegistryDelay u32 u8 nat nat
  | RegistryFind u32
  | RegistryFindName bytes bytes
  | RegistryFindChannel u32 u8
  | RegistryColliding RegisterMessage
  | RegistryCount

datatype RegistryResult =
    RegistryAck bool RegisterAckMessage
  | RegistryDone
  | RegistryEntry "InterfaceEntry option"
  | RegistryPeer "u32 option"
  | RegistryFlag bool
  | RegistryNat nat

fun registry_step :: "InterfaceRegistry \<Rightarrow> RegistryOp \<Rightarrow> RegistryResult \<times> InterfaceRegistry" where
  "registry_step s (RegistryRegister p r) =
     (let (ok, ack, s) = InterfaceRegistry_RegisterAgent s p r in (RegistryAck ok ack, s))"
| "registry_step s (RegistryRemovePeer p) = (RegistryDone, InterfaceRegistry_RemovePeer s p)"
| "registry_step s (RegistryAddVirtual a n) = apfst RegistryEntry (InterfaceRegistry_AddVirtual s a n)"
| "registry_step s (RegistryRemoveVirtual i) = (RegistryDone, InterfaceRegistry_RemoveVirtual s i)"
| "registry_step s (RegistrySetFd i b) = (RegistryDone, InterfaceRegistry_SetFdCapable s i b)"
| "registry_step s (RegistryCountFrame i) = (RegistryDone, InterfaceRegistry_CountFrame s i)"
| "registry_step s (RegistrySetTxDropped p c n) = (RegistryDone, InterfaceRegistry_SetTxDropped s p c n)"
| "registry_step s (RegistryRate p c rate credit now) =
     (RegistryDone, InterfaceRegistry_ApplyAdvertisedRate s p c rate credit now)"
| "registry_step s (RegistryTryEgress p c bits now) = apfst RegistryFlag (InterfaceRegistry_TryEgress s p c bits now)"
| "registry_step s (RegistryDelay p c bits now) = apfst RegistryNat (InterfaceRegistry_EgressDelayUs s p c bits now)"
| "registry_step s (RegistryFind i) = (RegistryEntry (InterfaceRegistry_FindById s i), s)"
| "registry_step s (RegistryFindName a n) = (RegistryEntry (InterfaceRegistry_FindByName s a n), s)"
| "registry_step s (RegistryFindChannel p c) = (RegistryEntry (InterfaceRegistry_FindByAgentChannel s p c), s)"
| "registry_step s (RegistryColliding r) = (RegistryPeer (InterfaceRegistry_CollidingPeer s r), s)"
| "registry_step s RegistryCount = (RegistryNat (InterfaceRegistry_Count s), s)"

text \<open>How many ids a call may use up.\<close>

fun registry_cost :: "RegistryOp \<Rightarrow> nat" where
  "registry_cost (RegistryRegister p r) = unat (reg_interface_count r)"
| "registry_cost (RegistryAddVirtual a n) = 1"
| "registry_cost x = 0"

definition registered_entry :: "u32 \<Rightarrow> RegisterMessage \<Rightarrow> u32 \<Rightarrow> nat \<Rightarrow> InterfaceEntry" where
  "registered_entry p r interface_id i = InterfaceEntry_zero\<lparr>ie_in_use := True, ie_interface_id := interface_id,
     ie_agent_peer_id := p, ie_agent_channel := of_nat i, ie_fd_reported := reg_fd_reported r,
     ie_fd_capable := bit (reg_fd_interfaces r) i, ie_agent_name := reg_agent_name r,
     ie_interface_name := reg_interface_names r ! i\<rparr>"

text \<open>The entries of interfaces \<open>j\<close> to \<open>k - 1\<close> of a registration, numbered from \<open>n\<close>.\<close>

definition registered :: "u32 \<Rightarrow> RegisterMessage \<Rightarrow> u32 \<Rightarrow> nat \<Rightarrow> nat \<Rightarrow> u32 \<Rightarrow> InterfaceEntry option" where
  "registered p r n j k i =
     (if unat n \<le> unat i \<and> unat i < unat n + (k - j) then Some (registered_entry p r i (j + (unat i - unat n))) else None)"

definition virtual_entry :: "bytes \<Rightarrow> bytes \<Rightarrow> u32 \<Rightarrow> InterfaceEntry" where
  "virtual_entry a n i = InterfaceEntry_zero\<lparr>ie_in_use := True, ie_interface_id := i,
     ie_agent_name := BoundedString_Copy (replicate REGISTER_AGENT_NAME_SIZE 0) (Some a),
     ie_interface_name := BoundedString_Copy (replicate REGISTER_INTERFACE_NAME_SIZE 0) (Some n)\<rparr>"

text \<open>A call that looks an entry up by agent and channel changes that one, or none.\<close>

definition on_channel :: "u32 \<Rightarrow> u8 \<Rightarrow> (InterfaceEntry \<Rightarrow> RegistryResult \<times> InterfaceEntry) \<Rightarrow> RegistryResult \<Rightarrow>
    registry \<Rightarrow> RegistryResult \<Rightarrow> registry \<Rightarrow> bool" where
  "on_channel p c f none = (\<lambda>(m, n) r (m', n'). n' = n \<and>
     ((r = none \<and> m' = m \<and> (\<forall>e \<in> ran m. agent_key e \<noteq> (p, c))) \<or>
      (\<exists>i e. m i = Some e \<and> agent_key e = (p, c) \<and> r = fst (f e) \<and> m' = m(i \<mapsto> snd (f e)))))"

fun registry_post :: "registry \<Rightarrow> RegistryOp \<Rightarrow> RegistryResult \<Rightarrow> registry \<Rightarrow> bool" where
  "registry_post (m, n) (RegistryRegister p q) r (m', n') =
     (let k = unat (reg_interface_count q)
      in if (\<exists>e \<in> ran m. ie_agent_peer_id e = p \<or> matches_registration q e) \<or> 256 < card (dom m) + k
         then (\<exists>ack. r = RegistryAck False ack \<and> rack_status ack = REGISTER_STATUS_REJECTED) \<and> m' = m \<and> unat n \<le> unat n'
         else (\<exists>ack. r = RegistryAck True ack \<and> rack_status ack = REGISTER_STATUS_OK \<and>
                 rack_interface_count ack = reg_interface_count q \<and>
                 (\<forall>i < k. i < 16 \<longrightarrow> rack_channels ack ! i = of_nat i)) \<and>
              m' = m ++ registered p q n 0 k \<and> n' = n + of_nat k)"
| "registry_post (m, n) (RegistryRemovePeer p) r (m', n') =
     (r = RegistryDone \<and> n' = n \<and>
      m' = (\<lambda>i. case m i of None \<Rightarrow> None | Some e \<Rightarrow> if ie_agent_peer_id e = p then None else Some e))"
| "registry_post (m, n) (RegistryAddVirtual a f) r (m', n') =
     (if (\<exists>e \<in> ran m. namesMatch e a f) \<or> card (dom m) = 256 then r = RegistryEntry None \<and> m' = m \<and> n' = n
      else r = RegistryEntry (Some (virtual_entry a f n)) \<and> m' = m(n \<mapsto> virtual_entry a f n) \<and> n' = n + 1)"
| "registry_post (m, n) (RegistryRemoveVirtual i) r (m', n') =
     (r = RegistryDone \<and> n' = n \<and>
      m' = (case m i of None \<Rightarrow> m | Some e \<Rightarrow> if InterfaceEntry_IsVirtual e then m(i := None) else m))"
| "registry_post (m, n) (RegistrySetFd i b) r (m', n') =
     (r = RegistryDone \<and> n' = n \<and>
      m' = (case m i of None \<Rightarrow> m | Some e \<Rightarrow> m(i \<mapsto> e\<lparr>ie_fd_reported := True, ie_fd_capable := b\<rparr>)))"
| "registry_post (m, n) (RegistryCountFrame i) r (m', n') =
     (r = RegistryDone \<and> n' = n \<and>
      m' = (case m i of
          None \<Rightarrow> m
        | Some e \<Rightarrow> m(i \<mapsto> e\<lparr>ie_frames_received := (ie_frames_received e + 1) mod 2 ^ 64\<rparr>)))"
| "registry_post s (RegistrySetTxDropped p c k) r s' =
     on_channel p c (\<lambda>e. (RegistryDone, e\<lparr>ie_tx_dropped := k\<rparr>)) RegistryDone s r s'"
| "registry_post s (RegistryRate p c rate credit now) r s' =
     on_channel p c (\<lambda>e. (RegistryDone,
       pace_entry rate (wrap 32 (wrap 64 ((if credit = 0 then rate else credit) * 80) div 100)) now e)) RegistryDone s r s'"
| "registry_post s (RegistryTryEgress p c bits now) r s' =
     on_channel p c (\<lambda>e. let (sent, b) = EgressShaper_TryConsume (EgressShaper_Refill (ie_shaper e) now) bits
       in (RegistryFlag sent, e\<lparr>ie_shaper := b\<rparr>)) (RegistryFlag True) s r s'"
| "registry_post s (RegistryDelay p c bits now) r s' =
     on_channel p c (\<lambda>e. let b = EgressShaper_Refill (ie_shaper e) now
       in (RegistryNat (EgressShaper_DelayUs b bits), e\<lparr>ie_shaper := b\<rparr>)) (RegistryNat 0) s r s'"
| "registry_post (m, n) (RegistryFind i) r s' = (r = RegistryEntry (m i) \<and> s' = (m, n))"
| "registry_post (m, n) (RegistryFindName a f) r s' =
     (s' = (m, n) \<and>
      ((r = RegistryEntry None \<and> (\<forall>e \<in> ran m. \<not> namesMatch e a f)) \<or>
       (\<exists>e \<in> ran m. namesMatch e a f \<and> r = RegistryEntry (Some e))))"
| "registry_post s (RegistryFindChannel p c) r s' =
     on_channel p c (\<lambda>e. (RegistryEntry (Some e), e)) (RegistryEntry None) s r s'"
| "registry_post (m, n) (RegistryColliding q) r s' =
     (s' = (m, n) \<and>
      ((r = RegistryPeer None \<and> (\<forall>e \<in> ran m. \<not> matches_registration q e)) \<or>
       (\<exists>e \<in> ran m. matches_registration q e \<and> r = RegistryPeer (Some (ie_agent_peer_id e)))))"
| "registry_post (m, n) RegistryCount r s' = (s' = (m, n) \<and> r = RegistryNat (card (dom m)))"

interpretation entries: slot_table ie_in_use ie_interface_id InterfaceEntry_zero
  by unfold_locales (simp add: InterfaceEntry_zero_def)

interpretation agent_entries: slot_table agent_entry agent_key InterfaceEntry_zero
  by unfold_locales (simp add: InterfaceEntry_zero_def agent_entry_def)

lemma registry_distinct:
  assumes "InterfaceRegistry_inv s"
  shows "slots_distinct ie_in_use ie_interface_id (ir_entries s)" and "slots_distinct agent_entry agent_key (ir_entries s)"
    and "length (ir_entries s) = 256"
  using assms by (simp_all add: InterfaceRegistry_inv_def)

lemma registry_ran:
  "InterfaceRegistry_inv s \<Longrightarrow> ran (slot_map ie_in_use ie_interface_id (ir_entries s)) = {e \<in> set (ir_entries s). ie_in_use e}"
  by (simp add: entries.ran_live registry_distinct)

text \<open>Changing an entry in place keeps the invariant as long as its keys stay.\<close>

lemma update_entry_spec:
  assumes inv: "InterfaceRegistry_inv s" and k: "k < 256" and live: "ie_in_use (ir_entries s ! k)"
    and f: "\<And>e. ie_in_use (f e) = ie_in_use e" "\<And>e. ie_interface_id (f e) = ie_interface_id e" "\<And>e. agent_key (f e) = agent_key e"
  shows "InterfaceRegistry_inv (update_entry s k f) \<and> registry_abs (update_entry s k f) =
    ((slot_map ie_in_use ie_interface_id (ir_entries s))
       (ie_interface_id (ir_entries s ! k) \<mapsto> f (ir_entries s ! k)), ir_next_interface_id s)"
proof -
  let ?e = "ir_entries s ! k"
  note d = registry_distinct [OF inv]
  have k': "k < length (ir_entries s)"
    using k d by simp
  note store = entries.store_again [OF d(1) entries.index_at [OF d(1) k' live], of "f ?e"]
  have "agent_entry (f ?e) = agent_entry ?e"
    using f [of ?e] by (simp add: agent_entry_def InterfaceEntry_IsVirtual_def agent_key_def)
  then have "slots_distinct agent_entry agent_key ((ir_entries s)[k := f ?e])"
    using agent_entries.store_same [OF k', of "f ?e"] d(2) f(3) by simp
  moreover have "(\<not> ie_in_use e \<longrightarrow> e = InterfaceEntry_zero) \<and> (ie_in_use e \<longrightarrow> 0 < unat (ie_interface_id e) \<and>
      unat (ie_interface_id e) < unat (ir_next_interface_id s))" if "e \<in> set ((ir_entries s)[k := f ?e])" for e
    using set_update_subset_insert [of "ir_entries s" k "f ?e"] that inv f(1,2) [of ?e] live nth_mem [OF k']
    unfolding InterfaceRegistry_inv_def by auto
  ultimately show ?thesis
    using store f live d inv by (simp add: InterfaceRegistry_inv_def registry_abs_def update_entry_def)
qed

text \<open>The entry of an agent's channel.\<close>

lemma on_channel_spec:
  assumes inv: "InterfaceRegistry_inv s"
    and f: "\<And>e. ie_in_use (snd (f e)) = ie_in_use e" "\<And>e. ie_interface_id (snd (f e)) = ie_interface_id e"
      "\<And>e. agent_key (snd (f e)) = agent_key e"
  shows "(case findMutableByAgentChannel s p c of
      None \<Rightarrow> on_channel p c f r (registry_abs s) r (registry_abs s)
    | Some k \<Rightarrow> InterfaceRegistry_inv (update_entry s k (\<lambda>e. snd (f e))) \<and>
        on_channel p c f r (registry_abs s) (fst (f (ir_entries s ! k))) (registry_abs (update_entry s k (\<lambda>e. snd (f e)))))"
proof (cases "findMutableByAgentChannel s p c")
  case None
  then show ?thesis
    using None [unfolded findMutableByAgentChannel_def find_index_None] registry_ran [OF inv]
    by (auto simp: on_channel_def registry_abs_def agent_key_def)
next
  case (Some k)
  let ?e = "ir_entries s ! k"
  have at: "k < 256" "ie_in_use ?e" "agent_key ?e = (p, c)"
    using find_index_SomeD [OF Some [unfolded findMutableByAgentChannel_def]] registry_distinct [OF inv]
    by (auto simp: agent_key_def)
  then have "slot_map ie_in_use ie_interface_id (ir_entries s) (ie_interface_id ?e) = Some ?e"
    using registry_distinct [OF inv] by (intro entries.map_at) auto
  then show ?thesis
    using Some at update_entry_spec [OF inv at(1,2), of "\<lambda>e. snd (f e)"] f
    by (auto simp: on_channel_def registry_abs_def [of s])
qed

lemma of_map_id:
  "InterfaceRegistry_inv s \<Longrightarrow> slot_map ie_in_use ie_interface_id (ir_entries s) i = Some e \<Longrightarrow> ie_interface_id e = i"
  using entries.map_Some [OF registry_distinct(1)] by blast

lemma update_by_id:
  assumes inv: "InterfaceRegistry_inv s"
    and f: "\<And>e. ie_in_use (f e) = ie_in_use e" "\<And>e. ie_interface_id (f e) = ie_interface_id e" "\<And>e. agent_key (f e) = agent_key e"
  shows "(case find_index (\<lambda>e. ie_in_use e \<and> ie_interface_id e = i) (ir_entries s) of
      None \<Rightarrow> fst (registry_abs s) i = None
    | Some k \<Rightarrow> (\<exists>e. fst (registry_abs s) i = Some e \<and> InterfaceRegistry_inv (update_entry s k f) \<and>
        registry_abs (update_entry s k f) = ((fst (registry_abs s))(i \<mapsto> f e), ir_next_interface_id s)))"
proof (cases "find_index (\<lambda>e. ie_in_use e \<and> ie_interface_id e = i) (ir_entries s)")
  case None
  then have "slot_map ie_in_use ie_interface_id (ir_entries s) i = None"
    by (simp add: entries.index_None)
  then show ?thesis
    using None by (simp add: registry_abs_def)
next
  case (Some k)
  have "k < 256" "ie_in_use (ir_entries s ! k)" "ie_interface_id (ir_entries s ! k) = i"
    using find_index_SomeD [OF Some] registry_distinct [OF inv] by auto
  then show ?thesis
    using Some entries.index_Some [OF Some] update_entry_spec [OF inv, of k f] f by (simp add: registry_abs_def)
qed

text \<open>Clearing entries.\<close>

lemma clear_spec:
  fixes P :: "InterfaceEntry \<Rightarrow> bool"
  assumes inv: "InterfaceRegistry_inv s"
  defines "s' \<equiv> s\<lparr>ir_entries := map (\<lambda>e. if P e then InterfaceEntry_zero else e) (ir_entries s)\<rparr>"
  shows "InterfaceRegistry_inv s'" and "registry_abs s' =
    (\<lambda>i. case fst (registry_abs s) i of None \<Rightarrow> None | Some e \<Rightarrow> if P e then None else Some e, ir_next_interface_id s)"
proof -
  note d = registry_distinct [OF inv]
  note clear = entries.clear_each [OF d(1), of P] agent_entries.clear_each(1) [OF d(2), of P]
  have "\<not> ie_in_use InterfaceEntry_zero"
    by (rule entries.empty_free)
  then show "InterfaceRegistry_inv s'"
    using inv clear(1,3) by (auto simp: s'_def InterfaceRegistry_inv_def)
  show "registry_abs s' =
    (\<lambda>i. case fst (registry_abs s) i of None \<Rightarrow> None | Some e \<Rightarrow> if P e then None else Some e, ir_next_interface_id s)"
    using clear(2) by (simp add: s'_def registry_abs_def)
qed

text \<open>Entering a new interface under the next id.\<close>

definition enter :: "InterfaceRegistry \<Rightarrow> nat \<Rightarrow> InterfaceEntry \<Rightarrow> InterfaceRegistry" where
  "enter s k e = s\<lparr>ir_entries := (ir_entries s)[k := e], ir_next_interface_id := ir_next_interface_id s + 1\<rparr>"

lemma next_id: "unat (n :: u32) + 1 < 2 ^ 32 \<Longrightarrow> unat (n + 1) = unat n + 1"
  by (simp add: unat_word_ariths)

lemma free_entry_zero: "InterfaceRegistry_inv s \<Longrightarrow> findFreeEntry s = Some k \<Longrightarrow> ir_entries s ! k = InterfaceEntry_zero \<and> k < 256"
  using find_index_SomeD [of "\<lambda>e. \<not> ie_in_use e" "ir_entries s" k]
  by (auto simp: InterfaceRegistry_inv_def findFreeEntry_def)

lemma next_id_unused:
  assumes "InterfaceRegistry_inv s"
  shows "slot_map ie_in_use ie_interface_id (ir_entries s) (ir_next_interface_id s) = None"
  using assms unfolding entries.map_None InterfaceRegistry_inv_def by (metis less_irrefl nth_mem)

lemma enter_spec:
  assumes inv: "InterfaceRegistry_inv s" and free: "findFreeEntry s = Some k"
    and e: "ie_in_use e" "ie_interface_id e = ir_next_interface_id s"
    and room: "unat (ir_next_interface_id s) + 1 < 2 ^ 32"
    and key: "\<And>x. agent_entry e \<Longrightarrow> x \<in> set (ir_entries s) \<Longrightarrow> agent_entry x \<Longrightarrow> agent_key x \<noteq> agent_key e"
  shows "InterfaceRegistry_inv (enter s k e)"
    and "registry_abs (enter s k e) = ((fst (registry_abs s))(ir_next_interface_id s \<mapsto> e), ir_next_interface_id s + 1)"
    and "length (filter ie_in_use (ir_entries (enter s k e))) = Suc (length (filter ie_in_use (ir_entries s)))"
proof -
  note d = registry_distinct [OF inv]
  note new = entries.store_new [OF d(1) free [unfolded findFreeEntry_def], of e]
  have unused: "slot_map ie_in_use ie_interface_id (ir_entries s) (ie_interface_id e) = None"
    using next_id_unused [OF inv] e by simp
  have "slots_distinct agent_entry agent_key ((ir_entries s)[k := e])"
    using key by (intro agent_entries.distinct_store [OF d(2)]) (metis nth_mem)
  moreover have "(\<not> ie_in_use x \<longrightarrow> x = InterfaceEntry_zero) \<and> (ie_in_use x \<longrightarrow> 0 < unat (ie_interface_id x) \<and>
      unat (ie_interface_id x) < unat (ir_next_interface_id s) + 1)" if "x \<in> set ((ir_entries s)[k := e])" for x
  proof -
    have "x = e \<or> x \<in> set (ir_entries s)"
      using set_update_subset_insert [of "ir_entries s" k e] that by blast
    then show ?thesis
      using inv e unfolding InterfaceRegistry_inv_def by (auto simp: less_Suc_eq)
  qed
  ultimately show "InterfaceRegistry_inv (enter s k e)"
    using new(1) unused e inv next_id [OF room] by (simp add: InterfaceRegistry_inv_def enter_def)
  show "registry_abs (enter s k e) = ((fst (registry_abs s))(ir_next_interface_id s \<mapsto> e), ir_next_interface_id s + 1)"
    and "length (filter ie_in_use (ir_entries (enter s k e))) = Suc (length (filter ie_in_use (ir_entries s)))"
    using new(2,3) unused e by (simp_all add: registry_abs_def enter_def)
qed

lemma free_entry_iff:
  "InterfaceRegistry_inv s \<Longrightarrow> findFreeEntry s = None \<longleftrightarrow> length (filter ie_in_use (ir_entries s)) = 256"
  using entries.full_iff [OF registry_distinct(1)] entries.card_dom [OF registry_distinct(1)] registry_distinct(3)
  by (simp add: findFreeEntry_def)

lemma live_le: "InterfaceRegistry_inv s \<Longrightarrow> length (filter ie_in_use (ir_entries s)) \<le> 256"
  using length_filter_le [of ie_in_use "ir_entries s"] registry_distinct(3) by simp

lemma registered_step:
  assumes "unat n + 1 < 2 ^ 32" and "j < k"
  shows "m ++ registered p r n j k = m(n \<mapsto> registered_entry p r n j) ++ registered p r (n + 1) (Suc j) k"
proof (rule ext)
  fix i :: u32
  have "unat i = unat n \<longleftrightarrow> i = n"
    by (simp add: word_unat_eq_iff)
  moreover have "k - j = Suc (k - Suc j)" "j + (unat i - unat n) = Suc j + (unat i - Suc (unat n))" if "Suc (unat n) \<le> unat i"
    using assms(2) that by auto
  ultimately show "(m ++ registered p r n j k) i = (m(n \<mapsto> registered_entry p r n j) ++ registered p r (n + 1) (Suc j) k) i"
    using assms by (auto simp: registered_def map_add_def next_id)
qed

text \<open>
  The registration loop: with room for all, every interface is entered; without, the
  entries made so far are cleared again.
\<close>

lemma register_all:
  assumes "InterfaceRegistry_inv s" and "unat (ir_next_interface_id s) + (k - j) < 2 ^ 32" and "j \<le> k" and "k \<le> 256"
    and "length (filter ie_in_use (ir_entries s)) + (k - j) \<le> 256"
    and "\<And>x i. x \<in> set (ir_entries s) \<Longrightarrow> ie_in_use x \<Longrightarrow> j \<le> i \<Longrightarrow> i < k \<Longrightarrow> agent_key x \<noteq> (p, of_nat i)"
  shows "\<exists>ack' s'. register_interfaces [j..<k] p r s ack = (True, ack', s') \<and> InterfaceRegistry_inv s' \<and>
    registry_abs s' = (fst (registry_abs s) ++ registered p r (ir_next_interface_id s) j k,
      ir_next_interface_id s + of_nat (k - j)) \<and>
    rack_status ack' = REGISTER_STATUS_OK \<and> rack_interface_count ack' = rack_interface_count ack \<and>
    length (rack_channels ack') = length (rack_channels ack) \<and>
    (\<forall>i < length (rack_channels ack). rack_channels ack' ! i = (if j \<le> i \<and> i < k then of_nat i else rack_channels ack ! i))"
  using assms
proof (induction "k - j" arbitrary: j s ack)
  case 0
  then have "registered p r n j k = Map.empty" for n
    by (simp add: registered_def fun_eq_iff)
  then show ?case
    using 0 by (auto simp: registry_abs_def)
next
  case (Suc d)
  let ?n = "ir_next_interface_id s"
  let ?e = "registered_entry p r ?n j"
  have jk: "j < k" and room: "unat ?n + 1 < 2 ^ 32"
    using Suc.hyps(2) Suc.prems(2) by auto
  obtain f where free: "findFreeEntry s = Some f"
    using free_entry_iff [OF Suc.prems(1)] Suc.prems(5) jk by fastforce
  note zero = free_entry_zero [OF Suc.prems(1) free]
  have e: "ie_in_use ?e" "ie_interface_id ?e = ?n" "agent_key ?e = (p, of_nat j)"
    by (simp_all add: registered_entry_def agent_key_def)
  have "agent_key x \<noteq> agent_key ?e" if "x \<in> set (ir_entries s)" "agent_entry x" for x
    using Suc.prems(6) [OF that(1), of j] that(2) jk e by (simp add: agent_entry_def)
  note entered = enter_spec [OF Suc.prems(1) free e(1,2) room this]
  let ?ack = "ack\<lparr>rack_channels := (rack_channels ack)[j := of_nat j]\<rparr>"
  have loop: "register_interfaces [j..<k] p r s ack = register_interfaces [Suc j..<k] p r (enter s f ?e) ?ack"
    using jk free zero by (simp add: upt_conv_Cons enter_def registered_entry_def Let_def)
  have others: "agent_key x \<noteq> (p, of_nat i)"
    if "x \<in> set (ir_entries (enter s f ?e))" "ie_in_use x" "Suc j \<le> i" "i < k" for x i
  proof -
    have "x = ?e \<or> x \<in> set (ir_entries s)"
      using set_update_subset_insert [of "ir_entries s" f ?e] that(1) by (auto simp: enter_def)
    moreover have "(of_nat i :: u8) \<noteq> of_nat j"
      using that(3,4) Suc.prems(4) by (simp add: word_of_nat_eq_iff take_bit_eq_mod)
    ultimately show ?thesis
      using that e(3) Suc.prems(6) [of x i] by auto
  qed
  have next_n: "ir_next_interface_id (enter s f ?e) = ?n + 1"
    by (simp add: enter_def)
  have "unat (ir_next_interface_id (enter s f ?e)) + (k - Suc j) < 2 ^ 32"
    using Suc.prems(2) jk room by (simp add: next_n next_id)
  moreover have "length (filter ie_in_use (ir_entries (enter s f ?e))) + (k - Suc j) \<le> 256"
    using entered(3) Suc.prems(5) jk by simp
  ultimately have "\<exists>ack' s'. register_interfaces [Suc j..<k] p r (enter s f ?e) ?ack = (True, ack', s') \<and>
      InterfaceRegistry_inv s' \<and>
      registry_abs s' = (fst (registry_abs (enter s f ?e)) ++ registered p r (ir_next_interface_id (enter s f ?e)) (Suc j) k,
        ir_next_interface_id (enter s f ?e) + of_nat (k - Suc j)) \<and>
      rack_status ack' = REGISTER_STATUS_OK \<and> rack_interface_count ack' = rack_interface_count ?ack \<and>
      length (rack_channels ack') = length (rack_channels ?ack) \<and>
      (\<forall>i < length (rack_channels ?ack).
         rack_channels ack' ! i = (if Suc j \<le> i \<and> i < k then of_nat i else rack_channels ?ack ! i))"
    using Suc.hyps(2) jk Suc.prems(4) entered(1) others by (intro Suc.hyps(1)) simp_all
  then obtain ack' s' where ind: "register_interfaces [Suc j..<k] p r (enter s f ?e) ?ack = (True, ack', s')"
      "InterfaceRegistry_inv s'"
      "registry_abs s' = (fst (registry_abs (enter s f ?e)) ++ registered p r (?n + 1) (Suc j) k,
         ?n + 1 + of_nat (k - Suc j))"
      "rack_status ack' = REGISTER_STATUS_OK" "rack_interface_count ack' = rack_interface_count ack"
      "length (rack_channels ack') = length (rack_channels ack)"
      "\<forall>i < length (rack_channels ack).
         rack_channels ack' ! i = (if Suc j \<le> i \<and> i < k then of_nat i else (rack_channels ack)[j := of_nat j] ! i)"
    unfolding next_n by auto
  have "?n + of_nat (k - j) = ?n + 1 + of_nat (k - Suc j)"
    using jk by (simp add: Suc_diff_Suc [symmetric])
  moreover have "\<forall>i < length (rack_channels ack). rack_channels ack' ! i =
      (if j \<le> i \<and> i < k then of_nat i else rack_channels ack ! i)"
    using ind(7) jk by (auto simp: nth_list_update Suc_le_eq order.order_iff_strict)
  ultimately show ?case
    using loop ind(1-6) entered(2) registered_step [OF room jk] by auto
qed

lemma RemovePeer_enter:
  assumes "f < length (ir_entries s)" and "ir_entries s ! f = InterfaceEntry_zero" and "ie_in_use e" and "ie_agent_peer_id e = p"
  shows "InterfaceRegistry_RemovePeer (enter s f e) p =
    (InterfaceRegistry_RemovePeer s p)\<lparr>ir_next_interface_id := ir_next_interface_id s + 1\<rparr>"
proof -
  let ?c = "\<lambda>e. if ie_in_use e \<and> ie_agent_peer_id e = p then InterfaceEntry_zero else e"
  have "map ?c ((ir_entries s)[f := e]) = (map ?c (ir_entries s))[f := ?c (ir_entries s ! f)]"
    using assms(2-4) by (simp add: map_update)
  also have "\<dots> = map ?c (ir_entries s)"
    using map_update [of ?c "ir_entries s" f "ir_entries s ! f"] by (simp only: list_update_id)
  finally show ?thesis
    by (simp add: InterfaceRegistry_RemovePeer_def enter_def)
qed

lemma register_none:
  assumes "\<forall>e \<in> set (ir_entries s). \<not> ie_in_use e \<longrightarrow> e = InterfaceEntry_zero" and "length (ir_entries s) = 256"
    and "unat (ir_next_interface_id s) + (k - j) < 2 ^ 32" and "256 < length (filter ie_in_use (ir_entries s)) + (k - j)"
  shows "\<exists>ack' n'. register_interfaces [j..<k] p r s ack =
      (False, ack', (InterfaceRegistry_RemovePeer s p)\<lparr>ir_next_interface_id := n'\<rparr>) \<and>
    rack_status ack' = REGISTER_STATUS_REJECTED \<and> unat (ir_next_interface_id s) \<le> unat n' \<and>
    unat n' \<le> unat (ir_next_interface_id s) + (k - j)"
  using assms
proof (induction "k - j" arbitrary: j s ack)
  case 0
  then show ?case
    using length_filter_le [of ie_in_use "ir_entries s"] by simp
next
  case (Suc d)
  have jk: "j < k"
    using Suc.hyps(2) by simp
  show ?case
  proof (cases "findFreeEntry s")
    case None
    then have "register_interfaces [j..<k] p r s ack =
        (False, ack\<lparr>rack_status := REGISTER_STATUS_REJECTED\<rparr>,
         (InterfaceRegistry_RemovePeer s p)\<lparr>ir_next_interface_id := ir_next_interface_id s\<rparr>)"
      using jk by (simp add: upt_conv_Cons InterfaceRegistry_RemovePeer_def)
    then show ?thesis
      by (intro exI [of _ "ack\<lparr>rack_status := REGISTER_STATUS_REJECTED\<rparr>"] exI [of _ "ir_next_interface_id s"]) simp
  next
    case (Some f)
    let ?n = "ir_next_interface_id s"
    let ?e = "registered_entry p r ?n j"
    let ?s = "enter s f ?e"
    let ?ack = "ack\<lparr>rack_channels := (rack_channels ack)[j := of_nat j]\<rparr>"
    have f: "f < length (ir_entries s)" "\<not> ie_in_use (ir_entries s ! f)"
      using find_index_SomeD [OF Some [unfolded findFreeEntry_def]] by simp_all
    then have zero: "ir_entries s ! f = InterfaceEntry_zero"
      using Suc.prems(1) by simp
    have e: "ie_in_use ?e" "ie_agent_peer_id ?e = p"
      by (simp_all add: registered_entry_def)
    have loop: "register_interfaces [j..<k] p r s ack = register_interfaces [Suc j..<k] p r ?s ?ack"
      using jk Some zero by (simp add: upt_conv_Cons enter_def registered_entry_def Let_def)
    have n: "unat (ir_next_interface_id ?s) = unat ?n + 1"
      using Suc.prems(3) jk by (simp add: enter_def next_id)
    have "\<forall>x \<in> set (ir_entries ?s). \<not> ie_in_use x \<longrightarrow> x = InterfaceEntry_zero"
      using set_update_subset_insert [of "ir_entries s" f ?e] Suc.prems(1) e(1) by (auto simp: enter_def)
    moreover have "length (ir_entries ?s) = 256"
      using Suc.prems(2) by (simp add: enter_def)
    moreover have "unat (ir_next_interface_id ?s) + (k - Suc j) < 2 ^ 32"
      using n Suc.prems(3) jk by simp
    moreover have "256 < length (filter ie_in_use (ir_entries ?s)) + (k - Suc j)"
      using entries.live_store [OF f(1), of ?e] f(2) e(1) Suc.prems(4) jk by (simp add: enter_def)
    moreover have "d = k - Suc j"
      using Suc.hyps(2) by simp
    ultimately have "\<exists>ack' n'. register_interfaces [Suc j..<k] p r ?s ?ack =
        (False, ack', (InterfaceRegistry_RemovePeer ?s p)\<lparr>ir_next_interface_id := n'\<rparr>) \<and>
      rack_status ack' = REGISTER_STATUS_REJECTED \<and> unat (ir_next_interface_id ?s) \<le> unat n' \<and>
      unat n' \<le> unat (ir_next_interface_id ?s) + (k - Suc j)"
      by (intro Suc.hyps(1))
    then obtain ack' n' where "register_interfaces [j..<k] p r s ack =
        (False, ack', (InterfaceRegistry_RemovePeer s p)\<lparr>ir_next_interface_id := n'\<rparr>)"
      "rack_status ack' = REGISTER_STATUS_REJECTED" "unat ?n + 1 \<le> unat n'" "unat n' \<le> unat ?n + 1 + (k - Suc j)"
      unfolding loop RemovePeer_enter [OF f(1) zero e] n by auto
    then show ?thesis
      using jk by (intro exI [of _ ack'] exI [of _ n']) auto
  qed
qed

lemma Register_spec:
  fixes p :: u32
  assumes inv: "InterfaceRegistry_inv s" and room: "unat (ir_next_interface_id s) + unat (reg_interface_count q) < 2 ^ 32"
  defines "x \<equiv> registry_step s (RegistryRegister p q)"
  shows "InterfaceRegistry_inv (snd x) \<and>
    unat (ir_next_interface_id (snd x)) \<le> unat (ir_next_interface_id s) + unat (reg_interface_count q) \<and>
    registry_post (registry_abs s) (RegistryRegister p q) (fst x) (registry_abs (snd x))"
proof -
  let ?k = "unat (reg_interface_count q)"
  let ?ack = "\<lparr>rack_status = 0, rack_interface_count = reg_interface_count q, rack_channels = replicate 16 0\<rparr>"
  let ?n = "ir_next_interface_id s"
  obtain m where abs: "registry_abs s = (m, ?n)" and m: "m = slot_map ie_in_use ie_interface_id (ir_entries s)"
    by (simp add: registry_abs_def)
  have ran: "ran m = {e \<in> set (ir_entries s). ie_in_use e}" and
    card: "card (dom m) = length (filter ie_in_use (ir_entries s))"
    using registry_ran [OF inv] entries.card_dom [OF registry_distinct(1) [OF inv]] by (simp_all add: m)
  have taken: "isPeerRegistered s p \<or> isRegistrationColliding s q \<longleftrightarrow>
      (\<exists>e \<in> ran m. ie_agent_peer_id e = p \<or> matches_registration q e)"
    by (auto simp: isPeerRegistered_def isRegistrationColliding_def list_ex_iff ran matches_registration_def)
  show ?thesis
  proof (cases "isPeerRegistered s p \<or> isRegistrationColliding s q")
    case True
    then obtain ack where "x = (RegistryAck False ack, s)" "rack_status ack = REGISTER_STATUS_REJECTED"
      by (auto simp: x_def InterfaceRegistry_RegisterAgent_def Let_def)
    then show ?thesis
      using inv True taken by (simp add: abs Let_def)
  next
    case False
    then have reg: "InterfaceRegistry_RegisterAgent s p q = register_interfaces [0..<?k] p q s ?ack"
      by (simp add: InterfaceRegistry_RegisterAgent_def Let_def)
    have fresh: "ie_agent_peer_id e \<noteq> p" if "e \<in> set (ir_entries s)" "ie_in_use e" for e
      using False that by (auto simp: isPeerRegistered_def list_ex_iff)
    show ?thesis
    proof (cases "256 < card (dom m) + ?k")
      case True
      have "map (\<lambda>e. if ie_in_use e \<and> ie_agent_peer_id e = p then InterfaceEntry_zero else e) (ir_entries s) = ir_entries s"
        using fresh by (intro map_idI) auto
      then have same: "InterfaceRegistry_RemovePeer s p = s"
        by (simp add: InterfaceRegistry_RemovePeer_def)
      obtain ack' n' where fail: "register_interfaces [0..<?k] p q s ?ack = (False, ack', s\<lparr>ir_next_interface_id := n'\<rparr>)"
          "rack_status ack' = REGISTER_STATUS_REJECTED" "unat ?n \<le> unat n'" "unat n' \<le> unat ?n + ?k"
        using register_none [of s ?k 0 p q ?ack] inv room True card unfolding same by (auto simp: InterfaceRegistry_inv_def)
      then have "InterfaceRegistry_inv (s\<lparr>ir_next_interface_id := n'\<rparr>)"
        using inv unfolding InterfaceRegistry_inv_def by fastforce
      moreover have "registry_abs (s\<lparr>ir_next_interface_id := n'\<rparr>) = (m, n')"
        by (simp add: registry_abs_def m)
      ultimately show ?thesis
        using fail True by (simp add: x_def reg abs Let_def)
    next
      case enough: False
      have "agent_key e \<noteq> (p, of_nat i)" if "e \<in> set (ir_entries s)" "ie_in_use e" for e i
        using fresh [OF that] by (simp add: agent_key_def)
      moreover have "?k \<le> 256"
        by (rule less_imp_le) simp
      ultimately have "\<exists>ack' s'. register_interfaces [0..<?k] p q s ?ack = (True, ack', s') \<and> InterfaceRegistry_inv s' \<and>
          registry_abs s' = (fst (registry_abs s) ++ registered p q ?n 0 ?k, ?n + of_nat (?k - 0)) \<and>
          rack_status ack' = REGISTER_STATUS_OK \<and> rack_interface_count ack' = rack_interface_count ?ack \<and>
          length (rack_channels ack') = length (rack_channels ?ack) \<and>
          (\<forall>i < length (rack_channels ?ack). rack_channels ack' ! i = (if 0 \<le> i \<and> i < ?k then of_nat i else rack_channels ?ack ! i))"
        using room enough card by (intro register_all [OF inv]) simp_all
      then obtain ack' s' where ok: "register_interfaces [0..<?k] p q s ?ack = (True, ack', s')" "InterfaceRegistry_inv s'"
          "registry_abs s' = (m ++ registered p q ?n 0 ?k, ?n + of_nat ?k)"
          "rack_status ack' = REGISTER_STATUS_OK" "rack_interface_count ack' = reg_interface_count q"
          "\<forall>i < 16. rack_channels ack' ! i = (if i < ?k then of_nat i else replicate 16 0 ! i)"
        unfolding abs by auto
      have "ir_next_interface_id s' = ?n + of_nat ?k"
        using ok(3) by (simp only: registry_abs_def prod.inject)
      moreover have "unat (?n + of_nat ?k :: u32) = unat ?n + ?k"
        using room by (simp add: unat_word_ariths unsigned_ucast_eq take_bit_nat_eq_self)
      ultimately have "unat (ir_next_interface_id s') \<le> unat ?n + ?k"
        by (simp only: order_refl)
      moreover have "registry_post (m, ?n) (RegistryRegister p q) (RegistryAck True ack') (registry_abs s')"
        using ok(3-6) enough False taken by (simp add: Let_def)
      ultimately show ?thesis
        using ok(1,2) by (simp add: x_def reg abs del: registry_post.simps)
    qed
  qed
qed

lemma AddVirtual_spec:
  fixes a n :: bytes
  assumes inv: "InterfaceRegistry_inv s" and room: "unat (ir_next_interface_id s) + 1 < 2 ^ 32"
  defines "x \<equiv> InterfaceRegistry_AddVirtual s a n"
  shows "InterfaceRegistry_inv (snd x) \<and> unat (ir_next_interface_id (snd x)) \<le> unat (ir_next_interface_id s) + 1 \<and>
    registry_post (registry_abs s) (RegistryAddVirtual a n) (RegistryEntry (fst x)) (registry_abs (snd x))"
proof -
  let ?n = "ir_next_interface_id s"
  let ?m = "slot_map ie_in_use ie_interface_id (ir_entries s)"
  have named: "InterfaceRegistry_FindByName s a n = None \<longleftrightarrow> (\<forall>e \<in> ran ?m. \<not> namesMatch e a n)"
    using registry_ran [OF inv] by (auto simp: InterfaceRegistry_FindByName_def find_None_iff)
  have full: "findFreeEntry s = None \<longleftrightarrow> card (dom ?m) = 256"
    using free_entry_iff [OF inv] entries.card_dom [OF registry_distinct(1) [OF inv]] by simp
  consider (taken) "InterfaceRegistry_FindByName s a n \<noteq> None"
    | (full) "InterfaceRegistry_FindByName s a n = None" "findFreeEntry s = None"
    | (free) k where "InterfaceRegistry_FindByName s a n = None" "findFreeEntry s = Some k"
    by (cases "findFreeEntry s") auto
  then show ?thesis
  proof cases
    case taken
    then show ?thesis
      using inv named by (simp add: x_def InterfaceRegistry_AddVirtual_def registry_abs_def)
  next
    case full
    then show ?thesis
      using inv \<open>findFreeEntry s = None \<longleftrightarrow> card (dom ?m) = 256\<close>
      by (simp add: x_def InterfaceRegistry_AddVirtual_def registry_abs_def)
  next
    case free
    let ?e = "virtual_entry a n ?n"
    have e: "ie_in_use ?e" "ie_interface_id ?e = ?n" "\<not> agent_entry ?e"
      by (simp_all add: virtual_entry_def agent_entry_def InterfaceEntry_IsVirtual_def InterfaceEntry_zero_def)
    have added: "x = (Some ?e, enter s k ?e)"
      using free free_entry_zero [OF inv free(2)]
      by (simp add: x_def InterfaceRegistry_AddVirtual_def virtual_entry_def enter_def InterfaceEntry_zero_def Let_def)
    note entered = enter_spec [OF inv free(2) e(1,2) room]
    show ?thesis
      using entered(1,2) e(3) free named full room
      by (auto simp: added registry_abs_def [of s] enter_def next_id)
  qed
qed

lemma find_post:
  assumes "InterfaceRegistry_inv s"
  shows "find (\<lambda>e. ie_in_use e \<and> P e) (ir_entries s) = None \<and> (\<forall>e \<in> ran (fst (registry_abs s)). \<not> P e) \<or>
    (\<exists>e \<in> ran (fst (registry_abs s)). P e \<and> find (\<lambda>e. ie_in_use e \<and> P e) (ir_entries s) = Some e)"
proof (cases "find (\<lambda>e. ie_in_use e \<and> P e) (ir_entries s)")
  case None
  then show ?thesis
    using registry_ran [OF assms] by (auto simp: find_None_iff registry_abs_def)
next
  case (Some e)
  then have "e \<in> set (ir_entries s)" "ie_in_use e" "P e"
    by (auto simp: find_Some_iff)
  then show ?thesis
    using Some registry_ran [OF assms] by (auto simp: registry_abs_def)
qed

lemma find_channel: "InterfaceRegistry_FindByAgentChannel s p c = map_option (\<lambda>k. ir_entries s ! k) (findMutableByAgentChannel s p c)"
  by (simp add: InterfaceRegistry_FindByAgentChannel_def findMutableByAgentChannel_def find_index_find)

text \<open>The calls on the entry of an agent's channel.\<close>

lemma channel_spec:
  assumes inv: "InterfaceRegistry_inv s"
    and f: "\<And>e. ie_in_use (snd (f e)) = ie_in_use e" "\<And>e. ie_interface_id (snd (f e)) = ie_interface_id e"
      "\<And>e. agent_key (snd (f e)) = agent_key e"
    and x: "x = (case findMutableByAgentChannel s p c of
        None \<Rightarrow> (r, s) | Some k \<Rightarrow> (fst (f (ir_entries s ! k)), update_entry s k (\<lambda>e. snd (f e))))"
  shows "InterfaceRegistry_inv (snd x) \<and> ir_next_interface_id (snd x) = ir_next_interface_id s \<and>
    on_channel p c f r (registry_abs s) (fst x) (registry_abs (snd x))"
  using on_channel_spec [OF inv, of f p c r] f inv
  by (auto simp: x update_entry_def split: option.splits)

lemma update_entry_cong: "f (ir_entries s ! k) = g (ir_entries s ! k) \<Longrightarrow> update_entry s k f = update_entry s k g"
  by (simp add: update_entry_def)

lemma channel_calls:
  assumes inv: "InterfaceRegistry_inv s"
  shows "x \<in> {RegistrySetTxDropped p c n, RegistryRate p c rate credit now, RegistryTryEgress p c bits now, RegistryDelay p c bits now,
      RegistryFindChannel p c} \<Longrightarrow>
    InterfaceRegistry_inv (snd (registry_step s x)) \<and> ir_next_interface_id (snd (registry_step s x)) = ir_next_interface_id s \<and>
    registry_post (registry_abs s) x (fst (registry_step s x)) (registry_abs (snd (registry_step s x)))"
proof (elim insertE emptyE)
  assume x: "x = RegistrySetTxDropped p c n"
  show ?thesis
    unfolding x registry_post.simps
    by (rule channel_spec [OF inv]) (auto simp: agent_key_def InterfaceRegistry_SetTxDropped_def split: option.splits)
next
  assume x: "x = RegistryRate p c rate credit now"
  show ?thesis
    unfolding x registry_post.simps
    by (rule channel_spec [OF inv])
      (auto simp: agent_key_def pace_entry_def InterfaceRegistry_ApplyAdvertisedRate_def Let_def split: option.splits
        intro: update_entry_cong)
next
  assume x: "x = RegistryTryEgress p c bits now"
  show ?thesis
    unfolding x registry_post.simps
    by (rule channel_spec [OF inv])
      (auto simp: agent_key_def InterfaceRegistry_TryEgress_def Let_def split_def split: option.splits intro!: update_entry_cong)
next
  assume x: "x = RegistryDelay p c bits now"
  show ?thesis
    unfolding x registry_post.simps
    by (rule channel_spec [OF inv])
      (auto simp: agent_key_def InterfaceRegistry_EgressDelayUs_def Let_def split: option.splits intro!: update_entry_cong)
next
  assume x: "x = RegistryFindChannel p c"
  have same: "update_entry s k (\<lambda>e. e) = s" for k
    by (simp add: update_entry_def)
  show ?thesis
    unfolding x registry_post.simps
    by (rule channel_spec [OF inv]) (auto simp: find_channel same split: option.splits)
qed

lemma SetFd_spec:
  assumes inv: "InterfaceRegistry_inv s"
  shows "InterfaceRegistry_inv (InterfaceRegistry_SetFdCapable s i b) \<and>
    registry_post (registry_abs s) (RegistrySetFd i b) RegistryDone (registry_abs (InterfaceRegistry_SetFdCapable s i b))"
proof -
  let ?f = "\<lambda>e. if ie_in_use e \<and> ie_interface_id e = i then e\<lparr>ie_fd_reported := True, ie_fd_capable := b\<rparr> else e"
  let ?m = "slot_map ie_in_use ie_interface_id (ir_entries s)"
  have keep: "ie_in_use (?f e) = ie_in_use e" "ie_interface_id (?f e) = ie_interface_id e"
      "agent_entry (?f e) = agent_entry e" "agent_key (?f e) = agent_key e" for e
    by (auto simp: agent_entry_def agent_key_def InterfaceEntry_IsVirtual_def)
  note each = entries.map_each [of ?f, OF keep(1,2)] agent_entries.map_each(2) [of ?f, OF keep(3,4)]
  have "map_option ?f \<circ> ?m = (case ?m i of None \<Rightarrow> ?m | Some e \<Rightarrow> ?m(i \<mapsto> e\<lparr>ie_fd_reported := True, ie_fd_capable := b\<rparr>))"
  proof (rule ext)
    fix j
    have "?m j = Some e \<Longrightarrow> ie_in_use e \<and> ie_interface_id e = j" for e
      using entries.map_Some [OF registry_distinct(1) [OF inv]] by auto
    then show "(map_option ?f \<circ> ?m) j =
        (case ?m i of None \<Rightarrow> ?m | Some e \<Rightarrow> ?m(i \<mapsto> e\<lparr>ie_fd_reported := True, ie_fd_capable := b\<rparr>)) j"
      by (cases "?m j"; cases "?m i") auto
  qed
  moreover have "InterfaceRegistry_inv (InterfaceRegistry_SetFdCapable s i b)"
    using inv each(2,3) [of "ir_entries s"] by (auto simp: InterfaceRegistry_SetFdCapable_def InterfaceRegistry_inv_def)
  ultimately show ?thesis
    using each(1) [of "ir_entries s"] by (simp add: InterfaceRegistry_SetFdCapable_def registry_abs_def)
qed

lemma RemovePeer_spec:
  assumes inv: "InterfaceRegistry_inv s"
  shows "InterfaceRegistry_inv (InterfaceRegistry_RemovePeer s p) \<and>
    registry_post (registry_abs s) (RegistryRemovePeer p) RegistryDone (registry_abs (InterfaceRegistry_RemovePeer s p))"
proof -
  let ?P = "\<lambda>e. ie_in_use e \<and> ie_agent_peer_id e = p"
  have "slot_map ie_in_use ie_interface_id (ir_entries s) i = Some e \<Longrightarrow> ie_in_use e" for i e
    using entries.map_Some [OF registry_distinct(1) [OF inv]] by auto
  then have "(case slot_map ie_in_use ie_interface_id (ir_entries s) i of None \<Rightarrow> None | Some e \<Rightarrow> if ?P e then None else Some e) =
      (case slot_map ie_in_use ie_interface_id (ir_entries s) i of None \<Rightarrow> None
       | Some e \<Rightarrow> if ie_agent_peer_id e = p then None else Some e)" for i
    by (auto split: option.splits)
  then show ?thesis
    using clear_spec [OF inv, of ?P] by (simp add: InterfaceRegistry_RemovePeer_def registry_abs_def [of s])
qed

lemma RemoveVirtual_spec:
  assumes inv: "InterfaceRegistry_inv s"
  shows "InterfaceRegistry_inv (InterfaceRegistry_RemoveVirtual s i) \<and>
    registry_post (registry_abs s) (RegistryRemoveVirtual i) RegistryDone (registry_abs (InterfaceRegistry_RemoveVirtual s i))"
proof -
  let ?P = "\<lambda>e. ie_in_use e \<and> ie_interface_id e = i \<and> InterfaceEntry_IsVirtual e"
  let ?m = "slot_map ie_in_use ie_interface_id (ir_entries s)"
  have "?m j = Some e \<Longrightarrow> ie_in_use e \<and> ie_interface_id e = j" for j e
    using entries.map_Some [OF registry_distinct(1) [OF inv]] by auto
  then have "(\<lambda>j. case ?m j of None \<Rightarrow> None | Some e \<Rightarrow> if ?P e then None else Some e) =
      (case ?m i of None \<Rightarrow> ?m | Some e \<Rightarrow> if InterfaceEntry_IsVirtual e then ?m(i := None) else ?m)"
    by (auto split: option.splits simp: fun_eq_iff)
  then show ?thesis
    using clear_spec [OF inv, of ?P] by (simp add: InterfaceRegistry_RemoveVirtual_def registry_abs_def [of s])
qed

lemma CountFrame_spec:
  assumes inv: "InterfaceRegistry_inv s"
  shows "InterfaceRegistry_inv (InterfaceRegistry_CountFrame s i) \<and>
    ir_next_interface_id (InterfaceRegistry_CountFrame s i) = ir_next_interface_id s \<and>
    registry_post (registry_abs s) (RegistryCountFrame i) RegistryDone (registry_abs (InterfaceRegistry_CountFrame s i))"
  using update_by_id [OF inv, of "\<lambda>e. e\<lparr>ie_frames_received := wrap 64 (ie_frames_received e + 1)\<rparr>" i] inv
  by (auto simp: InterfaceRegistry_CountFrame_def agent_key_def registry_abs_def [of s] update_entry_def wrap_def
      split: option.splits)

lemma query_spec:
  assumes inv: "InterfaceRegistry_inv s"
  shows "registry_post (registry_abs s) (RegistryFind i) (RegistryEntry (InterfaceRegistry_FindById s i)) (registry_abs s)"
    and "registry_post (registry_abs s) (RegistryFindName a n) (RegistryEntry (InterfaceRegistry_FindByName s a n)) (registry_abs s)"
    and "registry_post (registry_abs s) (RegistryColliding q) (RegistryPeer (InterfaceRegistry_CollidingPeer s q)) (registry_abs s)"
    and "registry_post (registry_abs s) RegistryCount (RegistryNat (InterfaceRegistry_Count s)) (registry_abs s)"
proof -
  show "registry_post (registry_abs s) (RegistryFind i) (RegistryEntry (InterfaceRegistry_FindById s i)) (registry_abs s)"
    by (simp add: registry_abs_def InterfaceRegistry_FindById_def slot_map_def)
  show "registry_post (registry_abs s) (RegistryFindName a n) (RegistryEntry (InterfaceRegistry_FindByName s a n)) (registry_abs s)"
    using find_post [OF inv, of "\<lambda>e. namesMatch e a n"] by (auto simp: registry_abs_def InterfaceRegistry_FindByName_def)
  have "(\<lambda>e. ie_in_use e \<and> matches_registration q e) = matches_registration q"
    by (auto simp: matches_registration_def)
  then show "registry_post (registry_abs s) (RegistryColliding q) (RegistryPeer (InterfaceRegistry_CollidingPeer s q)) (registry_abs s)"
    using find_post [OF inv, of "matches_registration q"] by (auto simp: registry_abs_def InterfaceRegistry_CollidingPeer_def)
  show "registry_post (registry_abs s) RegistryCount (RegistryNat (InterfaceRegistry_Count s)) (registry_abs s)"
    using entries.card_dom [OF registry_distinct(1) [OF inv]] by (simp add: registry_abs_def InterfaceRegistry_Count_def)
qed

lemma registry_step_spec:
  assumes inv: "InterfaceRegistry_inv s" and room: "unat (ir_next_interface_id s) + registry_cost x < 2 ^ 32"
  shows "InterfaceRegistry_inv (snd (registry_step s x)) \<and>
    unat (ir_next_interface_id (snd (registry_step s x))) \<le> unat (ir_next_interface_id s) + registry_cost x \<and>
    registry_post (registry_abs s) x (fst (registry_step s x)) (registry_abs (snd (registry_step s x)))"
proof (cases x)
  case (RegistryRegister p q)
  then show ?thesis
    using Register_spec [OF inv, of q p] room by (simp del: registry_step.simps registry_post.simps)
next
  case (RegistryAddVirtual a n)
  then show ?thesis
    using AddVirtual_spec [OF inv, of a n] room by (simp del: registry_post.simps)
next
  case (RegistryRemovePeer p)
  then show ?thesis
    using RemovePeer_spec [OF inv, of p] by (simp del: registry_post.simps) (simp add: InterfaceRegistry_RemovePeer_def)
next
  case (RegistryRemoveVirtual i)
  then show ?thesis
    using RemoveVirtual_spec [OF inv, of i] by (simp del: registry_post.simps) (simp add: InterfaceRegistry_RemoveVirtual_def)
next
  case (RegistrySetFd i b)
  then show ?thesis
    using SetFd_spec [OF inv, of i b] by (simp del: registry_post.simps) (simp add: InterfaceRegistry_SetFdCapable_def)
next
  case (RegistryCountFrame i)
  then show ?thesis
    using CountFrame_spec [OF inv, of i] by (simp del: registry_post.simps)
next
  case (RegistrySetTxDropped p c n)
  then show ?thesis
    using channel_calls [OF inv, of x p c n] by (simp del: registry_step.simps registry_post.simps)
next
  case (RegistryRate p c rate credit now)
  then show ?thesis
    using channel_calls [OF inv, of x p c 0 rate credit now] by (simp del: registry_step.simps registry_post.simps)
next
  case (RegistryTryEgress p c bits now)
  then show ?thesis
    using channel_calls [OF inv, of x p c 0 0 0 now bits] by (simp del: registry_step.simps registry_post.simps)
next
  case (RegistryDelay p c bits now)
  then show ?thesis
    using channel_calls [OF inv, of x p c 0 0 0 now bits] by (simp del: registry_step.simps registry_post.simps)
next
  case (RegistryFindChannel p c)
  then show ?thesis
    using channel_calls [OF inv, of x p c] by (simp del: registry_step.simps registry_post.simps)
qed (use inv query_spec [OF inv] in \<open>simp_all del: registry_post.simps\<close>)

interpretation registry: budgeted_contract registry_step InterfaceRegistry_inv "\<lambda>s. unat (ir_next_interface_id s)"
  registry_cost "2 ^ 32 - 1" registry_post registry_abs
  by unfold_locales (use registry_step_spec in \<open>simp_all del: registry_step.simps registry_post.simps\<close>)

lemma InterfaceRegistry_Reset_inv: "InterfaceRegistry_inv InterfaceRegistry_Reset"
  using entries.distinct_empty [of 256] agent_entries.distinct_empty [of 256] entries.empty_free
  by (simp add: InterfaceRegistry_inv_def InterfaceRegistry_Reset_def)

text \<open>Ids only ever grow: an id that becomes live is at least the next one.\<close>

lemma on_channel_dom: "on_channel p c f r (m, n) x (m', n') \<Longrightarrow> n' = n"
  "on_channel p c f r (m, n) x (m', n') \<Longrightarrow> m' i = Some y \<Longrightarrow> \<exists>y. m i = Some y"
  by (auto simp: on_channel_def split: if_splits)

lemma post_grows:
  assumes "registry_post (m, n) x r (m', n')" and "unat n + registry_cost x < 2 ^ 32"
  shows "unat n \<le> unat n' \<and> (\<forall>i \<in> dom m'. i \<in> dom m \<or> unat n \<le> unat i)"
proof (cases x)
  case (RegistryRegister p q)
  have "unat (n + of_nat (unat (reg_interface_count q)) :: u32) = unat n + unat (reg_interface_count q)"
    using assms(2) RegistryRegister by (simp add: unat_word_ariths unsigned_ucast_eq take_bit_nat_eq_self)
  then show ?thesis
    using assms(1) RegistryRegister
    by (auto simp: Let_def registered_def map_add_def split: if_splits option.splits simp del: of_nat_unat)
next
  case (RegistryAddVirtual a f)
  then show ?thesis
    using assms next_id [of n] by (auto split: if_splits)
qed (use assms(1) in \<open>auto split: option.splits if_splits dest: on_channel_dom\<close>)

lemma next_id_grows:
  assumes "InterfaceRegistry_inv s" and "unat (ir_next_interface_id s) + sum_list (map registry_cost ops) < 2 ^ 32"
  shows "unat (ir_next_interface_id s) \<le> unat (ir_next_interface_id (snd (run registry_step s ops))) \<and>
    (\<forall>i \<in> dom (fst (registry_abs (snd (run registry_step s ops)))).
       i \<in> dom (fst (registry_abs s)) \<or> unat (ir_next_interface_id s) \<le> unat i)"
  using assms
proof (induction ops arbitrary: s)
  case (Cons x ops)
  let ?s = "snd (registry_step s x)"
  have room: "unat (ir_next_interface_id s) + registry_cost x < 2 ^ 32"
    using Cons.prems(2) by simp
  note step = registry_step_spec [OF Cons.prems(1) room]
  have "registry_post (fst (registry_abs s), ir_next_interface_id s) x (fst (registry_step s x))
      (fst (registry_abs ?s), ir_next_interface_id ?s)"
    using step by (simp add: registry_abs_def)
  note grows = post_grows [OF this room]
  have "unat (ir_next_interface_id ?s) + sum_list (map registry_cost ops) < 2 ^ 32"
    using step Cons.prems(2) by simp
  note later = Cons.IH [OF conjunct1 [OF step] this]
  show ?case
    using grows later unfolding run_Cons by (meson order_trans)
qed simp

lemma live_below_next:
  "InterfaceRegistry_inv s \<Longrightarrow> i \<in> dom (fst (registry_abs s)) \<Longrightarrow> unat i < unat (ir_next_interface_id s)"
  using entries.dom_keys [of "ir_entries s"] by (auto simp: registry_abs_def InterfaceRegistry_inv_def)

section \<open>Properties\<close>

text \<open>
  C7.  As long as the 32-bit ids have not run out, each call does to the catalogue what it
  does on a map from interface ids to entries, in every state any calls lead to.  A
  registration is all or nothing: it is refused exactly when the peer is registered already,
  a name pair is taken or the interfaces do not all fit, and then no entry changes; else it
  enters its interfaces under consecutive fresh ids with channels 0, 1, 2 and so on, with
  nothing left of earlier entries.  Removing a peer removes its entries alone, calls by
  agent and channel touch one entry, and lookups return what the map holds.
\<close>

theorem InterfaceRegistry_contract:
  assumes "sum_list (map registry_cost (ops @ [x])) < 2 ^ 32 - 1"
  shows "let s = snd (run registry_step InterfaceRegistry_Reset ops); (r, s') = registry_step s x
    in registry_post (registry_abs s) x r (registry_abs s')"
proof -
  have "unat (ir_next_interface_id InterfaceRegistry_Reset) = 1"
    by (simp add: InterfaceRegistry_Reset_def)
  then show ?thesis
    using registry.reachable_budget_post [OF InterfaceRegistry_Reset_inv, of ops x] assms
    by (simp add: Let_def split_def del: registry_step.simps)
qed

definition sample_registration :: RegisterMessage where
  "sample_registration = \<lparr>reg_agent_name = [97] @ replicate 127 0, reg_interface_count = 2,
     reg_interface_names = [[99, 48] @ replicate 14 0, [99, 49] @ replicate 14 0], reg_fd_reported = True, reg_fd_interfaces = 2\<rparr>"

theorem InterfaceRegistry_contract_witness:
  "sum_list (map registry_cost ([RegistryRegister 7 sample_registration] @ [RegistryFindChannel 7 1])) < 2 ^ 32 - 1 \<and>
   (let s = snd (run registry_step InterfaceRegistry_Reset [RegistryRegister 7 sample_registration]);
        (r, s') = registry_step s (RegistryFindChannel 7 1)
    in registry_post (registry_abs s) (RegistryFindChannel 7 1) r (registry_abs s'))"
  using InterfaceRegistry_contract [of "[RegistryRegister 7 sample_registration]" "RegistryFindChannel 7 1"]
  by (simp add: sample_registration_def del: registry_step.simps registry_post.simps)

text \<open>
  C13.  An interface id is never used again: once an interface has left the catalogue, no
  later entry has its id, whatever is registered afterwards, until the ids run out.
\<close>

theorem interface_ids_not_reused:
  assumes "sum_list (map registry_cost (ops @ gone @ later)) < 2 ^ 32 - 1"
    and "InterfaceRegistry_FindById (snd (run registry_step InterfaceRegistry_Reset ops)) i \<noteq> None"
    and "InterfaceRegistry_FindById (snd (run registry_step InterfaceRegistry_Reset (ops @ gone))) i = None"
  shows "InterfaceRegistry_FindById (snd (run registry_step InterfaceRegistry_Reset (ops @ gone @ later))) i = None"
proof -
  let ?run = "\<lambda>xs. snd (run registry_step InterfaceRegistry_Reset xs)"
  have find: "InterfaceRegistry_FindById s i = fst (registry_abs s) i" for s
    by (simp add: InterfaceRegistry_FindById_def registry_abs_def slot_map_def)
  have start: "unat (ir_next_interface_id InterfaceRegistry_Reset) = 1"
    by (simp add: InterfaceRegistry_Reset_def)
  have inv: "InterfaceRegistry_inv (?run xs) \<and> unat (ir_next_interface_id (?run xs)) \<le> 1 + sum_list (map registry_cost xs)"
    if "sum_list (map registry_cost xs) < 2 ^ 32 - 1" for xs
    using registry.run_budget [OF InterfaceRegistry_Reset_inv, of xs] that start by simp
  have live: "unat i < unat (ir_next_interface_id (?run ops))"
    using live_below_next [of "?run ops" i] inv [of ops] assms(1,2) by (simp add: find domIff)
  have grown: "unat (ir_next_interface_id (?run ops)) \<le> unat (ir_next_interface_id (?run (ops @ gone)))"
    using next_id_grows [of "?run ops" gone] inv [of ops] assms(1) by (simp add: run_snd_append)
  have "i \<in> dom (fst (registry_abs (?run (ops @ gone)))) \<or> unat (ir_next_interface_id (?run (ops @ gone))) \<le> unat i"
    if "i \<in> dom (fst (registry_abs (?run ((ops @ gone) @ later))))"
    using next_id_grows [of "?run (ops @ gone)" later] inv [of "ops @ gone"] assms(1) that
    unfolding run_snd_append [of registry_step InterfaceRegistry_Reset "ops @ gone" later] by simp
  then show ?thesis
    using live grown assms(3) by (auto simp: find simp flip: append_assoc)
qed

theorem interface_ids_not_reused_witness:
  "let ops = [RegistryRegister 7 sample_registration]; gone = [RegistryRemovePeer 7]; later = [RegistryRegister 8 sample_registration]
   in sum_list (map registry_cost (ops @ gone @ later)) < 2 ^ 32 - 1 \<and>
      InterfaceRegistry_FindById (snd (run registry_step InterfaceRegistry_Reset ops)) 2 \<noteq> None \<and>
      InterfaceRegistry_FindById (snd (run registry_step InterfaceRegistry_Reset (ops @ gone))) 2 = None \<and>
      InterfaceRegistry_FindById (snd (run registry_step InterfaceRegistry_Reset (ops @ gone @ later))) 2 = None"
proof -
  let ?ops = "[RegistryRegister 7 sample_registration]" and ?gone = "[RegistryRemovePeer 7]"
    and ?later = "[RegistryRegister 8 sample_registration]"
  have cost: "sum_list (map registry_cost (?ops @ ?gone @ ?later)) < 2 ^ 32 - 1"
    by (simp add: sample_registration_def)
  let ?s = "snd (registry_step InterfaceRegistry_Reset (RegistryRegister 7 sample_registration))"
  have first: "InterfaceRegistry_inv ?s" "registry_abs ?s = (registered 7 sample_registration 1 0 2, 3)"
    using registry_step_spec [OF InterfaceRegistry_Reset_inv, of "RegistryRegister 7 sample_registration"]
    by (auto simp: sample_registration_def registry_abs_def InterfaceRegistry_Reset_def Let_def
        simp del: registry_step.simps split: if_splits)
  have find: "InterfaceRegistry_FindById s i = fst (registry_abs s) i" for s i
    by (simp add: InterfaceRegistry_FindById_def registry_abs_def slot_map_def)
  have here: "InterfaceRegistry_FindById (snd (run registry_step InterfaceRegistry_Reset ?ops)) 2 \<noteq> None"
    using first(2) by (simp add: find registered_def del: registry_step.simps)
  have left: "InterfaceRegistry_FindById (snd (run registry_step InterfaceRegistry_Reset (?ops @ ?gone))) 2 = None"
    using first(2) RemovePeer_spec [OF first(1), of 7]
    by (simp add: find registered_def registered_entry_def registry_abs_def [of "InterfaceRegistry_RemovePeer s p" for s p]
        del: registry_step.simps(1))
  show ?thesis
    unfolding Let_def using cost here left interface_ids_not_reused [OF cost here left] by blast
qed

text \<open>
  C15.  A listing page holds the live interfaces from its offset on, at most 16, and says
  whether more follow; following the pages lists every interface once.
\<close>

theorem InterfaceRegistry_List_pages:
  "(let live = filter ie_in_use (ir_entries s); page = take 16 (drop offset live); reply = InterfaceRegistry_List s offset
    in lr_count reply = of_nat (length page) \<and> take (length page) (lr_entries reply) = map listed page \<and>
       lr_flags reply = (if offset + 16 < length live then LIST_REPLY_FLAG_MORE else 0)) \<and>
   concat (map (\<lambda>k. let r = InterfaceRegistry_List s (k * 16) in take (unat (lr_count r)) (lr_entries r)) [0..<n]) =
     map listed (take (n * 16) (filter ie_in_use (ir_entries s)))"
proof -
  let ?page = "\<lambda>k. snd (page_scan ie_in_use 16 k (ir_entries s) 0 [])"
  have "length (?page k) \<le> 16" for k
    by (simp add: page_scan_page Let_def)
  then have "length (?page k) < 256" for k
    by (rule order_le_less_trans) simp
  then have "unat (of_nat (length (?page k)) :: u8) = length (?page k)" for k
    by (simp add: unat_of_nat)
  then have "take (unat (lr_count (InterfaceRegistry_List s k))) (lr_entries (InterfaceRegistry_List s k)) = map listed (?page k)" for k
    by (simp add: InterfaceRegistry_List_def split_def Let_def)
  then have "concat (map (\<lambda>k. let r = InterfaceRegistry_List s (k * 16) in take (unat (lr_count r)) (lr_entries r)) [0..<n]) =
      map listed (concat (map (\<lambda>k. ?page (k * 16)) [0..<n]))"
    by (simp add: Let_def map_concat comp_def)
  then show ?thesis
    unfolding pages_enumerate [of 16, simplified] by (auto simp: InterfaceRegistry_List_def page_scan_page Let_def)
qed

end
