(* ===== verification/FrameRoutes.thy ===== *)
theory FrameRoutes
  imports PeerDirectory InterfaceRegistry
begin

text \<open>
  Who receives a frame (\<open>hub/domain/frame_routes.c\<close>).  A frame of an agent goes to every
  binding of its interface in the sessions of the clients; the loops over the directory and over
  a session are kept as loops and proved to collect exactly those bindings.
\<close>

section \<open>The routes of a frame\<close>

abbreviation (input) FRAME_ROUTES_MAX :: nat where "FRAME_ROUTES_MAX \<equiv> PEER_DIRECTORY_MAX * CLIENT_SESSION_BINDINGS_MAX"

record FrameRoute =
  fr_peer_id :: u32
  fr_channel :: u8
  fr_suppress_echo :: bool
  fr_reliable :: bool

definition route_of :: "HubPeer \<Rightarrow> ChannelBinding \<Rightarrow> FrameRoute" where
  "route_of peer binding = \<lparr>fr_peer_id = hp_peer_id peer, fr_channel = cb_channel binding,
     fr_suppress_echo = cb_suppress_echo binding, fr_reliable = cb_reliable binding\<rparr>"

lemma NextBinding_advances:
  "ClientSession_NextBindingForInterface s interface_id n = (Some b, m) \<Longrightarrow> n < m \<and> m \<le> length (cs_bindings s)"
  by (auto simp: ClientSession_NextBindingForInterface_def split: option.splits dest!: find_index_SomeD(1))

text \<open>The \<open>while\<close> loop over the bindings of one client.\<close>

function client_routes :: "HubPeer \<Rightarrow> u32 \<Rightarrow> nat \<Rightarrow> nat \<Rightarrow> FrameRoute list \<times> u16 \<Rightarrow> FrameRoute list \<times> u16" where
  "client_routes peer interface_id routes_max binding_iterator (routes, dropped) =
     (case ClientSession_NextBindingForInterface (hp_session peer) interface_id binding_iterator of
        (None, _) \<Rightarrow> (routes, dropped)
      | (Some binding, binding_iterator) \<Rightarrow>
          client_routes peer interface_id routes_max binding_iterator
            (if length routes = routes_max then (routes, dropped + 1) else (routes @ [route_of peer binding], dropped)))"
  by pat_completeness auto

termination client_routes
  by (relation "measure (\<lambda>(peer, _, _, n, _). length (cs_bindings (hp_session peer)) - n)")
    (auto dest!: NextBinding_advances [OF sym])

declare client_routes.simps [simp del]

definition FrameRoutes_ToInterface :: "PeerDirectory \<Rightarrow> u32 \<Rightarrow> nat \<Rightarrow> FrameRoute list \<times> u16" where
  "FrameRoutes_ToInterface directory interface_id routes_max =
     fold (\<lambda>peer_index found.
         case PeerDirectory_At directory peer_index of
           None \<Rightarrow> found
         | Some i \<Rightarrow>
             (let peer = pd_peers directory ! i
              in if hp_role peer \<noteq> kHUB_PEER_ROLE_CLIENT then found
                 else client_routes peer interface_id routes_max 0 found))
       [0..<PEER_DIRECTORY_MAX] ([], 0)"

definition FrameRoutes_FromAgent ::
    "InterfaceRegistry \<Rightarrow> PeerDirectory \<Rightarrow> u32 \<Rightarrow> u8 \<Rightarrow> nat \<Rightarrow> FrameRoute list \<times> u16" where
  "FrameRoutes_FromAgent registry directory agent_peer_id agent_channel routes_max =
     (case InterfaceRegistry_FindByAgentChannel registry agent_peer_id agent_channel of
        None \<Rightarrow> ([], 0)
      | Some entry \<Rightarrow> FrameRoutes_ToInterface directory (ie_interface_id entry) routes_max)"

definition FrameRoutes_FromClient :: "InterfaceRegistry \<Rightarrow> HubPeer \<Rightarrow> u8 \<Rightarrow> nat \<Rightarrow> FrameRoute list \<times> u16" where
  "FrameRoutes_FromClient registry client_peer client_channel routes_max =
     (if routes_max = 0 then ([], 0)
      else case ClientSession_InterfaceForChannel (hp_session client_peer) client_channel of
        None \<Rightarrow> ([], 0)
      | Some interface_id \<Rightarrow>
          (case InterfaceRegistry_FindById registry interface_id of
             None \<Rightarrow> ([], 0)
           | Some entry \<Rightarrow>
               ([\<lparr>fr_peer_id = ie_agent_peer_id entry, fr_channel = ie_agent_channel entry, fr_suppress_echo = False,
                  fr_reliable = ClientSession_ChannelReliable (hp_session client_peer) client_channel\<rparr>], 0)))"

section \<open>What the loops collect\<close>

text \<open>The reference: the live bindings of the interface, client by client.\<close>

definition attached :: "u32 \<Rightarrow> ChannelBinding \<Rightarrow> bool" where
  "attached interface_id b \<longleftrightarrow> cb_in_use b \<and> \<not> cb_dormant b \<and> cb_interface_id b = interface_id"

definition peer_routes :: "u32 \<Rightarrow> HubPeer \<Rightarrow> FrameRoute list" where
  "peer_routes interface_id p = map (route_of p) (filter (attached interface_id) (cs_bindings (hp_session p)))"

definition interface_routes :: "PeerDirectory \<Rightarrow> u32 \<Rightarrow> FrameRoute list" where
  "interface_routes d interface_id =
     concat (map (peer_routes interface_id) (filter (\<lambda>p. hp_in_use p \<and> hp_role p = kHUB_PEER_ROLE_CLIENT) (pd_peers d)))"

definition limited :: "nat \<Rightarrow> 'r list \<Rightarrow> 'r list \<times> u16" where
  "limited n rs = (take n rs, of_nat (length rs - n))"

lemma limited_snoc:
  "limited n (rs @ [r]) =
     (if length (fst (limited n rs)) = n then (fst (limited n rs), snd (limited n rs) + 1) else (fst (limited n rs) @ [r], snd (limited n rs)))"
  by (auto simp: limited_def Suc_diff_le min_def)

lemma filter_from_index:
  "filter P xs = (case find_index P xs of None \<Rightarrow> [] | Some k \<Rightarrow> xs ! k # filter P (drop (Suc k) xs))"
proof (cases "find_index P xs")
  case None
  then have "filter P xs = []"
    by (auto simp: find_index_None filter_empty_conv)
  then show ?thesis
    using None by simp
next
  case (Some k)
  then have "k < length xs" "P (xs ! k)" "\<forall>j < k. \<not> P (xs ! j)"
    by (simp_all add: find_index_Some)
  moreover from this have "filter P (take k xs) = []"
    by (auto simp: filter_empty_conv in_set_conv_nth)
  ultimately show ?thesis
    using Some arg_cong [OF id_take_nth_drop [of k xs], of "filter P"] by simp
qed

lemma NextBinding_attached:
  "ClientSession_NextBindingForInterface s i k =
     (case find_index (attached i) (drop k (cs_bindings s)) of
        Some j \<Rightarrow> (Some (cs_bindings s ! (k + j)), k + j + 1)
      | None \<Rightarrow> (None, CLIENT_SESSION_BINDINGS_MAX))"
proof -
  have "(\<lambda>b. cb_in_use b \<and> \<not> cb_dormant b \<and> cb_interface_id b = i) = attached i"
    by (simp add: attached_def fun_eq_iff)
  then show ?thesis
    by (simp add: ClientSession_NextBindingForInterface_def)
qed

lemma client_routes_limited:
  "client_routes p i n k (limited n rs) =
     limited n (rs @ map (route_of p) (filter (attached i) (drop k (cs_bindings (hp_session p)))))"
proof (induction "length (cs_bindings (hp_session p)) - k" arbitrary: k rs rule: less_induct)
  case less
  let ?rest = "drop k (cs_bindings (hp_session p))"
  obtain routes dropped where st: "limited n rs = (routes, dropped)" by (cases "limited n rs")
  show ?case
  proof (cases "find_index (attached i) ?rest")
    case None
    then have "filter (attached i) ?rest = []"
      by (subst filter_from_index) simp
    then show ?thesis
      using None by (simp add: st client_routes.simps [of p i n k] NextBinding_attached)
  next
    case (Some j)
    let ?b = "cs_bindings (hp_session p) ! (k + j)"
    have at: "k + j < length (cs_bindings (hp_session p))"
      using find_index_SomeD(1) [OF Some] by simp
    then have rest: "filter (attached i) ?rest = ?b # filter (attached i) (drop (k + j + 1) (cs_bindings (hp_session p)))"
      using Some by (subst filter_from_index) (simp add: add.commute)
    have next_state: "(if length routes = n then (routes, dropped + 1) else (routes @ [route_of p ?b], dropped)) =
        limited n (rs @ [route_of p ?b])"
      by (simp add: limited_snoc st)
    have "client_routes p i n k (limited n rs) = client_routes p i n (k + j + 1) (limited n (rs @ [route_of p ?b]))"
      using Some by (simp add: st client_routes.simps [of p i n k] NextBinding_attached next_state)
    also have "\<dots> = limited n ((rs @ [route_of p ?b]) @
        map (route_of p) (filter (attached i) (drop (k + j + 1) (cs_bindings (hp_session p)))))"
      using at by (intro less) simp
    finally show ?thesis
      using rest by simp
  qed
qed

text \<open>Visiting the slots of the directory one by one visits the live peers.\<close>

lemma fold_directory:
  assumes "length (pd_peers d) = PEER_DIRECTORY_MAX"
  shows "fold (\<lambda>i found. case PeerDirectory_At d i of None \<Rightarrow> found | Some j \<Rightarrow> f (pd_peers d ! j) found) [0..<PEER_DIRECTORY_MAX] s =
    fold f (filter hp_in_use (pd_peers d)) s"
proof -
  have "fold (\<lambda>i found. case PeerDirectory_At d i of None \<Rightarrow> found | Some j \<Rightarrow> f (pd_peers d ! j) found) [0..<n] s =
      fold f (filter hp_in_use (take n (pd_peers d))) s" if "n \<le> PEER_DIRECTORY_MAX" for n
    using that
  proof (induction n)
    case (Suc n)
    then have "take (Suc n) (pd_peers d) = take n (pd_peers d) @ [pd_peers d ! n]"
      using assms by (simp add: take_Suc_conv_app_nth)
    then show ?case
      using Suc by (simp add: PeerDirectory_At_def)
  qed simp
  then show ?thesis
    using assms by (metis order_refl take_all)
qed

lemma fold_client_routes:
  "fold (\<lambda>p found. if hp_role p \<noteq> kHUB_PEER_ROLE_CLIENT then found else client_routes p i n 0 found) ps (limited n rs) =
     limited n (rs @ concat (map (peer_routes i) (filter (\<lambda>p. hp_role p = kHUB_PEER_ROLE_CLIENT) ps)))"
  by (induction ps arbitrary: rs) (simp_all add: client_routes_limited peer_routes_def)

lemma ToInterface_routes:
  assumes "length (pd_peers d) = PEER_DIRECTORY_MAX"
  shows "FrameRoutes_ToInterface d i n = limited n (interface_routes d i)"
proof -
  have "FrameRoutes_ToInterface d i n =
      fold (\<lambda>p found. if hp_role p \<noteq> kHUB_PEER_ROLE_CLIENT then found else client_routes p i n 0 found)
        (filter hp_in_use (pd_peers d)) (limited n [])"
    unfolding FrameRoutes_ToInterface_def Let_def
    by (subst fold_directory [OF assms, symmetric]) (simp add: limited_def)
  then show ?thesis
    by (simp add: fold_client_routes interface_routes_def conj_commute)
qed

lemma interface_routes_iff:
  "r \<in> set (interface_routes d i) \<longleftrightarrow>
     (\<exists>p b. p \<in> set (pd_peers d) \<and> hp_in_use p \<and> hp_role p = kHUB_PEER_ROLE_CLIENT \<and>
        b \<in> set (cs_bindings (hp_session p)) \<and> cb_in_use b \<and> \<not> cb_dormant b \<and> cb_interface_id b = i \<and> r = route_of p b)"
  by (auto simp: interface_routes_def peer_routes_def attached_def)

lemma interface_routes_fit:
  assumes "length (pd_peers d) = PEER_DIRECTORY_MAX"
    and "list_all (\<lambda>p. length (cs_bindings (hp_session p)) = CLIENT_SESSION_BINDINGS_MAX) (pd_peers d)"
  shows "length (interface_routes d i) \<le> FRAME_ROUTES_MAX"
proof -
  have "length (concat (map (peer_routes i) (filter P ps))) \<le> length ps * CLIENT_SESSION_BINDINGS_MAX"
    if "list_all (\<lambda>p. length (cs_bindings (hp_session p)) = CLIENT_SESSION_BINDINGS_MAX) ps" for P ps
    using that
  proof (induction ps)
    case (Cons p ps)
    then show ?case
      using length_filter_le [of "attached i" "cs_bindings (hp_session p)"] by (simp add: peer_routes_def)
  qed simp
  from this [OF assms(2)] show ?thesis
    using assms(1) by (simp add: interface_routes_def)
qed

text \<open>
  C39. The routes computed for a frame are the live bindings of its interface.  In a full-size
  directory, and for any capacity of the result, a frame to an interface is routed to the
  in-use, non-dormant bindings of that interface in the sessions of the connected clients, in
  directory and binding order, as many as fit, the others counted as dropped; a frame of an agent
  takes the routes of the interface registered for its channel and none without one.  The
  capacity the hub uses is never exceeded, so there every such binding is a route and nothing
  is dropped.
\<close>

theorem FrameRoutes_exact:
  assumes "length (pd_peers d) = PEER_DIRECTORY_MAX"
    and "list_all (\<lambda>p. length (cs_bindings (hp_session p)) = CLIENT_SESSION_BINDINGS_MAX) (pd_peers d)"
  shows "FrameRoutes_ToInterface d i n = (take n (interface_routes d i), of_nat (length (interface_routes d i) - n)) \<and>
    FrameRoutes_FromAgent reg d a ch n =
      (case InterfaceRegistry_FindByAgentChannel reg a ch of
         None \<Rightarrow> ([], 0)
       | Some e \<Rightarrow> (take n (interface_routes d (ie_interface_id e)), of_nat (length (interface_routes d (ie_interface_id e)) - n))) \<and>
    snd (FrameRoutes_ToInterface d i FRAME_ROUTES_MAX) = 0 \<and>
    (r \<in> set (fst (FrameRoutes_ToInterface d i FRAME_ROUTES_MAX)) \<longleftrightarrow>
      (\<exists>p b. p \<in> set (pd_peers d) \<and> hp_in_use p \<and> hp_role p = kHUB_PEER_ROLE_CLIENT \<and>
         b \<in> set (cs_bindings (hp_session p)) \<and> cb_in_use b \<and> \<not> cb_dormant b \<and> cb_interface_id b = i \<and> r = route_of p b))"
proof -
  have fits: "limited FRAME_ROUTES_MAX (interface_routes d i) = (interface_routes d i, 0)"
    using interface_routes_fit [OF assms] by (simp add: limited_def)
  show ?thesis
    unfolding FrameRoutes_FromAgent_def ToInterface_routes [OF assms(1)] fits fst_conv snd_conv interface_routes_iff
    by (simp add: limited_def split: option.split)
qed

text \<open>A directory with one client that has interface 7 open on channel 3.\<close>

definition sample_client :: HubPeer where
  "sample_client = HubPeer_zero\<lparr>hp_in_use := True, hp_peer_id := 5, hp_role := kHUB_PEER_ROLE_CLIENT,
     hp_session := ClientSession_Reset\<lparr>cs_bindings := ChannelBinding_zero\<lparr>cb_in_use := True, cb_interface_id := 7, cb_channel := 3\<rparr> #
       replicate 31 ChannelBinding_zero\<rparr>\<rparr>"

definition sample_directory :: PeerDirectory where
  "sample_directory = \<lparr>pd_peers = sample_client # replicate 511 HubPeer_zero\<rparr>"

theorem FrameRoutes_exact_witness:
  "FrameRoutes_ToInterface sample_directory 7 4 =
     ([\<lparr>fr_peer_id = 5, fr_channel = 3, fr_suppress_echo = False, fr_reliable = False\<rparr>], 0)"
proof -
  have idle: "\<not> hp_in_use HubPeer_zero" "length (cs_bindings (hp_session HubPeer_zero)) = 32" "\<not> attached 7 ChannelBinding_zero"
    by (simp_all add: HubPeer_zero_def ClientSession_Reset_def attached_def ChannelBinding_zero_def)
  have full: "length (pd_peers sample_directory) = PEER_DIRECTORY_MAX"
    "list_all (\<lambda>p. length (cs_bindings (hp_session p)) = CLIENT_SESSION_BINDINGS_MAX) (pd_peers sample_directory)"
    using idle(2) by (simp_all add: sample_directory_def sample_client_def list_all_iff)
  have "interface_routes sample_directory 7 = peer_routes 7 sample_client"
    using idle(1) by (simp add: interface_routes_def sample_directory_def sample_client_def)
  also have "\<dots> = [\<lparr>fr_peer_id = 5, fr_channel = 3, fr_suppress_echo = False, fr_reliable = False\<rparr>]"
    using idle(3) by (simp add: peer_routes_def sample_client_def attached_def route_of_def ChannelBinding_zero_def)
  finally show ?thesis
    using FrameRoutes_exact [OF full, of 7 4] by simp
qed

end
