(* ===== verification/RejectedPeers.thy ===== *)
theory RejectedPeers
  imports PeerDirectory
begin

text \<open>
  The identities the hub turned away (\<open>hub/domain/rejected_peers.c\<close>): 16 entries keyed by role
  and fingerprint, the least worth keeping making room for a new one.  Attempts are a 32-bit word.
\<close>

section \<open>Operations\<close>

abbreviation (input) REJECTED_PEERS_MAX :: nat where "REJECTED_PEERS_MAX \<equiv> 16"
abbreviation (input) ADMIN_REJECTED_REPLY_ENTRIES_MAX :: nat where "ADMIN_REJECTED_REPLY_ENTRIES_MAX \<equiv> 15"

record RejectedPeer =
  rp_in_use :: bool
  rp_role :: u8
  rp_reason :: u8
  rp_attempts :: u32
  rp_last_seen_us :: nat
  rp_name :: bytes
  rp_fingerprint_hex :: bytes
  rp_origin :: bytes

record RejectedPeers =
  rps_entries :: "RejectedPeer list"

record Rejection =
  rj_peer :: HubPeer
  rj_name :: bytes
  rj_reason :: u8
  rj_now_us :: nat

definition RejectedPeer_zero :: RejectedPeer where
  "RejectedPeer_zero = \<lparr>rp_in_use = False, rp_role = 0, rp_reason = 0, rp_attempts = 0, rp_last_seen_us = 0,
     rp_name = replicate REGISTER_AGENT_NAME_SIZE 0, rp_fingerprint_hex = replicate IDENTITY_FINGERPRINT_HEX_SIZE 0,
     rp_origin = replicate HUB_PEER_ORIGIN_SIZE 0\<rparr>"

definition RejectedPeers_Reset :: RejectedPeers where
  "RejectedPeers_Reset = \<lparr>rps_entries = replicate REJECTED_PEERS_MAX RejectedPeer_zero\<rparr>"

definition rejected_findEntry :: "RejectedPeers \<Rightarrow> HubPeer \<Rightarrow> nat option" where
  "rejected_findEntry self peer =
     find_index (\<lambda>e. \<not> (\<not> rp_in_use e \<or> rp_role e \<noteq> hp_role peer) \<and>
       str_eq (rp_fingerprint_hex e) (hp_fingerprint_hex peer)) (rps_entries self)"

definition isLessWorthKeeping :: "RejectedPeer \<Rightarrow> RejectedPeer \<Rightarrow> bool" where
  "isLessWorthKeeping candidate current =
     (if rp_attempts candidate \<noteq> rp_attempts current then rp_attempts candidate < rp_attempts current
      else rp_last_seen_us candidate < rp_last_seen_us current)"

text \<open>The loop of \<open>claimEntry\<close> over the entries from \<open>i\<close> on, with the victim so far.\<close>

fun claim_scan :: "RejectedPeer list \<Rightarrow> nat \<Rightarrow> nat \<times> RejectedPeer \<Rightarrow> nat" where
  "claim_scan [] i victim = fst victim"
| "claim_scan (e # es) i victim =
     (if \<not> rp_in_use e then i
      else claim_scan es (i + 1) (if isLessWorthKeeping e (snd victim) then (i, e) else victim))"

definition claimEntry :: "RejectedPeers \<Rightarrow> nat" where
  "claimEntry self = claim_scan (rps_entries self) 0 (0, rps_entries self ! 0)"

definition RejectedPeers_Record :: "RejectedPeers \<Rightarrow> Rejection \<Rightarrow> RejectedPeers" where
  "RejectedPeers_Record self rejection =
     (let peer = rj_peer rejection
      in if hp_fingerprint_hex peer ! 0 = 0 then self
         else let (i, entry) =
               (case rejected_findEntry self peer of
                  Some i \<Rightarrow> (i, rps_entries self ! i)
                | None \<Rightarrow>
                    (claimEntry self, RejectedPeer_zero\<lparr>rp_in_use := True, rp_role := hp_role peer,
                       rp_fingerprint_hex := hp_fingerprint_hex peer\<rparr>))
           in self\<lparr>rps_entries := (rps_entries self)[i := entry\<lparr>rp_reason := rj_reason rejection,
                rp_attempts := rp_attempts entry + 1, rp_last_seen_us := rj_now_us rejection,
                rp_name := BoundedString_Copy (rp_name entry) (Some (rj_name rejection)),
                rp_origin := hp_origin peer\<rparr>]\<rparr>)"

definition RejectedPeers_Forget :: "RejectedPeers \<Rightarrow> HubPeer \<Rightarrow> RejectedPeers" where
  "RejectedPeers_Forget self peer =
     (case rejected_findEntry self peer of
        Some i \<Rightarrow> self\<lparr>rps_entries := (rps_entries self)[i := RejectedPeer_zero]\<rparr>
      | None \<Rightarrow> self)"

definition rejected_fillAdminEntry :: "RejectedPeer \<Rightarrow> nat \<Rightarrow> AdminRejectedReplyEntry" where
  "rejected_fillAdminEntry entry now_us =
     \<lparr>are_role = rp_role entry, are_reason = rp_reason entry, are_attempts = rp_attempts entry,
      are_last_seen_seconds = (if rp_last_seen_us entry < now_us then of_nat ((now_us - rp_last_seen_us entry) div 1000000) else 0),
      are_name = rp_name entry, are_fingerprint_hex = rp_fingerprint_hex entry, are_origin = rp_origin entry\<rparr>"

definition AdminRejectedReplyEntry_zero :: AdminRejectedReplyEntry where
  "AdminRejectedReplyEntry_zero = \<lparr>are_role = 0, are_reason = 0, are_attempts = 0, are_last_seen_seconds = 0,
     are_name = replicate REGISTER_AGENT_NAME_SIZE 0, are_fingerprint_hex = replicate ADMIN_FINGERPRINT_HEX_SIZE 0,
     are_origin = replicate ADMIN_ORIGIN_SIZE 0\<rparr>"

definition RejectedPeers_List :: "RejectedPeers \<Rightarrow> nat \<Rightarrow> nat \<Rightarrow> AdminRejectedReplyEntry AdminPage" where
  "RejectedPeers_List self offset now_us =
     admin_page ADMIN_REJECTED_REPLY_ENTRIES_MAX AdminRejectedReplyEntry_zero (\<lambda>e. rejected_fillAdminEntry e now_us)
       rp_in_use offset (rps_entries self)"

section \<open>Who is remembered\<close>

text \<open>
  An entry is known by role and fingerprint; \<open>rejected_map\<close> is the table as a map.
\<close>

definition rejected_key :: "RejectedPeer \<Rightarrow> u8 \<times> bytes" where
  "rejected_key e = (rp_role e, cstr (rp_fingerprint_hex e))"

definition peer_key :: "HubPeer \<Rightarrow> u8 \<times> bytes" where
  "peer_key p = (hp_role p, cstr (hp_fingerprint_hex p))"

definition rejected_map :: "RejectedPeers \<Rightarrow> u8 \<times> bytes \<Rightarrow> RejectedPeer option" where
  "rejected_map t = slot_map rp_in_use rejected_key (rps_entries t)"

definition RejectedPeers_inv :: "RejectedPeers \<Rightarrow> bool" where
  "RejectedPeers_inv t \<longleftrightarrow> length (rps_entries t) = REJECTED_PEERS_MAX \<and>
     slots_distinct rp_in_use rejected_key (rps_entries t)"

interpretation rejects: slot_table rp_in_use rejected_key RejectedPeer_zero
  by unfold_locales (simp add: RejectedPeer_zero_def)

lemma str_eq_cstr: "str_eq a b \<longleftrightarrow> cstr a = cstr b"
  by (simp add: str_eq_def)

lemma rejected_findEntry_key:
  "rejected_findEntry t p = find_index (\<lambda>e. rp_in_use e \<and> rejected_key e = peer_key p) (rps_entries t)"
  unfolding rejected_findEntry_def by (rule find_index_cong) (auto simp: rejected_key_def peer_key_def str_eq_cstr)

text \<open>
  \<open>claimEntry\<close> takes a free entry if there is one, and otherwise one no other is less worth
  keeping than.
\<close>

lemma isLessWorthKeeping_irrefl: "\<not> isLessWorthKeeping e e"
  by (simp add: isLessWorthKeeping_def)

lemma claim_scan_best:
  assumes "i = length seen" and "fst victim < length (seen @ es)" and "(seen @ es) ! fst victim = snd victim"
    and "\<forall>e \<in> set seen. rp_in_use e \<and> \<not> isLessWorthKeeping e (snd victim)"
  shows "claim_scan es i victim < length (seen @ es) \<and>
    (rp_in_use ((seen @ es) ! claim_scan es i victim) \<longrightarrow>
       (\<forall>e \<in> set (seen @ es). rp_in_use e \<and> \<not> isLessWorthKeeping e ((seen @ es) ! claim_scan es i victim)))"
  using assms
proof (induction es i victim arbitrary: seen rule: claim_scan.induct)
  case (1 i victim)
  then show ?case by simp
next
  case (2 e es i victim)
  show ?case
  proof (cases "rp_in_use e")
    case True
    have less_trans: "\<not> isLessWorthKeeping a c" if "\<not> isLessWorthKeeping a b" "isLessWorthKeeping c b" for a b c
      using that by (auto simp: isLessWorthKeeping_def split: if_splits)
    have "\<forall>a \<in> set (seen @ [e]). rp_in_use a \<and>
        \<not> isLessWorthKeeping a (snd (if isLessWorthKeeping e (snd victim) then (i, e) else victim))"
      using 2(5) True less_trans by (auto simp: isLessWorthKeeping_irrefl)
    then show ?thesis
      using 2(1) [of "seen @ [e]"] 2(2-4) True by auto
  next
    case False
    then show ?thesis
      using 2(2) by simp
  qed
qed

lemma claimEntry_best:
  assumes "RejectedPeers_inv t"
  shows "claimEntry t < length (rps_entries t)"
    and "rp_in_use (rps_entries t ! claimEntry t) \<Longrightarrow> e \<in> set (rps_entries t) \<Longrightarrow>
      rp_in_use e \<and> \<not> isLessWorthKeeping e (rps_entries t ! claimEntry t)"
proof -
  have "0 < length (rps_entries t)"
    using assms by (simp add: RejectedPeers_inv_def)
  from claim_scan_best [of 0 "[]" "(0, rps_entries t ! 0)" "rps_entries t", unfolded append_Nil fst_conv snd_conv, OF _ this]
  have "claimEntry t < length (rps_entries t) \<and> (rp_in_use (rps_entries t ! claimEntry t) \<longrightarrow>
      (\<forall>e \<in> set (rps_entries t). rp_in_use e \<and> \<not> isLessWorthKeeping e (rps_entries t ! claimEntry t)))"
    unfolding claimEntry_def by simp
  then show "claimEntry t < length (rps_entries t)"
    and "rp_in_use (rps_entries t ! claimEntry t) \<Longrightarrow> e \<in> set (rps_entries t) \<Longrightarrow>
      rp_in_use e \<and> \<not> isLessWorthKeeping e (rps_entries t ! claimEntry t)"
    by blast+
qed

text \<open>Recording a known identity renews its entry; a new one takes the claimed entry.\<close>

definition new_reject :: "Rejection \<Rightarrow> RejectedPeer" where
  "new_reject r = RejectedPeer_zero\<lparr>rp_in_use := True, rp_role := hp_role (rj_peer r),
     rp_fingerprint_hex := hp_fingerprint_hex (rj_peer r)\<rparr>"

definition renewed :: "Rejection \<Rightarrow> RejectedPeer \<Rightarrow> RejectedPeer" where
  "renewed r e = e\<lparr>rp_reason := rj_reason r, rp_attempts := rp_attempts e + 1, rp_last_seen_us := rj_now_us r,
     rp_name := BoundedString_Copy (rp_name e) (Some (rj_name r)), rp_origin := hp_origin (rj_peer r)\<rparr>"

abbreviation anonymous :: "Rejection \<Rightarrow> bool" where
  "anonymous r \<equiv> hp_fingerprint_hex (rj_peer r) ! 0 = 0"

lemma renewed_simps [simp]:
  "rp_in_use (renewed r e) = rp_in_use e" "rejected_key (renewed r e) = rejected_key e"
  "rp_attempts (renewed r e) = rp_attempts e + 1"
  "rp_in_use (new_reject r)" "rejected_key (new_reject r) = peer_key (rj_peer r)" "rp_attempts (new_reject r) = 0"
  by (simp_all add: renewed_def rejected_key_def new_reject_def peer_key_def RejectedPeer_zero_def)

lemma Record_again:
  assumes "RejectedPeers_inv t" and "\<not> anonymous r" and "rejected_map t (peer_key (rj_peer r)) = Some e"
  shows "RejectedPeers_inv (RejectedPeers_Record t r)"
    and "rejected_map (RejectedPeers_Record t r) = (rejected_map t)(peer_key (rj_peer r) \<mapsto> renewed r e)"
proof -
  let ?k = "peer_key (rj_peer r)"
  obtain i where i: "find_index (\<lambda>e. rp_in_use e \<and> rejected_key e = ?k) (rps_entries t) = Some i" "rps_entries t ! i = e"
    using assms(3) by (auto simp: rejected_map_def rejects.map_index)
  have e: "rp_in_use e" "rejected_key e = ?k"
    using find_index_SomeD [OF i(1)] i(2) by simp_all
  have stored: "rps_entries (RejectedPeers_Record t r) = (rps_entries t)[i := renewed r e]"
    using assms(2) i by (simp add: RejectedPeers_Record_def rejected_findEntry_key renewed_def Let_def)
  show "RejectedPeers_inv (RejectedPeers_Record t r)"
    and "rejected_map (RejectedPeers_Record t r) = (rejected_map t)(?k \<mapsto> renewed r e)"
    using rejects.store_again [OF _ i(1), of "renewed r e"] e assms(1)
    by (simp_all add: RejectedPeers_inv_def rejected_map_def stored)
qed

lemma Record_new:
  assumes "RejectedPeers_inv t" and "\<not> anonymous r" and "rejected_map t (peer_key (rj_peer r)) = None"
  defines "v \<equiv> rps_entries t ! claimEntry t"
  shows "rps_entries (RejectedPeers_Record t r) = (rps_entries t)[claimEntry t := renewed r (new_reject r)]"
    and "RejectedPeers_inv (RejectedPeers_Record t r)"
    and "rejected_map (RejectedPeers_Record t r) =
      (if rp_in_use v then (rejected_map t)(rejected_key v := None) else rejected_map t)
        (peer_key (rj_peer r) \<mapsto> renewed r (new_reject r))"
proof -
  let ?e = "renewed r (new_reject r)"
  have none: "find_index (\<lambda>e. rp_in_use e \<and> rejected_key e = peer_key (rj_peer r)) (rps_entries t) = None"
    using assms(3) by (simp add: rejected_map_def rejects.index_None)
  show stored: "rps_entries (RejectedPeers_Record t r) = (rps_entries t)[claimEntry t := ?e]"
    using assms(2) none
    by (simp add: RejectedPeers_Record_def rejected_findEntry_key renewed_def new_reject_def Let_def)
  have fresh: "rejected_key (rps_entries t ! j) \<noteq> rejected_key ?e"
    if "j < length (rps_entries t)" "rp_in_use (rps_entries t ! j)" for j
    using assms(3) that by (simp add: rejected_map_def rejects.map_None)
  have claimed: "claimEntry t < length (rps_entries t)"
    using claimEntry_best(1) [OF assms(1)] .
  have distinct: "slots_distinct rp_in_use rejected_key (rps_entries t)"
    using assms(1) by (simp add: RejectedPeers_inv_def)
  show "RejectedPeers_inv (RejectedPeers_Record t r)"
    using rejects.distinct_store [OF distinct, of "claimEntry t" ?e] fresh assms(1)
    by (simp add: RejectedPeers_inv_def stored)
  show "rejected_map (RejectedPeers_Record t r) =
      (if rp_in_use v then (rejected_map t)(rejected_key v := None) else rejected_map t)(peer_key (rj_peer r) \<mapsto> ?e)"
    using rejects.map_store [OF distinct claimed, of ?e] fresh by (simp add: rejected_map_def stored v_def)
qed

lemma Record_inv:
  assumes "RejectedPeers_inv t"
  shows "RejectedPeers_inv (RejectedPeers_Record t r)"
proof (cases "anonymous r")
  case True
  then show ?thesis
    using assms by (simp add: RejectedPeers_Record_def Let_def)
next
  case False
  then show ?thesis
    using Record_again(1) [OF assms] Record_new(2) [OF assms] by (cases "rejected_map t (peer_key (rj_peer r))") simp_all
qed

lemma Forget_spec:
  assumes "RejectedPeers_inv t"
  shows "RejectedPeers_inv (RejectedPeers_Forget t p)"
    and "rejected_map (RejectedPeers_Forget t p) = (rejected_map t)(peer_key p := None)"
proof -
  have "RejectedPeers_inv (RejectedPeers_Forget t p) \<and>
    rejected_map (RejectedPeers_Forget t p) = (rejected_map t)(peer_key p := None)"
  proof (cases "rejected_findEntry t p")
    case None
    then show ?thesis
      using assms rejects.index_None [of "peer_key p" "rps_entries t"]
      by (auto simp: RejectedPeers_Forget_def rejected_findEntry_key rejected_map_def)
  next
    case (Some i)
    then show ?thesis
      using rejects.store_empty(1,2) [of "rps_entries t" "peer_key p" i] assms
      by (simp add: RejectedPeers_Forget_def rejected_findEntry_key RejectedPeers_inv_def rejected_map_def)
  qed
  then show "RejectedPeers_inv (RejectedPeers_Forget t p)"
    and "rejected_map (RejectedPeers_Forget t p) = (rejected_map t)(peer_key p := None)"
    by simp_all
qed

lemma RejectedPeers_Reset_inv: "RejectedPeers_inv RejectedPeers_Reset"
  by (simp add: RejectedPeers_inv_def RejectedPeers_Reset_def)

datatype RejectedOp = Reject Rejection | Admit HubPeer

fun rejected_step :: "RejectedOp \<Rightarrow> RejectedPeers \<Rightarrow> RejectedPeers" where
  "rejected_step (Reject r) t = RejectedPeers_Record t r"
| "rejected_step (Admit p) t = RejectedPeers_Forget t p"

lemma rejected_run_inv: "RejectedPeers_inv t \<Longrightarrow> RejectedPeers_inv (fold rejected_step ops t)"
proof (induction ops arbitrary: t)
  case (Cons x ops)
  then show ?case by (cases x) (simp_all add: Record_inv Forget_spec)
qed simp

text \<open>While some entry is free or was tried once, new identities leave those tried twice alone.\<close>

abbreviation disposable :: "RejectedPeer \<Rightarrow> bool" where
  "disposable e \<equiv> \<not> rp_in_use e \<or> unat (rp_attempts e) \<le> 1"

lemma Record_stranger:
  assumes inv: "RejectedPeers_inv t" and d: "d \<in> set (rps_entries t)" "disposable d"
    and e: "rejected_map t k = Some e" "2 \<le> unat (rp_attempts e)"
    and new: "rejected_map t (peer_key (rj_peer r)) = None"
  shows "rejected_map (RejectedPeers_Record t r) k = Some e"
    and "\<exists>d \<in> set (rps_entries (RejectedPeers_Record t r)). disposable d"
    and "j \<noteq> peer_key (rj_peer r) \<Longrightarrow> rejected_map t j = None \<Longrightarrow> rejected_map (RejectedPeers_Record t r) j = None"
proof -
  let ?v = "rps_entries t ! claimEntry t"
  have low: "rp_attempts ?v \<le> rp_attempts d" if "rp_in_use ?v"
    using claimEntry_best(2) [OF inv that d(1)] by (auto simp: isLessWorthKeeping_def split: if_splits)
  have "unat (rp_attempts ?v) \<le> 1" if "rp_in_use ?v"
    using low [OF that] d(2) claimEntry_best(2) [OF inv that d(1)] by (simp add: word_le_nat_alt)
  then have other: "rejected_key ?v \<noteq> k" if "rp_in_use ?v"
    using that e rejects.map_at [of "rps_entries t" "claimEntry t"] claimEntry_best(1) [OF inv] inv
    by (auto simp: rejected_map_def RejectedPeers_inv_def)
  have k: "k \<noteq> peer_key (rj_peer r)"
    using e(1) new by auto
  have at: "renewed r (new_reject r) \<in> set ((rps_entries t)[claimEntry t := renewed r (new_reject r)])"
    using claimEntry_best(1) [OF inv] by (rule set_update_memI)
  have "rejected_map (RejectedPeers_Record t r) k = Some e \<and>
     (\<exists>d \<in> set (rps_entries (RejectedPeers_Record t r)). disposable d) \<and>
     (j \<noteq> peer_key (rj_peer r) \<longrightarrow> rejected_map t j = None \<longrightarrow> rejected_map (RejectedPeers_Record t r) j = None)"
  proof (cases "anonymous r")
    case True
    then show ?thesis
      using e d by (auto simp: RejectedPeers_Record_def Let_def)
  next
    case False
    note recorded = Record_new [OF inv False new]
    have "\<exists>d \<in> set (rps_entries (RejectedPeers_Record t r)). disposable d"
      unfolding recorded(1) using at by (rule rev_bexI) simp
    then show ?thesis
      using other e(1) k by (auto simp: recorded(3))
  qed
  then show "rejected_map (RejectedPeers_Record t r) k = Some e"
    and "\<exists>d \<in> set (rps_entries (RejectedPeers_Record t r)). disposable d"
    and "j \<noteq> peer_key (rj_peer r) \<Longrightarrow> rejected_map t j = None \<Longrightarrow> rejected_map (RejectedPeers_Record t r) j = None"
    by blast+
qed

lemma flood_outlived:
  assumes "RejectedPeers_inv t" and "\<exists>d \<in> set (rps_entries t). disposable d"
    and "rejected_map t k = Some e" and "2 \<le> unat (rp_attempts e)"
    and "distinct (map (\<lambda>r. peer_key (rj_peer r)) flood)" and "\<forall>r \<in> set flood. rejected_map t (peer_key (rj_peer r)) = None"
  shows "rejected_map (fold (\<lambda>r t. RejectedPeers_Record t r) flood t) k = Some e"
  using assms
proof (induction flood arbitrary: t)
  case (Cons r flood)
  have new: "rejected_map t (peer_key (rj_peer r)) = None"
    using Cons.prems(6) by simp
  from Cons.prems(2) obtain d where d: "d \<in> set (rps_entries t)" "disposable d" by blast
  note step = Record_stranger [OF Cons.prems(1) d Cons.prems(3,4) new]
  have others: "\<forall>q \<in> set flood. rejected_map (RejectedPeers_Record t r) (peer_key (rj_peer q)) = None"
  proof
    fix q assume q: "q \<in> set flood"
    then have "peer_key (rj_peer q) \<noteq> peer_key (rj_peer r)"
      using Cons.prems(5) by (auto simp: image_iff)
    then show "rejected_map (RejectedPeers_Record t r) (peer_key (rj_peer q)) = None"
      using step(3) Cons.prems(6) q by simp
  qed
  have "distinct (map (\<lambda>r. peer_key (rj_peer r)) flood)"
    using Cons.prems(5) by simp
  then have "rejected_map (fold (\<lambda>r t. RejectedPeers_Record t r) flood (RejectedPeers_Record t r)) k = Some e"
    using Cons.IH [OF Record_inv [OF Cons.prems(1)] step(2,1) Cons.prems(4)] others by blast
  then show ?case
    by simp
qed simp

text \<open>With no such entry left, one new identity costs a device that has knocked twice its entry.\<close>

lemma full_table_evicts:
  assumes inv: "RejectedPeers_inv t" and full: "\<forall>d \<in> set (rps_entries t). \<not> disposable d"
    and r: "\<not> anonymous r" "rejected_map t (peer_key (rj_peer r)) = None"
  shows "\<exists>k e. rejected_map t k = Some e \<and> 2 \<le> unat (rp_attempts e) \<and> rejected_map (RejectedPeers_Record t r) k = None"
proof -
  let ?v = "rps_entries t ! claimEntry t"
  have at: "claimEntry t < length (rps_entries t)"
    using inv by (rule claimEntry_best(1))
  then have v: "rp_in_use ?v" "2 \<le> unat (rp_attempts ?v)"
    using full nth_mem by fastforce+
  then have known: "rejected_map t (rejected_key ?v) = Some ?v"
    using rejects.map_at [of "rps_entries t" "claimEntry t"] at inv by (simp add: rejected_map_def RejectedPeers_inv_def)
  then have "rejected_key ?v \<noteq> peer_key (rj_peer r)"
    using r(2) by auto
  then show ?thesis
    using known v Record_new(3) [OF inv r] by (intro exI [of _ "rejected_key ?v"] exI [of _ ?v]) simp
qed

text \<open>
  C38. A device that keeps knocking outlives a flood of one-shot identities while the table has an
  entry to give away: in every state the table can reach in which one of the 16 entries is free or
  was tried only once, an identity turned away at least twice keeps its entry, with its count,
  through any number of rejections of identities the table does not know yet, each knocking once.
  The condition is needed: once all 16 entries have been tried twice, the next new identity
  evicts one of them.
\<close>

theorem RejectedPeers_outlive_flood:
  assumes "t = fold rejected_step ops RejectedPeers_Reset"
    and "rejected_map t k = Some e" and "2 \<le> unat (rp_attempts e)"
    and "\<exists>d \<in> set (rps_entries t). disposable d"
    and "distinct (map (\<lambda>r. peer_key (rj_peer r)) flood)" and "\<forall>r \<in> set flood. rejected_map t (peer_key (rj_peer r)) = None"
  shows "rejected_map (fold (\<lambda>r t. RejectedPeers_Record t r) flood t) k = Some e"
  using flood_outlived [OF _ assms(4,2,3,5,6)] rejected_run_inv [OF RejectedPeers_Reset_inv] assms(1) by simp

definition sample_reject :: "u8 \<Rightarrow> Rejection" where
  "sample_reject c = \<lparr>rj_peer = HubPeer_zero\<lparr>hp_role := kHUB_PEER_ROLE_AGENT, hp_fingerprint_hex := c # replicate 64 0\<rparr>,
     rj_name = [0], rj_reason = 1, rj_now_us = 5\<rparr>"

abbreviation sample_key :: "u8 \<Rightarrow> u8 \<times> bytes" where
  "sample_key c \<equiv> peer_key (rj_peer (sample_reject c))"

lemma sample_key_eq: "c \<noteq> 0 \<Longrightarrow> sample_key c = (1, [c])"
  by (simp add: peer_key_def sample_reject_def cstr_def)

definition sample_twice :: RejectedPeers where
  "sample_twice = fold rejected_step [Reject (sample_reject 49), Reject (sample_reject 49)] RejectedPeers_Reset"

lemma sample_twice_map:
  shows "rejected_map sample_twice =
     [sample_key 49 \<mapsto> renewed (sample_reject 49) (renewed (sample_reject 49) (new_reject (sample_reject 49)))]"
    (is "_ = [_ \<mapsto> ?e]")
  and "\<exists>d \<in> set (rps_entries sample_twice). disposable d"
proof -
  let ?r = "sample_reject 49" and ?t = "RejectedPeers_Record RejectedPeers_Reset (sample_reject 49)"
  have known: "\<not> anonymous ?r"
    by (simp add: sample_reject_def)
  have empty: "rejected_map RejectedPeers_Reset = Map.empty"
    by (simp add: rejected_map_def RejectedPeers_Reset_def)
  note first = Record_new [OF RejectedPeers_Reset_inv known, unfolded empty, OF refl]
  have "rps_entries RejectedPeers_Reset ! claimEntry RejectedPeers_Reset = RejectedPeer_zero"
    using claimEntry_best(1) [OF RejectedPeers_Reset_inv] by (simp add: RejectedPeers_Reset_def)
  then have once: "rejected_map ?t = [sample_key 49 \<mapsto> renewed ?r (new_reject ?r)]"
    using first(3) by (simp add: RejectedPeer_zero_def)
  have twice: "sample_twice = RejectedPeers_Record ?t ?r"
    by (simp add: sample_twice_def)
  show map: "rejected_map sample_twice = [sample_key 49 \<mapsto> ?e]"
    unfolding twice using Record_again(2) [OF first(2) known, unfolded once, OF map_upd_Some_unfold [THEN iffD2]] by simp
  have inv: "RejectedPeers_inv sample_twice"
    unfolding sample_twice_def by (rule rejected_run_inv [OF RejectedPeers_Reset_inv])
  have "card (dom (rejected_map sample_twice)) < length (rps_entries sample_twice)"
    using inv by (simp add: map RejectedPeers_inv_def)
  then have "\<exists>i. find_index (\<lambda>s. \<not> rp_in_use s) (rps_entries sample_twice) = Some i"
    using rejects.card_dom [of "rps_entries sample_twice"] inv
    by (simp add: rejects.free_index_iff rejected_map_def RejectedPeers_inv_def)
  then show "\<exists>d \<in> set (rps_entries sample_twice). disposable d"
    using find_index_SomeD nth_mem by metis
qed

theorem RejectedPeers_outlive_flood_witness:
  "rejected_map (fold (\<lambda>r t. RejectedPeers_Record t r) [sample_reject 50, sample_reject 51] sample_twice) (sample_key 49) =
     Some (renewed (sample_reject 49) (renewed (sample_reject 49) (new_reject (sample_reject 49))))"
  by (rule RejectedPeers_outlive_flood [OF sample_twice_def _ _ sample_twice_map(2)])
    (simp_all add: sample_twice_map(1) sample_key_eq)

end
