(* ===== verification/AdminViews.thy ===== *)
theory AdminViews
  imports FrameRoutes RejectedPeers
begin

text \<open>
  The administration views (\<open>hub/domain/admin_views.c\<close>): the listings that join the peers with
  the interfaces and the transactions.
\<close>

section \<open>Agents, interfaces and transactions\<close>

abbreviation (input) ADMIN_VIEW_ENTRIES_MAX :: nat where "ADMIN_VIEW_ENTRIES_MAX \<equiv> 16"
abbreviation (input) ADMIN_CLIENT_NO_CHANNEL :: u8 where "ADMIN_CLIENT_NO_CHANNEL \<equiv> 0xFF"

definition countAgentInterfaces :: "InterfaceRegistry \<Rightarrow> u32 \<Rightarrow> u8" where
  "countAgentInterfaces registry agent_peer_id =
     of_nat (length (filter (\<lambda>e. ie_in_use e \<and> ie_agent_peer_id e = agent_peer_id) (ir_entries registry)))"

definition AdminAgentsReplyEntry_zero :: AdminAgentsReplyEntry where
  "AdminAgentsReplyEntry_zero = \<lparr>aae_peer_id = 0, aae_interface_count = 0, aae_agent_name = replicate REGISTER_AGENT_NAME_SIZE 0,
     aae_fingerprint_hex = replicate ADMIN_FINGERPRINT_HEX_SIZE 0\<rparr>"

definition agent_row :: "InterfaceRegistry \<Rightarrow> HubPeer \<Rightarrow> AdminAgentsReplyEntry" where
  "agent_row registry peer = \<lparr>aae_peer_id = hp_peer_id peer,
     aae_interface_count = countAgentInterfaces registry (hp_peer_id peer), aae_agent_name = hp_agent_name peer,
     aae_fingerprint_hex = hp_fingerprint_hex peer\<rparr>"

definition AdminViews_Agents ::
    "InterfaceRegistry \<Rightarrow> PeerDirectory \<Rightarrow> bytes \<Rightarrow> nat \<Rightarrow> AdminAgentsReplyEntry AdminPage" where
  "AdminViews_Agents registry directory agent_name_filter offset =
     (let filtered = agent_name_filter ! 0 \<noteq> 0
      in admin_page ADMIN_VIEW_ENTRIES_MAX AdminAgentsReplyEntry_zero (agent_row registry)
           (\<lambda>peer. \<not> (\<not> hp_in_use peer \<or> hp_role peer \<noteq> kHUB_PEER_ROLE_AGENT) \<and>
              \<not> (filtered \<and> \<not> str_eq (hp_agent_name peer) agent_name_filter))
           offset (pd_peers directory))"

definition countSubscribers :: "PeerDirectory \<Rightarrow> u32 \<Rightarrow> u8" where
  "countSubscribers directory interface_id =
     of_nat (length (filter (\<lambda>p. \<not> (\<not> hp_in_use p \<or> hp_role p \<noteq> kHUB_PEER_ROLE_CLIENT) \<and>
       ClientSession_ChannelForInterface (hp_session p) interface_id \<noteq> None) (pd_peers directory)))"

definition interfaceMode :: "InterfaceEntry \<Rightarrow> u8" where
  "interfaceMode entry = (if \<not> ie_fd_reported entry then 0 else if ie_fd_capable entry then 2 else 1)"

definition AdminInterfacesReplyEntry_zero :: AdminInterfacesReplyEntry where
  "AdminInterfacesReplyEntry_zero = \<lparr>aie_interface_id = 0, aie_subscriber_count = 0, aie_frames_received = 0,
     aie_tx_dropped = 0, aie_agent_name = replicate REGISTER_AGENT_NAME_SIZE 0,
     aie_interface_name = replicate REGISTER_INTERFACE_NAME_SIZE 0, aie_mode = 0\<rparr>"

definition interface_row :: "PeerDirectory \<Rightarrow> InterfaceEntry \<Rightarrow> AdminInterfacesReplyEntry" where
  "interface_row directory e = \<lparr>aie_interface_id = ie_interface_id e,
     aie_subscriber_count = countSubscribers directory (ie_interface_id e),
     aie_frames_received = of_nat (ie_frames_received e), aie_tx_dropped = of_nat (ie_tx_dropped e),
     aie_agent_name = ie_agent_name e, aie_interface_name = ie_interface_name e, aie_mode = interfaceMode e\<rparr>"

definition AdminViews_Interfaces :: "InterfaceRegistry \<Rightarrow> PeerDirectory \<Rightarrow> nat \<Rightarrow> AdminInterfacesReplyEntry AdminPage" where
  "AdminViews_Interfaces registry directory offset =
     admin_page ADMIN_VIEW_ENTRIES_MAX AdminInterfacesReplyEntry_zero (interface_row directory) ie_in_use offset (ir_entries registry)"

definition elapsedMs :: "nat \<Rightarrow> nat \<Rightarrow> u32" where
  "elapsedMs since_us now_us =
     (if now_us \<le> since_us then 0
      else let elapsed_ms = (now_us - since_us) div 1000
           in if elapsed_ms > 0xFFFFFFFF then 0xFFFFFFFF else of_nat elapsed_ms)"

definition AdminTxnsReplyEntry_zero :: AdminTxnsReplyEntry where
  "AdminTxnsReplyEntry_zero = \<lparr>ate_interface_id = 0, ate_client_peer_id = 0, ate_agent_peer_id = 0, ate_txn_id = 0,
     ate_state = 0, ate_flags = 0, ate_completed_steps = 0, ate_bytes_in_flight = 0, ate_age_ms = 0, ate_progress_age_ms = 0,
     ate_agent_name = replicate REGISTER_AGENT_NAME_SIZE 0, ate_interface_name = replicate REGISTER_INTERFACE_NAME_SIZE 0\<rparr>"

definition fillTransactionEntry :: "InterfaceRegistry \<Rightarrow> RelayedTransaction \<Rightarrow> nat \<Rightarrow> AdminTxnsReplyEntry" where
  "fillTransactionEntry registry t now_us =
     (let entry = AdminTxnsReplyEntry_zero\<lparr>ate_interface_id := rt_interface_id t, ate_client_peer_id := rt_client_peer_id t,
            ate_agent_peer_id := rt_agent_peer_id t, ate_txn_id := rt_txn_id t,
            ate_state := (if rt_state t = kTRANSACTION_RELAY_STATE_ACTIVE then 2 else 1),
            ate_flags := (if rt_exclusive t then 1 else 0), ate_completed_steps := of_nat (rt_completed_steps t),
            ate_bytes_in_flight := of_nat (rt_relayed_bytes t) - of_nat (rt_consumed_bytes t),
            ate_age_ms := elapsedMs (rt_started_at_us t) now_us,
            ate_progress_age_ms := (if rt_last_progress_us t \<noteq> 0 then elapsedMs (rt_last_progress_us t) now_us else 0xFFFFFFFF)\<rparr>
      in case InterfaceRegistry_FindById registry (rt_interface_id t) of
           None \<Rightarrow> entry
         | Some e \<Rightarrow> entry\<lparr>ate_agent_name := ie_agent_name e, ate_interface_name := ie_interface_name e\<rparr>)"

definition AdminViews_Transactions :: "InterfaceRegistry \<Rightarrow> TransactionTable \<Rightarrow> nat \<Rightarrow> nat \<Rightarrow> AdminTxnsReplyEntry AdminPage" where
  "AdminViews_Transactions registry transactions now_us offset =
     admin_page ADMIN_VIEW_ENTRIES_MAX AdminTxnsReplyEntry_zero (\<lambda>t. fillTransactionEntry registry t now_us)
       (\<lambda>t. rt_state t \<noteq> kTRANSACTION_RELAY_STATE_FREE) offset (tt_entries transactions)"

section \<open>Clients\<close>

text \<open>
  The client listing has a row per open channel, and one for a client without channels.  The
  reply is filled row by row: \<open>appendClientRow\<close> answers false when the page is full.
\<close>

definition AdminClientsReplyEntry_zero :: AdminClientsReplyEntry where
  "AdminClientsReplyEntry_zero = \<lparr>ace_peer_id = 0, ace_interface_id = 0, ace_channel = 0,
     ace_agent_name = replicate REGISTER_AGENT_NAME_SIZE 0, ace_interface_name = replicate REGISTER_INTERFACE_NAME_SIZE 0,
     ace_frames_forwarded = 0, ace_frames_dropped = 0\<rparr>"

type_synonym client_page = "AdminClientsReplyEntry AdminPage \<times> nat"

definition clientHasOpenChannels :: "HubPeer \<Rightarrow> bool" where
  "clientHasOpenChannels peer = list_ex cb_in_use (cs_bindings (hp_session peer))"

definition appendClientRow :: "client_page \<Rightarrow> nat \<Rightarrow> AdminClientsReplyEntry \<Rightarrow> bool \<times> client_page" where
  "appendClientRow page offset row =
     (case page of (reply, skipped) \<Rightarrow>
        if skipped < offset then (True, (reply, skipped + 1))
        else if unat (pg_count reply) = ADMIN_VIEW_ENTRIES_MAX
        then (False, (reply\<lparr>pg_flags := pg_flags reply OR ADMIN_REPLY_FLAG_MORE\<rparr>, skipped))
        else (True, (reply\<lparr>pg_entries := (pg_entries reply)[unat (pg_count reply) := row], pg_count := pg_count reply + 1\<rparr>, skipped)))"

definition client_row :: "u32 \<Rightarrow> u32 \<Rightarrow> u8 \<Rightarrow> bytes \<Rightarrow> bytes \<Rightarrow> u32 \<Rightarrow> u32 \<Rightarrow> AdminClientsReplyEntry" where
  "client_row peer_id interface_id channel agent_name interface_name frames_forwarded frames_dropped =
     AdminClientsReplyEntry_zero\<lparr>ace_peer_id := peer_id, ace_interface_id := interface_id, ace_channel := channel,
       ace_agent_name := BoundedString_Copy (ace_agent_name AdminClientsReplyEntry_zero) (Some agent_name),
       ace_interface_name := BoundedString_Copy (ace_interface_name AdminClientsReplyEntry_zero) (Some interface_name),
       ace_frames_forwarded := frames_forwarded, ace_frames_dropped := frames_dropped\<rparr>"

definition binding_names :: "InterfaceRegistry \<Rightarrow> ChannelBinding \<Rightarrow> bytes \<times> bytes" where
  "binding_names registry binding =
     (case InterfaceRegistry_FindById registry (cb_interface_id binding) of
        Some e \<Rightarrow> (ie_agent_name e, ie_interface_name e)
      | None \<Rightarrow> (cb_agent_name binding, cb_interface_name binding))"

fun append_bindings ::
    "InterfaceRegistry \<Rightarrow> bytes \<Rightarrow> nat \<Rightarrow> HubPeer \<Rightarrow> ChannelBinding list \<Rightarrow> client_page \<Rightarrow> bool \<times> client_page" where
  "append_bindings registry name_filter offset peer [] page = (True, page)"
| "append_bindings registry name_filter offset peer (binding # bindings) page =
     (if \<not> cb_in_use binding then append_bindings registry name_filter offset peer bindings page
      else let (agent_name, interface_name) = binding_names registry binding
        in if name_filter ! 0 \<noteq> 0 \<and> \<not> str_eq agent_name name_filter
           then append_bindings registry name_filter offset peer bindings page
           else case appendClientRow page offset
               (client_row (hp_peer_id peer) (cb_interface_id binding) (cb_channel binding) agent_name interface_name
                  (cb_frames_forwarded binding) (cb_frames_dropped binding)) of
             (False, page) \<Rightarrow> (False, page)
           | (True, page) \<Rightarrow> append_bindings registry name_filter offset peer bindings page)"

fun append_clients :: "InterfaceRegistry \<Rightarrow> bytes \<Rightarrow> nat \<Rightarrow> HubPeer list \<Rightarrow> client_page \<Rightarrow> client_page" where
  "append_clients registry name_filter offset [] page = page"
| "append_clients registry name_filter offset (peer # peers) page =
     (if \<not> hp_in_use peer \<or> hp_role peer \<noteq> kHUB_PEER_ROLE_CLIENT then append_clients registry name_filter offset peers page
      else if \<not> clientHasOpenChannels peer
      then (if name_filter ! 0 \<noteq> 0 then append_clients registry name_filter offset peers page
            else case appendClientRow page offset (client_row (hp_peer_id peer) 0 ADMIN_CLIENT_NO_CHANNEL [0] [0] 0 0) of
              (False, page) \<Rightarrow> page
            | (True, page) \<Rightarrow> append_clients registry name_filter offset peers page)
      else case append_bindings registry name_filter offset peer (cs_bindings (hp_session peer)) page of
          (False, page) \<Rightarrow> page
        | (True, page) \<Rightarrow> append_clients registry name_filter offset peers page)"

definition AdminViews_Clients ::
    "InterfaceRegistry \<Rightarrow> PeerDirectory \<Rightarrow> bytes \<Rightarrow> nat \<Rightarrow> AdminClientsReplyEntry AdminPage" where
  "AdminViews_Clients registry directory agent_name_filter offset =
     fst (append_clients registry agent_name_filter offset (pd_peers directory)
       (\<lparr>pg_count = 0, pg_flags = 0, pg_entries = replicate ADMIN_VIEW_ENTRIES_MAX AdminClientsReplyEntry_zero\<rparr>, 0))"

section \<open>The client listing as a flat list of rows\<close>

definition client_rows :: "InterfaceRegistry \<Rightarrow> bytes \<Rightarrow> HubPeer \<Rightarrow> AdminClientsReplyEntry list" where
  "client_rows registry name_filter peer =
     (if \<not> hp_in_use peer \<or> hp_role peer \<noteq> kHUB_PEER_ROLE_CLIENT then []
      else if \<not> list_ex cb_in_use (cs_bindings (hp_session peer))
      then (if name_filter ! 0 \<noteq> 0 then [] else [client_row (hp_peer_id peer) 0 ADMIN_CLIENT_NO_CHANNEL [0] [0] 0 0])
      else map (\<lambda>b. case binding_names registry b of (agent_name, interface_name) \<Rightarrow>
             client_row (hp_peer_id peer) (cb_interface_id b) (cb_channel b) agent_name interface_name
               (cb_frames_forwarded b) (cb_frames_dropped b))
           (filter (\<lambda>b. cb_in_use b \<and> (name_filter ! 0 = 0 \<or> str_eq (fst (binding_names registry b)) name_filter))
             (cs_bindings (hp_session peer))))"

fun append_rows :: "nat \<Rightarrow> AdminClientsReplyEntry list \<Rightarrow> client_page \<Rightarrow> bool \<times> client_page" where
  "append_rows offset [] page = (True, page)"
| "append_rows offset (row # rows) page =
     (case appendClientRow page offset row of
        (False, page) \<Rightarrow> (False, page)
      | (True, page) \<Rightarrow> append_rows offset rows page)"

lemma append_rows_append:
  "append_rows offset (xs @ ys) page =
     (case append_rows offset xs page of (False, page) \<Rightarrow> (False, page) | (True, page) \<Rightarrow> append_rows offset ys page)"
  by (induction xs arbitrary: page) (auto split: prod.splits bool.splits)

lemma append_bindings_rows:
  "append_bindings registry f offset peer bs page =
     append_rows offset (map (\<lambda>b. case binding_names registry b of (agent_name, interface_name) \<Rightarrow>
             client_row (hp_peer_id peer) (cb_interface_id b) (cb_channel b) agent_name interface_name
               (cb_frames_forwarded b) (cb_frames_dropped b))
           (filter (\<lambda>b. cb_in_use b \<and> (f ! 0 = 0 \<or> str_eq (fst (binding_names registry b)) f)) bs)) page"
  by (induction bs arbitrary: page) (auto simp: split_def Let_def split: bool.splits)

lemma append_clients_rows:
  "append_clients registry f offset ps page = snd (append_rows offset (concat (map (client_rows registry f) ps)) page)"
proof (induction ps arbitrary: page)
  case (Cons p ps)
  then show ?case
    by (auto simp: append_rows_append append_bindings_rows client_rows_def clientHasOpenChannels_def split: prod.splits bool.splits)
qed simp

definition filled_page :: "AdminClientsReplyEntry list \<Rightarrow> bool \<Rightarrow> AdminClientsReplyEntry AdminPage" where
  "filled_page rows has_more = \<lparr>pg_count = of_nat (length rows), pg_flags = (if has_more then ADMIN_REPLY_FLAG_MORE else 0),
     pg_entries = rows @ replicate (ADMIN_VIEW_ENTRIES_MAX - length rows) AdminClientsReplyEntry_zero\<rparr>"

lemma appendClientRow_filled:
  assumes "length out \<le> ADMIN_VIEW_ENTRIES_MAX"
  shows "appendClientRow (filled_page out False, skipped) offset row =
    (if skipped < offset then (True, (filled_page out False, skipped + 1))
     else if length out = ADMIN_VIEW_ENTRIES_MAX then (False, (filled_page out True, skipped))
     else (True, (filled_page (out @ [row]) False, skipped)))"
proof -
  have count: "unat (of_nat (length out) :: u8) = length out"
    using assms by (simp add: unat_of_nat)
  have "(out @ replicate (16 - length out) AdminClientsReplyEntry_zero)[length out := row] =
      (out @ [row]) @ replicate (16 - Suc (length out)) AdminClientsReplyEntry_zero" if "length out < 16"
  proof -
    have "replicate (16 - length out) AdminClientsReplyEntry_zero =
        AdminClientsReplyEntry_zero # replicate (16 - Suc (length out)) AdminClientsReplyEntry_zero"
      using that by (metis Suc_diff_Suc replicate_Suc)
    then show ?thesis
      by (simp add: list_update_append)
  qed
  then show ?thesis
    using assms by (auto simp: appendClientRow_def filled_page_def count)
qed

lemma append_rows_filled:
  assumes "length out \<le> ADMIN_VIEW_ENTRIES_MAX"
  shows "fst (snd (append_rows offset rows (filled_page out False, skipped))) =
    (let rest = drop (offset - skipped) rows
     in filled_page (out @ take (ADMIN_VIEW_ENTRIES_MAX - length out) rest) (ADMIN_VIEW_ENTRIES_MAX < length out + length rest))"
  using assms
proof (induction rows arbitrary: out skipped)
  case (Cons row rows)
  show ?case
  proof (cases "skipped < offset")
    case True
    then have "offset - skipped = Suc (offset - Suc skipped)"
      by (simp add: Suc_diff_Suc)
    then show ?thesis
      using True Cons.IH [of out "Suc skipped"] Cons.prems by (simp add: appendClientRow_filled Let_def)
  next
    case False
    then show ?thesis
      using Cons.IH [of "out @ [row]" skipped] Cons.prems by (auto simp: appendClientRow_filled Let_def take_Cons')
  qed
qed (simp add: Let_def)

lemma Clients_lists:
  "lists_rows ADMIN_VIEW_ENTRIES_MAX (AdminViews_Clients registry directory f)
     (concat (map (client_rows registry f) (pd_peers directory)))"
proof -
  let ?rows = "concat (map (client_rows registry f) (pd_peers directory))"
  have start: "\<lparr>pg_count = 0, pg_flags = 0, pg_entries = replicate ADMIN_VIEW_ENTRIES_MAX AdminClientsReplyEntry_zero\<rparr> = filled_page [] False"
    by (simp add: filled_page_def)
  have page: "AdminViews_Clients registry directory f offset =
      filled_page (take ADMIN_VIEW_ENTRIES_MAX (drop offset ?rows)) (ADMIN_VIEW_ENTRIES_MAX < length (drop offset ?rows))" for offset
    unfolding AdminViews_Clients_def start append_clients_rows
    using append_rows_filled [of "[]" offset ?rows 0] by (simp add: Let_def)
  show ?thesis
    by (rule lists_rowsI) (auto simp: page page_rows_def filled_page_def unat_of_nat min_def)
qed

text \<open>
  C40. Six listings of the administration interface are complete, those of the hub's own tables:
  peers, rejected peers, agents, clients, interfaces and transactions.  The listings of pins,
  access rules, routes and groups are not among them.  For each of the six there is one list of rows, in table order
  and with the fields the tables hold now; the page at any offset carries the rows from that
  offset up to the limit of the reply and says whether more follow, and asking page after page
  yields every row once.  For the clients, whose rows the code appends channel by channel with an
  early exit when the page is full, the rows are those of the clients' channels one after the other.
\<close>

theorem admin_listings_complete:
  "lists_rows 15 (\<lambda>offset. PeerDirectory_List d offset now)
     (map (\<lambda>p. HubPeer_FillAdminEntry p now) (filter hp_in_use (pd_peers d))) \<and>
   lists_rows 15 (\<lambda>offset. RejectedPeers_List t offset now)
     (map (\<lambda>e. rejected_fillAdminEntry e now) (filter rp_in_use (rps_entries t))) \<and>
   lists_rows 16 (AdminViews_Agents reg d name)
     (map (agent_row reg) (filter (\<lambda>p. hp_in_use p \<and> hp_role p = kHUB_PEER_ROLE_AGENT \<and>
        (name ! 0 = 0 \<or> str_eq (hp_agent_name p) name)) (pd_peers d))) \<and>
   lists_rows 16 (AdminViews_Clients reg d name) (concat (map (client_rows reg name) (pd_peers d))) \<and>
   lists_rows 16 (AdminViews_Interfaces reg d) (map (interface_row d) (filter ie_in_use (ir_entries reg))) \<and>
   lists_rows 16 (AdminViews_Transactions reg txns now)
     (map (\<lambda>x. fillTransactionEntry reg x now) (filter (\<lambda>x. rt_state x \<noteq> kTRANSACTION_RELAY_STATE_FREE) (tt_entries txns)))"
proof (intro conjI)
  show "lists_rows 15 (\<lambda>offset. PeerDirectory_List d offset now)
     (map (\<lambda>p. HubPeer_FillAdminEntry p now) (filter hp_in_use (pd_peers d)))"
    unfolding PeerDirectory_List_def by (rule admin_page_lists) simp
  show "lists_rows 15 (\<lambda>offset. RejectedPeers_List t offset now)
     (map (\<lambda>e. rejected_fillAdminEntry e now) (filter rp_in_use (rps_entries t)))"
    unfolding RejectedPeers_List_def by (rule admin_page_lists) simp
  have "(\<lambda>p. \<not> (\<not> hp_in_use p \<or> hp_role p \<noteq> kHUB_PEER_ROLE_AGENT) \<and> \<not> (name ! 0 \<noteq> 0 \<and> \<not> str_eq (hp_agent_name p) name)) =
      (\<lambda>p. hp_in_use p \<and> hp_role p = kHUB_PEER_ROLE_AGENT \<and> (name ! 0 = 0 \<or> str_eq (hp_agent_name p) name))"
    by (auto simp: fun_eq_iff)
  note same = this
  show "lists_rows 16 (AdminViews_Agents reg d name)
     (map (agent_row reg) (filter (\<lambda>p. hp_in_use p \<and> hp_role p = kHUB_PEER_ROLE_AGENT \<and>
        (name ! 0 = 0 \<or> str_eq (hp_agent_name p) name)) (pd_peers d)))"
    unfolding AdminViews_Agents_def [abs_def] Let_def same by (rule admin_page_lists) simp
  show "lists_rows 16 (AdminViews_Clients reg d name) (concat (map (client_rows reg name) (pd_peers d)))"
    by (rule Clients_lists)
  show "lists_rows 16 (AdminViews_Interfaces reg d) (map (interface_row d) (filter ie_in_use (ir_entries reg)))"
    using admin_page_lists [of 16] by (simp add: AdminViews_Interfaces_def [abs_def])
  show "lists_rows 16 (AdminViews_Transactions reg txns now)
     (map (\<lambda>x. fillTransactionEntry reg x now) (filter (\<lambda>x. rt_state x \<noteq> kTRANSACTION_RELAY_STATE_FREE) (tt_entries txns)))"
    using admin_page_lists [of 16] by (simp add: AdminViews_Transactions_def [abs_def])
qed

text \<open>
  The subscriber count of an interface row is an 8-bit counter over up to 512 clients: with 256
  subscribers it reads zero.
\<close>

lemma countSubscribers_wraps:
  assumes "length (filter (\<lambda>p. hp_in_use p \<and> hp_role p = kHUB_PEER_ROLE_CLIENT \<and>
      ClientSession_ChannelForInterface (hp_session p) i \<noteq> None) (pd_peers d)) = 256"
  shows "countSubscribers d i = 0"
  using assms by (simp add: countSubscribers_def)

end
