(* ===== verification/BridgeGroups.thy ===== *)
theory BridgeGroups
  imports BridgeRoutes
begin

text \<open>
  Bridge groups (\<open>src/hub/domain/bridge_groups.c\<close>): named groups of buses with their
  members.  The table refines a map from names to groups whose members are themselves a
  map from endpoints.
\<close>

section \<open>Groups and members\<close>

abbreviation (input) BRIDGE_GROUPS_MAX :: nat where "BRIDGE_GROUPS_MAX \<equiv> 16"
abbreviation (input) BRIDGE_GROUP_MEMBERS_MAX :: nat where "BRIDGE_GROUP_MEMBERS_MAX \<equiv> 16"
abbreviation (input) BRIDGE_GROUP_NAME_SIZE :: nat where "BRIDGE_GROUP_NAME_SIZE \<equiv> 16"
abbreviation (input) BRIDGE_MEMBER_FILTERS_MAX :: nat where "BRIDGE_MEMBER_FILTERS_MAX \<equiv> 8"
abbreviation (input) kBRIDGE_MEMBER_BOTH :: u8 where "kBRIDGE_MEMBER_BOTH \<equiv> 0"
abbreviation (input) kBRIDGE_MEMBER_SENDS :: u8 where "kBRIDGE_MEMBER_SENDS \<equiv> 1"
abbreviation (input) kBRIDGE_MEMBER_RECEIVES :: u8 where "kBRIDGE_MEMBER_RECEIVES \<equiv> 2"
abbreviation (input) kBRIDGE_MEMBER_MAX :: u8 where "kBRIDGE_MEMBER_MAX \<equiv> 3"

datatype TBRIDGE_GROUP_JOIN = kBRIDGE_GROUP_JOIN_OK | kBRIDGE_GROUP_JOIN_UNKNOWN | kBRIDGE_GROUP_JOIN_FULL

record BridgeGroupMember =
  bgm_endpoint :: BridgeEndpoint
  bgm_direction :: u8
  bgm_filter_count :: u8
  bgm_filters :: "CanFilter list"

record BridgeGroup =
  bg_name :: bytes
  bg_filter_count :: u8
  bg_filters :: "CanFilter list"
  bg_member_count :: nat
  bg_members :: "BridgeGroupMember list"

record BridgeGroupSlot =
  bgs_in_use :: bool
  bgs_group :: BridgeGroup
  bgs_forwarded :: u64
  bgs_dropped :: u64

record BridgeGroups =
  bgt_slots :: "BridgeGroupSlot list"
  bgt_count :: nat

definition isNameCharacter :: "u8 \<Rightarrow> bool" where
  "isNameCharacter c =
     (if (97 \<le> c \<and> c \<le> 122) \<or> (65 \<le> c \<and> c \<le> 90) then True
      else if 48 \<le> c \<and> c \<le> 57 then True
      else c = 46 \<or> c = 95 \<or> c = 45)"

text \<open>The scan of at most \<open>n\<close> characters; a terminated string never runs out before its NUL.\<close>

fun name_scan :: "nat \<Rightarrow> bytes \<Rightarrow> bool" where
  "name_scan 0 name = False"
| "name_scan (Suc n) [] = False"
| "name_scan (Suc n) (c # name) =
     (if c = 0 then True else if \<not> isNameCharacter c then False else name_scan n name)"

definition BridgeGroup_IsNameValid :: "bytes \<Rightarrow> bool" where
  "BridgeGroup_IsNameValid name = (if name ! 0 = 0 then False else name_scan BRIDGE_GROUP_NAME_SIZE name)"

definition memberIndex :: "BridgeGroup \<Rightarrow> BridgeEndpoint \<Rightarrow> nat option" where
  "memberIndex grp member =
     find_index (\<lambda>m. BridgeEndpoint_Equals (bgm_endpoint m) member)
       (take (bg_member_count grp) (bg_members grp))"

definition BridgeGroup_HasMember :: "BridgeGroup \<Rightarrow> BridgeEndpoint \<Rightarrow> bool" where
  "BridgeGroup_HasMember grp member \<longleftrightarrow> memberIndex grp member \<noteq> None"

definition BridgeGroup_Carries :: "BridgeGroup \<Rightarrow> BridgeEndpoint \<Rightarrow> u32 \<Rightarrow> bool" where
  "BridgeGroup_Carries grp source can_id =
     (case memberIndex grp source of
        None \<Rightarrow> False
      | Some index \<Rightarrow>
          let member = bg_members grp ! index
          in if bgm_direction member = kBRIDGE_MEMBER_RECEIVES then False
             else if \<not> BridgeFilters_Pass (bgm_filters member) (bgm_filter_count member) can_id then False
             else BridgeFilters_Pass (bg_filters grp) (bg_filter_count grp) can_id)"

definition BridgeGroupMember_IsValid :: "BridgeGroupMember \<Rightarrow> bool" where
  "BridgeGroupMember_IsValid member =
     (if \<not> BridgeEndpoint_IsNamed (bgm_endpoint member) then False
      else bgm_direction member < kBRIDGE_MEMBER_MAX \<and> unat (bgm_filter_count member) \<le> BRIDGE_MEMBER_FILTERS_MAX)"

definition BridgeGroupMember_Receives :: "BridgeGroupMember \<Rightarrow> bool" where
  "BridgeGroupMember_Receives member \<longleftrightarrow> bgm_direction member \<noteq> kBRIDGE_MEMBER_SENDS"

section \<open>The table\<close>

definition BridgeGroupMember_zero :: BridgeGroupMember where
  "BridgeGroupMember_zero = \<lparr>bgm_endpoint = BridgeEndpoint_zero, bgm_direction = 0, bgm_filter_count = 0,
     bgm_filters = replicate BRIDGE_MEMBER_FILTERS_MAX CanFilter_zero\<rparr>"

definition BridgeGroupSlot_zero :: BridgeGroupSlot where
  "BridgeGroupSlot_zero = \<lparr>bgs_in_use = False,
     bgs_group = \<lparr>bg_name = replicate BRIDGE_GROUP_NAME_SIZE 0, bg_filter_count = 0,
       bg_filters = replicate BRIDGE_FILTERS_MAX CanFilter_zero, bg_member_count = 0,
       bg_members = replicate BRIDGE_GROUP_MEMBERS_MAX BridgeGroupMember_zero\<rparr>,
     bgs_forwarded = 0, bgs_dropped = 0\<rparr>"

definition BridgeGroups_Reset :: BridgeGroups where
  "BridgeGroups_Reset = \<lparr>bgt_slots = replicate BRIDGE_GROUPS_MAX BridgeGroupSlot_zero, bgt_count = 0\<rparr>"

definition group_findIndex :: "BridgeGroups \<Rightarrow> bytes \<Rightarrow> nat option" where
  "group_findIndex self name =
     find_index (\<lambda>slot. bgs_in_use slot \<and> str_eq (bg_name (bgs_group slot)) name) (bgt_slots self)"

definition group_freeIndex :: "BridgeGroups \<Rightarrow> nat option" where
  "group_freeIndex self = find_index (\<lambda>slot. \<not> bgs_in_use slot) (bgt_slots self)"

definition BridgeGroups_IsEmpty :: "BridgeGroups \<Rightarrow> bool" where
  "BridgeGroups_IsEmpty self \<longleftrightarrow> bgt_count self = 0"

definition BridgeGroups_HasRoom :: "BridgeGroups \<Rightarrow> bytes \<Rightarrow> bool" where
  "BridgeGroups_HasRoom self name \<longleftrightarrow> group_findIndex self name \<noteq> None \<or> group_freeIndex self \<noteq> None"

definition BridgeGroups_Set :: "BridgeGroups \<Rightarrow> bytes \<Rightarrow> u8 \<Rightarrow> CanFilter list \<Rightarrow> bool \<times> BridgeGroups" where
  "BridgeGroups_Set self name filter_count filters =
     (if \<not> BridgeGroup_IsNameValid name \<or> BRIDGE_FILTERS_MAX < unat filter_count then (False, self)
      else
        let found = (case group_findIndex self name of Some index \<Rightarrow> Some index | None \<Rightarrow> group_freeIndex self)
        in case found of
             None \<Rightarrow> (False, self)
           | Some index \<Rightarrow>
               let slot = bgt_slots self ! index;
                   (slot, count) =
                     (if \<not> bgs_in_use slot
                      then (let z = BridgeGroupSlot_zero;
                                g = (bgs_group z)\<lparr>bg_name :=
                                  mem_write (bg_name (bgs_group z)) 0 (take (strlen name) name)\<rparr>
                            in (z\<lparr>bgs_in_use := True, bgs_group := g\<rparr>, wrap 8 (bgt_count self + 1)))
                      else (slot, bgt_count self));
                   g = (bgs_group slot)\<lparr>bg_filter_count := filter_count\<rparr>;
                   g = (if 0 < filter_count
                        then g\<lparr>bg_filters := array_copy (unat filter_count) filters (bg_filters g)\<rparr> else g)
               in (True, self\<lparr>bgt_slots := (bgt_slots self)[index := slot\<lparr>bgs_group := g\<rparr>],
                     bgt_count := count\<rparr>))"

definition BridgeGroups_Remove :: "BridgeGroups \<Rightarrow> bytes \<Rightarrow> bool \<times> BridgeGroups" where
  "BridgeGroups_Remove self name =
     (case group_findIndex self name of
        None \<Rightarrow> (False, self)
      | Some index \<Rightarrow>
          (True, self\<lparr>bgt_slots := (bgt_slots self)[index := BridgeGroupSlot_zero],
             bgt_count := wrap_dec 8 (bgt_count self)\<rparr>))"

text \<open>The update of the group in slot \<open>index\<close>.\<close>

definition set_group :: "BridgeGroups \<Rightarrow> nat \<Rightarrow> BridgeGroup \<Rightarrow> BridgeGroups" where
  "set_group self index grp =
     self\<lparr>bgt_slots := (bgt_slots self)[index := (bgt_slots self ! index)\<lparr>bgs_group := grp\<rparr>]\<rparr>"

definition BridgeGroups_Join :: "BridgeGroups \<Rightarrow> bytes \<Rightarrow> BridgeGroupMember \<Rightarrow> TBRIDGE_GROUP_JOIN \<times> BridgeGroups" where
  "BridgeGroups_Join self name member =
     (case group_findIndex self name of
        None \<Rightarrow> (kBRIDGE_GROUP_JOIN_UNKNOWN, self)
      | Some group_index \<Rightarrow>
          if \<not> BridgeGroupMember_IsValid member then (kBRIDGE_GROUP_JOIN_UNKNOWN, self)
          else
            let grp = bgs_group (bgt_slots self ! group_index)
            in case memberIndex grp (bgm_endpoint member) of
                 Some index \<Rightarrow>
                   (kBRIDGE_GROUP_JOIN_OK,
                    set_group self group_index (grp\<lparr>bg_members := (bg_members grp)[index := member]\<rparr>))
               | None \<Rightarrow>
                   if bg_member_count grp = BRIDGE_GROUP_MEMBERS_MAX then (kBRIDGE_GROUP_JOIN_FULL, self)
                   else (kBRIDGE_GROUP_JOIN_OK,
                     set_group self group_index
                       (grp\<lparr>bg_members := (bg_members grp)[bg_member_count grp := member],
                         bg_member_count := wrap 8 (bg_member_count grp + 1)\<rparr>)))"

definition BridgeGroups_Leave :: "BridgeGroups \<Rightarrow> bytes \<Rightarrow> BridgeEndpoint \<Rightarrow> bool \<times> BridgeGroups" where
  "BridgeGroups_Leave self name member =
     (case group_findIndex self name of
        None \<Rightarrow> (False, self)
      | Some group_index \<Rightarrow>
          let grp = bgs_group (bgt_slots self ! group_index)
          in case memberIndex grp member of
               None \<Rightarrow> (False, self)
             | Some index \<Rightarrow>
                 let n = wrap_dec 8 (bg_member_count grp);
                     ms = (bg_members grp)[index := bg_members grp ! n];
                     ms = ms[n := BridgeGroupMember_zero]
                 in (True, set_group self group_index (grp\<lparr>bg_member_count := n, bg_members := ms\<rparr>)))"

fun join_all :: "BridgeGroups \<Rightarrow> bytes \<Rightarrow> BridgeGroupMember list \<Rightarrow> BridgeGroups" where
  "join_all self name [] = self"
| "join_all self name (m # ms) = join_all (snd (BridgeGroups_Join self name m)) name ms"

definition BridgeGroups_Restore :: "BridgeGroups \<Rightarrow> BridgeGroup \<Rightarrow> bool \<times> BridgeGroups" where
  "BridgeGroups_Restore self grp =
     (case BridgeGroups_Set self (bg_name grp) (bg_filter_count grp) (bg_filters grp) of
        (False, self) \<Rightarrow> (False, self)
      | (True, self) \<Rightarrow>
          (True, join_all self (bg_name grp)
             (take (min (bg_member_count grp) BRIDGE_GROUP_MEMBERS_MAX) (bg_members grp))))"

definition BridgeGroups_Find :: "BridgeGroups \<Rightarrow> bytes \<Rightarrow> BridgeGroupSlot option" where
  "BridgeGroups_Find self name =
     (case group_findIndex self name of None \<Rightarrow> None | Some index \<Rightarrow> Some (bgt_slots self ! index))"

definition BridgeGroups_Nth :: "BridgeGroups \<Rightarrow> nat \<Rightarrow> BridgeGroupSlot option" where
  "BridgeGroups_Nth self position = nth_live bgs_in_use (bgt_slots self) 0 position"

definition BridgeGroups_Slot :: "BridgeGroups \<Rightarrow> nat \<Rightarrow> BridgeGroupSlot option" where
  "BridgeGroups_Slot self slot_index =
     (if BRIDGE_GROUPS_MAX \<le> slot_index \<or> \<not> bgs_in_use (bgt_slots self ! slot_index) then None
      else Some (bgt_slots self ! slot_index))"

section \<open>The table as a map of maps\<close>

abbreviation member_key :: "BridgeGroupMember \<Rightarrow> bytes \<times> bytes" where
  "member_key m \<equiv> endpoint_key (bgm_endpoint m)"

abbreviation group_key :: "BridgeGroupSlot \<Rightarrow> bytes" where
  "group_key s \<equiv> cstr (bg_name (bgs_group s))"

definition members_of :: "BridgeGroup \<Rightarrow> BridgeGroupMember list" where
  "members_of g = take (bg_member_count g) (bg_members g)"

record AbsGroup =
  ag_filters :: "CanFilter list"
  ag_members :: "bytes \<times> bytes \<Rightarrow> BridgeGroupMember option"
  ag_forwarded :: u64
  ag_dropped :: u64

definition abs_group :: "BridgeGroupSlot \<Rightarrow> AbsGroup" where
  "abs_group s = \<lparr>ag_filters = take (unat (bg_filter_count (bgs_group s))) (bg_filters (bgs_group s)),
     ag_members = slot_map (\<lambda>m. True) member_key (members_of (bgs_group s)),
     ag_forwarded = bgs_forwarded s, ag_dropped = bgs_dropped s\<rparr>"

definition BridgeGroups_map :: "BridgeGroups \<Rightarrow> bytes \<Rightarrow> AbsGroup option" where
  "BridgeGroups_map t = map_option abs_group \<circ> slot_map bgs_in_use group_key (bgt_slots t)"

definition group_ok :: "BridgeGroup \<Rightarrow> bool" where
  "group_ok g \<longleftrightarrow> length (bg_members g) = BRIDGE_GROUP_MEMBERS_MAX \<and> bg_member_count g \<le> BRIDGE_GROUP_MEMBERS_MAX \<and>
     distinct (map member_key (members_of g)) \<and> length (bg_filters g) = BRIDGE_FILTERS_MAX \<and>
     unat (bg_filter_count g) \<le> BRIDGE_FILTERS_MAX"

definition BridgeGroups_inv :: "BridgeGroups \<Rightarrow> bool" where
  "BridgeGroups_inv t \<longleftrightarrow> length (bgt_slots t) = BRIDGE_GROUPS_MAX \<and>
     slots_distinct bgs_in_use group_key (bgt_slots t) \<and>
     bgt_count t = length (filter bgs_in_use (bgt_slots t)) \<and>
     (\<forall>s \<in> set (bgt_slots t). group_ok (bgs_group s))"

datatype GroupsOp =
    GroupsSet bytes u8 "CanFilter list"
  | GroupsRemove bytes
  | GroupsJoin bytes BridgeGroupMember
  | GroupsLeave bytes BridgeEndpoint
  | GroupsRestore BridgeGroup
  | GroupsHasRoom bytes
  | GroupsIsEmpty
  | GroupsHasMember bytes BridgeEndpoint

datatype GroupsResult = GroupsFlag bool | GroupsJoined TBRIDGE_GROUP_JOIN

fun BridgeGroups_step :: "BridgeGroups \<Rightarrow> GroupsOp \<Rightarrow> GroupsResult \<times> BridgeGroups" where
  "BridgeGroups_step t (GroupsSet name n fs) = apfst GroupsFlag (BridgeGroups_Set t name n fs)"
| "BridgeGroups_step t (GroupsRemove name) = apfst GroupsFlag (BridgeGroups_Remove t name)"
| "BridgeGroups_step t (GroupsJoin name m) = apfst GroupsJoined (BridgeGroups_Join t name m)"
| "BridgeGroups_step t (GroupsLeave name e) = apfst GroupsFlag (BridgeGroups_Leave t name e)"
| "BridgeGroups_step t (GroupsRestore g) = apfst GroupsFlag (BridgeGroups_Restore t g)"
| "BridgeGroups_step t (GroupsHasRoom name) = (GroupsFlag (BridgeGroups_HasRoom t name), t)"
| "BridgeGroups_step t GroupsIsEmpty = (GroupsFlag (BridgeGroups_IsEmpty t), t)"
| "BridgeGroups_step t (GroupsHasMember name e) =
     (GroupsFlag (case BridgeGroups_Find t name of
        None \<Rightarrow> False
      | Some slot \<Rightarrow> BridgeGroup_HasMember (bgs_group slot) e), t)"

type_synonym groups = "bytes \<Rightarrow> AbsGroup option"

definition groups_set :: "groups \<Rightarrow> bytes \<Rightarrow> u8 \<Rightarrow> CanFilter list \<Rightarrow> bool \<times> groups" where
  "groups_set m name n fs =
     (if \<not> BridgeGroup_IsNameValid name \<or> BRIDGE_FILTERS_MAX < unat n then (False, m)
      else
        let new = map (\<lambda>i. fs ! i) [0..<unat n]
        in case m (cstr name) of
             Some g \<Rightarrow> (True, m(cstr name \<mapsto> g\<lparr>ag_filters := new\<rparr>))
           | None \<Rightarrow>
               if card (dom m) < BRIDGE_GROUPS_MAX
               then (True, m(cstr name \<mapsto>
                 \<lparr>ag_filters = new, ag_members = Map.empty, ag_forwarded = 0, ag_dropped = 0\<rparr>))
               else (False, m))"

definition groups_join :: "groups \<Rightarrow> bytes \<Rightarrow> BridgeGroupMember \<Rightarrow> TBRIDGE_GROUP_JOIN \<times> groups" where
  "groups_join m name member =
     (case m (cstr name) of
        None \<Rightarrow> (kBRIDGE_GROUP_JOIN_UNKNOWN, m)
      | Some g \<Rightarrow>
          if \<not> BridgeGroupMember_IsValid member then (kBRIDGE_GROUP_JOIN_UNKNOWN, m)
          else if ag_members g (member_key member) = None \<and> card (dom (ag_members g)) = BRIDGE_GROUP_MEMBERS_MAX
          then (kBRIDGE_GROUP_JOIN_FULL, m)
          else (kBRIDGE_GROUP_JOIN_OK,
            m(cstr name \<mapsto> g\<lparr>ag_members := (ag_members g)(member_key member \<mapsto> member)\<rparr>)))"

fun groups_join_all :: "groups \<Rightarrow> bytes \<Rightarrow> BridgeGroupMember list \<Rightarrow> groups" where
  "groups_join_all m name [] = m"
| "groups_join_all m name (x # xs) = groups_join_all (snd (groups_join m name x)) name xs"

fun groups_spec :: "groups \<Rightarrow> GroupsOp \<Rightarrow> GroupsResult \<times> groups" where
  "groups_spec m (GroupsSet name n fs) = apfst GroupsFlag (groups_set m name n fs)"
| "groups_spec m (GroupsRemove name) = (GroupsFlag (m (cstr name) \<noteq> None), m(cstr name := None))"
| "groups_spec m (GroupsJoin name member) = apfst GroupsJoined (groups_join m name member)"
| "groups_spec m (GroupsLeave name e) =
     (case m (cstr name) of
        None \<Rightarrow> (GroupsFlag False, m)
      | Some g \<Rightarrow> (GroupsFlag (ag_members g (endpoint_key e) \<noteq> None),
          m(cstr name \<mapsto> g\<lparr>ag_members := (ag_members g)(endpoint_key e := None)\<rparr>)))"
| "groups_spec m (GroupsRestore g) =
     (let (ok, m') = groups_set m (bg_name g) (bg_filter_count g) (bg_filters g)
      in if ok
         then (GroupsFlag True,
           groups_join_all m' (bg_name g) (take (min (bg_member_count g) BRIDGE_GROUP_MEMBERS_MAX) (bg_members g)))
         else (GroupsFlag False, m'))"
| "groups_spec m (GroupsHasRoom name) = (GroupsFlag (m (cstr name) \<noteq> None \<or> card (dom m) < BRIDGE_GROUPS_MAX), m)"
| "groups_spec m GroupsIsEmpty = (GroupsFlag (dom m = {}), m)"
| "groups_spec m (GroupsHasMember name e) =
     (GroupsFlag (case m (cstr name) of None \<Rightarrow> False | Some g \<Rightarrow> ag_members g (endpoint_key e) \<noteq> None), m)"

interpretation grps: slot_table bgs_in_use group_key BridgeGroupSlot_zero
  by unfold_locales (simp add: BridgeGroupSlot_zero_def)

interpretation members: keyed_slots "\<lambda>m. True" member_key .

lemma name_scan_valid: "name_scan n name \<Longrightarrow> 0 \<in> set name \<and> length (cstr name) < n \<and> list_all isNameCharacter (cstr name)"
  by (induction n name rule: name_scan.induct) (auto simp: cstr_def split: if_splits)

lemma name_valid:
  "BridgeGroup_IsNameValid name \<Longrightarrow>
   0 < length (cstr name) \<and> length (cstr name) < 16 \<and> list_all isNameCharacter (cstr name)"
  using name_scan_valid [of 16 name]
  by (cases name) (auto simp: BridgeGroup_IsNameValid_def cstr_def split: if_splits)

lemma group_findIndex_key:
  "group_findIndex t name = find_index (\<lambda>s. bgs_in_use s \<and> group_key s = cstr name) (bgt_slots t)"
  by (simp add: group_findIndex_def str_eq_def)

lemma groups_live_le: "BridgeGroups_inv t \<Longrightarrow> bgt_count t \<le> 16"
  using length_filter_le [of bgs_in_use "bgt_slots t"] by (simp add: BridgeGroups_inv_def)

lemma dom_groups_map: "dom (BridgeGroups_map t) = dom (slot_map bgs_in_use group_key (bgt_slots t))"
  by (auto simp: BridgeGroups_map_def dom_def)

lemma group_freeIndex_room:
  "BridgeGroups_inv t \<Longrightarrow> group_freeIndex t = None \<longleftrightarrow> \<not> card (dom (BridgeGroups_map t)) < 16"
  using grps.full_iff [of "bgt_slots t"] grps.card_dom [of "bgt_slots t"]
    length_filter_le [of bgs_in_use "bgt_slots t"]
  by (auto simp: group_freeIndex_def BridgeGroups_inv_def dom_groups_map)

subsection \<open>Members of one group\<close>

abbreviation member_map :: "BridgeGroup \<Rightarrow> bytes \<times> bytes \<Rightarrow> BridgeGroupMember option" where
  "member_map g \<equiv> slot_map (\<lambda>m. True) member_key (members_of g)"

lemma memberIndex_key:
  "memberIndex g e = find_index (\<lambda>m. True \<and> member_key m = endpoint_key e) (members_of g)"
  by (simp add: memberIndex_def members_of_def BridgeEndpoint_Equals_iff)

lemma members_distinct: "group_ok g \<Longrightarrow> slots_distinct (\<lambda>m. True) member_key (members_of g)"
  by (simp add: group_ok_def slots_distinct_def)

lemma length_members_of: "group_ok g \<Longrightarrow> length (members_of g) = bg_member_count g"
  by (simp add: group_ok_def members_of_def)

lemma card_members: "group_ok g \<Longrightarrow> card (dom (member_map g)) = bg_member_count g"
  using members.card_dom [OF members_distinct] by (simp add: length_members_of)

lemma join_again:
  assumes "group_ok g" and "memberIndex g (bgm_endpoint m) = Some i"
  shows "group_ok (g\<lparr>bg_members := (bg_members g)[i := m]\<rparr>)"
    and "member_map (g\<lparr>bg_members := (bg_members g)[i := m]\<rparr>) = (member_map g)(member_key m \<mapsto> m)"
proof -
  have "members_of (g\<lparr>bg_members := (bg_members g)[i := m]\<rparr>) = (members_of g)[i := m]"
    by (simp add: members_of_def take_update_swap)
  then show "group_ok (g\<lparr>bg_members := (bg_members g)[i := m]\<rparr>)"
    and "member_map (g\<lparr>bg_members := (bg_members g)[i := m]\<rparr>) = (member_map g)(member_key m \<mapsto> m)"
    using members.store_again [OF members_distinct [OF assms(1)] assms(2) [unfolded memberIndex_key], of m] assms(1)
    by (simp_all add: group_ok_def slots_distinct_def)
qed

lemma join_new:
  assumes "group_ok g" and "memberIndex g (bgm_endpoint m) = None" and "bg_member_count g \<noteq> 16"
  defines "g' \<equiv> g\<lparr>bg_members := (bg_members g)[bg_member_count g := m],
    bg_member_count := wrap 8 (bg_member_count g + 1)\<rparr>"
  shows "group_ok g'" and "member_map g' = (member_map g)(member_key m \<mapsto> m)"
proof -
  have n: "bg_member_count g < 16" "length (bg_members g) = 16"
    using assms(1,3) by (simp_all add: group_ok_def)
  then have "members_of g' = members_of g @ [m]"
    by (simp add: members_of_def g'_def take_Suc_conv_app_nth)
  then show "group_ok g'" and "member_map g' = (member_map g)(member_key m \<mapsto> m)"
    using members.append_new [OF members_distinct [OF assms(1)], of m]
      assms(1) assms(2) [unfolded memberIndex_key members.index_None] n
    by (simp_all add: group_ok_def slots_distinct_def g'_def)
qed

lemma leave_member:
  assumes "group_ok g" and "memberIndex g e = Some i"
  defines "n \<equiv> wrap_dec 8 (bg_member_count g)"
  defines "g' \<equiv> g\<lparr>bg_member_count := n,
    bg_members := (bg_members g)[i := bg_members g ! n, n := BridgeGroupMember_zero]\<rparr>"
  shows "group_ok g'" and "member_map g' = (member_map g)(endpoint_key e := None)"
proof -
  have i: "i < bg_member_count g" "member_key (members_of g ! i) = endpoint_key e"
    using find_index_SomeD [OF assms(2) [unfolded memberIndex_key]] length_members_of [OF assms(1)] by simp_all
  have count: "bg_member_count g \<le> 16" "length (bg_members g) = 16"
    using assms(1) by (simp_all add: group_ok_def)
  have n: "n = bg_member_count g - 1"
    using i count unfolding n_def by (intro wrap_dec_pos) auto
  let ?us = "take n (bg_members g)" and ?l = "bg_members g ! n"
  have split: "members_of g = ?us @ [?l]"
    using i count n by (cases "bg_member_count g") (simp_all add: members_of_def take_Suc_conv_app_nth)
  have "members_of g' = ?us[i := ?l]"
    using count n by (simp add: members_of_def g'_def take_update_swap list_update_beyond)
  then show "group_ok g'" and "member_map g' = (member_map g)(endpoint_key e := None)"
    using remove_swap [of member_key ?us ?l i "endpoint_key e"] i n count assms(1)
    unfolding split by (simp_all add: group_ok_def g'_def split)
qed

subsection \<open>The operations on the table\<close>

lemma group_in_slot: "BridgeGroups_inv t \<Longrightarrow> i < 16 \<Longrightarrow> group_ok (bgs_group (bgt_slots t ! i))"
  by (simp add: BridgeGroups_inv_def)

lemma group_zero_ok: "group_ok (bgs_group BridgeGroupSlot_zero)"
  by (simp add: group_ok_def members_of_def BridgeGroupSlot_zero_def)

lemma found_group:
  assumes "BridgeGroups_inv t" and "group_findIndex t name = Some i"
  shows "i < 16" and "bgs_in_use (bgt_slots t ! i)" and "group_key (bgt_slots t ! i) = cstr name"
    and "BridgeGroups_map t (cstr name) = Some (abs_group (bgt_slots t ! i))"
  using find_index_SomeD [OF assms(2) [unfolded group_findIndex_key]] assms(1)
    grps.index_Some [OF assms(2) [unfolded group_findIndex_key]]
  by (simp_all add: BridgeGroups_inv_def BridgeGroups_map_def)

lemma absent_group: "group_findIndex t name = None \<longleftrightarrow> BridgeGroups_map t (cstr name) = None"
  by (simp add: group_findIndex_key grps.index_None BridgeGroups_map_def)

lemma map_option_upd: "map_option f \<circ> m(k \<mapsto> v) = (map_option f \<circ> m)(k \<mapsto> f v)"
  "map_option f \<circ> m(k := None) = (map_option f \<circ> m)(k := None)"
  by auto

lemma set_group_spec:
  assumes "BridgeGroups_inv t" and "group_findIndex t name = Some i" and "group_ok g"
    and "cstr (bg_name g) = cstr name"
  shows "BridgeGroups_inv (set_group t i g)"
    and "BridgeGroups_map (set_group t i g) =
      (BridgeGroups_map t)(cstr name \<mapsto> abs_group ((bgt_slots t ! i)\<lparr>bgs_group := g\<rparr>))"
  using assms found_group(1,2) [OF assms(1,2)]
    grps.store_again [OF _ assms(2) [unfolded group_findIndex_key], of "(bgt_slots t ! i)\<lparr>bgs_group := g\<rparr>"]
  by (auto simp: BridgeGroups_inv_def BridgeGroups_map_def set_group_def map_option_upd dest: set_update_subset_insert [THEN subsetD])

text \<open>The filters a group ends up with, and the name a new one is stored under.\<close>

definition with_filters :: "BridgeGroup \<Rightarrow> u8 \<Rightarrow> CanFilter list \<Rightarrow> BridgeGroup" where
  "with_filters g n fs = (let g = g\<lparr>bg_filter_count := n\<rparr>
     in if 0 < n then g\<lparr>bg_filters := array_copy (unat n) fs (bg_filters g)\<rparr> else g)"

lemma with_filters_ok:
  assumes "group_ok g" and "unat n \<le> 16"
  shows "group_ok (with_filters g n fs)" and "members_of (with_filters g n fs) = members_of g"
    and "bg_name (with_filters g n fs) = bg_name g"
    and "take (unat (bg_filter_count (with_filters g n fs))) (bg_filters (with_filters g n fs)) =
      map (\<lambda>i. fs ! i) [0..<unat n]"
  using assms
  by (auto simp: with_filters_def Let_def group_ok_def members_of_def take_array_copy word_greater_zero_iff)

lemma stored_name: "BridgeGroup_IsNameValid name \<Longrightarrow> cstr (mem_write (replicate 16 0) 0 (take (strlen name) name)) = cstr name"
  using name_valid [of name] by (simp add: mem_write_cstr(2))

lemma BridgeGroups_Set_spec:
  assumes "BridgeGroups_inv t"
  shows "BridgeGroups_inv (snd (BridgeGroups_Set t name n fs))"
    and "groups_set (BridgeGroups_map t) name n fs =
      (fst (BridgeGroups_Set t name n fs), BridgeGroups_map (snd (BridgeGroups_Set t name n fs)))"
proof -
  have "BridgeGroups_inv (snd (BridgeGroups_Set t name n fs)) \<and>
    groups_set (BridgeGroups_map t) name n fs =
      (fst (BridgeGroups_Set t name n fs), BridgeGroups_map (snd (BridgeGroups_Set t name n fs)))"
  proof (cases "\<not> BridgeGroup_IsNameValid name \<or> 16 < unat n")
    case True
    then show ?thesis
      using assms by (auto simp: BridgeGroups_Set_def groups_set_def)
  next
    case False
    then have valid: "BridgeGroup_IsNameValid name" and n: "unat n \<le> 16" by auto
    show ?thesis
    proof (cases "group_findIndex t name")
      case (Some i)
      let ?g = "bgs_group (bgt_slots t ! i)"
      note found = found_group [OF assms Some]
      note filters = with_filters_ok [OF group_in_slot [OF assms found(1)] n, of fs]
      have "BridgeGroups_Set t name n fs = (True, set_group t i (with_filters ?g n fs))"
        using valid n Some found(2) by (simp add: BridgeGroups_Set_def set_group_def with_filters_def Let_def)
      moreover have "abs_group ((bgt_slots t ! i)\<lparr>bgs_group := with_filters ?g n fs\<rparr>) =
          (abs_group (bgt_slots t ! i))\<lparr>ag_filters := map (\<lambda>i. fs ! i) [0..<unat n]\<rparr>"
        using filters by (simp add: abs_group_def)
      ultimately show ?thesis
        using set_group_spec [OF assms Some filters(1)] filters(3) found valid n by (simp add: groups_set_def)
    next
      case None
      note absent = None [unfolded absent_group]
      show ?thesis
      proof (cases "group_freeIndex t")
        case no_room: None
        then show ?thesis
          using None absent valid n assms group_freeIndex_room [OF assms]
          by (simp add: BridgeGroups_Set_def groups_set_def)
      next
        case (Some i)
        note free = Some [unfolded group_freeIndex_def]
        let ?z = "(bgs_group BridgeGroupSlot_zero)\<lparr>bg_name := mem_write (replicate 16 0) 0 (take (strlen name) name)\<rparr>"
        let ?s = "BridgeGroupSlot_zero\<lparr>bgs_in_use := True, bgs_group := with_filters ?z n fs\<rparr>"
        have z: "group_ok ?z" "members_of ?z = []"
          using group_zero_ok by (simp_all add: group_ok_def members_of_def BridgeGroupSlot_zero_def)
        note filters = with_filters_ok [OF z(1) n, of fs]
        have unused: "\<not> bgs_in_use (bgt_slots t ! i)"
          using find_index_SomeD [OF free] by simp
        have key: "group_key ?s = cstr name"
          using stored_name [OF valid] filters(3) by simp
        have set: "BridgeGroups_Set t name n fs =
            (True, t\<lparr>bgt_slots := (bgt_slots t)[i := ?s], bgt_count := bgt_count t + 1\<rparr>)"
          using valid n None Some unused groups_live_le [OF assms]
          by (simp add: BridgeGroups_Set_def with_filters_def Let_def) (simp add: BridgeGroupSlot_zero_def)
        have "slot_map bgs_in_use group_key (bgt_slots t) (group_key ?s) = None"
          unfolding key using absent by (simp add: BridgeGroups_map_def)
        note new = grps.store_new [OF _ free this]
        have "abs_group ?s = \<lparr>ag_filters = map (\<lambda>i. fs ! i) [0..<unat n], ag_members = Map.empty,
            ag_forwarded = 0, ag_dropped = 0\<rparr>"
          using filters z by (simp add: abs_group_def BridgeGroupSlot_zero_def)
        then show ?thesis
          using assms set new filters(1) absent valid n group_freeIndex_room [OF assms] Some unfolding key
          by (auto simp: groups_set_def BridgeGroups_inv_def BridgeGroups_map_def map_option_upd
              dest: set_update_subset_insert [THEN subsetD])
      qed
    qed
  qed
  then show "BridgeGroups_inv (snd (BridgeGroups_Set t name n fs))"
    and "groups_set (BridgeGroups_map t) name n fs =
      (fst (BridgeGroups_Set t name n fs), BridgeGroups_map (snd (BridgeGroups_Set t name n fs)))"
    by simp_all
qed

lemma BridgeGroups_Remove_spec:
  assumes "BridgeGroups_inv t"
  shows "BridgeGroups_inv (snd (BridgeGroups_Remove t name))"
    and "fst (BridgeGroups_Remove t name) \<longleftrightarrow> BridgeGroups_map t (cstr name) \<noteq> None"
    and "BridgeGroups_map (snd (BridgeGroups_Remove t name)) = (BridgeGroups_map t)(cstr name := None)"
proof -
  have "BridgeGroups_inv (snd (BridgeGroups_Remove t name)) \<and>
    (fst (BridgeGroups_Remove t name) \<longleftrightarrow> BridgeGroups_map t (cstr name) \<noteq> None) \<and>
    BridgeGroups_map (snd (BridgeGroups_Remove t name)) = (BridgeGroups_map t)(cstr name := None)"
  proof (cases "group_findIndex t name")
    case None
    then show ?thesis
      using assms absent_group [of t name] by (simp add: BridgeGroups_Remove_def fun_upd_idem)
  next
    case (Some i)
    have d: "slots_distinct bgs_in_use group_key (bgt_slots t)"
      using assms by (simp add: BridgeGroups_inv_def)
    note gone = grps.store_empty [OF d Some [unfolded group_findIndex_key]]
    have "wrap_dec 8 (bgt_count t) = bgt_count t - 1"
      using gone(3) groups_live_le [OF assms] assms by (intro wrap_dec_pos) (auto simp: BridgeGroups_inv_def)
    then show ?thesis
      using Some gone assms found_group(4) [OF assms Some] group_zero_ok
      by (auto simp: BridgeGroups_Remove_def BridgeGroups_map_def BridgeGroups_inv_def map_option_upd
          dest: set_update_subset_insert [THEN subsetD] simp flip: gone(3))
  qed
  then show "BridgeGroups_inv (snd (BridgeGroups_Remove t name))"
    and "fst (BridgeGroups_Remove t name) \<longleftrightarrow> BridgeGroups_map t (cstr name) \<noteq> None"
    and "BridgeGroups_map (snd (BridgeGroups_Remove t name)) = (BridgeGroups_map t)(cstr name := None)"
    by simp_all
qed

lemma abs_group_members:
  "bg_filter_count g = bg_filter_count (bgs_group s) \<Longrightarrow> bg_filters g = bg_filters (bgs_group s) \<Longrightarrow>
   member_map g = m \<Longrightarrow> abs_group (s\<lparr>bgs_group := g\<rparr>) = (abs_group s)\<lparr>ag_members := m\<rparr>"
  by (simp add: abs_group_def)

lemma BridgeGroups_Join_spec:
  assumes "BridgeGroups_inv t"
  shows "BridgeGroups_inv (snd (BridgeGroups_Join t name m))" (is ?inv)
    and "groups_join (BridgeGroups_map t) name m =
      (fst (BridgeGroups_Join t name m), BridgeGroups_map (snd (BridgeGroups_Join t name m)))" (is ?sim)
proof -
  have "?inv \<and> ?sim"
  proof (cases "group_findIndex t name")
    case None
    then show ?thesis
      using assms absent_group [of t name] by (simp add: BridgeGroups_Join_def groups_join_def Let_def)
  next
    case (Some i)
    let ?g = "bgs_group (bgt_slots t ! i)"
    note found = found_group [OF assms Some]
    note ok = group_in_slot [OF assms found(1)]
    show ?thesis
    proof (cases "BridgeGroupMember_IsValid m")
      case False
      then show ?thesis
        using assms Some found by (simp add: BridgeGroups_Join_def groups_join_def Let_def)
    next
      case valid: True
      have members: "ag_members (abs_group (bgt_slots t ! i)) = member_map ?g"
        by (simp add: abs_group_def)
      show ?thesis
      proof (cases "memberIndex ?g (bgm_endpoint m)")
        case index: (Some j)
        have "member_map ?g (member_key m) \<noteq> None"
          using members.index_Some [OF index [unfolded memberIndex_key]] by simp
        then show ?thesis
          using valid Some index found join_again [OF ok index] members
            set_group_spec [OF assms Some join_again(1) [OF ok index]]
            abs_group_members [of "?g\<lparr>bg_members := (bg_members ?g)[j := m]\<rparr>" "bgt_slots t ! i"]
          by (simp add: BridgeGroups_Join_def groups_join_def Let_def)
      next
        case index: None
        have absent: "member_map ?g (member_key m) = None"
          using index [unfolded memberIndex_key members.index_None] .
        show ?thesis
        proof (cases "bg_member_count ?g = 16")
          case True
          then show ?thesis
            using valid Some index absent found card_members [OF ok] members assms
            by (simp add: BridgeGroups_Join_def groups_join_def Let_def)
        next
          case False
          note joined = join_new [OF ok index False]
          show ?thesis
            using valid Some index absent False found joined card_members [OF ok] members
              set_group_spec [OF assms Some joined(1)]
              abs_group_members [of "?g\<lparr>bg_members := (bg_members ?g)[bg_member_count ?g := m],
                bg_member_count := wrap 8 (bg_member_count ?g + 1)\<rparr>" "bgt_slots t ! i"]
            by (simp add: BridgeGroups_Join_def groups_join_def Let_def)
        qed
      qed
    qed
  qed
  then show ?inv and ?sim by simp_all
qed

lemma BridgeGroups_Leave_spec:
  assumes "BridgeGroups_inv t"
  shows "BridgeGroups_inv (snd (BridgeGroups_Leave t name e))" (is ?inv)
    and "groups_spec (BridgeGroups_map t) (GroupsLeave name e) =
      (GroupsFlag (fst (BridgeGroups_Leave t name e)), BridgeGroups_map (snd (BridgeGroups_Leave t name e)))" (is ?sim)
proof -
  have "?inv \<and> ?sim"
  proof (cases "group_findIndex t name")
    case None
    then show ?thesis
      using assms absent_group [of t name] by (simp add: BridgeGroups_Leave_def)
  next
    case (Some i)
    let ?g = "bgs_group (bgt_slots t ! i)"
    note found = found_group [OF assms Some]
    note ok = group_in_slot [OF assms found(1)]
    have members: "ag_members (abs_group (bgt_slots t ! i)) = member_map ?g"
      by (simp add: abs_group_def)
    show ?thesis
    proof (cases "memberIndex ?g e")
      case None
      then have absent: "member_map ?g (endpoint_key e) = None"
        using members.index_None by (simp add: memberIndex_key)
      then have same: "(member_map ?g)(endpoint_key e := None) = member_map ?g"
        by (rule fun_upd_idem)
      have "(abs_group (bgt_slots t ! i))\<lparr>ag_members := member_map ?g\<rparr> = abs_group (bgt_slots t ! i)"
        by (simp add: abs_group_def)
      then show ?thesis
        using assms Some None found absent same
        by (simp add: BridgeGroups_Leave_def members fun_upd_idem)
    next
      case index: (Some j)
      note left = leave_member [OF ok index]
      have "member_map ?g (endpoint_key e) \<noteq> None"
        using members.index_Some [OF index [unfolded memberIndex_key]] by simp
      then show ?thesis
        using Some index found left members set_group_spec [OF assms Some left(1)]
          abs_group_members [OF _ _ left(2), of "bgt_slots t ! i"]
        by (simp add: BridgeGroups_Leave_def Let_def)
    qed
  qed
  then show ?inv and ?sim by simp_all
qed

lemma join_all_spec:
  "BridgeGroups_inv t \<Longrightarrow> BridgeGroups_inv (join_all t name ms) \<and>
     groups_join_all (BridgeGroups_map t) name ms = BridgeGroups_map (join_all t name ms)"
  by (induction ms arbitrary: t) (simp_all add: BridgeGroups_Join_spec)

interpretation groups_map: simulation BridgeGroups_step BridgeGroups_inv groups_spec BridgeGroups_map
proof unfold_locales
  fix t x
  assume inv: "BridgeGroups_inv t"
  note specs = BridgeGroups_Set_spec [OF inv] BridgeGroups_Remove_spec [OF inv] BridgeGroups_Join_spec [OF inv]
    BridgeGroups_Leave_spec [OF inv]
  show "BridgeGroups_inv (snd (BridgeGroups_step t x))"
  proof (cases x)
    case (GroupsRestore g)
    then show ?thesis
      using specs(1) [of "bg_name g" "bg_filter_count g" "bg_filters g"] join_all_spec
      by (auto simp: BridgeGroups_Restore_def split: prod.splits bool.splits)
  qed (use inv specs in simp_all)
  show "groups_spec (BridgeGroups_map t) x =
      (fst (BridgeGroups_step t x), BridgeGroups_map (snd (BridgeGroups_step t x)))"
  proof (cases x)
    case (GroupsRestore g)
    then show ?thesis
      using specs(1,2) [of "bg_name g" "bg_filter_count g" "bg_filters g"] join_all_spec
      by (auto simp: BridgeGroups_Restore_def split: prod.splits bool.splits)
  next
    case (GroupsHasRoom name)
    then show ?thesis
      using group_freeIndex_room [OF inv] absent_group [of t name]
      by (simp add: BridgeGroups_HasRoom_def del: not_None_eq)
  next
    case GroupsIsEmpty
    then show ?thesis
      using inv grps.dom_keys [of "bgt_slots t"]
      by (auto simp: BridgeGroups_IsEmpty_def BridgeGroups_inv_def dom_groups_map filter_empty_conv)
  next
    case (GroupsHasMember name e)
    show ?thesis
    proof (cases "group_findIndex t name")
      case None
      then show ?thesis
        using GroupsHasMember absent_group [of t name] by (simp add: BridgeGroups_Find_def)
    next
      case (Some i)
      then show ?thesis
        using GroupsHasMember found_group [OF inv Some]
          members.index_None [of "endpoint_key e" "members_of (bgs_group (bgt_slots t ! i))"]
        by (simp add: BridgeGroups_Find_def BridgeGroup_HasMember_def abs_group_def memberIndex_key del: not_None_eq)
    qed
  qed (use specs in \<open>simp_all add: apfst_def map_prod_def split_def\<close>)
qed

lemma BridgeGroups_Reset_ok: "BridgeGroups_inv BridgeGroups_Reset" "BridgeGroups_map BridgeGroups_Reset = Map.empty"
  using grps.empty_free group_zero_ok
  by (simp_all add: BridgeGroups_inv_def BridgeGroups_Reset_def BridgeGroups_map_def fun_eq_iff)

section \<open>Properties\<close>

text \<open>
  C19.  The group table is a map from names to groups with room for 16, and a group a map
  from endpoints to at most 16 members: after any sequence of calls, every call has
  returned what it returns on the maps.  Setting a group again replaces its filters and
  keeps its members, joining again replaces a member, leaving removes exactly that member.
\<close>

theorem BridgeGroups_refines_maps:
  "run groups_spec Map.empty ops =
     (let (results, t) = run BridgeGroups_step BridgeGroups_Reset ops in (results, BridgeGroups_map t))"
  using groups_map.run_sim [OF BridgeGroups_Reset_ok(1), of ops]
  by (simp add: BridgeGroups_Reset_ok split_def Let_def)

text \<open>
  Paging through either table visits every live entry once: position \<open>p\<close> is the
  \<open>p\<close>-th live slot, and positions past the last live slot give nothing.
\<close>

theorem Bridge_Nth_enumerates:
  "BridgeRoutes_Nth rs p =
     (let live = filter brs_in_use (brt_slots rs) in if p < length live then Some (live ! p) else None) \<and>
   BridgeGroups_Nth gs p =
     (let live = filter bgs_in_use (bgt_slots gs) in if p < length live then Some (live ! p) else None)"
  using nth_live_filter [of brs_in_use "brt_slots rs" 0 p] nth_live_filter [of bgs_in_use "bgt_slots gs" 0 p]
  by (simp add: BridgeRoutes_Nth_def BridgeGroups_Nth_def)

end
