(* ===== verification/BridgeTargets.thy ===== *)
theory BridgeTargets
  imports BridgeGroups
begin

text \<open>
  Where a captured frame is injected (\<open>src/hub/domain/bridge_targets.c\<close>): the buses
  that the routes and groups reach from the bus it came from.
\<close>

section \<open>Collecting the targets\<close>

text \<open>\<open>forwarded\<close> and \<open>dropped\<close> point into one slot of the routes or of the groups.\<close>

datatype Counters = RouteCounters nat | GroupCounters nat

record BridgeTarget =
  bt_destination :: BridgeEndpoint
  bt_counters :: Counters

abbreviation (input) BRIDGE_TARGETS_MAX :: nat where "BRIDGE_TARGETS_MAX \<equiv> BRIDGE_ROUTES_MAX + BRIDGE_GROUPS_MAX * BRIDGE_GROUP_MEMBERS_MAX"

text \<open>The array up to \<open>count\<close> is the list of the targets so far.\<close>

definition addTarget :: "BridgeTarget list \<Rightarrow> BridgeEndpoint \<Rightarrow> BridgeEndpoint \<Rightarrow> Counters \<Rightarrow> BridgeTarget list" where
  "addTarget targets source destination counters =
     (if BridgeEndpoint_Equals destination source \<or> length targets = BRIDGE_TARGETS_MAX then targets
      else if list_ex (\<lambda>t. BridgeEndpoint_Equals (bt_destination t) destination) targets then targets
      else targets @ [\<lparr>bt_destination = destination, bt_counters = counters\<rparr>])"

fun collectRoutes :: "BridgeRoutes \<Rightarrow> BridgeEndpoint \<Rightarrow> u32 \<Rightarrow> BridgeTarget list \<Rightarrow> nat list \<Rightarrow> BridgeTarget list" where
  "collectRoutes routes source can_id targets [] = targets"
| "collectRoutes routes source can_id targets (i # is) =
     (case BridgeRoutes_Slot routes i of
        None \<Rightarrow> collectRoutes routes source can_id targets is
      | Some slot \<Rightarrow>
          if \<not> BridgeEndpoint_Equals (br_source (brs_route slot)) source
          then collectRoutes routes source can_id targets is
          else if BridgeRoute_Passes (brs_route slot) can_id
          then collectRoutes routes source can_id
                 (addTarget targets source (br_destination (brs_route slot)) (RouteCounters i)) is
          else collectRoutes routes source can_id targets is)"

fun collectMembers :: "BridgeEndpoint \<Rightarrow> nat \<Rightarrow> BridgeTarget list \<Rightarrow> BridgeGroupMember list \<Rightarrow> BridgeTarget list" where
  "collectMembers source i targets [] = targets"
| "collectMembers source i targets (m # ms) =
     (if BridgeGroupMember_Receives m
      then collectMembers source i (addTarget targets source (bgm_endpoint m) (GroupCounters i)) ms
      else collectMembers source i targets ms)"

fun collectGroups :: "BridgeGroups \<Rightarrow> BridgeEndpoint \<Rightarrow> u32 \<Rightarrow> BridgeTarget list \<Rightarrow> nat list \<Rightarrow> BridgeTarget list" where
  "collectGroups grps source can_id targets [] = targets"
| "collectGroups grps source can_id targets (i # is) =
     (case BridgeGroups_Slot grps i of
        None \<Rightarrow> collectGroups grps source can_id targets is
      | Some slot \<Rightarrow>
          if \<not> BridgeGroup_Carries (bgs_group slot) source can_id
          then collectGroups grps source can_id targets is
          else collectGroups grps source can_id
                 (collectMembers source i targets
                    (take (bg_member_count (bgs_group slot)) (bg_members (bgs_group slot)))) is)"

definition BridgeTargets_Collect :: "BridgeRoutes \<Rightarrow> BridgeGroups \<Rightarrow> BridgeEndpoint \<Rightarrow> u32 \<Rightarrow> BridgeTarget list" where
  "BridgeTargets_Collect routes grps source can_id =
     (let targets = collectRoutes routes source can_id [] [0..<BRIDGE_ROUTES_MAX]
      in collectGroups grps source can_id targets [0..<BRIDGE_GROUPS_MAX])"

section \<open>What the frame reaches\<close>

definition route_hits :: "BridgeRoutes \<Rightarrow> BridgeEndpoint \<Rightarrow> u32 \<Rightarrow> nat \<Rightarrow> BridgeTarget list" where
  "route_hits routes source can_id i =
     (case BridgeRoutes_Slot routes i of
        None \<Rightarrow> []
      | Some slot \<Rightarrow>
          if endpoint_key (br_source (brs_route slot)) = endpoint_key source \<and>
             BridgeRoute_Passes (brs_route slot) can_id
          then [\<lparr>bt_destination = br_destination (brs_route slot), bt_counters = RouteCounters i\<rparr>]
          else [])"

definition group_hits :: "BridgeGroups \<Rightarrow> BridgeEndpoint \<Rightarrow> u32 \<Rightarrow> nat \<Rightarrow> BridgeTarget list" where
  "group_hits grps source can_id i =
     (case BridgeGroups_Slot grps i of
        None \<Rightarrow> []
      | Some slot \<Rightarrow>
          if BridgeGroup_Carries (bgs_group slot) source can_id
          then map (\<lambda>m. \<lparr>bt_destination = bgm_endpoint m, bt_counters = GroupCounters i\<rparr>)
                 (filter BridgeGroupMember_Receives (members_of (bgs_group slot)))
          else [])"

text \<open>Every destination the tables name for the frame, in table order, with repetitions.\<close>

definition bridge_hits :: "BridgeRoutes \<Rightarrow> BridgeGroups \<Rightarrow> BridgeEndpoint \<Rightarrow> u32 \<Rightarrow> BridgeTarget list" where
  "bridge_hits routes grps source can_id =
     concat (map (route_hits routes source can_id) [0..<BRIDGE_ROUTES_MAX]) @
     concat (map (group_hits grps source can_id) [0..<BRIDGE_GROUPS_MAX])"

abbreviation target_key :: "BridgeTarget \<Rightarrow> bytes \<times> bytes" where
  "target_key t \<equiv> endpoint_key (bt_destination t)"

definition add_hit :: "BridgeEndpoint \<Rightarrow> BridgeTarget list \<Rightarrow> BridgeTarget \<Rightarrow> BridgeTarget list" where
  "add_hit source ts h = addTarget ts source (bt_destination h) (bt_counters h)"

lemma collectRoutes_hits:
  "collectRoutes routes source can_id ts is =
     foldl (add_hit source) ts (concat (map (route_hits routes source can_id) is))"
  by (induction "is" arbitrary: ts)
    (auto simp: route_hits_def add_hit_def BridgeEndpoint_Equals_iff split: option.splits)

lemma collectMembers_hits:
  "collectMembers source i ts ms = foldl (add_hit source) ts
     (map (\<lambda>m. \<lparr>bt_destination = bgm_endpoint m, bt_counters = GroupCounters i\<rparr>)
        (filter BridgeGroupMember_Receives ms))"
  by (induction ms arbitrary: ts) (auto simp: add_hit_def)

lemma collectGroups_hits:
  "collectGroups grps source can_id ts is =
     foldl (add_hit source) ts (concat (map (group_hits grps source can_id) is))"
  by (induction "is" arbitrary: ts)
    (auto simp: group_hits_def collectMembers_hits members_of_def split: option.splits)

lemma Collect_hits:
  "BridgeTargets_Collect routes grps source can_id = foldl (add_hit source) [] (bridge_hits routes grps source can_id)"
  by (simp add: BridgeTargets_Collect_def bridge_hits_def collectRoutes_hits collectGroups_hits)

text \<open>While the array has room, adding a hit keeps the first hit of every destination but the source.\<close>

lemma foldl_hits:
  assumes "distinct (map target_key ts)" and "endpoint_key source \<notin> target_key ` set ts"
    and "length ts + length hs \<le> BRIDGE_TARGETS_MAX"
  shows "distinct (map target_key (foldl (add_hit source) ts hs)) \<and>
    (\<forall>k. find (\<lambda>t. target_key t = k) (foldl (add_hit source) ts hs) =
       (if k = endpoint_key source then None else find (\<lambda>t. target_key t = k) (ts @ hs)))"
  using assms
proof (induction hs arbitrary: ts)
  case Nil
  then show ?case
    by (force simp: find_None_iff)
next
  case (Cons h hs)
  let ?skip = "target_key h = endpoint_key source \<or> target_key h \<in> target_key ` set ts"
  have add: "add_hit source ts h = (if ?skip then ts else ts @ [h])"
    using Cons.prems(3)
    by (cases h) (force simp: add_hit_def addTarget_def BridgeEndpoint_Equals_iff list_ex_iff)
  have found: "find (\<lambda>t. target_key t = k) (add_hit source ts h @ hs) = find (\<lambda>t. target_key t = k) (ts @ h # hs)"
    if "k \<noteq> endpoint_key source" for k
  proof (cases "target_key h = k \<and> ?skip")
    case True
    then obtain t where "t \<in> set ts" "target_key t = k"
      using \<open>k \<noteq> endpoint_key source\<close> by auto
    then have "find (\<lambda>t. target_key t = k) ts \<noteq> None"
      by (auto simp: find_None_iff)
    then show ?thesis
      using True by (auto simp: add find_append)
  next
    case False
    then show ?thesis
      by (auto simp: add find_append split: option.splits)
  qed
  have "distinct (map target_key (add_hit source ts h))" "endpoint_key source \<notin> target_key ` set (add_hit source ts h)"
    "length (add_hit source ts h) + length hs \<le> BRIDGE_TARGETS_MAX"
    using Cons.prems by (auto simp: add)
  note ih = Cons.IH [OF this]
  show ?case
  proof (intro conjI allI)
    show "distinct (map target_key (foldl (add_hit source) ts (h # hs)))"
      using ih by simp
    show "find (\<lambda>t. target_key t = k) (foldl (add_hit source) ts (h # hs)) =
        (if k = endpoint_key source then None else find (\<lambda>t. target_key t = k) (ts @ h # hs))" for k
      using conjunct2 [OF ih, rule_format, of k] found [of k] by (cases "k = endpoint_key source") simp_all
  qed
qed

lemma length_route_hits: "length (route_hits routes source can_id i) \<le> 1"
  by (simp add: route_hits_def split: option.splits)

lemma length_group_hits:
  "BridgeGroups_inv grps \<Longrightarrow> i < 16 \<Longrightarrow> length (group_hits grps source can_id i) \<le> 16"
  using group_in_slot [of grps i] length_filter_le [of BridgeGroupMember_Receives "members_of (bgs_group (bgt_slots grps ! i))"]
  by (auto simp: group_hits_def BridgeGroups_Slot_def group_ok_def length_members_of members_of_def
      intro: order_trans split: option.splits if_splits)

lemma length_concat_le: "(\<And>x. x \<in> set xs \<Longrightarrow> length (f x) \<le> n) \<Longrightarrow> length (concat (map f xs)) \<le> length xs * n"
  by (induction xs) (simp_all add: add_mono)

text \<open>The array always has room: one hit per route, sixteen per group.\<close>

lemma hits_fit:
  assumes "BridgeGroups_inv grps"
  shows "length (bridge_hits routes grps source can_id) \<le> BRIDGE_TARGETS_MAX"
proof -
  have "length (concat (map (route_hits routes source can_id) [0..<64])) \<le> 64 * 1"
    using length_concat_le [of "[0..<64]" "route_hits routes source can_id" 1] length_route_hits by simp
  moreover have "length (concat (map (group_hits grps source can_id) [0..<16])) \<le> 16 * 16"
    using length_concat_le [of "[0..<16]" "group_hits grps source can_id" 16] length_group_hits [OF assms] by simp
  ultimately show ?thesis
    by (simp add: bridge_hits_def)
qed

section \<open>Properties\<close>

text \<open>
  C16.  In every reachable state of the bridge tables, the targets of a frame are exactly
  the destinations that a passing route out of its bus or a group that carries it names:
  each bus once, charged to the first route or group that names it, never the bus the
  frame came from, and none is lost for lack of room.
\<close>

theorem BridgeTargets_exact:
  "let rs = snd (run BridgeRoutes_step BridgeRoutes_Reset route_ops);
       gs = snd (run BridgeGroups_step BridgeGroups_Reset group_ops);
       targets = BridgeTargets_Collect rs gs source can_id
   in distinct (map target_key targets) \<and>
      (\<forall>k. find (\<lambda>t. target_key t = k) targets =
         (if k = endpoint_key source then None
          else find (\<lambda>t. target_key t = k) (bridge_hits rs gs source can_id)))"
proof -
  have "BridgeGroups_inv (snd (run BridgeGroups_step BridgeGroups_Reset group_ops))"
    by (rule groups_map.run_inv [OF BridgeGroups_Reset_ok(1)])
  from hits_fit [OF this] show ?thesis
    using foldl_hits [of "[]" source] by (simp add: Collect_hits Let_def)
qed

end
