(* ===== verification/AdminBridgeMessages.thy ===== *)
theory AdminBridgeMessages
  imports AdminMessages
begin

text \<open>
  The messages of \<open>protocol/admin_message.c\<close> that configure and list bridge routes and
  bridge groups, with their shared endpoint and filter blocks.
\<close>

section \<open>Endpoints and filters\<close>

abbreviation (input) ADMIN_GROUP_NAME_SIZE :: nat where "ADMIN_GROUP_NAME_SIZE \<equiv> 32"
abbreviation (input) ADMIN_GROUP_MEMBERS_MAX :: nat where "ADMIN_GROUP_MEMBERS_MAX \<equiv> 16"
abbreviation (input) ADMIN_GROUP_MEMBER_FILTERS_MAX :: nat where "ADMIN_GROUP_MEMBER_FILTERS_MAX \<equiv> 8"
abbreviation (input) ADMIN_GROUP_MEMBER_RECEIVES :: u8 where "ADMIN_GROUP_MEMBER_RECEIVES \<equiv> 2"

record AdminBridgeEndpoint =
  abe_agent_name :: bytes
  abe_interface_name :: bytes

definition isBridgeEndpointValid :: "AdminBridgeEndpoint \<Rightarrow> bool" where
  "isBridgeEndpointValid endpoint =
     (if \<not> isNameTerminated (abe_agent_name endpoint) \<or> abe_agent_name endpoint ! 0 = 0 then False
      else abe_interface_name endpoint ! (REGISTER_INTERFACE_NAME_SIZE - 1) = 0 \<and> abe_interface_name endpoint ! 0 \<noteq> 0)"

definition writeBridgeEndpoint :: "bytes \<Rightarrow> nat \<Rightarrow> AdminBridgeEndpoint \<Rightarrow> bytes" where
  "writeBridgeEndpoint b off endpoint =
     (let b = write_text b off (abe_agent_name endpoint)
      in write_text b (off + 128) (abe_interface_name endpoint))"

definition readBridgeEndpoint :: "bytes \<Rightarrow> nat \<Rightarrow> AdminBridgeEndpoint \<Rightarrow> bool \<times> AdminBridgeEndpoint" where
  "readBridgeEndpoint p off endpoint =
     (let endpoint = endpoint\<lparr>abe_agent_name := read_text p off REGISTER_AGENT_NAME_SIZE,
            abe_interface_name := read_text p (off + 128) REGISTER_INTERFACE_NAME_SIZE\<rparr>
      in (abe_agent_name endpoint ! 0 \<noteq> 0 \<and> abe_interface_name endpoint ! 0 \<noteq> 0, endpoint))"

definition writeBridgeFilters :: "bytes \<Rightarrow> nat \<Rightarrow> CanFilter list \<Rightarrow> u8 \<Rightarrow> bytes" where
  "writeBridgeFilters b off filters filter_count =
     write_entries write_filter CAN_FILTER_SIZE b off (take (unat filter_count) filters)"

definition readBridgeFilters :: "bytes \<Rightarrow> nat \<Rightarrow> CanFilter list \<Rightarrow> u8 \<Rightarrow> CanFilter list" where
  "readBridgeFilters p off filters filter_count =
     read_entries read_filter CAN_FILTER_SIZE p off (unat filter_count) filters"

definition isGroupNameValid :: "bytes \<Rightarrow> bool" where
  "isGroupNameValid name \<longleftrightarrow> name ! (ADMIN_GROUP_NAME_SIZE - 1) = 0 \<and> name ! 0 \<noteq> 0"

definition readGroupName :: "bytes \<Rightarrow> nat \<Rightarrow> bool \<times> bytes" where
  "readGroupName p off = (let name = read_text p off ADMIN_GROUP_NAME_SIZE in (name ! 0 \<noteq> 0, name))"

text \<open>The bytes of a block, and the laws by which it is stored and loaded behind what precedes it.\<close>

definition endpoint_image :: "AdminBridgeEndpoint \<Rightarrow> bytes" where
  "endpoint_image e = name_field 128 (abe_agent_name e) @ name_field 16 (abe_interface_name e)"

definition endpoint_received :: "AdminBridgeEndpoint \<Rightarrow> AdminBridgeEndpoint" where
  "endpoint_received e = e\<lparr>abe_agent_name := name_field 128 (abe_agent_name e),
     abe_interface_name := name_field 16 (abe_interface_name e)\<rparr>"

definition endpoint_wf :: "AdminBridgeEndpoint \<Rightarrow> bool" where
  "endpoint_wf e \<longleftrightarrow> length (abe_agent_name e) = 128 \<and> length (abe_interface_name e) = 16"

definition filters_image :: "nat \<Rightarrow> CanFilter list \<Rightarrow> u8 \<Rightarrow> bytes" where
  "filters_image k fs c = concat (map filter_image (take (unat c) fs)) @ replicate ((k - unat c) * 8) 0"

definition filters_received :: "CanFilter list \<Rightarrow> CanFilter list \<Rightarrow> u8 \<Rightarrow> CanFilter list" where
  "filters_received old fs c = take (unat c) fs @ drop (unat c) old"

lemma length_endpoint_image [simp, layout]: "length (endpoint_image e) = 144"
  by (simp add: endpoint_image_def)

lemma length_filters_image [simp, layout]:
  "unat c \<le> k \<Longrightarrow> length fs = k \<Longrightarrow> length (filters_image k fs c) = k * 8"
  using length_concat_entries [of "take (unat c) fs" filter_image 8]
  by (simp add: filters_image_def diff_mult_distrib)

lemma write_skip [layout]:
  "length xs \<le> off \<Longrightarrow> writeBridgeEndpoint (xs @ ys) off e = xs @ writeBridgeEndpoint ys (off - length xs) e"
  "0 < off \<Longrightarrow> writeBridgeEndpoint (x # ys) off e = x # writeBridgeEndpoint ys (off - 1) e"
  by (simp_all add: writeBridgeEndpoint_def layout Let_def)

lemma write_filter_skip:
  "length xs \<le> off \<Longrightarrow> write_filter (xs @ ys) off f = xs @ write_filter ys (off - length xs) f"
proof -
  assume "length xs \<le> off"
  then obtain k where "off = length xs + k"
    using le_Suc_ex by blast
  then show ?thesis
    by (simp add: write_filter_def Wire_WriteU32_def Wire_WriteU16_def mem_write_skip add.assoc)
qed

lemma write_filters_skip [layout]:
  "length xs \<le> off \<Longrightarrow> writeBridgeFilters (xs @ ys) off fs c = xs @ writeBridgeFilters ys (off - length xs) fs c"
  "0 < off \<Longrightarrow> writeBridgeFilters (x # ys) off fs c = x # writeBridgeFilters ys (off - 1) fs c"
proof -
  have skip: "length xs \<le> off \<Longrightarrow>
      write_entries write_filter 8 (xs @ ys) off gs = xs @ write_entries write_filter 8 ys (off - length xs) gs" for xs ys off gs
    by (induction gs arbitrary: ys off) (simp_all add: write_filter_skip)
  then show "length xs \<le> off \<Longrightarrow> writeBridgeFilters (xs @ ys) off fs c = xs @ writeBridgeFilters ys (off - length xs) fs c"
    by (simp add: writeBridgeFilters_def)
  show "0 < off \<Longrightarrow> writeBridgeFilters (x # ys) off fs c = x # writeBridgeFilters ys (off - 1) fs c"
    using skip [of "[x]" off ys] by (simp add: writeBridgeFilters_def)
qed

lemma write_endpoint_image [layout]:
  "length (cstr (abe_agent_name e)) < 128 \<Longrightarrow> length (cstr (abe_interface_name e)) < 16 \<Longrightarrow>
   writeBridgeEndpoint (replicate 144 0 @ ys) 0 e = endpoint_image e @ ys"
proof -
  assume "length (cstr (abe_agent_name e)) < 128" "length (cstr (abe_interface_name e)) < 16"
  moreover have "replicate 144 (0 :: u8) = zero_fields [128, 16]"
    by (simp add: zero_fields_sum)
  ultimately show ?thesis
    by (simp add: writeBridgeEndpoint_def endpoint_image_def layout)
qed

lemma write_filters_image [layout]:
  assumes "length fs = k" and "unat c \<le> k" and "n = k * 8"
  shows "writeBridgeFilters (replicate n 0 @ ys) 0 fs c = filters_image k fs c @ ys"
proof -
  let ?fs = "take (unat c) fs"
  have "n = length ?fs * 8 + (k - unat c) * 8"
    using assms by (simp add: diff_mult_distrib)
  then have "replicate n (0 :: u8) @ ys = replicate (length ?fs * 8) 0 @ replicate ((k - unat c) * 8) 0 @ ys"
    by (simp only: replicate_add append_assoc)
  then show ?thesis
    using write_entries_image [of ?fs write_filter 8 filter_image "[]" "replicate ((k - unat c) * 8) 0 @ ys"]
    by (simp add: writeBridgeFilters_def filters_image_def write_filter_image)
qed

lemma read_endpoint_skip [layout]:
  "length xs \<le> off \<Longrightarrow> readBridgeEndpoint (xs @ ys) off e = readBridgeEndpoint ys (off - length xs) e"
  "0 < off \<Longrightarrow> readBridgeEndpoint (x # ys) off e = readBridgeEndpoint ys (off - 1) e"
  by (simp_all add: readBridgeEndpoint_def layout Let_def)

lemma read_filters_skip [layout]:
  "length xs \<le> off \<Longrightarrow> readBridgeFilters (xs @ ys) off fs c = readBridgeFilters ys (off - length xs) fs c"
  "0 < off \<Longrightarrow> readBridgeFilters (x # ys) off fs c = readBridgeFilters ys (off - 1) fs c"
  by (simp_all add: readBridgeFilters_def read_entries_def read_filter_def layout)

lemma read_endpoint_image [layout]:
  "endpoint_wf e \<Longrightarrow> readBridgeEndpoint (endpoint_image e @ ys) 0 old =
     (abe_agent_name e ! 0 \<noteq> 0 \<and> abe_interface_name e ! 0 \<noteq> 0, endpoint_received e)"
  "endpoint_wf e \<Longrightarrow> readBridgeEndpoint (endpoint_image e) 0 old =
     (abe_agent_name e ! 0 \<noteq> 0 \<and> abe_interface_name e ! 0 \<noteq> 0, endpoint_received e)"
  by (simp_all add: readBridgeEndpoint_def endpoint_image_def endpoint_received_def endpoint_wf_def layout)

lemma read_filters_image [layout]:
  assumes "unat c \<le> k" and "length fs = k"
  shows "readBridgeFilters (filters_image k fs c @ ys) 0 old c = filters_received old fs c"
    and "readBridgeFilters (filters_image k fs c) 0 old c = filters_received old fs c"
proof -
  let ?fs = "take (unat c) fs"
  have "readBridgeFilters (filters_image k fs c @ ys) 0 old c = filters_received old fs c" for ys
    using read_entries_image [of ?fs read_filter filter_image "\<lambda>f. f" 8 "[]" "replicate ((k - unat c) * 8) 0 @ ys" old] assms
    by (simp add: readBridgeFilters_def filters_image_def filters_received_def read_filter_image)
  from this [of ys] this [of "[]"] show "readBridgeFilters (filters_image k fs c @ ys) 0 old c = filters_received old fs c"
    and "readBridgeFilters (filters_image k fs c) 0 old c = filters_received old fs c"
    by simp_all
qed

lemma endpoint_valid_fits:
  assumes "isBridgeEndpointValid e" and "endpoint_wf e"
  shows "length (cstr (abe_agent_name e)) < 128" and "length (cstr (abe_interface_name e)) < 16"
    and "abe_agent_name e ! 0 \<noteq> 0" and "abe_interface_name e ! 0 \<noteq> 0"
  using assms terminated_strlen [of "abe_agent_name e" 128] terminated_strlen [of "abe_interface_name e" 16]
  by (auto simp: isBridgeEndpointValid_def isNameTerminated_def endpoint_wf_def split: if_splits)

section \<open>Bridge routes\<close>

record AdminBridgeDeleteMessage =
  abd_source :: AdminBridgeEndpoint
  abd_destination :: AdminBridgeEndpoint

record AdminBridgeSetMessage =
  abs_source :: AdminBridgeEndpoint
  abs_destination :: AdminBridgeEndpoint
  abs_filter_count :: u8
  abs_filters :: "CanFilter list"

record AdminBridgeListReplyEntry =
  abl_source :: AdminBridgeEndpoint
  abl_destination :: AdminBridgeEndpoint
  abl_filter_count :: u8
  abl_state :: u8
  abl_filters :: "CanFilter list"
  abl_forwarded :: u64
  abl_dropped :: u64

definition AdminBridgeSetMessage_Encode :: "AdminBridgeSetMessage \<Rightarrow> bytes \<Rightarrow> nat \<times> bytes" where
  "AdminBridgeSetMessage_Encode self buffer =
     (if \<not> isBridgeEndpointValid (abs_source self) \<or> \<not> isBridgeEndpointValid (abs_destination self) then (0, buffer)
      else if SUBSCRIBE_FILTERS_MAX < unat (abs_filter_count self) then (0, buffer)
      else case encodeFixedBody kMESSAGE_TYPE_ADMIN_BRIDGE_SET 420 buffer of (total_size, b) \<Rightarrow>
        if total_size = 0 then (0, b)
        else
          let body = MESSAGE_HEADER_SIZE;
              b = writeBridgeEndpoint b (body + 0) (abs_source self);
              b = writeBridgeEndpoint b (body + 144) (abs_destination self);
              b = mem_write b (body + 288) [abs_filter_count self];
              b = writeBridgeFilters b (body + 292) (abs_filters self) (abs_filter_count self)
          in (total_size, b))"

definition AdminBridgeSetMessage_Decode :: "AdminBridgeSetMessage \<Rightarrow> bytes \<Rightarrow> bool \<times> AdminBridgeSetMessage" where
  "AdminBridgeSetMessage_Decode self payload =
     (if length payload < 420 then (False, self)
      else
        let (ok, source) = readBridgeEndpoint payload 0 (abs_source self); self = self\<lparr>abs_source := source\<rparr>
        in if \<not> ok then (False, self)
           else
             let (ok, destination) = readBridgeEndpoint payload 144 (abs_destination self);
                 self = self\<lparr>abs_destination := destination\<rparr>
             in if \<not> ok then (False, self)
                else
                  let self = self\<lparr>abs_filter_count := payload ! 288\<rparr>
                  in if SUBSCRIBE_FILTERS_MAX < unat (abs_filter_count self) then (False, self)
                     else (True, self\<lparr>abs_filters :=
                       readBridgeFilters payload 292 (abs_filters self) (abs_filter_count self)\<rparr>))"

definition AdminBridgeDeleteMessage_Encode :: "AdminBridgeDeleteMessage \<Rightarrow> bytes \<Rightarrow> nat \<times> bytes" where
  "AdminBridgeDeleteMessage_Encode self buffer =
     (if \<not> isBridgeEndpointValid (abd_source self) \<or> \<not> isBridgeEndpointValid (abd_destination self) then (0, buffer)
      else case encodeFixedBody kMESSAGE_TYPE_ADMIN_BRIDGE_DELETE 288 buffer of (total_size, b) \<Rightarrow>
        if total_size = 0 then (0, b)
        else
          let b = writeBridgeEndpoint b (MESSAGE_HEADER_SIZE + 0) (abd_source self)
          in (total_size, writeBridgeEndpoint b (MESSAGE_HEADER_SIZE + 144) (abd_destination self)))"

definition AdminBridgeDeleteMessage_Decode ::
    "AdminBridgeDeleteMessage \<Rightarrow> bytes \<Rightarrow> bool \<times> AdminBridgeDeleteMessage" where
  "AdminBridgeDeleteMessage_Decode self payload =
     (if length payload < 288 then (False, self)
      else
        let (ok, source) = readBridgeEndpoint payload 0 (abd_source self); self = self\<lparr>abd_source := source\<rparr>
        in if \<not> ok then (False, self)
           else
             let (ok, destination) = readBridgeEndpoint payload 144 (abd_destination self)
             in (ok, self\<lparr>abd_destination := destination\<rparr>))"

definition writeBridgeEntry :: "bytes \<Rightarrow> nat \<Rightarrow> AdminBridgeListReplyEntry \<Rightarrow> bytes" where
  "writeBridgeEntry b off entry =
     (let b = writeBridgeEndpoint b (off + 0) (abl_source entry);
          b = writeBridgeEndpoint b (off + 144) (abl_destination entry);
          b = mem_write b (off + 288) [abl_filter_count entry];
          b = mem_write b (off + 289) [abl_state entry];
          b = writeBridgeFilters b (off + 292) (abl_filters entry) (abl_filter_count entry);
          b = Wire_WriteU64 b (off + 424) (abl_forwarded entry)
      in Wire_WriteU64 b (off + 432) (abl_dropped entry))"

definition readBridgeEntry :: "bytes \<Rightarrow> nat \<Rightarrow> AdminBridgeListReplyEntry \<Rightarrow> bool \<times> AdminBridgeListReplyEntry" where
  "readBridgeEntry p off entry =
     (let (ok, source) = readBridgeEndpoint p (off + 0) (abl_source entry); entry = entry\<lparr>abl_source := source\<rparr>
      in if \<not> ok then (False, entry)
         else
           let (ok, destination) = readBridgeEndpoint p (off + 144) (abl_destination entry);
               entry = entry\<lparr>abl_destination := destination\<rparr>
           in if \<not> ok then (False, entry)
              else
                let entry = entry\<lparr>abl_filter_count := p ! (off + 288)\<rparr>
                in if SUBSCRIBE_FILTERS_MAX < unat (abl_filter_count entry) then (False, entry)
                   else (True, entry\<lparr>abl_state := p ! (off + 289),
                     abl_filters := readBridgeFilters p (off + 292) (abl_filters entry) (abl_filter_count entry),
                     abl_forwarded := Wire_ReadU64 p (off + 424), abl_dropped := Wire_ReadU64 p (off + 432)\<rparr>))"

abbreviation (input) bridge_entry_valid :: "AdminBridgeListReplyEntry \<Rightarrow> bool" where
  "bridge_entry_valid \<equiv> (\<lambda>e. isBridgeEndpointValid (abl_source e) \<and> isBridgeEndpointValid (abl_destination e) \<and>
     unat (abl_filter_count e) \<le> SUBSCRIBE_FILTERS_MAX)"

definition AdminBridgeListReplyMessage_Encode :: "AdminBridgeListReplyEntry AdminPage \<Rightarrow> bytes \<Rightarrow> nat \<times> bytes" where
  "AdminBridgeListReplyMessage_Encode =
     encode_page kMESSAGE_TYPE_ADMIN_BRIDGE_LIST_REPLY 8 440 bridge_entry_valid writeBridgeEntry"

definition AdminBridgeListReplyMessage_Decode ::
    "AdminBridgeListReplyEntry AdminPage \<Rightarrow> bytes \<Rightarrow> bool \<times> AdminBridgeListReplyEntry AdminPage" where
  "AdminBridgeListReplyMessage_Decode = decode_page 8 440 readBridgeEntry"

definition bridge_set_wf :: "AdminBridgeSetMessage \<Rightarrow> bool" where
  "bridge_set_wf m \<longleftrightarrow> endpoint_wf (abs_source m) \<and> endpoint_wf (abs_destination m) \<and> length (abs_filters m) = 16"

definition bridge_set_valid :: "AdminBridgeSetMessage \<Rightarrow> bool" where
  "bridge_set_valid m \<longleftrightarrow> isBridgeEndpointValid (abs_source m) \<and> isBridgeEndpointValid (abs_destination m) \<and>
     unat (abs_filter_count m) \<le> 16"

definition bridge_set_body :: "AdminBridgeSetMessage \<Rightarrow> bytes" where
  "bridge_set_body m = endpoint_image (abs_source m) @ endpoint_image (abs_destination m) @ [abs_filter_count m] @
     replicate 3 0 @ filters_image 16 (abs_filters m) (abs_filter_count m)"

definition bridge_set_received :: "AdminBridgeSetMessage \<Rightarrow> AdminBridgeSetMessage \<Rightarrow> AdminBridgeSetMessage" where
  "bridge_set_received old m = m\<lparr>abs_source := endpoint_received (abs_source m),
     abs_destination := endpoint_received (abs_destination m),
     abs_filters := filters_received (abs_filters old) (abs_filters m) (abs_filter_count m)\<rparr>"

definition bridge_delete_wf :: "AdminBridgeDeleteMessage \<Rightarrow> bool" where
  "bridge_delete_wf m \<longleftrightarrow> endpoint_wf (abd_source m) \<and> endpoint_wf (abd_destination m)"

definition bridge_delete_received :: "AdminBridgeDeleteMessage \<Rightarrow> AdminBridgeDeleteMessage \<Rightarrow> AdminBridgeDeleteMessage" where
  "bridge_delete_received old m =
     m\<lparr>abd_source := endpoint_received (abd_source m), abd_destination := endpoint_received (abd_destination m)\<rparr>"

definition bridge_entry_wf :: "AdminBridgeListReplyEntry \<Rightarrow> bool" where
  "bridge_entry_wf e \<longleftrightarrow> endpoint_wf (abl_source e) \<and> endpoint_wf (abl_destination e) \<and> length (abl_filters e) = 16"

definition bridge_entry_image :: "AdminBridgeListReplyEntry \<Rightarrow> bytes" where
  "bridge_entry_image e = endpoint_image (abl_source e) @ endpoint_image (abl_destination e) @
     [abl_filter_count e, abl_state e] @ replicate 2 0 @ filters_image 16 (abl_filters e) (abl_filter_count e) @
     replicate 4 0 @ le64 (abl_forwarded e) @ le64 (abl_dropped e)"

definition bridge_entry_received :: "AdminBridgeListReplyEntry \<Rightarrow> AdminBridgeListReplyEntry \<Rightarrow> AdminBridgeListReplyEntry" where
  "bridge_entry_received old e = e\<lparr>abl_source := endpoint_received (abl_source e),
     abl_destination := endpoint_received (abl_destination e),
     abl_filters := filters_received (abl_filters old) (abl_filters e) (abl_filter_count e)\<rparr>"

interpretation bridge_set: message_codec AdminBridgeSetMessage_Encode AdminBridgeSetMessage_Decode
  kMESSAGE_TYPE_ADMIN_BRIDGE_SET bridge_set_wf bridge_set_valid bridge_set_body bridge_set_received
proof unfold_locales
  fix m old :: AdminBridgeSetMessage and buf :: bytes
  assume w: "bridge_set_wf m"
  have len: "length (bridge_set_body m) = 420" if "bridge_set_valid m"
    using w that by (simp add: bridge_set_body_def bridge_set_wf_def bridge_set_valid_def)
  note fits = endpoint_valid_fits [of "abs_source m"] endpoint_valid_fits [of "abs_destination m"]
  show "AdminBridgeSetMessage_Encode m buf =
      (if bridge_set_valid m \<and> 4 + length (bridge_set_body m) \<le> length buf
       then (4 + length (bridge_set_body m), header_image kMESSAGE_TYPE_ADMIN_BRIDGE_SET (length (bridge_set_body m)) @
         bridge_set_body m @ drop (4 + length (bridge_set_body m)) buf)
       else (0, buf))"
  proof (cases "bridge_set_valid m \<and> 424 \<le> length buf")
    case True
    then show ?thesis
      using w fits len unfolding AdminBridgeSetMessage_Encode_def Let_def encodeFixedBody_begin
      by (simp add: bridge_set_wf_def bridge_set_valid_def message_begin_fields [of 420 _ "[144, 144, 4, 128]"] layout)
        (simp add: bridge_set_body_def)
  next
    case False
    then show ?thesis
      using len by (auto simp: AdminBridgeSetMessage_Encode_def encodeFixedBody_begin bridge_set_valid_def)
  qed
  assume v: "bridge_set_valid m"
  show "length (bridge_set_body m) < 2 ^ 16"
    using len v by simp
  show "AdminBridgeSetMessage_Decode old (bridge_set_body m) = (True, bridge_set_received old m)"
    using w v fits len [OF v] unfolding AdminBridgeSetMessage_Decode_def Let_def
    by (simp add: bridge_set_body_def bridge_set_received_def bridge_set_wf_def bridge_set_valid_def layout)
qed

interpretation bridge_delete: message_codec AdminBridgeDeleteMessage_Encode AdminBridgeDeleteMessage_Decode
  kMESSAGE_TYPE_ADMIN_BRIDGE_DELETE bridge_delete_wf
  "\<lambda>m. isBridgeEndpointValid (abd_source m) \<and> isBridgeEndpointValid (abd_destination m)"
  "\<lambda>m. endpoint_image (abd_source m) @ endpoint_image (abd_destination m)" bridge_delete_received
proof unfold_locales
  fix m old :: AdminBridgeDeleteMessage and buf :: bytes
  let ?body = "endpoint_image (abd_source m) @ endpoint_image (abd_destination m)"
  let ?valid = "isBridgeEndpointValid (abd_source m) \<and> isBridgeEndpointValid (abd_destination m)"
  assume w: "bridge_delete_wf m"
  note fits = endpoint_valid_fits [of "abd_source m"] endpoint_valid_fits [of "abd_destination m"]
  show "AdminBridgeDeleteMessage_Encode m buf =
      (if ?valid \<and> 4 + length ?body \<le> length buf
       then (4 + length ?body, header_image kMESSAGE_TYPE_ADMIN_BRIDGE_DELETE (length ?body) @ ?body @ drop (4 + length ?body) buf)
       else (0, buf))"
  proof (cases "?valid \<and> 292 \<le> length buf")
    case True
    then show ?thesis
      using w fits unfolding AdminBridgeDeleteMessage_Encode_def Let_def encodeFixedBody_begin
      by (simp add: bridge_delete_wf_def message_begin_fields [of 288 _ "[144, 144]"] layout)
  qed (auto simp: AdminBridgeDeleteMessage_Encode_def encodeFixedBody_begin)
  assume v: ?valid
  show "AdminBridgeDeleteMessage_Decode old ?body = (True, bridge_delete_received old m)"
    using w v fits by (simp add: AdminBridgeDeleteMessage_Decode_def bridge_delete_received_def bridge_delete_wf_def layout)
qed simp_all

interpretation bridge_page: page_codec kMESSAGE_TYPE_ADMIN_BRIDGE_LIST_REPLY 8 440 bridge_entry_valid writeBridgeEntry
  readBridgeEntry bridge_entry_wf bridge_entry_image bridge_entry_received
proof unfold_locales
  fix e old :: AdminBridgeListReplyEntry and pre post :: bytes
  have zeroes: "replicate 440 (0 :: u8) = zero_fields [144, 144, 4, 128, 20]"
    by (simp add: zero_fields_sum)
  assume w: "bridge_entry_wf e" and v: "bridge_entry_valid e"
  note fits = endpoint_valid_fits [of "abl_source e"] endpoint_valid_fits [of "abl_destination e"]
  show "length (bridge_entry_image e) = 440"
    using w v by (simp add: bridge_entry_image_def bridge_entry_wf_def)
  show "writeBridgeEntry (pre @ replicate 440 0 @ post) (length pre) e = pre @ bridge_entry_image e @ post"
    using w v fits unfolding zeroes writeBridgeEntry_def Let_def
    by (simp add: bridge_entry_image_def bridge_entry_wf_def layout)
  show "readBridgeEntry (pre @ bridge_entry_image e @ post) (length pre) old = (True, bridge_entry_received old e)"
    using w v fits unfolding readBridgeEntry_def Let_def
    by (simp add: bridge_entry_image_def bridge_entry_received_def bridge_entry_wf_def layout)
qed simp

section \<open>Bridge groups\<close>

record AdminGroupSetMessage =
  ags_name :: bytes
  ags_filter_count :: u8
  ags_filters :: "CanFilter list"

record AdminGroupDeleteMessage =
  agd_name :: bytes

record AdminGroupMemberMessage =
  agm_name :: bytes
  agm_member :: AdminBridgeEndpoint
  agm_direction :: u8
  agm_filter_count :: u8
  agm_filters :: "CanFilter list"

record AdminGroupMember =
  gm_endpoint :: AdminBridgeEndpoint
  gm_state :: u8
  gm_direction :: u8
  gm_filter_count :: u8
  gm_filters :: "CanFilter list"

record AdminGroupListReplyEntry =
  agl_name :: bytes
  agl_filter_count :: u8
  agl_member_count :: u8
  agl_filters :: "CanFilter list"
  agl_forwarded :: u64
  agl_dropped :: u64
  agl_members :: "AdminGroupMember list"

definition AdminGroupSetMessage_Encode :: "AdminGroupSetMessage \<Rightarrow> bytes \<Rightarrow> nat \<times> bytes" where
  "AdminGroupSetMessage_Encode self buffer =
     (if \<not> isGroupNameValid (ags_name self) \<or> SUBSCRIBE_FILTERS_MAX < unat (ags_filter_count self) then (0, buffer)
      else case encodeFixedBody kMESSAGE_TYPE_ADMIN_GROUP_SET 164 buffer of (total_size, b) \<Rightarrow>
        if total_size = 0 then (0, b)
        else
          let body = MESSAGE_HEADER_SIZE;
              b = write_text b (body + 0) (ags_name self);
              b = mem_write b (body + 32) [ags_filter_count self];
              b = writeBridgeFilters b (body + 36) (ags_filters self) (ags_filter_count self)
          in (total_size, b))"

definition AdminGroupSetMessage_Decode :: "AdminGroupSetMessage \<Rightarrow> bytes \<Rightarrow> bool \<times> AdminGroupSetMessage" where
  "AdminGroupSetMessage_Decode self payload =
     (if length payload < 164 then (False, self)
      else
        let (ok, name) = readGroupName payload 0; self = self\<lparr>ags_name := name\<rparr>
        in if \<not> ok then (False, self)
           else
             let self = self\<lparr>ags_filter_count := payload ! 32\<rparr>
             in if SUBSCRIBE_FILTERS_MAX < unat (ags_filter_count self) then (False, self)
                else (True, self\<lparr>ags_filters :=
                  readBridgeFilters payload 36 (ags_filters self) (ags_filter_count self)\<rparr>))"

definition AdminGroupDeleteMessage_Encode :: "AdminGroupDeleteMessage \<Rightarrow> bytes \<Rightarrow> nat \<times> bytes" where
  "AdminGroupDeleteMessage_Encode self buffer =
     (if \<not> isGroupNameValid (agd_name self) then (0, buffer)
      else case encodeFixedBody kMESSAGE_TYPE_ADMIN_GROUP_DELETE 32 buffer of (total_size, b) \<Rightarrow>
        if total_size = 0 then (0, b) else (total_size, write_text b (MESSAGE_HEADER_SIZE + 0) (agd_name self)))"

definition AdminGroupDeleteMessage_Decode :: "AdminGroupDeleteMessage \<Rightarrow> bytes \<Rightarrow> bool \<times> AdminGroupDeleteMessage" where
  "AdminGroupDeleteMessage_Decode self payload =
     (if length payload < 32 then (False, self)
      else let (ok, name) = readGroupName payload 0 in (ok, self\<lparr>agd_name := name\<rparr>))"

definition AdminGroupMemberMessage_Encode :: "u8 \<Rightarrow> AdminGroupMemberMessage \<Rightarrow> bytes \<Rightarrow> nat \<times> bytes" where
  "AdminGroupMemberMessage_Encode type self buffer =
     (if type \<noteq> kMESSAGE_TYPE_ADMIN_GROUP_JOIN \<and> type \<noteq> kMESSAGE_TYPE_ADMIN_GROUP_LEAVE then (0, buffer)
      else if \<not> isGroupNameValid (agm_name self) \<or> \<not> isBridgeEndpointValid (agm_member self) then (0, buffer)
      else if agm_direction self > ADMIN_GROUP_MEMBER_RECEIVES \<or>
        ADMIN_GROUP_MEMBER_FILTERS_MAX < unat (agm_filter_count self) then (0, buffer)
      else case encodeFixedBody type 244 buffer of (total_size, b) \<Rightarrow>
        if total_size = 0 then (0, b)
        else
          let body = MESSAGE_HEADER_SIZE;
              b = write_text b (body + 0) (agm_name self);
              b = writeBridgeEndpoint b (body + 32) (agm_member self);
              b = mem_write b (body + 176) [agm_direction self];
              b = mem_write b (body + 177) [agm_filter_count self];
              b = writeBridgeFilters b (body + 180) (agm_filters self) (agm_filter_count self)
          in (total_size, b))"

definition AdminGroupMemberMessage_Decode :: "AdminGroupMemberMessage \<Rightarrow> bytes \<Rightarrow> bool \<times> AdminGroupMemberMessage" where
  "AdminGroupMemberMessage_Decode self payload =
     (if length payload < 244 then (False, self)
      else
        let (ok, name) = readGroupName payload 0; self = self\<lparr>agm_name := name\<rparr>
        in if \<not> ok then (False, self)
           else
             let (ok, member) = readBridgeEndpoint payload 32 (agm_member self); self = self\<lparr>agm_member := member\<rparr>
             in if \<not> ok then (False, self)
                else
                  let self = self\<lparr>agm_direction := payload ! 176, agm_filter_count := payload ! 177\<rparr>
                  in if agm_direction self > ADMIN_GROUP_MEMBER_RECEIVES \<or>
                       ADMIN_GROUP_MEMBER_FILTERS_MAX < unat (agm_filter_count self) then (False, self)
                     else (True, self\<lparr>agm_filters :=
                       readBridgeFilters payload 180 (agm_filters self) (agm_filter_count self)\<rparr>))"

definition areGroupMembersValid :: "AdminGroupListReplyEntry \<Rightarrow> bool" where
  "areGroupMembersValid entry =
     list_all (\<lambda>m. unat (gm_filter_count m) \<le> ADMIN_GROUP_MEMBER_FILTERS_MAX)
       (take (unat (agl_member_count entry)) (agl_members entry))"

definition write_group_member :: "bytes \<Rightarrow> nat \<Rightarrow> AdminGroupMember \<Rightarrow> bytes" where
  "write_group_member b off m =
     (let b = writeBridgeEndpoint b off (gm_endpoint m);
          b = mem_write b (off + 144) [gm_state m];
          b = mem_write b (off + 145) [gm_direction m];
          b = mem_write b (off + 146) [gm_filter_count m]
      in writeBridgeFilters b (off + 148) (gm_filters m) (gm_filter_count m))"

definition read_group_member :: "bytes \<Rightarrow> nat \<Rightarrow> AdminGroupMember \<Rightarrow> bool \<times> AdminGroupMember" where
  "read_group_member p off m =
     (let (ok, endpoint) = readBridgeEndpoint p off (gm_endpoint m); m = m\<lparr>gm_endpoint := endpoint\<rparr>
      in if \<not> ok then (False, m)
         else
           let m = m\<lparr>gm_state := p ! (off + 144), gm_direction := p ! (off + 145), gm_filter_count := p ! (off + 146)\<rparr>
           in if ADMIN_GROUP_MEMBER_FILTERS_MAX < unat (gm_filter_count m) then (False, m)
              else (True, m\<lparr>gm_filters := readBridgeFilters p (off + 148) (gm_filters m) (gm_filter_count m)\<rparr>))"

definition writeGroupEntry :: "bytes \<Rightarrow> nat \<Rightarrow> AdminGroupListReplyEntry \<Rightarrow> bytes" where
  "writeGroupEntry b off entry =
     (let b = write_text b (off + 0) (agl_name entry);
          b = mem_write b (off + 32) [agl_filter_count entry];
          b = mem_write b (off + 33) [agl_member_count entry];
          b = writeBridgeFilters b (off + 36) (agl_filters entry) (agl_filter_count entry);
          b = Wire_WriteU64 b (off + 168) (agl_forwarded entry);
          b = Wire_WriteU64 b (off + 176) (agl_dropped entry)
      in write_entries write_group_member 216 b (off + 184)
           (take (unat (agl_member_count entry)) (agl_members entry)))"

definition readGroupEntry :: "bytes \<Rightarrow> nat \<Rightarrow> AdminGroupListReplyEntry \<Rightarrow> bool \<times> AdminGroupListReplyEntry" where
  "readGroupEntry p off entry =
     (let (ok, name) = readGroupName p (off + 0); entry = entry\<lparr>agl_name := name\<rparr>
      in if \<not> ok then (False, entry)
         else
           let entry = entry\<lparr>agl_filter_count := p ! (off + 32), agl_member_count := p ! (off + 33)\<rparr>
           in if SUBSCRIBE_FILTERS_MAX < unat (agl_filter_count entry) \<or>
                ADMIN_GROUP_MEMBERS_MAX < unat (agl_member_count entry) then (False, entry)
              else
                let entry = entry\<lparr>agl_filters := readBridgeFilters p (off + 36) (agl_filters entry) (agl_filter_count entry),
                      agl_forwarded := Wire_ReadU64 p (off + 168), agl_dropped := Wire_ReadU64 p (off + 176)\<rparr>;
                    (ok, members) = read_page read_group_member 216 p (off + 184) (unat (agl_member_count entry)) 0
                      (agl_members entry)
                in (ok, entry\<lparr>agl_members := members\<rparr>))"

abbreviation (input) group_entry_valid :: "AdminGroupListReplyEntry \<Rightarrow> bool" where
  "group_entry_valid \<equiv> (\<lambda>e. isGroupNameValid (agl_name e) \<and> unat (agl_filter_count e) \<le> SUBSCRIBE_FILTERS_MAX \<and>
     unat (agl_member_count e) \<le> ADMIN_GROUP_MEMBERS_MAX \<and> areGroupMembersValid e)"

definition AdminGroupListReplyMessage_Encode :: "AdminGroupListReplyEntry AdminPage \<Rightarrow> bytes \<Rightarrow> nat \<times> bytes" where
  "AdminGroupListReplyMessage_Encode =
     encode_page kMESSAGE_TYPE_ADMIN_GROUP_LIST_REPLY 1 3640 group_entry_valid writeGroupEntry"

definition AdminGroupListReplyMessage_Decode ::
    "AdminGroupListReplyEntry AdminPage \<Rightarrow> bytes \<Rightarrow> bool \<times> AdminGroupListReplyEntry AdminPage" where
  "AdminGroupListReplyMessage_Decode = decode_page 1 3640 readGroupEntry"

definition group_set_wf :: "AdminGroupSetMessage \<Rightarrow> bool" where
  "group_set_wf m \<longleftrightarrow> length (ags_name m) = 32 \<and> length (ags_filters m) = 16"

definition group_set_body :: "AdminGroupSetMessage \<Rightarrow> bytes" where
  "group_set_body m = name_field 32 (ags_name m) @ [ags_filter_count m] @ replicate 3 0 @
     filters_image 16 (ags_filters m) (ags_filter_count m)"

definition group_set_received :: "AdminGroupSetMessage \<Rightarrow> AdminGroupSetMessage \<Rightarrow> AdminGroupSetMessage" where
  "group_set_received old m = m\<lparr>ags_name := name_field 32 (ags_name m),
     ags_filters := filters_received (ags_filters old) (ags_filters m) (ags_filter_count m)\<rparr>"

definition group_member_wf :: "AdminGroupMemberMessage \<Rightarrow> bool" where
  "group_member_wf m \<longleftrightarrow> length (agm_name m) = 32 \<and> endpoint_wf (agm_member m) \<and> length (agm_filters m) = 8"

definition group_member_valid :: "u8 \<Rightarrow> AdminGroupMemberMessage \<Rightarrow> bool" where
  "group_member_valid t m \<longleftrightarrow> (t = kMESSAGE_TYPE_ADMIN_GROUP_JOIN \<or> t = kMESSAGE_TYPE_ADMIN_GROUP_LEAVE) \<and>
     isGroupNameValid (agm_name m) \<and> isBridgeEndpointValid (agm_member m) \<and>
     agm_direction m \<le> ADMIN_GROUP_MEMBER_RECEIVES \<and> unat (agm_filter_count m) \<le> 8"

definition group_member_body :: "AdminGroupMemberMessage \<Rightarrow> bytes" where
  "group_member_body m = name_field 32 (agm_name m) @ endpoint_image (agm_member m) @
     [agm_direction m, agm_filter_count m] @ replicate 2 0 @ filters_image 8 (agm_filters m) (agm_filter_count m)"

definition group_member_received :: "AdminGroupMemberMessage \<Rightarrow> AdminGroupMemberMessage \<Rightarrow> AdminGroupMemberMessage" where
  "group_member_received old m = m\<lparr>agm_name := name_field 32 (agm_name m), agm_member := endpoint_received (agm_member m),
     agm_filters := filters_received (agm_filters old) (agm_filters m) (agm_filter_count m)\<rparr>"

lemma read_group_name [layout]:
  "length xs \<le> off \<Longrightarrow> readGroupName (xs @ ys) off = readGroupName ys (off - length xs)"
  "length a = 32 \<Longrightarrow> readGroupName (name_field 32 a @ ys) 0 = (a ! 0 \<noteq> 0, name_field 32 a)"
  "length a = 32 \<Longrightarrow> readGroupName (name_field 32 a) 0 = (a ! 0 \<noteq> 0, name_field 32 a)"
  by (simp_all add: readGroupName_def layout Let_def)

lemma group_name_fits: "isGroupNameValid a \<Longrightarrow> length a = 32 \<Longrightarrow> length (cstr a) < 32"
  using terminated_strlen [of a 32] by (simp add: isGroupNameValid_def)

interpretation group_set: message_codec AdminGroupSetMessage_Encode AdminGroupSetMessage_Decode
  kMESSAGE_TYPE_ADMIN_GROUP_SET group_set_wf "\<lambda>m. isGroupNameValid (ags_name m) \<and> unat (ags_filter_count m) \<le> 16"
  group_set_body group_set_received
proof unfold_locales
  fix m old :: AdminGroupSetMessage and buf :: bytes
  let ?valid = "isGroupNameValid (ags_name m) \<and> unat (ags_filter_count m) \<le> 16"
  assume w: "group_set_wf m"
  have len: "length (group_set_body m) = 164" if ?valid
    using w that by (simp add: group_set_body_def group_set_wf_def)
  have name: "length (cstr (ags_name m)) < 32" if ?valid
    using w that group_name_fits [of "ags_name m"] by (simp add: group_set_wf_def)
  have filters: "length (ags_filters m) = 16" and "length (ags_name m) = 32"
    using w by (simp_all add: group_set_wf_def)
  show "AdminGroupSetMessage_Encode m buf =
      (if ?valid \<and> 4 + length (group_set_body m) \<le> length buf
       then (4 + length (group_set_body m), header_image kMESSAGE_TYPE_ADMIN_GROUP_SET (length (group_set_body m)) @
         group_set_body m @ drop (4 + length (group_set_body m)) buf)
       else (0, buf))"
  proof (cases "?valid \<and> 168 \<le> length buf")
    case True
    then show ?thesis
      using filters name len unfolding AdminGroupSetMessage_Encode_def Let_def encodeFixedBody_begin
      by (simp add: message_begin_fields [of 164 _ "[32, 4, 128]"] layout) (simp add: group_set_body_def)
  next
    case False
    then show ?thesis
      using len by (auto simp: AdminGroupSetMessage_Encode_def encodeFixedBody_begin)
  qed
  assume v: ?valid
  show "length (group_set_body m) < 2 ^ 16"
    using len v by simp
  show "AdminGroupSetMessage_Decode old (group_set_body m) = (True, group_set_received old m)"
    using w v len [OF v] unfolding AdminGroupSetMessage_Decode_def Let_def
    by (simp add: group_set_body_def group_set_received_def group_set_wf_def isGroupNameValid_def layout)
qed

interpretation group_delete: message_codec AdminGroupDeleteMessage_Encode AdminGroupDeleteMessage_Decode
  kMESSAGE_TYPE_ADMIN_GROUP_DELETE "\<lambda>m. length (agd_name m) = 32" "\<lambda>m. isGroupNameValid (agd_name m)"
  "\<lambda>m. name_field 32 (agd_name m)" "\<lambda>old m. m\<lparr>agd_name := name_field 32 (agd_name m)\<rparr>"
proof unfold_locales
  fix m old :: AdminGroupDeleteMessage and buf :: bytes
  assume w: "length (agd_name m) = 32"
  have "length (cstr (agd_name m)) < 32" if "isGroupNameValid (agd_name m)"
    using w that by (simp add: group_name_fits)
  then show "AdminGroupDeleteMessage_Encode m buf =
      (if isGroupNameValid (agd_name m) \<and> 4 + length (name_field 32 (agd_name m)) \<le> length buf
       then (4 + length (name_field 32 (agd_name m)),
         header_image kMESSAGE_TYPE_ADMIN_GROUP_DELETE (length (name_field 32 (agd_name m))) @ name_field 32 (agd_name m) @
         drop (4 + length (name_field 32 (agd_name m))) buf)
       else (0, buf))"
    by (auto simp: AdminGroupDeleteMessage_Encode_def encodeFixedBody_begin message_begin_fields [of 32 _ "[32]"] layout)
qed (simp_all add: AdminGroupDeleteMessage_Decode_def isGroupNameValid_def layout)

interpretation group_member: message_codec "AdminGroupMemberMessage_Encode t" AdminGroupMemberMessage_Decode t
  group_member_wf "group_member_valid t" group_member_body group_member_received for t
proof unfold_locales
  fix m old :: AdminGroupMemberMessage and buf :: bytes
  assume w: "group_member_wf m"
  have len: "length (group_member_body m) = 244" if "group_member_valid t m"
    using w that by (simp add: group_member_body_def group_member_wf_def group_member_valid_def)
  have name: "length (cstr (agm_name m)) < 32" if "group_member_valid t m"
    using w that group_name_fits [of "agm_name m"] by (simp add: group_member_wf_def group_member_valid_def)
  have filters: "length (agm_filters m) = 8"
    using w by (simp add: group_member_wf_def)
  note fits = endpoint_valid_fits [of "agm_member m"]
  show "AdminGroupMemberMessage_Encode t m buf =
      (if group_member_valid t m \<and> 4 + length (group_member_body m) \<le> length buf
       then (4 + length (group_member_body m), header_image t (length (group_member_body m)) @ group_member_body m @
         drop (4 + length (group_member_body m)) buf)
       else (0, buf))"
  proof (cases "group_member_valid t m \<and> 248 \<le> length buf")
    case True
    then have "endpoint_wf (agm_member m)" "isBridgeEndpointValid (agm_member m)"
      using w by (simp_all add: group_member_wf_def group_member_valid_def)
    then show ?thesis
      using True filters name len fits
      unfolding AdminGroupMemberMessage_Encode_def Let_def encodeFixedBody_begin group_member_valid_def
      by (simp add: message_begin_fields [of 244 _ "[32, 144, 4, 64]"] layout linorder_not_less) (simp add: group_member_body_def)
  next
    case False
    then show ?thesis
      using len by (auto simp: AdminGroupMemberMessage_Encode_def encodeFixedBody_begin group_member_valid_def)
  qed
  assume v: "group_member_valid t m"
  show "length (group_member_body m) < 2 ^ 16"
    using len v by simp
  show "AdminGroupMemberMessage_Decode old (group_member_body m) = (True, group_member_received old m)"
    using w v fits len [OF v] unfolding AdminGroupMemberMessage_Decode_def Let_def
    by (simp add: group_member_body_def group_member_received_def group_member_wf_def group_member_valid_def
        isGroupNameValid_def layout linorder_not_less)
qed

definition member_wf :: "AdminGroupMember \<Rightarrow> bool" where
  "member_wf m \<longleftrightarrow> endpoint_wf (gm_endpoint m) \<and> length (gm_filters m) = 8"

definition member_image :: "AdminGroupMember \<Rightarrow> bytes" where
  "member_image m = endpoint_image (gm_endpoint m) @ [gm_state m, gm_direction m, gm_filter_count m] @ replicate 1 0 @
     filters_image 8 (gm_filters m) (gm_filter_count m) @ replicate 4 0"

definition member_received :: "AdminGroupMember \<Rightarrow> AdminGroupMember \<Rightarrow> AdminGroupMember" where
  "member_received old m = m\<lparr>gm_endpoint := endpoint_received (gm_endpoint m),
     gm_filters := filters_received (gm_filters old) (gm_filters m) (gm_filter_count m)\<rparr>"

text \<open>
  A group that can be listed: the encoder does not test the endpoints of the members, the
  decoder refuses empty ones.
\<close>

definition group_entry_wf :: "AdminGroupListReplyEntry \<Rightarrow> bool" where
  "group_entry_wf e \<longleftrightarrow> length (agl_name e) = 32 \<and> length (agl_filters e) = 16 \<and> length (agl_members e) = 16 \<and>
     list_all member_wf (agl_members e) \<and>
     list_all (\<lambda>m. isBridgeEndpointValid (gm_endpoint m)) (take (unat (agl_member_count e)) (agl_members e))"

definition group_entry_image :: "AdminGroupListReplyEntry \<Rightarrow> bytes" where
  "group_entry_image e = (let n = unat (agl_member_count e)
     in name_field 32 (agl_name e) @ [agl_filter_count e, agl_member_count e] @ replicate 2 0 @
        filters_image 16 (agl_filters e) (agl_filter_count e) @ replicate 4 0 @ le64 (agl_forwarded e) @ le64 (agl_dropped e) @
        concat (map member_image (take n (agl_members e))) @ replicate ((16 - n) * 216) 0)"

definition group_entry_received :: "AdminGroupListReplyEntry \<Rightarrow> AdminGroupListReplyEntry \<Rightarrow> AdminGroupListReplyEntry" where
  "group_entry_received old e = (let n = unat (agl_member_count e)
     in e\<lparr>agl_name := name_field 32 (agl_name e),
          agl_filters := filters_received (agl_filters old) (agl_filters e) (agl_filter_count e),
          agl_members := map2 member_received (take n (agl_members old)) (take n (agl_members e)) @ drop n (agl_members old)\<rparr>)"

definition member_ok :: "AdminGroupMember \<Rightarrow> bool" where
  "member_ok m \<longleftrightarrow> member_wf m \<and> isBridgeEndpointValid (gm_endpoint m) \<and> unat (gm_filter_count m) \<le> 8"

lemma member_codec:
  assumes "member_ok m"
  shows "write_group_member (pre @ replicate 216 0 @ post) (length pre) m = pre @ member_image m @ post"
    and "length (member_image m) = 216"
    and "read_group_member (pre @ member_image m @ post) (length pre) old = (True, member_received old m)"
proof -
  have m: "endpoint_wf (gm_endpoint m)" "length (gm_filters m) = 8" "unat (gm_filter_count m) \<le> 8"
    "isBridgeEndpointValid (gm_endpoint m)"
    using assms by (simp_all add: member_ok_def member_wf_def)
  note fits = endpoint_valid_fits [OF m(4,1)]
  have zeroes: "replicate 216 (0 :: u8) = zero_fields [144, 4, 64, 4]"
    by (simp add: zero_fields_sum)
  show "write_group_member (pre @ replicate 216 0 @ post) (length pre) m = pre @ member_image m @ post"
    using m fits unfolding zeroes write_group_member_def Let_def by (simp add: member_image_def layout)
  show "length (member_image m) = 216"
    using m by (simp add: member_image_def)
  show "read_group_member (pre @ member_image m @ post) (length pre) old = (True, member_received old m)"
    using m fits unfolding read_group_member_def Let_def by (simp add: member_image_def member_received_def layout)
qed

lemma group_members_ok:
  assumes "group_entry_wf e" and "group_entry_valid e"
  shows "m \<in> set (take (unat (agl_member_count e)) (agl_members e)) \<Longrightarrow> member_ok m"
    and "length (take (unat (agl_member_count e)) (agl_members e)) = unat (agl_member_count e)"
    and "length (concat (map member_image (take (unat (agl_member_count e)) (agl_members e)))) = unat (agl_member_count e) * 216"
proof -
  let ?ms = "take (unat (agl_member_count e)) (agl_members e)"
  show ok: "member_ok m" if "m \<in> set ?ms" for m
    using assms that by (auto simp: group_entry_wf_def areGroupMembersValid_def member_ok_def list_all_iff dest: in_set_takeD)
  show n: "length ?ms = unat (agl_member_count e)"
    using assms by (simp add: group_entry_wf_def)
  show "length (concat (map member_image ?ms)) = unat (agl_member_count e) * 216"
    using length_concat_entries [of ?ms member_image 216] ok member_codec(2) n by simp
qed

lemma length_group_entry_image:
  assumes "group_entry_wf e" and "group_entry_valid e"
  shows "length (group_entry_image e) = 3640"
proof -
  have "unat (agl_member_count e) * 216 + (16 - unat (agl_member_count e)) * 216 = 3456"
    using assms(2) by (simp add: diff_mult_distrib)
  then show ?thesis
    using assms group_members_ok(3) [OF assms] by (simp add: group_entry_image_def group_entry_wf_def Let_def)
qed

lemma write_group_entry:
  assumes "group_entry_wf e" and "group_entry_valid e"
  shows "writeGroupEntry (pre @ replicate 3640 0 @ post) (length pre) e = pre @ group_entry_image e @ post"
proof -
  let ?n = "unat (agl_member_count e)"
  let ?ms = "take ?n (agl_members e)"
  let ?rest = "replicate ((16 - ?n) * 216) 0 @ post"
  let ?head = "pre @ name_field 32 (agl_name e) @ [agl_filter_count e, agl_member_count e] @ replicate 2 0 @
      filters_image 16 (agl_filters e) (agl_filter_count e) @ replicate 4 0 @ le64 (agl_forwarded e) @ le64 (agl_dropped e)"
  have name: "length (cstr (agl_name e)) < 32"
    using assms group_name_fits [of "agl_name e"] by (simp add: group_entry_wf_def)
  have filters: "length (agl_filters e) = 16" "unat (agl_filter_count e) \<le> 16" "?n \<le> 16"
    using assms by (simp_all add: group_entry_wf_def)
  have "write_entries write_group_member 216 (?head @ replicate (length ?ms * 216) 0 @ ?rest) (length ?head) ?ms =
      ?head @ concat (map member_image ?ms) @ ?rest"
    using group_members_ok(1) [OF assms] member_codec by (intro write_entries_image) blast
  then have members: "write_entries write_group_member 216 (?head @ replicate (?n * 216) 0 @ ?rest) (length ?head) ?ms =
      ?head @ concat (map member_image ?ms) @ ?rest"
    using group_members_ok(2) [OF assms] by simp
  have zeroes: "replicate 3640 0 = zero_fields [32, 4, 128, 20, ?n * 216, (16 - ?n) * 216]"
    unfolding zero_fields_sum using filters(3) by (simp add: diff_mult_distrib)
  show ?thesis
    using name filters members unfolding zeroes writeGroupEntry_def Let_def
    by (simp add: layout) (simp add: group_entry_image_def Let_def)
qed

lemma read_group_entry:
  assumes "group_entry_wf e" and "group_entry_valid e" and "group_entry_wf old"
  shows "readGroupEntry (pre @ group_entry_image e @ post) (length pre) old = (True, group_entry_received old e)"
proof -
  let ?n = "unat (agl_member_count e)"
  let ?ms = "take ?n (agl_members e)"
  let ?rest = "replicate ((16 - ?n) * 216) 0 @ post"
  let ?head = "pre @ name_field 32 (agl_name e) @ [agl_filter_count e, agl_member_count e] @ replicate 2 0 @
      filters_image 16 (agl_filters e) (agl_filter_count e) @ replicate 4 0 @ le64 (agl_forwarded e) @ le64 (agl_dropped e)"
  note n = group_members_ok(2) [OF assms(1,2)]
  have e: "length (agl_name e) = 32" "agl_name e ! 0 \<noteq> 0" "length (agl_filters e) = 16"
    "unat (agl_filter_count e) \<le> 16" "?n \<le> 16"
    using assms(1,2) by (simp_all add: group_entry_wf_def isGroupNameValid_def)
  have "read_page read_group_member 216 (?head @ concat (map member_image ?ms) @ ?rest) (length ?head) (length ?ms) 0
      (map2 member_received (take 0 (agl_members old)) (take 0 ?ms) @ drop 0 (agl_members old)) =
    (True, map2 member_received (take (length ?ms) (agl_members old)) ?ms @ drop (length ?ms) (agl_members old))"
    using group_members_ok(1) [OF assms(1,2)] member_codec assms(3) e(5)
    by (intro read_page_image [where P = "\<lambda>m. True"]) (auto simp: group_entry_wf_def list_all_iff)
  then have members: "read_page read_group_member 216 (?head @ concat (map member_image ?ms) @ ?rest) (length ?head) ?n 0
      (agl_members old) = (True, map2 member_received (take ?n (agl_members old)) ?ms @ drop ?n (agl_members old))"
    unfolding n by simp
  have "pre @ group_entry_image e @ post = ?head @ concat (map member_image ?ms) @ ?rest"
    by (simp add: group_entry_image_def Let_def)
  moreover have "length ?head = length pre + 184"
    using e by simp
  ultimately have "read_page read_group_member 216 (pre @ group_entry_image e @ post) (length pre + 184) ?n 0 (agl_members old) =
      (True, map2 member_received (take ?n (agl_members old)) ?ms @ drop ?n (agl_members old))"
    using members by simp
  moreover have "readGroupName (pre @ group_entry_image e @ post) (length pre) = (True, name_field 32 (agl_name e))"
    "(pre @ group_entry_image e @ post) ! (length pre + 32) = agl_filter_count e"
    "(pre @ group_entry_image e @ post) ! (length pre + 33) = agl_member_count e"
    "readBridgeFilters (pre @ group_entry_image e @ post) (length pre + 36) (agl_filters old) (agl_filter_count e) =
      filters_received (agl_filters old) (agl_filters e) (agl_filter_count e)"
    "Wire_ReadU64 (pre @ group_entry_image e @ post) (length pre + 168) = agl_forwarded e"
    "Wire_ReadU64 (pre @ group_entry_image e @ post) (length pre + 176) = agl_dropped e"
    using e by (simp_all add: group_entry_image_def Let_def layout)
  ultimately show ?thesis
    using e(4,5) by (simp add: readGroupEntry_def group_entry_received_def Let_def)
qed

interpretation group_page: page_codec kMESSAGE_TYPE_ADMIN_GROUP_LIST_REPLY 1 3640 group_entry_valid writeGroupEntry
  readGroupEntry group_entry_wf group_entry_image group_entry_received
  by unfold_locales (simp_all only: length_group_entry_image write_group_entry read_group_entry, simp)

section \<open>Properties\<close>

text \<open>
  C30.  The administrator's requests and the replies of fixed size survive the wire: the requests
  by name and by offset, with and without a filter, status codes, the hub's counters, pins and
  access rules.  A request with an empty or unterminated name is refused before it is sent.
\<close>

theorem admin_requests_delivered:
  assumes "name_wf n" "name_wf n0" "filtered_wf f" "filtered_wf f0" "pin_wf p" "pin_wf p0" "acl_wf a" "acl_wf a0"
    and "revoke_wf v" "revoke_wf v0"
  shows "delivers (encodeAgentName t) decodeAgentName t (text_given 128 (an_agent_name n)) 128
      (n\<lparr>an_agent_name := name_field 128 (an_agent_name n)\<rparr>) n n0 buf \<and>
    delivers (encodeOffsetRequest t) decodeOffsetRequest t True 4 q q q0 buf \<and>
    delivers (encodeFilteredRequest t) decodeFilteredRequest t (isNameTerminated (af_agent_name f)) 132
      (f\<lparr>af_agent_name := name_field 128 (af_agent_name f)\<rparr>) f f0 buf \<and>
    delivers (encodeStatusReply t) decodeStatusReply t True 4 c c c0 buf \<and>
    delivers AdminStatusReplyMessage_Encode AdminStatusReplyMessage_Decode kMESSAGE_TYPE_ADMIN_STATUS_REPLY True 92 s s s0 buf \<and>
    delivers AdminKickPeerMessage_Encode AdminKickPeerMessage_Decode kMESSAGE_TYPE_ADMIN_KICK_PEER True 4 k k k0 buf \<and>
    delivers AdminPinAddMessage_Encode AdminPinAddMessage_Decode kMESSAGE_TYPE_ADMIN_PIN_ADD
      (text_given 128 (api_agent_name p) \<and> text_given 65 (api_fingerprint_hex p)) 196 (pin_received p0 p) p p0 buf \<and>
    delivers AdminAclSetMessage_Encode AdminAclSetMessage_Decode kMESSAGE_TYPE_ADMIN_ACL_SET
      (text_given 128 (acl_agent_name a) \<and> text_given 16 (acl_interface_name a) \<and> text_given 65 (acl_fingerprint_hex a))
      212 (acl_received a0 a) a a0 buf \<and>
    delivers AdminAclRevokeMessage_Encode AdminAclRevokeMessage_Decode kMESSAGE_TYPE_ADMIN_ACL_REVOKE
      (text_given 128 (aar_agent_name v) \<and> text_given 16 (aar_interface_name v) \<and> text_given 65 (aar_fingerprint_hex v))
      212 (revoke_received v0 v) v v0 buf"
proof (intro conjI)
  show "delivers (encodeAgentName t) decodeAgentName t (text_given 128 (an_agent_name n)) 128
      (n\<lparr>an_agent_name := name_field 128 (an_agent_name n)\<rparr>) n n0 buf"
    using assms by (intro name_request.delivers_sized) simp_all
  show "delivers (encodeOffsetRequest t) decodeOffsetRequest t True 4 q q q0 buf"
    using offset_request.delivers_sized [where m = q and old = q0 and n = 4] by simp
  show "delivers (encodeFilteredRequest t) decodeFilteredRequest t (isNameTerminated (af_agent_name f)) 132
      (f\<lparr>af_agent_name := name_field 128 (af_agent_name f)\<rparr>) f f0 buf"
    using assms by (intro filtered_request.delivers_sized) simp_all
  show "delivers (encodeStatusReply t) decodeStatusReply t True 4 c c c0 buf"
    using status_code.delivers_sized [where m = c and old = c0 and n = 4] by simp
  show "delivers AdminStatusReplyMessage_Encode AdminStatusReplyMessage_Decode kMESSAGE_TYPE_ADMIN_STATUS_REPLY True 92 s s s0 buf"
    using status_reply.delivers_sized [where m = s and old = s0 and n = 92] by (simp add: status_reply_body_def Let_def)
  show "delivers AdminKickPeerMessage_Encode AdminKickPeerMessage_Decode kMESSAGE_TYPE_ADMIN_KICK_PEER True 4 k k k0 buf"
    using kick_peer.delivers_sized [where m = k and old = k0 and n = 4] by simp
  show "delivers AdminPinAddMessage_Encode AdminPinAddMessage_Decode kMESSAGE_TYPE_ADMIN_PIN_ADD
      (text_given 128 (api_agent_name p) \<and> text_given 65 (api_fingerprint_hex p)) 196 (pin_received p0 p) p p0 buf"
    using assms by (intro pin_add.delivers_sized) (simp_all add: pin_image_def)
  show "delivers AdminAclSetMessage_Encode AdminAclSetMessage_Decode kMESSAGE_TYPE_ADMIN_ACL_SET
      (text_given 128 (acl_agent_name a) \<and> text_given 16 (acl_interface_name a) \<and> text_given 65 (acl_fingerprint_hex a))
      212 (acl_received a0 a) a a0 buf"
    using assms by (intro acl_set.delivers_sized) (simp_all add: acl_image_def)
  show "delivers AdminAclRevokeMessage_Encode AdminAclRevokeMessage_Decode kMESSAGE_TYPE_ADMIN_ACL_REVOKE
      (text_given 128 (aar_agent_name v) \<and> text_given 16 (aar_interface_name v) \<and> text_given 65 (aar_fingerprint_hex v))
      212 (revoke_received v0 v) v v0 buf"
    using assms by (intro acl_revoke.delivers_sized) (simp_all add: revoke_body_def)
qed

theorem admin_requests_delivered_witness:
  "let n = \<lparr>an_agent_name = name_field 128 [97]\<rparr>
   in text_given 128 (an_agent_name n) \<and>
      delivers (encodeAgentName kMESSAGE_TYPE_ADMIN_KICK) decodeAgentName kMESSAGE_TYPE_ADMIN_KICK True 128
        (n\<lparr>an_agent_name := name_field 128 (an_agent_name n)\<rparr>) n n (replicate 132 0)"
proof -
  let ?a = "name_field 128 [97]" and ?i = "name_field 16 [99]" and ?f = "name_field 65 [48]"
  let ?n = "\<lparr>an_agent_name = ?a\<rparr>" and ?q = "\<lparr>af_offset = 0, af_agent_name = ?a\<rparr>"
    and ?p = "\<lparr>api_agent_name = ?a, api_fingerprint_hex = ?f\<rparr>"
    and ?l = "\<lparr>acl_agent_name = ?a, acl_interface_name = ?i, acl_fingerprint_hex = ?f, acl_can_read = 1, acl_can_write = 0, acl_can_admin = 0\<rparr>"
    and ?v = "\<lparr>aar_agent_name = ?a, aar_interface_name = ?i, aar_fingerprint_hex = ?f\<rparr>"
  have wf: "name_wf ?n" "filtered_wf ?q" "pin_wf ?p" "acl_wf ?l" "revoke_wf ?v"
    by (simp_all add: name_wf_def filtered_wf_def pin_wf_def acl_wf_def revoke_wf_def)
  have "text_given 128 ?a"
    by (simp add: text_given_def) (simp add: name_field_def zero_pad_def cstr_def)
  then show ?thesis
    using admin_requests_delivered [OF wf(1,1,2,2,3,3,4,4,5,5), of kMESSAGE_TYPE_ADMIN_KICK "replicate 132 0"]
    unfolding Let_def by simp
qed

text \<open>
  C31.  Bridge routes and bridge groups survive the wire: SET, DELETE, JOIN and LEAVE with their
  endpoints and filters, and the listings, where a page is refused as a whole when one of its
  entries has too many filters or members or an unusable name.
\<close>

theorem admin_bridge_messages_delivered:
  assumes "bridge_set_wf s" "bridge_set_wf s0" "bridge_delete_wf d" "bridge_delete_wf d0"
    and "page_wf 8 bridge_entry_wf l" "page_wf 8 bridge_entry_wf l0" "group_set_wf g" "group_set_wf g0"
    and "length (agd_name r) = 32" "length (agd_name r0) = 32" "group_member_wf m" "group_member_wf m0"
    and "page_wf 1 group_entry_wf p" "page_wf 1 group_entry_wf p0"
  shows "delivers AdminBridgeSetMessage_Encode AdminBridgeSetMessage_Decode kMESSAGE_TYPE_ADMIN_BRIDGE_SET
      (bridge_set_valid s) 420 (bridge_set_received s0 s) s s0 buf \<and>
    delivers AdminBridgeDeleteMessage_Encode AdminBridgeDeleteMessage_Decode kMESSAGE_TYPE_ADMIN_BRIDGE_DELETE
      (isBridgeEndpointValid (abd_source d) \<and> isBridgeEndpointValid (abd_destination d)) 288
      (bridge_delete_received d0 d) d d0 buf \<and>
    delivers AdminBridgeListReplyMessage_Encode AdminBridgeListReplyMessage_Decode kMESSAGE_TYPE_ADMIN_BRIDGE_LIST_REPLY
      (page_valid 8 bridge_entry_valid l) (4 + 440 * unat (pg_count l)) (page_received bridge_entry_received l0 l) l l0 buf \<and>
    delivers AdminGroupSetMessage_Encode AdminGroupSetMessage_Decode kMESSAGE_TYPE_ADMIN_GROUP_SET
      (isGroupNameValid (ags_name g) \<and> unat (ags_filter_count g) \<le> 16) 164 (group_set_received g0 g) g g0 buf \<and>
    delivers AdminGroupDeleteMessage_Encode AdminGroupDeleteMessage_Decode kMESSAGE_TYPE_ADMIN_GROUP_DELETE
      (isGroupNameValid (agd_name r)) 32 (r\<lparr>agd_name := name_field 32 (agd_name r)\<rparr>) r r0 buf \<and>
    delivers (AdminGroupMemberMessage_Encode t) AdminGroupMemberMessage_Decode t
      (group_member_valid t m) 244 (group_member_received m0 m) m m0 buf \<and>
    delivers AdminGroupListReplyMessage_Encode AdminGroupListReplyMessage_Decode kMESSAGE_TYPE_ADMIN_GROUP_LIST_REPLY
      (page_valid 1 group_entry_valid p) (4 + 3640 * unat (pg_count p)) (page_received group_entry_received p0 p) p p0 buf"
  unfolding AdminBridgeListReplyMessage_Encode_def AdminBridgeListReplyMessage_Decode_def
    AdminGroupListReplyMessage_Encode_def AdminGroupListReplyMessage_Decode_def
  using assms
  by (intro conjI bridge_set.delivers_sized bridge_delete.delivers_sized bridge_page.page_delivers group_set.delivers_sized
      group_delete.delivers_sized group_member.delivers_sized group_page.page_delivers)
    (simp_all add: bridge_set_body_def bridge_set_wf_def bridge_set_valid_def group_set_body_def group_set_wf_def
      group_member_body_def group_member_wf_def group_member_valid_def)

theorem admin_bridge_messages_delivered_witness:
  "let e = \<lparr>abe_agent_name = name_field 128 [97], abe_interface_name = name_field 16 [99]\<rparr>;
      d = \<lparr>abd_source = e, abd_destination = e\<rparr>
   in isBridgeEndpointValid e \<and>
      delivers AdminBridgeDeleteMessage_Encode AdminBridgeDeleteMessage_Decode kMESSAGE_TYPE_ADMIN_BRIDGE_DELETE
        True 288 (bridge_delete_received d d) d d (replicate 300 0)"
proof -
  let ?e = "\<lparr>abe_agent_name = name_field 128 [97], abe_interface_name = name_field 16 [99]\<rparr>" and ?n = "name_field 32 [103]"
  let ?fs = "replicate 16 \<lparr>flt_can_id = 1, flt_can_mask = 7\<rparr>" and ?hs = "replicate 8 \<lparr>flt_can_id = 1, flt_can_mask = 7\<rparr>"
  let ?s = "\<lparr>abs_source = ?e, abs_destination = ?e, abs_filter_count = 1, abs_filters = ?fs\<rparr>"
    and ?d = "\<lparr>abd_source = ?e, abd_destination = ?e\<rparr>"
    and ?l = "sample_page 8 \<lparr>abl_source = ?e, abl_destination = ?e, abl_filter_count = 1, abl_state = 3, abl_filters = ?fs,
      abl_forwarded = 0, abl_dropped = 0\<rparr>"
    and ?g = "\<lparr>ags_name = ?n, ags_filter_count = 1, ags_filters = ?fs\<rparr>" and ?r = "\<lparr>agd_name = ?n\<rparr>"
    and ?m = "\<lparr>agm_name = ?n, agm_member = ?e, agm_direction = 0, agm_filter_count = 1, agm_filters = ?hs\<rparr>"
    and ?p = "sample_page 1 \<lparr>agl_name = ?n, agl_filter_count = 1, agl_member_count = 0, agl_filters = ?fs, agl_forwarded = 0,
      agl_dropped = 0, agl_members = replicate 16 \<lparr>gm_endpoint = ?e, gm_state = 0, gm_direction = 0, gm_filter_count = 0, gm_filters = ?hs\<rparr>\<rparr>"
  have wf: "bridge_set_wf ?s" "bridge_delete_wf ?d" "group_set_wf ?g" "length (agd_name ?r) = 32" "group_member_wf ?m"
    by (simp_all add: bridge_set_wf_def bridge_delete_wf_def group_set_wf_def group_member_wf_def endpoint_wf_def)
  have l: "page_wf 8 bridge_entry_wf ?l" and p: "page_wf 1 group_entry_wf ?p"
    by (rule sample_page_wf, simp add: bridge_entry_wf_def group_entry_wf_def member_wf_def endpoint_wf_def list_all_iff)+
  have "isBridgeEndpointValid ?e"
    by (simp add: isBridgeEndpointValid_def isNameTerminated_def) (simp add: name_field_def zero_pad_def cstr_def)
  then show ?thesis
    using admin_bridge_messages_delivered [OF wf(1,1,2,2) l l wf(3,3,4,4,5,5) p p, of "replicate 300 0" 0]
    unfolding Let_def by simp
qed

end
