(* ===== verification/IfconfigMessages.thy ===== *)
theory IfconfigMessages
  imports ControlMessages
begin

text \<open>
  Remote configuration of CAN interfaces (\<open>protocol/ifconfig_message.c\<close>): the settings block
  the four messages share, CONFIGURE between a requester and the hub and IFCONFIG between the
  hub and the agent, with their replies.
\<close>

section \<open>Interface settings\<close>

abbreviation (input) kMESSAGE_TYPE_IFCONFIG :: u8 where "kMESSAGE_TYPE_IFCONFIG \<equiv> 0x0B"
abbreviation (input) kMESSAGE_TYPE_IFCONFIG_REPLY :: u8 where "kMESSAGE_TYPE_IFCONFIG_REPLY \<equiv> 0x0C"
abbreviation (input) kMESSAGE_TYPE_CONFIGURE :: u8 where "kMESSAGE_TYPE_CONFIGURE \<equiv> 0x0E"
abbreviation (input) kMESSAGE_TYPE_CONFIGURE_REPLY :: u8 where "kMESSAGE_TYPE_CONFIGURE_REPLY \<equiv> 0x0F"
abbreviation (input) IFCONFIG_DETAIL_SIZE :: nat where "IFCONFIG_DETAIL_SIZE \<equiv> 64"
abbreviation (input) IFCONFIG_BODY_SIZE :: nat where "IFCONFIG_BODY_SIZE \<equiv> 112"
abbreviation (input) IFCONFIG_REPLY_BODY_SIZE :: nat where "IFCONFIG_REPLY_BODY_SIZE \<equiv> 160"
abbreviation (input) CONFIGURE_BODY_SIZE :: nat where "CONFIGURE_BODY_SIZE \<equiv> 236"
abbreviation (input) CONFIGURE_REPLY_BODY_SIZE :: nat where "CONFIGURE_REPLY_BODY_SIZE \<equiv> 156"
abbreviation (input) INTERFACE_SAMPLE_POINT_MAX :: u16 where "INTERFACE_SAMPLE_POINT_MAX \<equiv> 1000"

record InterfaceBitTiming =
  bt_tq :: u32
  bt_prop_seg :: u32
  bt_phase_seg1 :: u32
  bt_phase_seg2 :: u32
  bt_sjw :: u32
  bt_brp :: u32

record InterfaceSettings =
  is_fields :: u32
  is_bitrate :: u32
  is_data_bitrate :: u32
  is_sample_point :: u16
  is_data_sample_point :: u16
  is_ctrlmode_mask :: u32
  is_ctrlmode_flags :: u32
  is_restart_ms :: u32
  is_txqueuelen :: u32
  is_link_up :: bool
  is_can_state :: u8
  is_termination :: u16
  is_bit_timing :: InterfaceBitTiming
  is_data_bit_timing :: InterfaceBitTiming

definition namesRawTiming :: "InterfaceBitTiming \<Rightarrow> bool" where
  "namesRawTiming timing \<longleftrightarrow> bt_tq timing \<noteq> 0 \<or> bt_brp timing \<noteq> 0"

definition InterfaceSettings_HasTimingConflict :: "InterfaceSettings \<Rightarrow> bool" where
  "InterfaceSettings_HasTimingConflict self =
     (let nominal_raw = bit (is_fields self) 9 \<and> namesRawTiming (is_bit_timing self);
          data_raw = bit (is_fields self) 10 \<and> namesRawTiming (is_data_bit_timing self)
      in if nominal_raw \<and> is_fields self AND 0x3 \<noteq> 0 then True
         else data_raw \<and> is_fields self AND 0xC \<noteq> 0)"

definition writeBitTiming :: "bytes \<Rightarrow> nat \<Rightarrow> InterfaceBitTiming \<Rightarrow> bytes" where
  "writeBitTiming b off timing =
     (let b = Wire_WriteU32 b (off + 0) (bt_tq timing);
          b = Wire_WriteU32 b (off + 4) (bt_prop_seg timing);
          b = Wire_WriteU32 b (off + 8) (bt_phase_seg1 timing);
          b = Wire_WriteU32 b (off + 12) (bt_phase_seg2 timing);
          b = Wire_WriteU32 b (off + 16) (bt_sjw timing)
      in Wire_WriteU32 b (off + 20) (bt_brp timing))"

definition readBitTiming :: "InterfaceBitTiming \<Rightarrow> bytes \<Rightarrow> nat \<Rightarrow> InterfaceBitTiming" where
  "readBitTiming timing p off = timing\<lparr>
     bt_tq := Wire_ReadU32 p (off + 0), bt_prop_seg := Wire_ReadU32 p (off + 4),
     bt_phase_seg1 := Wire_ReadU32 p (off + 8), bt_phase_seg2 := Wire_ReadU32 p (off + 12),
     bt_sjw := Wire_ReadU32 p (off + 16), bt_brp := Wire_ReadU32 p (off + 20)\<rparr>"

definition writeSettings :: "bytes \<Rightarrow> nat \<Rightarrow> InterfaceSettings \<Rightarrow> bytes" where
  "writeSettings b off settings =
     (let b = Wire_WriteU32 b (off + 0) (is_fields settings);
          b = Wire_WriteU32 b (off + 4) (is_bitrate settings);
          b = Wire_WriteU32 b (off + 8) (is_data_bitrate settings);
          b = Wire_WriteU16 b (off + 12) (is_sample_point settings);
          b = Wire_WriteU16 b (off + 14) (is_data_sample_point settings);
          b = Wire_WriteU32 b (off + 16) (is_ctrlmode_mask settings);
          b = Wire_WriteU32 b (off + 20) (is_ctrlmode_flags settings);
          b = Wire_WriteU32 b (off + 24) (is_restart_ms settings);
          b = Wire_WriteU32 b (off + 28) (is_txqueuelen settings);
          b = mem_write b (off + 32) [if is_link_up settings then 1 else 0];
          b = mem_write b (off + 33) [is_can_state settings];
          b = Wire_WriteU16 b (off + 34) (is_termination settings);
          b = writeBitTiming b (off + 36) (is_bit_timing settings)
      in writeBitTiming b (off + 60) (is_data_bit_timing settings))"

definition readSettings :: "InterfaceSettings \<Rightarrow> bytes \<Rightarrow> nat \<Rightarrow> bool \<times> InterfaceSettings" where
  "readSettings settings p off =
     (let settings = settings\<lparr>
            is_fields := Wire_ReadU32 p (off + 0), is_bitrate := Wire_ReadU32 p (off + 4),
            is_data_bitrate := Wire_ReadU32 p (off + 8), is_sample_point := Wire_ReadU16 p (off + 12),
            is_data_sample_point := Wire_ReadU16 p (off + 14), is_ctrlmode_mask := Wire_ReadU32 p (off + 16),
            is_ctrlmode_flags := Wire_ReadU32 p (off + 20), is_restart_ms := Wire_ReadU32 p (off + 24),
            is_txqueuelen := Wire_ReadU32 p (off + 28), is_link_up := p ! (off + 32) \<noteq> 0,
            is_can_state := p ! (off + 33), is_termination := Wire_ReadU16 p (off + 34),
            is_bit_timing := readBitTiming (is_bit_timing settings) p (off + 36),
            is_data_bit_timing := readBitTiming (is_data_bit_timing settings) p (off + 60)\<rparr>
      in if INTERFACE_SAMPLE_POINT_MAX < is_sample_point settings then (False, settings)
         else (is_data_sample_point settings \<le> INTERFACE_SAMPLE_POINT_MAX, settings))"

definition copyName :: "bytes \<Rightarrow> nat \<Rightarrow> nat \<Rightarrow> bytes" where
  "copyName source off n = mem_write (mem_read source off n) (n - 1) [0]"

definition writeText :: "bytes \<Rightarrow> nat \<Rightarrow> bytes \<Rightarrow> nat \<Rightarrow> bytes" where
  "writeText b off content n = mem_write b off (take (strnlen content (n - 1)) content)"

section \<open>The messages\<close>

record IfconfigMessage =
  ifc_request_id :: u32
  ifc_interface_name :: bytes
  ifc_op :: u8
  ifc_settings :: InterfaceSettings

record IfconfigReplyMessage =
  ifr_request_id :: u32
  ifr_status :: u8
  ifr_settings :: InterfaceSettings
  ifr_detail :: bytes

record ConfigureMessage =
  cfg_agent_name :: bytes
  cfg_interface_name :: bytes
  cfg_op :: u8
  cfg_settings :: InterfaceSettings

record ConfigureReplyMessage =
  cfr_status :: u8
  cfr_settings :: InterfaceSettings
  cfr_detail :: bytes

definition IfconfigMessage_Encode :: "IfconfigMessage \<Rightarrow> bytes \<Rightarrow> nat \<times> bytes" where
  "IfconfigMessage_Encode self buffer =
     (if ifc_interface_name self ! (REGISTER_INTERFACE_NAME_SIZE - 1) \<noteq> 0 then (0, buffer)
      else case encodeFixedBody kMESSAGE_TYPE_IFCONFIG IFCONFIG_BODY_SIZE buffer of (n, b) \<Rightarrow>
        if n = 0 then (0, b)
        else
          let body = MESSAGE_HEADER_SIZE;
              b = Wire_WriteU32 b (body + 0) (ifc_request_id self);
              b = write_text b (body + 4) (ifc_interface_name self);
              b = mem_write b (body + 20) [ifc_op self];
              b = writeSettings b (body + 24) (ifc_settings self)
          in (MESSAGE_HEADER_SIZE + IFCONFIG_BODY_SIZE, b))"

definition IfconfigMessage_Decode :: "IfconfigMessage \<Rightarrow> bytes \<Rightarrow> bool \<times> IfconfigMessage" where
  "IfconfigMessage_Decode self payload =
     (if length payload < IFCONFIG_BODY_SIZE then (False, self)
      else
        let self = self\<lparr>ifc_request_id := Wire_ReadU32 payload 0,
              ifc_interface_name := copyName payload 4 REGISTER_INTERFACE_NAME_SIZE, ifc_op := payload ! 20\<rparr>;
            (ok, settings) = readSettings (ifc_settings self) payload 24
        in (ok, self\<lparr>ifc_settings := settings\<rparr>))"

definition IfconfigReplyMessage_Encode :: "IfconfigReplyMessage \<Rightarrow> bytes \<Rightarrow> nat \<times> bytes" where
  "IfconfigReplyMessage_Encode self buffer =
     (case encodeFixedBody kMESSAGE_TYPE_IFCONFIG_REPLY IFCONFIG_REPLY_BODY_SIZE buffer of (n, b) \<Rightarrow>
        if n = 0 then (0, b)
        else
          let body = MESSAGE_HEADER_SIZE;
              b = Wire_WriteU32 b (body + 0) (ifr_request_id self);
              b = mem_write b (body + 4) [ifr_status self];
              b = writeSettings b (body + 8) (ifr_settings self);
              b = writeText b (body + 96) (ifr_detail self) IFCONFIG_DETAIL_SIZE
          in (MESSAGE_HEADER_SIZE + IFCONFIG_REPLY_BODY_SIZE, b))"

definition IfconfigReplyMessage_Decode :: "IfconfigReplyMessage \<Rightarrow> bytes \<Rightarrow> bool \<times> IfconfigReplyMessage" where
  "IfconfigReplyMessage_Decode self payload =
     (if length payload < IFCONFIG_REPLY_BODY_SIZE then (False, self)
      else
        let self = self\<lparr>ifr_request_id := Wire_ReadU32 payload 0, ifr_status := payload ! 4,
              ifr_detail := copyName payload 96 IFCONFIG_DETAIL_SIZE\<rparr>;
            (ok, settings) = readSettings (ifr_settings self) payload 8
        in (ok, self\<lparr>ifr_settings := settings\<rparr>))"

definition ConfigureMessage_Encode :: "ConfigureMessage \<Rightarrow> bytes \<Rightarrow> nat \<times> bytes" where
  "ConfigureMessage_Encode self buffer =
     (if cfg_agent_name self ! (REGISTER_AGENT_NAME_SIZE - 1) \<noteq> 0 then (0, buffer)
      else if cfg_interface_name self ! (REGISTER_INTERFACE_NAME_SIZE - 1) \<noteq> 0 then (0, buffer)
      else case encodeFixedBody kMESSAGE_TYPE_CONFIGURE CONFIGURE_BODY_SIZE buffer of (n, b) \<Rightarrow>
        if n = 0 then (0, b)
        else
          let body = MESSAGE_HEADER_SIZE;
              b = write_text b (body + 0) (cfg_agent_name self);
              b = write_text b (body + 128) (cfg_interface_name self);
              b = mem_write b (body + 144) [cfg_op self];
              b = writeSettings b (body + 148) (cfg_settings self)
          in (MESSAGE_HEADER_SIZE + CONFIGURE_BODY_SIZE, b))"

definition ConfigureMessage_Decode :: "ConfigureMessage \<Rightarrow> bytes \<Rightarrow> bool \<times> ConfigureMessage" where
  "ConfigureMessage_Decode self payload =
     (if length payload < CONFIGURE_BODY_SIZE then (False, self)
      else
        let self = self\<lparr>cfg_agent_name := copyName payload 0 REGISTER_AGENT_NAME_SIZE,
              cfg_interface_name := copyName payload 128 REGISTER_INTERFACE_NAME_SIZE, cfg_op := payload ! 144\<rparr>;
            (ok, settings) = readSettings (cfg_settings self) payload 148
        in (ok, self\<lparr>cfg_settings := settings\<rparr>))"

definition ConfigureReplyMessage_Encode :: "ConfigureReplyMessage \<Rightarrow> bytes \<Rightarrow> nat \<times> bytes" where
  "ConfigureReplyMessage_Encode self buffer =
     (case encodeFixedBody kMESSAGE_TYPE_CONFIGURE_REPLY CONFIGURE_REPLY_BODY_SIZE buffer of (n, b) \<Rightarrow>
        if n = 0 then (0, b)
        else
          let body = MESSAGE_HEADER_SIZE;
              b = mem_write b (body + 0) [cfr_status self];
              b = writeSettings b (body + 4) (cfr_settings self);
              b = writeText b (body + 92) (cfr_detail self) IFCONFIG_DETAIL_SIZE
          in (MESSAGE_HEADER_SIZE + CONFIGURE_REPLY_BODY_SIZE, b))"

definition ConfigureReplyMessage_Decode :: "ConfigureReplyMessage \<Rightarrow> bytes \<Rightarrow> bool \<times> ConfigureReplyMessage" where
  "ConfigureReplyMessage_Decode self payload =
     (if length payload < CONFIGURE_REPLY_BODY_SIZE then (False, self)
      else
        let self = self\<lparr>cfr_status := payload ! 0, cfr_detail := copyName payload 92 IFCONFIG_DETAIL_SIZE\<rparr>;
            (ok, settings) = readSettings (cfr_settings self) payload 4
        in (ok, self\<lparr>cfr_settings := settings\<rparr>))"

section \<open>The layout of the settings block\<close>

definition bit_timing_image :: "InterfaceBitTiming \<Rightarrow> bytes" where
  "bit_timing_image t = le32 (bt_tq t) @ le32 (bt_prop_seg t) @ le32 (bt_phase_seg1 t) @
     le32 (bt_phase_seg2 t) @ le32 (bt_sjw t) @ le32 (bt_brp t)"

definition settings_image :: "InterfaceSettings \<Rightarrow> bytes" where
  "settings_image s = le32 (is_fields s) @ le32 (is_bitrate s) @ le32 (is_data_bitrate s) @
     le16 (is_sample_point s) @ le16 (is_data_sample_point s) @ le32 (is_ctrlmode_mask s) @
     le32 (is_ctrlmode_flags s) @ le32 (is_restart_ms s) @ le32 (is_txqueuelen s) @
     [if is_link_up s then 1 else 0, is_can_state s] @ le16 (is_termination s) @
     bit_timing_image (is_bit_timing s) @ bit_timing_image (is_data_bit_timing s) @ replicate 4 0"

definition settings_in_range :: "InterfaceSettings \<Rightarrow> bool" where
  "settings_in_range s \<longleftrightarrow>
     is_sample_point s \<le> INTERFACE_SAMPLE_POINT_MAX \<and> is_data_sample_point s \<le> INTERFACE_SAMPLE_POINT_MAX"

lemma length_settings [simp, layout]:
  "length (bit_timing_image t) = 24" "length (settings_image s) = 88"
  by (simp_all add: bit_timing_image_def settings_image_def)

lemma writeBitTiming_image [layout]:
  "writeBitTiming (replicate 24 0 @ ys) 0 t = bit_timing_image t @ ys"
  "writeBitTiming (replicate 24 0) 0 t = bit_timing_image t"
proof -
  have z: "replicate 24 (0 :: u8) = zero_fields [4, 4, 4, 4, 4, 4]"
    unfolding zero_fields_sum by simp
  show "writeBitTiming (replicate 24 0 @ ys) 0 t = bit_timing_image t @ ys" for ys
    unfolding writeBitTiming_def Let_def z by (simp add: layout bit_timing_image_def)
  from this [of "[]"] show "writeBitTiming (replicate 24 0) 0 t = bit_timing_image t"
    by simp
qed

lemma writeBitTiming_skip [layout]:
  "length xs \<le> n \<Longrightarrow> writeBitTiming (xs @ ys) n t = xs @ writeBitTiming ys (n - length xs) t"
proof -
  assume "length xs \<le> n"
  then obtain k where "n = length xs + k"
    by (metis le_add_diff_inverse)
  then show ?thesis
    by (simp add: writeBitTiming_def Wire_Write_skip add.assoc Let_def)
qed

lemma writeBitTiming_skip_Cons [layout]:
  "0 < n \<Longrightarrow> writeBitTiming (x # ys) n t = x # writeBitTiming ys (n - 1) t"
  using writeBitTiming_skip [of "[x]" n ys t] by simp

lemma readBitTiming_image [layout]: "readBitTiming old (bit_timing_image t @ ys) 0 = t"
  "readBitTiming old (bit_timing_image t) 0 = t"
  by (simp_all add: readBitTiming_def bit_timing_image_def layout)

lemma readBitTiming_skip [layout]:
  "length xs \<le> n \<Longrightarrow> readBitTiming old (xs @ ys) n = readBitTiming old ys (n - length xs)"
  by (simp add: readBitTiming_def layout)

lemma readBitTiming_skip_Cons [layout]:
  "0 < n \<Longrightarrow> readBitTiming old (x # ys) n = readBitTiming old ys (n - 1)"
  using readBitTiming_skip [of "[x]" n old ys] by simp

lemma writeSettings_image [layout]:
  "writeSettings (replicate 88 0 @ ys) 0 s = settings_image s @ ys"
  "writeSettings (replicate 88 0) 0 s = settings_image s"
proof -
  have z: "replicate 88 (0 :: u8) = zero_fields [4, 4, 4, 2, 2, 4, 4, 4, 4, 4, 24, 24, 4]"
    unfolding zero_fields_sum by simp
  show "writeSettings (replicate 88 0 @ ys) 0 s = settings_image s @ ys" for ys
    unfolding writeSettings_def Let_def z by (cases "is_link_up s") (simp_all add: layout settings_image_def)
  from this [of "[]"] show "writeSettings (replicate 88 0) 0 s = settings_image s"
    by simp
qed

lemma writeBitTiming_skip_length:
  "writeBitTiming (xs @ ys) (length xs + k) t = xs @ writeBitTiming ys k t"
  by (simp add: writeBitTiming_skip)

lemma writeSettings_skip [layout]:
  "length xs \<le> n \<Longrightarrow> writeSettings (xs @ ys) n s = xs @ writeSettings ys (n - length xs) s"
proof -
  assume "length xs \<le> n"
  then obtain k where "n = length xs + k"
    by (metis le_add_diff_inverse)
  then show ?thesis
    by (simp add: writeSettings_def Wire_Write_skip writeBitTiming_skip_length mem_write_skip add.assoc Let_def)
qed

lemma writeSettings_skip_Cons [layout]:
  "0 < n \<Longrightarrow> writeSettings (x # ys) n s = x # writeSettings ys (n - 1) s"
  using writeSettings_skip [of "[x]" n ys s] by simp

lemma readSettings_image [layout]:
  "readSettings old (settings_image s @ ys) 0 = (settings_in_range s, s)"
  "readSettings old (settings_image s) 0 = (settings_in_range s, s)"
  by (cases "is_link_up s"; simp add: readSettings_def settings_image_def settings_in_range_def layout Let_def; fastforce)+

lemma readSettings_skip [layout]:
  "length xs \<le> n \<Longrightarrow> readSettings old (xs @ ys) n = readSettings old ys (n - length xs)"
  by (simp add: readSettings_def layout)

lemma readSettings_skip_Cons [layout]:
  "0 < n \<Longrightarrow> readSettings old (x # ys) n = readSettings old ys (n - 1)"
  using readSettings_skip [of "[x]" n old ys] by simp

lemma copyName_skip [layout]:
  "length xs \<le> n \<Longrightarrow> copyName (xs @ ys) n k = copyName ys (n - length xs) k"
  "0 < n \<Longrightarrow> copyName (x # ys) n k = copyName ys (n - 1) k"
  by (simp_all add: copyName_def layout)

lemma copyName_field [layout]:
  "0 < n \<Longrightarrow> copyName (name_field n a @ ys) 0 n = name_field n a"
  "0 < n \<Longrightarrow> copyName (name_field n a) 0 n = name_field n a"
  by (simp_all add: copyName_def layout)

lemma writeText_skip [layout]:
  "length xs \<le> off \<Longrightarrow> writeText (xs @ ys) off a n = xs @ writeText ys (off - length xs) a n"
  "0 < off \<Longrightarrow> writeText (x # ys) off a n = x # writeText ys (off - 1) a n"
  by (simp_all add: writeText_def layout)

lemma writeText_field [layout]:
  "0 < n \<Longrightarrow> writeText (replicate n 0 @ ys) 0 a n = name_field n a @ ys"
  "0 < n \<Longrightarrow> writeText (replicate n 0) 0 a n = name_field n a"
  by (simp_all add: writeText_def layout)

section \<open>The messages on the wire\<close>

definition ifconfig_body :: "IfconfigMessage \<Rightarrow> bytes" where
  "ifconfig_body m = le32 (ifc_request_id m) @ name_field 16 (ifc_interface_name m) @ [ifc_op m] @ replicate 3 0 @
     settings_image (ifc_settings m)"

definition ifconfig_reply_body :: "IfconfigReplyMessage \<Rightarrow> bytes" where
  "ifconfig_reply_body m = le32 (ifr_request_id m) @ [ifr_status m] @ replicate 3 0 @
     settings_image (ifr_settings m) @ name_field 64 (ifr_detail m)"

definition configure_body :: "ConfigureMessage \<Rightarrow> bytes" where
  "configure_body m = name_field 128 (cfg_agent_name m) @ name_field 16 (cfg_interface_name m) @ [cfg_op m] @
     replicate 3 0 @ settings_image (cfg_settings m)"

definition configure_reply_body :: "ConfigureReplyMessage \<Rightarrow> bytes" where
  "configure_reply_body m = [cfr_status m] @ replicate 3 0 @ settings_image (cfr_settings m) @ name_field 64 (cfr_detail m)"

definition configure_named :: "ConfigureMessage \<Rightarrow> bool" where
  "configure_named m \<longleftrightarrow> cfg_agent_name m ! 127 = 0 \<and> cfg_interface_name m ! 15 = 0"

lemma length_configuration_bodies [simp]:
  "length (ifconfig_body m) = 112" "length (ifconfig_reply_body r) = 160"
  "length (configure_body c) = 236" "length (configure_reply_body d) = 156"
  by (simp_all add: ifconfig_body_def ifconfig_reply_body_def configure_body_def configure_reply_body_def)

lemma configuration_decoded:
  "IfconfigMessage_Decode oldm (ifconfig_body m) =
     (settings_in_range (ifc_settings m), m\<lparr>ifc_interface_name := name_field 16 (ifc_interface_name m)\<rparr>)"
  "IfconfigReplyMessage_Decode oldr (ifconfig_reply_body r) =
     (settings_in_range (ifr_settings r), r\<lparr>ifr_detail := name_field 64 (ifr_detail r)\<rparr>)"
  "ConfigureMessage_Decode oldc (configure_body c) =
     (settings_in_range (cfg_settings c), c\<lparr>cfg_agent_name := name_field 128 (cfg_agent_name c),
        cfg_interface_name := name_field 16 (cfg_interface_name c)\<rparr>)"
  "ConfigureReplyMessage_Decode oldd (configure_reply_body d) =
     (settings_in_range (cfr_settings d), d\<lparr>cfr_detail := name_field 64 (cfr_detail d)\<rparr>)"
  unfolding IfconfigMessage_Decode_def IfconfigReplyMessage_Decode_def ConfigureMessage_Decode_def
    ConfigureReplyMessage_Decode_def length_configuration_bodies
  by (simp_all add: ifconfig_body_def ifconfig_reply_body_def configure_body_def configure_reply_body_def layout Let_def)

lemma IfconfigMessage_encoded:
  assumes "length (ifc_interface_name m) = 16"
  shows "IfconfigMessage_Encode m buf = framed kMESSAGE_TYPE_IFCONFIG (ifc_interface_name m ! 15 = 0) (ifconfig_body m) buf"
proof -
  have fits: "ifc_interface_name m ! 15 = 0 \<Longrightarrow> length (cstr (ifc_interface_name m)) < 16"
    using assms terminated_strlen [of "ifc_interface_name m" 16] by simp
  show ?thesis
    unfolding framed_def length_configuration_bodies IfconfigMessage_Encode_def Let_def encodeFixedBody_begin
    using fits by (simp add: message_begin_fields [of 112 _ "[4, 16, 4, 88]"] layout ifconfig_body_def)
qed

lemma IfconfigReplyMessage_encoded:
  "IfconfigReplyMessage_Encode m buf = framed kMESSAGE_TYPE_IFCONFIG_REPLY True (ifconfig_reply_body m) buf"
  unfolding framed_def length_configuration_bodies IfconfigReplyMessage_Encode_def Let_def encodeFixedBody_begin
  by (simp add: message_begin_fields [of 160 _ "[4, 4, 88, 64]"] layout ifconfig_reply_body_def)

lemma ConfigureMessage_encoded:
  assumes "length (cfg_agent_name m) = 128" and "length (cfg_interface_name m) = 16"
  shows "ConfigureMessage_Encode m buf = framed kMESSAGE_TYPE_CONFIGURE (configure_named m) (configure_body m) buf"
proof -
  have fits: "configure_named m \<Longrightarrow> length (cstr (cfg_agent_name m)) < 128 \<and> length (cstr (cfg_interface_name m)) < 16"
    using assms terminated_strlen [of "cfg_agent_name m" 128] terminated_strlen [of "cfg_interface_name m" 16]
    by (simp add: configure_named_def)
  show ?thesis
    unfolding framed_def length_configuration_bodies ConfigureMessage_Encode_def Let_def encodeFixedBody_begin
    using fits by (auto simp: configure_named_def message_begin_fields [of 236 _ "[128, 16, 4, 88]"] layout configure_body_def)
qed

lemma ConfigureReplyMessage_encoded:
  "ConfigureReplyMessage_Encode m buf = framed kMESSAGE_TYPE_CONFIGURE_REPLY True (configure_reply_body m) buf"
  unfolding framed_def length_configuration_bodies ConfigureReplyMessage_Encode_def Let_def encodeFixedBody_begin
  by (simp add: message_begin_fields [of 156 _ "[4, 88, 64]"] layout configure_reply_body_def)

lemmas configuration_encoded = IfconfigMessage_encoded IfconfigReplyMessage_encoded ConfigureMessage_encoded
  ConfigureReplyMessage_encoded

interpretation ifconfig: message_codec IfconfigMessage_Encode IfconfigMessage_Decode kMESSAGE_TYPE_IFCONFIG
  "\<lambda>m. length (ifc_interface_name m) = 16 \<and> settings_in_range (ifc_settings m)"
  "\<lambda>m. ifc_interface_name m ! 15 = 0" ifconfig_body
  "\<lambda>old m. m\<lparr>ifc_interface_name := name_field 16 (ifc_interface_name m)\<rparr>"
  by unfold_locales (simp_all add: configuration_encoded framed_def configuration_decoded)

interpretation ifconfig_reply: message_codec IfconfigReplyMessage_Encode IfconfigReplyMessage_Decode
  kMESSAGE_TYPE_IFCONFIG_REPLY "\<lambda>m. settings_in_range (ifr_settings m)" "\<lambda>m. True" ifconfig_reply_body
  "\<lambda>old m. m\<lparr>ifr_detail := name_field 64 (ifr_detail m)\<rparr>"
  by unfold_locales (simp_all add: configuration_encoded framed_def configuration_decoded)

interpretation configure: message_codec ConfigureMessage_Encode ConfigureMessage_Decode kMESSAGE_TYPE_CONFIGURE
  "\<lambda>m. length (cfg_agent_name m) = 128 \<and> length (cfg_interface_name m) = 16 \<and> settings_in_range (cfg_settings m)"
  configure_named configure_body
  "\<lambda>old m. m\<lparr>cfg_agent_name := name_field 128 (cfg_agent_name m), cfg_interface_name := name_field 16 (cfg_interface_name m)\<rparr>"
  by unfold_locales (simp_all add: configuration_encoded framed_def configuration_decoded)

interpretation configure_reply: message_codec ConfigureReplyMessage_Encode ConfigureReplyMessage_Decode
  kMESSAGE_TYPE_CONFIGURE_REPLY "\<lambda>m. settings_in_range (cfr_settings m)" "\<lambda>m. True" configure_reply_body
  "\<lambda>old m. m\<lparr>cfr_detail := name_field 64 (cfr_detail m)\<rparr>"
  by unfold_locales (simp_all add: configuration_encoded framed_def configuration_decoded)

section \<open>Properties\<close>

text \<open>
  C33. CONFIGURE, IFCONFIG and their replies carry the settings of an interface unchanged, every
  one of the 24 values included, with names cut at their field and texts at 63 bytes.  A request
  is refused by the encoder exactly when a name is not terminated or the buffer is too small; a
  reply only when the buffer is too small.
\<close>

theorem configuration_messages_delivered:
  assumes "length (ifc_interface_name m) = 16" and "settings_in_range (ifc_settings m)"
    and "length (ifc_interface_name oldm) = 16" and "settings_in_range (ifc_settings oldm)"
    and "settings_in_range (ifr_settings r)" and "settings_in_range (ifr_settings oldr)"
    and "length (cfg_agent_name c) = 128" and "length (cfg_interface_name c) = 16" and "settings_in_range (cfg_settings c)"
    and "length (cfg_agent_name oldc) = 128" and "length (cfg_interface_name oldc) = 16" and "settings_in_range (cfg_settings oldc)"
    and "settings_in_range (cfr_settings d)" and "settings_in_range (cfr_settings oldd)"
  shows "delivers IfconfigMessage_Encode IfconfigMessage_Decode kMESSAGE_TYPE_IFCONFIG (ifc_interface_name m ! 15 = 0) 112
      (m\<lparr>ifc_interface_name := name_field 16 (ifc_interface_name m)\<rparr>) m oldm buf \<and>
    delivers IfconfigReplyMessage_Encode IfconfigReplyMessage_Decode kMESSAGE_TYPE_IFCONFIG_REPLY True 160
      (r\<lparr>ifr_detail := name_field 64 (ifr_detail r)\<rparr>) r oldr buf \<and>
    delivers ConfigureMessage_Encode ConfigureMessage_Decode kMESSAGE_TYPE_CONFIGURE (configure_named c) 236
      (c\<lparr>cfg_agent_name := name_field 128 (cfg_agent_name c), cfg_interface_name := name_field 16 (cfg_interface_name c)\<rparr>)
      c oldc buf \<and>
    delivers ConfigureReplyMessage_Encode ConfigureReplyMessage_Decode kMESSAGE_TYPE_CONFIGURE_REPLY True 156
      (d\<lparr>cfr_detail := name_field 64 (cfr_detail d)\<rparr>) d oldd buf"
  using assms ifconfig.delivers_sized [of m oldm 112 buf] ifconfig_reply.delivers_sized [of r oldr 160 buf]
    configure.delivers_sized [of c oldc 236 buf] configure_reply.delivers_sized [of d oldd 156 buf]
  by simp

text \<open>
  C34. The encoders do not look at the sample points, the decoders do: a CONFIGURE, an IFCONFIG
  (with terminated names) and their replies are always encoded, at the announced size, and the
  receiver refuses each of the four exactly when a sample point is above 100 percent.
\<close>

theorem configuration_range_enforced_by_receiver:
  assumes "length (ifc_interface_name m) = 16" and "ifc_interface_name m ! 15 = 0"
    and "length (cfg_agent_name c) = 128" and "length (cfg_interface_name c) = 16" and "configure_named c"
    and "240 \<le> length buf"
  shows "(let (n, b) = IfconfigMessage_Encode m buf
     in n = 116 \<and> (fst (IfconfigMessage_Decode oldm (mem_read b 4 112)) \<longleftrightarrow> settings_in_range (ifc_settings m))) \<and>
    (let (n, b) = IfconfigReplyMessage_Encode r buf
     in n = 164 \<and> (fst (IfconfigReplyMessage_Decode oldr (mem_read b 4 160)) \<longleftrightarrow> settings_in_range (ifr_settings r))) \<and>
    (let (n, b) = ConfigureMessage_Encode c buf
     in n = 240 \<and> (fst (ConfigureMessage_Decode oldc (mem_read b 4 236)) \<longleftrightarrow> settings_in_range (cfg_settings c))) \<and>
    (let (n, b) = ConfigureReplyMessage_Encode d buf
     in n = 160 \<and> (fst (ConfigureReplyMessage_Decode oldd (mem_read b 4 156)) \<longleftrightarrow> settings_in_range (cfr_settings d)))"
  using assms by (simp add: configuration_encoded framed_def layout configuration_decoded)

section \<open>Witnesses\<close>

definition sample_timing :: InterfaceBitTiming where
  "sample_timing = \<lparr>bt_tq = 125, bt_prop_seg = 6, bt_phase_seg1 = 7, bt_phase_seg2 = 2, bt_sjw = 1, bt_brp = 5\<rparr>"

definition sample_settings :: "u16 \<Rightarrow> InterfaceSettings" where
  "sample_settings point = \<lparr>is_fields = 0x3, is_bitrate = 500000, is_data_bitrate = 2000000, is_sample_point = point,
     is_data_sample_point = 800, is_ctrlmode_mask = 0x20, is_ctrlmode_flags = 0x20, is_restart_ms = 100,
     is_txqueuelen = 10, is_link_up = True, is_can_state = 0, is_termination = 120,
     is_bit_timing = sample_timing, is_data_bit_timing = sample_timing\<rparr>"

definition sample_ifconfig :: "u16 \<Rightarrow> IfconfigMessage" where
  "sample_ifconfig point = \<lparr>ifc_request_id = 7, ifc_interface_name = zero_pad 16 [99, 97, 110, 48], ifc_op = 0,
     ifc_settings = sample_settings point\<rparr>"

definition sample_ifconfig_reply :: "u16 \<Rightarrow> IfconfigReplyMessage" where
  "sample_ifconfig_reply point = \<lparr>ifr_request_id = 7, ifr_status = 0, ifr_settings = sample_settings point,
     ifr_detail = zero_pad 64 [111, 107]\<rparr>"

definition sample_configure :: "u16 \<Rightarrow> ConfigureMessage" where
  "sample_configure point = \<lparr>cfg_agent_name = zero_pad 128 [97], cfg_interface_name = zero_pad 16 [99, 97, 110, 48],
     cfg_op = 0, cfg_settings = sample_settings point\<rparr>"

definition sample_configure_reply :: "u16 \<Rightarrow> ConfigureReplyMessage" where
  "sample_configure_reply point = \<lparr>cfr_status = 0, cfr_settings = sample_settings point, cfr_detail = zero_pad 64 [111, 107]\<rparr>"

lemmas sample_configuration = sample_ifconfig_def sample_ifconfig_reply_def sample_configure_def
  sample_configure_reply_def sample_settings_def settings_in_range_def zero_pad_def

theorem configuration_messages_delivered_witness:
  "delivers ConfigureMessage_Encode ConfigureMessage_Decode kMESSAGE_TYPE_CONFIGURE (configure_named (sample_configure 875)) 236
     ((sample_configure 875)\<lparr>cfg_agent_name := name_field 128 (cfg_agent_name (sample_configure 875)),
        cfg_interface_name := name_field 16 (cfg_interface_name (sample_configure 875))\<rparr>)
     (sample_configure 875) (sample_configure 0) (replicate 512 0) \<and> configure_named (sample_configure 875)"
  using configuration_messages_delivered [of "sample_ifconfig 875" "sample_ifconfig 0" "sample_ifconfig_reply 875"
      "sample_ifconfig_reply 0" "sample_configure 875" "sample_configure 0" "sample_configure_reply 875"
      "sample_configure_reply 0" "replicate 512 0"]
  by (simp add: sample_configuration configure_named_def)

theorem configuration_range_enforced_by_receiver_witness:
  "fst (IfconfigMessage_Encode (sample_ifconfig 1001) (replicate 240 0)) = 116 \<and>
   \<not> fst (IfconfigMessage_Decode (sample_ifconfig 0) (mem_read (snd (IfconfigMessage_Encode (sample_ifconfig 1001) (replicate 240 0))) 4 112)) \<and>
   fst (ConfigureMessage_Encode (sample_configure 1001) (replicate 240 0)) = 240 \<and>
   \<not> fst (ConfigureMessage_Decode (sample_configure 0) (mem_read (snd (ConfigureMessage_Encode (sample_configure 1001) (replicate 240 0))) 4 236))"
  using configuration_range_enforced_by_receiver [of "sample_ifconfig 1001" "sample_configure 1001" "replicate 240 0"
      "sample_ifconfig 0" "sample_ifconfig_reply 0" "sample_ifconfig_reply 0" "sample_configure 0"
      "sample_configure_reply 0" "sample_configure_reply 0"]
  by (simp add: split_beta sample_configuration configure_named_def)

end
