(* ===== verification/TxnMessages.thy ===== *)
theory TxnMessages
  imports FrameMessage
begin

text \<open>
  The messages of a transaction (\<open>protocol/txn_message.c\<close>): BEGIN and its acknowledgement, the
  templates and the roster that describe it, progress, status and abort.  Every body has a fixed
  size, starts with the channel and is written into zeroed memory.
\<close>

section \<open>Structures\<close>

abbreviation (input) TXN_ROSTER_MAX :: nat where "TXN_ROSTER_MAX \<equiv> 64"
abbreviation (input) TXN_TEMPLATES_MAX :: nat where "TXN_TEMPLATES_MAX \<equiv> 16"
abbreviation (input) kTXN_PATTERN_MAX :: nat where "kTXN_PATTERN_MAX \<equiv> 3"
abbreviation (input) kTXN_TEMPLATE_TYPE_ISOTP :: u8 where "kTXN_TEMPLATE_TYPE_ISOTP \<equiv> 1"
abbreviation (input) kTXN_BEGIN_STATUS_OK :: u8 where "kTXN_BEGIN_STATUS_OK \<equiv> 0"
abbreviation (input) kTXN_BEGIN_STATUS_BUSY :: u8 where "kTXN_BEGIN_STATUS_BUSY \<equiv> 1"
abbreviation (input) kTXN_BEGIN_STATUS_WRITE_DENIED :: u8 where "kTXN_BEGIN_STATUS_WRITE_DENIED \<equiv> 2"
abbreviation (input) kTXN_BEGIN_STATUS_UNSUPPORTED :: u8 where "kTXN_BEGIN_STATUS_UNSUPPORTED \<equiv> 3"
abbreviation (input) kTXN_BEGIN_STATUS_RELIABLE_CHANNEL_REQUIRED :: u8 where "kTXN_BEGIN_STATUS_RELIABLE_CHANNEL_REQUIRED \<equiv> 4"
abbreviation (input) kTXN_BEGIN_STATUS_INVALID :: u8 where "kTXN_BEGIN_STATUS_INVALID \<equiv> 5"
abbreviation (input) kTXN_STATE_DONE :: u8 where "kTXN_STATE_DONE \<equiv> 0"
abbreviation (input) kTXN_STATE_ABORTED :: u8 where "kTXN_STATE_ABORTED \<equiv> 1"
abbreviation (input) kTXN_REASON_AGENT_DISCONNECTED :: u8 where "kTXN_REASON_AGENT_DISCONNECTED \<equiv> 8"
abbreviation (input) kTXN_REASON_UNSUPPORTED :: u8 where "kTXN_REASON_UNSUPPORTED \<equiv> 15"

record TxnOriginExtractor =
  to_source :: u8
  to_shift :: u8
  to_payload_offset :: u8
  to_mask :: u32

record TxnKeepalive =
  tk_period_ms :: u32
  tk_can_id :: u32
  tk_payload_length :: u8
  tk_frame_flags :: u8
  tk_payload :: bytes

record TxnBeginMessage =
  tb_channel :: u8
  tb_flags :: u8
  tb_idle_timeout_ms :: u32
  tb_keepalive :: TxnKeepalive

record TxnBeginAckMessage =
  tba_channel :: u8
  tba_status :: u8
  tba_txn_id :: u16
  tba_window_bytes :: u32

record TxnPattern =
  tp_can_id :: u32
  tp_can_mask :: u32
  tp_payload_mask :: u64
  tp_payload_value :: u64

record TxnIsotpParameters =
  ti_response_id :: u32
  ti_flags :: u8
  ti_tx_address :: u8
  ti_rx_address :: u8
  ti_padding :: u8
  ti_tx_data_length :: u8
  ti_block_size :: u8
  ti_st_min :: u8

record TxnTemplateMessage =
  tt_channel :: u8
  tt_template_id :: u8
  tt_txn_id :: u16
  tt_advance_mode :: u8
  tt_flags :: u8
  tt_count_k :: u8
  tt_patterns_present :: u8
  tt_timeout_ms :: u32
  tt_gap_us :: u32
  tt_extend_timeout_ms :: u32
  tt_type :: u8
  tt_patterns :: "TxnPattern list"
  tt_isotp :: TxnIsotpParameters

record TxnProgressMessage =
  tpr_channel :: u8
  tpr_txn_id :: u16
  tpr_completed_steps :: u32
  tpr_consumed_bytes :: u32

record TxnRxFrame =
  trx_can_id :: u32
  trx_payload_length :: u8
  trx_frame_flags :: u8
  trx_payload :: bytes

record TxnStatusMessage =
  ts_channel :: u8
  ts_state :: u8
  ts_txn_id :: u16
  ts_failing_seq :: u32
  ts_offending_origin :: u32
  ts_seen_bitmap :: u64
  ts_expected :: u64
  ts_got :: u64
  ts_completed_steps :: u32
  ts_reason :: u8
  ts_flags :: u8
  ts_rx_frame :: TxnRxFrame

record TxnAbortMessage =
  tab_channel :: u8
  tab_txn_id :: u16

record TxnRosterMessage =
  tr_channel :: u8
  tr_txn_id :: u16
  tr_origin :: TxnOriginExtractor
  tr_roster_count :: u8
  tr_roster :: "u32 list"

record TxnRosterReportMessage =
  trr_channel :: u8
  trr_txn_id :: u16
  trr_seq :: u32
  trr_seen_bitmap :: u64

section \<open>Encoders and decoders\<close>

definition TxnMessage_SetChannel :: "bytes \<Rightarrow> u8 \<Rightarrow> bytes" where
  "TxnMessage_SetChannel encoded channel = mem_write encoded (MESSAGE_HEADER_SIZE + 0) [channel]"

definition TxnMessage_Channel :: "bytes \<Rightarrow> u8" where
  "TxnMessage_Channel payload = payload ! 0"

definition writeKeepalive :: "bytes \<Rightarrow> nat \<Rightarrow> TxnKeepalive \<Rightarrow> bytes" where
  "writeKeepalive b body keepalive =
     (let len = (if FRAME_PAYLOAD_MAX_FD < unat (tk_payload_length keepalive) then of_nat FRAME_PAYLOAD_MAX_FD
                 else tk_payload_length keepalive);
          b = Wire_WriteU32 b (body + 8) (tk_period_ms keepalive);
          b = Wire_WriteU32 b (body + 12) (tk_can_id keepalive);
          b = mem_write b (body + 16) [len];
          b = mem_write b (body + 17) [tk_frame_flags keepalive]
      in mem_write b (body + 20) (take (unat len) (tk_payload keepalive)))"

definition readKeepalive :: "bytes \<Rightarrow> TxnKeepalive \<Rightarrow> bool \<times> TxnKeepalive" where
  "readKeepalive body keepalive =
     (let keepalive = keepalive\<lparr>tk_period_ms := Wire_ReadU32 body 8, tk_can_id := Wire_ReadU32 body 12,
            tk_payload_length := body ! 16, tk_frame_flags := body ! 17\<rparr>;
          n = unat (tk_payload_length keepalive)
      in if FRAME_PAYLOAD_MAX_FD < n then (False, keepalive)
         else (True, keepalive\<lparr>tk_payload := mem_write (tk_payload keepalive) 0 (mem_read body 20 n)\<rparr>))"

definition TxnKeepalive_zero :: TxnKeepalive where
  "TxnKeepalive_zero = \<lparr>tk_period_ms = 0, tk_can_id = 0, tk_payload_length = 0, tk_frame_flags = 0,
     tk_payload = replicate FRAME_PAYLOAD_MAX_FD 0\<rparr>"

definition TxnBeginMessage_Encode :: "TxnBeginMessage \<Rightarrow> bytes \<Rightarrow> nat \<times> bytes" where
  "TxnBeginMessage_Encode self buffer =
     (case encodeFixedBody kMESSAGE_TYPE_TXN_BEGIN 84 buffer of (total_size, b) \<Rightarrow>
        if total_size = 0 then (0, b)
        else
          let body = MESSAGE_HEADER_SIZE;
              b = mem_write b (body + 0) [tb_channel self];
              b = mem_write b (body + 1) [tb_flags self];
              b = Wire_WriteU32 b (body + 4) (tb_idle_timeout_ms self);
              b = writeKeepalive b body (tb_keepalive self)
          in (total_size, b))"

definition TxnBeginMessage_Decode :: "TxnBeginMessage \<Rightarrow> bytes \<Rightarrow> bool \<times> TxnBeginMessage" where
  "TxnBeginMessage_Decode self payload =
     (if length payload < 84 then (False, self)
      else
        let self = \<lparr>tb_channel = payload ! 0, tb_flags = payload ! 1, tb_idle_timeout_ms = Wire_ReadU32 payload 4,
              tb_keepalive = TxnKeepalive_zero\<rparr>;
            (ok, keepalive) = readKeepalive payload (tb_keepalive self)
        in (ok, self\<lparr>tb_keepalive := keepalive\<rparr>))"

definition TxnBeginAckMessage_Encode :: "TxnBeginAckMessage \<Rightarrow> bytes \<Rightarrow> nat \<times> bytes" where
  "TxnBeginAckMessage_Encode self buffer =
     (case encodeFixedBody kMESSAGE_TYPE_TXN_BEGIN_ACK 8 buffer of (total_size, b) \<Rightarrow>
        if total_size = 0 then (0, b)
        else
          let body = MESSAGE_HEADER_SIZE;
              b = mem_write b (body + 0) [tba_channel self];
              b = mem_write b (body + 1) [tba_status self];
              b = Wire_WriteU16 b (body + 2) (tba_txn_id self);
              b = Wire_WriteU32 b (body + 4) (tba_window_bytes self)
          in (total_size, b))"

definition TxnBeginAckMessage_Decode :: "TxnBeginAckMessage \<Rightarrow> bytes \<Rightarrow> bool \<times> TxnBeginAckMessage" where
  "TxnBeginAckMessage_Decode self payload =
     (if length payload < 8 then (False, self)
      else (True, self\<lparr>tba_channel := payload ! 0, tba_status := payload ! 1, tba_txn_id := Wire_ReadU16 payload 2,
        tba_window_bytes := Wire_ReadU32 payload 4\<rparr>))"

definition writePattern :: "bytes \<Rightarrow> nat \<Rightarrow> TxnPattern \<Rightarrow> bytes" where
  "writePattern b off pattern =
     (let b = Wire_WriteU32 b (off + 0) (tp_can_id pattern);
          b = Wire_WriteU32 b (off + 4) (tp_can_mask pattern);
          b = Wire_WriteU64 b (off + 8) (tp_payload_mask pattern)
      in Wire_WriteU64 b (off + 16) (tp_payload_value pattern))"

definition readPattern :: "bytes \<Rightarrow> nat \<Rightarrow> TxnPattern \<Rightarrow> TxnPattern" where
  "readPattern p off pattern = pattern\<lparr>tp_can_id := Wire_ReadU32 p (off + 0), tp_can_mask := Wire_ReadU32 p (off + 4),
     tp_payload_mask := Wire_ReadU64 p (off + 8), tp_payload_value := Wire_ReadU64 p (off + 16)\<rparr>"

definition writeIsotpParameters :: "bytes \<Rightarrow> nat \<Rightarrow> TxnIsotpParameters \<Rightarrow> bytes" where
  "writeIsotpParameters b body isotp =
     (let b = Wire_WriteU32 b (body + 92) (ti_response_id isotp);
          b = mem_write b (body + 96) [ti_flags isotp];
          b = mem_write b (body + 97) [ti_tx_address isotp];
          b = mem_write b (body + 98) [ti_rx_address isotp];
          b = mem_write b (body + 99) [ti_padding isotp];
          b = mem_write b (body + 100) [ti_tx_data_length isotp];
          b = mem_write b (body + 101) [ti_block_size isotp]
      in mem_write b (body + 102) [ti_st_min isotp])"

definition readIsotpParameters :: "bytes \<Rightarrow> TxnIsotpParameters \<Rightarrow> TxnIsotpParameters" where
  "readIsotpParameters body isotp = isotp\<lparr>ti_response_id := Wire_ReadU32 body 92, ti_flags := body ! 96,
     ti_tx_address := body ! 97, ti_rx_address := body ! 98, ti_padding := body ! 99,
     ti_tx_data_length := body ! 100, ti_block_size := body ! 101, ti_st_min := body ! 102\<rparr>"

definition TxnTemplateMessage_Encode :: "TxnTemplateMessage \<Rightarrow> bytes \<Rightarrow> nat \<times> bytes" where
  "TxnTemplateMessage_Encode self buffer =
     (if TXN_TEMPLATES_MAX \<le> unat (tt_template_id self) then (0, buffer)
      else case encodeFixedBody kMESSAGE_TYPE_TXN_TEMPLATE 108 buffer of (total_size, b) \<Rightarrow>
        if total_size = 0 then (0, b)
        else
          let body = MESSAGE_HEADER_SIZE;
              b = mem_write b (body + 0) [tt_channel self];
              b = mem_write b (body + 1) [tt_template_id self];
              b = Wire_WriteU16 b (body + 2) (tt_txn_id self);
              b = mem_write b (body + 4) [tt_advance_mode self];
              b = mem_write b (body + 5) [tt_flags self];
              b = mem_write b (body + 6) [tt_count_k self];
              b = mem_write b (body + 7) [tt_patterns_present self];
              b = Wire_WriteU32 b (body + 8) (tt_timeout_ms self);
              b = Wire_WriteU32 b (body + 12) (tt_gap_us self);
              b = mem_write b (body + 16) [tt_type self];
              b = write_entries writePattern 24 b (body + 20) (take kTXN_PATTERN_MAX (tt_patterns self));
              b = writeIsotpParameters b body (tt_isotp self);
              b = Wire_WriteU32 b (body + 104) (tt_extend_timeout_ms self)
          in (total_size, b))"

definition TxnTemplateMessage_Decode :: "TxnTemplateMessage \<Rightarrow> bytes \<Rightarrow> bool \<times> TxnTemplateMessage" where
  "TxnTemplateMessage_Decode self payload =
     (if length payload < 108 then (False, self)
      else if TXN_TEMPLATES_MAX \<le> unat (payload ! 1) then (False, self)
      else (True, self\<lparr>tt_channel := payload ! 0, tt_template_id := payload ! 1, tt_txn_id := Wire_ReadU16 payload 2,
        tt_advance_mode := payload ! 4, tt_flags := payload ! 5, tt_count_k := payload ! 6,
        tt_patterns_present := payload ! 7, tt_timeout_ms := Wire_ReadU32 payload 8,
        tt_gap_us := Wire_ReadU32 payload 12, tt_type := payload ! 16,
        tt_patterns := read_entries readPattern 24 payload 20 kTXN_PATTERN_MAX (tt_patterns self),
        tt_isotp := readIsotpParameters payload (tt_isotp self),
        tt_extend_timeout_ms := Wire_ReadU32 payload 104\<rparr>))"

definition TxnProgressMessage_Encode :: "TxnProgressMessage \<Rightarrow> bytes \<Rightarrow> nat \<times> bytes" where
  "TxnProgressMessage_Encode self buffer =
     (case encodeFixedBody kMESSAGE_TYPE_TXN_PROGRESS 12 buffer of (total_size, b) \<Rightarrow>
        if total_size = 0 then (0, b)
        else
          let body = MESSAGE_HEADER_SIZE;
              b = mem_write b (body + 0) [tpr_channel self];
              b = Wire_WriteU16 b (body + 2) (tpr_txn_id self);
              b = Wire_WriteU32 b (body + 4) (tpr_completed_steps self);
              b = Wire_WriteU32 b (body + 8) (tpr_consumed_bytes self)
          in (total_size, b))"

definition TxnProgressMessage_Decode :: "TxnProgressMessage \<Rightarrow> bytes \<Rightarrow> bool \<times> TxnProgressMessage" where
  "TxnProgressMessage_Decode self payload =
     (if length payload < 12 then (False, self)
      else (True, self\<lparr>tpr_channel := payload ! 0, tpr_txn_id := Wire_ReadU16 payload 2,
        tpr_completed_steps := Wire_ReadU32 payload 4, tpr_consumed_bytes := Wire_ReadU32 payload 8\<rparr>))"

definition TxnStatusMessage_Encode :: "TxnStatusMessage \<Rightarrow> bytes \<Rightarrow> nat \<times> bytes" where
  "TxnStatusMessage_Encode self buffer =
     (let rx = ts_rx_frame self
      in if \<not> FrameMessage_IsPayloadLengthValid (trx_payload_length rx) (trx_frame_flags rx) then (0, buffer)
      else case encodeFixedBody kMESSAGE_TYPE_TXN_STATUS 112 buffer of (total_size, b) \<Rightarrow>
        if total_size = 0 then (0, b)
        else
          let body = MESSAGE_HEADER_SIZE;
              b = mem_write b (body + 0) [ts_channel self];
              b = mem_write b (body + 1) [ts_state self];
              b = Wire_WriteU16 b (body + 2) (ts_txn_id self);
              b = Wire_WriteU32 b (body + 4) (ts_failing_seq self);
              b = Wire_WriteU32 b (body + 8) (ts_offending_origin self);
              b = Wire_WriteU64 b (body + 12) (ts_seen_bitmap self);
              b = Wire_WriteU64 b (body + 20) (ts_expected self);
              b = Wire_WriteU64 b (body + 28) (ts_got self);
              b = Wire_WriteU32 b (body + 36) (ts_completed_steps self);
              b = Wire_WriteU32 b (body + 40) (trx_can_id rx);
              b = mem_write b (body + 44) [ts_reason self];
              b = mem_write b (body + 45) [trx_payload_length rx];
              b = mem_write b (body + 46) [trx_frame_flags rx];
              b = mem_write b (body + 47) [ts_flags self];
              b = mem_write b (body + 48) (take (unat (trx_payload_length rx)) (trx_payload rx))
          in (total_size, b))"

definition TxnStatusMessage_Decode :: "TxnStatusMessage \<Rightarrow> bytes \<Rightarrow> bool \<times> TxnStatusMessage" where
  "TxnStatusMessage_Decode self payload =
     (if length payload < 112 then (False, self)
      else
        let rx_payload_length = payload ! 45; rx_frame_flags = payload ! 46
        in if \<not> FrameMessage_IsPayloadLengthValid rx_payload_length rx_frame_flags then (False, self)
           else (True, \<lparr>ts_channel = payload ! 0, ts_state = payload ! 1, ts_txn_id = Wire_ReadU16 payload 2,
             ts_failing_seq = Wire_ReadU32 payload 4, ts_offending_origin = Wire_ReadU32 payload 8,
             ts_seen_bitmap = Wire_ReadU64 payload 12, ts_expected = Wire_ReadU64 payload 20,
             ts_got = Wire_ReadU64 payload 28, ts_completed_steps = Wire_ReadU32 payload 36,
             ts_reason = payload ! 44, ts_flags = payload ! 47,
             ts_rx_frame = \<lparr>trx_can_id = Wire_ReadU32 payload 40, trx_payload_length = rx_payload_length,
               trx_frame_flags = rx_frame_flags,
               trx_payload = mem_write (replicate FRAME_PAYLOAD_MAX_FD 0) 0 (mem_read payload 48 (unat rx_payload_length))\<rparr>\<rparr>))"

definition TxnAbortMessage_Encode :: "TxnAbortMessage \<Rightarrow> bytes \<Rightarrow> nat \<times> bytes" where
  "TxnAbortMessage_Encode self buffer =
     (case encodeFixedBody kMESSAGE_TYPE_TXN_ABORT 4 buffer of (total_size, b) \<Rightarrow>
        if total_size = 0 then (0, b)
        else
          let body = MESSAGE_HEADER_SIZE;
              b = mem_write b (body + 0) [tab_channel self];
              b = Wire_WriteU16 b (body + 2) (tab_txn_id self)
          in (total_size, b))"

definition TxnAbortMessage_Decode :: "TxnAbortMessage \<Rightarrow> bytes \<Rightarrow> bool \<times> TxnAbortMessage" where
  "TxnAbortMessage_Decode self payload =
     (if length payload < 4 then (False, self)
      else (True, self\<lparr>tab_channel := payload ! 0, tab_txn_id := Wire_ReadU16 payload 2\<rparr>))"

definition TxnRosterMessage_Encode :: "TxnRosterMessage \<Rightarrow> bytes \<Rightarrow> nat \<times> bytes" where
  "TxnRosterMessage_Encode self buffer =
     (let n = unat (tr_roster_count self)
      in if TXN_ROSTER_MAX < n then (0, buffer)
      else case encodeFixedBody kMESSAGE_TYPE_TXN_ROSTER 268 buffer of (total_size, b) \<Rightarrow>
        if total_size = 0 then (0, b)
        else
          let body = MESSAGE_HEADER_SIZE;
              b = mem_write b (body + 0) [tr_channel self];
              b = mem_write b (body + 1) [to_source (tr_origin self)];
              b = Wire_WriteU16 b (body + 2) (tr_txn_id self);
              b = Wire_WriteU32 b (body + 4) (to_mask (tr_origin self));
              b = mem_write b (body + 8) [to_shift (tr_origin self)];
              b = mem_write b (body + 9) [to_payload_offset (tr_origin self)];
              b = mem_write b (body + 10) [tr_roster_count self];
              b = write_entries Wire_WriteU32 4 b (body + 12) (take n (tr_roster self))
          in (total_size, b))"

definition TxnRosterMessage_Decode :: "TxnRosterMessage \<Rightarrow> bytes \<Rightarrow> bool \<times> TxnRosterMessage" where
  "TxnRosterMessage_Decode self payload =
     (if length payload < 268 \<or> TXN_ROSTER_MAX < unat (payload ! 10) then (False, self)
      else (True, \<lparr>tr_channel = payload ! 0, tr_txn_id = Wire_ReadU16 payload 2,
        tr_origin = \<lparr>to_source = payload ! 1, to_shift = payload ! 8, to_payload_offset = payload ! 9,
          to_mask = Wire_ReadU32 payload 4\<rparr>,
        tr_roster_count = payload ! 10,
        tr_roster = read_entries (\<lambda>p off _. Wire_ReadU32 p off) 4 payload 12 (unat (payload ! 10))
          (replicate TXN_ROSTER_MAX 0)\<rparr>))"

definition TxnRosterReportMessage_Encode :: "TxnRosterReportMessage \<Rightarrow> bytes \<Rightarrow> nat \<times> bytes" where
  "TxnRosterReportMessage_Encode self buffer =
     (case encodeFixedBody kMESSAGE_TYPE_TXN_ROSTER_REPORT 20 buffer of (total_size, b) \<Rightarrow>
        if total_size = 0 then (0, b)
        else
          let body = MESSAGE_HEADER_SIZE;
              b = mem_write b (body + 0) [trr_channel self];
              b = Wire_WriteU16 b (body + 2) (trr_txn_id self);
              b = Wire_WriteU32 b (body + 4) (trr_seq self);
              b = Wire_WriteU64 b (body + 12) (trr_seen_bitmap self)
          in (total_size, b))"

definition TxnRosterReportMessage_Decode :: "TxnRosterReportMessage \<Rightarrow> bytes \<Rightarrow> bool \<times> TxnRosterReportMessage" where
  "TxnRosterReportMessage_Decode self payload =
     (if length payload < 20 then (False, self)
      else (True, self\<lparr>trr_channel := payload ! 0, trr_txn_id := Wire_ReadU16 payload 2,
        trr_seq := Wire_ReadU32 payload 4, trr_seen_bitmap := Wire_ReadU64 payload 12\<rparr>))"

section \<open>The bodies on the wire\<close>

definition clamped_keepalive :: "TxnKeepalive \<Rightarrow> TxnKeepalive" where
  "clamped_keepalive k = (let n = min 64 (unat (tk_payload_length k))
     in k\<lparr>tk_payload_length := of_nat n, tk_payload := zero_pad 64 (take n (tk_payload k))\<rparr>)"

definition keepalive_image :: "TxnKeepalive \<Rightarrow> bytes" where
  "keepalive_image k = le32 (tk_period_ms k) @ le32 (tk_can_id k) @ [tk_payload_length k, tk_frame_flags k] @
     replicate 2 0 @ tk_payload k"

definition begin_body :: "TxnBeginMessage \<Rightarrow> bytes" where
  "begin_body m = [tb_channel m, tb_flags m] @ replicate 2 0 @ le32 (tb_idle_timeout_ms m) @
     keepalive_image (clamped_keepalive (tb_keepalive m))"

definition begin_ack_body :: "TxnBeginAckMessage \<Rightarrow> bytes" where
  "begin_ack_body m = [tba_channel m, tba_status m] @ le16 (tba_txn_id m) @ le32 (tba_window_bytes m)"

definition pattern_image :: "TxnPattern \<Rightarrow> bytes" where
  "pattern_image p = le32 (tp_can_id p) @ le32 (tp_can_mask p) @ le64 (tp_payload_mask p) @ le64 (tp_payload_value p)"

definition isotp_image :: "TxnIsotpParameters \<Rightarrow> bytes" where
  "isotp_image i = le32 (ti_response_id i) @ [ti_flags i, ti_tx_address i, ti_rx_address i, ti_padding i,
     ti_tx_data_length i, ti_block_size i, ti_st_min i, 0]"

definition template_body :: "TxnTemplateMessage \<Rightarrow> bytes" where
  "template_body m = [tt_channel m, tt_template_id m] @ le16 (tt_txn_id m) @
     [tt_advance_mode m, tt_flags m, tt_count_k m, tt_patterns_present m] @ le32 (tt_timeout_ms m) @
     le32 (tt_gap_us m) @ [tt_type m] @ replicate 3 0 @ concat (map pattern_image (tt_patterns m)) @
     isotp_image (tt_isotp m) @ le32 (tt_extend_timeout_ms m)"

definition progress_body :: "TxnProgressMessage \<Rightarrow> bytes" where
  "progress_body m = [tpr_channel m, 0] @ le16 (tpr_txn_id m) @ le32 (tpr_completed_steps m) @ le32 (tpr_consumed_bytes m)"

definition txn_status_valid :: "TxnStatusMessage \<Rightarrow> bool" where
  "txn_status_valid m \<longleftrightarrow> FrameMessage_IsPayloadLengthValid (trx_payload_length (ts_rx_frame m)) (trx_frame_flags (ts_rx_frame m))"

definition txn_status_body :: "TxnStatusMessage \<Rightarrow> bytes" where
  "txn_status_body m = (let rx = ts_rx_frame m
     in [ts_channel m, ts_state m] @ le16 (ts_txn_id m) @ le32 (ts_failing_seq m) @ le32 (ts_offending_origin m) @
       le64 (ts_seen_bitmap m) @ le64 (ts_expected m) @ le64 (ts_got m) @ le32 (ts_completed_steps m) @
       le32 (trx_can_id rx) @ [ts_reason m, trx_payload_length rx, trx_frame_flags rx, ts_flags m] @
       zero_pad 64 (take (unat (trx_payload_length rx)) (trx_payload rx)))"

definition txn_status_received :: "TxnStatusMessage \<Rightarrow> TxnStatusMessage" where
  "txn_status_received m = m\<lparr>ts_rx_frame := (ts_rx_frame m)\<lparr>trx_payload :=
     zero_pad 64 (take (unat (trx_payload_length (ts_rx_frame m))) (trx_payload (ts_rx_frame m)))\<rparr>\<rparr>"

definition abort_body :: "TxnAbortMessage \<Rightarrow> bytes" where
  "abort_body m = [tab_channel m, 0] @ le16 (tab_txn_id m)"

definition roster_body :: "TxnRosterMessage \<Rightarrow> bytes" where
  "roster_body m = (let n = unat (tr_roster_count m); o' = tr_origin m
     in [tr_channel m, to_source o'] @ le16 (tr_txn_id m) @ le32 (to_mask o') @
       [to_shift o', to_payload_offset o', tr_roster_count m, 0] @
       concat (map le32 (take n (tr_roster m))) @ replicate (256 - n * 4) 0)"

definition roster_received :: "TxnRosterMessage \<Rightarrow> TxnRosterMessage" where
  "roster_received m = (let n = unat (tr_roster_count m)
     in m\<lparr>tr_roster := take n (tr_roster m) @ replicate (64 - n) 0\<rparr>)"

definition roster_report_body :: "TxnRosterReportMessage \<Rightarrow> bytes" where
  "roster_report_body m = [trr_channel m, 0] @ le16 (trr_txn_id m) @ le32 (trr_seq m) @ replicate 4 0 @ le64 (trr_seen_bitmap m)"

lemma length_txn_images [simp, layout]:
  "length (pattern_image p) = 24" "length (isotp_image i) = 12"
  "length (begin_ack_body a) = 8" "length (progress_body g) = 12" "length (abort_body b) = 4"
  "length (roster_report_body r) = 20"
  by (simp_all add: pattern_image_def isotp_image_def begin_ack_body_def progress_body_def abort_body_def
      roster_report_body_def)

lemma length_payload_field [simp, layout]:
  "length p = 64 \<Longrightarrow> length (zero_pad 64 (take n p)) = 64"
  by simp

lemma length_keepalive [simp]: "length (tk_payload k) = 64 \<Longrightarrow> length (keepalive_image (clamped_keepalive k)) = 76"
  by (simp add: keepalive_image_def clamped_keepalive_def Let_def)

lemma length_begin_body [simp]: "length (tk_payload (tb_keepalive m)) = 64 \<Longrightarrow> length (begin_body m) = 84"
  by (simp add: begin_body_def)

lemma length_template_body [simp]: "length (tt_patterns m) = 3 \<Longrightarrow> length (template_body m) = 108"
  using length_concat_entries [of "tt_patterns m" pattern_image 24] by (simp add: template_body_def)

lemma length_txn_status_body [simp]:
  "length (trx_payload (ts_rx_frame m)) = 64 \<Longrightarrow> length (txn_status_body m) = 112"
  by (simp add: txn_status_body_def Let_def)

lemma length_roster_body [simp]:
  "length (tr_roster m) = 64 \<Longrightarrow> unat (tr_roster_count m) \<le> 64 \<Longrightarrow> length (roster_body m) = 268"
  using length_concat_entries [of "take (unat (tr_roster_count m)) (tr_roster m)" le32 4]
  by (simp add: roster_body_def Let_def)

lemma small_txn_encoded:
  "TxnBeginAckMessage_Encode a buf = framed kMESSAGE_TYPE_TXN_BEGIN_ACK True (begin_ack_body a) buf"
  "TxnProgressMessage_Encode g buf = framed kMESSAGE_TYPE_TXN_PROGRESS True (progress_body g) buf"
  "TxnAbortMessage_Encode b buf = framed kMESSAGE_TYPE_TXN_ABORT True (abort_body b) buf"
  "TxnRosterReportMessage_Encode r buf = framed kMESSAGE_TYPE_TXN_ROSTER_REPORT True (roster_report_body r) buf"
  unfolding framed_def length_txn_images TxnBeginAckMessage_Encode_def TxnProgressMessage_Encode_def
    TxnAbortMessage_Encode_def TxnRosterReportMessage_Encode_def Let_def encodeFixedBody_begin
  by (simp_all add: message_begin_fields [of 8 _ "[4, 4]"] message_begin_fields [of 12 _ "[2, 10]"]
      message_begin_fields [of 4 _ "[2, 2]"] message_begin_fields [of 20 _ "[2, 6, 4, 8]"] layout
      begin_ack_body_def progress_body_def abort_body_def roster_report_body_def)

lemma small_txn_decoded:
  "TxnBeginAckMessage_Decode olda (begin_ack_body a) = (True, a)"
  "TxnProgressMessage_Decode oldg (progress_body g) = (True, g)"
  "TxnAbortMessage_Decode oldb (abort_body b) = (True, b)"
  "TxnRosterReportMessage_Decode oldr (roster_report_body r) = (True, r)"
  unfolding TxnBeginAckMessage_Decode_def TxnProgressMessage_Decode_def TxnAbortMessage_Decode_def
    TxnRosterReportMessage_Decode_def length_txn_images
  by (simp_all add: begin_ack_body_def progress_body_def abort_body_def roster_report_body_def layout)

interpretation txn_begin_ack: message_codec TxnBeginAckMessage_Encode TxnBeginAckMessage_Decode
  kMESSAGE_TYPE_TXN_BEGIN_ACK "\<lambda>m. True" "\<lambda>m. True" begin_ack_body "\<lambda>old m. m"
  by unfold_locales (simp_all add: small_txn_encoded framed_def small_txn_decoded)

interpretation txn_progress: message_codec TxnProgressMessage_Encode TxnProgressMessage_Decode
  kMESSAGE_TYPE_TXN_PROGRESS "\<lambda>m. True" "\<lambda>m. True" progress_body "\<lambda>old m. m"
  by unfold_locales (simp_all add: small_txn_encoded framed_def small_txn_decoded)

interpretation txn_abort: message_codec TxnAbortMessage_Encode TxnAbortMessage_Decode
  kMESSAGE_TYPE_TXN_ABORT "\<lambda>m. True" "\<lambda>m. True" abort_body "\<lambda>old m. m"
  by unfold_locales (simp_all add: small_txn_encoded framed_def small_txn_decoded)

interpretation txn_roster_report: message_codec TxnRosterReportMessage_Encode TxnRosterReportMessage_Decode
  kMESSAGE_TYPE_TXN_ROSTER_REPORT "\<lambda>m. True" "\<lambda>m. True" roster_report_body "\<lambda>old m. m"
  by unfold_locales (simp_all add: small_txn_encoded framed_def small_txn_decoded)

text \<open>BEGIN and STATUS end with a payload of up to 64 bytes.\<close>

lemma mem_write_payload [layout]:
  assumes "length p = 64" and "n \<le> 64"
  shows "mem_write (replicate 64 0 @ ys) 0 (take n p) = zero_pad 64 (take n p) @ ys"
    and "mem_write (replicate 64 0) 0 (take n p) = zero_pad 64 (take n p)"
  using assms mem_write_zeroes [of 0 "take n p" 64] by (simp_all add: zero_pad_def)

lemma mem_read_payload [layout]:
  assumes "length p = 64" and "n \<le> 64"
  shows "mem_read (zero_pad 64 (take n p) @ ys) 0 n = take n p"
    and "mem_read (zero_pad 64 (take n p)) 0 n = take n p"
  using assms by (simp_all add: zero_pad_def mem_read_def)

lemma keepalive_clamped:
  "(if 64 < unat c then 64 else c :: u8) = of_nat (min 64 (unat c))"
  "unat (of_nat (min 64 (unat c)) :: u8) = min 64 (unat c)"
  by (auto simp: min_def unat_of_nat take_bit_nat_eq_self)

lemma TxnBeginMessage_encoded:
  assumes "length (tk_payload (tb_keepalive m)) = 64"
  shows "TxnBeginMessage_Encode m buf = framed kMESSAGE_TYPE_TXN_BEGIN True (begin_body m) buf"
  unfolding framed_def length_begin_body [OF assms] TxnBeginMessage_Encode_def writeKeepalive_def Let_def
    encodeFixedBody_begin
  using assms
  by (simp add: message_begin_fields [of 84 _ "[2, 2, 14, 2, 64]"] keepalive_clamped layout mem_write_head begin_body_def
      keepalive_image_def clamped_keepalive_def Let_def zero_pad_def)

lemma TxnBeginMessage_decoded:
  assumes "length (tk_payload (tb_keepalive m)) = 64"
  shows "TxnBeginMessage_Decode old (begin_body m) = (True, m\<lparr>tb_keepalive := clamped_keepalive (tb_keepalive m)\<rparr>)"
  unfolding TxnBeginMessage_Decode_def length_begin_body [OF assms]
  using assms
  by (cases m; cases "tb_keepalive m")
    (simp add: begin_body_def keepalive_image_def clamped_keepalive_def readKeepalive_def TxnKeepalive_zero_def
      keepalive_clamped layout Let_def zero_pad_def)

interpretation txn_begin: message_codec TxnBeginMessage_Encode TxnBeginMessage_Decode kMESSAGE_TYPE_TXN_BEGIN
  "\<lambda>m. length (tk_payload (tb_keepalive m)) = 64" "\<lambda>m. True" begin_body
  "\<lambda>old m. m\<lparr>tb_keepalive := clamped_keepalive (tb_keepalive m)\<rparr>"
  by unfold_locales (simp_all add: TxnBeginMessage_encoded framed_def TxnBeginMessage_decoded)

lemma payload_length_fits:
  "FrameMessage_IsPayloadLengthValid n flags \<Longrightarrow> unat n \<le> 64"
  by (simp add: FrameMessage_IsPayloadLengthValid_def split: if_splits)

lemma TxnStatusMessage_encoded:
  assumes "length (trx_payload (ts_rx_frame m)) = 64"
  shows "TxnStatusMessage_Encode m buf = framed kMESSAGE_TYPE_TXN_STATUS (txn_status_valid m) (txn_status_body m) buf"
proof (cases "txn_status_valid m \<and> 116 \<le> length buf")
  case True
  let ?rx = "ts_rx_frame m"
  let ?head = "[ts_channel m, ts_state m] @ le16 (ts_txn_id m) @ le32 (ts_failing_seq m) @ le32 (ts_offending_origin m)"
  let ?counts = "le64 (ts_seen_bitmap m) @ le64 (ts_expected m) @ le64 (ts_got m)"
  let ?h = "header_image kMESSAGE_TYPE_TXN_STATUS 112" and ?rest = "replicate 64 0 @ drop 116 buf"
  have "unat (trx_payload_length ?rx) \<le> 64"
    using True payload_length_fits unfolding txn_status_valid_def by blast
  note fits = assms this
  have zeroed: "message_begin kMESSAGE_TYPE_TXN_STATUS 112 buf = ?h @ replicate 12 0 @ replicate 24 0 @ replicate 12 0 @ ?rest"
    using True by (simp add: message_begin_fields [of 112 _ "[12, 24, 12, 64]"])
  have "Wire_WriteU32 (Wire_WriteU32 (Wire_WriteU16 (mem_write (mem_write (message_begin kMESSAGE_TYPE_TXN_STATUS 112 buf)
      4 [ts_channel m]) 5 [ts_state m]) 6 (ts_txn_id m)) 8 (ts_failing_seq m)) 12 (ts_offending_origin m) =
      (?h @ ?head) @ replicate 24 0 @ replicate 12 0 @ ?rest"
    unfolding zeroed by (simp add: layout)
  moreover have "Wire_WriteU64 (Wire_WriteU64 (Wire_WriteU64 ((?h @ ?head) @ replicate 24 0 @ replicate 12 0 @ ?rest)
      16 (ts_seen_bitmap m)) 24 (ts_expected m)) 32 (ts_got m) = (?h @ ?head @ ?counts) @ replicate 12 0 @ ?rest"
    by (simp add: layout)
  moreover have "mem_write (mem_write (mem_write (mem_write (mem_write (Wire_WriteU32 (Wire_WriteU32
      ((?h @ ?head @ ?counts) @ replicate 12 0 @ ?rest) 40 (ts_completed_steps m)) 44 (trx_can_id ?rx)) 48 [ts_reason m])
      49 [trx_payload_length ?rx]) 50 [trx_frame_flags ?rx]) 51 [ts_flags m])
      52 (take (unat (trx_payload_length ?rx)) (trx_payload ?rx)) =
      ?h @ txn_status_body m @ drop 116 buf"
    using fits by (simp add: layout mem_write_head txn_status_body_def Let_def zero_pad_def)
  ultimately show ?thesis
    using True unfolding framed_def length_txn_status_body [OF assms]
    by (simp add: TxnStatusMessage_Encode_def encodeFixedBody_begin txn_status_valid_def Let_def)
next
  case False
  then show ?thesis
    using assms by (auto simp: TxnStatusMessage_Encode_def encodeFixedBody_begin framed_def txn_status_valid_def Let_def)
qed

lemma TxnStatusMessage_decoded:
  assumes "length (trx_payload (ts_rx_frame m)) = 64" and "txn_status_valid m"
  shows "TxnStatusMessage_Decode old (txn_status_body m) = (True, txn_status_received m)"
  unfolding TxnStatusMessage_Decode_def length_txn_status_body [OF assms(1)]
  using assms payload_length_fits [of "trx_payload_length (ts_rx_frame m)" "trx_frame_flags (ts_rx_frame m)"]
  by (cases m; cases "ts_rx_frame m")
    (simp add: txn_status_body_def txn_status_received_def txn_status_valid_def layout Let_def zero_pad_def)

interpretation txn_status: message_codec TxnStatusMessage_Encode TxnStatusMessage_Decode kMESSAGE_TYPE_TXN_STATUS
  "\<lambda>m. length (trx_payload (ts_rx_frame m)) = 64" txn_status_valid txn_status_body "\<lambda>old m. txn_status_received m"
  by unfold_locales (simp_all add: TxnStatusMessage_encoded framed_def TxnStatusMessage_decoded)

text \<open>A template carries three patterns, a roster up to 64 origins.\<close>

lemma writePattern_image:
  "writePattern (pre @ replicate 24 0 @ post) (length pre) p = pre @ pattern_image p @ post"
proof -
  have z: "replicate 24 (0 :: u8) = zero_fields [4, 4, 8, 8]"
    unfolding zero_fields_sum by simp
  show ?thesis
    unfolding writePattern_def Let_def z by (simp add: layout pattern_image_def)
qed

lemma readPattern_image: "readPattern (pre @ pattern_image p @ post) (length pre) old = p"
  by (simp add: readPattern_def pattern_image_def layout)

lemma writeIsotpParameters_image:
  assumes "length pre = body + 92"
  shows "writeIsotpParameters (pre @ replicate 12 0 @ post) body i = pre @ isotp_image i @ post"
proof -
  have z: "replicate 12 (0 :: u8) = zero_fields [11, 1]"
    unfolding zero_fields_sum by simp
  show ?thesis
    unfolding writeIsotpParameters_def Let_def z using assms by (simp add: layout mem_write_head isotp_image_def)
qed

lemma readIsotpParameters_image:
  "length pre = 92 \<Longrightarrow> readIsotpParameters (pre @ isotp_image i @ post) old = i"
  by (simp add: readIsotpParameters_def isotp_image_def layout)

lemma TxnTemplateMessage_encoded:
  assumes "length (tt_patterns m) = 3"
  shows "TxnTemplateMessage_Encode m buf =
    framed kMESSAGE_TYPE_TXN_TEMPLATE (unat (tt_template_id m) < 16) (template_body m) buf"
proof (cases "unat (tt_template_id m) < 16 \<and> 112 \<le> length buf")
  case True
  let ?head = "[tt_channel m, tt_template_id m] @ le16 (tt_txn_id m) @
     [tt_advance_mode m, tt_flags m, tt_count_k m, tt_patterns_present m] @ le32 (tt_timeout_ms m) @
     le32 (tt_gap_us m) @ [tt_type m] @ replicate 3 0"
  let ?pre = "header_image kMESSAGE_TYPE_TXN_TEMPLATE 108 @ ?head"
  let ?patterns = "concat (map pattern_image (tt_patterns m))"
  have n: "length ?patterns = 72"
    using assms length_concat_entries [of "tt_patterns m" pattern_image 24] by simp
  have "write_entries writePattern 24 (?pre @ replicate (length (tt_patterns m) * 24) 0 @ replicate 16 0 @ drop 112 buf)
      (length ?pre) (tt_patterns m) = ?pre @ ?patterns @ replicate 16 0 @ drop 112 buf"
    by (rule write_entries_image) (simp add: writePattern_image)
  then have patterns: "write_entries writePattern 24 (?pre @ replicate 72 0 @ replicate 16 0 @ drop 112 buf) 24
      (take 3 (tt_patterns m)) = ?pre @ ?patterns @ replicate 16 0 @ drop 112 buf"
    using assms by simp
  have isotp: "writeIsotpParameters (?pre @ ?patterns @ replicate 12 0 @ replicate 4 0 @ drop 112 buf) 4 (tt_isotp m) =
      ?pre @ ?patterns @ isotp_image (tt_isotp m) @ replicate 4 0 @ drop 112 buf"
    using writeIsotpParameters_image [of "?pre @ ?patterns" 4 "replicate 4 0 @ drop 112 buf" "tt_isotp m"] n by simp
  have "mem_write (mem_write (mem_write (mem_write (Wire_WriteU16 (mem_write (mem_write
      (message_begin kMESSAGE_TYPE_TXN_TEMPLATE 108 buf) 4 [tt_channel m]) 5 [tt_template_id m]) 6 (tt_txn_id m))
      8 [tt_advance_mode m]) 9 [tt_flags m]) 10 [tt_count_k m]) 11 [tt_patterns_present m] =
      header_image kMESSAGE_TYPE_TXN_TEMPLATE 108 @ [tt_channel m, tt_template_id m] @ le16 (tt_txn_id m) @
      [tt_advance_mode m, tt_flags m, tt_count_k m, tt_patterns_present m] @ replicate 4 0 @ replicate 4 0 @ [0] @
      replicate 3 0 @ replicate 72 0 @ replicate 16 0 @ drop 112 buf"
    using True by (simp add: message_begin_fields [of 108 _ "[8, 4, 4, 1, 3, 72, 16]"] layout mem_write_head)
  then have "mem_write (Wire_WriteU32 (Wire_WriteU32 (mem_write (mem_write (mem_write (mem_write (Wire_WriteU16 (mem_write
      (mem_write (message_begin kMESSAGE_TYPE_TXN_TEMPLATE 108 buf) 4 [tt_channel m]) 5 [tt_template_id m]) 6 (tt_txn_id m))
      8 [tt_advance_mode m]) 9 [tt_flags m]) 10 [tt_count_k m]) 11 [tt_patterns_present m]) 12 (tt_timeout_ms m))
      16 (tt_gap_us m)) 20 [tt_type m] = ?pre @ replicate 72 0 @ replicate 16 0 @ drop 112 buf"
    by (simp only:) (simp add: layout mem_write_head)
  note head = this
  have "replicate 16 (0 :: u8) = replicate 12 0 @ replicate 4 0"
    by (simp flip: replicate_add)
  moreover have "Wire_WriteU32 ((?pre @ ?patterns @ isotp_image (tt_isotp m)) @ replicate 4 0 @ drop 112 buf) 108
      (tt_extend_timeout_ms m) = (?pre @ ?patterns @ isotp_image (tt_isotp m)) @ le32 (tt_extend_timeout_ms m) @ drop 112 buf"
    using n by (subst Wire_WriteU32_eq) (simp_all add: mem_write_def)
  ultimately show ?thesis
    using True n head patterns isotp
    by (simp add: TxnTemplateMessage_Encode_def encodeFixedBody_begin framed_def length_template_body [OF assms] Let_def
        template_body_def)
next
  case False
  then show ?thesis
    using assms by (auto simp: TxnTemplateMessage_Encode_def encodeFixedBody_begin framed_def)
qed

lemma TxnTemplateMessage_decoded:
  assumes "length (tt_patterns m) = 3" and "length (tt_patterns old) = 3" and "unat (tt_template_id m) < 16"
  shows "TxnTemplateMessage_Decode old (template_body m) = (True, m)"
proof -
  let ?head = "[tt_channel m, tt_template_id m] @ le16 (tt_txn_id m) @
     [tt_advance_mode m, tt_flags m, tt_count_k m, tt_patterns_present m] @ le32 (tt_timeout_ms m) @
     le32 (tt_gap_us m) @ [tt_type m] @ replicate 3 0"
  let ?patterns = "concat (map pattern_image (tt_patterns m))"
  let ?tail = "isotp_image (tt_isotp m) @ le32 (tt_extend_timeout_ms m)"
  have n: "length ?patterns = 72"
    using assms length_concat_entries [of "tt_patterns m" pattern_image 24] by simp
  have body: "template_body m = ?head @ ?patterns @ ?tail"
    by (simp add: template_body_def)
  have "read_entries readPattern 24 (?head @ ?patterns @ ?tail) (length ?head) (length (tt_patterns m)) (tt_patterns old) =
      map (\<lambda>p. p) (tt_patterns m) @ drop (length (tt_patterns m)) (tt_patterns old)"
    by (rule read_entries_image) (simp_all add: readPattern_image)
  then have patterns: "read_entries readPattern 24 (template_body m) 20 3 (tt_patterns old) = tt_patterns m"
    using assms by (simp add: body)
  have isotp: "readIsotpParameters (template_body m) (tt_isotp old) = tt_isotp m"
    using n readIsotpParameters_image [of "?head @ ?patterns" "tt_isotp m" "le32 (tt_extend_timeout_ms m)"] by (simp add: body)
  have last: "Wire_ReadU32 (template_body m) 104 = tt_extend_timeout_ms m"
    using n by (simp add: body layout)
  have "TxnTemplateMessage_Decode old (?head @ ?patterns @ ?tail) = (True, m)"
    using assms n patterns isotp last unfolding TxnTemplateMessage_Decode_def body by (simp add: layout)
  then show ?thesis
    by (simp only: body)
qed

interpretation txn_template: message_codec TxnTemplateMessage_Encode TxnTemplateMessage_Decode
  kMESSAGE_TYPE_TXN_TEMPLATE "\<lambda>m. length (tt_patterns m) = 3" "\<lambda>m. unat (tt_template_id m) < 16" template_body
  "\<lambda>old m. m"
  by unfold_locales (simp_all add: TxnTemplateMessage_encoded framed_def TxnTemplateMessage_decoded)

lemma TxnRosterMessage_encoded:
  assumes "length (tr_roster m) = 64"
  shows "TxnRosterMessage_Encode m buf =
    framed kMESSAGE_TYPE_TXN_ROSTER (unat (tr_roster_count m) \<le> 64) (roster_body m) buf"
proof (cases "unat (tr_roster_count m) \<le> 64 \<and> 272 \<le> length buf")
  case True
  let ?n = "unat (tr_roster_count m)" and ?o = "tr_origin m"
  let ?es = "take ?n (tr_roster m)"
  let ?pre = "header_image kMESSAGE_TYPE_TXN_ROSTER 268 @ [tr_channel m, to_source ?o] @ le16 (tr_txn_id m) @ le32 (to_mask ?o) @
       [to_shift ?o, to_payload_offset ?o, tr_roster_count m, 0]"
  let ?rest = "replicate (256 - ?n * 4) 0 @ drop 272 buf"
  have z: "replicate 256 (0 :: u8) = replicate (length ?es * 4) 0 @ replicate (256 - ?n * 4) 0"
    unfolding replicate_add [symmetric] using True assms by simp
  have "write_entries Wire_WriteU32 4 (?pre @ replicate (length ?es * 4) 0 @ ?rest) (length ?pre) ?es =
      ?pre @ concat (map le32 ?es) @ ?rest"
    by (rule write_entries_image) (simp add: layout)
  then have entries: "write_entries Wire_WriteU32 4 (?pre @ replicate 256 0 @ drop 272 buf) 16 ?es =
      ?pre @ concat (map le32 ?es) @ ?rest"
    by (simp add: z)
  have "Wire_WriteU16 (mem_write (mem_write (message_begin kMESSAGE_TYPE_TXN_ROSTER 268 buf) 4 [tr_channel m])
      5 [to_source ?o]) 6 (tr_txn_id m) = header_image kMESSAGE_TYPE_TXN_ROSTER 268 @ [tr_channel m, to_source ?o] @
      le16 (tr_txn_id m) @ replicate 4 0 @ [0, 0, 0, 0] @ replicate 256 0 @ drop 272 buf"
    using True by (simp add: message_begin_fields [of 268 _ "[4, 4, 1, 1, 1, 1, 256]"] layout mem_write_head)
  then have "mem_write (mem_write (mem_write (Wire_WriteU32 (Wire_WriteU16 (mem_write (mem_write
      (message_begin kMESSAGE_TYPE_TXN_ROSTER 268 buf) 4 [tr_channel m]) 5 [to_source ?o]) 6 (tr_txn_id m)) 8 (to_mask ?o))
      12 [to_shift ?o]) 13 [to_payload_offset ?o]) 14 [tr_roster_count m] = ?pre @ replicate 256 0 @ drop 272 buf"
    by (simp only:) (simp add: layout mem_write_head)
  then show ?thesis
    using True entries unfolding framed_def
    by (simp add: length_roster_body [OF assms] TxnRosterMessage_Encode_def encodeFixedBody_begin Let_def)
      (simp add: roster_body_def Let_def)
next
  case False
  then show ?thesis
    using assms by (auto simp: TxnRosterMessage_Encode_def encodeFixedBody_begin framed_def Let_def)
qed

lemma TxnRosterMessage_decoded:
  assumes "length (tr_roster m) = 64" and "unat (tr_roster_count m) \<le> 64"
  shows "TxnRosterMessage_Decode old (roster_body m) = (True, roster_received m)"
proof -
  let ?n = "unat (tr_roster_count m)" and ?o = "tr_origin m"
  let ?es = "take ?n (tr_roster m)"
  let ?head = "[tr_channel m, to_source ?o] @ le16 (tr_txn_id m) @ le32 (to_mask ?o) @
       [to_shift ?o, to_payload_offset ?o, tr_roster_count m, 0]"
  have body: "roster_body m = ?head @ concat (map le32 ?es) @ replicate (256 - ?n * 4) 0"
    by (simp add: roster_body_def Let_def)
  have "read_entries (\<lambda>p off _. Wire_ReadU32 p off) 4 (?head @ concat (map le32 ?es) @ replicate (256 - ?n * 4) 0)
      (length ?head) (length ?es) (replicate 64 0) = map (\<lambda>e. e) ?es @ drop (length ?es) (replicate 64 0)"
    by (rule read_entries_image) (simp_all add: layout)
  then have entries: "read_entries (\<lambda>p off _. Wire_ReadU32 p off) 4 (roster_body m) 12 ?n (replicate 64 0) =
      ?es @ replicate (64 - ?n) 0"
    using assms by (simp add: body)
  have fields: "roster_body m ! 0 = tr_channel m" "roster_body m ! Suc 0 = to_source ?o" "roster_body m ! 8 = to_shift ?o"
    "roster_body m ! 9 = to_payload_offset ?o" "roster_body m ! 10 = tr_roster_count m"
    "Wire_ReadU16 (roster_body m) 2 = tr_txn_id m" "Wire_ReadU32 (roster_body m) 4 = to_mask ?o"
    by (simp_all add: body layout)
  show ?thesis
    using assms entries
    by (auto simp: TxnRosterMessage_Decode_def fields roster_received_def Let_def
        intro!: TxnRosterMessage.equality TxnOriginExtractor.equality)
qed

interpretation txn_roster: message_codec TxnRosterMessage_Encode TxnRosterMessage_Decode
  kMESSAGE_TYPE_TXN_ROSTER "\<lambda>m. length (tr_roster m) = 64" "\<lambda>m. unat (tr_roster_count m) \<le> 64" roster_body
  "\<lambda>old m. roster_received m"
  by unfold_locales (simp_all add: TxnRosterMessage_encoded framed_def TxnRosterMessage_decoded)

section \<open>Properties\<close>

text \<open>
  C35. The eight messages of a transaction arrive as they were sent.  BEGIN carries its keepalive,
  cut to 64 bytes; TEMPLATE is refused exactly for a template id of 16 or more, STATUS for an illegal
  length of the received frame and ROSTER for more than 64 origins; the other messages only when the
  buffer is too small.
\<close>

theorem txn_messages_delivered:
  assumes "length (tk_payload (tb_keepalive b)) = 64" and "length (tk_payload (tb_keepalive b')) = 64"
    and "length (tt_patterns t) = 3" and "length (tt_patterns t') = 3"
    and "length (trx_payload (ts_rx_frame s)) = 64" and "length (trx_payload (ts_rx_frame s')) = 64"
    and "length (tr_roster r) = 64" and "length (tr_roster r') = 64"
  shows "delivers TxnBeginMessage_Encode TxnBeginMessage_Decode kMESSAGE_TYPE_TXN_BEGIN True 84
      (b\<lparr>tb_keepalive := clamped_keepalive (tb_keepalive b)\<rparr>) b b' buf \<and>
    delivers TxnBeginAckMessage_Encode TxnBeginAckMessage_Decode kMESSAGE_TYPE_TXN_BEGIN_ACK True 8 a a a' buf \<and>
    delivers TxnTemplateMessage_Encode TxnTemplateMessage_Decode kMESSAGE_TYPE_TXN_TEMPLATE (unat (tt_template_id t) < 16) 108
      t t t' buf \<and>
    delivers TxnProgressMessage_Encode TxnProgressMessage_Decode kMESSAGE_TYPE_TXN_PROGRESS True 12 p p p' buf \<and>
    delivers TxnStatusMessage_Encode TxnStatusMessage_Decode kMESSAGE_TYPE_TXN_STATUS (txn_status_valid s) 112
      (txn_status_received s) s s' buf \<and>
    delivers TxnAbortMessage_Encode TxnAbortMessage_Decode kMESSAGE_TYPE_TXN_ABORT True 4 x x x' buf \<and>
    delivers TxnRosterMessage_Encode TxnRosterMessage_Decode kMESSAGE_TYPE_TXN_ROSTER (unat (tr_roster_count r) \<le> 64) 268
      (roster_received r) r r' buf \<and>
    delivers TxnRosterReportMessage_Encode TxnRosterReportMessage_Decode kMESSAGE_TYPE_TXN_ROSTER_REPORT True 20 q q q' buf"
  using assms txn_begin.delivers_sized [of b b' 84 buf] txn_begin_ack.delivers_sized [of a 8 a' buf]
    txn_template.delivers_sized [of t t' 108 buf] txn_progress.delivers_sized [of p 12 p' buf]
    txn_status.delivers_sized [of s s' 112 buf] txn_abort.delivers_sized [of x 4 x' buf]
    txn_roster.delivers_sized [of r r' 268 buf] txn_roster_report.delivers_sized [of q 20 q' buf]
  by simp

definition sample_template :: "u8 \<Rightarrow> TxnTemplateMessage" where
  "sample_template i = \<lparr>tt_channel = 1, tt_template_id = i, tt_txn_id = 2, tt_advance_mode = 1, tt_flags = 0, tt_count_k = 1,
     tt_patterns_present = 1, tt_timeout_ms = 500, tt_gap_us = 0, tt_extend_timeout_ms = 0, tt_type = 0,
     tt_patterns = replicate 3 \<lparr>tp_can_id = 0x123, tp_can_mask = 0x7FF, tp_payload_mask = 0, tp_payload_value = 0\<rparr>,
     tt_isotp = \<lparr>ti_response_id = 0, ti_flags = 0, ti_tx_address = 0, ti_rx_address = 0, ti_padding = 0,
       ti_tx_data_length = 8, ti_block_size = 0, ti_st_min = 0\<rparr>\<rparr>"

definition sample_status :: TxnStatusMessage where
  "sample_status = \<lparr>ts_channel = 1, ts_state = 1, ts_txn_id = 2, ts_failing_seq = 3, ts_offending_origin = 0,
     ts_seen_bitmap = 0, ts_expected = 0, ts_got = 0, ts_completed_steps = 3, ts_reason = 1, ts_flags = 1,
     ts_rx_frame = \<lparr>trx_can_id = 0x123, trx_payload_length = 2, trx_frame_flags = 0, trx_payload = replicate 64 7\<rparr>\<rparr>"

definition sample_roster :: TxnRosterMessage where
  "sample_roster = \<lparr>tr_channel = 1, tr_txn_id = 2,
     tr_origin = \<lparr>to_source = 1, to_shift = 0, to_payload_offset = 0, to_mask = 0xFF\<rparr>,
     tr_roster_count = 2, tr_roster = replicate 64 5\<rparr>"

definition sample_begin :: TxnBeginMessage where
  "sample_begin = \<lparr>tb_channel = 1, tb_flags = 1, tb_idle_timeout_ms = 1000,
     tb_keepalive = TxnKeepalive_zero\<lparr>tk_payload_length := 70\<rparr>\<rparr>"

theorem txn_messages_delivered_witness:
  "delivers TxnStatusMessage_Encode TxnStatusMessage_Decode kMESSAGE_TYPE_TXN_STATUS (txn_status_valid sample_status) 112
     (txn_status_received sample_status) sample_status sample_status (replicate 200 0) \<and> txn_status_valid sample_status"
  using txn_messages_delivered [of sample_begin sample_begin "sample_template 3" "sample_template 0" sample_status sample_status
      sample_roster sample_roster "replicate 200 0"
      "\<lparr>tba_channel = 1, tba_status = 0, tba_txn_id = 2, tba_window_bytes = 3\<rparr>" "\<lparr>tba_channel = 1, tba_status = 0, tba_txn_id = 2, tba_window_bytes = 3\<rparr>"
      "\<lparr>tpr_channel = 1, tpr_txn_id = 2, tpr_completed_steps = 3, tpr_consumed_bytes = 4\<rparr>" "\<lparr>tpr_channel = 1, tpr_txn_id = 2, tpr_completed_steps = 3, tpr_consumed_bytes = 4\<rparr>"
      "\<lparr>tab_channel = 1, tab_txn_id = 2\<rparr>" "\<lparr>tab_channel = 1, tab_txn_id = 2\<rparr>"
      "\<lparr>trr_channel = 1, trr_txn_id = 2, trr_seq = 3, trr_seen_bitmap = 4\<rparr>" "\<lparr>trr_channel = 1, trr_txn_id = 2, trr_seq = 3, trr_seen_bitmap = 4\<rparr>"]
  by (simp add: sample_begin_def sample_template_def sample_status_def sample_roster_def TxnKeepalive_zero_def
      txn_status_valid_def FrameMessage_IsPayloadLengthValid_def)

end
