(* ===== verification/TxnSteps.thy ===== *)
theory TxnSteps
  imports TxnMessages
begin

text \<open>
  Batches of transaction steps (\<open>protocol/txn_steps_message.c\<close>): one step as a record of 8-byte
  aligned fields, the writer that packs steps into one TXN_STEPS message, and its decoder.
  A record is read and written through a pointer into the message, so the functions take the
  offset of the record and the number of bytes available there.
\<close>

section \<open>Steps\<close>

abbreviation (input) TXN_STEPS_FIXED_FIELDS_SIZE :: nat where "TXN_STEPS_FIXED_FIELDS_SIZE \<equiv> 12"
abbreviation (input) TXN_STEPS_RECORD_BYTES_MAX :: nat where "TXN_STEPS_RECORD_BYTES_MAX \<equiv> 400"
abbreviation (input) TXN_STEP_RECORD_HEADER_SIZE :: nat where "TXN_STEP_RECORD_HEADER_SIZE \<equiv> 8"
abbreviation (input) TXN_STEP_RECORD_ALIGNMENT :: nat where "TXN_STEP_RECORD_ALIGNMENT \<equiv> 8"
abbreviation (input) TXN_STEP_EXPECT_VALUE_SIZE :: nat where "TXN_STEP_EXPECT_VALUE_SIZE \<equiv> 8"
abbreviation (input) TXN_STEP_PAYLOAD_SIZE_MAX :: nat where "TXN_STEP_PAYLOAD_SIZE_MAX \<equiv> 255"
abbreviation (input) STEPS_COUNT_MAX :: nat where "STEPS_COUNT_MAX \<equiv> 255"
abbreviation (input) STEPS_FIRST_RECORD_OFFSET :: nat where "STEPS_FIRST_RECORD_OFFSET \<equiv> 16"
abbreviation (input) TXN_STEPS_FLAG_END :: u8 where "TXN_STEPS_FLAG_END \<equiv> 1"

record TxnStep =
  st_template_id :: u8
  st_flags :: u8
  st_payload_length :: u8
  st_frame_flags :: u8
  st_can_id :: u32
  st_expect_value :: u64
  st_payload :: bytes

record TxnStepsMessage =
  sm_channel :: u8
  sm_step_count :: u8
  sm_txn_id :: u16
  sm_first_seq :: u32
  sm_flags :: u8
  sm_records :: bytes
  sm_records_size :: nat

record TxnStepsWriter =
  sw_buffer :: bytes
  sw_buffer_size :: nat
  sw_records_size :: nat
  sw_step_count :: nat

definition paddedPayloadSize :: "u8 \<Rightarrow> nat" where
  "paddedPayloadSize payload_length =
     (unat payload_length + TXN_STEP_RECORD_ALIGNMENT - 1) div TXN_STEP_RECORD_ALIGNMENT * TXN_STEP_RECORD_ALIGNMENT"

definition recordSize :: "u8 \<Rightarrow> u8 \<Rightarrow> nat" where
  "recordSize payload_length flags =
     (let sz = TXN_STEP_RECORD_HEADER_SIZE + paddedPayloadSize payload_length
      in if bit flags 0 then sz + TXN_STEP_EXPECT_VALUE_SIZE else sz)"

definition isMessageRecordValid :: "TxnStep \<Rightarrow> bool" where
  "isMessageRecordValid step =
     (if st_payload_length step = 0 \<or> st_frame_flags step \<noteq> 0 then False
      else if bit (st_flags step) 1 then False
      else if bit (st_flags step) 4 then \<not> bit (st_flags step) 0
      else True)"

definition isStepValid :: "TxnStep \<Rightarrow> bool" where
  "isStepValid step =
     (if TXN_TEMPLATES_MAX \<le> unat (st_template_id step) then False
      else if bit (st_flags step) 3 then isMessageRecordValid step
      else if bit (st_flags step) 4 then False
      else if bit (st_flags step) 1 \<and> st_payload_length step \<noteq> 0 then False
      else FrameMessage_IsPayloadLengthValid (st_payload_length step) (st_frame_flags step))"

definition TxnStep_RecordSize :: "TxnStep \<Rightarrow> nat" where
  "TxnStep_RecordSize self = recordSize (st_payload_length self) (st_flags self)"

definition TxnStep_Encode :: "TxnStep \<Rightarrow> bytes \<Rightarrow> nat \<Rightarrow> nat \<Rightarrow> nat \<times> bytes" where
  "TxnStep_Encode self b record available =
     (let sz = TxnStep_RecordSize self
      in if \<not> isStepValid self then (0, b)
         else if available < sz then (0, b)
         else
           let b = mem_write b record (replicate sz 0);
               b = mem_write b (record + 0) [st_template_id self];
               b = mem_write b (record + 1) [st_flags self];
               b = mem_write b (record + 2) [st_payload_length self];
               b = mem_write b (record + 3) [st_frame_flags self];
               b = Wire_WriteU32 b (record + 4) (st_can_id self);
               b = mem_write b (record + 8) (take (unat (st_payload_length self)) (st_payload self));
               b = (if bit (st_flags self) 0
                    then Wire_WriteU64 b (record + 8 + paddedPayloadSize (st_payload_length self)) (st_expect_value self)
                    else b)
           in (sz, b))"

definition TxnStep_zero :: TxnStep where
  "TxnStep_zero = \<lparr>st_template_id = 0, st_flags = 0, st_payload_length = 0, st_frame_flags = 0, st_can_id = 0,
     st_expect_value = 0, st_payload = replicate TXN_STEP_PAYLOAD_SIZE_MAX 0\<rparr>"

definition TxnStep_Decode :: "TxnStep \<Rightarrow> bytes \<Rightarrow> nat \<Rightarrow> nat \<Rightarrow> nat \<times> TxnStep" where
  "TxnStep_Decode self p record available =
     (if available < TXN_STEP_RECORD_HEADER_SIZE then (0, self)
      else
        let self = TxnStep_zero\<lparr>st_template_id := p ! (record + 0), st_flags := p ! (record + 1),
              st_payload_length := p ! (record + 2), st_frame_flags := p ! (record + 3),
              st_can_id := Wire_ReadU32 p (record + 4)\<rparr>
        in if \<not> isStepValid self then (0, self)
           else
             let sz = TxnStep_RecordSize self
             in if available < sz then (0, self)
                else
                  let n = unat (st_payload_length self);
                      self = self\<lparr>st_payload := mem_write (st_payload self) 0 (mem_read p (record + 8) n)\<rparr>;
                      self = (if bit (st_flags self) 0
                        then self\<lparr>st_expect_value := Wire_ReadU64 p (record + 8 + paddedPayloadSize (st_payload_length self))\<rparr>
                        else self)
                  in (sz, self))"

section \<open>The writer\<close>

definition TxnStepsWriter_Init :: "TxnStepsWriter \<Rightarrow> TxnStepsMessage \<Rightarrow> bytes \<Rightarrow> bool \<times> TxnStepsWriter" where
  "TxnStepsWriter_Init self message buffer =
     (if length buffer < STEPS_FIRST_RECORD_OFFSET then (False, self)
      else
        let body = MESSAGE_HEADER_SIZE;
            b = mem_write buffer body (replicate TXN_STEPS_FIXED_FIELDS_SIZE 0);
            b = mem_write b (body + 0) [sm_channel message];
            b = Wire_WriteU16 b (body + 2) (sm_txn_id message);
            b = Wire_WriteU32 b (body + 4) (sm_first_seq message);
            b = mem_write b (body + 8) [sm_flags message]
        in (True, \<lparr>sw_buffer = b, sw_buffer_size = length buffer, sw_records_size = 0, sw_step_count = 0\<rparr>))"

definition writerRoom :: "TxnStepsWriter \<Rightarrow> nat" where
  "writerRoom self =
     (let buffer_room = wrap_sub 64 (wrap_sub 64 (sw_buffer_size self) STEPS_FIRST_RECORD_OFFSET) (sw_records_size self);
          record_room = wrap_sub 64 TXN_STEPS_RECORD_BYTES_MAX (sw_records_size self)
      in if buffer_room < record_room then buffer_room else record_room)"

definition TxnStepsWriter_Append :: "TxnStepsWriter \<Rightarrow> TxnStep \<Rightarrow> bool \<times> TxnStepsWriter" where
  "TxnStepsWriter_Append self step =
     (let record = STEPS_FIRST_RECORD_OFFSET + sw_records_size self
      in if sw_step_count self = STEPS_COUNT_MAX then (False, self)
         else case TxnStep_Encode step (sw_buffer self) record (writerRoom self) of (sz, b) \<Rightarrow>
           let self = self\<lparr>sw_buffer := b\<rparr>
           in if sz = 0 then (False, self)
              else (True, self\<lparr>sw_records_size := wrap 16 (sw_records_size self + sz),
                     sw_step_count := wrap 8 (sw_step_count self + 1)\<rparr>))"

definition TxnStepsWriter_MarkEnd :: "TxnStepsWriter \<Rightarrow> TxnStepsWriter" where
  "TxnStepsWriter_MarkEnd self =
     self\<lparr>sw_buffer := mem_write (sw_buffer self) (MESSAGE_HEADER_SIZE + 8)
       [sw_buffer self ! (MESSAGE_HEADER_SIZE + 8) OR TXN_STEPS_FLAG_END]\<rparr>"

definition TxnStepsWriter_Finish :: "TxnStepsWriter \<Rightarrow> nat \<times> TxnStepsWriter" where
  "TxnStepsWriter_Finish self =
     (let body_size = wrap 16 (TXN_STEPS_FIXED_FIELDS_SIZE + sw_records_size self);
          b = snd (MessageHeader_Encode \<lparr>mh_type = kMESSAGE_TYPE_TXN_STEPS, mh_flags = 0, mh_length = of_nat body_size\<rparr>
            (sw_buffer self));
          b = mem_write b (MESSAGE_HEADER_SIZE + 1) [of_nat (sw_step_count self)]
      in (MESSAGE_HEADER_SIZE + body_size, self\<lparr>sw_buffer := b\<rparr>))"

section \<open>The reader\<close>

text \<open>The loop of \<open>areRecordsWellFormed\<close> with \<open>n\<close> steps to go: where it stops, or nothing when a
  record is refused.\<close>

fun scan_records :: "nat \<Rightarrow> TxnStep \<Rightarrow> bytes \<Rightarrow> nat \<Rightarrow> nat \<Rightarrow> nat \<Rightarrow> nat option" where
  "scan_records 0 step p records records_size offset = Some offset"
| "scan_records (Suc n) step p records records_size offset =
     (case TxnStep_Decode step p (records + offset) (wrap_sub 64 records_size offset) of (sz, step) \<Rightarrow>
        if sz = 0 then None else scan_records n step p records records_size (offset + sz))"

definition areRecordsWellFormed :: "bytes \<Rightarrow> nat \<Rightarrow> nat \<Rightarrow> u8 \<Rightarrow> bool" where
  "areRecordsWellFormed p records records_size step_count \<longleftrightarrow>
     scan_records (unat step_count) TxnStep_zero p records records_size 0 = Some records_size"

definition TxnStepsMessage_Decode :: "TxnStepsMessage \<Rightarrow> bytes \<Rightarrow> bool \<times> TxnStepsMessage" where
  "TxnStepsMessage_Decode self payload =
     (if length payload < TXN_STEPS_FIXED_FIELDS_SIZE then (False, self)
      else
        let records_size = length payload - TXN_STEPS_FIXED_FIELDS_SIZE
        in if TXN_STEPS_RECORD_BYTES_MAX < records_size then (False, self)
           else
             let step_count = payload ! 1
             in if \<not> areRecordsWellFormed payload TXN_STEPS_FIXED_FIELDS_SIZE records_size step_count then (False, self)
                else (True, self\<lparr>sm_channel := payload ! 0, sm_step_count := step_count,
                  sm_txn_id := Wire_ReadU16 payload 2, sm_first_seq := Wire_ReadU32 payload 4,
                  sm_flags := payload ! 8, sm_records := drop TXN_STEPS_FIXED_FIELDS_SIZE payload,
                  sm_records_size := records_size\<rparr>))"

section \<open>Records on the wire\<close>

definition step_image :: "TxnStep \<Rightarrow> bytes" where
  "step_image s = [st_template_id s, st_flags s, st_payload_length s, st_frame_flags s] @ le32 (st_can_id s) @
     zero_pad (paddedPayloadSize (st_payload_length s)) (take (unat (st_payload_length s)) (st_payload s)) @
     (if bit (st_flags s) 0 then le64 (st_expect_value s) else [])"

definition step_received :: "TxnStep \<Rightarrow> TxnStep" where
  "step_received s = s\<lparr>st_payload := zero_pad 255 (take (unat (st_payload_length s)) (st_payload s)),
     st_expect_value := (if bit (st_flags s) 0 then st_expect_value s else 0)\<rparr>"

lemma unat_u8_le: "unat (n :: u8) \<le> 255"
proof (rule less_Suc_eq_le [THEN iffD1])
  show "unat n < Suc 255"
    by (rule order_less_le_trans [OF unsigned_less]) simp
qed

lemma padded_bounds: "unat n \<le> paddedPayloadSize n" "paddedPayloadSize n \<le> 256"
proof -
  have "unat n + 7 < 8 * 33"
    using unat_u8_le [of n] by simp
  then show "unat n \<le> paddedPayloadSize n" "paddedPayloadSize n \<le> 256"
    using div_less_iff_less_mult [of 8 "unat n + 7" 33] by (auto simp: paddedPayloadSize_def)
qed

lemma length_step_image [simp]:
  assumes "length (st_payload s) = 255"
  shows "length (step_image s) = TxnStep_RecordSize s"
proof -
  have "unat (st_payload_length s) \<le> 255"
    by (rule unat_u8_le)
  then show ?thesis
    using assms padded_bounds(1) [of "st_payload_length s"]
    by (simp add: step_image_def TxnStep_RecordSize_def recordSize_def Let_def)
qed

lemma record_size_bounds: "8 \<le> TxnStep_RecordSize s" "TxnStep_RecordSize s \<le> 272"
  using padded_bounds(2) [of "st_payload_length s"]
  by (auto simp: TxnStep_RecordSize_def recordSize_def Let_def)

lemma TxnStep_Encode_skip:
  "TxnStep_Encode s (pre @ xs) (length pre) available =
     (let (n, ys) = TxnStep_Encode s xs 0 available in (n, pre @ ys))"
proof -
  have at: "mem_write (pre @ ys) (length pre + k) bs = pre @ mem_write ys k bs" for ys k bs
    by (simp add: mem_write_skip)
  show ?thesis
    unfolding TxnStep_Encode_def Let_def
    by (simp add: at [of _ 0, simplified] at Wire_Write_skip add.assoc del: add_Suc_right add_2_eq_Suc')
qed

lemma TxnStep_Encode_image:
  assumes "length (st_payload s) = 255"
  shows "TxnStep_Encode s (pre @ room @ post) (length pre) (length room) =
    (if isStepValid s \<and> TxnStep_RecordSize s \<le> length room
     then (TxnStep_RecordSize s, pre @ step_image s @ drop (TxnStep_RecordSize s) room @ post)
     else (0, pre @ room @ post))"
proof (cases "isStepValid s \<and> TxnStep_RecordSize s \<le> length room")
  case True
  let ?n = "unat (st_payload_length s)" and ?k = "paddedPayloadSize (st_payload_length s)"
  let ?e = "if bit (st_flags s) 0 then 8 else 0 :: nat"
  let ?rest = "drop (TxnStep_RecordSize s) room @ post"
  have sz: "TxnStep_RecordSize s = 8 + ?k + ?e"
    by (simp add: TxnStep_RecordSize_def recordSize_def Let_def)
  have n: "?n \<le> ?k" "length (take ?n (st_payload s)) = ?n"
    using padded_bounds(1) assms unat_u8_le [of "st_payload_length s"] by simp_all
  have zeroed: "mem_write (room @ post) 0 (replicate (TxnStep_RecordSize s) 0) =
      replicate (8 + ?k) 0 @ replicate ?e 0 @ ?rest"
    using True by (simp add: mem_write_start sz replicate_add)
  have head: "mem_write (Wire_WriteU32 (mem_write (mem_write (mem_write (mem_write (replicate (8 + ?k) 0 @ ys) 0
      [st_template_id s]) (Suc 0) [st_flags s]) (Suc (Suc 0)) [st_payload_length s]) 3 [st_frame_flags s]) 4 (st_can_id s)) 8
      (take ?n (st_payload s)) = ([st_template_id s, st_flags s, st_payload_length s, st_frame_flags s] @
      le32 (st_can_id s) @ zero_pad ?k (take ?n (st_payload s))) @ ys" for ys
    using n by (simp add: layout zero_pad_def)
  have "Wire_WriteU64 (xs @ replicate 8 0 @ ?rest) (8 + ?k) v = xs @ le64 v @ ?rest" if "length xs = 8 + ?k" for xs v
    using that by (simp add: layout)
  note tail = this [of "[st_template_id s, st_flags s, st_payload_length s, st_frame_flags s] @ le32 (st_can_id s) @
      zero_pad ?k (take ?n (st_payload s))" "st_expect_value s", simplified]
  have "TxnStep_Encode s (room @ post) 0 (length room) = (TxnStep_RecordSize s, step_image s @ ?rest)"
    using True n tail by (simp add: TxnStep_Encode_def Let_def zeroed head step_image_def)
  then show ?thesis
    using True by (simp add: TxnStep_Encode_skip)
next
  case False
  then show ?thesis
    by (auto simp: TxnStep_Encode_def Let_def)
qed

lemma isStepValid_cong:
  "st_template_id s = st_template_id t \<Longrightarrow> st_flags s = st_flags t \<Longrightarrow> st_payload_length s = st_payload_length t \<Longrightarrow>
   st_frame_flags s = st_frame_flags t \<Longrightarrow> isStepValid s = isStepValid t"
  by (simp add: isStepValid_def isMessageRecordValid_def)

lemma TxnStep_Decode_image:
  assumes "length (st_payload s) = 255" and "isStepValid s" and "TxnStep_RecordSize s \<le> available"
  shows "TxnStep_Decode old (pre @ step_image s @ post) (length pre) available = (TxnStep_RecordSize s, step_received s)"
proof -
  let ?n = "unat (st_payload_length s)" and ?k = "paddedPayloadSize (st_payload_length s)"
  let ?p = "pre @ step_image s @ post"
  have n: "?n \<le> ?k" "length (take ?n (st_payload s)) = ?n" "?n \<le> 255"
    using padded_bounds(1) assms unat_u8_le [of "st_payload_length s"] by simp_all
  have fields: "?p ! length pre = st_template_id s" "?p ! (length pre + 1) = st_flags s"
    "?p ! (length pre + 2) = st_payload_length s" "?p ! (length pre + 3) = st_frame_flags s"
    "Wire_ReadU32 ?p (length pre + 4) = st_can_id s" "mem_read ?p (length pre + 8) ?n = take ?n (st_payload s)"
    "bit (st_flags s) 0 \<Longrightarrow> Wire_ReadU64 ?p (length pre + 8 + ?k) = st_expect_value s"
    using n by (simp_all add: step_image_def layout zero_pad_def)
  define head where "head = TxnStep_zero\<lparr>st_template_id := st_template_id s, st_flags := st_flags s,
      st_payload_length := st_payload_length s, st_frame_flags := st_frame_flags s, st_can_id := st_can_id s\<rparr>"
  have "isStepValid head" "TxnStep_RecordSize head = TxnStep_RecordSize s" "8 \<le> available"
    using assms record_size_bounds(1) [of s] isStepValid_cong [of head s]
    by (auto simp: head_def TxnStep_RecordSize_def)
  moreover have "mem_write (replicate 255 0) 0 (take ?n (st_payload s)) = zero_pad 255 (take ?n (st_payload s))"
    using n mem_write_zeroes(2) [of 0 "take ?n (st_payload s)" 255] by (simp add: zero_pad_def)
  ultimately show ?thesis
    using assms(3) fields
    by (simp add: TxnStep_Decode_def Let_def head_def [symmetric] del: One_nat_def)
      (simp add: head_def TxnStep_zero_def step_received_def)
qed

section \<open>Writing and reading a batch\<close>

definition batch_head :: "TxnStepsMessage \<Rightarrow> bytes" where
  "batch_head m = [sm_channel m, 0] @ le16 (sm_txn_id m) @ le32 (sm_first_seq m) @ [sm_flags m] @ replicate 3 0"

lemma length_batch_head [simp]: "length (batch_head m) = 12"
  by (simp add: batch_head_def)

text \<open>The writer after it has accepted the steps \<open>ss\<close>.\<close>

definition holds_batch :: "TxnStepsMessage \<Rightarrow> nat \<Rightarrow> TxnStep list \<Rightarrow> TxnStepsWriter \<Rightarrow> bool" where
  "holds_batch m sz ss w \<longleftrightarrow>
     (\<exists>hd room. sw_buffer w = hd @ batch_head m @ concat (map step_image ss) @ room \<and> length hd = 4 \<and>
        length (sw_buffer w) = sz) \<and>
     sw_buffer_size w = sz \<and> sz < 2 ^ 64 \<and>
     sw_records_size w = length (concat (map step_image ss)) \<and> sw_records_size w \<le> 400 \<and>
     sw_step_count w = length ss \<and> length ss \<le> 255 \<and>
     list_all (\<lambda>s. isStepValid s \<and> length (st_payload s) = 255) ss"

lemma TxnStepsWriter_Init_holds:
  assumes "16 \<le> length buf" and "length buf < 2 ^ 64"
  shows "\<exists>w. TxnStepsWriter_Init w0 m buf = (True, w) \<and> holds_batch m (length buf) [] w"
proof -
  have zeroed: "mem_write buf 4 (replicate 12 0) = take 4 buf @ replicate 12 0 @ drop 16 buf"
    by (simp add: mem_write_def)
  have "length (take 4 buf) = 4"
    using assms by simp
  then have "mem_write (Wire_WriteU32 (Wire_WriteU16 (mem_write (take 4 buf @ replicate 12 0 @ drop 16 buf) 4 [sm_channel m])
      6 (sm_txn_id m)) 8 (sm_first_seq m)) 12 [sm_flags m] = take 4 buf @ batch_head m @ drop 16 buf"
    by (simp add: layout batch_head_def del: length_take)
  then show ?thesis
    using assms by (auto simp: TxnStepsWriter_Init_def zeroed holds_batch_def Let_def)
qed

lemma TxnStepsWriter_Append_holds:
  assumes "holds_batch m sz ss w" and "length (st_payload s) = 255"
  shows "\<exists>w'. TxnStepsWriter_Append w s = (length ss < 255 \<and> isStepValid s \<and>
        length (concat (map step_image ss)) + TxnStep_RecordSize s \<le> min 400 (sz - 16), w') \<and>
      holds_batch m sz (if fst (TxnStepsWriter_Append w s) then ss @ [s] else ss) w'"
proof -
  let ?rs = "concat (map step_image ss)" and ?rec = "TxnStep_RecordSize s"
  obtain hd room where buf: "sw_buffer w = hd @ batch_head m @ ?rs @ room" and hd: "length hd = 4"
    and len: "length (sw_buffer w) = sz" and w: "sw_buffer_size w = sz" "sw_records_size w = length ?rs"
      "sw_step_count w = length ss"
    and bounds: "sz < 2 ^ 64" "length ?rs \<le> 400" "length ss \<le> 255" "length room = sz - 16 - length ?rs" "16 + length ?rs \<le> sz"
    and ok: "list_all (\<lambda>s. isStepValid s \<and> length (st_payload s) = 255) ss"
    using assms(1) unfolding holds_batch_def by auto
  have room: "writerRoom w = min (400 - length ?rs) (length room)"
    using bounds by (simp add: writerRoom_def w wrap_sub_id Let_def min_def)
  obtain here rest where split: "room = here @ rest" and here: "length here = writerRoom w"
    by (metis append_take_drop_id length_take min.absorb2 min.cobounded2 room)
  have enc: "TxnStep_Encode s (sw_buffer w) (16 + length ?rs) (writerRoom w) =
      (if isStepValid s \<and> ?rec \<le> writerRoom w
       then (?rec, hd @ batch_head m @ ?rs @ step_image s @ drop ?rec here @ rest) else (0, sw_buffer w))"
    using TxnStep_Encode_image [OF assms(2), of "hd @ batch_head m @ ?rs" here rest] hd here
    by (simp add: buf split)
  show ?thesis
  proof (cases "length ss < 255 \<and> isStepValid s \<and> ?rec \<le> writerRoom w")
    case True
    then have "length ?rs + ?rec \<le> min 400 (sz - 16)" "0 < ?rec" "length ?rs + ?rec \<le> 400" "length ss < 255"
      using room bounds record_size_bounds(1) [of s] by auto
    then show ?thesis
      using True enc hd ok len bounds assms(2) here split
      by (auto simp: TxnStepsWriter_Append_def w Let_def holds_batch_def buf)
  next
    case False
    then have "\<not> (length ss < 255 \<and> isStepValid s \<and> length ?rs + ?rec \<le> min 400 (sz - 16))"
      using room bounds by auto
    then show ?thesis
      using False enc assms(1) bounds record_size_bounds(1) [of s]
      by (auto simp: TxnStepsWriter_Append_def w Let_def)
  qed
qed

text \<open>The steps a writer with room for \<open>cap\<close> bytes of records takes when it is offered one after
  the other: each one that is valid, still fits and is not the 256th.\<close>

fun packed :: "nat \<Rightarrow> TxnStep list \<Rightarrow> TxnStep list \<Rightarrow> TxnStep list" where
  "packed cap sent [] = sent"
| "packed cap sent (s # ss) =
     packed cap (if length sent < 255 \<and> isStepValid s \<and>
         sum_list (map TxnStep_RecordSize sent) + TxnStep_RecordSize s \<le> cap then sent @ [s] else sent) ss"

lemma records_length:
  "list_all (\<lambda>s. isStepValid s \<and> length (st_payload s) = 255) ss \<Longrightarrow>
   length (concat (map step_image ss)) = sum_list (map TxnStep_RecordSize ss)"
  by (induction ss) auto

lemma run_Append_holds:
  assumes "holds_batch m sz sent w" and "list_all (\<lambda>s. length (st_payload s) = 255) ss"
  shows "holds_batch m sz (packed (min 400 (sz - 16)) sent ss) (snd (run TxnStepsWriter_Append w ss)) \<and>
    packed (min 400 (sz - 16)) sent ss =
      sent @ map snd (filter fst (zip (fst (run TxnStepsWriter_Append w ss)) ss))"
  using assms
proof (induction ss arbitrary: sent w)
  case (Cons s ss)
  let ?ok = "length sent < 255 \<and> isStepValid s \<and>
      sum_list (map TxnStep_RecordSize sent) + TxnStep_RecordSize s \<le> min 400 (sz - 16)"
  have "length (concat (map step_image sent)) = sum_list (map TxnStep_RecordSize sent)"
    using Cons.prems(1) by (intro records_length) (simp add: holds_batch_def)
  then obtain w' where w': "TxnStepsWriter_Append w s = (?ok, w')" "holds_batch m sz (if ?ok then sent @ [s] else sent) w'"
    using TxnStepsWriter_Append_holds [OF Cons.prems(1), of s] Cons.prems(2) by auto
  show ?case
    using Cons.IH [OF w'(2)] Cons.prems(2) w'(1) by (cases ?ok) (auto simp: split_beta)
qed simp

lemma scan_records_all:
  assumes "list_all (\<lambda>s. isStepValid s \<and> length (st_payload s) = 255) (done @ ss)"
    and "length (concat (map step_image (done @ ss))) < 2 ^ 64"
  shows "scan_records (length ss) old (pre @ concat (map step_image (done @ ss))) (length pre)
      (length (concat (map step_image (done @ ss)))) (length (concat (map step_image done))) =
    Some (length (concat (map step_image (done @ ss))))"
  using assms
proof (induction ss arbitrary: old "done")
  case (Cons s ss)
  let ?d = "concat (map step_image done)" and ?r = "concat (map step_image ss)"
  have "TxnStep_Decode old ((pre @ ?d) @ step_image s @ ?r) (length (pre @ ?d)) (length (step_image s) + length ?r) =
      (TxnStep_RecordSize s, step_received s)"
    using Cons.prems(1) by (intro TxnStep_Decode_image) auto
  moreover have "wrap_sub 64 (length ?d + (length (step_image s) + length ?r)) (length ?d) = length (step_image s) + length ?r"
    using Cons.prems(2) by (subst wrap_sub_id) auto
  moreover have "0 < TxnStep_RecordSize s"
    using record_size_bounds(1) [of s] by simp
  ultimately show ?case
    using Cons.IH [of "done @ [s]" "step_received s"] Cons.prems by (simp add: add.assoc)
qed simp

definition batch_received :: "TxnStepsMessage \<Rightarrow> bool \<Rightarrow> TxnStep list \<Rightarrow> TxnStepsMessage" where
  "batch_received m final sent = m\<lparr>sm_step_count := of_nat (length sent),
     sm_flags := (if final then sm_flags m OR TXN_STEPS_FLAG_END else sm_flags m),
     sm_records := concat (map step_image sent), sm_records_size := sum_list (map TxnStep_RecordSize sent)\<rparr>"

lemma Finish_image:
  assumes "holds_batch m sz sent w" and w': "w' = (if final then TxnStepsWriter_MarkEnd w else w)"
    and flags: "flags = (if final then sm_flags m OR TXN_STEPS_FLAG_END else sm_flags m)"
  shows "\<exists>room. TxnStepsWriter_Finish w' = (16 + length (concat (map step_image sent)),
      w'\<lparr>sw_buffer := header_image kMESSAGE_TYPE_TXN_STEPS (12 + length (concat (map step_image sent))) @
        [sm_channel m, of_nat (length sent)] @ le16 (sm_txn_id m) @ le32 (sm_first_seq m) @ [flags] @ replicate 3 0 @
        concat (map step_image sent) @ room\<rparr>) \<and>
      16 + length (concat (map step_image sent)) + length room = sz"
proof -
  let ?rs = "concat (map step_image sent)"
  obtain hd room where buf: "sw_buffer w = hd @ batch_head m @ ?rs @ room" and hd: "length hd = 4"
    and len: "length (sw_buffer w) = sz" and w: "sw_records_size w = length ?rs" "sw_step_count w = length sent"
    and bounds: "length ?rs \<le> 400" "length sent \<le> 255"
    using assms(1) unfolding holds_batch_def by auto
  have marked: "sw_buffer w' = hd @ batch_head (m\<lparr>sm_flags := flags\<rparr>) @ ?rs @ room"
    and same: "sw_records_size w' = length ?rs" "sw_step_count w' = length sent"
    using hd by (simp_all add: w' flags TxnStepsWriter_MarkEnd_def buf w batch_head_def layout mem_write_head)
  have "mem_write (hd @ ys) 0 (header_image t n) = header_image t n @ ys" for t n ys
    using hd by (simp add: mem_write_start)
  then have "TxnStepsWriter_Finish w' = (16 + length ?rs, w'\<lparr>sw_buffer :=
      header_image kMESSAGE_TYPE_TXN_STEPS (12 + length ?rs) @
        [sm_channel m, of_nat (length sent)] @ le16 (sm_txn_id m) @ le32 (sm_first_seq m) @ [flags] @ replicate 3 0 @
        ?rs @ room\<rparr>)"
    using bounds by (simp add: TxnStepsWriter_Finish_def marked same batch_head_def Let_def layout mem_write_head)
  then show ?thesis
    using len hd by (auto simp: buf)
qed

lemma batch_decoded:
  assumes "list_all (\<lambda>s. isStepValid s \<and> length (st_payload s) = 255) sent" and "length sent \<le> 255"
    and "length (concat (map step_image sent)) \<le> 400"
  shows "TxnStepsMessage_Decode old ([c, of_nat (length sent)] @ le16 t @ le32 q @ [f] @ replicate 3 0 @ concat (map step_image sent)) =
    (True, \<lparr>sm_channel = c, sm_step_count = of_nat (length sent), sm_txn_id = t, sm_first_seq = q, sm_flags = f,
      sm_records = concat (map step_image sent), sm_records_size = length (concat (map step_image sent))\<rparr>)"
proof -
  let ?head = "[c, of_nat (length sent)] @ le16 t @ le32 q @ [f] @ replicate 3 0"
  let ?rs = "concat (map step_image sent)"
  have "unat (of_nat (length sent) :: u8) = length sent"
    using assms(2) by (simp add: unat_of_nat take_bit_nat_eq_self)
  then have "areRecordsWellFormed (?head @ ?rs) 12 (length ?rs) (of_nat (length sent))"
    using scan_records_all [of "[]" sent TxnStep_zero ?head] assms by (simp add: areRecordsWellFormed_def)
  then show ?thesis
    using assms(3) by (simp add: TxnStepsMessage_Decode_def layout Let_def)
qed

lemma batch_step_decoded:
  assumes "list_all (\<lambda>s. isStepValid s \<and> length (st_payload s) = 255) sent" and i: "i < length sent" and "length head = 12"
  shows "TxnStep_Decode step (head @ concat (map step_image sent)) (12 + sum_list (map TxnStep_RecordSize (take i sent)))
      (length (concat (map step_image sent)) - sum_list (map TxnStep_RecordSize (take i sent))) =
    (TxnStep_RecordSize (sent ! i), step_received (sent ! i))"
proof -
  let ?before = "concat (map step_image (take i sent))" and ?after = "concat (map step_image (drop (Suc i) sent))"
  have upto: "length ?before = sum_list (map TxnStep_RecordSize (take i sent))"
    using assms(1) by (intro records_length) (auto simp: list_all_iff dest: in_set_takeD)
  have one: "length (st_payload (sent ! i)) = 255" "isStepValid (sent ! i)"
    using assms(1) i by (simp_all add: list_all_length)
  have rs: "concat (map step_image sent) = ?before @ step_image (sent ! i) @ ?after"
    by (subst id_take_nth_drop [OF i]) simp
  have "TxnStep_Decode step ((head @ ?before) @ step_image (sent ! i) @ ?after) (length (head @ ?before))
      (length (step_image (sent ! i)) + length ?after) = (TxnStep_RecordSize (sent ! i), step_received (sent ! i))"
    using one by (intro TxnStep_Decode_image) simp_all
  then show ?thesis
    using upto one assms(3) by (simp add: rs)
qed

section \<open>Properties\<close>

text \<open>
  C36. Whatever steps are offered to the writer, the finished message has the type TXN_STEPS, at
  most 400 bytes of records and the size that \<open>Finish\<close> reports; it holds exactly the steps the
  writer accepted, which are those that are valid and fit, in order; the receiver accepts it, and
  decoding the records one after the other gives those steps back, with their payload and, where
  the step has one, its expected value.
\<close>

theorem TxnSteps_batch_delivered:
  assumes "16 \<le> length buf" and "length buf < 2 ^ 64" and "list_all (\<lambda>s. length (st_payload s) = 255) steps"
  shows "let (ok, w) = TxnStepsWriter_Init w0 m buf;
      (oks, w) = run TxnStepsWriter_Append w steps;
      (n, w) = TxnStepsWriter_Finish (if final then TxnStepsWriter_MarkEnd w else w);
      sent = map snd (filter fst (zip oks steps));
      body = mem_read (sw_buffer w) 4 (n - 4)
    in ok \<and> sent = packed (min 400 (length buf - 16)) [] steps \<and> n \<le> 416 \<and> length (sw_buffer w) = length buf \<and>
      MessageHeader_Decode (sw_buffer w) = Some \<lparr>mh_type = kMESSAGE_TYPE_TXN_STEPS, mh_flags = 0, mh_length = of_nat (n - 4)\<rparr> \<and>
      TxnStepsMessage_Decode old body = (True, batch_received m final sent) \<and>
      (\<forall>i < length sent. TxnStep_Decode step body (12 + sum_list (map TxnStep_RecordSize (take i sent)))
        (n - 16 - sum_list (map TxnStep_RecordSize (take i sent))) = (TxnStep_RecordSize (sent ! i), step_received (sent ! i)))"
proof -
  define sent where "sent = packed (min 400 (length buf - 16)) [] steps"
  define f where "f = (if final then sm_flags m OR TXN_STEPS_FLAG_END else sm_flags m)"
  define rs where "rs = concat (map step_image sent)"
  define head where "head = [sm_channel m, of_nat (length sent)] @ le16 (sm_txn_id m) @ le32 (sm_first_seq m) @ [f] @ replicate 3 0"
  obtain w where init: "TxnStepsWriter_Init w0 m buf = (True, w)" and "holds_batch m (length buf) [] w"
    using TxnStepsWriter_Init_holds [OF assms(1,2)] by blast
  then obtain oks w' where app: "run TxnStepsWriter_Append w steps = (oks, w')" and held: "holds_batch m (length buf) sent w'"
    and accepted: "map snd (filter fst (zip oks steps)) = sent"
    using run_Append_holds [of m "length buf" "[]" w steps] assms(3) unfolding sent_def by (metis append_Nil prod.collapse)
  have fine: "list_all (\<lambda>s. isStepValid s \<and> length (st_payload s) = 255) sent" "length sent \<le> 255" "length rs \<le> 400"
    using held by (simp_all add: holds_batch_def rs_def)
  obtain room w'' where fin: "TxnStepsWriter_Finish (if final then TxnStepsWriter_MarkEnd w' else w') = (16 + length rs, w'')"
    and buf: "sw_buffer w'' = header_image kMESSAGE_TYPE_TXN_STEPS (12 + length rs) @ head @ rs @ room"
    and len: "16 + length rs + length room = length buf"
    using Finish_image [OF held refl f_def] unfolding rs_def head_def by fastforce
  have twelve: "length head = 12"
    by (simp add: head_def)
  then have body: "mem_read (sw_buffer w'') 4 (12 + length rs) = head @ rs"
    by (simp add: buf mem_read_def)
  have each: "TxnStep_Decode step (head @ rs) (12 + sum_list (map TxnStep_RecordSize (take i sent)))
      (length rs - sum_list (map TxnStep_RecordSize (take i sent))) = (TxnStep_RecordSize (sent ! i), step_received (sent ! i))"
    if "i < length sent" for i
    unfolding rs_def by (rule batch_step_decoded [OF fine(1) that twelve])
  have all: "TxnStepsMessage_Decode old (head @ rs) = (True, batch_received m final sent)"
    using batch_decoded [OF fine(1,2), of old "sm_channel m" "sm_txn_id m" "sm_first_seq m" f] fine(3) records_length [OF fine(1)]
    by (simp add: batch_received_def head_def rs_def f_def)
  have "length (sw_buffer w'') = length buf"
    using twelve len by (simp add: buf)
  then show ?thesis
    using fine(3) each all body unfolding sent_def [symmetric]
    by (simp only: init app fin Let_def prod.case accepted) (simp add: buf MessageHeader_Decode_image)
qed

definition sample_step :: "u8 \<Rightarrow> u8 \<Rightarrow> TxnStep" where
  "sample_step template_id flags = \<lparr>st_template_id = template_id, st_flags = flags, st_payload_length = 3, st_frame_flags = 0,
     st_can_id = 0x123, st_expect_value = 9, st_payload = replicate 255 7\<rparr>"

definition sample_batch :: TxnStepsMessage where
  "sample_batch = \<lparr>sm_channel = 1, sm_step_count = 0, sm_txn_id = 2, sm_first_seq = 3, sm_flags = 0, sm_records = [],
     sm_records_size = 0\<rparr>"

theorem TxnSteps_batch_delivered_witness:
  "packed (min 400 84) [] [sample_step 1 0, sample_step 16 0, sample_step 2 1] = [sample_step 1 0, sample_step 2 1] \<and>
   (let (ok, w) = TxnStepsWriter_Init \<lparr>sw_buffer = [], sw_buffer_size = 0, sw_records_size = 0, sw_step_count = 0\<rparr>
         sample_batch (replicate 100 0);
       (oks, w) = run TxnStepsWriter_Append w [sample_step 1 0, sample_step 16 0, sample_step 2 1];
       (n, w) = TxnStepsWriter_Finish (TxnStepsWriter_MarkEnd w);
       sent = map snd (filter fst (zip oks [sample_step 1 0, sample_step 16 0, sample_step 2 1]))
    in sent = packed (min 400 84) [] [sample_step 1 0, sample_step 16 0, sample_step 2 1] \<and>
       TxnStepsMessage_Decode sample_batch (mem_read (sw_buffer w) 4 (n - 4)) = (True, batch_received sample_batch True sent))"
  using TxnSteps_batch_delivered [of "replicate 100 0" "[sample_step 1 0, sample_step 16 0, sample_step 2 1]"
      "\<lparr>sw_buffer = [], sw_buffer_size = 0, sw_records_size = 0, sw_step_count = 0\<rparr>" sample_batch True sample_batch TxnStep_zero]
  by (simp add: split_beta Let_def sample_step_def isStepValid_def FrameMessage_IsPayloadLengthValid_def
      TxnStep_RecordSize_def recordSize_def paddedPayloadSize_def)

end
