(* ===== verification/HubPorts.thy ===== *)
theory HubPorts
  imports AdminViews BridgeTargets AdminBridgeMessages IfconfigMessages TxnSteps
begin

text \<open>
  The broker's state and its ports (\<open>hub/broker.h\<close>, \<open>hub/ports\<close>).  The ports are tables of
  functions implemented by the platform: they are parameters of the model.  Every call the broker
  makes with an effect outside the hub is appended to the trace \<open>bk_calls\<close>, together with the
  events that started it, and what a port answers may depend on the whole trace so far: nothing is
  assumed about it.  The scratch arrays \<open>bridge_targets\<close> and \<open>frame_routes\<close> of the struct carry no
  value from one call to the next and are results of the functions that fill them.
\<close>

section \<open>Ports\<close>

record HubPeerConnectInfo =
  ci_fingerprint_hex :: "bytes option"
  ci_origin :: "bytes option"
  ci_origin_host :: "bytes option"
  ci_transport_kind :: u8
  ci_local :: bool

record AclEntry =
  ae_fingerprint_hex :: bytes
  ae_agent_name :: bytes
  ae_interface_name :: bytes
  ae_can_read :: bool
  ae_can_write :: bool
  ae_can_admin :: bool

record IdentityPin =
  pin_agent_name :: bytes
  pin_fingerprint_hex :: bytes

datatype HubEvent =
    PeerConnected u32 HubPeerConnectInfo nat
  | PeerDisconnected u32 nat
  | PeerControl u32 bytes nat
  | PeerFrame u32 bytes
  | PeerWritable u32
  | HubTick nat

datatype HubCall =
    Started HubEvent
  | SendControl u32 bytes
  | SendFrame u32 u8 bytes
  | SetChannelMode u32 u8 bool
  | ClosePeer u32
  | PinAgent bytes bytes
  | EnrollAgent bytes bytes
  | ForgetAgent bytes
  | GrantAccess AclEntry
  | RevokeAccess bytes bytes bytes
  | SaveRoute BridgeRoute
  | RemoveRoute BridgeEndpoint BridgeEndpoint
  | SaveGroup BridgeGroup
  | RemoveGroup bytes
  | AddMember bytes BridgeGroupMember
  | RemoveMember bytes BridgeEndpoint

type_synonym history = "HubCall list"

record HubTransportPort =
  htp_send_control :: "history \<Rightarrow> u32 \<Rightarrow> bytes \<Rightarrow> bool"
  htp_send_frame :: "history \<Rightarrow> u32 \<Rightarrow> u8 \<Rightarrow> bytes \<Rightarrow> bool"
  htp_frame_fits :: "history \<Rightarrow> u32 \<Rightarrow> u8 \<Rightarrow> nat \<Rightarrow> bool"
  htp_channel_reliable :: "history \<Rightarrow> u32 \<Rightarrow> u8 \<Rightarrow> bool"
  htp_receive_overflows :: "history \<Rightarrow> u32"

record IdentityStorePort =
  isp_lookup :: "history \<Rightarrow> bytes \<Rightarrow> bytes option"
  isp_knows :: "history \<Rightarrow> bytes \<Rightarrow> bool"
  isp_count_first_contact :: "history \<Rightarrow> u32"
  isp_pin :: "history \<Rightarrow> bytes \<Rightarrow> bytes \<Rightarrow> bool"
  isp_enroll :: "history \<Rightarrow> bytes \<Rightarrow> bytes \<Rightarrow> bool"
  isp_forget :: "history \<Rightarrow> bytes \<Rightarrow> bool"
  isp_list :: "history \<Rightarrow> u16 \<Rightarrow> u8 \<times> IdentityPin list \<times> bool"

record AuthorizationPort =
  azp_read_allowed :: "history \<Rightarrow> bytes \<Rightarrow> bytes \<Rightarrow> bytes \<Rightarrow> bool"
  azp_write_allowed :: "history \<Rightarrow> bytes \<Rightarrow> bytes \<Rightarrow> bytes \<Rightarrow> bool"
  azp_admin_allowed :: "history \<Rightarrow> bytes \<Rightarrow> bytes \<Rightarrow> bytes \<Rightarrow> bool"
  azp_grant :: "history \<Rightarrow> AclEntry \<Rightarrow> bool"
  azp_revoke :: "history \<Rightarrow> bytes \<Rightarrow> bytes \<Rightarrow> bytes \<Rightarrow> bool"
  azp_list :: "history \<Rightarrow> u16 \<Rightarrow> u8 \<times> AclEntry list \<times> bool"
  azp_knows :: "history \<Rightarrow> bytes \<Rightarrow> bool"

record BridgeStorePort =
  bsp_save :: "history \<Rightarrow> BridgeRoute \<Rightarrow> bool"
  bsp_remove :: "history \<Rightarrow> BridgeEndpoint \<Rightarrow> BridgeEndpoint \<Rightarrow> bool"
  bsp_load :: "history \<Rightarrow> nat \<Rightarrow> BridgeRoute option"
  bsp_save_group :: "history \<Rightarrow> BridgeGroup \<Rightarrow> bool"
  bsp_remove_group :: "history \<Rightarrow> bytes \<Rightarrow> bool"
  bsp_add_member :: "history \<Rightarrow> bytes \<Rightarrow> BridgeGroupMember \<Rightarrow> bool"
  bsp_remove_member :: "history \<Rightarrow> bytes \<Rightarrow> BridgeEndpoint \<Rightarrow> bool"
  bsp_load_group :: "history \<Rightarrow> nat \<Rightarrow> BridgeGroup option"

record HubPorts =
  hub_transport :: HubTransportPort
  hub_identity_store :: "IdentityStorePort option"
  hub_authorization :: "AuthorizationPort option"
  hub_bridge_store :: "BridgeStorePort option"

section \<open>The state of the broker\<close>

record HubMetrics =
  hm_frames_received :: u64
  hm_frames_forwarded :: u64
  hm_frames_dropped :: u64
  hm_frames_unroutable :: u64
  hm_transactions :: TransactionCounters

record PendingIfconfig =
  pi_in_use :: bool
  pi_requester_peer_id :: u32
  pi_agent_peer_id :: u32
  pi_interface_id :: u32
  pi_request_id :: u32

record Broker =
  bk_registry :: InterfaceRegistry
  bk_bridges :: BridgeRoutes
  bk_groups :: BridgeGroups
  bk_directory :: PeerDirectory
  bk_metrics :: HubMetrics
  bk_pending_ifconfig :: "PendingIfconfig list"
  bk_transactions :: TransactionTable
  bk_next_ifconfig_request_id :: u32
  bk_rejected_peers :: RejectedPeers
  bk_require_known_peers :: bool
  bk_now_us :: nat
  bk_calls :: history

abbreviation (input) BROKER_PENDING_IFCONFIG_MAX :: nat where "BROKER_PENDING_IFCONFIG_MAX \<equiv> 16"

text \<open>Access to a peer by its index, and the updates the functions below are written with.\<close>

abbreviation peer_at :: "Broker \<Rightarrow> nat \<Rightarrow> HubPeer" where
  "peer_at self i \<equiv> pd_peers (bk_directory self) ! i"

definition with_peer :: "Broker \<Rightarrow> nat \<Rightarrow> (HubPeer \<Rightarrow> HubPeer) \<Rightarrow> Broker" where
  "with_peer self i f = self\<lparr>bk_directory := (bk_directory self)
     \<lparr>pd_peers := (pd_peers (bk_directory self))[i := f (peer_at self i)]\<rparr>\<rparr>"

definition with_metrics :: "Broker \<Rightarrow> (HubMetrics \<Rightarrow> HubMetrics) \<Rightarrow> Broker" where
  "with_metrics self f = self\<lparr>bk_metrics := f (bk_metrics self)\<rparr>"

definition with_counters :: "Broker \<Rightarrow> (TransactionCounters \<Rightarrow> TransactionCounters) \<Rightarrow> Broker" where
  "with_counters self f = with_metrics self (\<lambda>m. m\<lparr>hm_transactions := f (hm_transactions m)\<rparr>)"

definition with_transaction :: "Broker \<Rightarrow> nat \<Rightarrow> (RelayedTransaction \<Rightarrow> RelayedTransaction) \<Rightarrow> Broker" where
  "with_transaction self t f = self\<lparr>bk_transactions := (bk_transactions self)
     \<lparr>tt_entries := (tt_entries (bk_transactions self))[t := f (tt_entries (bk_transactions self) ! t)]\<rparr>\<rparr>"

abbreviation transaction_at :: "Broker \<Rightarrow> nat \<Rightarrow> RelayedTransaction" where
  "transaction_at self t \<equiv> tt_entries (bk_transactions self) ! t"

definition calling :: "Broker \<Rightarrow> HubCall \<Rightarrow> Broker" where
  "calling self c = self\<lparr>bk_calls := bk_calls self @ [c]\<rparr>"

text \<open>A NUL-terminated string constant.\<close>

definition c_text :: "string \<Rightarrow> bytes" where
  "c_text s = map of_char s @ [0]"

abbreviation (input) CONTROL_BUFFER :: bytes where "CONTROL_BUFFER \<equiv> replicate 4096 0"

abbreviation (input) kERROR_CODE_MALFORMED :: u16 where "kERROR_CODE_MALFORMED \<equiv> 1"
abbreviation (input) kERROR_CODE_ROLE_REJECTED :: u16 where "kERROR_CODE_ROLE_REJECTED \<equiv> 2"
abbreviation (input) kERROR_CODE_HUB_FULL :: u16 where "kERROR_CODE_HUB_FULL \<equiv> 3"
abbreviation (input) kERROR_CODE_HELLO_TIMEOUT :: u16 where "kERROR_CODE_HELLO_TIMEOUT \<equiv> 4"
abbreviation (input) kERROR_CODE_KICKED :: u16 where "kERROR_CODE_KICKED \<equiv> 5"
abbreviation (input) kERROR_CODE_SLOW_CONSUMER :: u16 where "kERROR_CODE_SLOW_CONSUMER \<equiv> 6"

section \<open>Sending\<close>

definition sendControl :: "HubPorts \<Rightarrow> Broker \<Rightarrow> nat \<Rightarrow> nat \<times> bytes \<Rightarrow> Broker" where
  "sendControl ports self peer encoded =
     (if fst encoded = 0 then self
      else let id = hp_peer_id (peer_at self peer);
               data = take (fst encoded) (snd encoded);
               sent = htp_send_control (hub_transport ports) (bk_calls self) id data;
               self = calling self (SendControl id data)
           in if \<not> sent then with_peer self peer (\<lambda>p. p\<lparr>hp_send_failed := True\<rparr>) else self)"

definition sendError :: "Broker \<Rightarrow> u32 \<Rightarrow> u16 \<Rightarrow> bytes \<Rightarrow> Broker" where
  "sendError self peer_id code detail =
     (let error = \<lparr>err_code = code, err_detail = BoundedString_Copy (replicate ERROR_DETAIL_SIZE 0) (Some detail)\<rparr>;
          (encoded_size, encoded) = ErrorMessage_Encode error CONTROL_BUFFER
      in calling self (SendControl peer_id (take encoded_size encoded)))"

definition set_channel_mode :: "Broker \<Rightarrow> u32 \<Rightarrow> u8 \<Rightarrow> bool \<Rightarrow> Broker" where
  "set_channel_mode self peer_id channel reliable = calling self (SetChannelMode peer_id channel reliable)"

definition close_peer :: "Broker \<Rightarrow> u32 \<Rightarrow> Broker" where
  "close_peer self peer_id = calling self (ClosePeer peer_id)"

definition send_frame :: "HubPorts \<Rightarrow> Broker \<Rightarrow> u32 \<Rightarrow> u8 \<Rightarrow> bytes \<Rightarrow> bool \<times> Broker" where
  "send_frame ports self peer_id channel data =
     (htp_send_frame (hub_transport ports) (bk_calls self) peer_id channel data, calling self (SendFrame peer_id channel data))"

text \<open>The loop over the live peers that most functions of the broker share.\<close>

definition each_peer :: "(nat \<Rightarrow> Broker \<Rightarrow> Broker) \<Rightarrow> Broker \<Rightarrow> Broker" where
  "each_peer f self =
     fold (\<lambda>i self. case PeerDirectory_At (bk_directory self) i of None \<Rightarrow> self | Some peer \<Rightarrow> f peer self)
       [0..<PEER_DIRECTORY_MAX] self"

end
