(* ===== verification/Broker.thy ===== *)
theory Broker
  imports HubPorts
begin

text \<open>
  The clean-up paths of \<open>hub/broker.c\<close>: leases and transactions, the channels of the clients,
  the release of a peer.  A pointer to a peer is its index in the directory, a pointer to a
  transaction its index in the table; a registry entry is only read, so its pointer is the entry.
  The three loops that run until a search fails are \<open>function\<close>s whose termination is proved
  from what each round takes away.
\<close>

section \<open>Authorization\<close>

definition clientCanRead :: "HubPorts \<Rightarrow> Broker \<Rightarrow> HubPeer \<Rightarrow> InterfaceEntry \<Rightarrow> bool" where
  "clientCanRead ports self peer entry =
     (if hp_fingerprint_hex peer ! 0 = 0 then True
      else case hub_authorization ports of
        None \<Rightarrow> True
      | Some port \<Rightarrow>
          azp_read_allowed port (bk_calls self) (hp_fingerprint_hex peer) (ie_agent_name entry) (ie_interface_name entry))"

definition clientCanWrite :: "HubPorts \<Rightarrow> Broker \<Rightarrow> HubPeer \<Rightarrow> InterfaceEntry \<Rightarrow> bool" where
  "clientCanWrite ports self peer entry =
     (if hp_fingerprint_hex peer ! 0 = 0 then True
      else case hub_authorization ports of
        None \<Rightarrow> True
      | Some port \<Rightarrow>
          azp_write_allowed port (bk_calls self) (hp_fingerprint_hex peer) (ie_agent_name entry) (ie_interface_name entry))"

definition peerCanConfigure :: "HubPorts \<Rightarrow> Broker \<Rightarrow> HubPeer \<Rightarrow> InterfaceEntry \<Rightarrow> bool" where
  "peerCanConfigure ports self peer entry =
     (if hp_role peer = kHUB_PEER_ROLE_ADMIN then True
      else if hp_fingerprint_hex peer ! 0 = 0 then True
      else case hub_authorization ports of
        None \<Rightarrow> True
      | Some port \<Rightarrow>
          azp_admin_allowed port (bk_calls self) (hp_fingerprint_hex peer) (ie_agent_name entry) (ie_interface_name entry))"

abbreviation (input) HELLO_CAP_RELIABLE_CHANNELS :: u32 where "HELLO_CAP_RELIABLE_CHANNELS \<equiv> 1"
abbreviation (input) HELLO_CAP_TRANSACTIONS :: u32 where "HELLO_CAP_TRANSACTIONS \<equiv> 2"
abbreviation (input) HELLO_CAP_ISOTP :: u32 where "HELLO_CAP_ISOTP \<equiv> 4"

definition reliableEndpointsSupport :: "Broker \<Rightarrow> HubPeer \<Rightarrow> InterfaceEntry \<Rightarrow> bool" where
  "reliableEndpointsSupport self client entry =
     (if hp_capabilities client AND HELLO_CAP_RELIABLE_CHANNELS = 0 then False
      else case PeerDirectory_Find (bk_directory self) (ie_agent_peer_id entry) of
        None \<Rightarrow> False
      | Some agent \<Rightarrow> hp_capabilities (peer_at self agent) AND HELLO_CAP_RELIABLE_CHANNELS \<noteq> 0)"

section \<open>Leases\<close>

definition leasedToAnother :: "Broker \<Rightarrow> u32 \<Rightarrow> u32 \<Rightarrow> bool" where
  "leasedToAnother self interface_id client_peer_id =
     (case TransactionTable_LeaseHolder (bk_transactions self) interface_id of
        None \<Rightarrow> False
      | Some holder_peer_id \<Rightarrow> holder_peer_id \<noteq> client_peer_id)"

definition channelLeasedToAnother :: "Broker \<Rightarrow> HubPeer \<Rightarrow> u8 \<Rightarrow> bool" where
  "channelLeasedToAnother self client channel =
     (if \<not> TransactionTable_AnyLease (bk_transactions self) then False
      else case ClientSession_InterfaceForChannel (hp_session client) channel of
        None \<Rightarrow> False
      | Some interface_id \<Rightarrow> leasedToAnother self interface_id (hp_peer_id client))"

definition endpointLeasedToAnother :: "Broker \<Rightarrow> BridgeEndpoint \<Rightarrow> u32 \<Rightarrow> bool" where
  "endpointLeasedToAnother self endpoint client_peer_id =
     (if \<not> TransactionTable_AnyLease (bk_transactions self) then False
      else case InterfaceRegistry_FindByName (bk_registry self) (be_agent_name endpoint) (be_interface_name endpoint) of
        None \<Rightarrow> False
      | Some entry \<Rightarrow> leasedToAnother self (ie_interface_id entry) client_peer_id)"

abbreviation (input) INTERFACE_STATUS_FLAG_LEASED :: u8 where "INTERFACE_STATUS_FLAG_LEASED \<equiv> 2"

definition InterfaceStatusEntry_zero :: InterfaceStatusEntry where
  "InterfaceStatusEntry_zero =
     \<lparr>ise_channel = 0, ise_flags = 0, ise_advertised_rate = 0, ise_credit = 0, ise_tx_dropped = 0\<rparr>"

definition relay_pace :: "HubPorts \<Rightarrow> u32 \<Rightarrow> nat \<Rightarrow> nat \<Rightarrow> Broker \<Rightarrow> Broker" where
  "relay_pace ports interface_id pace_rate peer self =
     (if hp_role (peer_at self peer) \<noteq> kHUB_PEER_ROLE_CLIENT then self
      else case ClientSession_ChannelForInterface (hp_session (peer_at self peer)) interface_id of
        None \<Rightarrow> self
      | Some channel \<Rightarrow>
          let entry = InterfaceStatusEntry_zero\<lparr>ise_channel := channel, ise_advertised_rate := of_nat pace_rate,
                ise_flags := (if leasedToAnother self interface_id (hp_peer_id (peer_at self peer))
                  then INTERFACE_STATUS_FLAG_LEASED else 0)\<rparr>;
              status = \<lparr>ism_interface_count = 1,
                ism_entries = entry # replicate (REGISTER_INTERFACES_MAX - 1) InterfaceStatusEntry_zero\<rparr>
          in sendControl ports self peer (InterfaceStatusMessage_Encode status CONTROL_BUFFER))"

definition relayPaceToClients :: "HubPorts \<Rightarrow> Broker \<Rightarrow> u32 \<Rightarrow> nat \<Rightarrow> Broker" where
  "relayPaceToClients ports self interface_id pace_rate = each_peer (relay_pace ports interface_id pace_rate) self"

definition announceLease :: "HubPorts \<Rightarrow> Broker \<Rightarrow> u32 \<Rightarrow> Broker" where
  "announceLease ports self interface_id =
     (case InterfaceRegistry_FindById (bk_registry self) interface_id of
        None \<Rightarrow> self
      | Some entry \<Rightarrow> relayPaceToClients ports self interface_id (es_rate_bits_per_s (ie_shaper entry)))"

section \<open>The end of a transaction\<close>

definition TxnStatusMessage_zero :: TxnStatusMessage where
  "TxnStatusMessage_zero =
     \<lparr>ts_channel = 0, ts_state = 0, ts_txn_id = 0, ts_failing_seq = 0, ts_offending_origin = 0, ts_seen_bitmap = 0,
      ts_expected = 0, ts_got = 0, ts_completed_steps = 0, ts_reason = 0, ts_flags = 0,
      ts_rx_frame = \<lparr>trx_can_id = 0, trx_payload_length = 0, trx_frame_flags = 0, trx_payload = replicate FRAME_PAYLOAD_MAX_FD 0\<rparr>\<rparr>"

definition sendTxnStatus :: "HubPorts \<Rightarrow> Broker \<Rightarrow> nat option \<Rightarrow> RelayedTransaction \<Rightarrow> u8 \<Rightarrow> Broker" where
  "sendTxnStatus ports self client transaction reason =
     (case client of
        None \<Rightarrow> self
      | Some client \<Rightarrow>
          let status = TxnStatusMessage_zero\<lparr>ts_channel := rt_client_channel transaction, ts_state := kTXN_STATE_ABORTED,
                ts_txn_id := rt_txn_id transaction, ts_reason := reason,
                ts_failing_seq := of_nat (rt_completed_steps transaction),
                ts_completed_steps := of_nat (rt_completed_steps transaction)\<rparr>
          in sendControl ports self client (TxnStatusMessage_Encode status CONTROL_BUFFER))"

definition sendTxnAbort :: "HubPorts \<Rightarrow> Broker \<Rightarrow> nat \<Rightarrow> u8 \<Rightarrow> u16 \<Rightarrow> Broker" where
  "sendTxnAbort ports self agent channel txn_id =
     sendControl ports self agent (TxnAbortMessage_Encode \<lparr>tab_channel = channel, tab_txn_id = txn_id\<rparr> CONTROL_BUFFER)"

definition close_transaction :: "Broker \<Rightarrow> nat \<Rightarrow> Broker" where
  "close_transaction self transaction =
     self\<lparr>bk_transactions := TransactionTable_Close (bk_transactions self) transaction\<rparr>"

definition finishTransaction :: "HubPorts \<Rightarrow> Broker \<Rightarrow> nat \<Rightarrow> Broker" where
  "finishTransaction ports self transaction =
     (let interface_id = rt_interface_id (transaction_at self transaction);
          leased = (rt_exclusive (transaction_at self transaction) \<and>
            rt_state (transaction_at self transaction) = kTRANSACTION_RELAY_STATE_ACTIVE);
          self = close_transaction self transaction
      in if leased then announceLease ports self interface_id else self)"

definition count_aborted :: "Broker \<Rightarrow> Broker" where
  "count_aborted self = with_counters self (\<lambda>c. c\<lparr>tc_aborted := tc_aborted c + 1\<rparr>)"

definition count_rejected :: "Broker \<Rightarrow> Broker" where
  "count_rejected self = with_counters self (\<lambda>c. c\<lparr>tc_rejected := tc_rejected c + 1\<rparr>)"

definition abandonTransaction :: "HubPorts \<Rightarrow> Broker \<Rightarrow> nat \<Rightarrow> Broker" where
  "abandonTransaction ports self transaction =
     (if rt_state (transaction_at self transaction) = kTRANSACTION_RELAY_STATE_PENDING
      then with_transaction self transaction (\<lambda>t. t\<lparr>rt_client_peer_id := TRANSACTION_NO_CLIENT\<rparr>)
      else
        let self = (case PeerDirectory_Find (bk_directory self) (rt_agent_peer_id (transaction_at self transaction)) of
              None \<Rightarrow> self
            | Some agent \<Rightarrow> sendTxnAbort ports self agent (rt_agent_channel (transaction_at self transaction))
                (rt_txn_id (transaction_at self transaction)))
        in finishTransaction ports (count_aborted self) transaction)"

definition failAgentTransaction :: "HubPorts \<Rightarrow> Broker \<Rightarrow> u32 \<Rightarrow> Broker" where
  "failAgentTransaction ports self agent_peer_id =
     (case TransactionTable_ForAgent (bk_transactions self) agent_peer_id of
        None \<Rightarrow> self
      | Some transaction \<Rightarrow>
          let client = PeerDirectory_Find (bk_directory self) (rt_client_peer_id (transaction_at self transaction));
              self = sendTxnStatus ports self client (transaction_at self transaction) kTXN_REASON_AGENT_DISCONNECTED;
              self = (if rt_state (transaction_at self transaction) = kTRANSACTION_RELAY_STATE_ACTIVE
                then count_aborted self else count_rejected self)
          in finishTransaction ports self transaction)"

section \<open>What sending changes\<close>

text \<open>
  Sending to a peer changes nothing of the hub but the mark of a failed transmission: \<open>spoken\<close>
  relates two states that agree on everything else.  Relations of this kind are closed under the
  loop over the peers.
\<close>

definition unsent :: "HubPeer \<Rightarrow> HubPeer" where
  "unsent p = p\<lparr>hp_send_failed := False\<rparr>"

fun plain_call :: "HubCall \<Rightarrow> bool" where
  "plain_call (SendControl _ _) = True"
| "plain_call (SendFrame _ _ _) = True"
| "plain_call (SetChannelMode _ _ _) = True"
| "plain_call (ClosePeer _) = True"
| "plain_call _ = False"

definition plainly :: "Broker \<Rightarrow> Broker \<Rightarrow> bool" where
  "plainly b b' \<longleftrightarrow> (\<exists>cs. bk_calls b' = bk_calls b @ cs \<and> list_all plain_call cs)"

definition spoken :: "Broker \<Rightarrow> Broker \<Rightarrow> bool" where
  "spoken b b' \<longleftrightarrow> map unsent (pd_peers (bk_directory b')) = map unsent (pd_peers (bk_directory b)) \<and> plainly b b' \<and>
     bk_registry b' = bk_registry b \<and> bk_bridges b' = bk_bridges b \<and> bk_groups b' = bk_groups b \<and>
     bk_metrics b' = bk_metrics b \<and> bk_pending_ifconfig b' = bk_pending_ifconfig b \<and>
     bk_transactions b' = bk_transactions b \<and> bk_next_ifconfig_request_id b' = bk_next_ifconfig_request_id b \<and>
     bk_rejected_peers b' = bk_rejected_peers b \<and> bk_require_known_peers b' = bk_require_known_peers b \<and>
     bk_now_us b' = bk_now_us b"

locale hub_preorder =
  fixes R :: "Broker \<Rightarrow> Broker \<Rightarrow> bool"
  assumes R_refl: "R b b"
    and R_trans: "R a b \<Longrightarrow> R b c \<Longrightarrow> R a c"
begin

lemma fold_closed: "(\<And>i b. i \<in> set is \<Longrightarrow> R b (f i b)) \<Longrightarrow> R b (fold f is b)"
proof (induction "is" arbitrary: b)
  case (Cons i "is")
  then show ?case
    using R_trans [of b "f i b" "fold f is (f i b)"] by simp
qed (simp add: R_refl)

lemma each_peer_closed:
  assumes "\<And>i b. i < PEER_DIRECTORY_MAX \<Longrightarrow> hp_in_use (peer_at b i) \<Longrightarrow> R b (f i b)"
  shows "R b (each_peer f b)"
  unfolding each_peer_def
proof (rule fold_closed)
  fix i and b :: Broker
  assume "i \<in> set [0..<PEER_DIRECTORY_MAX]"
  then show "R b (case PeerDirectory_At (bk_directory b) i of None \<Rightarrow> b | Some peer \<Rightarrow> f peer b)"
    using assms [of i b] by (simp add: PeerDirectory_At_def R_refl)
qed

end

lemma plainly_refl: "plainly b b"
  by (simp add: plainly_def)

lemma plainly_trans: "plainly a b \<Longrightarrow> plainly b c \<Longrightarrow> plainly a c"
  by (auto simp: plainly_def)

interpretation plainly: hub_preorder plainly
  by unfold_locales (rule plainly_refl, rule plainly_trans)

interpretation spoken: hub_preorder spoken
  by unfold_locales (auto simp: spoken_def intro: plainly_refl plainly_trans)

lemma spokenD:
  assumes "spoken b b'"
  shows "bk_registry b' = bk_registry b" "bk_bridges b' = bk_bridges b" "bk_groups b' = bk_groups b"
    "bk_metrics b' = bk_metrics b" "bk_pending_ifconfig b' = bk_pending_ifconfig b"
    "bk_transactions b' = bk_transactions b" "bk_next_ifconfig_request_id b' = bk_next_ifconfig_request_id b"
    "bk_rejected_peers b' = bk_rejected_peers b" "bk_require_known_peers b' = bk_require_known_peers b"
    "bk_now_us b' = bk_now_us b"
    "length (pd_peers (bk_directory b')) = length (pd_peers (bk_directory b))"
  using assms map_eq_imp_length_eq [of unsent "pd_peers (bk_directory b')" unsent "pd_peers (bk_directory b)"]
  by (simp_all add: spoken_def)

lemma unsent_eqD:
  assumes "unsent p = unsent q"
  shows "hp_in_use p = hp_in_use q" "hp_local p = hp_local q" "hp_vouched p = hp_vouched q"
    "hp_peer_id p = hp_peer_id q" "hp_capabilities p = hp_capabilities q" "hp_role p = hp_role q"
    "hp_transport_kind p = hp_transport_kind q" "hp_hello_deadline_us p = hp_hello_deadline_us q"
    "hp_connected_at_us p = hp_connected_at_us q" "hp_frames_forwarded p = hp_frames_forwarded q"
    "hp_frames_dropped p = hp_frames_dropped q" "hp_fingerprint_hex p = hp_fingerprint_hex q"
    "hp_agent_name p = hp_agent_name q" "hp_origin p = hp_origin q" "hp_origin_host p = hp_origin_host q"
    "hp_session p = hp_session q" "hp_echo_tokens p = hp_echo_tokens q" "hp_egress p = hp_egress q"
  using assms by (cases p; cases q; simp add: unsent_def)+

lemma spoken_peer:
  assumes "spoken b b'" and "i < length (pd_peers (bk_directory b))"
  shows "unsent (peer_at b' i) = unsent (peer_at b i)"
  using assms spokenD(11) [OF assms(1)] unfolding spoken_def by (metis nth_map)

lemma unsent_send_failed [simp]: "unsent (p\<lparr>hp_send_failed := v\<rparr>) = unsent p"
  by (simp add: unsent_def)

lemma map_list_update_same: "f v = f (xs ! i) \<Longrightarrow> map f (xs[i := v]) = map f xs"
  by (simp add: map_update list_update_same_conv) (metis list_update_beyond list_update_id map_update not_le_imp_less)

text \<open>
  A function is kept inside such a relation by one rule each, read backwards: what is related to
  the argument is related to the result.  The collections hold these rules.
\<close>

named_theorems spoken_intros and quiet_intros

lemma spoken_calling [spoken_intros]: "spoken b c \<Longrightarrow> plain_call x \<Longrightarrow> spoken b (calling c x)"
  by (auto simp: spoken_def calling_def plainly_def)

lemma spoken_failed [spoken_intros]: "spoken b c \<Longrightarrow> spoken b (with_peer c i (\<lambda>p. p\<lparr>hp_send_failed := v\<rparr>))"
  by (auto simp: spoken_def with_peer_def plainly_def map_list_update_same)

lemma spoken_sendControl [spoken_intros]: "spoken b c \<Longrightarrow> spoken b (sendControl ports c i m)"
  unfolding sendControl_def Let_def by (auto intro!: spoken_intros)

lemma spoken_sendError [spoken_intros]: "spoken b c \<Longrightarrow> spoken b (sendError c peer_id code detail)"
  unfolding sendError_def Let_def by (auto simp: split_beta intro!: spoken_intros)

lemma spoken_set_channel_mode [spoken_intros]: "spoken b c \<Longrightarrow> spoken b (set_channel_mode c peer_id channel mode)"
  unfolding set_channel_mode_def by (auto intro!: spoken_intros)

lemma spoken_close_peer [spoken_intros]: "spoken b c \<Longrightarrow> spoken b (close_peer c peer_id)"
  unfolding close_peer_def by (auto intro!: spoken_intros)

lemma spoken_relay_pace [spoken_intros]: "spoken b c \<Longrightarrow> spoken b (relay_pace ports interface_id rate i c)"
  unfolding relay_pace_def Let_def by (auto intro!: spoken_intros split: option.split)

lemma spoken_relayPaceToClients [spoken_intros]:
  "spoken b c \<Longrightarrow> spoken b (relayPaceToClients ports c interface_id rate)"
  unfolding relayPaceToClients_def
  by (erule spoken.R_trans) (intro spoken.each_peer_closed spoken_relay_pace spoken.R_refl)

lemma spoken_announceLease [spoken_intros]: "spoken b c \<Longrightarrow> spoken b (announceLease ports c interface_id)"
  unfolding announceLease_def by (auto intro!: spoken_intros split: option.split)

lemma spoken_sendTxnStatus [spoken_intros]: "spoken b c \<Longrightarrow> spoken b (sendTxnStatus ports c client t reason)"
  unfolding sendTxnStatus_def Let_def by (auto intro!: spoken_intros split: option.split)

lemma spoken_sendTxnAbort [spoken_intros]: "spoken b c \<Longrightarrow> spoken b (sendTxnAbort ports c agent channel txn_id)"
  unfolding sendTxnAbort_def by (auto intro!: spoken_intros)

text \<open>The same for the functions that end a transaction, which also change the table and the counters.\<close>

definition quiet :: "Broker \<Rightarrow> Broker \<Rightarrow> bool" where
  "quiet b b' \<longleftrightarrow> map unsent (pd_peers (bk_directory b')) = map unsent (pd_peers (bk_directory b)) \<and> plainly b b' \<and>
     bk_registry b' = bk_registry b \<and> bk_bridges b' = bk_bridges b \<and> bk_groups b' = bk_groups b \<and>
     bk_pending_ifconfig b' = bk_pending_ifconfig b \<and> bk_next_ifconfig_request_id b' = bk_next_ifconfig_request_id b \<and>
     bk_rejected_peers b' = bk_rejected_peers b \<and> bk_require_known_peers b' = bk_require_known_peers b \<and>
     bk_now_us b' = bk_now_us b"

interpretation quiet: hub_preorder quiet
  by unfold_locales (auto simp: quiet_def intro: plainly_refl plainly_trans)

lemma quietD:
  assumes "quiet b b'"
  shows "bk_registry b' = bk_registry b" "bk_bridges b' = bk_bridges b" "bk_groups b' = bk_groups b"
    "bk_pending_ifconfig b' = bk_pending_ifconfig b" "bk_next_ifconfig_request_id b' = bk_next_ifconfig_request_id b"
    "bk_rejected_peers b' = bk_rejected_peers b" "bk_require_known_peers b' = bk_require_known_peers b"
    "bk_now_us b' = bk_now_us b"
    "length (pd_peers (bk_directory b')) = length (pd_peers (bk_directory b))"
  using assms map_eq_imp_length_eq [of unsent "pd_peers (bk_directory b')" unsent "pd_peers (bk_directory b)"]
  by (simp_all add: quiet_def)

lemma quiet_peer:
  assumes "quiet b b'" and "i < length (pd_peers (bk_directory b))"
  shows "unsent (peer_at b' i) = unsent (peer_at b i)"
  using assms quietD(9) [OF assms(1)] unfolding quiet_def by (metis nth_map)

lemma spoken_quiet: "quiet b c \<Longrightarrow> spoken c d \<Longrightarrow> quiet b d"
  by (auto simp: quiet_def spoken_def intro: plainly_trans)

lemma quiet_announceLease [quiet_intros]: "quiet b c \<Longrightarrow> quiet b (announceLease ports c interface_id)"
  by (erule spoken_quiet) (intro spoken_intros spoken.R_refl)

lemma quiet_sendTxnStatus [quiet_intros]: "quiet b c \<Longrightarrow> quiet b (sendTxnStatus ports c client t reason)"
  by (erule spoken_quiet) (intro spoken_intros spoken.R_refl)

lemma quiet_sendTxnAbort [quiet_intros]: "quiet b c \<Longrightarrow> quiet b (sendTxnAbort ports c agent channel txn_id)"
  by (erule spoken_quiet) (intro spoken_intros spoken.R_refl)

lemma quiet_count_aborted [quiet_intros]: "quiet b c \<Longrightarrow> quiet b (count_aborted c)"
  by (simp add: quiet_def count_aborted_def with_counters_def with_metrics_def plainly_def)

lemma quiet_count_rejected [quiet_intros]: "quiet b c \<Longrightarrow> quiet b (count_rejected c)"
  by (simp add: quiet_def count_rejected_def with_counters_def with_metrics_def plainly_def)

lemma quiet_close_transaction [quiet_intros]: "quiet b c \<Longrightarrow> quiet b (close_transaction c t)"
  by (simp add: quiet_def close_transaction_def plainly_def)

lemma quiet_with_transaction [quiet_intros]: "quiet b c \<Longrightarrow> quiet b (with_transaction c t f)"
  by (simp add: quiet_def with_transaction_def plainly_def)

lemma quiet_finishTransaction [quiet_intros]: "quiet b c \<Longrightarrow> quiet b (finishTransaction ports c t)"
  unfolding finishTransaction_def Let_def by (auto intro!: quiet_intros)

lemma quiet_abandonTransaction [quiet_intros]: "quiet b c \<Longrightarrow> quiet b (abandonTransaction ports c t)"
  unfolding abandonTransaction_def Let_def by (auto intro!: quiet_intros split: option.split)

lemma quiet_failAgentTransaction [quiet_intros]: "quiet b c \<Longrightarrow> quiet b (failAgentTransaction ports c agent)"
  unfolding failAgentTransaction_def Let_def by (auto intro!: quiet_intros split: option.split)

lemmas quiet_abandoned = quiet_abandonTransaction [OF quiet.R_refl]

lemma transactions_finishTransaction:
  "bk_transactions (finishTransaction ports b t) = TransactionTable_Close (bk_transactions b) t"
  using spokenD(6) [OF spoken_announceLease [OF spoken.R_refl], of ports "close_transaction b t"]
  by (simp add: finishTransaction_def Let_def close_transaction_def)

lemma transactions_counted [simp]:
  "bk_transactions (count_aborted b) = bk_transactions b" "bk_transactions (count_rejected b) = bk_transactions b"
  by (simp_all add: count_aborted_def count_rejected_def with_counters_def with_metrics_def)

lemma transactions_abandonTransaction:
  "bk_transactions (abandonTransaction ports b t) =
     (if rt_state (transaction_at b t) = kTRANSACTION_RELAY_STATE_PENDING
      then bk_transactions (with_transaction b t (\<lambda>t. t\<lparr>rt_client_peer_id := TRANSACTION_NO_CLIENT\<rparr>))
      else TransactionTable_Close (bk_transactions b) t)"
  by (simp add: abandonTransaction_def Let_def transactions_finishTransaction
      spokenD(6) [OF spoken_sendTxnAbort [OF spoken.R_refl]] split: option.split)

lemma length_abandonTransaction [simp]:
  "length (tt_entries (bk_transactions (abandonTransaction ports b t))) = length (tt_entries (bk_transactions b))"
  by (simp add: transactions_abandonTransaction with_transaction_def TransactionTable_Close_def Let_def)

section \<open>The transactions and channels of a client\<close>

function abandon_from :: "HubPorts \<Rightarrow> u32 \<Rightarrow> nat \<Rightarrow> Broker \<Rightarrow> Broker" where
  "abandon_from ports client_peer_id iterator self =
     (case TransactionTable_NextForClient (bk_transactions self) client_peer_id iterator of
        (None, _) \<Rightarrow> self
      | (Some transaction, iterator) \<Rightarrow>
          abandon_from ports client_peer_id iterator (abandonTransaction ports self transaction))"
  by pat_completeness auto

termination abandon_from
  by (relation "measure (\<lambda>(_, _, n, b). length (tt_entries (bk_transactions b)) - n)")
    (auto dest!: NextForClient_advances [OF sym])

declare abandon_from.simps [simp del]

definition abandonClientTransactions :: "HubPorts \<Rightarrow> Broker \<Rightarrow> u32 \<Rightarrow> Broker" where
  "abandonClientTransactions ports self client_peer_id = abandon_from ports client_peer_id 0 self"

definition revertAgentChannelIfUnused :: "Broker \<Rightarrow> u32 \<Rightarrow> Broker" where
  "revertAgentChannelIfUnused self interface_id =
     (case InterfaceRegistry_FindById (bk_registry self) interface_id of
        None \<Rightarrow> self
      | Some entry \<Rightarrow>
          if InterfaceEntry_IsVirtual entry then self
          else if list_ex (\<lambda>i. case PeerDirectory_At (bk_directory self) i of
                 None \<Rightarrow> False
               | Some peer \<Rightarrow> hp_role (peer_at self peer) = kHUB_PEER_ROLE_CLIENT \<and>
                   ClientSession_HoldsReliable (hp_session (peer_at self peer)) interface_id) [0..<PEER_DIRECTORY_MAX]
          then self
          else set_channel_mode self (ie_agent_peer_id entry) (ie_agent_channel entry) False)"

definition with_session :: "Broker \<Rightarrow> nat \<Rightarrow> (ClientSession \<Rightarrow> ClientSession) \<Rightarrow> Broker" where
  "with_session self client f = with_peer self client (\<lambda>p. p\<lparr>hp_session := f (hp_session p)\<rparr>)"

definition closeClientChannel :: "HubPorts \<Rightarrow> Broker \<Rightarrow> nat \<Rightarrow> u8 \<Rightarrow> Broker" where
  "closeClientChannel ports self client channel =
     (case ClientSession_BindingForChannel (hp_session (peer_at self client)) channel of
        None \<Rightarrow> self
      | Some binding \<Rightarrow>
          let self = (case TransactionTable_ForClientChannel (bk_transactions self) (hp_peer_id (peer_at self client)) channel of
                None \<Rightarrow> self
              | Some transaction \<Rightarrow> abandonTransaction ports self transaction);
              interface_id = cb_interface_id (cs_bindings (hp_session (peer_at self client)) ! binding);
              reliable = cb_reliable (cs_bindings (hp_session (peer_at self client)) ! binding);
              self = with_session self client (\<lambda>s. ClientSession_CloseChannel s channel)
          in if \<not> reliable then self
             else
               let self = set_channel_mode self (hp_peer_id (peer_at self client)) channel False
               in revertAgentChannelIfUnused self interface_id)"

text \<open>
  The two loops over the channels of a client end because each round frees a binding.  The test
  of the index says that the pointer is one into the directory, which the callers ensure.
\<close>

definition bindings_used :: "Broker \<Rightarrow> nat \<Rightarrow> nat" where
  "bindings_used b client = length (filter cb_in_use (cs_bindings (hp_session (peer_at b client))))"

function removeClientInterface :: "HubPorts \<Rightarrow> Broker \<Rightarrow> nat \<Rightarrow> u32 \<Rightarrow> Broker" where
  "removeClientInterface ports self client interface_id =
     (if client \<ge> length (pd_peers (bk_directory self)) then self
      else case ClientSession_ChannelForInterface (hp_session (peer_at self client)) interface_id of
        None \<Rightarrow> self
      | Some channel \<Rightarrow>
          removeClientInterface ports (closeClientChannel ports self client channel) client interface_id)"
  by pat_completeness auto

function releaseReliableBindings :: "Broker \<Rightarrow> nat \<Rightarrow> Broker" where
  "releaseReliableBindings self client =
     (if client \<ge> length (pd_peers (bk_directory self)) then self
      else case ClientSession_TakeReliableBinding (hp_session (peer_at self client)) of
        (None, _) \<Rightarrow> self
      | (Some interface_id, session) \<Rightarrow>
          releaseReliableBindings
            (revertAgentChannelIfUnused (with_session self client (\<lambda>_. session)) interface_id) client)"
  by pat_completeness auto

lemma spoken_revertAgentChannelIfUnused [spoken_intros]:
  "spoken b c \<Longrightarrow> spoken b (revertAgentChannelIfUnused c interface_id)"
  unfolding revertAgentChannelIfUnused_def by (auto intro!: spoken_intros split: option.split)

lemma spoken_session:
  "spoken b b' \<Longrightarrow> i < length (pd_peers (bk_directory b)) \<Longrightarrow> hp_session (peer_at b' i) = hp_session (peer_at b i)"
  using unsent_eqD(16) [OF spoken_peer] .

lemma quiet_session:
  "quiet b b' \<Longrightarrow> i < length (pd_peers (bk_directory b)) \<Longrightarrow> hp_session (peer_at b' i) = hp_session (peer_at b i)"
  using unsent_eqD(16) [OF quiet_peer] .

lemma session_with_session:
  "i < length (pd_peers (bk_directory b)) \<Longrightarrow>
   hp_session (peer_at (with_session b client f) i) =
     (if i = client then f (hp_session (peer_at b i)) else hp_session (peer_at b i))"
  by (simp add: with_session_def with_peer_def)

lemma length_peers_with_session [simp]:
  "length (pd_peers (bk_directory (with_session b client f))) = length (pd_peers (bk_directory b))"
  by (simp add: with_session_def with_peer_def)

lemma filter_freed_less:
  "i < length xs \<Longrightarrow> P (xs ! i) \<Longrightarrow> \<not> P v \<Longrightarrow> length (filter P (xs[i := v])) < length (filter P xs)"
proof (induction xs arbitrary: i)
  case (Cons x xs)
  then show ?case by (cases i) auto
qed simp

lemma with_session_same: "f (hp_session (peer_at b client)) = hp_session (peer_at b client) \<Longrightarrow> with_session b client f = b"
  by (simp add: with_session_def with_peer_def)

lemma closeClientChannel_effect:
  obtains c where "quiet b c"
    and "spoken (with_session c client (\<lambda>s. ClientSession_CloseChannel s channel)) (closeClientChannel ports b client channel)"
proof (cases "ClientSession_BindingForChannel (hp_session (peer_at b client)) channel")
  case None
  then have "with_session b client (\<lambda>s. ClientSession_CloseChannel s channel) = b"
    by (simp add: with_session_same ClientSession_BindingForChannel_def ClientSession_CloseChannel_def)
  then show ?thesis
    using that [OF quiet.R_refl] None by (simp add: closeClientChannel_def spoken.R_refl)
next
  case (Some i)
  define c where "c = (case TransactionTable_ForClientChannel (bk_transactions b) (hp_peer_id (peer_at b client)) channel of
    None \<Rightarrow> b | Some t \<Rightarrow> abandonTransaction ports b t)"
  have "quiet b c"
    by (auto simp: c_def intro: quiet.R_refl quiet_abandoned split: option.split)
  moreover have "spoken (with_session c client (\<lambda>s. ClientSession_CloseChannel s channel)) (closeClientChannel ports b client channel)"
    by (auto simp: closeClientChannel_def Some Let_def c_def [symmetric] intro!: spoken_intros spoken.R_refl)
  ultimately show ?thesis using that by blast
qed

lemma session_closeClientChannel:
  assumes "i < length (pd_peers (bk_directory b))"
  shows "hp_session (peer_at (closeClientChannel ports b client channel) i) =
    (if i = client then ClientSession_CloseChannel (hp_session (peer_at b i)) channel else hp_session (peer_at b i))"
proof -
  obtain c where c: "quiet b c"
    "spoken (with_session c client (\<lambda>s. ClientSession_CloseChannel s channel)) (closeClientChannel ports b client channel)"
    by (rule closeClientChannel_effect)
  have "i < length (pd_peers (bk_directory c))"
    using assms quietD(9) [OF c(1)] by simp
  then show ?thesis
    using spoken_session [OF c(2), of i] quiet_session [OF c(1) assms]
    by (cases "i = client") (simp_all add: session_with_session)
qed

lemma length_closeClientChannel [simp]:
  "length (pd_peers (bk_directory (closeClientChannel ports b client channel))) = length (pd_peers (bk_directory b))"
proof -
  obtain c where "quiet b c"
    "spoken (with_session c client (\<lambda>s. ClientSession_CloseChannel s channel)) (closeClientChannel ports b client channel)"
    by (rule closeClientChannel_effect)
  then show ?thesis
    by (simp add: spokenD(11) quietD(9))
qed

lemma ChannelForInterface_frees:
  assumes "ClientSession_ChannelForInterface s interface_id = Some channel"
  shows "length (filter cb_in_use (cs_bindings (ClientSession_CloseChannel s channel))) < length (filter cb_in_use (cs_bindings s))"
proof -
  obtain i where "i < length (cs_bindings s)" "cb_in_use (cs_bindings s ! i)" "cb_channel (cs_bindings s ! i) = channel"
    using assms by (auto simp: ClientSession_ChannelForInterface_def split: option.splits dest: find_index_SomeD)
  then obtain j where j: "session_findByChannel s channel = Some j"
    using find_index_exists [of i "cs_bindings s" "\<lambda>b. cb_in_use b \<and> cb_channel b = channel"]
    by (auto simp: session_findByChannel_def)
  then have "j < length (cs_bindings s)" "cb_in_use (cs_bindings s ! j)"
    by (auto simp: session_findByChannel_def dest: find_index_SomeD)
  then show ?thesis
    by (simp add: ClientSession_CloseChannel_def j filter_freed_less ChannelBinding_zero_def)
qed

lemma TakeReliableBinding_frees:
  "ClientSession_TakeReliableBinding s = (Some interface_id, s') \<Longrightarrow>
   length (filter cb_in_use (cs_bindings s')) < length (filter cb_in_use (cs_bindings s))"
  by (auto simp: ClientSession_TakeReliableBinding_def ChannelBinding_zero_def split: option.splits
      intro!: filter_freed_less dest: find_index_SomeD)

termination removeClientInterface
  by (relation "measure (\<lambda>(_, b, client, _). bindings_used b client)")
    (auto simp: bindings_used_def session_closeClientChannel ChannelForInterface_frees)

lemma releaseReliableBindings_frees:
  assumes "client < length (pd_peers (bk_directory b))"
    and "ClientSession_TakeReliableBinding (hp_session (peer_at b client)) = (Some interface_id, session)"
  shows "bindings_used (revertAgentChannelIfUnused (with_session b client (\<lambda>_. session)) interface_id) client < bindings_used b client"
  using assms TakeReliableBinding_frees [OF assms(2)]
    spoken_session [OF spoken_revertAgentChannelIfUnused [OF spoken.R_refl], of client "with_session b client (\<lambda>_. session)" interface_id]
  by (simp add: bindings_used_def session_with_session)

termination releaseReliableBindings
  by (relation "measure (\<lambda>(b, client). bindings_used b client)") (auto simp: releaseReliableBindings_frees)

declare removeClientInterface.simps [simp del] releaseReliableBindings.simps [simp del]

section \<open>Interfaces that come and go\<close>

definition detachInterface :: "Broker \<Rightarrow> InterfaceEntry \<Rightarrow> Broker" where
  "detachInterface self entry =
     each_peer (\<lambda>peer self. if hp_role (peer_at self peer) = kHUB_PEER_ROLE_CLIENT
       then with_session self peer (\<lambda>s. ClientSession_DetachInterface s (ie_interface_id entry)) else self) self"

definition reattach_client :: "HubPorts \<Rightarrow> InterfaceEntry \<Rightarrow> nat \<Rightarrow> Broker \<Rightarrow> Broker" where
  "reattach_client ports entry peer self =
     (if hp_role (peer_at self peer) \<noteq> kHUB_PEER_ROLE_CLIENT then self
      else
        let can_write = clientCanWrite ports self (peer_at self peer) entry;
            (reattached, session) = ClientSession_ReattachInterface (hp_session (peer_at self peer)) (ie_agent_name entry)
              (ie_interface_name entry) (ie_interface_id entry) can_write;
            self = with_session self peer (\<lambda>_. session)
        in if \<not> reattached then self
           else if \<not> clientCanRead ports self (peer_at self peer) entry
           then removeClientInterface ports self peer (ie_interface_id entry)
           else case ClientSession_ChannelForInterface (hp_session (peer_at self peer)) (ie_interface_id entry) of
             None \<Rightarrow> self
           | Some channel \<Rightarrow>
               if ClientSession_ChannelReliable (hp_session (peer_at self peer)) channel
               then set_channel_mode self (ie_agent_peer_id entry) (ie_agent_channel entry) True else self)"

definition reattachInterface :: "HubPorts \<Rightarrow> Broker \<Rightarrow> InterfaceEntry \<Rightarrow> Broker" where
  "reattachInterface ports self entry = each_peer (reattach_client ports entry) self"

text \<open>The loop over the interfaces one agent registered.\<close>

definition each_interface :: "u32 \<Rightarrow> (InterfaceEntry \<Rightarrow> Broker \<Rightarrow> Broker) \<Rightarrow> Broker \<Rightarrow> Broker" where
  "each_interface agent_peer_id f self =
     fold (\<lambda>i self. let entry = ir_entries (bk_registry self) ! i
         in if ie_in_use entry \<and> ie_agent_peer_id entry = agent_peer_id then f entry self else self)
       [0..<INTERFACE_REGISTRY_MAX] self"

definition with_registry :: "Broker \<Rightarrow> (InterfaceRegistry \<Rightarrow> InterfaceRegistry) \<Rightarrow> Broker" where
  "with_registry self f = self\<lparr>bk_registry := f (bk_registry self)\<rparr>"

definition detachAgent :: "Broker \<Rightarrow> u32 \<Rightarrow> Broker" where
  "detachAgent self agent_peer_id =
     (let self = each_interface agent_peer_id (\<lambda>entry self. detachInterface self entry) self
      in with_registry self (\<lambda>r. InterfaceRegistry_RemovePeer r agent_peer_id))"

definition reattachClientsToAgent :: "HubPorts \<Rightarrow> Broker \<Rightarrow> u32 \<Rightarrow> Broker" where
  "reattachClientsToAgent ports self agent_peer_id =
     each_interface agent_peer_id (\<lambda>entry self. reattachInterface ports self entry) self"

section \<open>Pending configurations\<close>

abbreviation (input) CONFIGURE_STATUS_OK :: u8 where "CONFIGURE_STATUS_OK \<equiv> 0"
abbreviation (input) CONFIGURE_STATUS_UNKNOWN_INTERFACE :: u8 where "CONFIGURE_STATUS_UNKNOWN_INTERFACE \<equiv> 1"
abbreviation (input) CONFIGURE_STATUS_AGENT_UNREACHABLE :: u8 where "CONFIGURE_STATUS_AGENT_UNREACHABLE \<equiv> 2"
abbreviation (input) CONFIGURE_STATUS_APPLY_FAILED :: u8 where "CONFIGURE_STATUS_APPLY_FAILED \<equiv> 3"
abbreviation (input) CONFIGURE_STATUS_DENIED :: u8 where "CONFIGURE_STATUS_DENIED \<equiv> 4"

definition InterfaceSettings_zero :: InterfaceSettings where
  "InterfaceSettings_zero =
     (let timing = \<lparr>bt_tq = 0, bt_prop_seg = 0, bt_phase_seg1 = 0, bt_phase_seg2 = 0, bt_sjw = 0, bt_brp = 0\<rparr>
      in \<lparr>is_fields = 0, is_bitrate = 0, is_data_bitrate = 0, is_sample_point = 0, is_data_sample_point = 0,
          is_ctrlmode_mask = 0, is_ctrlmode_flags = 0, is_restart_ms = 0, is_txqueuelen = 0, is_link_up = False,
          is_can_state = 0, is_termination = 0, is_bit_timing = timing, is_data_bit_timing = timing\<rparr>)"

definition replyConfigure :: "HubPorts \<Rightarrow> Broker \<Rightarrow> nat \<Rightarrow> u8 \<Rightarrow> Broker" where
  "replyConfigure ports self peer status =
     (let reply = \<lparr>cfr_status = status, cfr_settings = InterfaceSettings_zero, cfr_detail = replicate IFCONFIG_DETAIL_SIZE 0\<rparr>
      in sendControl ports self peer (ConfigureReplyMessage_Encode reply CONTROL_BUFFER))"

definition forget_pending :: "Broker \<Rightarrow> nat \<Rightarrow> Broker" where
  "forget_pending self i = self\<lparr>bk_pending_ifconfig := (bk_pending_ifconfig self)
     [i := (bk_pending_ifconfig self ! i)\<lparr>pi_in_use := False\<rparr>]\<rparr>"

definition release_pending :: "HubPorts \<Rightarrow> u32 \<Rightarrow> nat \<Rightarrow> Broker \<Rightarrow> Broker" where
  "release_pending ports peer_id i self =
     (let pending = bk_pending_ifconfig self ! i
      in if \<not> pi_in_use pending then self
         else if pi_agent_peer_id pending = peer_id
         then
           let self = (case PeerDirectory_Find (bk_directory self) (pi_requester_peer_id pending) of
                 None \<Rightarrow> self
               | Some requester \<Rightarrow> replyConfigure ports self requester CONFIGURE_STATUS_AGENT_UNREACHABLE)
           in forget_pending self i
         else if pi_requester_peer_id pending = peer_id then forget_pending self i
         else self)"

definition releasePendingIfconfig :: "HubPorts \<Rightarrow> Broker \<Rightarrow> u32 \<Rightarrow> Broker" where
  "releasePendingIfconfig ports self peer_id = fold (release_pending ports peer_id) [0..<BROKER_PENDING_IFCONFIG_MAX] self"

section \<open>The end of a peer\<close>

definition releaseEchoTokens :: "Broker \<Rightarrow> u32 \<Rightarrow> Broker" where
  "releaseEchoTokens self client_peer_id =
     each_peer (\<lambda>peer self. if hp_role (peer_at self peer) = kHUB_PEER_ROLE_AGENT
       then with_peer self peer (\<lambda>p. p\<lparr>hp_echo_tokens := EchoTokens_ReleaseClient (hp_echo_tokens p) client_peer_id\<rparr>)
       else self) self"

definition releasePeer :: "HubPorts \<Rightarrow> Broker \<Rightarrow> nat \<Rightarrow> Broker" where
  "releasePeer ports self peer =
     (let peer_id = hp_peer_id (peer_at self peer);
          self = (if hp_role (peer_at self peer) = kHUB_PEER_ROLE_AGENT
            then
              let self = failAgentTransaction ports self peer_id
              in detachAgent self peer_id
            else self);
          self = (if hp_role (peer_at self peer) = kHUB_PEER_ROLE_CLIENT
            then
              let self = abandonClientTransactions ports self peer_id;
                  self = releaseReliableBindings self peer
              in releaseEchoTokens self peer_id
            else self);
          self = releasePendingIfconfig ports self peer_id
      in self\<lparr>bk_directory := PeerDirectory_Release (bk_directory self) peer_id\<rparr>)"

definition disconnectPeer :: "HubPorts \<Rightarrow> Broker \<Rightarrow> u32 \<Rightarrow> Broker" where
  "disconnectPeer ports self peer_id =
     (case PeerDirectory_Find (bk_directory self) peer_id of
        None \<Rightarrow> self
      | Some peer \<Rightarrow> close_peer (releasePeer ports self peer) peer_id)"

section \<open>Who is connected\<close>

text \<open>
  The clean-up of a peer changes sessions, tokens and marks, but neither who is connected nor
  what is known of them; only the last call of \<open>releasePeer\<close> empties the slot.
\<close>

definition who :: "HubPeer \<Rightarrow> HubPeer" where
  "who p = p\<lparr>hp_send_failed := False, hp_frames_forwarded := 0, hp_frames_dropped := 0, hp_session := ClientSession_Reset,
     hp_echo_tokens := EchoTokens_Reset, hp_egress := EgressQueue_zero\<rparr>"

definition same_peers :: "Broker \<Rightarrow> Broker \<Rightarrow> bool" where
  "same_peers b b' \<longleftrightarrow> map who (pd_peers (bk_directory b')) = map who (pd_peers (bk_directory b))"

interpretation same_peers: hub_preorder same_peers
  by unfold_locales (auto simp: same_peers_def)

named_theorems same_peers_intros

lemma who_eqD:
  assumes "who p = who q"
  shows "hp_in_use p = hp_in_use q" "hp_local p = hp_local q" "hp_vouched p = hp_vouched q"
    "hp_peer_id p = hp_peer_id q" "hp_capabilities p = hp_capabilities q" "hp_role p = hp_role q"
    "hp_transport_kind p = hp_transport_kind q" "hp_connected_at_us p = hp_connected_at_us q"
    "hp_fingerprint_hex p = hp_fingerprint_hex q" "hp_agent_name p = hp_agent_name q"
    "hp_origin_host p = hp_origin_host q" "hp_hello_deadline_us p = hp_hello_deadline_us q" "hp_origin p = hp_origin q"
  using assms by (cases p; cases q; simp add: who_def)+

lemma who_update [simp]:
  "who (p\<lparr>hp_send_failed := v1\<rparr>) = who p" "who (p\<lparr>hp_session := v2\<rparr>) = who p" "who (p\<lparr>hp_echo_tokens := v3\<rparr>) = who p"
  "who (p\<lparr>hp_egress := v4\<rparr>) = who p" "who (p\<lparr>hp_frames_forwarded := v5\<rparr>) = who p" "who (p\<lparr>hp_frames_dropped := v6\<rparr>) = who p"
  by (simp_all add: who_def)

lemma who_unsent: "who p = who (unsent p)"
  by (simp add: unsent_def)

lemma map_who_unsent: "map unsent ps = map unsent qs \<Longrightarrow> map who ps = map who qs"
proof -
  have "map who ps = map who (map unsent ps)" for ps
    by (simp add: who_unsent [symmetric])
  then show "map unsent ps = map unsent qs \<Longrightarrow> map who ps = map who qs"
    by metis
qed

lemma same_peersD:
  assumes "same_peers b b'"
  shows "length (pd_peers (bk_directory b')) = length (pd_peers (bk_directory b))"
    and "i < length (pd_peers (bk_directory b)) \<Longrightarrow> who (peer_at b' i) = who (peer_at b i)"
proof -
  show len: "length (pd_peers (bk_directory b')) = length (pd_peers (bk_directory b))"
    using assms map_eq_imp_length_eq unfolding same_peers_def by blast
  show "i < length (pd_peers (bk_directory b)) \<Longrightarrow> who (peer_at b' i) = who (peer_at b i)"
    using assms len unfolding same_peers_def by (metis nth_map)
qed

lemma same_peers_quiet: "same_peers b c \<Longrightarrow> quiet c d \<Longrightarrow> same_peers b d"
  by (auto simp: quiet_def same_peers_def dest: map_who_unsent)

lemma same_peers_spoken: "same_peers b c \<Longrightarrow> spoken c d \<Longrightarrow> same_peers b d"
  by (auto simp: spoken_def same_peers_def dest: map_who_unsent)

lemma same_peers_with_peer:
  "same_peers b c \<Longrightarrow> (\<And>p. who (f p) = who p) \<Longrightarrow> same_peers b (with_peer c i f)"
  by (simp add: same_peers_def with_peer_def map_list_update_same)

lemma same_peers_with_session [same_peers_intros]: "same_peers b c \<Longrightarrow> same_peers b (with_session c i f)"
  unfolding with_session_def by (erule same_peers_with_peer) simp

lemma same_peers_with_registry [same_peers_intros]: "same_peers b c \<Longrightarrow> same_peers b (with_registry c f)"
  by (simp add: same_peers_def with_registry_def)

lemma same_peers_forget_pending [same_peers_intros]: "same_peers b c \<Longrightarrow> same_peers b (forget_pending c i)"
  by (simp add: same_peers_def forget_pending_def)

lemmas same_peers_by_quiet [same_peers_intros] =
  same_peers_quiet [OF _ quiet_finishTransaction [OF quiet.R_refl]]
  same_peers_quiet [OF _ quiet_abandonTransaction [OF quiet.R_refl]]
  same_peers_quiet [OF _ quiet_failAgentTransaction [OF quiet.R_refl]]

lemmas same_peers_by_spoken [same_peers_intros] =
  same_peers_spoken [OF _ spoken_sendControl [OF spoken.R_refl]]
  same_peers_spoken [OF _ spoken_set_channel_mode [OF spoken.R_refl]]
  same_peers_spoken [OF _ spoken_sendError [OF spoken.R_refl]]
  same_peers_spoken [OF _ spoken_close_peer [OF spoken.R_refl]]
  same_peers_spoken [OF _ spoken_revertAgentChannelIfUnused [OF spoken.R_refl]]
  same_peers_spoken [OF _ spoken_announceLease [OF spoken.R_refl]]
  same_peers_spoken [OF _ spoken_relayPaceToClients [OF spoken.R_refl]]

text \<open>The loops of the clean-up stay inside every relation their bodies stay inside.\<close>

context hub_preorder
begin

lemma abandon_from_closed:
  assumes "\<And>b t. t < length (tt_entries (bk_transactions b)) \<Longrightarrow> R b (abandonTransaction ports b t)"
  shows "R b (abandon_from ports client n b)"
  using assms
proof (induction ports client n b rule: abandon_from.induct)
  case (1 ports client n b)
  then show ?case
    by (subst abandon_from.simps)
      (auto intro: R_refl R_trans [OF "1.prems"] dest: NextForClient_advances split: prod.split option.split)
qed

lemma removeClientInterface_closed:
  assumes "\<And>b channel. client < length (pd_peers (bk_directory b)) \<Longrightarrow> R b (closeClientChannel ports b client channel)"
  shows "R b (removeClientInterface ports b client interface_id)"
  using assms
proof (induction ports b client interface_id rule: removeClientInterface.induct)
  case (1 ports b client interface_id)
  then show ?case
    by (subst removeClientInterface.simps) (auto intro: R_refl R_trans [OF "1.prems"] split: option.split)
qed

lemma releaseReliableBindings_closed:
  assumes "\<And>b s interface_id. client < length (pd_peers (bk_directory b)) \<Longrightarrow>
      ClientSession_TakeReliableBinding (hp_session (peer_at b client)) = (Some interface_id, s) \<Longrightarrow>
      R b (revertAgentChannelIfUnused (with_session b client (\<lambda>_. s)) interface_id)"
  shows "R b (releaseReliableBindings b client)"
  using assms
proof (induction b client rule: releaseReliableBindings.induct)
  case (1 b client)
  then show ?case
    by (subst releaseReliableBindings.simps) (auto intro: R_refl R_trans [OF "1.prems"] split: prod.split option.split)
qed

lemma each_interface_closed:
  assumes "\<And>i b. i < INTERFACE_REGISTRY_MAX \<Longrightarrow> ie_in_use (ir_entries (bk_registry b) ! i) \<Longrightarrow>
      ie_agent_peer_id (ir_entries (bk_registry b) ! i) = agent \<Longrightarrow> R b (f (ir_entries (bk_registry b) ! i) b)"
  shows "R b (each_interface agent f b)"
  unfolding each_interface_def Let_def by (rule fold_closed) (auto intro: R_refl assms)

end

lemma same_peers_abandonClientTransactions [same_peers_intros]:
  "same_peers b c \<Longrightarrow> same_peers b (abandonClientTransactions ports c client)"
  unfolding abandonClientTransactions_def
  by (erule same_peers.R_trans) (intro same_peers.abandon_from_closed same_peers_intros same_peers.R_refl)

lemma same_peers_closeClientChannel [same_peers_intros]:
  "same_peers b c \<Longrightarrow> same_peers b (closeClientChannel ports c client channel)"
  unfolding closeClientChannel_def Let_def by (auto intro!: same_peers_intros split: option.split)

lemma same_peers_removeClientInterface [same_peers_intros]:
  "same_peers b c \<Longrightarrow> same_peers b (removeClientInterface ports c client interface_id)"
  by (erule same_peers.R_trans) (intro same_peers.removeClientInterface_closed same_peers_intros same_peers.R_refl)

lemma same_peers_releaseReliableBindings [same_peers_intros]:
  "same_peers b c \<Longrightarrow> same_peers b (releaseReliableBindings c client)"
  by (erule same_peers.R_trans) (intro same_peers.releaseReliableBindings_closed same_peers_intros same_peers.R_refl)

lemma same_peers_detachInterface [same_peers_intros]: "same_peers b c \<Longrightarrow> same_peers b (detachInterface c entry)"
  unfolding detachInterface_def
  by (erule same_peers.R_trans) (auto intro!: same_peers.each_peer_closed same_peers_intros same_peers.R_refl)

lemma same_peers_reattach_client [same_peers_intros]:
  "same_peers b c \<Longrightarrow> same_peers b (reattach_client ports entry i c)"
  unfolding reattach_client_def Let_def by (auto intro!: same_peers_intros split: prod.split option.split)

lemma same_peers_reattachInterface [same_peers_intros]: "same_peers b c \<Longrightarrow> same_peers b (reattachInterface ports c entry)"
  unfolding reattachInterface_def
  by (erule same_peers.R_trans) (auto intro!: same_peers.each_peer_closed same_peers_intros same_peers.R_refl)

lemma same_peers_reattachClientsToAgent [same_peers_intros]:
  "same_peers b c \<Longrightarrow> same_peers b (reattachClientsToAgent ports c agent)"
  unfolding reattachClientsToAgent_def
  by (erule same_peers.R_trans) (auto intro!: same_peers.each_interface_closed same_peers_intros same_peers.R_refl)

lemma same_peers_detachAgent [same_peers_intros]: "same_peers b c \<Longrightarrow> same_peers b (detachAgent c agent)"
  unfolding detachAgent_def Let_def
  by (intro same_peers_intros, erule same_peers.R_trans)
    (auto intro!: same_peers.each_interface_closed same_peers_intros same_peers.R_refl)

lemma same_peers_replyConfigure [same_peers_intros]: "same_peers b c \<Longrightarrow> same_peers b (replyConfigure ports c peer status)"
  unfolding replyConfigure_def Let_def by (intro same_peers_intros)

lemma same_peers_release_pending [same_peers_intros]: "same_peers b c \<Longrightarrow> same_peers b (release_pending ports peer_id i c)"
  unfolding release_pending_def Let_def by (auto intro!: same_peers_intros split: option.split)

lemma same_peers_releasePendingIfconfig [same_peers_intros]:
  "same_peers b c \<Longrightarrow> same_peers b (releasePendingIfconfig ports c peer_id)"
  unfolding releasePendingIfconfig_def
  by (erule same_peers.R_trans) (intro same_peers.fold_closed same_peers_intros same_peers.R_refl)

lemma same_peers_releaseEchoTokens [same_peers_intros]: "same_peers b c \<Longrightarrow> same_peers b (releaseEchoTokens c client)"
  unfolding releaseEchoTokens_def
  by (erule same_peers.R_trans) (auto intro!: same_peers.each_peer_closed same_peers_with_peer same_peers.R_refl)

text \<open>Releasing a peer is a clean-up that keeps the peers, and then the slot.\<close>

lemma releasePeer_effect:
  obtains c where "same_peers b c"
    and "releasePeer ports b i = c\<lparr>bk_directory := PeerDirectory_Release (bk_directory c) (hp_peer_id (peer_at b i))\<rparr>"
proof
  show "same_peers b (releasePendingIfconfig ports
     (let self = (if hp_role (peer_at b i) = kHUB_PEER_ROLE_AGENT
        then detachAgent (failAgentTransaction ports b (hp_peer_id (peer_at b i))) (hp_peer_id (peer_at b i)) else b)
      in if hp_role (peer_at self i) = kHUB_PEER_ROLE_CLIENT
         then releaseEchoTokens (releaseReliableBindings
           (abandonClientTransactions ports self (hp_peer_id (peer_at b i))) i) (hp_peer_id (peer_at b i))
         else self) (hp_peer_id (peer_at b i)))"
    unfolding Let_def by (auto intro!: same_peers_intros same_peers.R_refl)
qed (simp add: releasePeer_def Let_def)

lemma Find_by_who:
  "PeerDirectory_Find d peer_id = find_index (\<lambda>p. hp_in_use p \<and> hp_peer_id p = peer_id) (map who (pd_peers d))"
  by (simp add: PeerDirectory_Find_def find_index_map who_def)

lemma same_peers_Find:
  "same_peers b c \<Longrightarrow> PeerDirectory_Find (bk_directory c) peer_id = PeerDirectory_Find (bk_directory b) peer_id"
  by (simp add: Find_by_who same_peers_def)

lemma Count_by_who: "PeerDirectory_Count d = length (filter hp_in_use (map who (pd_peers d)))"
  by (simp add: PeerDirectory_Count_def filter_map comp_def who_def)

lemma same_peers_Count: "same_peers b c \<Longrightarrow> PeerDirectory_Count (bk_directory c) = PeerDirectory_Count (bk_directory b)"
  by (simp add: Count_by_who same_peers_def)

lemma Find_live:
  assumes "i < length (pd_peers d)" "hp_in_use (pd_peers d ! i)"
  shows "\<exists>j. PeerDirectory_Find d (hp_peer_id (pd_peers d ! i)) = Some j"
  unfolding PeerDirectory_Find_def
  using assms find_index_exists [of i "pd_peers d" "\<lambda>p. hp_in_use p \<and> hp_peer_id p = hp_peer_id (pd_peers d ! i)"] by simp

lemma FindD:
  assumes "PeerDirectory_Find d peer_id = Some i"
  shows "i < length (pd_peers d)" "hp_in_use (pd_peers d ! i)" "hp_peer_id (pd_peers d ! i) = peer_id"
  using find_index_SomeD [OF assms [unfolded PeerDirectory_Find_def]] by simp_all

text \<open>A disconnection takes exactly one peer away.\<close>

lemma disconnectPeer_counts:
  assumes "PeerDirectory_Find (bk_directory b) peer_id = Some i"
  shows "PeerDirectory_Count (bk_directory (disconnectPeer ports b peer_id)) < PeerDirectory_Count (bk_directory b)"
proof -
  obtain c where c: "same_peers b c"
    "releasePeer ports b i = c\<lparr>bk_directory := PeerDirectory_Release (bk_directory c) (hp_peer_id (peer_at b i))\<rparr>"
    by (rule releasePeer_effect)
  have found: "PeerDirectory_Find (bk_directory c) peer_id = Some i"
    using assms c(1) by (simp add: same_peers_Find)
  have "PeerDirectory_Count (PeerDirectory_Release (bk_directory c) peer_id) < PeerDirectory_Count (bk_directory c)"
    using FindD [OF found]
    by (simp add: PeerDirectory_Release_def found PeerDirectory_Count_def HubPeer_zero_def filter_freed_less)
  then show ?thesis
    using FindD(3) [OF assms] c by (simp add: disconnectPeer_def assms close_peer_def calling_def same_peers_Count)
qed

end
