(* ===== verification/BrokerFrames.thy ===== *)
theory BrokerFrames
  imports Broker
begin

text \<open>
  The path of a frame through \<open>hub/broker.c\<close>: from the transport to its routes, through the
  bridges and groups, into the egress queues and out of them.  A pointer to a slot of the bridge
  groups is its index.  The inner loop of \<open>drainPeer\<close> is a recursion on fuel; that the fuel it
  is given is always enough is proved in the theory of draining, \<open>BrokerDrain\<close>.
\<close>

section \<open>Counting\<close>

definition with_binding :: "Broker \<Rightarrow> nat \<Rightarrow> nat \<Rightarrow> (ChannelBinding \<Rightarrow> ChannelBinding) \<Rightarrow> Broker" where
  "with_binding self client i f =
     with_session self client (\<lambda>s. s\<lparr>cs_bindings := (cs_bindings s)[i := f (cs_bindings s ! i)]\<rparr>)"

definition countForwarded :: "Broker \<Rightarrow> nat \<Rightarrow> u8 \<Rightarrow> Broker" where
  "countForwarded self peer channel =
     (let self = with_metrics self (\<lambda>m. m\<lparr>hm_frames_forwarded := hm_frames_forwarded m + 1\<rparr>);
          self = with_peer self peer (\<lambda>p. p\<lparr>hp_frames_forwarded := hp_frames_forwarded p + 1\<rparr>)
      in if hp_role (peer_at self peer) = kHUB_PEER_ROLE_CLIENT
         then (case ClientSession_BindingForChannel (hp_session (peer_at self peer)) channel of
             None \<Rightarrow> self
           | Some i \<Rightarrow> with_binding self peer i (\<lambda>b. b\<lparr>cb_frames_forwarded := cb_frames_forwarded b + 1\<rparr>))
         else self)"

definition countDropped :: "Broker \<Rightarrow> nat \<Rightarrow> u8 \<Rightarrow> Broker" where
  "countDropped self peer channel =
     (let self = with_metrics self (\<lambda>m. m\<lparr>hm_frames_dropped := hm_frames_dropped m + 1\<rparr>);
          self = with_peer self peer (\<lambda>p. p\<lparr>hp_frames_dropped := hp_frames_dropped p + 1\<rparr>)
      in if hp_role (peer_at self peer) = kHUB_PEER_ROLE_CLIENT
         then (case ClientSession_BindingForChannel (hp_session (peer_at self peer)) channel of
             None \<Rightarrow> self
           | Some i \<Rightarrow> with_binding self peer i (\<lambda>b. b\<lparr>cb_frames_dropped := cb_frames_dropped b + 1\<rparr>))
         else self)"

definition drop_frames :: "Broker \<Rightarrow> u64 \<Rightarrow> Broker" where
  "drop_frames self n = with_metrics self (\<lambda>m. m\<lparr>hm_frames_dropped := hm_frames_dropped m + n\<rparr>)"

definition drop_leased :: "Broker \<Rightarrow> Broker" where
  "drop_leased self = with_counters self (\<lambda>c. c\<lparr>tc_lease_frame_drops := tc_lease_frame_drops c + 1\<rparr>)"

definition countInterfaceFrame :: "Broker \<Rightarrow> HubPeer \<Rightarrow> u8 \<Rightarrow> Broker" where
  "countInterfaceFrame self peer channel =
     (if hp_role peer = kHUB_PEER_ROLE_AGENT
      then (case InterfaceRegistry_FindByAgentChannel (bk_registry self) (hp_peer_id peer) channel of
          None \<Rightarrow> self
        | Some entry \<Rightarrow> with_registry self (\<lambda>r. InterfaceRegistry_CountFrame r (ie_interface_id entry)))
      else case ClientSession_InterfaceForChannel (hp_session peer) channel of
          None \<Rightarrow> self
        | Some interface_id \<Rightarrow> with_registry self (\<lambda>r. InterfaceRegistry_CountFrame r interface_id))"

section \<open>One frame to one destination\<close>

abbreviation (input) FRAME_PAYLOAD_LENGTH_OFFSET :: nat where "FRAME_PAYLOAD_LENGTH_OFFSET \<equiv> MESSAGE_HEADER_SIZE + 13"
abbreviation (input) FRAME_PACE_OVERHEAD_BITS :: nat where "FRAME_PACE_OVERHEAD_BITS \<equiv> 64"
abbreviation (input) FRAME_PACE_BITS_PER_BYTE :: nat where "FRAME_PACE_BITS_PER_BYTE \<equiv> 10"
abbreviation (input) LIVE_EGRESS_MAX_AGE_US :: nat where "LIVE_EGRESS_MAX_AGE_US \<equiv> 50000"
abbreviation (input) FRAME_BUFFER :: bytes where "FRAME_BUFFER \<equiv> replicate 84 0"

abbreviation (input) frameWireSize :: "FrameMessage \<Rightarrow> nat" where
  "frameWireSize frame \<equiv> MESSAGE_HEADER_SIZE + FRAME_FIXED_FIELDS_SIZE + unat (fm_payload_length frame)"

definition frameWireBits :: "bytes \<Rightarrow> nat \<Rightarrow> nat" where
  "frameWireBits wire sz =
     (if sz \<le> FRAME_PAYLOAD_LENGTH_OFFSET then FRAME_PACE_OVERHEAD_BITS
      else FRAME_PACE_OVERHEAD_BITS + FRAME_PACE_BITS_PER_BYTE * unat (wire ! FRAME_PAYLOAD_LENGTH_OFFSET))"

definition with_egress :: "Broker \<Rightarrow> nat \<Rightarrow> (EgressQueue \<Rightarrow> EgressQueue) \<Rightarrow> Broker" where
  "with_egress self peer f = with_peer self peer (\<lambda>p. p\<lparr>hp_egress := f (hp_egress p)\<rparr>)"

definition enqueueFrame :: "Broker \<Rightarrow> nat \<Rightarrow> u8 \<Rightarrow> bytes \<Rightarrow> nat \<Rightarrow> Broker" where
  "enqueueFrame self peer channel data sz =
     (let ((result, evicted), egress) = EgressQueue_Push (hp_egress (peer_at self peer)) channel data sz (bk_now_us self);
          evicted_channel = (case evicted of None \<Rightarrow> 0 | Some c \<Rightarrow> c);
          self = with_egress self peer (\<lambda>_. egress)
      in if result \<noteq> kEGRESS_PUSH_QUEUED then countDropped self peer evicted_channel else self)"

definition disconnectSlowConsumer :: "HubPorts \<Rightarrow> Broker \<Rightarrow> nat \<Rightarrow> bool \<times> Broker" where
  "disconnectSlowConsumer ports self destination =
     (let peer_id = hp_peer_id (peer_at self destination)
      in if hp_role (peer_at self destination) \<noteq> kHUB_PEER_ROLE_CLIENT then (False, self)
         else
           let self = sendError self peer_id kERROR_CODE_SLOW_CONSUMER (c_text ''reliable channel stalled'')
           in (True, disconnectPeer ports self peer_id))"

definition try_egress :: "Broker \<Rightarrow> u32 \<Rightarrow> u8 \<Rightarrow> nat \<Rightarrow> bool \<times> Broker" where
  "try_egress self peer_id channel bits =
     (let (sent, registry) = InterfaceRegistry_TryEgress (bk_registry self) peer_id channel bits (bk_now_us self)
      in (sent, self\<lparr>bk_registry := registry\<rparr>))"

definition forwardFrame :: "HubPorts \<Rightarrow> Broker \<Rightarrow> FrameRoute \<Rightarrow> FrameMessage \<Rightarrow> u8 \<Rightarrow> bool \<times> Broker" where
  "forwardFrame ports self route frame route_flags =
     (let outgoing = frame\<lparr>fm_channel := fr_channel route, fm_route_flags := route_flags\<rparr>;
          (sz, forwarded) = FrameMessage_Encode outgoing FRAME_BUFFER
      in case PeerDirectory_Find (bk_directory self) (fr_peer_id route) of
           None \<Rightarrow>
             let (sent, self) = send_frame ports self (fr_peer_id route) (fr_channel route) (take sz forwarded)
             in (True, if sent then with_metrics self (\<lambda>m. m\<lparr>hm_frames_forwarded := hm_frames_forwarded m + 1\<rparr>)
                       else drop_frames self 1)
         | Some destination \<Rightarrow>
             if fr_reliable route
             then
               let (sent, self) = send_frame ports self (fr_peer_id route) (fr_channel route) (take sz forwarded)
               in if \<not> sent then disconnectSlowConsumer ports self destination
                  else (True, countForwarded self destination (fr_channel route))
             else if EgressQueue_ChannelPending (hp_egress (peer_at self destination)) (fr_channel route)
             then (True, enqueueFrame self destination (fr_channel route) forwarded sz)
             else
               let (paced, self) = try_egress self (fr_peer_id route) (fr_channel route) (frameWireBits forwarded sz)
               in if \<not> paced then (True, enqueueFrame self destination (fr_channel route) forwarded sz)
                  else
                    let (sent, self) = send_frame ports self (fr_peer_id route) (fr_channel route) (take sz forwarded)
                    in if sent then (True, countForwarded self destination (fr_channel route))
                       else (True, enqueueFrame self destination (fr_channel route) forwarded sz))"

definition routeTakesFrame :: "Broker \<Rightarrow> FrameRoute \<Rightarrow> FrameMessage \<Rightarrow> u32 \<Rightarrow> bool" where
  "routeTakesFrame self route frame echo_originator_peer_id =
     (if fr_suppress_echo route \<and> fr_peer_id route = echo_originator_peer_id then False
      else case PeerDirectory_Find (bk_directory self) (fr_peer_id route) of
        None \<Rightarrow> True
      | Some destination \<Rightarrow>
          if hp_role (peer_at self destination) \<noteq> kHUB_PEER_ROLE_CLIENT then True
          else ClientSession_ChannelAccepts (hp_session (peer_at self destination)) (fr_channel route) (fm_can_id frame))"

definition reliableRoutesFit :: "HubPorts \<Rightarrow> Broker \<Rightarrow> FrameRoute list \<Rightarrow> FrameMessage \<Rightarrow> u32 \<Rightarrow> bool" where
  "reliableRoutesFit ports self routes frame echo_originator_peer_id =
     list_all (\<lambda>route.
       \<not> fr_reliable route \<or> \<not> routeTakesFrame self route frame echo_originator_peer_id \<or>
       htp_frame_fits (hub_transport ports) (bk_calls self) (fr_peer_id route) (fr_channel route) (frameWireSize frame)) routes"

text \<open>The loop over the routes: whether every route took the frame, and the state after.\<close>

fun forward_routes ::
    "HubPorts \<Rightarrow> FrameMessage \<Rightarrow> u32 \<Rightarrow> u8 \<Rightarrow> FrameRoute list \<Rightarrow> bool \<times> Broker \<Rightarrow> bool \<times> Broker" where
  "forward_routes ports frame originator route_flags [] (taken, self) = (taken, self)"
| "forward_routes ports frame originator route_flags (route # routes) (taken, self) =
     forward_routes ports frame originator route_flags routes
       (if \<not> routeTakesFrame self route frame originator then (taken, self)
        else case forwardFrame ports self route frame route_flags of
          (ok, self) \<Rightarrow> (taken \<and> ok, self))"

section \<open>Draining the queue of a peer\<close>

definition liveFrameTooOld :: "Broker \<Rightarrow> HubPeer \<Rightarrow> u8 \<Rightarrow> bool" where
  "liveFrameTooOld self peer channel =
     (if hp_role peer \<noteq> kHUB_PEER_ROLE_CLIENT then False
      else let enqueued_us = EgressQueue_FrontEnqueuedUs (hp_egress peer) channel
           in bk_now_us self > enqueued_us \<and> bk_now_us self - enqueued_us > LIVE_EGRESS_MAX_AGE_US)"

text \<open>
  The inner loop: whether the transport refused a frame, which makes \<open>drainPeer\<close> return, and the
  state after.
\<close>

fun drain_channel :: "HubPorts \<Rightarrow> nat \<Rightarrow> u8 \<Rightarrow> nat \<Rightarrow> Broker \<Rightarrow> bool \<times> Broker" where
  "drain_channel ports peer channel 0 self = (False, self)"
| "drain_channel ports peer channel (Suc fuel) self =
     (case EgressQueue_FrontOfChannel (hp_egress (peer_at self peer)) channel of
        None \<Rightarrow> (False, self)
      | Some (front, sz) \<Rightarrow>
          if liveFrameTooOld self (peer_at self peer) channel
          then
            let self = with_egress self peer (\<lambda>q. EgressQueue_PopChannel q channel)
            in drain_channel ports peer channel fuel (countDropped self peer channel)
          else
            let peer_id = hp_peer_id (peer_at self peer);
                (paced, self) = try_egress self peer_id channel (frameWireBits front sz)
            in if \<not> paced then (False, self)
               else
                 let (sent, self) = send_frame ports self peer_id channel (take sz front)
                 in if \<not> sent then (True, self)
                    else
                      let self = with_egress self peer (\<lambda>q. EgressQueue_PopChannel q channel)
                      in drain_channel ports peer channel fuel (countForwarded self peer channel))"

text \<open>A queue has \<open>EGRESS_QUEUE_SLOTS_MAX\<close> slots, and one more round finds it empty.\<close>

fun drain_channels :: "HubPorts \<Rightarrow> nat \<Rightarrow> nat \<Rightarrow> Broker \<Rightarrow> Broker" where
  "drain_channels ports peer 0 self = self"
| "drain_channels ports peer (Suc rounds) self =
     (case EgressQueue_NextPendingChannel (hp_egress (peer_at self peer)) of
        (None, _) \<Rightarrow> self
      | (Some channel, egress) \<Rightarrow>
          let self = with_egress self peer (\<lambda>_. egress);
              (refused, self) = drain_channel ports peer channel (EGRESS_QUEUE_SLOTS_MAX + 1) self
          in if refused then self else drain_channels ports peer rounds self)"

definition drainPeer :: "HubPorts \<Rightarrow> Broker \<Rightarrow> nat \<Rightarrow> Broker" where
  "drainPeer ports self peer = drain_channels ports peer EGRESS_QUEUE_CHANNELS_MAX self"

section \<open>Bridges and groups\<close>

definition BRIDGE_GROUP_AGENT_NAME :: bytes where
  "BRIDGE_GROUP_AGENT_NAME = c_text ''group''"

abbreviation (input) isGroupEndpoint :: "BridgeEndpoint \<Rightarrow> bool" where
  "isGroupEndpoint endpoint \<equiv> str_eq (be_agent_name endpoint) BRIDGE_GROUP_AGENT_NAME"

abbreviation (input) bridgesConfigured :: "Broker \<Rightarrow> bool" where
  "bridgesConfigured self \<equiv> (\<not> BridgeRoutes_IsEmpty (bk_bridges self) \<or> \<not> BridgeGroups_IsEmpty (bk_groups self))"

definition channelRefusesFrame :: "Broker \<Rightarrow> HubPeer \<Rightarrow> FrameMessage \<Rightarrow> bool" where
  "channelRefusesFrame self client frame =
     (case ClientSession_InterfaceForChannel (hp_session client) (fm_channel frame) of
        None \<Rightarrow> False
      | Some interface_id \<Rightarrow>
          (case InterfaceRegistry_FindById (bk_registry self) interface_id of
             None \<Rightarrow> False
           | Some entry \<Rightarrow> InterfaceEntry_RefusesFrame entry (fm_frame_flags frame)))"

definition groupOfChannel :: "Broker \<Rightarrow> HubPeer \<Rightarrow> u8 \<Rightarrow> (nat \<times> InterfaceEntry) option" where
  "groupOfChannel self client channel =
     (case ClientSession_InterfaceForChannel (hp_session client) channel of
        None \<Rightarrow> None
      | Some interface_id \<Rightarrow>
          (case InterfaceRegistry_FindById (bk_registry self) interface_id of
             None \<Rightarrow> None
           | Some entry \<Rightarrow>
               if \<not> InterfaceEntry_IsVirtual entry then None
               else map_option (\<lambda>slot. (slot, entry)) (group_findIndex (bk_groups self) (ie_interface_name entry))))"

definition bump :: "(u64 \<Rightarrow> u64) \<Rightarrow> (u64 \<Rightarrow> u64) \<Rightarrow> Counters \<Rightarrow> Broker \<Rightarrow> Broker" where
  "bump forwarded dropped counters self =
     (case counters of
        RouteCounters i \<Rightarrow> self\<lparr>bk_bridges := (bk_bridges self)\<lparr>brt_slots := (brt_slots (bk_bridges self))
          [i := (brt_slots (bk_bridges self) ! i)\<lparr>brs_forwarded := forwarded (brs_forwarded (brt_slots (bk_bridges self) ! i)),
             brs_dropped := dropped (brs_dropped (brt_slots (bk_bridges self) ! i))\<rparr>]\<rparr>\<rparr>
      | GroupCounters i \<Rightarrow> self\<lparr>bk_groups := (bk_groups self)\<lparr>bgt_slots := (bgt_slots (bk_groups self))
          [i := (bgt_slots (bk_groups self) ! i)\<lparr>bgs_forwarded := forwarded (bgs_forwarded (bgt_slots (bk_groups self) ! i)),
             bgs_dropped := dropped (bgs_dropped (bgt_slots (bk_groups self) ! i))\<rparr>]\<rparr>\<rparr>)"

definition issue_token :: "Broker \<Rightarrow> nat \<Rightarrow> u32 \<Rightarrow> u8 \<times> Broker" where
  "issue_token self agent owner =
     (let (token, tokens) = EchoTokens_Issue (hp_echo_tokens (peer_at self agent)) owner
      in (token, with_peer self agent (\<lambda>p. p\<lparr>hp_echo_tokens := tokens\<rparr>)))"

definition bridgeInto :: "HubPorts \<Rightarrow> Broker \<Rightarrow> BridgeTarget \<Rightarrow> FrameMessage \<Rightarrow> Broker" where
  "bridgeInto ports self target frame =
     (case InterfaceRegistry_FindByName (bk_registry self) (be_agent_name (bt_destination target))
         (be_interface_name (bt_destination target)) of
        None \<Rightarrow> bump id (\<lambda>n. n + 1) (bt_counters target) self
      | Some destination \<Rightarrow>
          if InterfaceEntry_RefusesFrame destination (fm_frame_flags frame)
          then bump id (\<lambda>n. n + 1) (bt_counters target) self
          else
            let (token, self) = (case PeerDirectory_Find (bk_directory self) (ie_agent_peer_id destination) of
                  None \<Rightarrow> (FRAME_ROUTE_NO_TOKEN, self)
                | Some agent \<Rightarrow> issue_token self agent ECHO_TOKENS_BRIDGE_OWNER)
            in if token = FRAME_ROUTE_NO_TOKEN then bump id (\<lambda>n. n + 1) (bt_counters target) self
               else
                 let route = \<lparr>fr_peer_id = ie_agent_peer_id destination, fr_channel = ie_agent_channel destination,
                       fr_suppress_echo = False, fr_reliable = False\<rparr>;
                     self = snd (forwardFrame ports self route frame (push_bit FRAME_ROUTE_TOKEN_SHIFT token))
                 in bump (\<lambda>n. n + 1) id (bt_counters target) self)"

definition showToGroup :: "HubPorts \<Rightarrow> Broker \<Rightarrow> InterfaceEntry \<Rightarrow> FrameMessage \<Rightarrow> u32 \<Rightarrow> u8 \<Rightarrow> u16 \<times> Broker" where
  "showToGroup ports self entry frame echo_originator_peer_id route_flags =
     (let (routes, routes_dropped) = FrameRoutes_ToInterface (bk_directory self) (ie_interface_id entry) FRAME_ROUTES_MAX;
          self = drop_frames self (ucast routes_dropped);
          self = with_registry self (\<lambda>r. InterfaceRegistry_CountFrame r (ie_interface_id entry))
      in (of_nat (length routes), snd (forward_routes ports frame echo_originator_peer_id route_flags routes (True, self))))"

fun show_to_groups ::
    "HubPorts \<Rightarrow> BridgeEndpoint \<Rightarrow> FrameMessage \<Rightarrow> u32 \<Rightarrow> u8 \<Rightarrow> nat list \<Rightarrow> u16 \<times> Broker \<Rightarrow> u16 \<times> Broker" where
  "show_to_groups ports origin frame originator route_flags [] (shown, self) = (shown, self)"
| "show_to_groups ports origin frame originator route_flags (i # is) (shown, self) =
     show_to_groups ports origin frame originator route_flags is
       (case BridgeGroups_Slot (bk_groups self) i of
          None \<Rightarrow> (shown, self)
        | Some slot \<Rightarrow>
            if \<not> BridgeGroup_Carries (bgs_group slot) origin (fm_can_id frame) then (shown, self)
            else case InterfaceRegistry_FindByName (bk_registry self) BRIDGE_GROUP_AGENT_NAME (bg_name (bgs_group slot)) of
              None \<Rightarrow> (shown, self)
            | Some entry \<Rightarrow>
                (case showToGroup ports self entry frame originator route_flags of (n, self) \<Rightarrow> (shown + n, self)))"

definition showToGroups :: "HubPorts \<Rightarrow> Broker \<Rightarrow> BridgeEndpoint \<Rightarrow> FrameMessage \<Rightarrow> u32 \<Rightarrow> u8 \<Rightarrow> u16 \<times> Broker" where
  "showToGroups ports self origin frame echo_originator_peer_id route_flags =
     show_to_groups ports origin frame echo_originator_peer_id route_flags [0..<BRIDGE_GROUPS_MAX] (0, self)"

definition write_member :: "HubPorts \<Rightarrow> u32 \<Rightarrow> nat \<Rightarrow> FrameMessage \<Rightarrow> nat \<Rightarrow> Broker \<Rightarrow> Broker" where
  "write_member ports writer_peer_id slot frame i self =
     (let member = bg_members (bgs_group (bgt_slots (bk_groups self) ! slot)) ! i
      in if \<not> BridgeGroupMember_Receives member then self
         else if endpointLeasedToAnother self (bgm_endpoint member) writer_peer_id then drop_leased self
         else bridgeInto ports self \<lparr>bt_destination = bgm_endpoint member, bt_counters = GroupCounters slot\<rparr> frame)"

definition writeIntoGroup :: "HubPorts \<Rightarrow> Broker \<Rightarrow> nat \<Rightarrow> nat \<Rightarrow> InterfaceEntry \<Rightarrow> FrameMessage \<Rightarrow> Broker" where
  "writeIntoGroup ports self writer slot entry frame =
     (let self = fold (write_member ports (hp_peer_id (peer_at self writer)) slot frame)
            [0..<bg_member_count (bgs_group (bgt_slots (bk_groups self) ! slot))] self
      in snd (showToGroup ports self entry frame (hp_peer_id (peer_at self writer)) 0))"

definition bridgeFrame :: "HubPorts \<Rightarrow> Broker \<Rightarrow> nat \<Rightarrow> FrameMessage \<Rightarrow> u32 \<Rightarrow> u8 \<Rightarrow> u16 \<times> Broker" where
  "bridgeFrame ports self source_agent frame echo_originator_peer_id route_flags =
     (case InterfaceRegistry_FindByAgentChannel (bk_registry self) (hp_peer_id (peer_at self source_agent)) (fm_channel frame) of
        None \<Rightarrow> (0, self)
      | Some source \<Rightarrow>
          let origin = \<lparr>be_agent_name = ie_agent_name source, be_interface_name = ie_interface_name source\<rparr>;
              targets = BridgeTargets_Collect (bk_bridges self) (bk_groups self) origin (fm_can_id frame);
              self = fold (\<lambda>target self. bridgeInto ports self target frame) targets self;
              (shown, self) = showToGroups ports self origin frame echo_originator_peer_id route_flags
          in (of_nat (length targets) + shown, self))"

section \<open>Routing\<close>

abbreviation (input) FRAME_ROUTE_FLAG_BRIDGED :: u8 where "FRAME_ROUTE_FLAG_BRIDGED \<equiv> 1"

definition injectionToken :: "Broker \<Rightarrow> HubPeer \<Rightarrow> FrameRoute list \<Rightarrow> u8 \<times> Broker" where
  "injectionToken self sender routes =
     (case routes of
        [] \<Rightarrow> (FRAME_ROUTE_NO_TOKEN, self)
      | route # _ \<Rightarrow>
          (case PeerDirectory_Find (bk_directory self) (fr_peer_id route) of
             None \<Rightarrow> (FRAME_ROUTE_NO_TOKEN, self)
           | Some agent \<Rightarrow> issue_token self agent (hp_peer_id sender)))"

definition count_unroutable :: "Broker \<Rightarrow> Broker" where
  "count_unroutable self = with_metrics self (\<lambda>m. m\<lparr>hm_frames_unroutable := hm_frames_unroutable m + 1\<rparr>)"

text \<open>The two halves of \<open>routeFrame\<close>, for the frame of an agent and for that of a client.\<close>

definition route_agent_frame :: "HubPorts \<Rightarrow> Broker \<Rightarrow> nat \<Rightarrow> FrameMessage \<Rightarrow> bool \<times> Broker" where
  "route_agent_frame ports self peer frame =
     (let (routes, routes_dropped) = FrameRoutes_FromAgent (bk_registry self) (bk_directory self)
            (hp_peer_id (peer_at self peer)) (fm_channel frame) FRAME_ROUTES_MAX;
          forwarded_route_flags = fm_route_flags frame AND (FRAME_ROUTE_FLAG_BRIDGED OR FRAME_ROUTE_FLAG_ECHO);
          echo_originator_peer_id = EchoTokens_Originator (hp_echo_tokens (peer_at self peer)) (fm_route_flags frame);
          bridged = (echo_originator_peer_id = ECHO_TOKENS_BRIDGE_OWNER \<or> fm_route_flags frame AND FRAME_ROUTE_FLAG_BRIDGED \<noteq> 0);
          forwarded_route_flags =
            (if bridged then forwarded_route_flags OR FRAME_ROUTE_FLAG_BRIDGED else forwarded_route_flags);
          self = drop_frames self (ucast routes_dropped);
          (taken, self) = forward_routes ports frame echo_originator_peer_id forwarded_route_flags routes (True, self);
          (bridged_count, self) =
            (if hp_role (peer_at self peer) = kHUB_PEER_ROLE_AGENT \<and> \<not> bridged \<and> bridgesConfigured self
             then bridgeFrame ports self peer frame echo_originator_peer_id forwarded_route_flags else (0, self));
          self = (if routes = [] \<and> bridged_count = 0 then count_unroutable self else self)
      in (taken, self))"

definition route_client_frame :: "HubPorts \<Rightarrow> Broker \<Rightarrow> nat \<Rightarrow> FrameMessage \<Rightarrow> bool \<times> Broker" where
  "route_client_frame ports self peer frame =
     (let client = peer_at self peer
      in if \<not> ClientSession_CanWrite (hp_session client) (fm_channel frame) \<or> fm_can_id frame AND FRAME_CAN_ID_FLAG_ERR \<noteq> 0
         then (True, drop_frames self 1)
         else if channelLeasedToAnother self client (fm_channel frame) then (True, drop_leased self)
         else case groupOfChannel self client (fm_channel frame) of
           Some (slot, group_entry) \<Rightarrow> (True, writeIntoGroup ports self peer slot group_entry frame)
         | None \<Rightarrow>
             if channelRefusesFrame self client frame then (True, drop_frames self 1)
             else
               let (routes, routes_dropped) = FrameRoutes_FromClient (bk_registry self) client (fm_channel frame) FRAME_ROUTES_MAX;
                   (token, self) = injectionToken self client routes;
                   self = drop_frames self (ucast routes_dropped)
               in if \<not> reliableRoutesFit ports self routes frame 0 then (False, self)
                  else
                    let (taken, self) = forward_routes ports frame 0 (push_bit FRAME_ROUTE_TOKEN_SHIFT token) routes (True, self)
                    in (taken, if routes = [] then count_unroutable self else self))"

definition routeFrame :: "HubPorts \<Rightarrow> Broker \<Rightarrow> nat \<Rightarrow> FrameMessage \<Rightarrow> bool \<times> Broker" where
  "routeFrame ports self peer frame =
     (let self = with_metrics self (\<lambda>m. m\<lparr>hm_frames_received := hm_frames_received m + 1\<rparr>);
          self = countInterfaceFrame self (peer_at self peer) (fm_channel frame)
      in if hp_role (peer_at self peer) = kHUB_PEER_ROLE_AGENT then route_agent_frame ports self peer frame
         else route_client_frame ports self peer frame)"

end
