(* ===== verification/BrokerControl.thy ===== *)
theory BrokerControl
  imports BrokerFrames
begin

text \<open>
  The control handlers of \<open>hub/broker.c\<close> that serve agents and clients: admission and
  registration, channels, configuration, pacing, and the relay of transactions.  A handler gets the
  payload as the bytes the header announces.  A local struct that a decoder fills starts cleared.
  The loop that makes room for the interfaces of an enrolled agent is a \<open>function\<close>: every round
  disconnects a peer.
\<close>

section \<open>Admission\<close>

abbreviation (input) FIRST_CONTACT_PINS_MAX :: u32 where "FIRST_CONTACT_PINS_MAX \<equiv> 1024"
abbreviation (input) REGISTER_STATUS_IDENTITY_MISMATCH :: u8 where "REGISTER_STATUS_IDENTITY_MISMATCH \<equiv> 2"
abbreviation (input) REGISTER_STATUS_UNKNOWN_AGENT :: u8 where "REGISTER_STATUS_UNKNOWN_AGENT \<equiv> 3"
abbreviation (input) ADMIN_REJECTED_REASON_NOT_ALLOWED :: u8 where "ADMIN_REJECTED_REASON_NOT_ALLOWED \<equiv> 0"
abbreviation (input) ADMIN_REJECTED_REASON_FINGERPRINT_MISMATCH :: u8 where "ADMIN_REJECTED_REASON_FINGERPRINT_MISMATCH \<equiv> 1"

abbreviation (input) firstContactPinsFull :: "IdentityStorePort \<Rightarrow> Broker \<Rightarrow> bool" where
  "firstContactPinsFull port self \<equiv> (isp_count_first_contact port (bk_calls self) \<ge> FIRST_CONTACT_PINS_MAX)"

definition agentIdentityStatus :: "HubPorts \<Rightarrow> Broker \<Rightarrow> HubPeer \<Rightarrow> RegisterMessage \<Rightarrow> u8 \<times> Broker" where
  "agentIdentityStatus ports self peer registration =
     (case hub_identity_store ports of
        None \<Rightarrow> (REGISTER_STATUS_OK, self)
      | Some port \<Rightarrow>
          if hp_fingerprint_hex peer ! 0 = 0 then (REGISTER_STATUS_OK, self)
          else case isp_lookup port (bk_calls self) (reg_agent_name registration) of
            None \<Rightarrow>
              if bk_require_known_peers self \<or> firstContactPinsFull port self then (REGISTER_STATUS_UNKNOWN_AGENT, self)
              else
                let pinned = isp_pin port (bk_calls self) (reg_agent_name registration) (hp_fingerprint_hex peer);
                    self = calling self (PinAgent (reg_agent_name registration) (hp_fingerprint_hex peer))
                in (if \<not> pinned then REGISTER_STATUS_REJECTED else REGISTER_STATUS_OK, self)
          | Some pinned \<Rightarrow>
              (if str_eq pinned (hp_fingerprint_hex peer) then REGISTER_STATUS_OK else REGISTER_STATUS_IDENTITY_MISMATCH, self))"

definition agentIsEnrolled :: "HubPorts \<Rightarrow> Broker \<Rightarrow> HubPeer \<Rightarrow> bool" where
  "agentIsEnrolled ports self peer =
     (case hub_identity_store ports of
        None \<Rightarrow> False
      | Some port \<Rightarrow> if hp_fingerprint_hex peer ! 0 = 0 then False
          else isp_knows port (bk_calls self) (hp_fingerprint_hex peer))"

definition clientIsNamedByAcl :: "HubPorts \<Rightarrow> Broker \<Rightarrow> HubPeer \<Rightarrow> bool" where
  "clientIsNamedByAcl ports self peer =
     (case hub_authorization ports of
        None \<Rightarrow> False
      | Some port \<Rightarrow> if hp_fingerprint_hex peer ! 0 = 0 then False
          else azp_knows port (bk_calls self) (hp_fingerprint_hex peer))"

abbreviation (input) clientIsAdmitted :: "Broker \<Rightarrow> HubPeer \<Rightarrow> bool" where
  "clientIsAdmitted self peer \<equiv>
     (if \<not> bk_require_known_peers self \<or> hp_fingerprint_hex peer ! 0 = 0 then True else hp_vouched peer)"

abbreviation (input) recordRejection :: "Broker \<Rightarrow> HubPeer \<Rightarrow> bytes \<Rightarrow> u8 \<Rightarrow> Broker" where
  "recordRejection self peer name reason \<equiv>
     (let rejection = \<lparr>rj_peer = peer, rj_name = name, rj_reason = reason, rj_now_us = bk_now_us self\<rparr>
      in self\<lparr>bk_rejected_peers := RejectedPeers_Record (bk_rejected_peers self) rejection\<rparr>)"

definition rejectClient :: "HubPorts \<Rightarrow> Broker \<Rightarrow> nat \<Rightarrow> Broker" where
  "rejectClient ports self peer =
     (let p = peer_at self peer;
          self = recordRejection self p (hp_agent_name p) ADMIN_REJECTED_REASON_NOT_ALLOWED;
          self = sendError self (hp_peer_id p) kERROR_CODE_ROLE_REJECTED (c_text ''client fingerprint not in the hub allowlist'')
      in disconnectPeer ports self (hp_peer_id p))"

abbreviation (input) unknownAgentDetail :: "Broker \<Rightarrow> bytes" where
  "unknownAgentDetail self \<equiv>
     (if bk_require_known_peers self then c_text ''agent fingerprint not in the hub allowlist''
      else c_text ''first-contact pins are full; enroll the agent with pins add'')"

definition rejectAgent :: "HubPorts \<Rightarrow> Broker \<Rightarrow> nat \<Rightarrow> RegisterMessage \<Rightarrow> u8 \<Rightarrow> Broker" where
  "rejectAgent ports self peer registration identity_status =
     (let ack = \<lparr>rack_status = identity_status, rack_interface_count = 0, rack_channels = replicate REGISTER_INTERFACES_MAX 0\<rparr>;
          self = sendControl ports self peer (RegisterAckMessage_Encode ack CONTROL_BUFFER);
          p = peer_at self peer;
          self =
            (if identity_status = REGISTER_STATUS_UNKNOWN_AGENT
             then
               let self = recordRejection self p (reg_agent_name registration) ADMIN_REJECTED_REASON_NOT_ALLOWED
               in sendError self (hp_peer_id p) kERROR_CODE_ROLE_REJECTED (unknownAgentDetail self)
             else if identity_status = REGISTER_STATUS_IDENTITY_MISMATCH
             then
               let self = recordRejection self p (reg_agent_name registration) ADMIN_REJECTED_REASON_FINGERPRINT_MISMATCH
               in sendError self (hp_peer_id p) kERROR_CODE_ROLE_REJECTED (c_text ''agent name pinned to a different fingerprint'')
             else sendError self (hp_peer_id p) kERROR_CODE_ROLE_REJECTED (c_text ''agent identity could not be pinned''))
      in disconnectPeer ports self (hp_peer_id p))"

section \<open>Room in the registry\<close>

abbreviation (input) registryHasRoomFor :: "Broker \<Rightarrow> u8 \<Rightarrow> bool" where
  "registryHasRoomFor self interface_count \<equiv>
     (INTERFACE_REGISTRY_MAX - InterfaceRegistry_Count (bk_registry self) \<ge> unat interface_count)"

function displace_agents :: "HubPorts \<Rightarrow> u8 \<Rightarrow> Broker \<Rightarrow> bool \<times> Broker" where
  "displace_agents ports interface_count self =
     (if registryHasRoomFor self interface_count then (True, self)
      else case PeerDirectory_FindDisplaceableAgent (bk_directory self) of
        None \<Rightarrow> (False, self)
      | Some displaced \<Rightarrow>
          let peer_id = hp_peer_id (peer_at self displaced);
              self = sendError self peer_id kERROR_CODE_HUB_FULL (c_text ''displaced by an enrolled agent'')
          in displace_agents ports interface_count (disconnectPeer ports self peer_id))"
  by pat_completeness auto

lemma displaced_live:
  assumes "PeerDirectory_FindDisplaceableAgent d = Some i"
  shows "i < length (pd_peers d)" "hp_in_use (pd_peers d ! i)"
    "HubPeer_Displacement (pd_peers d ! i) = kHUB_PEER_DISPLACEMENT_UNVOUCHED_AGENT"
  using FindDisplaceableAgent_best [of d, unfolded assms option.case] by - (elim conjE, assumption)+

lemma displacing_counts:
  assumes "PeerDirectory_FindDisplaceableAgent (bk_directory b) = Some i"
  shows "PeerDirectory_Count (bk_directory (disconnectPeer ports (sendError b (hp_peer_id (peer_at b i)) code detail)
    (hp_peer_id (peer_at b i)))) < PeerDirectory_Count (bk_directory b)"
proof -
  obtain j where "PeerDirectory_Find (bk_directory b) (hp_peer_id (peer_at b i)) = Some j"
    using Find_live displaced_live [OF assms] by blast
  then show ?thesis
    using disconnectPeer_counts [of "sendError b (hp_peer_id (peer_at b i)) code detail" "hp_peer_id (peer_at b i)" j ports]
    by (simp add: sendError_def Let_def split_beta calling_def)
qed

termination displace_agents
  by (relation "measure (\<lambda>(_, _, b). PeerDirectory_Count (bk_directory b))") (simp_all add: displacing_counts)

declare displace_agents.simps [simp del]

definition makeRoomForInterfaces :: "HubPorts \<Rightarrow> Broker \<Rightarrow> u8 \<Rightarrow> bool \<times> Broker" where
  "makeRoomForInterfaces ports self interface_count =
     (if registryHasRoomFor self interface_count then (False, self) else displace_agents ports interface_count self)"

section \<open>Hello and registration\<close>

definition HelloMessage_zero :: HelloMessage where
  "HelloMessage_zero = \<lparr>hello_version = 0, hello_role = 0, hello_capabilities = 0, hello_name = replicate HELLO_NAME_SIZE 0\<rparr>"

definition RegisterMessage_zero :: RegisterMessage where
  "RegisterMessage_zero =
     \<lparr>reg_agent_name = replicate REGISTER_AGENT_NAME_SIZE 0, reg_interface_count = 0,
      reg_interface_names = replicate REGISTER_INTERFACES_MAX (replicate REGISTER_INTERFACE_NAME_SIZE 0),
      reg_fd_reported = False, reg_fd_interfaces = 0\<rparr>"

definition forget_rejection :: "Broker \<Rightarrow> nat \<Rightarrow> Broker" where
  "forget_rejection self peer = self\<lparr>bk_rejected_peers := RejectedPeers_Forget (bk_rejected_peers self) (peer_at self peer)\<rparr>"

definition refuse_peer :: "HubPorts \<Rightarrow> Broker \<Rightarrow> nat \<Rightarrow> u16 \<Rightarrow> string \<Rightarrow> Broker" where
  "refuse_peer ports self peer code detail =
     (let peer_id = hp_peer_id (peer_at self peer);
          self = sendError self peer_id code (c_text detail)
      in disconnectPeer ports self peer_id)"

definition handleHello :: "HubPorts \<Rightarrow> Broker \<Rightarrow> nat \<Rightarrow> MessageHeader \<Rightarrow> bytes \<Rightarrow> Broker" where
  "handleHello ports self peer header payload =
     (if hp_role (peer_at self peer) \<noteq> kHUB_PEER_ROLE_UNKNOWN then self
      else case HelloMessage_Decode HelloMessage_zero payload of
        (False, _) \<Rightarrow> refuse_peer ports self peer kERROR_CODE_MALFORMED ''malformed hello''
      | (True, hello) \<Rightarrow>
          (case HubPeer_AdoptRole (peer_at self peer) (hello_role hello) of
             (False, _) \<Rightarrow> refuse_peer ports self peer kERROR_CODE_ROLE_REJECTED ''admin role requires a local transport''
           | (True, p) \<Rightarrow>
               let self = with_peer self peer (\<lambda>_. p\<lparr>hp_capabilities := hello_capabilities hello\<rparr>)
               in if hp_role (peer_at self peer) \<noteq> kHUB_PEER_ROLE_CLIENT then self
                  else
                    let self = (if hello_name hello ! 0 \<noteq> 0
                          then with_peer self peer (\<lambda>p. HubPeer_SetAgentName p (hello_name hello)) else self);
                        vouched = clientIsNamedByAcl ports self (peer_at self peer);
                        self = with_peer self peer (\<lambda>p. p\<lparr>hp_vouched := vouched\<rparr>)
                    in if \<not> clientIsAdmitted self (peer_at self peer) then rejectClient ports self peer
                       else forget_rejection self peer))"

definition register_agent :: "Broker \<Rightarrow> u32 \<Rightarrow> RegisterMessage \<Rightarrow> bool \<times> RegisterAckMessage \<times> Broker" where
  "register_agent self peer_id registration =
     (let (registered, ack, registry) = InterfaceRegistry_RegisterAgent (bk_registry self) peer_id registration
      in (registered, ack, self\<lparr>bk_registry := registry\<rparr>))"

definition displaceGhostPeer :: "HubPorts \<Rightarrow> Broker \<Rightarrow> HubPeer \<Rightarrow> RegisterMessage \<Rightarrow> bool \<times> Broker" where
  "displaceGhostPeer ports self peer registration =
     (case InterfaceRegistry_CollidingPeer (bk_registry self) registration of
        None \<Rightarrow> (False, self)
      | Some ghost_peer_id \<Rightarrow>
          if ghost_peer_id = hp_peer_id peer then (False, self)
          else case PeerDirectory_Find (bk_directory self) ghost_peer_id of
            None \<Rightarrow> (False, self)
          | Some ghost \<Rightarrow>
              if \<not> HubPeer_IsSameAgent peer (peer_at self ghost) then (False, self)
              else (True, disconnectPeer ports self ghost_peer_id))"

text \<open>
  The three attempts at a registration: as it is, after a ghost of the agent is gone, and after
  room was made.  An attempt after the first overwrites the acknowledgement.
\<close>

definition register_attempts ::
    "HubPorts \<Rightarrow> Broker \<Rightarrow> nat \<Rightarrow> RegisterMessage \<Rightarrow> bool \<times> RegisterAckMessage \<times> Broker" where
  "register_attempts ports self peer registration =
     (let (registered, ack, self) = register_agent self (hp_peer_id (peer_at self peer)) registration;
          (displaced, self) = (if \<not> registered then displaceGhostPeer ports self (peer_at self peer) registration else (False, self));
          (registered, ack, self) =
            (if displaced then register_agent self (hp_peer_id (peer_at self peer)) registration else (registered, ack, self));
          (room, self) =
            (if \<not> registered \<and> hp_vouched (peer_at self peer)
             then makeRoomForInterfaces ports self (reg_interface_count registration) else (False, self))
      in if room then register_agent self (hp_peer_id (peer_at self peer)) registration else (registered, ack, self))"

definition handleRegister :: "HubPorts \<Rightarrow> Broker \<Rightarrow> nat \<Rightarrow> MessageHeader \<Rightarrow> bytes \<Rightarrow> Broker" where
  "handleRegister ports self peer header payload =
     (if hp_role (peer_at self peer) \<noteq> kHUB_PEER_ROLE_AGENT then self
      else case RegisterMessage_Decode RegisterMessage_zero payload of
        (False, _) \<Rightarrow> refuse_peer ports self peer kERROR_CODE_MALFORMED ''malformed register''
      | (True, registration) \<Rightarrow>
          if str_eq (reg_agent_name registration) BRIDGE_GROUP_AGENT_NAME
          then refuse_peer ports self peer kERROR_CODE_ROLE_REJECTED ''the agent name group is reserved for bridge groups''
          else
            let (identity_status, self) = agentIdentityStatus ports self (peer_at self peer) registration
            in if identity_status \<noteq> REGISTER_STATUS_OK then rejectAgent ports self peer registration identity_status
               else
                 let vouched = agentIsEnrolled ports self (peer_at self peer);
                     self = with_peer self peer (\<lambda>p. p\<lparr>hp_vouched := vouched\<rparr>);
                     (registered, ack, self) = register_attempts ports self peer registration;
                     self = sendControl ports self peer (RegisterAckMessage_Encode ack CONTROL_BUFFER)
                 in if \<not> registered then disconnectPeer ports self (hp_peer_id (peer_at self peer))
                    else
                      let self = with_peer self peer (\<lambda>p. HubPeer_SetAgentName p (reg_agent_name registration));
                          self = forget_rejection self peer
                      in reattachClientsToAgent ports self (hp_peer_id (peer_at self peer)))"

section \<open>Listing, channels and filters\<close>

definition handleList :: "HubPorts \<Rightarrow> Broker \<Rightarrow> nat \<Rightarrow> MessageHeader \<Rightarrow> bytes \<Rightarrow> Broker" where
  "handleList ports self peer header payload =
     (case ListMessage_Decode \<lparr>list_offset = 0\<rparr> payload of
        (False, _) \<Rightarrow> self
      | (True, msg) \<Rightarrow>
          sendControl ports self peer
            (ListReplyMessage_Encode (InterfaceRegistry_List (bk_registry self) (unat (list_offset msg))) CONTROL_BUFFER))"

abbreviation (input) OPEN_STATUS_OK :: u8 where "OPEN_STATUS_OK \<equiv> 0"
abbreviation (input) OPEN_STATUS_REJECTED :: u8 where "OPEN_STATUS_REJECTED \<equiv> 1"
abbreviation (input) OPEN_STATUS_WRITE_DENIED :: u8 where "OPEN_STATUS_WRITE_DENIED \<equiv> 2"
abbreviation (input) OPEN_STATUS_READ_DENIED :: u8 where "OPEN_STATUS_READ_DENIED \<equiv> 3"
abbreviation (input) OPEN_STATUS_RELIABLE_UNSUPPORTED :: u8 where "OPEN_STATUS_RELIABLE_UNSUPPORTED \<equiv> 4"
abbreviation (input) OPEN_FLAG_SUPPRESS_OWN_ECHO :: u8 where "OPEN_FLAG_SUPPRESS_OWN_ECHO \<equiv> 1"
abbreviation (input) OPEN_FLAG_WANT_WRITE :: u8 where "OPEN_FLAG_WANT_WRITE \<equiv> 2"
abbreviation (input) OPEN_FLAG_RELIABLE :: u8 where "OPEN_FLAG_RELIABLE \<equiv> 4"
abbreviation (input) OPEN_FLAG_ERROR_FRAMES :: u8 where "OPEN_FLAG_ERROR_FRAMES \<equiv> 8"

definition send_open_ack :: "HubPorts \<Rightarrow> Broker \<Rightarrow> nat \<Rightarrow> u8 \<Rightarrow> u8 \<Rightarrow> u32 \<Rightarrow> Broker" where
  "send_open_ack ports self peer status channel interface_id =
     sendControl ports self peer
       (OpenAckMessage_Encode \<lparr>ack_status = status, ack_channel = channel, ack_interface_id = interface_id\<rparr> CONTROL_BUFFER)"

definition handleOpen :: "HubPorts \<Rightarrow> Broker \<Rightarrow> nat \<Rightarrow> MessageHeader \<Rightarrow> bytes \<Rightarrow> Broker" where
  "handleOpen ports self peer header payload =
     (if hp_role (peer_at self peer) \<noteq> kHUB_PEER_ROLE_CLIENT then self
      else case OpenMessage_Decode \<lparr>open_interface_id = 0, open_flags = 0\<rparr> payload of
        (False, _) \<Rightarrow> self
      | (True, msg) \<Rightarrow>
          (case InterfaceRegistry_FindById (bk_registry self) (open_interface_id msg) of
             None \<Rightarrow> send_open_ack ports self peer OPEN_STATUS_REJECTED 0 (open_interface_id msg)
           | Some entry \<Rightarrow>
               if \<not> clientCanRead ports self (peer_at self peer) entry
               then
                 let self = send_open_ack ports self peer OPEN_STATUS_READ_DENIED 0 (open_interface_id msg)
                 in sendError self (hp_peer_id (peer_at self peer)) kERROR_CODE_ROLE_REJECTED
                      (c_text ''not authorized to read this interface'')
               else
                 let can_write = clientCanWrite ports self (peer_at self peer) entry
                 in if open_flags msg AND OPEN_FLAG_WANT_WRITE \<noteq> 0 \<and> \<not> can_write
                    then
                      let self = send_open_ack ports self peer OPEN_STATUS_WRITE_DENIED 0 (open_interface_id msg)
                      in sendError self (hp_peer_id (peer_at self peer)) kERROR_CODE_ROLE_REJECTED
                           (c_text ''not authorized to inject on this interface'')
                    else
                      let reliable = (open_flags msg AND OPEN_FLAG_RELIABLE \<noteq> 0)
                      in if reliable \<and> \<not> reliableEndpointsSupport self (peer_at self peer) entry
                         then send_open_ack ports self peer OPEN_STATUS_RELIABLE_UNSUPPORTED 0 (open_interface_id msg)
                         else
                           let request = \<lparr>cor_interface_id = open_interface_id msg,
                                 cor_suppress_echo = (open_flags msg AND OPEN_FLAG_SUPPRESS_OWN_ECHO \<noteq> 0),
                                 cor_can_write = can_write, cor_reliable = reliable,
                                 cor_error_frames = (open_flags msg AND OPEN_FLAG_ERROR_FRAMES \<noteq> 0),
                                 cor_agent_name = ie_agent_name entry, cor_interface_name = ie_interface_name entry\<rparr>;
                               (opened, session) = ClientSession_OpenInterface (hp_session (peer_at self peer)) request;
                               self = with_session self peer (\<lambda>_. session)
                           in (case opened of
                                 None \<Rightarrow> send_open_ack ports self peer OPEN_STATUS_REJECTED 0 (open_interface_id msg)
                               | Some channel \<Rightarrow>
                                   let self = (if reliable
                                         then set_channel_mode self (ie_agent_peer_id entry) (ie_agent_channel entry) True
                                         else self);
                                       self = send_open_ack ports self peer OPEN_STATUS_OK channel (open_interface_id msg)
                                   in if leasedToAnother self (ie_interface_id entry) (hp_peer_id (peer_at self peer))
                                      then announceLease ports self (ie_interface_id entry) else self)))"

definition handleClose :: "HubPorts \<Rightarrow> Broker \<Rightarrow> nat \<Rightarrow> MessageHeader \<Rightarrow> bytes \<Rightarrow> Broker" where
  "handleClose ports self peer header payload =
     (if hp_role (peer_at self peer) \<noteq> kHUB_PEER_ROLE_CLIENT then self
      else case CloseMessage_Decode \<lparr>close_channel = 0\<rparr> payload of
        (False, _) \<Rightarrow> self
      | (True, msg) \<Rightarrow> closeClientChannel ports self peer (close_channel msg))"

definition handleSubscribe :: "HubPorts \<Rightarrow> Broker \<Rightarrow> nat \<Rightarrow> MessageHeader \<Rightarrow> bytes \<Rightarrow> Broker" where
  "handleSubscribe ports self peer header payload =
     (if hp_role (peer_at self peer) \<noteq> kHUB_PEER_ROLE_CLIENT then self
      else case SubscribeMessage_Decode \<lparr>sub_channel = 0, sub_filter_count = 0,
          sub_filters = replicate SUBSCRIBE_FILTERS_MAX CanFilter_zero\<rparr> payload of
        (False, _) \<Rightarrow> sendError self (hp_peer_id (peer_at self peer)) kERROR_CODE_MALFORMED (c_text ''malformed subscribe'')
      | (True, msg) \<Rightarrow>
          (case ClientSession_SetFilters (hp_session (peer_at self peer)) (sub_channel msg) (sub_filters msg) (sub_filter_count msg) of
             (False, _) \<Rightarrow>
               sendError self (hp_peer_id (peer_at self peer)) kERROR_CODE_MALFORMED (c_text ''subscribe on unopened channel'')
           | (True, session) \<Rightarrow> with_session self peer (\<lambda>_. session)))"

abbreviation (input) PING_REPLY_FLAG :: u8 where "PING_REPLY_FLAG \<equiv> 1"
abbreviation (input) kMESSAGE_TYPE_PING :: u8 where "kMESSAGE_TYPE_PING \<equiv> 0x7F"

definition handlePing :: "HubPorts \<Rightarrow> Broker \<Rightarrow> nat \<Rightarrow> MessageHeader \<Rightarrow> bytes \<Rightarrow> Broker" where
  "handlePing ports self peer header payload =
     (if mh_flags header AND PING_REPLY_FLAG \<noteq> 0 then self
      else sendControl ports self peer
        (MessageHeader_Encode \<lparr>mh_type = kMESSAGE_TYPE_PING, mh_flags = PING_REPLY_FLAG, mh_length = 0\<rparr>
           (replicate MESSAGE_HEADER_SIZE 0)))"

section \<open>Configuration of interfaces\<close>

definition rememberPendingIfconfig :: "Broker \<Rightarrow> u32 \<Rightarrow> InterfaceEntry \<Rightarrow> u32 option \<times> Broker" where
  "rememberPendingIfconfig self requester_peer_id entry =
     (case find_index (\<lambda>p. \<not> pi_in_use p) (bk_pending_ifconfig self) of
        None \<Rightarrow> (None, self)
      | Some i \<Rightarrow>
          let request_id = bk_next_ifconfig_request_id self + 1;
              pending = \<lparr>pi_in_use = True, pi_requester_peer_id = requester_peer_id, pi_agent_peer_id = ie_agent_peer_id entry,
                pi_interface_id = ie_interface_id entry, pi_request_id = request_id\<rparr>
          in (Some request_id, self\<lparr>bk_next_ifconfig_request_id := request_id,
                bk_pending_ifconfig := (bk_pending_ifconfig self)[i := pending]\<rparr>))"

definition takePendingIfconfig :: "Broker \<Rightarrow> u32 \<Rightarrow> u32 \<Rightarrow> PendingIfconfig option \<times> Broker" where
  "takePendingIfconfig self agent_peer_id request_id =
     (case find_index (\<lambda>p. pi_in_use p \<and> pi_agent_peer_id p = agent_peer_id \<and> pi_request_id p = request_id)
         (bk_pending_ifconfig self) of
        None \<Rightarrow> (None, self)
      | Some i \<Rightarrow> (Some (bk_pending_ifconfig self ! i), forget_pending self i))"

abbreviation (input) INTERFACE_FIELD_CTRLMODE :: u32 where "INTERFACE_FIELD_CTRLMODE \<equiv> push_bit 4 1"
abbreviation (input) INTERFACE_CTRLMODE_FD :: u32 where "INTERFACE_CTRLMODE_FD \<equiv> push_bit 5 1"
abbreviation (input) IFCONFIG_STATUS_OK :: u8 where "IFCONFIG_STATUS_OK \<equiv> 0"
abbreviation (input) IFCONFIG_STATUS_UNKNOWN_INTERFACE :: u8 where "IFCONFIG_STATUS_UNKNOWN_INTERFACE \<equiv> 1"

definition learnFdFromSettings :: "Broker \<Rightarrow> u32 \<Rightarrow> InterfaceSettings \<Rightarrow> Broker" where
  "learnFdFromSettings self interface_id settings =
     (if is_fields settings AND INTERFACE_FIELD_CTRLMODE = 0 \<or> is_ctrlmode_mask settings AND INTERFACE_CTRLMODE_FD = 0 then self
      else with_registry self (\<lambda>r. InterfaceRegistry_SetFdCapable r interface_id
        (is_ctrlmode_flags settings AND INTERFACE_CTRLMODE_FD \<noteq> 0)))"

abbreviation (input) configureStatus :: "u8 \<Rightarrow> u8" where
  "configureStatus agent_status \<equiv>
     (if agent_status = IFCONFIG_STATUS_OK then CONFIGURE_STATUS_OK
      else if agent_status = IFCONFIG_STATUS_UNKNOWN_INTERFACE then CONFIGURE_STATUS_UNKNOWN_INTERFACE
      else CONFIGURE_STATUS_APPLY_FAILED)"

definition handleConfigure :: "HubPorts \<Rightarrow> Broker \<Rightarrow> nat \<Rightarrow> MessageHeader \<Rightarrow> bytes \<Rightarrow> Broker" where
  "handleConfigure ports self peer header payload =
     (if hp_role (peer_at self peer) \<noteq> kHUB_PEER_ROLE_ADMIN \<and> hp_role (peer_at self peer) \<noteq> kHUB_PEER_ROLE_CLIENT then self
      else case ConfigureMessage_Decode \<lparr>cfg_agent_name = replicate REGISTER_AGENT_NAME_SIZE 0,
          cfg_interface_name = replicate REGISTER_INTERFACE_NAME_SIZE 0, cfg_op = 0, cfg_settings = InterfaceSettings_zero\<rparr> payload of
        (False, _) \<Rightarrow> self
      | (True, request) \<Rightarrow>
          (case InterfaceRegistry_FindByName (bk_registry self) (cfg_agent_name request) (cfg_interface_name request) of
             None \<Rightarrow> replyConfigure ports self peer CONFIGURE_STATUS_UNKNOWN_INTERFACE
           | Some entry \<Rightarrow>
               if InterfaceEntry_IsVirtual entry then replyConfigure ports self peer CONFIGURE_STATUS_UNKNOWN_INTERFACE
               else if \<not> peerCanConfigure ports self (peer_at self peer) entry
               then replyConfigure ports self peer CONFIGURE_STATUS_DENIED
               else case PeerDirectory_Find (bk_directory self) (ie_agent_peer_id entry) of
                 None \<Rightarrow> replyConfigure ports self peer CONFIGURE_STATUS_AGENT_UNREACHABLE
               | Some agent \<Rightarrow>
                   if hp_role (peer_at self agent) \<noteq> kHUB_PEER_ROLE_AGENT
                   then replyConfigure ports self peer CONFIGURE_STATUS_AGENT_UNREACHABLE
                   else case rememberPendingIfconfig self (hp_peer_id (peer_at self peer)) entry of
                     (None, self) \<Rightarrow> replyConfigure ports self peer CONFIGURE_STATUS_AGENT_UNREACHABLE
                   | (Some request_id, self) \<Rightarrow>
                       let forward = \<lparr>ifc_request_id = request_id, ifc_interface_name = ie_interface_name entry,
                             ifc_op = cfg_op request, ifc_settings = cfg_settings request\<rparr>
                       in sendControl ports self agent (IfconfigMessage_Encode forward CONTROL_BUFFER)))"

definition handleIfconfigReply :: "HubPorts \<Rightarrow> Broker \<Rightarrow> nat \<Rightarrow> MessageHeader \<Rightarrow> bytes \<Rightarrow> Broker" where
  "handleIfconfigReply ports self peer header payload =
     (if hp_role (peer_at self peer) \<noteq> kHUB_PEER_ROLE_AGENT then self
      else case IfconfigReplyMessage_Decode \<lparr>ifr_request_id = 0, ifr_status = 0, ifr_settings = InterfaceSettings_zero,
          ifr_detail = replicate IFCONFIG_DETAIL_SIZE 0\<rparr> payload of
        (False, _) \<Rightarrow> self
      | (True, reply) \<Rightarrow>
          (case takePendingIfconfig self (hp_peer_id (peer_at self peer)) (ifr_request_id reply) of
             (None, self) \<Rightarrow> self
           | (Some pending, self) \<Rightarrow>
               let self = learnFdFromSettings self (pi_interface_id pending) (ifr_settings reply)
               in (case PeerDirectory_Find (bk_directory self) (pi_requester_peer_id pending) of
                     None \<Rightarrow> self
                   | Some requester \<Rightarrow>
                       let relayed = \<lparr>cfr_status = configureStatus (ifr_status reply), cfr_settings = ifr_settings reply,
                             cfr_detail = ifr_detail reply\<rparr>
                       in sendControl ports self requester (ConfigureReplyMessage_Encode relayed CONTROL_BUFFER))))"

definition apply_status :: "HubPorts \<Rightarrow> u32 \<Rightarrow> InterfaceStatusEntry \<Rightarrow> Broker \<Rightarrow> Broker" where
  "apply_status ports peer_id status self =
     (let self = with_registry self (\<lambda>r. InterfaceRegistry_SetTxDropped r peer_id (ise_channel status) (unat (ise_tx_dropped status)));
          self = with_registry self (\<lambda>r. InterfaceRegistry_ApplyAdvertisedRate r peer_id (ise_channel status)
            (unat (ise_advertised_rate status)) (unat (ise_credit status)) (bk_now_us self))
      in case InterfaceRegistry_FindByAgentChannel (bk_registry self) peer_id (ise_channel status) of
           None \<Rightarrow> self
         | Some entry \<Rightarrow>
             relayPaceToClients ports self (ie_interface_id entry) (es_rate_bits_per_s (ie_shaper entry)))"

definition handleInterfaceStatus :: "HubPorts \<Rightarrow> Broker \<Rightarrow> nat \<Rightarrow> MessageHeader \<Rightarrow> bytes \<Rightarrow> Broker" where
  "handleInterfaceStatus ports self peer header payload =
     (if hp_role (peer_at self peer) \<noteq> kHUB_PEER_ROLE_AGENT then self
      else case InterfaceStatusMessage_Decode \<lparr>ism_interface_count = 0,
          ism_entries = replicate REGISTER_INTERFACES_MAX InterfaceStatusEntry_zero\<rparr> payload of
        (False, _) \<Rightarrow> self
      | (True, status) \<Rightarrow>
          fold (apply_status ports (hp_peer_id (peer_at self peer)))
            (take (unat (ism_interface_count status)) (ism_entries status)) self)"

section \<open>Transactions\<close>

abbreviation (input) TXN_BEGIN_FLAG_EXCLUSIVE :: u8 where "TXN_BEGIN_FLAG_EXCLUSIVE \<equiv> 1"
abbreviation (input) TXN_ABORT_BODY_SIZE :: nat where "TXN_ABORT_BODY_SIZE \<equiv> 4"
abbreviation (input) TXN_STEPS_FIXED_FIELDS_SIZE :: nat where "TXN_STEPS_FIXED_FIELDS_SIZE \<equiv> 12"
abbreviation (input) TRANSACTION_RELAY_WINDOW_MAX :: u32 where "TRANSACTION_RELAY_WINDOW_MAX \<equiv> 48 * 1024"
abbreviation (input) CONTROL_BUFFER_SIZE :: nat where "CONTROL_BUFFER_SIZE \<equiv> 4096"

definition admitTransaction :: "HubPorts \<Rightarrow> Broker \<Rightarrow> HubPeer \<Rightarrow> TxnBeginMessage \<Rightarrow> u8 + RelayedTransaction" where
  "admitTransaction ports self client begin_message =
     (case ClientSession_InterfaceForChannel (hp_session client) (tb_channel begin_message) of
        None \<Rightarrow> Inl kTXN_BEGIN_STATUS_INVALID
      | Some interface_id \<Rightarrow>
          (case InterfaceRegistry_FindById (bk_registry self) interface_id of
             None \<Rightarrow> Inl kTXN_BEGIN_STATUS_INVALID
           | Some entry \<Rightarrow>
               if InterfaceEntry_IsVirtual entry then Inl kTXN_BEGIN_STATUS_INVALID
               else case PeerDirectory_Find (bk_directory self) (ie_agent_peer_id entry) of
                 None \<Rightarrow> Inl kTXN_BEGIN_STATUS_INVALID
               | Some agent \<Rightarrow>
                   if hp_capabilities (peer_at self agent) AND HELLO_CAP_TRANSACTIONS = 0 then Inl kTXN_BEGIN_STATUS_UNSUPPORTED
                   else if \<not> ClientSession_ChannelReliable (hp_session client) (tb_channel begin_message)
                   then Inl kTXN_BEGIN_STATUS_RELIABLE_CHANNEL_REQUIRED
                   else if \<not> htp_channel_reliable (hub_transport ports) (bk_calls self) (hp_peer_id (peer_at self agent))
                     (ie_agent_channel entry)
                   then Inl kTXN_BEGIN_STATUS_RELIABLE_CHANNEL_REQUIRED
                   else if \<not> ClientSession_CanWrite (hp_session client) (tb_channel begin_message)
                   then Inl kTXN_BEGIN_STATUS_WRITE_DENIED
                   else if TransactionTable_ForAgent (bk_transactions self) (hp_peer_id (peer_at self agent)) \<noteq> None
                   then Inl kTXN_BEGIN_STATUS_BUSY
                   else Inr (RelayedTransaction_zero\<lparr>
                     rt_exclusive := (tb_flags begin_message AND TXN_BEGIN_FLAG_EXCLUSIVE \<noteq> 0),
                     rt_interface_id := interface_id, rt_agent_peer_id := hp_peer_id (peer_at self agent),
                     rt_agent_channel := ie_agent_channel entry, rt_client_peer_id := hp_peer_id client,
                     rt_client_channel := tb_channel begin_message, rt_started_at_us := bk_now_us self\<rparr>)))"

abbreviation (input) replyTxnBegin :: "HubPorts \<Rightarrow> Broker \<Rightarrow> nat \<Rightarrow> u8 \<Rightarrow> u8 \<Rightarrow> Broker" where
  "replyTxnBegin ports self client channel status \<equiv>
     sendControl ports self client (TxnBeginAckMessage_Encode
       \<lparr>tba_channel = channel, tba_status = status, tba_txn_id = 0, tba_window_bytes = 0\<rparr> CONTROL_BUFFER)"

definition open_transaction :: "Broker \<Rightarrow> RelayedTransaction \<Rightarrow> bool \<times> Broker" where
  "open_transaction self request =
     (let (opened, table) = TransactionTable_Open (bk_transactions self) request
      in (opened \<noteq> None, self\<lparr>bk_transactions := table\<rparr>))"

definition handleTxnBegin :: "HubPorts \<Rightarrow> Broker \<Rightarrow> nat \<Rightarrow> MessageHeader \<Rightarrow> bytes \<Rightarrow> Broker" where
  "handleTxnBegin ports self peer header payload =
     (if hp_role (peer_at self peer) \<noteq> kHUB_PEER_ROLE_CLIENT then self
      else case TxnBeginMessage_Decode \<lparr>tb_channel = 0, tb_flags = 0, tb_idle_timeout_ms = 0, tb_keepalive = TxnKeepalive_zero\<rparr> payload of
        (False, _) \<Rightarrow> self
      | (True, msg) \<Rightarrow>
          (case admitTransaction ports self (peer_at self peer) msg of
             Inl status \<Rightarrow> replyTxnBegin ports (count_rejected self) peer (tb_channel msg) status
           | Inr request \<Rightarrow>
               (case open_transaction self request of
                  (False, self) \<Rightarrow> replyTxnBegin ports (count_rejected self) peer (tb_channel msg) kTXN_BEGIN_STATUS_BUSY
                | (True, self) \<Rightarrow>
                    (case PeerDirectory_Find (bk_directory self) (rt_agent_peer_id request) of
                       None \<Rightarrow> self
                     | Some agent \<Rightarrow> sendControl ports self agent
                         (TxnBeginMessage_Encode (msg\<lparr>tb_channel := rt_agent_channel request\<rparr>) CONTROL_BUFFER)))))"

text \<open>The message as the hub sends it on: the same bytes, with the channel of the other side.\<close>

definition relayed_message :: "MessageHeader \<Rightarrow> bytes \<Rightarrow> u8 \<Rightarrow> bytes" where
  "relayed_message header payload channel =
     (let encoded = snd (MessageHeader_Encode header CONTROL_BUFFER);
          encoded = mem_write encoded MESSAGE_HEADER_SIZE payload
      in TxnMessage_SetChannel encoded channel)"

definition relayTransactionMessage :: "HubPorts \<Rightarrow> Broker \<Rightarrow> nat option \<Rightarrow> MessageHeader \<Rightarrow> bytes \<Rightarrow> u8 \<Rightarrow> Broker" where
  "relayTransactionMessage ports self destination header payload channel =
     (let sz = MESSAGE_HEADER_SIZE + unat (mh_length header)
      in case destination of
           None \<Rightarrow> self
         | Some destination \<Rightarrow>
             if sz > CONTROL_BUFFER_SIZE then self
             else sendControl ports self destination (sz, relayed_message header payload channel))"

definition handleTxnBeginAck :: "HubPorts \<Rightarrow> Broker \<Rightarrow> nat \<Rightarrow> MessageHeader \<Rightarrow> bytes \<Rightarrow> Broker" where
  "handleTxnBeginAck ports self peer header payload =
     (if hp_role (peer_at self peer) \<noteq> kHUB_PEER_ROLE_AGENT then self
      else case TxnBeginAckMessage_Decode \<lparr>tba_channel = 0, tba_status = 0, tba_txn_id = 0, tba_window_bytes = 0\<rparr> payload of
        (False, _) \<Rightarrow> self
      | (True, ack) \<Rightarrow>
          (case TransactionTable_ForAgent (bk_transactions self) (hp_peer_id (peer_at self peer)) of
             None \<Rightarrow> self
           | Some transaction \<Rightarrow>
               if rt_state (transaction_at self transaction) \<noteq> kTRANSACTION_RELAY_STATE_PENDING then self
               else
                 let client = PeerDirectory_Find (bk_directory self) (rt_client_peer_id (transaction_at self transaction));
                     client_channel = rt_client_channel (transaction_at self transaction)
                 in if tba_status ack \<noteq> kTXN_BEGIN_STATUS_OK
                    then
                      let self = close_transaction (count_rejected self) transaction
                      in (case client of
                            None \<Rightarrow> self
                          | Some client \<Rightarrow> replyTxnBegin ports self client client_channel (tba_status ack))
                    else case client of
                      None \<Rightarrow>
                        let self = sendTxnAbort ports (count_aborted self) peer
                              (rt_agent_channel (transaction_at self transaction)) (tba_txn_id ack)
                        in close_transaction self transaction
                    | Some client \<Rightarrow>
                        let self = self\<lparr>bk_transactions := TransactionTable_Activate (bk_transactions self) transaction (tba_txn_id ack)\<rparr>;
                            self = with_counters self (\<lambda>c. c\<lparr>tc_started := tc_started c + 1\<rparr>);
                            self = (if rt_exclusive (transaction_at self transaction)
                              then announceLease ports self (rt_interface_id (transaction_at self transaction)) else self);
                            ack = ack\<lparr>tba_channel := client_channel,
                              tba_window_bytes := (if tba_window_bytes ack > TRANSACTION_RELAY_WINDOW_MAX
                                then TRANSACTION_RELAY_WINDOW_MAX else tba_window_bytes ack)\<rparr>
                        in sendControl ports self client (TxnBeginAckMessage_Encode ack CONTROL_BUFFER)))"

definition activeTransactionOfAgent :: "Broker \<Rightarrow> HubPeer \<Rightarrow> u16 \<Rightarrow> nat option" where
  "activeTransactionOfAgent self agent txn_id =
     (if hp_role agent \<noteq> kHUB_PEER_ROLE_AGENT then None
      else case TransactionTable_ForAgent (bk_transactions self) (hp_peer_id agent) of
        None \<Rightarrow> None
      | Some transaction \<Rightarrow>
          if rt_state (transaction_at self transaction) \<noteq> kTRANSACTION_RELAY_STATE_ACTIVE \<or>
             rt_txn_id (transaction_at self transaction) \<noteq> txn_id
          then None else Some transaction)"

definition relay_to_client :: "HubPorts \<Rightarrow> Broker \<Rightarrow> nat \<Rightarrow> MessageHeader \<Rightarrow> bytes \<Rightarrow> Broker" where
  "relay_to_client ports self transaction header payload =
     relayTransactionMessage ports self
       (PeerDirectory_Find (bk_directory self) (rt_client_peer_id (transaction_at self transaction)))
       header payload (rt_client_channel (transaction_at self transaction))"

definition handleTxnProgress :: "HubPorts \<Rightarrow> Broker \<Rightarrow> nat \<Rightarrow> MessageHeader \<Rightarrow> bytes \<Rightarrow> Broker" where
  "handleTxnProgress ports self peer header payload =
     (case TxnProgressMessage_Decode \<lparr>tpr_channel = 0, tpr_txn_id = 0, tpr_completed_steps = 0, tpr_consumed_bytes = 0\<rparr> payload of
        (False, _) \<Rightarrow> self
      | (True, progress) \<Rightarrow>
          (case activeTransactionOfAgent self (peer_at self peer) (tpr_txn_id progress) of
             None \<Rightarrow> self
           | Some transaction \<Rightarrow>
               let self = with_transaction self transaction (\<lambda>t. t\<lparr>rt_completed_steps := unat (tpr_completed_steps progress),
                     rt_consumed_bytes := unat (tpr_consumed_bytes progress), rt_last_progress_us := bk_now_us self\<rparr>)
               in relay_to_client ports self transaction header payload))"

definition handleTxnStatus :: "HubPorts \<Rightarrow> Broker \<Rightarrow> nat \<Rightarrow> MessageHeader \<Rightarrow> bytes \<Rightarrow> Broker" where
  "handleTxnStatus ports self peer header payload =
     (case TxnStatusMessage_Decode TxnStatusMessage_zero payload of
        (False, _) \<Rightarrow> self
      | (True, status) \<Rightarrow>
          (case activeTransactionOfAgent self (peer_at self peer) (ts_txn_id status) of
             None \<Rightarrow> self
           | Some transaction \<Rightarrow>
               let self = (if ts_state status = kTXN_STATE_DONE
                     then with_counters self (\<lambda>c. c\<lparr>tc_completed := tc_completed c + 1\<rparr>) else count_aborted self);
                   self = with_counters self (\<lambda>c. c\<lparr>tc_steps_completed := tc_steps_completed c + ucast (ts_completed_steps status)\<rparr>);
                   self = relay_to_client ports self transaction header payload
               in finishTransaction ports self transaction))"

definition handleTxnAbort :: "HubPorts \<Rightarrow> Broker \<Rightarrow> nat \<Rightarrow> MessageHeader \<Rightarrow> bytes \<Rightarrow> Broker" where
  "handleTxnAbort ports self peer header payload =
     (if hp_role (peer_at self peer) \<noteq> kHUB_PEER_ROLE_CLIENT \<or> unat (mh_length header) < TXN_ABORT_BODY_SIZE then self
      else case TransactionTable_ForClientChannel (bk_transactions self) (hp_peer_id (peer_at self peer)) (TxnMessage_Channel payload) of
        None \<Rightarrow> self
      | Some transaction \<Rightarrow>
          if rt_state (transaction_at self transaction) = kTRANSACTION_RELAY_STATE_PENDING
          then abandonTransaction ports self transaction
          else relayTransactionMessage ports self
            (PeerDirectory_Find (bk_directory self) (rt_agent_peer_id (transaction_at self transaction)))
            header payload (rt_agent_channel (transaction_at self transaction)))"

definition handleTxnRosterReport :: "HubPorts \<Rightarrow> Broker \<Rightarrow> nat \<Rightarrow> MessageHeader \<Rightarrow> bytes \<Rightarrow> Broker" where
  "handleTxnRosterReport ports self peer header payload =
     (case TxnRosterReportMessage_Decode \<lparr>trr_channel = 0, trr_txn_id = 0, trr_seq = 0, trr_seen_bitmap = 0\<rparr> payload of
        (False, _) \<Rightarrow> self
      | (True, report) \<Rightarrow>
          (case activeTransactionOfAgent self (peer_at self peer) (trr_txn_id report) of
             None \<Rightarrow> self
           | Some transaction \<Rightarrow> relay_to_client ports self transaction header payload))"

abbreviation (input) isTransactionContent :: "u8 \<Rightarrow> bool" where
  "isTransactionContent type \<equiv>
     (type = kMESSAGE_TYPE_TXN_ROSTER \<or> type = kMESSAGE_TYPE_TXN_TEMPLATE \<or> type = kMESSAGE_TYPE_TXN_STEPS)"

definition TxnTemplateMessage_zero :: TxnTemplateMessage where
  "TxnTemplateMessage_zero =
     \<lparr>tt_channel = 0, tt_template_id = 0, tt_txn_id = 0, tt_advance_mode = 0, tt_flags = 0, tt_count_k = 0,
      tt_patterns_present = 0, tt_timeout_ms = 0, tt_gap_us = 0, tt_extend_timeout_ms = 0, tt_type = 0,
      tt_patterns = replicate kTXN_PATTERN_MAX \<lparr>tp_can_id = 0, tp_can_mask = 0, tp_payload_mask = 0, tp_payload_value = 0\<rparr>,
      tt_isotp = \<lparr>ti_response_id = 0, ti_flags = 0, ti_tx_address = 0, ti_rx_address = 0, ti_padding = 0,
        ti_tx_data_length = 0, ti_block_size = 0, ti_st_min = 0\<rparr>\<rparr>"

definition agentRefusesTemplate :: "HubPeer \<Rightarrow> MessageHeader \<Rightarrow> bytes \<Rightarrow> bool" where
  "agentRefusesTemplate agent header payload =
     (if mh_type header \<noteq> kMESSAGE_TYPE_TXN_TEMPLATE \<or> hp_capabilities agent AND HELLO_CAP_ISOTP \<noteq> 0 then False
      else case TxnTemplateMessage_Decode TxnTemplateMessage_zero payload of
        (False, _) \<Rightarrow> False
      | (True, template_message) \<Rightarrow> tt_type template_message = kTXN_TEMPLATE_TYPE_ISOTP)"

definition refuseTransaction :: "HubPorts \<Rightarrow> Broker \<Rightarrow> nat \<Rightarrow> nat \<Rightarrow> u8 \<Rightarrow> Broker" where
  "refuseTransaction ports self transaction agent reason =
     (let client = PeerDirectory_Find (bk_directory self) (rt_client_peer_id (transaction_at self transaction));
          self = sendTxnAbort ports self agent (rt_agent_channel (transaction_at self transaction))
            (rt_txn_id (transaction_at self transaction));
          self = sendTxnStatus ports self client (transaction_at self transaction) reason
      in finishTransaction ports (count_aborted self) transaction)"

text \<open>The result says whether the caller may drop the message.\<close>

definition relayTransactionContent :: "HubPorts \<Rightarrow> Broker \<Rightarrow> nat \<Rightarrow> MessageHeader \<Rightarrow> bytes \<Rightarrow> bool \<times> Broker" where
  "relayTransactionContent ports self client header payload =
     (let sz = MESSAGE_HEADER_SIZE + unat (mh_length header)
      in if hp_role (peer_at self client) \<noteq> kHUB_PEER_ROLE_CLIENT \<or> mh_length header = 0 \<or> sz > CONTROL_BUFFER_SIZE then (True, self)
         else case TransactionTable_ForClientChannel (bk_transactions self) (hp_peer_id (peer_at self client)) (TxnMessage_Channel payload) of
           None \<Rightarrow> (True, self)
         | Some transaction \<Rightarrow>
             if rt_state (transaction_at self transaction) \<noteq> kTRANSACTION_RELAY_STATE_ACTIVE then (True, self)
             else case PeerDirectory_Find (bk_directory self) (rt_agent_peer_id (transaction_at self transaction)) of
               None \<Rightarrow> (True, self)
             | Some agent \<Rightarrow>
                 if agentRefusesTemplate (peer_at self agent) header payload
                 then (True, refuseTransaction ports self transaction agent kTXN_REASON_UNSUPPORTED)
                 else if \<not> htp_frame_fits (hub_transport ports) (bk_calls self) (hp_peer_id (peer_at self agent))
                   (rt_agent_channel (transaction_at self transaction)) sz
                 then (False, self)
                 else
                   let encoded = relayed_message header payload (rt_agent_channel (transaction_at self transaction));
                       self = (if mh_type header = kMESSAGE_TYPE_TXN_STEPS \<and> unat (mh_length header) \<ge> TXN_STEPS_FIXED_FIELDS_SIZE
                         then with_transaction self transaction (\<lambda>t. t\<lparr>rt_relayed_bytes :=
                           wrap 32 (rt_relayed_bytes t + (unat (mh_length header) - TXN_STEPS_FIXED_FIELDS_SIZE))\<rparr>)
                         else self)
                   in (True, snd (send_frame ports self (hp_peer_id (peer_at self agent))
                        (rt_agent_channel (transaction_at self transaction)) (take sz encoded))))"

abbreviation (input) handleTxnContent :: "HubPorts \<Rightarrow> Broker \<Rightarrow> nat \<Rightarrow> MessageHeader \<Rightarrow> bytes \<Rightarrow> Broker" where
  "handleTxnContent ports self peer header payload \<equiv> snd (relayTransactionContent ports self peer header payload)"

end
