(* ===== verification/BrokerAdmin.thy ===== *)
theory BrokerAdmin
  imports BrokerControl
begin

text \<open>
  The handlers of \<open>hub/broker.c\<close> that serve administrators: status and listings, kicking, pins
  and access lists, bridge routes and bridge groups.  Every handler starts with the test of the
  sender's role.
\<close>

section \<open>Status and listings\<close>

abbreviation (input) ADMIN_STATUS_OK :: u8 where "ADMIN_STATUS_OK \<equiv> 0"
abbreviation (input) ADMIN_STATUS_UNKNOWN_AGENT :: u8 where "ADMIN_STATUS_UNKNOWN_AGENT \<equiv> 1"
abbreviation (input) ADMIN_STATUS_UNKNOWN_PEER :: u8 where "ADMIN_STATUS_UNKNOWN_PEER \<equiv> 1"
abbreviation (input) ADMIN_STATUS_PIN_FAILED :: u8 where "ADMIN_STATUS_PIN_FAILED \<equiv> 1"

definition handleAdminStatus :: "HubPorts \<Rightarrow> Broker \<Rightarrow> nat \<Rightarrow> MessageHeader \<Rightarrow> bytes \<Rightarrow> Broker" where
  "handleAdminStatus ports self peer header payload =
     (if hp_role (peer_at self peer) \<noteq> kHUB_PEER_ROLE_ADMIN then self
      else
        let reply = \<lparr>asr_peer_count = of_nat (PeerDirectory_Count (bk_directory self)),
              asr_agent_count = of_nat (PeerDirectory_CountRole (bk_directory self) kHUB_PEER_ROLE_AGENT),
              asr_client_count = of_nat (PeerDirectory_CountRole (bk_directory self) kHUB_PEER_ROLE_CLIENT),
              asr_interface_count = of_nat (InterfaceRegistry_Count (bk_registry self)),
              asr_receive_overflows = htp_receive_overflows (hub_transport ports) (bk_calls self),
              asr_frames_received = hm_frames_received (bk_metrics self),
              asr_frames_forwarded = hm_frames_forwarded (bk_metrics self),
              asr_frames_dropped = hm_frames_dropped (bk_metrics self),
              asr_frames_unroutable = hm_frames_unroutable (bk_metrics self),
              asr_transactions = hm_transactions (bk_metrics self)\<rparr>
        in sendControl ports self peer (AdminStatusReplyMessage_Encode reply CONTROL_BUFFER))"

definition handleAdminPeers :: "HubPorts \<Rightarrow> Broker \<Rightarrow> nat \<Rightarrow> MessageHeader \<Rightarrow> bytes \<Rightarrow> Broker" where
  "handleAdminPeers ports self peer header payload =
     (if hp_role (peer_at self peer) \<noteq> kHUB_PEER_ROLE_ADMIN then self
      else case decodeOffsetRequest \<lparr>ao_offset = 0\<rparr> payload of
        (False, _) \<Rightarrow> self
      | (True, request) \<Rightarrow>
          let reply = PeerDirectory_List (bk_directory self) (unat (ao_offset request)) (bk_now_us self)
          in sendControl ports self peer (AdminPeersReplyMessage_Encode reply CONTROL_BUFFER))"

definition handleAdminAgents :: "HubPorts \<Rightarrow> Broker \<Rightarrow> nat \<Rightarrow> MessageHeader \<Rightarrow> bytes \<Rightarrow> Broker" where
  "handleAdminAgents ports self peer header payload =
     (if hp_role (peer_at self peer) \<noteq> kHUB_PEER_ROLE_ADMIN then self
      else case decodeFilteredRequest \<lparr>af_offset = 0, af_agent_name = replicate REGISTER_AGENT_NAME_SIZE 0\<rparr> payload of
        (False, _) \<Rightarrow> self
      | (True, request) \<Rightarrow>
          let reply = AdminViews_Agents (bk_registry self) (bk_directory self) (af_agent_name request) (unat (af_offset request))
          in sendControl ports self peer (AdminAgentsReplyMessage_Encode reply CONTROL_BUFFER))"

definition handleAdminClients :: "HubPorts \<Rightarrow> Broker \<Rightarrow> nat \<Rightarrow> MessageHeader \<Rightarrow> bytes \<Rightarrow> Broker" where
  "handleAdminClients ports self peer header payload =
     (if hp_role (peer_at self peer) \<noteq> kHUB_PEER_ROLE_ADMIN then self
      else case decodeFilteredRequest \<lparr>af_offset = 0, af_agent_name = replicate REGISTER_AGENT_NAME_SIZE 0\<rparr> payload of
        (False, _) \<Rightarrow> self
      | (True, request) \<Rightarrow>
          let reply = AdminViews_Clients (bk_registry self) (bk_directory self) (af_agent_name request) (unat (af_offset request))
          in sendControl ports self peer (AdminClientsReplyMessage_Encode reply CONTROL_BUFFER))"

definition handleAdminInterfaces :: "HubPorts \<Rightarrow> Broker \<Rightarrow> nat \<Rightarrow> MessageHeader \<Rightarrow> bytes \<Rightarrow> Broker" where
  "handleAdminInterfaces ports self peer header payload =
     (if hp_role (peer_at self peer) \<noteq> kHUB_PEER_ROLE_ADMIN then self
      else case decodeOffsetRequest \<lparr>ao_offset = 0\<rparr> payload of
        (False, _) \<Rightarrow> self
      | (True, request) \<Rightarrow>
          let reply = AdminViews_Interfaces (bk_registry self) (bk_directory self) (unat (ao_offset request))
          in sendControl ports self peer (AdminInterfacesReplyMessage_Encode reply CONTROL_BUFFER))"

definition handleAdminTxns :: "HubPorts \<Rightarrow> Broker \<Rightarrow> nat \<Rightarrow> MessageHeader \<Rightarrow> bytes \<Rightarrow> Broker" where
  "handleAdminTxns ports self peer header payload =
     (if hp_role (peer_at self peer) \<noteq> kHUB_PEER_ROLE_ADMIN then self
      else case decodeOffsetRequest \<lparr>ao_offset = 0\<rparr> payload of
        (False, _) \<Rightarrow> self
      | (True, request) \<Rightarrow>
          let reply = AdminViews_Transactions (bk_registry self) (bk_transactions self) (bk_now_us self) (unat (ao_offset request))
          in sendControl ports self peer (AdminTxnsReplyMessage_Encode reply CONTROL_BUFFER))"

definition handleAdminRejected :: "HubPorts \<Rightarrow> Broker \<Rightarrow> nat \<Rightarrow> MessageHeader \<Rightarrow> bytes \<Rightarrow> Broker" where
  "handleAdminRejected ports self peer header payload =
     (if hp_role (peer_at self peer) \<noteq> kHUB_PEER_ROLE_ADMIN then self
      else case decodeOffsetRequest \<lparr>ao_offset = 0\<rparr> payload of
        (False, _) \<Rightarrow> self
      | (True, request) \<Rightarrow>
          let reply = RejectedPeers_List (bk_rejected_peers self) (unat (ao_offset request)) (bk_now_us self)
          in sendControl ports self peer (AdminRejectedReplyMessage_Encode reply CONTROL_BUFFER))"

section \<open>Kicking\<close>

definition kick :: "HubPorts \<Rightarrow> Broker \<Rightarrow> u32 \<Rightarrow> Broker" where
  "kick ports self peer_id =
     (let self = sendError self peer_id kERROR_CODE_KICKED (c_text ''kicked by the hub administrator'')
      in disconnectPeer ports self peer_id)"

definition handleAdminKick :: "HubPorts \<Rightarrow> Broker \<Rightarrow> nat \<Rightarrow> MessageHeader \<Rightarrow> bytes \<Rightarrow> Broker" where
  "handleAdminKick ports self peer header payload =
     (if hp_role (peer_at self peer) \<noteq> kHUB_PEER_ROLE_ADMIN then self
      else case decodeAgentName \<lparr>an_agent_name = replicate REGISTER_AGENT_NAME_SIZE 0\<rparr> payload of
        (False, _) \<Rightarrow> self
      | (True, request) \<Rightarrow>
          (case PeerDirectory_FindAgentByName (bk_directory self) (an_agent_name request) of
             None \<Rightarrow>
               sendControl ports self peer
                 (encodeStatusReply kMESSAGE_TYPE_ADMIN_KICK_REPLY \<lparr>as_status = ADMIN_STATUS_UNKNOWN_AGENT\<rparr> CONTROL_BUFFER)
           | Some agent \<Rightarrow>
               let agent_peer_id = hp_peer_id (peer_at self agent);
                   self = sendControl ports self peer
                     (encodeStatusReply kMESSAGE_TYPE_ADMIN_KICK_REPLY \<lparr>as_status = ADMIN_STATUS_OK\<rparr> CONTROL_BUFFER)
               in kick ports self agent_peer_id))"

definition handleAdminKickPeer :: "HubPorts \<Rightarrow> Broker \<Rightarrow> nat \<Rightarrow> MessageHeader \<Rightarrow> bytes \<Rightarrow> Broker" where
  "handleAdminKickPeer ports self peer header payload =
     (if hp_role (peer_at self peer) \<noteq> kHUB_PEER_ROLE_ADMIN then self
      else case AdminKickPeerMessage_Decode \<lparr>akp_peer_id = 0\<rparr> payload of
        (False, _) \<Rightarrow> self
      | (True, request) \<Rightarrow>
          let found = (PeerDirectory_Find (bk_directory self) (akp_peer_id request) \<noteq> None);
              status = (if found then ADMIN_STATUS_OK else ADMIN_STATUS_UNKNOWN_PEER);
              self = sendControl ports self peer
                (encodeStatusReply kMESSAGE_TYPE_ADMIN_KICK_PEER_REPLY \<lparr>as_status = status\<rparr> CONTROL_BUFFER)
          in if found then kick ports self (akp_peer_id request) else self)"

section \<open>Pins and access lists\<close>

abbreviation (input) ADMIN_PINS_REPLY_ENTRIES_MAX :: nat where "ADMIN_PINS_REPLY_ENTRIES_MAX \<equiv> 16"
abbreviation (input) ADMIN_ACL_LIST_REPLY_ENTRIES_MAX :: nat where "ADMIN_ACL_LIST_REPLY_ENTRIES_MAX \<equiv> 16"

definition AdminPinsReplyEntry_zero :: AdminPinsReplyEntry where
  "AdminPinsReplyEntry_zero =
     \<lparr>api_agent_name = replicate REGISTER_AGENT_NAME_SIZE 0, api_fingerprint_hex = replicate ADMIN_FINGERPRINT_HEX_SIZE 0\<rparr>"

definition AdminAclListReplyEntry_zero :: AdminAclListReplyEntry where
  "AdminAclListReplyEntry_zero =
     \<lparr>acl_agent_name = replicate REGISTER_AGENT_NAME_SIZE 0, acl_interface_name = replicate REGISTER_INTERFACE_NAME_SIZE 0,
      acl_fingerprint_hex = replicate ADMIN_FINGERPRINT_HEX_SIZE 0, acl_can_read = 0, acl_can_write = 0, acl_can_admin = 0\<rparr>"

definition send_status :: "HubPorts \<Rightarrow> Broker \<Rightarrow> nat \<Rightarrow> u8 \<Rightarrow> u8 \<Rightarrow> Broker" where
  "send_status ports self peer type status =
     sendControl ports self peer (encodeStatusReply type \<lparr>as_status = status\<rparr> CONTROL_BUFFER)"

definition handleAdminPinAdd :: "HubPorts \<Rightarrow> Broker \<Rightarrow> nat \<Rightarrow> MessageHeader \<Rightarrow> bytes \<Rightarrow> Broker" where
  "handleAdminPinAdd ports self peer header payload =
     (if hp_role (peer_at self peer) \<noteq> kHUB_PEER_ROLE_ADMIN then self
      else case AdminPinAddMessage_Decode AdminPinsReplyEntry_zero payload of
        (False, _) \<Rightarrow> self
      | (True, request) \<Rightarrow>
          let (added, self) = (case hub_identity_store ports of
                None \<Rightarrow> (False, self)
              | Some port \<Rightarrow>
                  (isp_enroll port (bk_calls self) (api_agent_name request) (api_fingerprint_hex request),
                   calling self (EnrollAgent (api_agent_name request) (api_fingerprint_hex request))))
          in send_status ports self peer kMESSAGE_TYPE_ADMIN_PIN_ADD_REPLY (if added then ADMIN_STATUS_OK else ADMIN_STATUS_PIN_FAILED))"

definition handleAdminForget :: "HubPorts \<Rightarrow> Broker \<Rightarrow> nat \<Rightarrow> MessageHeader \<Rightarrow> bytes \<Rightarrow> Broker" where
  "handleAdminForget ports self peer header payload =
     (if hp_role (peer_at self peer) \<noteq> kHUB_PEER_ROLE_ADMIN then self
      else case decodeAgentName \<lparr>an_agent_name = replicate REGISTER_AGENT_NAME_SIZE 0\<rparr> payload of
        (False, _) \<Rightarrow> self
      | (True, request) \<Rightarrow>
          let (forgot, self) = (case hub_identity_store ports of
                None \<Rightarrow> (False, self)
              | Some port \<Rightarrow>
                  (isp_forget port (bk_calls self) (an_agent_name request), calling self (ForgetAgent (an_agent_name request))))
          in send_status ports self peer kMESSAGE_TYPE_ADMIN_FORGET_REPLY (if forgot then ADMIN_STATUS_OK else ADMIN_STATUS_UNKNOWN_AGENT))"

definition handleAdminPins :: "HubPorts \<Rightarrow> Broker \<Rightarrow> nat \<Rightarrow> MessageHeader \<Rightarrow> bytes \<Rightarrow> Broker" where
  "handleAdminPins ports self peer header payload =
     (if hp_role (peer_at self peer) \<noteq> kHUB_PEER_ROLE_ADMIN then self
      else case decodeOffsetRequest \<lparr>ao_offset = 0\<rparr> payload of
        (False, _) \<Rightarrow> self
      | (True, request) \<Rightarrow>
          let reply = (case hub_identity_store ports of
                None \<Rightarrow> \<lparr>pg_count = 0, pg_flags = 0, pg_entries = replicate ADMIN_PINS_REPLY_ENTRIES_MAX AdminPinsReplyEntry_zero\<rparr>
              | Some port \<Rightarrow>
                  let (count, pins, more_pins) = isp_list port (bk_calls self) (ao_offset request);
                      count = (if count > 16 then 16 else count)
                  in \<lparr>pg_count = count, pg_flags = (if more_pins then ADMIN_REPLY_FLAG_MORE else 0),
                      pg_entries = map (\<lambda>i. \<lparr>api_agent_name = pin_agent_name (pins ! i), api_fingerprint_hex = pin_fingerprint_hex (pins ! i)\<rparr>)
                        [0..<unat count] @ replicate (ADMIN_PINS_REPLY_ENTRIES_MAX - unat count) AdminPinsReplyEntry_zero\<rparr>)
          in sendControl ports self peer (AdminPinsReplyMessage_Encode reply CONTROL_BUFFER))"

definition handleAdminAclSet :: "HubPorts \<Rightarrow> Broker \<Rightarrow> nat \<Rightarrow> MessageHeader \<Rightarrow> bytes \<Rightarrow> Broker" where
  "handleAdminAclSet ports self peer header payload =
     (if hp_role (peer_at self peer) \<noteq> kHUB_PEER_ROLE_ADMIN then self
      else case AdminAclSetMessage_Decode AdminAclListReplyEntry_zero payload of
        (False, _) \<Rightarrow> self
      | (True, request) \<Rightarrow>
          let can_admin = (acl_can_admin request \<noteq> 0);
              can_write = (acl_can_write request \<noteq> 0 \<or> can_admin);
              can_read = (acl_can_read request \<noteq> 0 \<or> can_write);
              entry = \<lparr>ae_fingerprint_hex = acl_fingerprint_hex request, ae_agent_name = acl_agent_name request,
                ae_interface_name = acl_interface_name request, ae_can_read = can_read, ae_can_write = can_write,
                ae_can_admin = can_admin\<rparr>;
              (granted, self) = (case hub_authorization ports of
                None \<Rightarrow> (False, self)
              | Some port \<Rightarrow> (azp_grant port (bk_calls self) entry, calling self (GrantAccess entry)))
          in send_status ports self peer kMESSAGE_TYPE_ADMIN_ACL_SET_REPLY (if granted then ADMIN_STATUS_OK else ADMIN_STATUS_PIN_FAILED))"

definition handleAdminAclRevoke :: "HubPorts \<Rightarrow> Broker \<Rightarrow> nat \<Rightarrow> MessageHeader \<Rightarrow> bytes \<Rightarrow> Broker" where
  "handleAdminAclRevoke ports self peer header payload =
     (if hp_role (peer_at self peer) \<noteq> kHUB_PEER_ROLE_ADMIN then self
      else case AdminAclRevokeMessage_Decode \<lparr>aar_agent_name = replicate REGISTER_AGENT_NAME_SIZE 0,
          aar_interface_name = replicate REGISTER_INTERFACE_NAME_SIZE 0,
          aar_fingerprint_hex = replicate ADMIN_FINGERPRINT_HEX_SIZE 0\<rparr> payload of
        (False, _) \<Rightarrow> self
      | (True, request) \<Rightarrow>
          let (revoked, self) = (case hub_authorization ports of
                None \<Rightarrow> (False, self)
              | Some port \<Rightarrow>
                  (azp_revoke port (bk_calls self) (aar_fingerprint_hex request) (aar_agent_name request) (aar_interface_name request),
                   calling self (RevokeAccess (aar_fingerprint_hex request) (aar_agent_name request) (aar_interface_name request))))
          in send_status ports self peer kMESSAGE_TYPE_ADMIN_ACL_REVOKE_REPLY
               (if revoked then ADMIN_STATUS_OK else ADMIN_STATUS_UNKNOWN_AGENT))"

definition acl_row :: "AclEntry \<Rightarrow> AdminAclListReplyEntry" where
  "acl_row e = \<lparr>acl_agent_name = ae_agent_name e, acl_interface_name = ae_interface_name e,
     acl_fingerprint_hex = ae_fingerprint_hex e, acl_can_read = (if ae_can_read e then 1 else 0),
     acl_can_write = (if ae_can_write e then 1 else 0), acl_can_admin = (if ae_can_admin e then 1 else 0)\<rparr>"

definition handleAdminAclList :: "HubPorts \<Rightarrow> Broker \<Rightarrow> nat \<Rightarrow> MessageHeader \<Rightarrow> bytes \<Rightarrow> Broker" where
  "handleAdminAclList ports self peer header payload =
     (if hp_role (peer_at self peer) \<noteq> kHUB_PEER_ROLE_ADMIN then self
      else case decodeOffsetRequest \<lparr>ao_offset = 0\<rparr> payload of
        (False, _) \<Rightarrow> self
      | (True, request) \<Rightarrow>
          let reply = (case hub_authorization ports of
                None \<Rightarrow> \<lparr>pg_count = 0, pg_flags = 0, pg_entries = replicate ADMIN_ACL_LIST_REPLY_ENTRIES_MAX AdminAclListReplyEntry_zero\<rparr>
              | Some port \<Rightarrow>
                  let (count, entries, more_entries) = azp_list port (bk_calls self) (ao_offset request);
                      count = (if count > 16 then 16 else count)
                  in \<lparr>pg_count = count, pg_flags = (if more_entries then ADMIN_REPLY_FLAG_MORE else 0),
                      pg_entries = map (\<lambda>i. acl_row (entries ! i)) [0..<unat count] @
                        replicate (ADMIN_ACL_LIST_REPLY_ENTRIES_MAX - unat count) AdminAclListReplyEntry_zero\<rparr>)
          in sendControl ports self peer (AdminAclListReplyMessage_Encode reply CONTROL_BUFFER))"

section \<open>Bridge routes\<close>

abbreviation (input) ADMIN_BRIDGE_STATUS_OK :: u8 where "ADMIN_BRIDGE_STATUS_OK \<equiv> 0"
abbreviation (input) ADMIN_BRIDGE_STATUS_INVALID :: u8 where "ADMIN_BRIDGE_STATUS_INVALID \<equiv> 1"
abbreviation (input) ADMIN_BRIDGE_STATUS_FULL :: u8 where "ADMIN_BRIDGE_STATUS_FULL \<equiv> 2"
abbreviation (input) ADMIN_BRIDGE_STATUS_STORE_FAILED :: u8 where "ADMIN_BRIDGE_STATUS_STORE_FAILED \<equiv> 3"
abbreviation (input) ADMIN_BRIDGE_STATUS_UNKNOWN :: u8 where "ADMIN_BRIDGE_STATUS_UNKNOWN \<equiv> 4"
abbreviation (input) ADMIN_BRIDGE_STATE_SOURCE_ONLINE :: u8 where "ADMIN_BRIDGE_STATE_SOURCE_ONLINE \<equiv> 1"
abbreviation (input) ADMIN_BRIDGE_STATE_DESTINATION_ONLINE :: u8 where "ADMIN_BRIDGE_STATE_DESTINATION_ONLINE \<equiv> 2"
abbreviation (input) ADMIN_BRIDGE_LIST_REPLY_ENTRIES_MAX :: nat where "ADMIN_BRIDGE_LIST_REPLY_ENTRIES_MAX \<equiv> 8"

text \<open>An endpoint on the wire and one of the bridge tables are the same two arrays.\<close>

definition endpoint_of :: "AdminBridgeEndpoint \<Rightarrow> BridgeEndpoint" where
  "endpoint_of e = \<lparr>be_agent_name = abe_agent_name e, be_interface_name = abe_interface_name e\<rparr>"

definition admin_endpoint :: "BridgeEndpoint \<Rightarrow> AdminBridgeEndpoint" where
  "admin_endpoint e = \<lparr>abe_agent_name = be_agent_name e, abe_interface_name = be_interface_name e\<rparr>"

definition AdminBridgeEndpoint_zero :: AdminBridgeEndpoint where
  "AdminBridgeEndpoint_zero = admin_endpoint BridgeEndpoint_zero"

text \<open>A call of the bridge store, when there is one: whether the caller may go on.\<close>

definition storing :: "HubPorts \<Rightarrow> (BridgeStorePort \<Rightarrow> history \<Rightarrow> bool) \<Rightarrow> HubCall \<Rightarrow> Broker \<Rightarrow> bool \<times> Broker" where
  "storing ports answer c self =
     (case hub_bridge_store ports of None \<Rightarrow> (True, self) | Some port \<Rightarrow> (answer port (bk_calls self), calling self c))"

definition applyBridgeRoute :: "HubPorts \<Rightarrow> Broker \<Rightarrow> BridgeRoute \<Rightarrow> u8 \<times> Broker" where
  "applyBridgeRoute ports self route =
     (if \<not> BridgeRoute_IsValid route \<or> isGroupEndpoint (br_source route) \<or> isGroupEndpoint (br_destination route)
      then (ADMIN_BRIDGE_STATUS_INVALID, self)
      else if \<not> BridgeRoutes_HasRoom (bk_bridges self) route then (ADMIN_BRIDGE_STATUS_FULL, self)
      else case storing ports (\<lambda>port h. bsp_save port h route) (SaveRoute route) self of
        (False, self) \<Rightarrow> (ADMIN_BRIDGE_STATUS_STORE_FAILED, self)
      | (True, self) \<Rightarrow> (ADMIN_BRIDGE_STATUS_OK, self\<lparr>bk_bridges := snd (BridgeRoutes_Set (bk_bridges self) route)\<rparr>))"

definition removeBridgeRoute :: "HubPorts \<Rightarrow> Broker \<Rightarrow> BridgeEndpoint \<Rightarrow> BridgeEndpoint \<Rightarrow> u8 \<times> Broker" where
  "removeBridgeRoute ports self source destination =
     (if BridgeRoutes_Find (bk_bridges self) source destination = None then (ADMIN_BRIDGE_STATUS_UNKNOWN, self)
      else case storing ports (\<lambda>port h. bsp_remove port h source destination) (RemoveRoute source destination) self of
        (False, self) \<Rightarrow> (ADMIN_BRIDGE_STATUS_STORE_FAILED, self)
      | (True, self) \<Rightarrow>
          (ADMIN_BRIDGE_STATUS_OK, self\<lparr>bk_bridges := snd (BridgeRoutes_Remove (bk_bridges self) source destination)\<rparr>))"

definition handleAdminBridgeSet :: "HubPorts \<Rightarrow> Broker \<Rightarrow> nat \<Rightarrow> MessageHeader \<Rightarrow> bytes \<Rightarrow> Broker" where
  "handleAdminBridgeSet ports self peer header payload =
     (if hp_role (peer_at self peer) \<noteq> kHUB_PEER_ROLE_ADMIN then self
      else case AdminBridgeSetMessage_Decode \<lparr>abs_source = AdminBridgeEndpoint_zero, abs_destination = AdminBridgeEndpoint_zero,
          abs_filter_count = 0, abs_filters = replicate SUBSCRIBE_FILTERS_MAX CanFilter_zero\<rparr> payload of
        (False, _) \<Rightarrow> self
      | (True, request) \<Rightarrow>
          let route = \<lparr>br_source = endpoint_of (abs_source request), br_destination = endpoint_of (abs_destination request),
                br_filter_count = abs_filter_count request, br_filters = abs_filters request\<rparr>;
              (status, self) = applyBridgeRoute ports self route
          in send_status ports self peer kMESSAGE_TYPE_ADMIN_BRIDGE_SET_REPLY status)"

definition handleAdminBridgeDelete :: "HubPorts \<Rightarrow> Broker \<Rightarrow> nat \<Rightarrow> MessageHeader \<Rightarrow> bytes \<Rightarrow> Broker" where
  "handleAdminBridgeDelete ports self peer header payload =
     (if hp_role (peer_at self peer) \<noteq> kHUB_PEER_ROLE_ADMIN then self
      else case AdminBridgeDeleteMessage_Decode \<lparr>abd_source = AdminBridgeEndpoint_zero, abd_destination = AdminBridgeEndpoint_zero\<rparr> payload of
        (False, _) \<Rightarrow> self
      | (True, request) \<Rightarrow>
          let (status, self) = removeBridgeRoute ports self (endpoint_of (abd_source request)) (endpoint_of (abd_destination request))
          in send_status ports self peer kMESSAGE_TYPE_ADMIN_BRIDGE_DELETE_REPLY status)"

abbreviation (input) endpointOnline :: "Broker \<Rightarrow> BridgeEndpoint \<Rightarrow> bool" where
  "endpointOnline self endpoint \<equiv>
     (InterfaceRegistry_FindByName (bk_registry self) (be_agent_name endpoint) (be_interface_name endpoint) \<noteq> None)"

definition fillBridgeEntry :: "Broker \<Rightarrow> BridgeRouteSlot \<Rightarrow> AdminBridgeListReplyEntry" where
  "fillBridgeEntry self slot =
     \<lparr>abl_source = admin_endpoint (br_source (brs_route slot)), abl_destination = admin_endpoint (br_destination (brs_route slot)),
      abl_filter_count = br_filter_count (brs_route slot),
      abl_state = (if endpointOnline self (br_source (brs_route slot)) then ADMIN_BRIDGE_STATE_SOURCE_ONLINE else 0) OR
        (if endpointOnline self (br_destination (brs_route slot)) then ADMIN_BRIDGE_STATE_DESTINATION_ONLINE else 0),
      abl_filters = br_filters (brs_route slot), abl_forwarded = brs_forwarded slot, abl_dropped = brs_dropped slot\<rparr>"

definition AdminBridgeListReplyEntry_zero :: AdminBridgeListReplyEntry where
  "AdminBridgeListReplyEntry_zero =
     \<lparr>abl_source = AdminBridgeEndpoint_zero, abl_destination = AdminBridgeEndpoint_zero, abl_filter_count = 0, abl_state = 0,
      abl_filters = replicate SUBSCRIBE_FILTERS_MAX CanFilter_zero, abl_forwarded = 0, abl_dropped = 0\<rparr>"

text \<open>The entries of one page of routes, read until the page is full or a route is missing.\<close>

fun bridge_rows :: "Broker \<Rightarrow> nat \<Rightarrow> nat \<Rightarrow> AdminBridgeListReplyEntry list" where
  "bridge_rows self position 0 = []"
| "bridge_rows self position (Suc room) =
     (case BridgeRoutes_Nth (bk_bridges self) (wrap 16 position) of
        None \<Rightarrow> []
      | Some slot \<Rightarrow> fillBridgeEntry self slot # bridge_rows self (position + 1) room)"

definition handleAdminBridgeList :: "HubPorts \<Rightarrow> Broker \<Rightarrow> nat \<Rightarrow> MessageHeader \<Rightarrow> bytes \<Rightarrow> Broker" where
  "handleAdminBridgeList ports self peer header payload =
     (if hp_role (peer_at self peer) \<noteq> kHUB_PEER_ROLE_ADMIN then self
      else case decodeOffsetRequest \<lparr>ao_offset = 0\<rparr> payload of
        (False, _) \<Rightarrow> self
      | (True, request) \<Rightarrow>
          let rows = bridge_rows self (unat (ao_offset request)) ADMIN_BRIDGE_LIST_REPLY_ENTRIES_MAX;
              rest = BridgeRoutes_Nth (bk_bridges self) (wrap 16 (unat (ao_offset request) + length rows));
              reply = \<lparr>pg_count = of_nat (length rows), pg_flags = (if rest \<noteq> None then ADMIN_REPLY_FLAG_MORE else 0),
                pg_entries = rows @ replicate (ADMIN_BRIDGE_LIST_REPLY_ENTRIES_MAX - length rows) AdminBridgeListReplyEntry_zero\<rparr>
          in sendControl ports self peer (AdminBridgeListReplyMessage_Encode reply CONTROL_BUFFER))"

section \<open>Bridge groups\<close>

definition openGroupInterface :: "HubPorts \<Rightarrow> Broker \<Rightarrow> bytes \<Rightarrow> Broker" where
  "openGroupInterface ports self name =
     (if InterfaceRegistry_FindByName (bk_registry self) BRIDGE_GROUP_AGENT_NAME name \<noteq> None then self
      else
        let (added, registry) = InterfaceRegistry_AddVirtual (bk_registry self) BRIDGE_GROUP_AGENT_NAME name;
            self = self\<lparr>bk_registry := registry\<rparr>
        in case added of None \<Rightarrow> self | Some entry \<Rightarrow> reattachInterface ports self entry)"

definition closeGroupInterface :: "Broker \<Rightarrow> bytes \<Rightarrow> Broker" where
  "closeGroupInterface self name =
     (case InterfaceRegistry_FindByName (bk_registry self) BRIDGE_GROUP_AGENT_NAME name of
        None \<Rightarrow> self
      | Some entry \<Rightarrow>
          with_registry (detachInterface self entry) (\<lambda>r. InterfaceRegistry_RemoveVirtual r (ie_interface_id entry)))"

definition applyGroup :: "HubPorts \<Rightarrow> Broker \<Rightarrow> AdminGroupSetMessage \<Rightarrow> u8 \<times> Broker" where
  "applyGroup ports self request =
     (if \<not> BridgeGroup_IsNameValid (ags_name request) then (ADMIN_BRIDGE_STATUS_INVALID, self)
      else if \<not> BridgeGroups_HasRoom (bk_groups self) (ags_name request) then (ADMIN_BRIDGE_STATUS_FULL, self)
      else if BridgeGroups_Find (bk_groups self) (ags_name request) = None \<and>
        InterfaceRegistry_Count (bk_registry self) \<ge> INTERFACE_REGISTRY_MAX
      then (ADMIN_BRIDGE_STATUS_FULL, self)
      else
        let g = (bgs_group BridgeGroupSlot_zero)\<lparr>bg_name := take BRIDGE_GROUP_NAME_SIZE (ags_name request),
              bg_filter_count := ags_filter_count request, bg_filters := ags_filters request\<rparr>
        in (case storing ports (\<lambda>port h. bsp_save_group port h g) (SaveGroup g) self of
              (False, self) \<Rightarrow> (ADMIN_BRIDGE_STATUS_STORE_FAILED, self)
            | (True, self) \<Rightarrow>
                let self = self\<lparr>bk_groups := snd (BridgeGroups_Set (bk_groups self) (bg_name g) (bg_filter_count g) (bg_filters g))\<rparr>
                in (ADMIN_BRIDGE_STATUS_OK, openGroupInterface ports self (bg_name g))))"

definition removeGroup :: "HubPorts \<Rightarrow> Broker \<Rightarrow> bytes \<Rightarrow> u8 \<times> Broker" where
  "removeGroup ports self name =
     (if BridgeGroups_Find (bk_groups self) name = None then (ADMIN_BRIDGE_STATUS_UNKNOWN, self)
      else case storing ports (\<lambda>port h. bsp_remove_group port h name) (RemoveGroup name) self of
        (False, self) \<Rightarrow> (ADMIN_BRIDGE_STATUS_STORE_FAILED, self)
      | (True, self) \<Rightarrow>
          let self = closeGroupInterface self name
          in (ADMIN_BRIDGE_STATUS_OK, self\<lparr>bk_groups := snd (BridgeGroups_Remove (bk_groups self) name)\<rparr>))"

definition joinGroup :: "HubPorts \<Rightarrow> Broker \<Rightarrow> bytes \<Rightarrow> BridgeGroupMember \<Rightarrow> u8 \<times> Broker" where
  "joinGroup ports self name member =
     (case BridgeGroups_Find (bk_groups self) name of
        None \<Rightarrow> (ADMIN_BRIDGE_STATUS_UNKNOWN, self)
      | Some slot \<Rightarrow>
          if isGroupEndpoint (bgm_endpoint member) \<or> \<not> BridgeGroupMember_IsValid member then (ADMIN_BRIDGE_STATUS_INVALID, self)
          else if \<not> BridgeGroup_HasMember (bgs_group slot) (bgm_endpoint member) \<and>
            bg_member_count (bgs_group slot) = BRIDGE_GROUP_MEMBERS_MAX
          then (ADMIN_BRIDGE_STATUS_FULL, self)
          else case storing ports (\<lambda>port h. bsp_add_member port h name member) (AddMember name member) self of
            (False, self) \<Rightarrow> (ADMIN_BRIDGE_STATUS_STORE_FAILED, self)
          | (True, self) \<Rightarrow>
              (ADMIN_BRIDGE_STATUS_OK, self\<lparr>bk_groups := snd (BridgeGroups_Join (bk_groups self) name member)\<rparr>))"

definition leaveGroup :: "HubPorts \<Rightarrow> Broker \<Rightarrow> bytes \<Rightarrow> BridgeEndpoint \<Rightarrow> u8 \<times> Broker" where
  "leaveGroup ports self name member =
     (case BridgeGroups_Find (bk_groups self) name of
        None \<Rightarrow> (ADMIN_BRIDGE_STATUS_UNKNOWN, self)
      | Some slot \<Rightarrow>
          if \<not> BridgeGroup_HasMember (bgs_group slot) member then (ADMIN_BRIDGE_STATUS_UNKNOWN, self)
          else case storing ports (\<lambda>port h. bsp_remove_member port h name member) (RemoveMember name member) self of
            (False, self) \<Rightarrow> (ADMIN_BRIDGE_STATUS_STORE_FAILED, self)
          | (True, self) \<Rightarrow>
              (ADMIN_BRIDGE_STATUS_OK, self\<lparr>bk_groups := snd (BridgeGroups_Leave (bk_groups self) name member)\<rparr>))"

definition handleAdminGroupSet :: "HubPorts \<Rightarrow> Broker \<Rightarrow> nat \<Rightarrow> MessageHeader \<Rightarrow> bytes \<Rightarrow> Broker" where
  "handleAdminGroupSet ports self peer header payload =
     (if hp_role (peer_at self peer) \<noteq> kHUB_PEER_ROLE_ADMIN then self
      else case AdminGroupSetMessage_Decode \<lparr>ags_name = replicate ADMIN_GROUP_NAME_SIZE 0, ags_filter_count = 0,
          ags_filters = replicate SUBSCRIBE_FILTERS_MAX CanFilter_zero\<rparr> payload of
        (False, _) \<Rightarrow> self
      | (True, request) \<Rightarrow>
          let (status, self) = applyGroup ports self request
          in send_status ports self peer kMESSAGE_TYPE_ADMIN_GROUP_SET_REPLY status)"

definition handleAdminGroupDelete :: "HubPorts \<Rightarrow> Broker \<Rightarrow> nat \<Rightarrow> MessageHeader \<Rightarrow> bytes \<Rightarrow> Broker" where
  "handleAdminGroupDelete ports self peer header payload =
     (if hp_role (peer_at self peer) \<noteq> kHUB_PEER_ROLE_ADMIN then self
      else case AdminGroupDeleteMessage_Decode \<lparr>agd_name = replicate ADMIN_GROUP_NAME_SIZE 0\<rparr> payload of
        (False, _) \<Rightarrow> self
      | (True, request) \<Rightarrow>
          let (status, self) = removeGroup ports self (agd_name request)
          in send_status ports self peer kMESSAGE_TYPE_ADMIN_GROUP_DELETE_REPLY status)"

definition AdminGroupMemberMessage_zero :: AdminGroupMemberMessage where
  "AdminGroupMemberMessage_zero =
     \<lparr>agm_name = replicate ADMIN_GROUP_NAME_SIZE 0, agm_member = AdminBridgeEndpoint_zero, agm_direction = 0,
      agm_filter_count = 0, agm_filters = replicate ADMIN_GROUP_MEMBER_FILTERS_MAX CanFilter_zero\<rparr>"

definition handleAdminGroupJoin :: "HubPorts \<Rightarrow> Broker \<Rightarrow> nat \<Rightarrow> MessageHeader \<Rightarrow> bytes \<Rightarrow> Broker" where
  "handleAdminGroupJoin ports self peer header payload =
     (if hp_role (peer_at self peer) \<noteq> kHUB_PEER_ROLE_ADMIN then self
      else case AdminGroupMemberMessage_Decode AdminGroupMemberMessage_zero payload of
        (False, _) \<Rightarrow> self
      | (True, request) \<Rightarrow>
          let member = \<lparr>bgm_endpoint = endpoint_of (agm_member request), bgm_direction = agm_direction request,
                bgm_filter_count = agm_filter_count request, bgm_filters = agm_filters request\<rparr>;
              (status, self) = joinGroup ports self (agm_name request) member
          in send_status ports self peer kMESSAGE_TYPE_ADMIN_GROUP_JOIN_REPLY status)"

definition handleAdminGroupLeave :: "HubPorts \<Rightarrow> Broker \<Rightarrow> nat \<Rightarrow> MessageHeader \<Rightarrow> bytes \<Rightarrow> Broker" where
  "handleAdminGroupLeave ports self peer header payload =
     (if hp_role (peer_at self peer) \<noteq> kHUB_PEER_ROLE_ADMIN then self
      else case AdminGroupMemberMessage_Decode AdminGroupMemberMessage_zero payload of
        (False, _) \<Rightarrow> self
      | (True, request) \<Rightarrow>
          let (status, self) = leaveGroup ports self (agm_name request) (endpoint_of (agm_member request))
          in send_status ports self peer kMESSAGE_TYPE_ADMIN_GROUP_LEAVE_REPLY status)"

text \<open>
  \<open>fillGroupEntry\<close> copies \<open>sizeof(entry->name)\<close>, 32 bytes, out of the 16-byte name of the group:
  what follows the name in the struct is its filter count, padding, and the first filters.
\<close>

definition after_name :: "BridgeGroup \<Rightarrow> bytes" where
  "after_name g =
     (let b = replicate 16 0;
          b = mem_write b 0 [bg_filter_count g];
          b = Wire_WriteU32 b 4 (flt_can_id (bg_filters g ! 0));
          b = Wire_WriteU32 b 8 (flt_can_mask (bg_filters g ! 0))
      in Wire_WriteU32 b 12 (flt_can_id (bg_filters g ! 1)))"

abbreviation (input) ADMIN_GROUP_MEMBER_ONLINE :: u8 where "ADMIN_GROUP_MEMBER_ONLINE \<equiv> 1"

definition AdminGroupMember_zero :: AdminGroupMember where
  "AdminGroupMember_zero =
     \<lparr>gm_endpoint = AdminBridgeEndpoint_zero, gm_state = 0, gm_direction = 0, gm_filter_count = 0,
      gm_filters = replicate ADMIN_GROUP_MEMBER_FILTERS_MAX CanFilter_zero\<rparr>"

definition member_row :: "Broker \<Rightarrow> BridgeGroupMember \<Rightarrow> AdminGroupMember" where
  "member_row self member =
     \<lparr>gm_endpoint = admin_endpoint (bgm_endpoint member),
      gm_state = (if endpointOnline self (bgm_endpoint member) then ADMIN_GROUP_MEMBER_ONLINE else 0),
      gm_direction = bgm_direction member, gm_filter_count = bgm_filter_count member, gm_filters = bgm_filters member\<rparr>"

definition fillGroupEntry :: "Broker \<Rightarrow> BridgeGroupSlot \<Rightarrow> AdminGroupListReplyEntry" where
  "fillGroupEntry self slot =
     (let g = bgs_group slot
      in \<lparr>agl_name = bg_name g @ after_name g, agl_filter_count = bg_filter_count g, agl_member_count = of_nat (bg_member_count g),
          agl_filters = bg_filters g, agl_forwarded = bgs_forwarded slot, agl_dropped = bgs_dropped slot,
          agl_members = map (\<lambda>i. member_row self (bg_members g ! i)) [0..<bg_member_count g] @
            replicate (ADMIN_GROUP_MEMBERS_MAX - bg_member_count g) AdminGroupMember_zero\<rparr>)"

definition AdminGroupListReplyEntry_zero :: AdminGroupListReplyEntry where
  "AdminGroupListReplyEntry_zero =
     \<lparr>agl_name = replicate ADMIN_GROUP_NAME_SIZE 0, agl_filter_count = 0, agl_member_count = 0,
      agl_filters = replicate SUBSCRIBE_FILTERS_MAX CanFilter_zero, agl_forwarded = 0, agl_dropped = 0,
      agl_members = replicate ADMIN_GROUP_MEMBERS_MAX AdminGroupMember_zero\<rparr>"

definition handleAdminGroupList :: "HubPorts \<Rightarrow> Broker \<Rightarrow> nat \<Rightarrow> MessageHeader \<Rightarrow> bytes \<Rightarrow> Broker" where
  "handleAdminGroupList ports self peer header payload =
     (if hp_role (peer_at self peer) \<noteq> kHUB_PEER_ROLE_ADMIN then self
      else case decodeOffsetRequest \<lparr>ao_offset = 0\<rparr> payload of
        (False, _) \<Rightarrow> self
      | (True, request) \<Rightarrow>
          let (count, entry) = (case BridgeGroups_Nth (bk_groups self) (unat (ao_offset request)) of
                None \<Rightarrow> (0, AdminGroupListReplyEntry_zero)
              | Some slot \<Rightarrow> (1, fillGroupEntry self slot));
              rest = BridgeGroups_Nth (bk_groups self) (wrap 16 (unat (ao_offset request) + unat count));
              reply = \<lparr>pg_count = count, pg_flags = (if rest \<noteq> None then ADMIN_REPLY_FLAG_MORE else 0), pg_entries = [entry]\<rparr>
          in sendControl ports self peer (AdminGroupListReplyMessage_Encode reply CONTROL_BUFFER))"

end
