(* ===== verification/BrokerEvents.thy ===== *)
theory BrokerEvents
  imports BrokerAdmin
begin

text \<open>
  The entry points of \<open>hub/broker.c\<close>: the start, the events of the transports, the dispatch of a
  control message, the tick and the time to the next one.  \<open>hub_step\<close> is one event, \<open>hub_reachable\<close>
  the states a hub gets into.
\<close>

section \<open>The start\<close>

definition Broker_zero :: "bool \<Rightarrow> Broker" where
  "Broker_zero require_known_peers =
     \<lparr>bk_registry = InterfaceRegistry_Reset, bk_bridges = BridgeRoutes_Reset, bk_groups = BridgeGroups_Reset,
      bk_directory = PeerDirectory_Reset,
      bk_metrics = \<lparr>hm_frames_received = 0, hm_frames_forwarded = 0, hm_frames_dropped = 0, hm_frames_unroutable = 0,
        hm_transactions = \<lparr>tc_started = 0, tc_completed = 0, tc_aborted = 0, tc_rejected = 0, tc_steps_completed = 0,
          tc_lease_frame_drops = 0\<rparr>\<rparr>,
      bk_pending_ifconfig = replicate BROKER_PENDING_IFCONFIG_MAX
        \<lparr>pi_in_use = False, pi_requester_peer_id = 0, pi_agent_peer_id = 0, pi_interface_id = 0, pi_request_id = 0\<rparr>,
      bk_transactions = TransactionTable_Reset, bk_next_ifconfig_request_id = 0, bk_rejected_peers = RejectedPeers_Reset,
      bk_require_known_peers = require_known_peers, bk_now_us = 0, bk_calls = []\<rparr>"

text \<open>The loops that read the store: the first position without an entry ends them.\<close>

fun load_routes :: "BridgeStorePort \<Rightarrow> nat list \<Rightarrow> Broker \<Rightarrow> Broker" where
  "load_routes port [] self = self"
| "load_routes port (position # positions) self =
     (case bsp_load port (bk_calls self) position of
        None \<Rightarrow> self
      | Some route \<Rightarrow>
          load_routes port positions (self\<lparr>bk_bridges := snd (BridgeRoutes_Set (bk_bridges self) route)\<rparr>))"

definition loadBridgeRoutes :: "HubPorts \<Rightarrow> Broker \<Rightarrow> Broker" where
  "loadBridgeRoutes ports self =
     (case hub_bridge_store ports of None \<Rightarrow> self | Some port \<Rightarrow> load_routes port [0..<BRIDGE_ROUTES_MAX] self)"

fun load_groups :: "HubPorts \<Rightarrow> BridgeStorePort \<Rightarrow> nat list \<Rightarrow> Broker \<Rightarrow> Broker" where
  "load_groups ports port [] self = self"
| "load_groups ports port (position # positions) self =
     (case bsp_load_group port (bk_calls self) position of
        None \<Rightarrow> self
      | Some g \<Rightarrow>
          let (restored, groups) = BridgeGroups_Restore (bk_groups self) g;
              self = self\<lparr>bk_groups := groups\<rparr>;
              self = (if restored then openGroupInterface ports self (bg_name g) else self)
          in load_groups ports port positions self)"

definition loadBridgeGroups :: "HubPorts \<Rightarrow> Broker \<Rightarrow> Broker" where
  "loadBridgeGroups ports self =
     (case hub_bridge_store ports of None \<Rightarrow> self | Some port \<Rightarrow> load_groups ports port [0..<BRIDGE_GROUPS_MAX] self)"

definition Broker_Init :: "HubPorts \<Rightarrow> bool \<Rightarrow> Broker" where
  "Broker_Init ports require_known_peers =
     loadBridgeGroups ports (loadBridgeRoutes ports (Broker_zero require_known_peers))"

section \<open>Connections\<close>

abbreviation (input) AWAITING_HELLO_MAX :: nat where "AWAITING_HELLO_MAX \<equiv> PEER_DIRECTORY_MAX div 2"
abbreviation (input) AWAITING_HELLO_PER_HOST_MAX :: nat where "AWAITING_HELLO_PER_HOST_MAX \<equiv> 4"
abbreviation (input) HELLO_TIMEOUT_US :: nat where "HELLO_TIMEOUT_US \<equiv> 5000000"

definition admitsPeerAwaitingHello :: "Broker \<Rightarrow> HubPeerConnectInfo \<Rightarrow> bool" where
  "admitsPeerAwaitingHello self info =
     (if ci_local info then True
      else if PeerDirectory_CountRole (bk_directory self) kHUB_PEER_ROLE_UNKNOWN \<ge> AWAITING_HELLO_MAX then False
      else case ci_origin_host info of
        None \<Rightarrow> True
      | Some host \<Rightarrow> PeerDirectory_CountAwaitingHelloFrom (bk_directory self) host < AWAITING_HELLO_PER_HOST_MAX)"

definition connectingPeerIsKnown :: "HubPorts \<Rightarrow> Broker \<Rightarrow> HubPeerConnectInfo \<Rightarrow> bool" where
  "connectingPeerIsKnown ports self info =
     (case ci_fingerprint_hex info of
        None \<Rightarrow> True
      | Some fingerprint_hex \<Rightarrow>
          if ci_local info then True
          else if (case hub_authorization ports of None \<Rightarrow> False | Some port \<Rightarrow> azp_knows port (bk_calls self) fingerprint_hex)
          then True
          else case hub_identity_store ports of None \<Rightarrow> False | Some port \<Rightarrow> isp_knows port (bk_calls self) fingerprint_hex)"

definition makeRoomForKnownPeer :: "HubPorts \<Rightarrow> Broker \<Rightarrow> HubPeerConnectInfo \<Rightarrow> bool \<times> Broker" where
  "makeRoomForKnownPeer ports self info =
     (if \<not> connectingPeerIsKnown ports self info then (False, self)
      else case PeerDirectory_FindDisplaceable (bk_directory self) of
        None \<Rightarrow> (False, self)
      | Some displaced \<Rightarrow>
          let peer_id = hp_peer_id (peer_at self displaced);
              self = sendError self peer_id kERROR_CODE_HUB_FULL (c_text ''displaced by a known peer'')
          in (True, disconnectPeer ports self peer_id))"

definition turn_away :: "Broker \<Rightarrow> u32 \<Rightarrow> string \<Rightarrow> Broker" where
  "turn_away self peer_id detail = close_peer (sendError self peer_id kERROR_CODE_HUB_FULL (c_text detail)) peer_id"

definition onPeerConnected :: "HubPorts \<Rightarrow> Broker \<Rightarrow> u32 \<Rightarrow> HubPeerConnectInfo \<Rightarrow> nat \<Rightarrow> Broker" where
  "onPeerConnected ports self peer_id info now_us =
     (let self = self\<lparr>bk_now_us := now_us\<rparr>
      in if \<not> admitsPeerAwaitingHello self info then turn_away self peer_id ''too many peers awaiting hello''
         else
           let (room, self) = (if PeerDirectory_IsFull (bk_directory self) then makeRoomForKnownPeer ports self info else (True, self))
           in if \<not> room then turn_away self peer_id ''no peer slot available''
              else case PeerDirectory_Allocate (bk_directory self) peer_id of
                (None, _) \<Rightarrow> self
              | (Some peer, directory) \<Rightarrow>
                  with_peer (self\<lparr>bk_directory := directory\<rparr>) peer (\<lambda>p. p\<lparr>hp_local := ci_local info,
                    hp_transport_kind := ci_transport_kind info, hp_connected_at_us := now_us,
                    hp_fingerprint_hex := (case ci_fingerprint_hex info of None \<Rightarrow> hp_fingerprint_hex p
                      | Some text \<Rightarrow> BoundedString_Copy (hp_fingerprint_hex p) (Some text)),
                    hp_origin := (case ci_origin info of None \<Rightarrow> hp_origin p
                      | Some text \<Rightarrow> BoundedString_Copy (hp_origin p) (Some text)),
                    hp_origin_host := (case ci_origin_host info of None \<Rightarrow> hp_origin_host p
                      | Some text \<Rightarrow> BoundedString_Copy (hp_origin_host p) (Some text))\<rparr>))"

definition onPeerDisconnected :: "HubPorts \<Rightarrow> Broker \<Rightarrow> u32 \<Rightarrow> Broker" where
  "onPeerDisconnected ports self peer_id =
     (case PeerDirectory_Find (bk_directory self) peer_id of None \<Rightarrow> self | Some peer \<Rightarrow> releasePeer ports self peer)"

section \<open>Messages and frames\<close>

definition control_handlers :: "u8 \<Rightarrow> (HubPorts \<Rightarrow> Broker \<Rightarrow> nat \<Rightarrow> MessageHeader \<Rightarrow> bytes \<Rightarrow> Broker) option" where
  "control_handlers type =
     (if type = kMESSAGE_TYPE_HELLO then Some handleHello
      else if type = kMESSAGE_TYPE_REGISTER then Some handleRegister
      else if type = kMESSAGE_TYPE_LIST then Some handleList
      else if type = kMESSAGE_TYPE_OPEN then Some handleOpen
      else if type = kMESSAGE_TYPE_CLOSE then Some handleClose
      else if type = kMESSAGE_TYPE_SUBSCRIBE then Some handleSubscribe
      else if type = kMESSAGE_TYPE_PING then Some handlePing
      else if type = kMESSAGE_TYPE_CONFIGURE then Some handleConfigure
      else if type = kMESSAGE_TYPE_ADMIN_STATUS then Some handleAdminStatus
      else if type = kMESSAGE_TYPE_ADMIN_PEERS then Some handleAdminPeers
      else if type = kMESSAGE_TYPE_ADMIN_KICK then Some handleAdminKick
      else if type = kMESSAGE_TYPE_ADMIN_PINS then Some handleAdminPins
      else if type = kMESSAGE_TYPE_ADMIN_FORGET then Some handleAdminForget
      else if type = kMESSAGE_TYPE_ADMIN_KICK_PEER then Some handleAdminKickPeer
      else if type = kMESSAGE_TYPE_ADMIN_AGENTS then Some handleAdminAgents
      else if type = kMESSAGE_TYPE_ADMIN_CLIENTS then Some handleAdminClients
      else if type = kMESSAGE_TYPE_ADMIN_INTERFACES then Some handleAdminInterfaces
      else if type = kMESSAGE_TYPE_ADMIN_TXNS then Some handleAdminTxns
      else if type = kMESSAGE_TYPE_ADMIN_PIN_ADD then Some handleAdminPinAdd
      else if type = kMESSAGE_TYPE_ADMIN_ACL_SET then Some handleAdminAclSet
      else if type = kMESSAGE_TYPE_ADMIN_ACL_REVOKE then Some handleAdminAclRevoke
      else if type = kMESSAGE_TYPE_ADMIN_ACL_LIST then Some handleAdminAclList
      else if type = kMESSAGE_TYPE_ADMIN_REJECTED then Some handleAdminRejected
      else if type = kMESSAGE_TYPE_ADMIN_BRIDGE_SET then Some handleAdminBridgeSet
      else if type = kMESSAGE_TYPE_ADMIN_BRIDGE_DELETE then Some handleAdminBridgeDelete
      else if type = kMESSAGE_TYPE_ADMIN_BRIDGE_LIST then Some handleAdminBridgeList
      else if type = kMESSAGE_TYPE_ADMIN_GROUP_SET then Some handleAdminGroupSet
      else if type = kMESSAGE_TYPE_ADMIN_GROUP_DELETE then Some handleAdminGroupDelete
      else if type = kMESSAGE_TYPE_ADMIN_GROUP_JOIN then Some handleAdminGroupJoin
      else if type = kMESSAGE_TYPE_ADMIN_GROUP_LEAVE then Some handleAdminGroupLeave
      else if type = kMESSAGE_TYPE_ADMIN_GROUP_LIST then Some handleAdminGroupList
      else if type = kMESSAGE_TYPE_IFCONFIG_REPLY then Some handleIfconfigReply
      else if type = kMESSAGE_TYPE_INTERFACE_STATUS then Some handleInterfaceStatus
      else if type = kMESSAGE_TYPE_TXN_BEGIN then Some handleTxnBegin
      else if type = kMESSAGE_TYPE_TXN_BEGIN_ACK then Some handleTxnBeginAck
      else if type = kMESSAGE_TYPE_TXN_TEMPLATE then Some handleTxnContent
      else if type = kMESSAGE_TYPE_TXN_STEPS then Some handleTxnContent
      else if type = kMESSAGE_TYPE_TXN_PROGRESS then Some handleTxnProgress
      else if type = kMESSAGE_TYPE_TXN_STATUS then Some handleTxnStatus
      else if type = kMESSAGE_TYPE_TXN_ABORT then Some handleTxnAbort
      else if type = kMESSAGE_TYPE_TXN_ROSTER then Some handleTxnContent
      else if type = kMESSAGE_TYPE_TXN_ROSTER_REPORT then Some handleTxnRosterReport
      else None)"

abbreviation (input) kMESSAGE_TYPE_MAX :: u8 where "kMESSAGE_TYPE_MAX \<equiv> 0x80"

definition onPeerControl :: "HubPorts \<Rightarrow> Broker \<Rightarrow> u32 \<Rightarrow> bytes \<Rightarrow> nat \<Rightarrow> Broker" where
  "onPeerControl ports self peer_id data now_us =
     (let self = self\<lparr>bk_now_us := now_us\<rparr>
      in case PeerDirectory_Find (bk_directory self) peer_id of
           None \<Rightarrow> self
         | Some peer \<Rightarrow>
             (case MessageHeader_Decode data of
                None \<Rightarrow> self
              | Some header \<Rightarrow>
                  if length data < MESSAGE_HEADER_SIZE + unat (mh_length header) then self
                  else if mh_type header \<ge> kMESSAGE_TYPE_MAX then self
                  else case control_handlers (mh_type header) of
                    None \<Rightarrow> self
                  | Some handler \<Rightarrow>
                      let self = handler ports self peer header (mem_read data MESSAGE_HEADER_SIZE (unat (mh_length header)))
                      in (case PeerDirectory_Find (bk_directory self) peer_id of
                            None \<Rightarrow> self
                          | Some peer \<Rightarrow> if hp_send_failed (peer_at self peer) then disconnectPeer ports self peer_id else self)))"

definition FrameMessage_zero :: FrameMessage where
  "FrameMessage_zero =
     \<lparr>fm_can_id = 0, fm_timestamp_us = 0, fm_channel = 0, fm_payload_length = 0, fm_frame_flags = 0, fm_route_flags = 0,
      fm_payload = replicate FRAME_PAYLOAD_MAX_FD 0\<rparr>"

fun route_frames :: "HubPorts \<Rightarrow> nat \<Rightarrow> FrameMessage list \<Rightarrow> bool \<times> Broker \<Rightarrow> bool \<times> Broker" where
  "route_frames ports peer [] (taken, self) = (taken, self)"
| "route_frames ports peer (frame # frames) (taken, self) =
     (case routeFrame ports self peer frame of (ok, self) \<Rightarrow> route_frames ports peer frames (taken \<and> ok, self))"

definition onPeerFrame :: "HubPorts \<Rightarrow> Broker \<Rightarrow> u32 \<Rightarrow> bytes \<Rightarrow> bool \<times> Broker" where
  "onPeerFrame ports self peer_id data =
     (case PeerDirectory_Find (bk_directory self) peer_id of
        None \<Rightarrow> (True, self)
      | Some peer \<Rightarrow>
          if hp_role (peer_at self peer) \<noteq> kHUB_PEER_ROLE_AGENT \<and> hp_role (peer_at self peer) \<noteq> kHUB_PEER_ROLE_CLIENT
          then (True, self)
          else
            let content = (case MessageHeader_Decode data of
                  None \<Rightarrow> None | Some header \<Rightarrow> if isTransactionContent (mh_type header) then Some header else None)
            in (case content of
                  Some header \<Rightarrow>
                    if length data < MESSAGE_HEADER_SIZE + unat (mh_length header) then (True, self)
                    else relayTransactionContent ports self peer header (mem_read data MESSAGE_HEADER_SIZE (unat (mh_length header)))
                | None \<Rightarrow> route_frames ports peer (FrameStream_frames (FrameStream_Init data) FrameMessage_zero) (True, self)))"

definition onPeerWritable :: "HubPorts \<Rightarrow> Broker \<Rightarrow> u32 \<Rightarrow> Broker" where
  "onPeerWritable ports self peer_id =
     (case PeerDirectory_Find (bk_directory self) peer_id of None \<Rightarrow> self | Some peer \<Rightarrow> drainPeer ports self peer)"

section \<open>The tick\<close>

definition tickHelloDeadline :: "HubPorts \<Rightarrow> Broker \<Rightarrow> nat \<Rightarrow> nat \<Rightarrow> Broker" where
  "tickHelloDeadline ports self peer now_us =
     (if hp_hello_deadline_us (peer_at self peer) = 0
      then with_peer self peer (\<lambda>p. p\<lparr>hp_hello_deadline_us := now_us + HELLO_TIMEOUT_US\<rparr>)
      else if now_us \<ge> hp_hello_deadline_us (peer_at self peer)
      then refuse_peer ports self peer kERROR_CODE_HELLO_TIMEOUT ''no hello within the deadline''
      else self)"

definition tick_peer :: "HubPorts \<Rightarrow> nat \<Rightarrow> nat \<Rightarrow> Broker \<Rightarrow> Broker" where
  "tick_peer ports now_us peer self =
     (let self = (if hp_role (peer_at self peer) = kHUB_PEER_ROLE_UNKNOWN then tickHelloDeadline ports self peer now_us else self)
      in if EgressQueue_HasPending (hp_egress (peer_at self peer)) then drainPeer ports self peer else self)"

definition Broker_Tick :: "HubPorts \<Rightarrow> Broker \<Rightarrow> nat \<Rightarrow> Broker" where
  "Broker_Tick ports self now_us = each_peer (tick_peer ports now_us) (self\<lparr>bk_now_us := now_us\<rparr>)"

text \<open>The shortest wait of a queued frame for its bus, below the cap.  Asking refills the shapers.\<close>

definition channel_delay :: "nat \<Rightarrow> u8 \<Rightarrow> nat \<times> Broker \<Rightarrow> nat \<times> Broker" where
  "channel_delay peer channel = (\<lambda>(best_us, self).
     if \<not> EgressQueue_ChannelPending (hp_egress (peer_at self peer)) channel then (best_us, self)
     else case EgressQueue_FrontOfChannel (hp_egress (peer_at self peer)) channel of
       None \<Rightarrow> (best_us, self)
     | Some (front, sz) \<Rightarrow>
         let (delay, registry) = InterfaceRegistry_EgressDelayUs (bk_registry self) (hp_peer_id (peer_at self peer)) channel
               (frameWireBits front sz) (bk_now_us self)
         in (if delay > 0 \<and> delay < best_us then delay else best_us, self\<lparr>bk_registry := registry\<rparr>))"

text \<open>The \<open>int32_t\<close> of the cap and of the result are their 32 bits: the cap is sign-extended to the \<open>uint64_t\<close> it is compared as.\<close>

definition Broker_NextTimeoutMs :: "Broker \<Rightarrow> u32 \<Rightarrow> u32 \<times> Broker" where
  "Broker_NextTimeoutMs self cap_ms =
     (let (best_us, self) = fold (\<lambda>i (best_us, self).
            case PeerDirectory_At (bk_directory self) i of
              None \<Rightarrow> (best_us, self)
            | Some peer \<Rightarrow>
                if \<not> EgressQueue_HasPending (hp_egress (peer_at self peer)) then (best_us, self)
                else fold (\<lambda>channel. channel_delay peer (of_nat channel)) [0..<EGRESS_QUEUE_CHANNELS_MAX] (best_us, self))
          [0..<PEER_DIRECTORY_MAX] (unat (scast cap_ms * 1000 :: u64), self)
      in (of_nat (wrap 64 (best_us + 999) div 1000), self))"

section \<open>The hub as a state machine\<close>

text \<open>
  One event of the transports.  The trace records it, so that a port may answer differently from
  event to event.
\<close>

fun handle_event :: "HubPorts \<Rightarrow> HubEvent \<Rightarrow> Broker \<Rightarrow> Broker" where
  "handle_event ports (PeerConnected peer_id info now_us) self = onPeerConnected ports self peer_id info now_us"
| "handle_event ports (PeerDisconnected peer_id now_us) self = onPeerDisconnected ports self peer_id"
| "handle_event ports (PeerControl peer_id data now_us) self = onPeerControl ports self peer_id data now_us"
| "handle_event ports (PeerFrame peer_id data) self = snd (onPeerFrame ports self peer_id data)"
| "handle_event ports (PeerWritable peer_id) self = onPeerWritable ports self peer_id"
| "handle_event ports (HubTick now_us) self = Broker_Tick ports self now_us"

definition hub_step :: "HubPorts \<Rightarrow> HubEvent \<Rightarrow> Broker \<Rightarrow> Broker" where
  "hub_step ports event self = handle_event ports event (calling self (Started event))"

text \<open>
  What the hub relies on: the transports number the connections with ids that are neither 0, which
  stands for the hub itself and for no peer, nor the owner of bridged frames, and do not give a
  connection the id of one that is still open.
\<close>

fun event_allowed :: "Broker \<Rightarrow> HubEvent \<Rightarrow> bool" where
  "event_allowed b (PeerConnected peer_id info now_us) \<longleftrightarrow>
     peer_id \<noteq> 0 \<and> peer_id \<noteq> ECHO_TOKENS_BRIDGE_OWNER \<and> PeerDirectory_Find (bk_directory b) peer_id = None"
| "event_allowed b event \<longleftrightarrow> True"

inductive hub_reachable :: "HubPorts \<Rightarrow> Broker \<Rightarrow> bool" for ports where
  start: "hub_reachable ports (Broker_Init ports require_known_peers)"
| step: "hub_reachable ports b \<Longrightarrow> event_allowed b event \<Longrightarrow> hub_reachable ports (hub_step ports event b)"
| timeout: "hub_reachable ports b \<Longrightarrow> hub_reachable ports (snd (Broker_NextTimeoutMs b cap_ms))"

end
