(* ===== verification/BrokerInvariant.thy ===== *)
theory BrokerInvariant
  imports BrokerEvents
begin

text \<open>
  What holds of the hub between two events.  \<open>hub_inv\<close> says that the tables of the hub are well
  formed and refer to each other and to the peers without dangling: no interface, transaction,
  pending configuration or echo token outlives the peer it names, no attached channel the interface
  it is bound to.  It also says that every open channel was granted by the access lists.  Each
  operation of the broker is shown to keep it, from the single updates up to the handlers, and rule
  induction carries it to every state the hub reaches.
\<close>

section \<open>The invariant\<close>

definition connected_as :: "Broker \<Rightarrow> u8 \<Rightarrow> u32 \<Rightarrow> bool" where
  "connected_as b role peer_id \<longleftrightarrow>
     (\<exists>p \<in> set (pd_peers (bk_directory b)). hp_in_use p \<and> hp_role p = role \<and> hp_peer_id p = peer_id)"

definition connected :: "Broker \<Rightarrow> u32 \<Rightarrow> bool" where
  "connected b peer_id \<longleftrightarrow> (\<exists>p \<in> set (pd_peers (bk_directory b)). hp_in_use p \<and> hp_peer_id p = peer_id)"

text \<open>One slot of the directory, taken by itself.\<close>

definition slot_ok :: "HubPeer \<Rightarrow> bool" where
  "slot_ok p \<longleftrightarrow> ClientSession_inv (hp_session p) \<and> EchoTokens_inv (hp_echo_tokens p) \<and>
     (hp_in_use p \<longrightarrow> EgressQueue_inv (hp_egress p) \<and> hp_peer_id p \<noteq> 0 \<and> hp_peer_id p \<noteq> ECHO_TOKENS_BRIDGE_OWNER) \<and>
     (hp_role p = kHUB_PEER_ROLE_ADMIN \<longrightarrow> hp_local p) \<and>
     (hp_in_use p \<and> hp_role p = kHUB_PEER_ROLE_CLIENT \<or> \<not> ClientSession_HoldsChannels (hp_session p)) \<and>
     (hp_in_use p \<and> hp_role p = kHUB_PEER_ROLE_AGENT \<or> (\<forall>owner \<in> set (et_owner_peer_ids (hp_echo_tokens p)). owner = NO_OWNER))"

text \<open>The owners of its tokens are connected clients, or the bridge.\<close>

definition owners_ok :: "(u32 \<Rightarrow> bool) \<Rightarrow> HubPeer \<Rightarrow> bool" where
  "owners_ok client p \<longleftrightarrow> (\<forall>owner \<in> set (et_owner_peer_ids (hp_echo_tokens p)).
     owner = NO_OWNER \<or> owner = ECHO_TOKENS_BRIDGE_OWNER \<or> client owner)"

text \<open>
  The interface of a channel is registered under the names the channel was opened with, unless the
  channel is dormant; and at some moment of the past the authorization port allowed what the
  channel allows, for these names.
\<close>

definition resolves :: "InterfaceRegistry \<Rightarrow> ChannelBinding \<Rightarrow> bool" where
  "resolves registry x \<longleftrightarrow> (\<exists>e \<in> set (ir_entries registry). ie_in_use e \<and> ie_interface_id e = cb_interface_id x \<and>
     namesMatch e (cb_agent_name x) (cb_interface_name x))"

definition was_allowed :: "(history \<Rightarrow> bytes \<Rightarrow> bytes \<Rightarrow> bytes \<Rightarrow> bool) \<Rightarrow> history \<Rightarrow> bytes \<Rightarrow> ChannelBinding \<Rightarrow> bool" where
  "was_allowed answer calls fingerprint_hex x \<longleftrightarrow>
     (\<exists>n \<le> length calls. \<exists>agent_name interface_name. str_eq agent_name (cb_agent_name x) \<and>
        str_eq interface_name (cb_interface_name x) \<and> answer (take n calls) fingerprint_hex agent_name interface_name)"

definition authorized :: "HubPorts \<Rightarrow> history \<Rightarrow> bytes \<Rightarrow> ChannelBinding \<Rightarrow> bool" where
  "authorized ports calls fingerprint_hex x \<longleftrightarrow> fingerprint_hex ! 0 = 0 \<or>
     (case hub_authorization ports of
        None \<Rightarrow> True
      | Some port \<Rightarrow> was_allowed (azp_read_allowed port) calls fingerprint_hex x \<and>
          (cb_can_write x \<longrightarrow> was_allowed (azp_write_allowed port) calls fingerprint_hex x))"

definition channels_ok :: "HubPorts \<Rightarrow> InterfaceRegistry \<Rightarrow> history \<Rightarrow> bytes \<Rightarrow> ClientSession \<Rightarrow> bool" where
  "channels_ok ports registry calls fingerprint_hex s \<longleftrightarrow> (\<forall>x \<in> set (cs_bindings s). cb_in_use x \<longrightarrow>
     (cb_dormant x \<or> resolves registry x) \<and> authorized ports calls fingerprint_hex x)"

definition peer_ok :: "HubPorts \<Rightarrow> Broker \<Rightarrow> HubPeer \<Rightarrow> bool" where
  "peer_ok ports b p \<longleftrightarrow> slot_ok p \<and> owners_ok (connected_as b kHUB_PEER_ROLE_CLIENT) p \<and>
     channels_ok ports (bk_registry b) (bk_calls b) (hp_fingerprint_hex p) (hp_session p)"

definition peers_ok :: "HubPorts \<Rightarrow> Broker \<Rightarrow> bool" where
  "peers_ok ports b \<longleftrightarrow> length (pd_peers (bk_directory b)) = PEER_DIRECTORY_MAX \<and>
     slots_distinct hp_in_use hp_peer_id (pd_peers (bk_directory b)) \<and>
     (\<forall>p \<in> set (pd_peers (bk_directory b)). peer_ok ports b p)"

definition entry_ok :: "(u32 \<Rightarrow> bool) \<Rightarrow> InterfaceEntry \<Rightarrow> bool" where
  "entry_ok agent e \<longleftrightarrow> (if ie_in_use e
     then (InterfaceEntry_IsVirtual e \<or> agent (ie_agent_peer_id e)) \<and>
       strlen (ie_agent_name e) < REGISTER_AGENT_NAME_SIZE \<and> strlen (ie_interface_name e) < REGISTER_INTERFACE_NAME_SIZE
     else e = InterfaceEntry_zero)"

definition registry_ok :: "Broker \<Rightarrow> bool" where
  "registry_ok b \<longleftrightarrow> length (ir_entries (bk_registry b)) = INTERFACE_REGISTRY_MAX \<and>
     (\<forall>e \<in> set (ir_entries (bk_registry b)). entry_ok (connected_as b kHUB_PEER_ROLE_AGENT) e)"

definition transactions_ok :: "Broker \<Rightarrow> bool" where
  "transactions_ok b \<longleftrightarrow> TransactionTable_inv (bk_transactions b) \<and>
     (\<forall>t \<in> set (tt_entries (bk_transactions b)). isInUse t \<longrightarrow>
        connected_as b kHUB_PEER_ROLE_AGENT (rt_agent_peer_id t) \<and>
        (rt_client_peer_id t = TRANSACTION_NO_CLIENT \<or> connected_as b kHUB_PEER_ROLE_CLIENT (rt_client_peer_id t)))"

definition pending_ok :: "Broker \<Rightarrow> bool" where
  "pending_ok b \<longleftrightarrow> length (bk_pending_ifconfig b) = BROKER_PENDING_IFCONFIG_MAX \<and>
     (\<forall>q \<in> set (bk_pending_ifconfig b). pi_in_use q \<longrightarrow>
        connected_as b kHUB_PEER_ROLE_AGENT (pi_agent_peer_id q) \<and> connected b (pi_requester_peer_id q))"

definition tables_ok :: "Broker \<Rightarrow> bool" where
  "tables_ok b \<longleftrightarrow> BridgeRoutes_inv (bk_bridges b) \<and> BridgeGroups_inv (bk_groups b) \<and> RejectedPeers_inv (bk_rejected_peers b)"

definition hub_inv :: "HubPorts \<Rightarrow> Broker \<Rightarrow> bool" where
  "hub_inv ports b \<longleftrightarrow> peers_ok ports b \<and> registry_ok b \<and> transactions_ok b \<and> pending_ok b \<and> tables_ok b"

section \<open>Updates that keep the peers\<close>

interpretation peers: slot_table hp_in_use hp_peer_id HubPeer_zero
  by unfold_locales (simp add: HubPeer_zero_def)

named_theorems hub_intros

lemma who_fields [simp]: "hp_in_use (who p) = hp_in_use p" "hp_role (who p) = hp_role p" "hp_peer_id (who p) = hp_peer_id p"
  by (simp_all add: who_def)

lemma connected_by_who:
  "connected_as b role i \<longleftrightarrow> (\<exists>p \<in> set (map who (pd_peers (bk_directory b))). hp_in_use p \<and> hp_role p = role \<and> hp_peer_id p = i)"
  "connected b i \<longleftrightarrow> (\<exists>p \<in> set (map who (pd_peers (bk_directory b))). hp_in_use p \<and> hp_peer_id p = i)"
  by (simp_all add: connected_as_def connected_def)

lemma same_peers_connected:
  assumes "same_peers b c"
  shows "connected_as c = connected_as b" "connected c = connected b"
  using assms by (simp_all add: fun_eq_iff connected_by_who same_peers_def del: set_map)

lemma distinct_by_who: "slots_distinct hp_in_use hp_peer_id ps = slots_distinct hp_in_use hp_peer_id (map who ps)"
  by (simp add: slots_distinct_def filter_map comp_def)

lemma hub_inv_sized: "hub_inv ports b \<Longrightarrow> length (pd_peers (bk_directory b)) = PEER_DIRECTORY_MAX"
  by (simp add: hub_inv_def peers_ok_def)

lemma hub_inv_peer:
  "hub_inv ports b \<Longrightarrow> i < length (pd_peers (bk_directory b)) \<Longrightarrow> peer_ok ports b (peer_at b i)"
  by (simp add: hub_inv_def peers_ok_def)

text \<open>
  The general form: the peers stay, and every part is well formed with respect to the peers of the
  old state.
\<close>

lemma hub_inv_same_peers:
  assumes "hub_inv ports b" and "same_peers b c"
    and "\<And>i. i < length (pd_peers (bk_directory b)) \<Longrightarrow> slot_ok (peer_at c i) \<and>
      owners_ok (connected_as b kHUB_PEER_ROLE_CLIENT) (peer_at c i) \<and>
      channels_ok ports (bk_registry c) (bk_calls c) (hp_fingerprint_hex (peer_at c i)) (hp_session (peer_at c i))"
    and "length (ir_entries (bk_registry c)) = INTERFACE_REGISTRY_MAX"
    and "\<And>e. e \<in> set (ir_entries (bk_registry c)) \<Longrightarrow> entry_ok (connected_as b kHUB_PEER_ROLE_AGENT) e"
    and "TransactionTable_inv (bk_transactions c)"
    and "\<And>t. t \<in> set (tt_entries (bk_transactions c)) \<Longrightarrow> isInUse t \<Longrightarrow>
      connected_as b kHUB_PEER_ROLE_AGENT (rt_agent_peer_id t) \<and>
      (rt_client_peer_id t = TRANSACTION_NO_CLIENT \<or> connected_as b kHUB_PEER_ROLE_CLIENT (rt_client_peer_id t))"
    and "length (bk_pending_ifconfig c) = BROKER_PENDING_IFCONFIG_MAX"
    and "\<And>q. q \<in> set (bk_pending_ifconfig c) \<Longrightarrow> pi_in_use q \<Longrightarrow>
      connected_as b kHUB_PEER_ROLE_AGENT (pi_agent_peer_id q) \<and> connected b (pi_requester_peer_id q)"
    and "tables_ok c"
  shows "hub_inv ports c"
proof -
  note len = same_peersD(1) [OF assms(2)]
  have "slots_distinct hp_in_use hp_peer_id (pd_peers (bk_directory c))"
    using assms(1,2) distinct_by_who unfolding hub_inv_def peers_ok_def same_peers_def by metis
  moreover have "\<forall>p \<in> set (pd_peers (bk_directory c)). peer_ok ports c p"
    using assms(3) len by (auto simp: in_set_conv_nth peer_ok_def same_peers_connected [OF assms(2)])
  ultimately have "peers_ok ports c"
    using assms(1) len by (simp add: hub_inv_def peers_ok_def)
  moreover have "registry_ok c"
    using assms(4,5) by (simp add: registry_ok_def same_peers_connected [OF assms(2)])
  moreover have "transactions_ok c"
    using assms(6,7) by (simp add: transactions_ok_def same_peers_connected [OF assms(2)])
  moreover have "pending_ok c"
    using assms(8,9) by (simp add: pending_ok_def same_peers_connected [OF assms(2)])
  ultimately show ?thesis
    using assms(10) by (simp add: hub_inv_def)
qed

lemma hub_invD:
  assumes "hub_inv ports b"
  shows "length (ir_entries (bk_registry b)) = INTERFACE_REGISTRY_MAX"
    and "e \<in> set (ir_entries (bk_registry b)) \<Longrightarrow> entry_ok (connected_as b kHUB_PEER_ROLE_AGENT) e"
    and "TransactionTable_inv (bk_transactions b)"
    and "t \<in> set (tt_entries (bk_transactions b)) \<Longrightarrow> isInUse t \<Longrightarrow>
      connected_as b kHUB_PEER_ROLE_AGENT (rt_agent_peer_id t) \<and>
      (rt_client_peer_id t = TRANSACTION_NO_CLIENT \<or> connected_as b kHUB_PEER_ROLE_CLIENT (rt_client_peer_id t))"
    and "length (bk_pending_ifconfig b) = BROKER_PENDING_IFCONFIG_MAX"
    and "q \<in> set (bk_pending_ifconfig b) \<Longrightarrow> pi_in_use q \<Longrightarrow>
      connected_as b kHUB_PEER_ROLE_AGENT (pi_agent_peer_id q) \<and> connected b (pi_requester_peer_id q)"
    and "tables_ok b"
  using assms by (simp_all add: hub_inv_def registry_ok_def transactions_ok_def pending_ok_def)

lemma was_allowed_extend: "was_allowed answer calls fingerprint_hex x \<Longrightarrow> was_allowed answer (calls @ cs) fingerprint_hex x"
  unfolding was_allowed_def by (elim exE conjE, rule_tac x = n in exI) auto

lemma channels_ok_extend:
  "channels_ok ports registry calls fingerprint_hex s \<Longrightarrow> channels_ok ports registry (calls @ cs) fingerprint_hex s"
  by (auto simp: channels_ok_def authorized_def intro: was_allowed_extend split: option.splits)

lemma hub_inv_peers:
  assumes "hub_inv ports b" and "same_peers b c" and "bk_calls c = bk_calls b @ cs"
    and "bk_registry c = bk_registry b" "bk_transactions c = bk_transactions b"
      "bk_pending_ifconfig c = bk_pending_ifconfig b" "bk_bridges c = bk_bridges b" "bk_groups c = bk_groups b"
      "bk_rejected_peers c = bk_rejected_peers b"
    and "\<And>i. i < length (pd_peers (bk_directory b)) \<Longrightarrow> peer_ok ports b (peer_at c i)"
  shows "hub_inv ports c"
  using hub_invD [OF assms(1)] assms(2-9) assms(10)
  by (intro hub_inv_same_peers [OF assms(1,2)]) (auto simp: tables_ok_def peer_ok_def intro: channels_ok_extend)

lemma peer_ok_unsent: "unsent p = unsent q \<Longrightarrow> peer_ok ports b p = peer_ok ports b q"
  by (simp add: peer_ok_def slot_ok_def owners_ok_def unsent_eqD [of p q])

lemma hub_inv_spoken: "hub_inv ports b \<Longrightarrow> spoken b c \<Longrightarrow> hub_inv ports c"
proof -
  assume inv: "hub_inv ports b" and moved: "spoken b c"
  obtain cs where "bk_calls c = bk_calls b @ cs"
    using moved by (auto simp: spoken_def plainly_def)
  moreover have "peer_ok ports b (peer_at c i)" if "i < length (pd_peers (bk_directory b))" for i
    using peer_ok_unsent [OF spoken_peer [OF moved that]] hub_inv_peer [OF inv that] by blast
  ultimately show "hub_inv ports c"
    by (intro hub_inv_peers [OF inv same_peers_spoken [OF same_peers.R_refl moved]]) (simp_all add: spokenD [OF moved])
qed

text \<open>Calls, counters and clocks.\<close>

lemma hub_inv_calling [hub_intros]: "hub_inv ports b \<Longrightarrow> hub_inv ports (calling b x)"
  by (rule hub_inv_peers) (auto simp: calling_def same_peers_def intro: hub_inv_peer)

lemma hub_inv_metrics [hub_intros]: "hub_inv ports b \<Longrightarrow> hub_inv ports (with_metrics b f)"
  by (rule hub_inv_peers) (auto simp: with_metrics_def same_peers_def intro: hub_inv_peer)

lemma hub_inv_counters [hub_intros]: "hub_inv ports b \<Longrightarrow> hub_inv ports (with_counters b f)"
  unfolding with_counters_def by (rule hub_inv_metrics)

lemma hub_inv_now [hub_intros]: "hub_inv ports b \<Longrightarrow> hub_inv ports (b\<lparr>bk_now_us := n\<rparr>)"
  by (rule hub_inv_peers) (auto simp: same_peers_def intro: hub_inv_peer)

text \<open>One peer.\<close>

lemma hub_inv_with_peer:
  assumes "hub_inv ports b" and "\<And>p. who (f p) = who p"
    and "i < length (pd_peers (bk_directory b)) \<Longrightarrow> peer_ok ports b (peer_at b i) \<Longrightarrow> peer_ok ports b (f (peer_at b i))"
  shows "hub_inv ports (with_peer b i f)"
proof (rule hub_inv_peers [OF assms(1)])
  show "same_peers b (with_peer b i f)"
    using same_peers_with_peer [OF same_peers.R_refl assms(2)] .
  show "peer_ok ports b (peer_at (with_peer b i f) j)" if "j < length (pd_peers (bk_directory b))" for j
    using that assms(3) hub_inv_peer [OF assms(1)] by (cases "i = j") (simp_all add: with_peer_def)
qed (simp_all add: with_peer_def)

lemma hub_inv_with_session:
  assumes "hub_inv ports b"
    and "i < length (pd_peers (bk_directory b)) \<Longrightarrow> peer_ok ports b (peer_at b i) \<Longrightarrow>
      peer_ok ports b ((peer_at b i)\<lparr>hp_session := f (hp_session (peer_at b i))\<rparr>)"
  shows "hub_inv ports (with_session b i f)"
  unfolding with_session_def using assms by (intro hub_inv_with_peer) simp_all

lemma hub_inv_with_egress:
  assumes "hub_inv ports b" and "\<And>q. EgressQueue_inv q \<Longrightarrow> EgressQueue_inv (f q)"
  shows "hub_inv ports (with_egress b i f)"
  unfolding with_egress_def using assms
  by (intro hub_inv_with_peer) (auto simp: peer_ok_def slot_ok_def owners_ok_def)

section \<open>Updates of a session\<close>

text \<open>A session that opens nothing: each of its channels was a channel of the old one, with the same rights.\<close>

definition below :: "ClientSession \<Rightarrow> ClientSession \<Rightarrow> bool" where
  "below s' s \<longleftrightarrow> (\<forall>x' \<in> set (cs_bindings s'). cb_in_use x' \<longrightarrow> (\<exists>x \<in> set (cs_bindings s). cb_in_use x \<and>
     cb_interface_id x' = cb_interface_id x \<and> cb_agent_name x' = cb_agent_name x \<and>
     cb_interface_name x' = cb_interface_name x \<and> (cb_can_write x' \<longrightarrow> cb_can_write x) \<and> (cb_dormant x \<longrightarrow> cb_dormant x')))"

lemma channels_ok_below: "channels_ok ports registry calls fingerprint_hex s \<Longrightarrow> below s' s \<Longrightarrow> channels_ok ports registry calls fingerprint_hex s'"
  unfolding channels_ok_def below_def authorized_def resolves_def was_allowed_def
  by (fastforce split: option.splits)

lemma peer_ok_below:
  assumes "peer_ok ports b p" and "ClientSession_inv s" and "below s (hp_session p)"
  shows "peer_ok ports b (p\<lparr>hp_session := s\<rparr>)"
proof -
  have "ClientSession_HoldsChannels (hp_session p)" if "ClientSession_HoldsChannels s"
    using that assms(3) by (auto simp: ClientSession_HoldsChannels_def list_ex_iff below_def)
  then show ?thesis
    using assms(1,2) channels_ok_below [OF _ assms(3)] by (auto simp: peer_ok_def slot_ok_def owners_ok_def)
qed

lemma hub_inv_below:
  assumes "hub_inv ports b" and "\<And>s. ClientSession_inv s \<Longrightarrow> ClientSession_inv (f s)"
    and "\<And>s. ClientSession_inv s \<Longrightarrow> below (f s) s"
  shows "hub_inv ports (with_session b i f)"
proof (rule hub_inv_with_session [OF assms(1)])
  assume "peer_ok ports b (peer_at b i)"
  moreover from this have "ClientSession_inv (hp_session (peer_at b i))"
    by (simp add: peer_ok_def slot_ok_def)
  ultimately show "peer_ok ports b ((peer_at b i)\<lparr>hp_session := f (hp_session (peer_at b i))\<rparr>)"
    using peer_ok_below assms(2,3) by blast
qed

lemma below_refl: "below s s"
  by (auto simp: below_def)

lemma below_freed: "below (s\<lparr>cs_bindings := (cs_bindings s)[i := ChannelBinding_zero]\<rparr>) s"
  using set_update_subset_insert [of "cs_bindings s" i ChannelBinding_zero]
  by (fastforce simp: below_def ChannelBinding_zero_def)

lemma below_update:
  assumes "i < length (cs_bindings s)"
    and "\<And>x. cb_in_use (f x) = cb_in_use x \<and> cb_interface_id (f x) = cb_interface_id x \<and> cb_agent_name (f x) = cb_agent_name x \<and>
      cb_interface_name (f x) = cb_interface_name x \<and> cb_can_write (f x) = cb_can_write x \<and> cb_dormant (f x) = cb_dormant x"
  shows "below (s\<lparr>cs_bindings := (cs_bindings s)[i := f (cs_bindings s ! i)]\<rparr>) s"
  unfolding below_def
proof (intro ballI impI)
  fix x'
  assume x: "x' \<in> set (cs_bindings (s\<lparr>cs_bindings := (cs_bindings s)[i := f (cs_bindings s ! i)]\<rparr>))" and used: "cb_in_use x'"
  have "x' \<in> insert (f (cs_bindings s ! i)) (set (cs_bindings s))"
    using x set_update_subset_insert [of "cs_bindings s" i "f (cs_bindings s ! i)"] by auto
  then consider "x' = f (cs_bindings s ! i)" | "x' \<in> set (cs_bindings s)" by blast
  then show "\<exists>x \<in> set (cs_bindings s). cb_in_use x \<and> cb_interface_id x' = cb_interface_id x \<and> cb_agent_name x' = cb_agent_name x \<and>
     cb_interface_name x' = cb_interface_name x \<and> (cb_can_write x' \<longrightarrow> cb_can_write x) \<and> (cb_dormant x \<longrightarrow> cb_dormant x')"
    using used assms(2) nth_mem [OF assms(1)] by cases auto
qed

lemma hub_inv_CloseChannel [hub_intros]:
  "hub_inv ports b \<Longrightarrow> hub_inv ports (with_session b i (\<lambda>s. ClientSession_CloseChannel s channel))"
  using session.step_inv [of _ "SessionClose channel"]
  by (intro hub_inv_below) (auto simp: ClientSession_CloseChannel_def below_refl below_freed split: option.split)

lemma hub_inv_DetachInterface [hub_intros]:
  "hub_inv ports b \<Longrightarrow> hub_inv ports (with_session b i (\<lambda>s. ClientSession_DetachInterface s interface_id))"
  using session.step_inv [of _ "SessionDetach interface_id"]
  by (intro hub_inv_below) (auto simp: ClientSession_DetachInterface_def below_def detach_binding_def)

lemma hub_inv_session:
  assumes "hub_inv ports b"
    and "ClientSession_inv (hp_session (peer_at b i)) \<Longrightarrow> ClientSession_inv s \<and> below s (hp_session (peer_at b i))"
  shows "hub_inv ports (with_session b i (\<lambda>_. s))"
proof (rule hub_inv_with_session [OF assms(1)])
  assume "peer_ok ports b (peer_at b i)"
  moreover from this have "ClientSession_inv (hp_session (peer_at b i))"
    by (simp add: peer_ok_def slot_ok_def)
  ultimately show "peer_ok ports b ((peer_at b i)\<lparr>hp_session := s\<rparr>)"
    using peer_ok_below assms(2) by blast
qed

lemma hub_inv_TakeReliable:
  assumes "hub_inv ports b" and "ClientSession_TakeReliableBinding (hp_session (peer_at b i)) = (taken, s)"
  shows "hub_inv ports (with_session b i (\<lambda>_. s))"
proof (rule hub_inv_session [OF assms(1)])
  assume "ClientSession_inv (hp_session (peer_at b i))"
  then show "ClientSession_inv s \<and> below s (hp_session (peer_at b i))"
    using session.step_inv [of "hp_session (peer_at b i)" SessionTakeReliable] assms(2)
    by (auto simp: ClientSession_TakeReliableBinding_def below_refl below_freed split: option.splits)
qed

lemma hub_inv_SetFilters:
  assumes "hub_inv ports b" and "ClientSession_SetFilters (hp_session (peer_at b i)) channel filters n = (ok, s)"
  shows "hub_inv ports (with_session b i (\<lambda>_. s))"
proof (rule hub_inv_session [OF assms(1)])
  let ?s = "hp_session (peer_at b i)"
  assume inv: "ClientSession_inv ?s"
  have "below s ?s"
  proof (cases "session_findByChannel ?s channel")
    case (Some k)
    then have "k < length (cs_bindings ?s)"
      by (auto simp: session_findByChannel_def dest: find_index_SomeD)
    from below_update [OF this, of "\<lambda>x. let x = x\<lparr>cb_filter_count := n\<rparr> in
        if 0 < n then x\<lparr>cb_filters := array_copy (unat n) filters (cb_filters x)\<rparr> else x"]
    show ?thesis
      using assms(2) by (auto simp: ClientSession_SetFilters_def Some Let_def below_refl split: if_splits)
  qed (use assms(2) in \<open>simp add: ClientSession_SetFilters_def below_refl\<close>)
  then show "ClientSession_inv s \<and> below s ?s"
    using session.step_inv [OF inv, of "SessionSetFilters channel filters n"] assms(2) by simp
qed

lemma hub_inv_binding:
  assumes "hub_inv ports b" and "ClientSession_BindingForChannel (hp_session (peer_at b i)) channel = Some k"
    and "\<And>x. f x = x\<lparr>cb_frames_forwarded := n1 x, cb_frames_dropped := n2 x\<rparr>"
  shows "hub_inv ports (with_binding b i k f)"
  unfolding with_binding_def
proof (rule hub_inv_with_session [OF assms(1)])
  let ?s = "hp_session (peer_at b i)"
  let ?s' = "?s\<lparr>cs_bindings := (cs_bindings ?s)[k := f (cs_bindings ?s ! k)]\<rparr>"
  assume ok: "peer_ok ports b (peer_at b i)"
  then have inv: "ClientSession_inv ?s"
    by (simp add: peer_ok_def slot_ok_def)
  have k: "k < length (cs_bindings ?s)" "cb_in_use (cs_bindings ?s ! k)"
    using assms(2) by (auto simp: ClientSession_BindingForChannel_def session_findByChannel_def dest: find_index_SomeD)
  have "slots_distinct cb_in_use cb_channel ((cs_bindings ?s)[k := f (cs_bindings ?s ! k)])"
    using session_distinct [OF inv] k
    by (intro bindings.distinct_store) (auto simp: assms(3) bindings.distinct_iff)
  then have "ClientSession_inv ?s'"
    using inv k session_binding(1) [OF inv k(1)] by (intro session_inv_store) (simp_all add: filters_fit_def assms(3))
  moreover have "below ?s' ?s"
    using k by (intro below_update) (simp_all add: assms(3))
  ultimately show "peer_ok ports b ((peer_at b i)\<lparr>hp_session := ?s'\<rparr>)"
    by (rule peer_ok_below [OF ok])
qed

text \<open>Opening a channel: the only update that adds one.\<close>

lemma opened_bindings:
  assumes "ClientSession_inv s" and "x \<in> set (cs_bindings (snd (ClientSession_OpenInterface s r)))" and "cb_in_use x"
  shows "x \<in> set (cs_bindings s) \<or> (\<exists>c. x = opened_binding r c)"
proof -
  have "x \<in> ran (session_map (snd (ClientSession_OpenInterface s r)))"
    using session_ran [of "snd (ClientSession_OpenInterface s r)"] OpenInterface_spec [OF assms(1)] assms(2,3) by auto
  then have "x \<in> ran (session_map s) \<or> (\<exists>c. x = opened_binding r c)"
    using OpenInterface_spec [OF assms(1), of r]
    by (auto simp: session_abs_def Let_def ran_def split: if_splits)
  then show ?thesis
    using session_ran [OF assms(1)] by auto
qed

lemma opened_named:
  assumes "strlen (cor_agent_name r) < REGISTER_AGENT_NAME_SIZE" and "strlen (cor_interface_name r) < REGISTER_INTERFACE_NAME_SIZE"
  shows "cstr (cb_agent_name (opened_binding r c)) = cstr (cor_agent_name r)"
    "cstr (cb_interface_name (opened_binding r c)) = cstr (cor_interface_name r)"
  using assms by (simp_all add: opened_binding_def cstr_BoundedString_Copy strlen_def)

lemma now_allowed:
  "answer calls fingerprint_hex agent_name interface_name \<Longrightarrow> str_eq agent_name (cb_agent_name x) \<Longrightarrow>
   str_eq interface_name (cb_interface_name x) \<Longrightarrow> was_allowed answer calls fingerprint_hex x"
  unfolding was_allowed_def by (rule exI [of _ "length calls"]) auto

lemma hub_inv_OpenInterface:
  assumes inv: "hub_inv ports b" and client: "hp_in_use (peer_at b i)" "hp_role (peer_at b i) = kHUB_PEER_ROLE_CLIENT"
    and found: "InterfaceRegistry_FindById (bk_registry b) (cor_interface_id r) = Some e"
    and names: "cor_agent_name r = ie_agent_name e" "cor_interface_name r = ie_interface_name e"
    and allowed: "clientCanRead ports b (peer_at b i) e" "cor_can_write r \<Longrightarrow> clientCanWrite ports b (peer_at b i) e"
    and opened: "ClientSession_OpenInterface (hp_session (peer_at b i)) r = (channel, s)"
  shows "hub_inv ports (with_session b i (\<lambda>_. s))"
proof (rule hub_inv_with_session [OF inv])
  let ?p = "peer_at b i"
  assume ok: "peer_ok ports b ?p"
  then have session: "ClientSession_inv (hp_session ?p)"
    by (simp add: peer_ok_def slot_ok_def)
  have e: "e \<in> set (ir_entries (bk_registry b))" "ie_in_use e" "ie_interface_id e = cor_interface_id r"
    using found by (auto simp: InterfaceRegistry_FindById_def find_Some_iff)
  then have "strlen (ie_agent_name e) < REGISTER_AGENT_NAME_SIZE" "strlen (ie_interface_name e) < REGISTER_INTERFACE_NAME_SIZE"
    using hub_invD(2) [OF inv e(1)] by (simp_all add: entry_ok_def)
  then have named: "str_eq (ie_agent_name e) (cb_agent_name (opened_binding r c))"
      "str_eq (ie_interface_name e) (cb_interface_name (opened_binding r c))" for c
    using opened_named [of r c] names by (simp_all add: str_eq_def)
  have "resolves (bk_registry b) (opened_binding r c)" for c
    using e named [of c] by (auto simp: resolves_def namesMatch_def opened_binding_def)
  moreover have "authorized ports (bk_calls b) (hp_fingerprint_hex ?p) (opened_binding r c)" for c
    using allowed named [of c] unfolding clientCanRead_def clientCanWrite_def authorized_def
    by (auto simp: opened_binding_def intro: now_allowed split: if_splits option.splits)
  moreover have "x \<in> set (cs_bindings (hp_session ?p)) \<or> (\<exists>c. x = opened_binding r c)"
    if "x \<in> set (cs_bindings s)" "cb_in_use x" for x
    using opened_bindings [OF session, of x r] that opened by simp
  ultimately have "channels_ok ports (bk_registry b) (bk_calls b) (hp_fingerprint_hex ?p) s"
    using ok unfolding peer_ok_def channels_ok_def by blast
  moreover have "ClientSession_inv s"
    using session.step_inv [OF session, of "SessionOpen r"] opened by simp
  ultimately show "peer_ok ports b (?p\<lparr>hp_session := s\<rparr>)"
    using ok client by (auto simp: peer_ok_def slot_ok_def owners_ok_def)
qed

text \<open>Reattaching gives a dormant channel the interface of its names, with the rights of the moment.\<close>

lemma reattached_named:
  assumes "strn_eq n name (ie_name :: bytes)" and "strlen ie_name < n"
  shows "str_eq ie_name name"
proof -
  have "cstr (take n ie_name) = cstr ie_name"
    using assms(2) by (simp add: cstr_take strlen_def)
  then have "take n (cstr name) = cstr ie_name"
    using assms(1) by (simp add: strn_eq_def cstr_take)
  moreover from this have "length (cstr name) \<le> n"
    using assms(2) by (metis length_take min.absorb_iff2 min_def nat_less_le strlen_def not_le)
  ultimately show ?thesis
    by (simp add: str_eq_def)
qed

lemma reattached_authorized:
  assumes "authorized ports (bk_calls b) (hp_fingerprint_hex p) x"
    and "str_eq (ie_agent_name e) (cb_agent_name x)" "str_eq (ie_interface_name e) (cb_interface_name x)"
  shows "authorized ports (bk_calls b) (hp_fingerprint_hex p)
    (x\<lparr>cb_interface_id := i, cb_can_write := clientCanWrite ports b p e, cb_dormant := d\<rparr>)"
proof (cases "hp_fingerprint_hex p ! 0 = 0 \<or> hub_authorization ports = None")
  case False
  then obtain port where port: "hub_authorization ports = Some port" "hp_fingerprint_hex p ! 0 \<noteq> 0" by auto
  have "was_allowed answer calls fp (x\<lparr>cb_interface_id := i, cb_can_write := w, cb_dormant := d\<rparr>) = was_allowed answer calls fp x"
    for answer calls fp w
    by (simp add: was_allowed_def)
  moreover have "was_allowed (azp_write_allowed port) (bk_calls b) (hp_fingerprint_hex p) x" if "clientCanWrite ports b p e"
    using that port assms(2,3) by (auto simp: clientCanWrite_def intro: now_allowed)
  ultimately show ?thesis
    using assms(1) port by (simp add: authorized_def)
qed (auto simp: authorized_def)

lemma hub_inv_Reattach:
  assumes inv: "hub_inv ports b" and e: "e \<in> set (ir_entries (bk_registry b))" "ie_in_use e"
    and reattached: "ClientSession_ReattachInterface (hp_session (peer_at b i)) (ie_agent_name e) (ie_interface_name e)
      (ie_interface_id e) (clientCanWrite ports b (peer_at b i) e) = (r, s)"
  shows "hub_inv ports (with_session b i (\<lambda>_. s))"
proof (rule hub_inv_with_session [OF inv])
  let ?p = "peer_at b i"
  let ?f = "reattach_binding (ie_agent_name e) (ie_interface_name e) (ie_interface_id e) (clientCanWrite ports b ?p e)"
  assume ok: "peer_ok ports b ?p"
  have sizes: "strlen (ie_agent_name e) < REGISTER_AGENT_NAME_SIZE" "strlen (ie_interface_name e) < REGISTER_INTERFACE_NAME_SIZE"
    using hub_invD(2) [OF inv e(1)] e(2) by (simp_all add: entry_ok_def)
  have s: "cs_bindings s = map ?f (cs_bindings (hp_session ?p))"
    using reattached by (auto simp: ClientSession_ReattachInterface_def)
  have session: "ClientSession_inv s"
    using session.step_inv [of "hp_session ?p" "SessionReattach (ie_agent_name e) (ie_interface_name e) (ie_interface_id e)
      (clientCanWrite ports b ?p e)"] reattached ok by (simp add: peer_ok_def slot_ok_def)
  have "(cb_dormant (?f x) \<or> resolves (bk_registry b) (?f x)) \<and> authorized ports (bk_calls b) (hp_fingerprint_hex ?p) (?f x)"
    if x: "x \<in> set (cs_bindings (hp_session ?p))" "cb_in_use x" for x
  proof (cases "reattaches (ie_agent_name e) (ie_interface_name e) x")
    case True
    then have named: "str_eq (ie_agent_name e) (cb_agent_name x)" "str_eq (ie_interface_name e) (cb_interface_name x)"
      using reattached_named sizes by (auto simp: reattaches_def)
    have "authorized ports (bk_calls b) (hp_fingerprint_hex ?p) x"
      using ok x by (auto simp: peer_ok_def channels_ok_def)
    then have "authorized ports (bk_calls b) (hp_fingerprint_hex ?p) (?f x)"
      using reattached_authorized named True by (simp add: reattach_binding_def)
    moreover have "resolves (bk_registry b) (?f x)"
      using e named True by (auto simp: resolves_def namesMatch_def reattach_binding_def)
    ultimately show ?thesis by blast
  next
    case False
    then show ?thesis
      using ok x by (auto simp: peer_ok_def channels_ok_def reattach_binding_def)
  qed
  moreover have "cb_in_use (?f x) = cb_in_use x" for x
    by (simp add: reattach_binding_def)
  ultimately have "channels_ok ports (bk_registry b) (bk_calls b) (hp_fingerprint_hex ?p) s"
    and "ClientSession_HoldsChannels s = ClientSession_HoldsChannels (hp_session ?p)"
    by (simp_all add: channels_ok_def s ClientSession_HoldsChannels_def list_ex_iff)
  then show "peer_ok ports b (?p\<lparr>hp_session := s\<rparr>)"
    using ok session by (auto simp: peer_ok_def slot_ok_def owners_ok_def)
qed

section \<open>Updates of the tables\<close>

text \<open>
  The registry: what it may change depends on who registers, and the interfaces the channels are
  bound to stay.
\<close>

lemma hub_inv_registry:
  assumes "hub_inv ports b" and "length (ir_entries r) = INTERFACE_REGISTRY_MAX"
    and "\<And>e. e \<in> set (ir_entries r) \<Longrightarrow> entry_ok (connected_as b kHUB_PEER_ROLE_AGENT) e"
    and "\<And>i x. i < length (pd_peers (bk_directory b)) \<Longrightarrow> x \<in> set (cs_bindings (hp_session (peer_at b i))) \<Longrightarrow>
      cb_in_use x \<Longrightarrow> \<not> cb_dormant x \<Longrightarrow> resolves (bk_registry b) x \<Longrightarrow> resolves r x"
  shows "hub_inv ports (b\<lparr>bk_registry := r\<rparr>)"
proof (rule hub_inv_same_peers [OF assms(1)])
  fix i
  assume i: "i < length (pd_peers (bk_directory b))"
  then have "channels_ok ports r (bk_calls b) (hp_fingerprint_hex (peer_at b i)) (hp_session (peer_at b i))"
    using hub_inv_peer [OF assms(1) i] assms(4) unfolding peer_ok_def channels_ok_def by blast
  then show "slot_ok (peer_at (b\<lparr>bk_registry := r\<rparr>) i) \<and>
      owners_ok (connected_as b kHUB_PEER_ROLE_CLIENT) (peer_at (b\<lparr>bk_registry := r\<rparr>) i) \<and>
      channels_ok ports (bk_registry (b\<lparr>bk_registry := r\<rparr>)) (bk_calls (b\<lparr>bk_registry := r\<rparr>))
        (hp_fingerprint_hex (peer_at (b\<lparr>bk_registry := r\<rparr>) i)) (hp_session (peer_at (b\<lparr>bk_registry := r\<rparr>) i))"
    using hub_inv_peer [OF assms(1) i] by (simp add: peer_ok_def)
qed (use assms(2,3) hub_invD [OF assms(1)] in \<open>auto simp: same_peers_def tables_ok_def\<close>)

definition registered_as :: "InterfaceEntry \<Rightarrow> bool \<times> u32 \<times> u32 \<times> bytes \<times> bytes" where
  "registered_as e = (ie_in_use e, ie_interface_id e, ie_agent_peer_id e, ie_agent_name e, ie_interface_name e)"

text \<open>Counting, pacing and capabilities leave alone what an entry is registered as.\<close>

definition same_entries :: "InterfaceRegistry \<Rightarrow> InterfaceRegistry \<Rightarrow> bool" where
  "same_entries r r' \<longleftrightarrow> length (ir_entries r') = length (ir_entries r) \<and>
     (\<forall>i < length (ir_entries r). (ie_in_use (ir_entries r ! i) \<longrightarrow>
        registered_as (ir_entries r' ! i) = registered_as (ir_entries r ! i)) \<and>
      (\<not> ie_in_use (ir_entries r ! i) \<longrightarrow> ir_entries r' ! i = ir_entries r ! i))"

lemma same_entries_resolves: "same_entries r r' \<Longrightarrow> resolves r x \<Longrightarrow> resolves r' x"
  unfolding resolves_def same_entries_def
  by (auto simp: in_set_conv_nth Bex_def registered_as_def namesMatch_def)

lemma same_entries_ok:
  assumes "same_entries r r'" and "\<And>e. e \<in> set (ir_entries r) \<Longrightarrow> entry_ok agent e" and "e \<in> set (ir_entries r')"
  shows "entry_ok agent e"
proof -
  obtain i where i: "i < length (ir_entries r)" "e = ir_entries r' ! i"
    using assms(1,3) by (auto simp: in_set_conv_nth same_entries_def)
  then have "entry_ok agent (ir_entries r ! i)"
    using assms(2) by simp
  then show ?thesis
    using assms(1) i unfolding same_entries_def registered_as_def entry_ok_def InterfaceEntry_IsVirtual_def by (auto split: if_splits)
qed

lemma hub_inv_same_entries:
  assumes "hub_inv ports b" and "same_entries (bk_registry b) r"
  shows "hub_inv ports (b\<lparr>bk_registry := r\<rparr>)"
proof (rule hub_inv_registry [OF assms(1)])
  show "length (ir_entries r) = INTERFACE_REGISTRY_MAX"
    using hub_invD(1) [OF assms(1)] assms(2) by (simp add: same_entries_def)
  show "entry_ok (connected_as b kHUB_PEER_ROLE_AGENT) e" if "e \<in> set (ir_entries r)" for e
    using same_entries_ok [OF assms(2) _ that] hub_invD(2) [OF assms(1)] by blast
  show "resolves r x" if "resolves (bk_registry b) x" for x
    using same_entries_resolves [OF assms(2) that] .
qed

lemma same_entries_refl: "same_entries r r"
  by (simp add: same_entries_def)

lemma same_entries_update:
  assumes "find_index P (ir_entries r) = Some k" and "\<And>e. P e \<Longrightarrow> ie_in_use e" and "\<And>e. registered_as (f e) = registered_as e"
  shows "same_entries r (update_entry r k f)"
  using find_index_SomeD [OF assms(1)] assms(2,3) by (auto simp: same_entries_def update_entry_def nth_list_update)

lemma same_entries_CountFrame: "same_entries r (InterfaceRegistry_CountFrame r interface_id)"
  by (auto simp: InterfaceRegistry_CountFrame_def registered_as_def intro!: same_entries_refl elim!: same_entries_update split: option.split)

lemma same_entries_SetTxDropped: "same_entries r (InterfaceRegistry_SetTxDropped r agent channel n)"
  by (auto simp: InterfaceRegistry_SetTxDropped_def findMutableByAgentChannel_def registered_as_def
      intro!: same_entries_refl elim!: same_entries_update split: option.split)

lemma same_entries_ApplyAdvertisedRate: "same_entries r (InterfaceRegistry_ApplyAdvertisedRate r agent channel rate credit now)"
  by (auto simp: InterfaceRegistry_ApplyAdvertisedRate_def findMutableByAgentChannel_def registered_as_def pace_entry_def Let_def
      intro!: same_entries_refl elim!: same_entries_update split: option.split)

lemma same_entries_TryEgress: "same_entries r (snd (InterfaceRegistry_TryEgress r agent channel bits now))"
  by (auto simp: InterfaceRegistry_TryEgress_def findMutableByAgentChannel_def registered_as_def Let_def
      intro!: same_entries_refl elim!: same_entries_update split: option.split prod.split)

lemma same_entries_EgressDelayUs: "same_entries r (snd (InterfaceRegistry_EgressDelayUs r agent channel bits now))"
  by (auto simp: InterfaceRegistry_EgressDelayUs_def findMutableByAgentChannel_def registered_as_def Let_def
      intro!: same_entries_refl elim!: same_entries_update split: option.split prod.split)

lemma same_entries_SetFdCapable: "same_entries r (InterfaceRegistry_SetFdCapable r interface_id fd)"
  by (auto simp: same_entries_def InterfaceRegistry_SetFdCapable_def registered_as_def)

lemma hub_inv_counted [hub_intros]:
  "hub_inv ports b \<Longrightarrow> hub_inv ports (with_registry b (\<lambda>r. InterfaceRegistry_CountFrame r i))"
  "hub_inv ports b \<Longrightarrow> hub_inv ports (with_registry b (\<lambda>r. InterfaceRegistry_SetTxDropped r agent channel n))"
  "hub_inv ports b \<Longrightarrow> hub_inv ports (with_registry b (\<lambda>r. InterfaceRegistry_ApplyAdvertisedRate r agent channel rate credit now))"
  "hub_inv ports b \<Longrightarrow> hub_inv ports (with_registry b (\<lambda>r. InterfaceRegistry_SetFdCapable r i fd))"
  unfolding with_registry_def
  by (intro hub_inv_same_entries same_entries_CountFrame same_entries_SetTxDropped same_entries_ApplyAdvertisedRate
      same_entries_SetFdCapable; assumption)+

lemma hub_inv_TryEgress:
  "hub_inv ports b \<Longrightarrow> InterfaceRegistry_TryEgress (bk_registry b) agent channel bits now = (sent, r) \<Longrightarrow>
   hub_inv ports (b\<lparr>bk_registry := r\<rparr>)"
  using same_entries_TryEgress [of "bk_registry b" agent channel bits now] by (intro hub_inv_same_entries) simp_all

text \<open>A registration keeps every entry in use, and enters interfaces of the agent it is for.\<close>

definition registration_ok :: "RegisterMessage \<Rightarrow> bool" where
  "registration_ok q \<longleftrightarrow> strlen (reg_agent_name q) < REGISTER_AGENT_NAME_SIZE \<and>
     (\<forall>i < unat (reg_interface_count q). strlen (reg_interface_names q ! i) < REGISTER_INTERFACE_NAME_SIZE)"

lemma RemovePeer_kept:
  "e \<in> set (ir_entries r) \<Longrightarrow> ie_agent_peer_id e \<noteq> p \<Longrightarrow> e \<in> set (ir_entries (InterfaceRegistry_RemovePeer r p))"
  by (auto simp: InterfaceRegistry_RemovePeer_def image_iff)

lemma in_use_kept: "x \<in> set xs \<Longrightarrow> P x \<Longrightarrow> \<not> P (xs ! k) \<Longrightarrow> x \<in> set (xs[k := y])"
  by (auto simp: in_set_conv_nth) (metis nth_list_update_neq)

lemma entry_ok_zero: "entry_ok agent InterfaceEntry_zero"
  by (simp add: entry_ok_def InterfaceEntry_zero_def)

lemma register_interfaces_ok:
  assumes "agent p" "strlen (reg_agent_name q) < REGISTER_AGENT_NAME_SIZE"
    and "\<And>i. i \<in> set is \<Longrightarrow> strlen (reg_interface_names q ! i) < REGISTER_INTERFACE_NAME_SIZE"
    and "\<And>e. e \<in> set (ir_entries r) \<Longrightarrow> entry_ok agent e" and "r' = snd (snd (register_interfaces is p q r ack))"
  shows "length (ir_entries r') = length (ir_entries r) \<and> (\<forall>e \<in> set (ir_entries r'). entry_ok agent e) \<and>
    (\<forall>e \<in> set (ir_entries r). ie_in_use e \<longrightarrow> ie_agent_peer_id e \<noteq> p \<longrightarrow> e \<in> set (ir_entries r'))"
  using assms(3-5)
proof (induction "is" arbitrary: r ack)
  case (Cons i "is")
  show ?case
  proof (cases "findFreeEntry r")
    case None
    then show ?thesis
      using Cons.prems(2,3) RemovePeer_kept [of _ r p]
      by (auto simp: InterfaceRegistry_RemovePeer_def entry_ok_zero)
  next
    case (Some k)
    define e where "e = (ir_entries r ! k)\<lparr>ie_in_use := True, ie_interface_id := ir_next_interface_id r, ie_agent_peer_id := p,
      ie_agent_channel := of_nat i, ie_fd_reported := reg_fd_reported q, ie_fd_capable := bit (reg_fd_interfaces q) i,
      ie_agent_name := reg_agent_name q, ie_interface_name := reg_interface_names q ! i\<rparr>"
    define r1 where "r1 = r\<lparr>ir_entries := (ir_entries r)[k := e], ir_next_interface_id := ir_next_interface_id r + 1\<rparr>"
    have k: "k < length (ir_entries r)" "\<not> ie_in_use (ir_entries r ! k)"
      using Some by (auto simp: findFreeEntry_def dest: find_index_SomeD)
    have r': "r' = snd (snd (register_interfaces is p q r1 (ack\<lparr>rack_channels := (rack_channels ack)[i := ie_agent_channel e]\<rparr>)))"
      using Cons.prems(3) Some by (simp add: Let_def e_def r1_def)
    have "entry_ok agent e"
      using assms(1,2) Cons.prems(1) by (simp add: entry_ok_def e_def)
    then have "entry_ok agent f" if "f \<in> set (ir_entries r1)" for f
      using that Cons.prems(2) set_update_subset_insert [of "ir_entries r" k e] by (auto simp: r1_def)
    moreover have "f \<in> set (ir_entries r1)" if "f \<in> set (ir_entries r)" "ie_in_use f" for f
      using in_use_kept [of f _ ie_in_use] that k by (simp add: r1_def)
    ultimately show ?thesis
      using Cons.IH [OF _ _ r'] Cons.prems(1) by (auto simp: r1_def)
  qed
qed simp

lemma RegisterAgent_ok:
  assumes "agent p" "registration_ok q" and "\<And>e. e \<in> set (ir_entries r) \<Longrightarrow> entry_ok agent e"
    and "InterfaceRegistry_RegisterAgent r p q = (ok, ack, r')"
  shows "length (ir_entries r') = length (ir_entries r)" and "e \<in> set (ir_entries r') \<Longrightarrow> entry_ok agent e"
    and "e \<in> set (ir_entries r) \<Longrightarrow> ie_in_use e \<Longrightarrow> e \<in> set (ir_entries r')"
proof -
  have "length (ir_entries r') = length (ir_entries r) \<and> (\<forall>e \<in> set (ir_entries r'). entry_ok agent e) \<and>
    (\<forall>e \<in> set (ir_entries r). ie_in_use e \<longrightarrow> e \<in> set (ir_entries r'))"
  proof (cases "isPeerRegistered r p \<or> isRegistrationColliding r q")
    case True
    then show ?thesis
      using assms(3,4) by (auto simp: InterfaceRegistry_RegisterAgent_def Let_def split: if_splits)
  next
    case False
    then have "r' = snd (snd (register_interfaces [0..<unat (reg_interface_count q)] p q r
        \<lparr>rack_status = 0, rack_interface_count = reg_interface_count q, rack_channels = replicate REGISTER_INTERFACES_MAX 0\<rparr>))"
      using assms(4) by (simp add: InterfaceRegistry_RegisterAgent_def Let_def)
    moreover have "ie_agent_peer_id e \<noteq> p" if "e \<in> set (ir_entries r)" "ie_in_use e" for e
      using False that by (auto simp: isPeerRegistered_def list_ex_iff)
    ultimately show ?thesis
      using register_interfaces_ok [of agent p q "[0..<unat (reg_interface_count q)]" r r'] assms(1-3)
      unfolding registration_ok_def by auto
  qed
  then show "length (ir_entries r') = length (ir_entries r)" and "e \<in> set (ir_entries r') \<Longrightarrow> entry_ok agent e"
    and "e \<in> set (ir_entries r) \<Longrightarrow> ie_in_use e \<Longrightarrow> e \<in> set (ir_entries r')"
    by blast+
qed

lemma hub_inv_entries_kept:
  assumes "hub_inv ports b" and "length (ir_entries r) = length (ir_entries (bk_registry b))"
    and "\<And>e. e \<in> set (ir_entries r) \<Longrightarrow> entry_ok (connected_as b kHUB_PEER_ROLE_AGENT) e"
    and "\<And>e. e \<in> set (ir_entries (bk_registry b)) \<Longrightarrow> ie_in_use e \<Longrightarrow> e \<in> set (ir_entries r)"
  shows "hub_inv ports (b\<lparr>bk_registry := r\<rparr>)"
  using assms hub_invD(1) [OF assms(1)] by (intro hub_inv_registry) (auto simp: resolves_def)

lemma hub_inv_register_agent:
  assumes "hub_inv ports b" and "connected_as b kHUB_PEER_ROLE_AGENT p" "registration_ok q"
    and "register_agent b p q = (ok, ack, c)"
  shows "hub_inv ports c"
proof -
  obtain r where r: "InterfaceRegistry_RegisterAgent (bk_registry b) p q = (ok, ack, r)" "c = b\<lparr>bk_registry := r\<rparr>"
    using assms(4) by (auto simp: register_agent_def split: prod.splits)
  show ?thesis
    unfolding r(2) using RegisterAgent_ok [of "connected_as b kHUB_PEER_ROLE_AGENT", OF assms(2,3) hub_invD(2) [OF assms(1)] r(1)]
    by (intro hub_inv_entries_kept [OF assms(1)]) blast+
qed

lemma strlen_terminated: "i < length name \<Longrightarrow> name ! i = 0 \<Longrightarrow> strlen name \<le> i"
  using nth_cstr [of i name] cstr_no_nul [of name] by (metis not_le nth_mem strlen_def)

lemma decoded_registration_ok:
  assumes "RegisterMessage_Decode RegisterMessage_zero payload = (True, q)"
  shows "registration_ok q"
proof -
  have "RegisterMessage_wf RegisterMessage_zero"
    by (simp add: RegisterMessage_wf_def RegisterMessage_zero_def list_all_iff)
  note wf = register_decoded_ok [OF this assms]
  have "strlen (reg_interface_names q ! i) < REGISTER_INTERFACE_NAME_SIZE" if i: "i < unat (reg_interface_count q)" for i
  proof -
    have "i < length (reg_interface_names q)"
      using i wf by (simp add: RegisterMessage_wf_def RegisterMessage_valid_def)
    then have "length (reg_interface_names q ! i) = REGISTER_INTERFACE_NAME_SIZE" "reg_interface_names q ! i ! 15 = 0"
      using wf i unfolding RegisterMessage_wf_def RegisterMessage_valid_def areInterfaceNamesValid_def
      by (auto simp: list_all_length)
    then show ?thesis
      using strlen_terminated [of 15 "reg_interface_names q ! i"] by simp
  qed
  moreover have "strlen (reg_agent_name q) < REGISTER_AGENT_NAME_SIZE"
    using wf strlen_terminated [of 127 "reg_agent_name q"] by (simp add: RegisterMessage_wf_def RegisterMessage_valid_def)
  ultimately show ?thesis
    by (simp add: registration_ok_def)
qed

lemma hub_inv_AddVirtual:
  assumes "hub_inv ports b" and "InterfaceRegistry_AddVirtual (bk_registry b) agent_name name = (added, r)"
  shows "hub_inv ports (b\<lparr>bk_registry := r\<rparr>)" and "added = Some e \<Longrightarrow> e \<in> set (ir_entries r) \<and> ie_in_use e"
proof -
  have "hub_inv ports (b\<lparr>bk_registry := r\<rparr>) \<and> (\<forall>e. added = Some e \<longrightarrow> e \<in> set (ir_entries r) \<and> ie_in_use e)"
  proof (cases "added")
    case None
    then show ?thesis
      using assms by (auto simp: InterfaceRegistry_AddVirtual_def Let_def split: if_splits option.splits)
  next
    case (Some e)
    then obtain k where k: "findFreeEntry (bk_registry b) = Some k"
      and e: "e = (ir_entries (bk_registry b) ! k)\<lparr>ie_in_use := True, ie_interface_id := ir_next_interface_id (bk_registry b),
        ie_agent_peer_id := INTERFACE_REGISTRY_HUB_PEER,
        ie_agent_name := BoundedString_Copy (ie_agent_name (ir_entries (bk_registry b) ! k)) (Some agent_name),
        ie_interface_name := BoundedString_Copy (ie_interface_name (ir_entries (bk_registry b) ! k)) (Some name)\<rparr>"
      and r: "ir_entries r = (ir_entries (bk_registry b))[k := e]"
      using assms(2) by (auto simp: InterfaceRegistry_AddVirtual_def Let_def split: if_splits option.splits)
    have free: "k < length (ir_entries (bk_registry b))" "\<not> ie_in_use (ir_entries (bk_registry b) ! k)"
      using k by (auto simp: findFreeEntry_def dest: find_index_SomeD)
    then have "ir_entries (bk_registry b) ! k = InterfaceEntry_zero"
      using hub_invD(2) [OF assms(1) nth_mem [OF free(1)]] by (simp add: entry_ok_def)
    then have "entry_ok (connected_as b kHUB_PEER_ROLE_AGENT) e"
      by (simp add: e entry_ok_def InterfaceEntry_IsVirtual_def InterfaceEntry_zero_def strlen_def cstr_BoundedString_Copy
          min.strict_coboundedI2)
    then have "hub_inv ports (b\<lparr>bk_registry := r\<rparr>)"
      using set_update_subset_insert [of "ir_entries (bk_registry b)" k e] hub_invD(2) [OF assms(1)] free
      by (intro hub_inv_entries_kept [OF assms(1)]) (auto simp: r intro: in_use_kept [of _ _ ie_in_use])
    moreover have "e \<in> set (ir_entries r)" "ie_in_use e"
      using free(1) by (simp_all add: r e set_update_memI)
    ultimately show ?thesis
      using Some by simp
  qed
  then show "hub_inv ports (b\<lparr>bk_registry := r\<rparr>)" and "added = Some e \<Longrightarrow> e \<in> set (ir_entries r) \<and> ie_in_use e"
    by simp_all
qed

text \<open>Entries go away only when no channel is attached to them.\<close>

definition detached :: "Broker \<Rightarrow> u32 \<Rightarrow> bool" where
  "detached b interface_id \<longleftrightarrow> (\<forall>p \<in> set (pd_peers (bk_directory b)). \<forall>x \<in> set (cs_bindings (hp_session p)).
     \<not> attached interface_id x)"

lemma hub_inv_removed:
  assumes "hub_inv ports b" and "\<And>e. e \<in> set (ir_entries (bk_registry b)) \<Longrightarrow> ie_in_use e \<Longrightarrow> gone e \<Longrightarrow> detached b (ie_interface_id e)"
  shows "hub_inv ports (with_registry b (\<lambda>r. r\<lparr>ir_entries := map (\<lambda>e. if ie_in_use e \<and> gone e then InterfaceEntry_zero else e) (ir_entries r)\<rparr>))"
  unfolding with_registry_def
proof (rule hub_inv_registry [OF assms(1)], goal_cases)
  case 1
  then show ?case using hub_invD(1) [OF assms(1)] by simp
next
  case (2 e)
  then show ?case using hub_invD(2) [OF assms(1)] by (auto simp: entry_ok_zero split: if_splits)
next
  case (3 i x)
  then obtain e where e: "e \<in> set (ir_entries (bk_registry b))" "ie_in_use e" "ie_interface_id e = cb_interface_id x"
    "namesMatch e (cb_agent_name x) (cb_interface_name x)"
    by (auto simp: resolves_def)
  have "attached (ie_interface_id e) x"
    using 3 e by (simp add: attached_def)
  then have "\<not> gone e"
    using assms(2) [OF e(1,2)] 3(1,2) nth_mem [OF 3(1)] unfolding detached_def by blast
  then show ?case
    using e by (auto simp: resolves_def)
qed

lemma hub_inv_RemovePeer:
  assumes "hub_inv ports b" and "\<And>e. e \<in> set (ir_entries (bk_registry b)) \<Longrightarrow> ie_in_use e \<Longrightarrow> ie_agent_peer_id e = p \<Longrightarrow>
      detached b (ie_interface_id e)"
  shows "hub_inv ports (with_registry b (\<lambda>r. InterfaceRegistry_RemovePeer r p))"
  using hub_inv_removed [OF assms(1), of "\<lambda>e. ie_agent_peer_id e = p"] assms(2) unfolding InterfaceRegistry_RemovePeer_def by blast

lemma hub_inv_RemoveVirtual:
  assumes "hub_inv ports b" and "detached b interface_id"
  shows "hub_inv ports (with_registry b (\<lambda>r. InterfaceRegistry_RemoveVirtual r interface_id))"
  using hub_inv_removed [OF assms(1), of "\<lambda>e. ie_interface_id e = interface_id \<and> InterfaceEntry_IsVirtual e"] assms(2)
  unfolding InterfaceRegistry_RemoveVirtual_def by blast

text \<open>Transactions.\<close>

lemma hub_inv_transactions:
  assumes "hub_inv ports b" and "TransactionTable_inv t"
    and "\<And>x. x \<in> set (tt_entries t) \<Longrightarrow> isInUse x \<Longrightarrow> connected_as b kHUB_PEER_ROLE_AGENT (rt_agent_peer_id x) \<and>
      (rt_client_peer_id x = TRANSACTION_NO_CLIENT \<or> connected_as b kHUB_PEER_ROLE_CLIENT (rt_client_peer_id x))"
  shows "hub_inv ports (b\<lparr>bk_transactions := t\<rparr>)"
  using assms(2,3) hub_inv_peer [OF assms(1)] hub_invD [OF assms(1)]
  by (intro hub_inv_same_peers [OF assms(1)]) (auto simp: same_peers_def tables_ok_def peer_ok_def)

lemma TransactionTable_store:
  assumes "TransactionTable_inv t" and "i < length (tt_entries t)"
    and "isInUse x \<Longrightarrow> isInUse (tt_entries t ! i) \<and> rt_agent_peer_id x = rt_agent_peer_id (tt_entries t ! i)"
    and "n = tt_active_leases t + (if holdsLease x then 1 else 0) - (if holdsLease (tt_entries t ! i) then 1 else 0)"
  shows "TransactionTable_inv (t\<lparr>tt_entries := (tt_entries t)[i := x], tt_active_leases := n\<rparr>)"
proof -
  have "slots_distinct isInUse rt_agent_peer_id ((tt_entries t)[i := x])"
    using assms(1-3) by (intro transactions.distinct_store) (auto simp: TransactionTable_inv_def transactions.distinct_iff)
  then show ?thesis
    using assms leases_update [OF assms(2), of x] by (auto simp: TransactionTable_inv_def split: if_splits)
qed

lemma Close_inv:
  assumes "TransactionTable_inv t" and "i < length (tt_entries t)"
  shows "TransactionTable_inv (TransactionTable_Close t i)"
proof -
  have "\<not> holdsLease RelayedTransaction_zero" "\<not> isInUse RelayedTransaction_zero"
    by (simp_all add: holdsLease_def isInUse_def RelayedTransaction_zero_def)
  moreover have "0 < tt_active_leases t \<and> tt_active_leases t \<le> 512" if "holdsLease (tt_entries t ! i)"
    using assms that leases_update [OF assms(2), of "tt_entries t ! i"] length_filter_le [of holdsLease "tt_entries t"]
      filter_empty_conv [of holdsLease "tt_entries t"] nth_mem [OF assms(2)]
    by (auto simp: TransactionTable_inv_def length_greater_0_conv)
  ultimately show ?thesis
    using TransactionTable_store [OF assms, of RelayedTransaction_zero]
    by (auto simp: TransactionTable_Close_def Let_def wrap_dec_pos TransactionTable_inv_def)
qed

lemma hub_inv_close_transaction [hub_intros]:
  assumes "hub_inv ports b" and "i < length (tt_entries (bk_transactions b))"
  shows "hub_inv ports (close_transaction b i)"
  unfolding close_transaction_def
proof (rule hub_inv_transactions [OF assms(1)])
  show "TransactionTable_inv (TransactionTable_Close (bk_transactions b) i)"
    using Close_inv hub_invD(3) [OF assms(1)] assms(2) by blast
  fix x
  assume x: "x \<in> set (tt_entries (TransactionTable_Close (bk_transactions b) i))" "isInUse x"
  then have "x \<in> insert RelayedTransaction_zero (set (tt_entries (bk_transactions b)))"
    using set_update_subset_insert [of "tt_entries (bk_transactions b)" i RelayedTransaction_zero]
    by (auto simp: TransactionTable_Close_def Let_def split: if_splits)
  moreover have "\<not> isInUse RelayedTransaction_zero"
    by (simp add: isInUse_def RelayedTransaction_zero_def)
  ultimately have "x \<in> set (tt_entries (bk_transactions b))"
    using x(2) by auto
  then show "connected_as b kHUB_PEER_ROLE_AGENT (rt_agent_peer_id x) \<and>
      (rt_client_peer_id x = TRANSACTION_NO_CLIENT \<or> connected_as b kHUB_PEER_ROLE_CLIENT (rt_client_peer_id x))"
    using hub_invD(4) [OF assms(1)] x(2) by blast
qed

lemma hub_inv_with_transaction:
  assumes "hub_inv ports b" and "i < length (tt_entries (bk_transactions b))"
    and "\<And>t. rt_state (f t) = rt_state t \<and> rt_exclusive (f t) = rt_exclusive t \<and> rt_agent_peer_id (f t) = rt_agent_peer_id t \<and>
      (rt_client_peer_id (f t) = rt_client_peer_id t \<or> rt_client_peer_id (f t) = TRANSACTION_NO_CLIENT)"
  shows "hub_inv ports (with_transaction b i f)"
  unfolding with_transaction_def
proof (rule hub_inv_transactions [OF assms(1)])
  let ?t = "bk_transactions b"
  have same: "isInUse (f t) = isInUse t" "holdsLease (f t) = holdsLease t" for t
    using assms(3) [of t] by (simp_all add: isInUse_def holdsLease_def)
  show "TransactionTable_inv (?t\<lparr>tt_entries := (tt_entries ?t)[i := f (tt_entries ?t ! i)]\<rparr>)"
    using TransactionTable_store [OF hub_invD(3) [OF assms(1)] assms(2), of "f (tt_entries ?t ! i)" "tt_active_leases ?t"]
      assms(3) [of "tt_entries ?t ! i"] by (simp add: same)
  fix x
  assume x: "x \<in> set (tt_entries (?t\<lparr>tt_entries := (tt_entries ?t)[i := f (tt_entries ?t ! i)]\<rparr>))" "isInUse x"
  then have "x \<in> insert (f (tt_entries ?t ! i)) (set (tt_entries ?t))"
    using set_update_subset_insert [of "tt_entries ?t" i "f (tt_entries ?t ! i)"] by auto
  then obtain y where y: "y \<in> set (tt_entries ?t)" "x = y \<or> x = f y"
    using nth_mem [OF assms(2)] by blast
  then have "isInUse y"
    using x(2) same by auto
  then show "connected_as b kHUB_PEER_ROLE_AGENT (rt_agent_peer_id x) \<and>
      (rt_client_peer_id x = TRANSACTION_NO_CLIENT \<or> connected_as b kHUB_PEER_ROLE_CLIENT (rt_client_peer_id x))"
    using hub_invD(4) [OF assms(1) y(1)] y(2) assms(3) [of y] by auto
qed

lemma hub_inv_Activate:
  assumes inv: "hub_inv ports b" and found: "TransactionTable_ForAgent (bk_transactions b) agent = Some i"
    and pending: "rt_state (transaction_at b i) = kTRANSACTION_RELAY_STATE_PENDING"
  shows "hub_inv ports (b\<lparr>bk_transactions := TransactionTable_Activate (bk_transactions b) i txn_id\<rparr>)"
proof (rule hub_inv_transactions [OF inv])
  let ?t = "bk_transactions b"
  show "TransactionTable_inv (TransactionTable_Activate ?t i txn_id)"
    using Grant_spec [OF hub_invD(3) [OF inv] found pending] by blast
  have i: "i < length (tt_entries ?t)" "isInUse (tt_entries ?t ! i)"
    using found by (auto simp: TransactionTable_ForAgent_def dest: find_index_SomeD)
  let ?x = "(tt_entries ?t ! i)\<lparr>rt_state := kTRANSACTION_RELAY_STATE_ACTIVE, rt_txn_id := txn_id\<rparr>"
  fix x
  assume x: "x \<in> set (tt_entries (TransactionTable_Activate ?t i txn_id))" "isInUse x"
  then have "x \<in> insert ?x (set (tt_entries ?t))"
    using set_update_subset_insert [of "tt_entries ?t" i ?x] by (auto simp: TransactionTable_Activate_def Let_def split: if_splits)
  then show "connected_as b kHUB_PEER_ROLE_AGENT (rt_agent_peer_id x) \<and>
      (rt_client_peer_id x = TRANSACTION_NO_CLIENT \<or> connected_as b kHUB_PEER_ROLE_CLIENT (rt_client_peer_id x))"
    using hub_invD(4) [OF inv nth_mem [OF i(1)] i(2)] hub_invD(4) [OF inv _ x(2)] by auto
qed

lemma hub_inv_open_transaction:
  assumes inv: "hub_inv ports b" and opened: "open_transaction b q = (ok, c)"
    and refs: "connected_as b kHUB_PEER_ROLE_AGENT (rt_agent_peer_id q)" "connected_as b kHUB_PEER_ROLE_CLIENT (rt_client_peer_id q)"
  shows "hub_inv ports c"
proof -
  let ?t = "snd (TransactionTable_Open (bk_transactions b) q)"
  let ?q = "q\<lparr>rt_state := kTRANSACTION_RELAY_STATE_PENDING\<rparr>"
  have c: "c = b\<lparr>bk_transactions := ?t\<rparr>"
    using opened by (auto simp: open_transaction_def split: prod.splits)
  have "TransactionTable_inv ?t"
    using Open_spec [OF hub_invD(3) [OF inv]] by blast
  moreover have "x \<in> insert ?q (set (tt_entries (bk_transactions b)))" if "x \<in> set (tt_entries ?t)" for x
    using that set_update_subset_insert [of "tt_entries (bk_transactions b)" _ ?q]
    by (auto simp: TransactionTable_Open_def split: if_splits option.splits)
  ultimately show ?thesis
    unfolding c using refs hub_invD(4) [OF inv] by (intro hub_inv_transactions [OF inv]) (blast, fastforce)
qed

text \<open>Pending configurations, bridges, groups and rejections.\<close>

lemma hub_inv_pending:
  assumes "hub_inv ports b" and "length qs = length (bk_pending_ifconfig b)"
    and "\<And>q. q \<in> set qs \<Longrightarrow> pi_in_use q \<Longrightarrow>
      connected_as b kHUB_PEER_ROLE_AGENT (pi_agent_peer_id q) \<and> connected b (pi_requester_peer_id q)"
  shows "hub_inv ports (b\<lparr>bk_pending_ifconfig := qs\<rparr>)"
  using assms(2,3) hub_inv_peer [OF assms(1)] hub_invD [OF assms(1)]
  by (intro hub_inv_same_peers [OF assms(1)]) (auto simp: same_peers_def tables_ok_def peer_ok_def)

lemma hub_inv_forget_pending [hub_intros]:
  assumes "hub_inv ports b"
  shows "hub_inv ports (forget_pending b i)"
  unfolding forget_pending_def
proof (rule hub_inv_pending [OF assms])
  let ?q = "(bk_pending_ifconfig b ! i)\<lparr>pi_in_use := False\<rparr>"
  fix q
  assume "q \<in> set ((bk_pending_ifconfig b)[i := ?q])" and used: "pi_in_use q"
  then have "q \<in> set (bk_pending_ifconfig b)"
    using set_update_subset_insert [of "bk_pending_ifconfig b" i ?q] by auto
  then show "connected_as b kHUB_PEER_ROLE_AGENT (pi_agent_peer_id q) \<and> connected b (pi_requester_peer_id q)"
    using hub_invD(6) [OF assms] used by blast
qed simp

lemma hub_inv_tables:
  assumes "hub_inv ports b" and "BridgeRoutes_inv routes" "BridgeGroups_inv groups" "RejectedPeers_inv rejected"
  shows "hub_inv ports (b\<lparr>bk_bridges := routes, bk_groups := groups, bk_rejected_peers := rejected\<rparr>)"
  using assms(2-4) hub_inv_peer [OF assms(1)] hub_invD [OF assms(1)]
  by (intro hub_inv_same_peers [OF assms(1)]) (auto simp: same_peers_def tables_ok_def peer_ok_def)

lemma hub_inv_bridges: "hub_inv ports b \<Longrightarrow> BridgeRoutes_inv routes \<Longrightarrow> hub_inv ports (b\<lparr>bk_bridges := routes\<rparr>)"
  using hub_inv_tables [of ports b routes "bk_groups b" "bk_rejected_peers b"] hub_invD(7) [of ports b]
  by (simp add: tables_ok_def)

lemma hub_inv_groups: "hub_inv ports b \<Longrightarrow> BridgeGroups_inv groups \<Longrightarrow> hub_inv ports (b\<lparr>bk_groups := groups\<rparr>)"
  using hub_inv_tables [of ports b "bk_bridges b" groups "bk_rejected_peers b"] hub_invD(7) [of ports b]
  by (simp add: tables_ok_def)

lemma hub_inv_rejected: "hub_inv ports b \<Longrightarrow> RejectedPeers_inv rejected \<Longrightarrow> hub_inv ports (b\<lparr>bk_rejected_peers := rejected\<rparr>)"
  using hub_inv_tables [of ports b "bk_bridges b" "bk_groups b" rejected] hub_invD(7) [of ports b]
  by (simp add: tables_ok_def)

lemma hub_inv_tablesD:
  "hub_inv ports b \<Longrightarrow> BridgeRoutes_inv (bk_bridges b)" "hub_inv ports b \<Longrightarrow> BridgeGroups_inv (bk_groups b)"
  "hub_inv ports b \<Longrightarrow> RejectedPeers_inv (bk_rejected_peers b)"
  using hub_invD(7) by (auto simp: tables_ok_def)

lemma map_filter_cong:
  assumes "map (\<lambda>x. (P x, k x)) ys = map (\<lambda>x. (P x, k x)) xs"
  shows "map k (filter P ys) = map k (filter P xs)"
proof -
  have "map k (filter P zs) = map snd (filter fst (map (\<lambda>x. (P x, k x)) zs))" for zs
    by (induction zs) simp_all
  then show ?thesis
    using assms by simp
qed

lemma hub_inv_bump [hub_intros]:
  assumes "hub_inv ports b"
  shows "hub_inv ports (bump f g counters b)"
proof (cases counters)
  case (RouteCounters i)
  let ?s = "brt_slots (bk_bridges b)"
  let ?x = "(?s ! i)\<lparr>brs_forwarded := f (brs_forwarded (?s ! i)), brs_dropped := g (brs_dropped (?s ! i))\<rparr>"
  have "map (\<lambda>x. (brs_in_use x, slot_route_key x)) (?s[i := ?x]) = map (\<lambda>x. (brs_in_use x, slot_route_key x)) ?s"
    by (rule map_list_update_same) simp
  then have "map slot_route_key (filter brs_in_use (?s[i := ?x])) = map slot_route_key (filter brs_in_use ?s)"
    by (rule map_filter_cong)
  moreover from this have "length (filter brs_in_use (?s[i := ?x])) = length (filter brs_in_use ?s)"
    by (rule map_eq_imp_length_eq)
  ultimately show ?thesis
    using hub_inv_tablesD(1) [OF assms] hub_inv_bridges [OF assms]
    by (simp add: bump_def RouteCounters BridgeRoutes_inv_def slots_distinct_def)
next
  case (GroupCounters i)
  let ?s = "bgt_slots (bk_groups b)"
  let ?x = "(?s ! i)\<lparr>bgs_forwarded := f (bgs_forwarded (?s ! i)), bgs_dropped := g (bgs_dropped (?s ! i))\<rparr>"
  have same: "map bgs_group (?s[i := ?x]) = map bgs_group ?s"
    by (rule map_list_update_same) simp
  have "map (\<lambda>x. (bgs_in_use x, group_key x)) (?s[i := ?x]) = map (\<lambda>x. (bgs_in_use x, group_key x)) ?s"
    by (rule map_list_update_same) simp
  then have "map group_key (filter bgs_in_use (?s[i := ?x])) = map group_key (filter bgs_in_use ?s)"
    by (rule map_filter_cong)
  moreover from this have "length (filter bgs_in_use (?s[i := ?x])) = length (filter bgs_in_use ?s)"
    by (rule map_eq_imp_length_eq)
  moreover have "(\<forall>x \<in> set (?s[i := ?x]). group_ok (bgs_group x)) \<longleftrightarrow> (\<forall>x \<in> set ?s. group_ok (bgs_group x))"
    using arg_cong [OF same, of "\<lambda>gs. \<forall>g \<in> set gs. group_ok g"] by simp
  ultimately show ?thesis
    using hub_inv_tablesD(2) [OF assms] hub_inv_groups [OF assms]
    by (simp add: bump_def GroupCounters BridgeGroups_inv_def slots_distinct_def)
qed

text \<open>Echo tokens.\<close>

lemma hub_inv_echo_tokens:
  assumes "hub_inv ports b" and "EchoTokens_inv (hp_echo_tokens (peer_at b i)) \<Longrightarrow> EchoTokens_inv tokens"
    and "set (et_owner_peer_ids tokens) \<subseteq> {NO_OWNER} \<union> new \<union> set (et_owner_peer_ids (hp_echo_tokens (peer_at b i)))"
    and "\<And>owner. owner \<in> new \<Longrightarrow> owner = ECHO_TOKENS_BRIDGE_OWNER \<or> connected_as b kHUB_PEER_ROLE_CLIENT owner"
    and "new \<noteq> {} \<Longrightarrow> hp_in_use (peer_at b i) \<and> hp_role (peer_at b i) = kHUB_PEER_ROLE_AGENT"
  shows "hub_inv ports (with_peer b i (\<lambda>p. p\<lparr>hp_echo_tokens := tokens\<rparr>))"
  using assms(2-5) by (intro hub_inv_with_peer [OF assms(1)]) (auto simp: peer_ok_def slot_ok_def owners_ok_def)

lemma Issue_owners: "set (et_owner_peer_ids (snd (EchoTokens_Issue s owner))) \<subseteq> insert owner (set (et_owner_peer_ids s))"
  using set_update_subset_insert [of "et_owner_peer_ids s" _ owner]
  by (auto simp: EchoTokens_Issue_def claimFreeIndex_def split: option.splits prod.splits)

lemma hub_inv_issue_token:
  assumes "hub_inv ports b" and "hp_in_use (peer_at b i)" "hp_role (peer_at b i) = kHUB_PEER_ROLE_AGENT"
    and "owner = ECHO_TOKENS_BRIDGE_OWNER \<or> connected_as b kHUB_PEER_ROLE_CLIENT owner"
    and "issue_token b i owner = (token, c)"
  shows "hub_inv ports c"
proof -
  let ?s = "hp_echo_tokens (peer_at b i)"
  have c: "c = with_peer b i (\<lambda>p. p\<lparr>hp_echo_tokens := snd (EchoTokens_Issue ?s owner)\<rparr>)"
    using assms(5) by (auto simp: issue_token_def split: prod.splits)
  show ?thesis
    unfolding c using assms(1-4) Issue_owners [of ?s owner] echo.step_inv [of ?s "EchoIssue owner"]
    by (intro hub_inv_echo_tokens [where new = "{owner}"]) auto
qed

end
