(* ===== verification/BrokerCleanup.thy ===== *)
theory BrokerCleanup
  imports BrokerInvariant
begin

text \<open>
  The clean-up paths keep \<open>hub_inv\<close>: the end of a transaction, the channels of a client, interfaces
  that come and go, and the end of a peer, which may leave nothing behind that names it.
\<close>

section \<open>Loops\<close>

text \<open>Whatever every round of a loop upholds, the loop upholds.\<close>

interpretation upholds: hub_preorder "\<lambda>b c. I b \<longrightarrow> I c" for I :: "Broker \<Rightarrow> bool"
  by unfold_locales blast+

lemma upholds_each_peer:
  assumes "I b" and "\<And>i b. I b \<Longrightarrow> i < PEER_DIRECTORY_MAX \<Longrightarrow> hp_in_use (peer_at b i) \<Longrightarrow> I (f i b)"
  shows "I (each_peer f b)"
proof -
  have "I b \<longrightarrow> I (each_peer f b)"
    by (rule upholds.each_peer_closed) (blast intro: assms(2))
  then show ?thesis using assms(1) by blast
qed

lemma upholds_fold:
  assumes "I b" and "\<And>i b. I b \<Longrightarrow> i \<in> set is \<Longrightarrow> I (f i b)"
  shows "I (fold f is b)"
  using assms by (induction "is" arbitrary: b) simp_all

lemma upholds_each_interface:
  assumes "I b" and "\<And>i b. I b \<Longrightarrow> i < INTERFACE_REGISTRY_MAX \<Longrightarrow> ie_in_use (ir_entries (bk_registry b) ! i) \<Longrightarrow>
      ie_agent_peer_id (ir_entries (bk_registry b) ! i) = agent \<Longrightarrow> I (f (ir_entries (bk_registry b) ! i) b)"
  shows "I (each_interface agent f b)"
proof -
  have "I b \<longrightarrow> I (each_interface agent f b)"
    by (rule upholds.each_interface_closed) (intro impI assms(2))
  then show ?thesis using assms(1) by blast
qed

text \<open>A loop that changes every peer by itself is one map over the directory.\<close>

definition with_peers :: "Broker \<Rightarrow> (HubPeer \<Rightarrow> HubPeer) \<Rightarrow> Broker" where
  "with_peers b g = b\<lparr>bk_directory := (bk_directory b)\<lparr>pd_peers := map g (pd_peers (bk_directory b))\<rparr>\<rparr>"

lemma list_eq_update: "i < length xs \<Longrightarrow> map g (take i xs) @ (drop i xs)[0 := g (xs ! i)] = map g (take (Suc i) xs) @ drop (Suc i) xs"
  by (simp add: take_Suc_conv_app_nth Cons_nth_drop_Suc [symmetric])

lemma with_peer_eq: "f (peer_at b i) = g (peer_at b i) \<Longrightarrow> with_peer b i f = with_peer b i g"
  by (simp add: with_peer_def)

lemma with_peer_id: "f (peer_at b i) = peer_at b i \<Longrightarrow> with_peer b i f = b"
  by (simp add: with_peer_def)

lemma each_peer_map:
  assumes "length (pd_peers (bk_directory b)) = PEER_DIRECTORY_MAX"
    and "\<And>i b. f i b = (if P (peer_at b i) then with_peer b i g else b)"
  shows "each_peer f b = with_peers b (\<lambda>p. if hp_in_use p \<and> P p then g p else p)" (is "_ = with_peers b ?g")
proof -
  define h where "h = ?g"
  define upto where "upto n = b\<lparr>bk_directory := (bk_directory b)\<lparr>pd_peers :=
      map h (take n (pd_peers (bk_directory b))) @ drop n (pd_peers (bk_directory b))\<rparr>\<rparr>" for n
  define round where "round = (\<lambda>i self. case PeerDirectory_At (bk_directory self) i of None \<Rightarrow> self | Some peer \<Rightarrow> f peer self)"
  have step: "round n (upto n) = upto (Suc n)" if "n < PEER_DIRECTORY_MAX" for n
  proof -
    have len: "n < length (pd_peers (bk_directory b))"
      using that assms(1) by simp
    have at: "peer_at (upto n) n = peer_at b n"
      using len by (simp add: upto_def nth_append)
    have "round n (upto n) = with_peer (upto n) n h"
      using that at with_peer_id [of h "upto n" n] with_peer_eq [of g "upto n" n h]
      by (auto simp: round_def h_def PeerDirectory_At_def assms(2))
    also have "\<dots> = upto (Suc n)"
      using len at list_eq_update [OF len, of h] by (simp add: with_peer_def upto_def list_update_append)
    finally show ?thesis .
  qed
  have "fold round [0..<n] b = upto n" if "n \<le> PEER_DIRECTORY_MAX" for n
    using that
  proof (induction n)
    case (Suc n)
    then have "fold round [0..<Suc n] b = round n (upto n)"
      by simp
    then show ?case
      using step [of n] Suc.prems by simp
  qed (simp add: upto_def)
  from this [of PEER_DIRECTORY_MAX] show ?thesis
    unfolding each_peer_def round_def [symmetric] using assms(1) by (simp add: upto_def with_peers_def h_def)
qed

section \<open>Transactions\<close>

lemmas hub_inv_speaking [hub_intros] =
  hub_inv_spoken [OF _ spoken_sendControl [OF spoken.R_refl]]
  hub_inv_spoken [OF _ spoken_sendError [OF spoken.R_refl]]
  hub_inv_spoken [OF _ spoken_set_channel_mode [OF spoken.R_refl]]
  hub_inv_spoken [OF _ spoken_close_peer [OF spoken.R_refl]]
  hub_inv_spoken [OF _ spoken_relayPaceToClients [OF spoken.R_refl]]
  hub_inv_spoken [OF _ spoken_announceLease [OF spoken.R_refl]]
  hub_inv_spoken [OF _ spoken_sendTxnStatus [OF spoken.R_refl]]
  hub_inv_spoken [OF _ spoken_sendTxnAbort [OF spoken.R_refl]]
  hub_inv_spoken [OF _ spoken_revertAgentChannelIfUnused [OF spoken.R_refl]]

lemma hub_inv_count_aborted [hub_intros]: "hub_inv ports b \<Longrightarrow> hub_inv ports (count_aborted b)"
  unfolding count_aborted_def by (rule hub_inv_counters)

lemma hub_inv_count_rejected [hub_intros]: "hub_inv ports b \<Longrightarrow> hub_inv ports (count_rejected b)"
  unfolding count_rejected_def by (rule hub_inv_counters)

lemma hub_inv_finishTransaction [hub_intros]:
  "hub_inv ports b \<Longrightarrow> t < length (tt_entries (bk_transactions b)) \<Longrightarrow> hub_inv ports (finishTransaction ports b t)"
  unfolding finishTransaction_def Let_def by (auto intro!: hub_intros)

lemma transactions_spoken [simp]:
  "bk_transactions (sendTxnAbort ports b agent channel n) = bk_transactions b"
  "bk_transactions (sendTxnStatus ports b client t reason) = bk_transactions b"
  "bk_transactions (sendControl ports b i m) = bk_transactions b"
  using spokenD(6) [OF spoken_sendTxnAbort [OF spoken.R_refl]] spokenD(6) [OF spoken_sendTxnStatus [OF spoken.R_refl]]
    spokenD(6) [OF spoken_sendControl [OF spoken.R_refl]] by blast+

lemma hub_inv_abandonTransaction [hub_intros]:
  "hub_inv ports b \<Longrightarrow> t < length (tt_entries (bk_transactions b)) \<Longrightarrow> hub_inv ports (abandonTransaction ports b t)"
  unfolding abandonTransaction_def Let_def
  by (auto intro!: hub_intros hub_inv_with_transaction split: option.split)

lemma ForAgentD:
  assumes "TransactionTable_ForAgent t agent = Some i"
  shows "i < length (tt_entries t)" "isInUse (tt_entries t ! i)" "rt_agent_peer_id (tt_entries t ! i) = agent"
  using find_index_SomeD [OF assms [unfolded TransactionTable_ForAgent_def]] by simp_all

lemma ForClientChannelD:
  assumes "TransactionTable_ForClientChannel t client channel = Some i"
  shows "i < length (tt_entries t)"
  using assms for_client_channel_finds [of t client channel 0]
  by (auto simp: TransactionTable_ForClientChannel_def simp del: for_client_channel.simps)

lemma hub_inv_failAgentTransaction [hub_intros]:
  "hub_inv ports b \<Longrightarrow> hub_inv ports (failAgentTransaction ports b agent)"
  unfolding failAgentTransaction_def Let_def
  by (auto intro!: hub_intros dest: ForAgentD(1) split: option.split)

lemma hub_inv_abandonClientTransactions [hub_intros]:
  assumes "hub_inv ports b"
  shows "hub_inv ports (abandonClientTransactions ports b client)"
proof -
  have "hub_inv ports b \<longrightarrow> hub_inv ports (abandon_from ports client 0 b)"
    by (rule upholds.abandon_from_closed) (intro impI hub_intros)
  then show ?thesis
    using assms by (simp add: abandonClientTransactions_def)
qed

section \<open>The channels of a client\<close>

lemma hub_inv_closeClientChannel [hub_intros]:
  "hub_inv ports b \<Longrightarrow> hub_inv ports (closeClientChannel ports b client channel)"
  unfolding closeClientChannel_def Let_def
  by (auto intro!: hub_intros dest: ForClientChannelD split: option.split)

lemma hub_inv_removeClientInterface [hub_intros]:
  assumes "hub_inv ports b"
  shows "hub_inv ports (removeClientInterface ports b client interface_id)"
proof -
  have "hub_inv ports b \<longrightarrow> hub_inv ports (removeClientInterface ports b client interface_id)"
    by (rule upholds.removeClientInterface_closed) (intro impI hub_intros)
  then show ?thesis
    using assms by blast
qed

lemma hub_inv_releaseReliableBindings [hub_intros]:
  assumes "hub_inv ports b"
  shows "hub_inv ports (releaseReliableBindings b client)"
proof -
  have "hub_inv ports b \<longrightarrow> hub_inv ports (releaseReliableBindings b client)"
    by (rule upholds.releaseReliableBindings_closed) (blast intro: hub_intros hub_inv_TakeReliable)
  then show ?thesis
    using assms by blast
qed

section \<open>Interfaces that come and go\<close>

lemma detachInterface_map:
  assumes "length (pd_peers (bk_directory b)) = PEER_DIRECTORY_MAX"
  shows "detachInterface b entry = with_peers b (\<lambda>p. if hp_in_use p \<and> hp_role p = kHUB_PEER_ROLE_CLIENT
    then p\<lparr>hp_session := ClientSession_DetachInterface (hp_session p) (ie_interface_id entry)\<rparr> else p)"
  unfolding detachInterface_def with_session_def by (rule each_peer_map [OF assms]) (rule refl)

lemma hub_inv_detachInterface [hub_intros]:
  "hub_inv ports b \<Longrightarrow> hub_inv ports (detachInterface b entry)"
  unfolding detachInterface_def by (erule upholds_each_peer) (auto intro!: hub_intros)

lemma registry_detachInterface [simp]: "bk_registry (detachInterface b entry) = bk_registry b"
proof -
  have "bk_registry (detachInterface b entry) = bk_registry b"
    unfolding detachInterface_def
    by (rule upholds_each_peer [of "\<lambda>c. bk_registry c = bk_registry b"]) (auto simp: with_session_def with_peer_def)
  then show ?thesis .
qed

lemma detached_binding: "\<not> attached i (detach_binding i x)" "\<not> attached j x \<Longrightarrow> \<not> attached j (detach_binding i x)"
  by (auto simp: attached_def detach_binding_def)

lemma idle_session: "ClientSession_HoldsChannels s \<or> (\<forall>x \<in> set (cs_bindings s). \<not> attached i x)"
  by (auto simp: ClientSession_HoldsChannels_def list_ex_iff attached_def)

lemma detachInterface_detaches:
  assumes "hub_inv ports b"
  shows "detached (detachInterface b entry) (ie_interface_id entry)"
    and "detached b i \<Longrightarrow> detached (detachInterface b entry) i"
proof -
  have idle: "\<forall>x \<in> set (cs_bindings (hp_session p)). \<not> attached i x"
    if "p \<in> set (pd_peers (bk_directory b))" "\<not> (hp_in_use p \<and> hp_role p = kHUB_PEER_ROLE_CLIENT)" for p i
    using that assms idle_session [of "hp_session p" i] by (auto simp: hub_inv_def peers_ok_def peer_ok_def slot_ok_def)
  show "detached (detachInterface b entry) (ie_interface_id entry)"
    using idle by (auto simp: detached_def detachInterface_map [OF hub_inv_sized [OF assms]] with_peers_def
        ClientSession_DetachInterface_def detached_binding)
  show "detached b i \<Longrightarrow> detached (detachInterface b entry) i"
    by (auto simp: detached_def detachInterface_map [OF hub_inv_sized [OF assms]] with_peers_def
        ClientSession_DetachInterface_def detached_binding)
qed

text \<open>After the loop of \<open>detachAgent\<close> no channel is attached to an interface of the agent.\<close>

lemma detachAgent_loop:
  assumes "hub_inv ports b" and "n \<le> INTERFACE_REGISTRY_MAX"
    and "round = (\<lambda>i self. let entry = ir_entries (bk_registry self) ! i
      in if ie_in_use entry \<and> ie_agent_peer_id entry = agent then detachInterface self entry else self)"
  shows "hub_inv ports (fold round [0..<n] b) \<and> bk_registry (fold round [0..<n] b) = bk_registry b \<and>
    (\<forall>i < n. ie_in_use (ir_entries (bk_registry b) ! i) \<longrightarrow> ie_agent_peer_id (ir_entries (bk_registry b) ! i) = agent \<longrightarrow>
       detached (fold round [0..<n] b) (ie_interface_id (ir_entries (bk_registry b) ! i)))"
  using assms(2)
proof (induction n)
  case (Suc n)
  then show ?case
    by (auto simp: assms(3) Let_def less_Suc_eq intro: hub_inv_detachInterface detachInterface_detaches)
qed (simp add: assms(1))

lemma hub_inv_detachAgent [hub_intros]:
  assumes "hub_inv ports b"
  shows "hub_inv ports (detachAgent b agent)"
proof -
  let ?c = "each_interface agent (\<lambda>entry self. detachInterface self entry) b"
  have c: "hub_inv ports ?c" "bk_registry ?c = bk_registry b"
    "\<And>i. i < INTERFACE_REGISTRY_MAX \<Longrightarrow> ie_in_use (ir_entries (bk_registry b) ! i) \<Longrightarrow>
      ie_agent_peer_id (ir_entries (bk_registry b) ! i) = agent \<Longrightarrow> detached ?c (ie_interface_id (ir_entries (bk_registry b) ! i))"
    using detachAgent_loop [OF assms order_refl refl, of agent] unfolding each_interface_def by blast+
  show ?thesis
    unfolding detachAgent_def Let_def using c hub_invD(1) [OF assms]
    by (intro hub_inv_RemovePeer [OF c(1)]) (auto simp: in_set_conv_nth)
qed

lemma registry_detachAgent:
  "e \<in> set (ir_entries (bk_registry (detachAgent b agent))) \<Longrightarrow> ie_in_use e \<Longrightarrow> ie_agent_peer_id e \<noteq> agent"
  by (auto simp: detachAgent_def Let_def with_registry_def InterfaceRegistry_RemovePeer_def InterfaceEntry_zero_def split: if_splits)

lemma transactions_detachInterface [simp]: "bk_transactions (detachInterface b entry) = bk_transactions b"
  unfolding detachInterface_def
  by (rule upholds_each_peer [of "\<lambda>c. bk_transactions c = bk_transactions b"]) (auto simp: with_session_def with_peer_def)

lemma transactions_detachAgent [simp]: "bk_transactions (detachAgent b agent) = bk_transactions b"
proof -
  have "bk_transactions (each_interface agent (\<lambda>entry self. detachInterface self entry) b) = bk_transactions b"
    by (rule upholds_each_interface [of "\<lambda>c. bk_transactions c = bk_transactions b"]) auto
  then show ?thesis
    by (simp add: detachAgent_def Let_def with_registry_def)
qed

text \<open>Reattaching leaves the registry alone.\<close>

definition same_registry :: "Broker \<Rightarrow> Broker \<Rightarrow> bool" where
  "same_registry b c \<longleftrightarrow> bk_registry c = bk_registry b"

interpretation same_registry: hub_preorder same_registry
  by unfold_locales (simp_all add: same_registry_def)

named_theorems same_registry_intros

lemma same_registry_quiet: "same_registry b c \<Longrightarrow> quiet c d \<Longrightarrow> same_registry b d"
  by (simp add: same_registry_def quietD)

lemma same_registry_spoken: "same_registry b c \<Longrightarrow> spoken c d \<Longrightarrow> same_registry b d"
  by (simp add: same_registry_def spokenD)

lemma same_registry_with_session [same_registry_intros]: "same_registry b c \<Longrightarrow> same_registry b (with_session c i f)"
  by (simp add: same_registry_def with_session_def with_peer_def)

lemmas same_registry_by [same_registry_intros] =
  same_registry_quiet [OF _ quiet_abandonTransaction [OF quiet.R_refl]]
  same_registry_spoken [OF _ spoken_set_channel_mode [OF spoken.R_refl]]
  same_registry_spoken [OF _ spoken_revertAgentChannelIfUnused [OF spoken.R_refl]]

lemma same_registry_closeClientChannel [same_registry_intros]:
  "same_registry b c \<Longrightarrow> same_registry b (closeClientChannel ports c client channel)"
  unfolding closeClientChannel_def Let_def by (auto intro!: same_registry_intros split: option.split)

lemma same_registry_removeClientInterface [same_registry_intros]:
  "same_registry b c \<Longrightarrow> same_registry b (removeClientInterface ports c client interface_id)"
  by (erule same_registry.R_trans) (intro same_registry.removeClientInterface_closed same_registry_intros same_registry.R_refl)

lemma same_registry_reattach_client [same_registry_intros]:
  "same_registry b c \<Longrightarrow> same_registry b (reattach_client ports entry i c)"
  unfolding reattach_client_def Let_def by (auto intro!: same_registry_intros split: prod.split option.split)

lemma same_registry_reattachInterface [same_registry_intros]:
  "same_registry b c \<Longrightarrow> same_registry b (reattachInterface ports c entry)"
  unfolding reattachInterface_def
  by (erule same_registry.R_trans) (intro same_registry.each_peer_closed same_registry_intros same_registry.R_refl)

lemma hub_inv_reattach_client:
  assumes "hub_inv ports b" and "entry \<in> set (ir_entries (bk_registry b))" "ie_in_use entry"
  shows "hub_inv ports (reattach_client ports entry i b)"
proof -
  obtain r s where rs: "ClientSession_ReattachInterface (hp_session (peer_at b i)) (ie_agent_name entry) (ie_interface_name entry)
      (ie_interface_id entry) (clientCanWrite ports b (peer_at b i) entry) = (r, s)"
    by (cases "ClientSession_ReattachInterface (hp_session (peer_at b i)) (ie_agent_name entry) (ie_interface_name entry)
      (ie_interface_id entry) (clientCanWrite ports b (peer_at b i) entry)")
  have "hub_inv ports (with_session b i (\<lambda>_. s))"
    using hub_inv_Reattach [OF assms rs] .
  then show ?thesis
    using assms(1) unfolding reattach_client_def Let_def rs by (auto intro!: hub_intros split: option.split)
qed

lemma hub_inv_reattachInterface [hub_intros]:
  assumes "hub_inv ports b" and "entry \<in> set (ir_entries (bk_registry b))" "ie_in_use entry"
  shows "hub_inv ports (reattachInterface ports b entry)"
proof -
  have "hub_inv ports (reattachInterface ports b entry) \<and> same_registry b (reattachInterface ports b entry)"
    unfolding reattachInterface_def
    by (rule upholds_each_peer)
      (use assms same_registry_reattach_client in \<open>auto simp: same_registry.R_refl same_registry_def intro: hub_inv_reattach_client\<close>)
  then show ?thesis ..
qed

lemma hub_inv_reattachClientsToAgent [hub_intros]:
  assumes "hub_inv ports b"
  shows "hub_inv ports (reattachClientsToAgent ports b agent)"
  unfolding reattachClientsToAgent_def
  by (rule upholds_each_interface [of "hub_inv ports", OF assms]) (auto intro!: hub_inv_reattachInterface nth_mem simp: hub_invD(1))

section \<open>Pending configurations and echo tokens\<close>

lemma hub_inv_replyConfigure [hub_intros]: "hub_inv ports b \<Longrightarrow> hub_inv ports (replyConfigure ports b i status)"
  unfolding replyConfigure_def Let_def by (intro hub_intros)

lemma hub_inv_release_pending [hub_intros]: "hub_inv ports b \<Longrightarrow> hub_inv ports (release_pending ports peer_id i b)"
  unfolding release_pending_def Let_def by (auto intro!: hub_intros split: option.split)

lemma hub_inv_releasePendingIfconfig [hub_intros]:
  "hub_inv ports b \<Longrightarrow> hub_inv ports (releasePendingIfconfig ports b peer_id)"
  unfolding releasePendingIfconfig_def by (erule upholds_fold) (intro hub_intros)

text \<open>Only the pending entries and the marks of failed transmissions change.\<close>

definition but_pending :: "Broker \<Rightarrow> Broker \<Rightarrow> bool" where
  "but_pending b c \<longleftrightarrow> bk_registry c = bk_registry b \<and> bk_transactions c = bk_transactions b \<and>
     map unsent (pd_peers (bk_directory c)) = map unsent (pd_peers (bk_directory b))"

lemma but_pending_spoken: "but_pending b c \<Longrightarrow> spoken c d \<Longrightarrow> but_pending b d"
  by (simp add: but_pending_def spoken_def)

lemma spoken_replyConfigure [spoken_intros]: "spoken b c \<Longrightarrow> spoken b (replyConfigure ports c i status)"
  unfolding replyConfigure_def Let_def by (intro spoken_intros)

lemma but_pending_release:
  "but_pending b (releasePendingIfconfig ports b peer_id)"
proof -
  have forgotten: "but_pending b (forget_pending c i)" if "but_pending b c" for c i
    using that by (simp add: but_pending_def forget_pending_def)
  show ?thesis
    unfolding releasePendingIfconfig_def
  proof (rule upholds_fold [of "but_pending b"])
    show "but_pending b (release_pending ports peer_id i c)" if "but_pending b c" for i c
      using that unfolding release_pending_def Let_def
      by (auto intro!: forgotten but_pending_spoken [OF _ spoken_replyConfigure [OF spoken.R_refl]] split: option.split)
  qed (simp add: but_pending_def)
qed

lemma release_pending_pending:
  "bk_pending_ifconfig (release_pending ports peer_id i b) =
     (let q = bk_pending_ifconfig b ! i
      in if pi_in_use q \<and> (pi_agent_peer_id q = peer_id \<or> pi_requester_peer_id q = peer_id)
         then (bk_pending_ifconfig b)[i := q\<lparr>pi_in_use := False\<rparr>] else bk_pending_ifconfig b)"
  by (auto simp: release_pending_def Let_def forget_pending_def
      spokenD(5) [OF spoken_replyConfigure [OF spoken.R_refl]] split: option.split)

lemma releasePendingIfconfig_forgets:
  assumes "length (bk_pending_ifconfig b) = BROKER_PENDING_IFCONFIG_MAX"
    and "q \<in> set (bk_pending_ifconfig (releasePendingIfconfig ports b peer_id))" and "pi_in_use q"
  shows "pi_agent_peer_id q \<noteq> peer_id \<and> pi_requester_peer_id q \<noteq> peer_id"
proof -
  let ?clear = "\<lambda>q. pi_in_use q \<longrightarrow> pi_agent_peer_id q \<noteq> peer_id \<and> pi_requester_peer_id q \<noteq> peer_id"
  have "length (bk_pending_ifconfig (fold (release_pending ports peer_id) [0..<n] b)) = BROKER_PENDING_IFCONFIG_MAX \<and>
      (\<forall>j < n. ?clear (bk_pending_ifconfig (fold (release_pending ports peer_id) [0..<n] b) ! j))"
    if "n \<le> BROKER_PENDING_IFCONFIG_MAX" for n
    using that
  proof (induction n)
    case (Suc n)
    then show ?case
      by (auto simp: release_pending_pending Let_def less_Suc_eq nth_list_update)
  qed (simp add: assms(1))
  from this [of BROKER_PENDING_IFCONFIG_MAX] show ?thesis
    using assms(2,3) unfolding releasePendingIfconfig_def in_set_conv_nth by auto
qed

lemma ReleaseClient_owners:
  "set (et_owner_peer_ids (EchoTokens_ReleaseClient s client)) \<subseteq> insert NO_OWNER (set (et_owner_peer_ids s))"
  using set_update_subset_insert [of "et_owner_peer_ids s" _ NO_OWNER]
  by (auto simp: EchoTokens_ReleaseClient_def split: option.splits)

lemma ReleaseClient_gone:
  assumes "EchoTokens_inv s" and "client \<noteq> NO_OWNER"
  shows "client \<notin> set (et_owner_peer_ids (EchoTokens_ReleaseClient s client))"
proof
  let ?s = "EchoTokens_ReleaseClient s client"
  assume "client \<in> set (et_owner_peer_ids ?s)"
  then obtain i where "i < FRAME_ROUTE_TOKEN_VALUES_MAX" "et_owner_peer_ids ?s ! i = client"
    using Release_spec [OF assms(1), of client] by (auto simp: in_set_conv_nth EchoTokens_inv_def)
  then have "owner_map ?s i = Some client"
    using assms(2) by (simp add: owner_map_def)
  then show False
    using Release_spec [OF assms(1), of client] by (auto simp: echo_abs_def split: if_splits)
qed

lemma releaseEchoTokens_map:
  assumes "length (pd_peers (bk_directory b)) = PEER_DIRECTORY_MAX"
  shows "releaseEchoTokens b client = with_peers b (\<lambda>p. if hp_in_use p \<and> hp_role p = kHUB_PEER_ROLE_AGENT
    then p\<lparr>hp_echo_tokens := EchoTokens_ReleaseClient (hp_echo_tokens p) client\<rparr> else p)"
  unfolding releaseEchoTokens_def by (rule each_peer_map [OF assms]) (rule refl)

lemma hub_inv_releaseEchoTokens [hub_intros]:
  assumes "hub_inv ports b"
  shows "hub_inv ports (releaseEchoTokens b client)"
  unfolding releaseEchoTokens_def
proof (rule upholds_each_peer [of "hub_inv ports", OF assms])
  fix i b
  assume inv: "hub_inv ports b"
  have "hub_inv ports (with_peer b i (\<lambda>p. p\<lparr>hp_echo_tokens := EchoTokens_ReleaseClient (hp_echo_tokens (peer_at b i)) client\<rparr>))"
    using echo.step_inv [of "hp_echo_tokens (peer_at b i)" "EchoRelease client"]
      ReleaseClient_owners [of "hp_echo_tokens (peer_at b i)" client]
    by (intro hub_inv_echo_tokens [OF inv, where new = "{}"]) auto
  then show "hub_inv ports (if hp_role (peer_at b i) = kHUB_PEER_ROLE_AGENT
      then with_peer b i (\<lambda>p. p\<lparr>hp_echo_tokens := EchoTokens_ReleaseClient (hp_echo_tokens p) client\<rparr>) else b)"
    using inv by (simp add: with_peer_def)
qed

lemma releaseEchoTokens_forgets:
  assumes "hub_inv ports b" and "client \<noteq> NO_OWNER" and "p \<in> set (pd_peers (bk_directory (releaseEchoTokens b client)))"
  shows "client \<notin> set (et_owner_peer_ids (hp_echo_tokens p))"
proof -
  obtain q where q: "q \<in> set (pd_peers (bk_directory b))"
    and p: "p = (if hp_in_use q \<and> hp_role q = kHUB_PEER_ROLE_AGENT
      then q\<lparr>hp_echo_tokens := EchoTokens_ReleaseClient (hp_echo_tokens q) client\<rparr> else q)"
    using assms(3) by (auto simp: releaseEchoTokens_map [OF hub_inv_sized [OF assms(1)]] with_peers_def)
  have "slot_ok q"
    using assms(1) q by (simp add: hub_inv_def peers_ok_def peer_ok_def)
  then show ?thesis
    using p assms(2) ReleaseClient_gone [of "hp_echo_tokens q" client] by (auto simp: slot_ok_def split: if_splits)
qed

section \<open>The end of a peer\<close>

text \<open>Nothing names the peer.\<close>

definition unreferenced :: "Broker \<Rightarrow> u32 \<Rightarrow> bool" where
  "unreferenced b peer_id \<longleftrightarrow>
     (\<forall>e \<in> set (ir_entries (bk_registry b)). ie_in_use e \<longrightarrow> InterfaceEntry_IsVirtual e \<or> ie_agent_peer_id e \<noteq> peer_id) \<and>
     (\<forall>t \<in> set (tt_entries (bk_transactions b)). isInUse t \<longrightarrow> rt_agent_peer_id t \<noteq> peer_id \<and>
        (rt_client_peer_id t = TRANSACTION_NO_CLIENT \<or> rt_client_peer_id t \<noteq> peer_id)) \<and>
     (\<forall>q \<in> set (bk_pending_ifconfig b). pi_in_use q \<longrightarrow> pi_agent_peer_id q \<noteq> peer_id \<and> pi_requester_peer_id q \<noteq> peer_id) \<and>
     (\<forall>p \<in> set (pd_peers (bk_directory b)). \<forall>owner \<in> set (et_owner_peer_ids (hp_echo_tokens p)).
        owner = NO_OWNER \<or> owner = ECHO_TOKENS_BRIDGE_OWNER \<or> owner \<noteq> peer_id)"

lemma unreferencedD:
  assumes "unreferenced b peer_id"
  shows "e \<in> set (ir_entries (bk_registry b)) \<Longrightarrow> ie_in_use e \<Longrightarrow> InterfaceEntry_IsVirtual e \<or> ie_agent_peer_id e \<noteq> peer_id"
    and "t \<in> set (tt_entries (bk_transactions b)) \<Longrightarrow> isInUse t \<Longrightarrow> rt_agent_peer_id t \<noteq> peer_id"
    and "t \<in> set (tt_entries (bk_transactions b)) \<Longrightarrow> isInUse t \<Longrightarrow>
      rt_client_peer_id t = TRANSACTION_NO_CLIENT \<or> rt_client_peer_id t \<noteq> peer_id"
    and "q \<in> set (bk_pending_ifconfig b) \<Longrightarrow> pi_in_use q \<Longrightarrow> pi_agent_peer_id q \<noteq> peer_id \<and> pi_requester_peer_id q \<noteq> peer_id"
  using assms unfolding unreferenced_def by blast+

lemma peer_ok_zero: "peer_ok ports b HubPeer_zero"
proof -
  have "ClientSession_inv ClientSession_Reset" "EchoTokens_inv EchoTokens_Reset"
    by (rule ClientSession_Reset_inv, rule EchoTokens_Reset_inv)
  then show ?thesis
    by (simp add: peer_ok_def slot_ok_def owners_ok_def channels_ok_def HubPeer_zero_def ClientSession_Reset_def
        ChannelBinding_zero_def EchoTokens_Reset_def ClientSession_HoldsChannels_def list_ex_iff)
qed

lemma connected_Release:
  assumes "j \<noteq> peer_id" and "c = b\<lparr>bk_directory := PeerDirectory_Release (bk_directory b) peer_id\<rparr>"
  shows "connected_as b role j \<Longrightarrow> connected_as c role j" "connected b j \<Longrightarrow> connected c j"
proof -
  have kept: "p \<in> set (pd_peers (bk_directory c))" if "p \<in> set (pd_peers (bk_directory b))" "hp_peer_id p = j" for p
  proof (cases "PeerDirectory_Find (bk_directory b) peer_id")
    case (Some i)
    have "p \<in> set ((pd_peers (bk_directory b))[i := HubPeer_zero])"
      by (rule in_use_kept [where P = "\<lambda>p. hp_peer_id p = j"]) (use that FindD [OF Some] assms(1) in simp_all)
    then show ?thesis
      using Some by (simp add: assms(2) PeerDirectory_Release_def)
  qed (use that in \<open>simp add: assms(2) PeerDirectory_Release_def\<close>)
  show "connected_as b role j \<Longrightarrow> connected_as c role j" "connected b j \<Longrightarrow> connected c j"
    using kept by (auto simp: connected_as_def connected_def)
qed

lemma Release_peers:
  "p \<in> set (pd_peers (PeerDirectory_Release d peer_id)) \<Longrightarrow> p = HubPeer_zero \<or> p \<in> set (pd_peers d)"
  using set_update_subset_insert [of "pd_peers d" _ HubPeer_zero]
  by (auto simp: PeerDirectory_Release_def split: option.splits)

lemma Release_sized: "length (pd_peers (PeerDirectory_Release d peer_id)) = length (pd_peers d)"
  by (simp add: PeerDirectory_Release_def split: option.split)

lemma Release_distinct:
  assumes "slots_distinct hp_in_use hp_peer_id (pd_peers d)"
  shows "slots_distinct hp_in_use hp_peer_id (pd_peers (PeerDirectory_Release d peer_id))"
proof (cases "PeerDirectory_Find d peer_id")
  case (Some i)
  have "slots_distinct hp_in_use hp_peer_id ((pd_peers d)[i := HubPeer_zero])"
    using assms by (rule peers.distinct_store) (simp add: HubPeer_zero_def)
  then show ?thesis
    using Some by (simp add: PeerDirectory_Release_def)
qed (use assms in \<open>simp add: PeerDirectory_Release_def\<close>)

lemma hub_inv_Release:
  assumes inv: "hub_inv ports b" and free: "unreferenced b peer_id"
  shows "hub_inv ports (b\<lparr>bk_directory := PeerDirectory_Release (bk_directory b) peer_id\<rparr>)" (is "hub_inv ports ?c")
proof -
  note kept = connected_Release [OF _ refl, of _ peer_id b]
  have peer: "peer_ok ports ?c p" if "p \<in> set (pd_peers (bk_directory ?c))" for p
  proof (cases "p = HubPeer_zero")
    case False
    then have p: "p \<in> set (pd_peers (bk_directory b))"
      using that Release_peers by force
    then have "owners_ok (connected_as ?c kHUB_PEER_ROLE_CLIENT) p"
      using inv free kept(1) unfolding hub_inv_def peers_ok_def peer_ok_def owners_ok_def unreferenced_def by blast
    then show ?thesis
      using inv p by (simp add: hub_inv_def peers_ok_def peer_ok_def)
  qed (simp add: peer_ok_zero)
  have "peers_ok ports ?c"
    using inv peer by (simp add: hub_inv_def peers_ok_def Release_sized Release_distinct)
  moreover have "entry_ok (connected_as ?c kHUB_PEER_ROLE_AGENT) e" if "e \<in> set (ir_entries (bk_registry b))" for e
    using hub_invD(2) [OF inv that] unreferencedD(1) [OF free that] kept(1) unfolding entry_ok_def by (auto split: if_splits)
  then have "registry_ok ?c"
    using hub_invD(1) [OF inv] by (simp add: registry_ok_def)
  moreover have "connected_as ?c kHUB_PEER_ROLE_AGENT (rt_agent_peer_id t) \<and>
      (rt_client_peer_id t = TRANSACTION_NO_CLIENT \<or> connected_as ?c kHUB_PEER_ROLE_CLIENT (rt_client_peer_id t))"
    if "t \<in> set (tt_entries (bk_transactions b))" "isInUse t" for t
    using hub_invD(4) [OF inv that] unreferencedD(2,3) [OF free that] kept(1) by blast
  then have "transactions_ok ?c"
    using hub_invD(3) [OF inv] by (simp add: transactions_ok_def)
  moreover have "connected_as ?c kHUB_PEER_ROLE_AGENT (pi_agent_peer_id q) \<and> connected ?c (pi_requester_peer_id q)"
    if "q \<in> set (bk_pending_ifconfig b)" "pi_in_use q" for q
    using hub_invD(6) [OF inv that] unreferencedD(4) [OF free that] kept by blast
  then have "pending_ok ?c"
    using hub_invD(5) [OF inv] by (simp add: pending_ok_def)
  moreover have "tables_ok ?c"
    using hub_invD(7) [OF inv] by (simp add: tables_ok_def)
  ultimately show ?thesis
    by (simp add: hub_inv_def)
qed

text \<open>A connected peer has one role.\<close>

lemma role_unique:
  assumes "hub_inv ports b" and "i < length (pd_peers (bk_directory b))" "hp_in_use (peer_at b i)"
    and "connected_as b role (hp_peer_id (peer_at b i))"
  shows "hp_role (peer_at b i) = role"
proof -
  obtain j where j: "j < length (pd_peers (bk_directory b))" "hp_in_use (peer_at b j)" "hp_role (peer_at b j) = role"
    "hp_peer_id (peer_at b j) = hp_peer_id (peer_at b i)"
    using assms(4) by (auto simp: connected_as_def in_set_conv_nth)
  then have "j = i"
    using assms(1-3) by (auto simp: hub_inv_def peers_ok_def peers.distinct_iff)
  then show ?thesis
    using j by simp
qed

text \<open>No transaction of the agent is left, nor one of the client.\<close>

lemma failAgentTransaction_ends:
  assumes "hub_inv ports b" and "t \<in> set (tt_entries (bk_transactions (failAgentTransaction ports b agent)))" and "isInUse t"
  shows "rt_agent_peer_id t \<noteq> agent"
proof (cases "TransactionTable_ForAgent (bk_transactions b) agent")
  case None
  then show ?thesis
    using None [unfolded TransactionTable_ForAgent_def find_index_None] assms(2,3) by (auto simp: failAgentTransaction_def)
next
  case (Some i)
  have "bk_transactions (failAgentTransaction ports b agent) = TransactionTable_Close (bk_transactions b) i"
    by (simp add: failAgentTransaction_def Some Let_def transactions_finishTransaction)
  then have "t \<in> ran (transaction_map (TransactionTable_Close (bk_transactions b) i))"
    using transactions_ran [OF conjunct1 [OF Close_spec [OF hub_invD(3) [OF assms(1)] Some]]] assms(2,3) by auto
  moreover have "rt_agent_peer_id x = k" if "transaction_map (bk_transactions b) k = Some x" for k x
    using that by (auto simp: transaction_map_def slot_map_def find_Some_iff)
  ultimately show ?thesis
    using Close_spec [OF hub_invD(3) [OF assms(1)] Some] by (auto simp: ran_def split: if_splits)
qed

lemma abandon_from_ends:
  assumes "client \<noteq> TRANSACTION_NO_CLIENT"
  shows "(\<forall>j < n. transaction_at (abandon_from ports client n b) j = transaction_at b j) \<and>
    length (tt_entries (bk_transactions (abandon_from ports client n b))) = length (tt_entries (bk_transactions b)) \<and>
    (\<forall>j. n \<le> j \<longrightarrow> j < length (tt_entries (bk_transactions b)) \<longrightarrow>
       isInUse (transaction_at (abandon_from ports client n b) j) \<longrightarrow>
       rt_client_peer_id (transaction_at (abandon_from ports client n b) j) \<noteq> client)"
  using assms
proof (induction ports client n b rule: abandon_from.induct)
  case (1 ports client n b)
  let ?P = "\<lambda>t. isInUse t \<and> rt_client_peer_id t = client"
  show ?case
  proof (cases "find_index ?P (drop n (tt_entries (bk_transactions b)))")
    case None
    then have "abandon_from ports client n b = b"
      by (subst abandon_from.simps) (simp add: TransactionTable_NextForClient_def)
    moreover have "\<not> ?P (transaction_at b j)" if "n \<le> j" "j < length (tt_entries (bk_transactions b))" for j
      using None [unfolded find_index_None] that nth_mem [of "j - n" "drop n (tt_entries (bk_transactions b))"] by auto
    ultimately show ?thesis
      by auto
  next
    case (Some k)
    let ?c = "abandonTransaction ports b (n + k)"
    have step: "TransactionTable_NextForClient (bk_transactions b) client n = (Some (n + k), n + k + 1)"
      using Some by (simp add: TransactionTable_NextForClient_def)
    have rec: "abandon_from ports client n b = abandon_from ports client (n + k + 1) ?c"
      by (subst abandon_from.simps) (simp add: step)
    have k: "n + k < length (tt_entries (bk_transactions b))"
      using find_index_SomeD(1) [OF Some] by simp
    have other: "transaction_at ?c j = transaction_at b j" if "j \<noteq> n + k" for j
      using that by (auto simp: transactions_abandonTransaction with_transaction_def TransactionTable_Close_def Let_def)
    have gone: "\<not> ?P (transaction_at ?c (n + k))"
      using k "1.prems" by (auto simp: transactions_abandonTransaction with_transaction_def TransactionTable_Close_def Let_def
          isInUse_def RelayedTransaction_zero_def)
    have skipped: "\<not> ?P (transaction_at b j)" if "n \<le> j" "j < n + k" for j
      using Some [unfolded find_index_Some] that k by (auto dest!: spec [of _ "j - n"])
    note IH = "1.IH" [OF step [symmetric] refl "1.prems"]
    show ?thesis
      unfolding rec
    proof (intro conjI allI impI)
      show "length (tt_entries (bk_transactions (abandon_from ports client (n + k + 1) ?c))) = length (tt_entries (bk_transactions b))"
        using IH by simp
      show "transaction_at (abandon_from ports client (n + k + 1) ?c) j = transaction_at b j" if "j < n" for j
        using IH other [of j] that by simp
      fix j
      assume j: "n \<le> j" "j < length (tt_entries (bk_transactions b))"
        "isInUse (transaction_at (abandon_from ports client (n + k + 1) ?c) j)"
      show "rt_client_peer_id (transaction_at (abandon_from ports client (n + k + 1) ?c) j) \<noteq> client"
      proof (cases "j < n + k + 1")
        case True
        then have "transaction_at (abandon_from ports client (n + k + 1) ?c) j = transaction_at ?c j"
          using IH by blast
        then show ?thesis
          using j True gone skipped [of j] other [of j] by (cases "j = n + k") auto
      next
        case False
        then show ?thesis
          using IH j by simp
      qed
    qed
  qed
qed

lemma abandonClientTransactions_ends:
  assumes "client \<noteq> TRANSACTION_NO_CLIENT" and "t \<in> set (tt_entries (bk_transactions (abandonClientTransactions ports b client)))"
    and "isInUse t"
  shows "rt_client_peer_id t \<noteq> client"
  using assms(2,3) abandon_from_ends [OF assms(1), of 0 ports b] by (auto simp: abandonClientTransactions_def in_set_conv_nth)

text \<open>The later parts of the clean-up leave the transactions alone.\<close>

lemma transactions_releaseReliableBindings: "bk_transactions (releaseReliableBindings b client) = bk_transactions b"
proof -
  have "bk_transactions b = bk_transactions b \<longrightarrow> bk_transactions (releaseReliableBindings b client) = bk_transactions b"
    by (rule upholds.releaseReliableBindings_closed)
      (simp add: spokenD(6) [OF spoken_revertAgentChannelIfUnused [OF spoken.R_refl]] with_session_def with_peer_def)
  then show ?thesis by simp
qed

lemma transactions_releaseEchoTokens: "bk_transactions (releaseEchoTokens b client) = bk_transactions b"
  unfolding releaseEchoTokens_def
  by (rule upholds_each_peer [of "\<lambda>c. bk_transactions c = bk_transactions b"]) (auto simp: with_peer_def)

text \<open>The clean-up up to the release of the slot, as \<open>releasePeer\<close> composes it.\<close>

definition cleaned :: "HubPorts \<Rightarrow> Broker \<Rightarrow> nat \<Rightarrow> Broker" where
  "cleaned ports b i =
     (let peer_id = hp_peer_id (peer_at b i);
          b = (if hp_role (peer_at b i) = kHUB_PEER_ROLE_AGENT
            then detachAgent (failAgentTransaction ports b peer_id) peer_id else b)
      in if hp_role (peer_at b i) = kHUB_PEER_ROLE_CLIENT
         then releaseEchoTokens (releaseReliableBindings (abandonClientTransactions ports b peer_id) i) peer_id
         else b)"

lemma releasePeer_cleaned:
  "releasePeer ports b i = (let c = releasePendingIfconfig ports (cleaned ports b i) (hp_peer_id (peer_at b i))
     in c\<lparr>bk_directory := PeerDirectory_Release (bk_directory c) (hp_peer_id (peer_at b i))\<rparr>)"
  by (simp add: releasePeer_def cleaned_def Let_def)

lemma hub_inv_cleaned: "hub_inv ports b \<Longrightarrow> hub_inv ports (cleaned ports b i)"
  by (auto simp: cleaned_def Let_def intro!: hub_intros)

lemma same_peers_cleaned: "same_peers b (cleaned ports b i)"
  by (auto simp: cleaned_def Let_def intro!: same_peers_intros same_peers.R_refl)

lemma same_role:
  "same_peers b c \<Longrightarrow> i < length (pd_peers (bk_directory b)) \<Longrightarrow> hp_role (peer_at c i) = hp_role (peer_at b i) \<and>
     hp_in_use (peer_at c i) = hp_in_use (peer_at b i) \<and> hp_peer_id (peer_at c i) = hp_peer_id (peer_at b i)"
  using same_peersD(2) [of b c i] who_eqD [of "peer_at c i" "peer_at b i"] by blast

lemma cleaned_agent:
  assumes "hub_inv ports b" "i < length (pd_peers (bk_directory b))" "hp_role (peer_at b i) = kHUB_PEER_ROLE_AGENT"
  shows "e \<in> set (ir_entries (bk_registry (cleaned ports b i))) \<Longrightarrow> ie_in_use e \<Longrightarrow> ie_agent_peer_id e \<noteq> hp_peer_id (peer_at b i)"
    and "t \<in> set (tt_entries (bk_transactions (cleaned ports b i))) \<Longrightarrow> isInUse t \<Longrightarrow> rt_agent_peer_id t \<noteq> hp_peer_id (peer_at b i)"
proof -
  let ?c = "detachAgent (failAgentTransaction ports b (hp_peer_id (peer_at b i))) (hp_peer_id (peer_at b i))"
  have "same_peers b ?c"
    by (intro same_peers_intros same_peers.R_refl)
  then have "hp_role (peer_at ?c i) = kHUB_PEER_ROLE_AGENT"
    using same_role [of b ?c i] assms(2,3) by simp
  then have c: "cleaned ports b i = ?c"
    using assms(3) by (simp add: cleaned_def Let_def)
  show "e \<in> set (ir_entries (bk_registry (cleaned ports b i))) \<Longrightarrow> ie_in_use e \<Longrightarrow> ie_agent_peer_id e \<noteq> hp_peer_id (peer_at b i)"
    unfolding c by (rule registry_detachAgent)
  show "t \<in> set (tt_entries (bk_transactions (cleaned ports b i))) \<Longrightarrow> isInUse t \<Longrightarrow> rt_agent_peer_id t \<noteq> hp_peer_id (peer_at b i)"
    unfolding c using failAgentTransaction_ends [OF assms(1)] by simp
qed

lemma cleaned_client:
  assumes "hub_inv ports b" "hp_role (peer_at b i) = kHUB_PEER_ROLE_CLIENT" "hp_peer_id (peer_at b i) \<noteq> 0"
  shows "t \<in> set (tt_entries (bk_transactions (cleaned ports b i))) \<Longrightarrow> isInUse t \<Longrightarrow> rt_client_peer_id t \<noteq> hp_peer_id (peer_at b i)"
    and "p \<in> set (pd_peers (bk_directory (cleaned ports b i))) \<Longrightarrow> hp_peer_id (peer_at b i) \<notin> set (et_owner_peer_ids (hp_echo_tokens p))"
proof -
  let ?id = "hp_peer_id (peer_at b i)"
  have c: "cleaned ports b i = releaseEchoTokens (releaseReliableBindings (abandonClientTransactions ports b ?id) i) ?id"
    using assms(2) by (simp add: cleaned_def Let_def)
  show "t \<in> set (tt_entries (bk_transactions (cleaned ports b i))) \<Longrightarrow> isInUse t \<Longrightarrow> rt_client_peer_id t \<noteq> ?id"
    using abandonClientTransactions_ends [OF assms(3)]
    by (simp add: c transactions_releaseEchoTokens transactions_releaseReliableBindings)
  have "hub_inv ports (releaseReliableBindings (abandonClientTransactions ports b ?id) i)"
    using assms(1) by (intro hub_inv_releaseReliableBindings hub_inv_abandonClientTransactions)
  then show "p \<in> set (pd_peers (bk_directory (cleaned ports b i))) \<Longrightarrow> ?id \<notin> set (et_owner_peer_ids (hp_echo_tokens p))"
    unfolding c using assms(3) by (rule releaseEchoTokens_forgets)
qed

lemma unsent_tokens:
  "map unsent ps = map unsent qs \<Longrightarrow> p \<in> set ps \<Longrightarrow> \<exists>q \<in> set qs. hp_echo_tokens q = hp_echo_tokens p"
  by (metis (no_types, opaque_lifting) imageE imageI set_map unsent_eqD(17))

lemma released_unreferenced:
  assumes inv: "hub_inv ports b" and i: "i < length (pd_peers (bk_directory b))" "hp_in_use (peer_at b i)"
  shows "unreferenced (releasePendingIfconfig ports (cleaned ports b i) (hp_peer_id (peer_at b i))) (hp_peer_id (peer_at b i))"
    (is "unreferenced ?c ?id")
proof -
  have ok: "hub_inv ports (cleaned ports b i)" "hub_inv ports ?c"
    using inv by (auto intro!: hub_intros hub_inv_cleaned)
  have same: "same_peers b ?c"
    by (intro same_peers_intros same_peers_cleaned)
  have len: "i < length (pd_peers (bk_directory ?c))"
    using same_peersD(1) [OF same] i(1) by simp
  have role: "hp_role (peer_at b i) = r" if "connected_as ?c r ?id" for r
    using role_unique [OF ok(2) len] same_role [OF same i(1)] that i(2) by simp
  have ids: "?id \<noteq> 0" "?id \<noteq> ECHO_TOKENS_BRIDGE_OWNER"
    using hub_inv_peer [OF inv i(1)] i(2) by (simp_all add: peer_ok_def slot_ok_def)
  have kept: "bk_registry ?c = bk_registry (cleaned ports b i)" "bk_transactions ?c = bk_transactions (cleaned ports b i)"
    and sent: "map unsent (pd_peers (bk_directory ?c)) = map unsent (pd_peers (bk_directory (cleaned ports b i)))"
    using but_pending_release [of "cleaned ports b i" ports ?id] by (simp_all add: but_pending_def)
  have "InterfaceEntry_IsVirtual e \<or> ie_agent_peer_id e \<noteq> ?id" if "e \<in> set (ir_entries (bk_registry ?c))" "ie_in_use e" for e
    using that hub_invD(2) [OF ok(2) that(1)] role cleaned_agent(1) [OF inv i(1)] unfolding entry_ok_def kept by (metis (full_types))
  moreover have "rt_agent_peer_id t \<noteq> ?id \<and> (rt_client_peer_id t = TRANSACTION_NO_CLIENT \<or> rt_client_peer_id t \<noteq> ?id)"
    if "t \<in> set (tt_entries (bk_transactions ?c))" "isInUse t" for t
    using that hub_invD(4) [OF ok(2) that] role cleaned_agent(2) [OF inv i(1)] cleaned_client(1) [OF inv _ ids(1)]
    unfolding kept by metis
  moreover have "pi_agent_peer_id q \<noteq> ?id \<and> pi_requester_peer_id q \<noteq> ?id" if "q \<in> set (bk_pending_ifconfig ?c)" "pi_in_use q" for q
    using releasePendingIfconfig_forgets [OF hub_invD(5) [OF ok(1)] that] .
  moreover have "owner \<noteq> ?id" if p: "p \<in> set (pd_peers (bk_directory ?c))" and owner: "owner \<in> set (et_owner_peer_ids (hp_echo_tokens p))"
    for p owner
  proof
    assume "owner = ?id"
    then have "connected_as ?c kHUB_PEER_ROLE_CLIENT ?id"
      using ok(2) p owner ids unfolding hub_inv_def peers_ok_def peer_ok_def owners_ok_def by blast
    then have "hp_role (peer_at b i) = kHUB_PEER_ROLE_CLIENT"
      by (rule role)
    moreover obtain q where "q \<in> set (pd_peers (bk_directory (cleaned ports b i)))" "hp_echo_tokens q = hp_echo_tokens p"
      using unsent_tokens [OF sent p] by blast
    ultimately show False
      using cleaned_client(2) [OF inv _ ids(1)] owner \<open>owner = ?id\<close> by metis
  qed
  ultimately show ?thesis
    unfolding unreferenced_def by blast
qed

lemma hub_inv_releasePeer:
  "hub_inv ports b \<Longrightarrow> i < length (pd_peers (bk_directory b)) \<Longrightarrow> hp_in_use (peer_at b i) \<Longrightarrow> hub_inv ports (releasePeer ports b i)"
  unfolding releasePeer_cleaned Let_def
  by (intro hub_inv_Release released_unreferenced hub_inv_releasePendingIfconfig hub_inv_cleaned)

lemma hub_inv_disconnectPeer [hub_intros]: "hub_inv ports b \<Longrightarrow> hub_inv ports (disconnectPeer ports b peer_id)"
  unfolding disconnectPeer_def by (auto intro!: hub_intros hub_inv_releasePeer dest: FindD split: option.split)

text \<open>The other peers stay who they are.\<close>

lemma disconnectPeer_others:
  assumes "i < length (pd_peers (bk_directory b))" and "hp_peer_id (peer_at b i) \<noteq> peer_id"
  shows "who (peer_at (disconnectPeer ports b peer_id) i) = who (peer_at b i)"
proof (cases "PeerDirectory_Find (bk_directory b) peer_id")
  case (Some j)
  obtain c where c: "same_peers b c"
    "releasePeer ports b j = c\<lparr>bk_directory := PeerDirectory_Release (bk_directory c) (hp_peer_id (peer_at b j))\<rparr>"
    by (rule releasePeer_effect)
  have "PeerDirectory_Find (bk_directory c) peer_id = Some j" "hp_peer_id (peer_at b j) = peer_id"
    using Some same_peers_Find [OF c(1)] FindD(3) [OF Some] by simp_all
  then have "peer_at (disconnectPeer ports b peer_id) i = peer_at c i"
    using assms by (cases "i = j") (auto simp: disconnectPeer_def Some c(2) close_peer_def calling_def PeerDirectory_Release_def)
  then show ?thesis
    using same_peersD(2) [OF c(1) assms(1)] by simp
qed (simp add: disconnectPeer_def)

lemma disconnectPeer_sized [simp]:
  "length (pd_peers (bk_directory (disconnectPeer ports b peer_id))) = length (pd_peers (bk_directory b))"
proof (cases "PeerDirectory_Find (bk_directory b) peer_id")
  case (Some j)
  obtain c where "same_peers b c"
    "releasePeer ports b j = c\<lparr>bk_directory := PeerDirectory_Release (bk_directory c) (hp_peer_id (peer_at b j))\<rparr>"
    by (rule releasePeer_effect)
  then show ?thesis
    using same_peersD(1) by (simp add: disconnectPeer_def Some close_peer_def calling_def Release_sized)
qed (simp add: disconnectPeer_def)

end
