(* ===== verification/BrokerKeeps.thy ===== *)
theory BrokerKeeps
  imports BrokerCleanup
begin

text \<open>
  The path of a frame and the handlers keep \<open>hub_inv\<close>, one lemma per function of the broker.  An
  index of a peer is one into the directory, as the pointers of the source are.
\<close>

section \<open>Frames\<close>

lemma hub_inv_with_binding:
  assumes "hub_inv ports b" and "ClientSession_BindingForChannel (hp_session (peer_at b i)) channel = Some k"
  shows "hub_inv ports (with_binding b i k (\<lambda>x. x\<lparr>cb_frames_forwarded := n x\<rparr>))"
    "hub_inv ports (with_binding b i k (\<lambda>x. x\<lparr>cb_frames_dropped := n x\<rparr>))"
  using hub_inv_binding [OF assms, where ?n1.0 = n and ?n2.0 = cb_frames_dropped]
    hub_inv_binding [OF assms, where ?n1.0 = cb_frames_forwarded and ?n2.0 = n] by simp_all

lemma hub_inv_peer_counted [hub_intros]:
  "hub_inv ports b \<Longrightarrow> hub_inv ports (with_peer b i (\<lambda>p. p\<lparr>hp_frames_forwarded := n p\<rparr>))"
  "hub_inv ports b \<Longrightarrow> hub_inv ports (with_peer b i (\<lambda>p. p\<lparr>hp_frames_dropped := n p\<rparr>))"
  by (auto intro!: hub_inv_with_peer simp: peer_ok_def slot_ok_def owners_ok_def)

lemma hub_inv_countForwarded [hub_intros]: "hub_inv ports b \<Longrightarrow> hub_inv ports (countForwarded b i channel)"
  unfolding countForwarded_def Let_def by (auto intro!: hub_intros hub_inv_with_binding split: option.split)

lemma hub_inv_countDropped [hub_intros]: "hub_inv ports b \<Longrightarrow> hub_inv ports (countDropped b i channel)"
  unfolding countDropped_def Let_def by (auto intro!: hub_intros hub_inv_with_binding split: option.split)

lemma hub_inv_drop_frames [hub_intros]: "hub_inv ports b \<Longrightarrow> hub_inv ports (drop_frames b n)"
  unfolding drop_frames_def by (rule hub_inv_metrics)

lemma hub_inv_drop_leased [hub_intros]: "hub_inv ports b \<Longrightarrow> hub_inv ports (drop_leased b)"
  unfolding drop_leased_def by (rule hub_inv_counters)

lemma hub_inv_count_unroutable [hub_intros]: "hub_inv ports b \<Longrightarrow> hub_inv ports (count_unroutable b)"
  unfolding count_unroutable_def by (rule hub_inv_metrics)

lemma hub_inv_countInterfaceFrame [hub_intros]: "hub_inv ports b \<Longrightarrow> hub_inv ports (countInterfaceFrame b p channel)"
  unfolding countInterfaceFrame_def by (auto intro!: hub_intros split: option.split)

lemma hub_inv_egress:
  assumes "hub_inv ports b" and "EgressQueue_inv (hp_egress (peer_at b i)) \<Longrightarrow> EgressQueue_inv q"
  shows "hub_inv ports (with_egress b i (\<lambda>_. q))"
  unfolding with_egress_def using assms
  by (intro hub_inv_with_peer) (auto simp: peer_ok_def slot_ok_def owners_ok_def)

lemma hub_inv_PopChannel [hub_intros]:
  "hub_inv ports b \<Longrightarrow> hub_inv ports (with_egress b i (\<lambda>q. EgressQueue_PopChannel q channel))"
  using egress.step_inv [of _ "EgressPop channel"] by (intro hub_inv_with_egress) simp_all

lemma hub_inv_NextPending:
  "hub_inv ports b \<Longrightarrow> EgressQueue_NextPendingChannel (hp_egress (peer_at b i)) = (r, q) \<Longrightarrow> hub_inv ports (with_egress b i (\<lambda>_. q))"
  using egress.step_inv [of "hp_egress (peer_at b i)" EgressNext] by (intro hub_inv_egress) simp_all

lemma hub_inv_enqueueFrame [hub_intros]:
  assumes "hub_inv ports b"
  shows "hub_inv ports (enqueueFrame b i channel data sz)"
proof -
  obtain r e q where push: "EgressQueue_Push (hp_egress (peer_at b i)) channel data sz (bk_now_us b) = ((r, e), q)"
    by (metis prod.exhaust)
  then have "hub_inv ports (with_egress b i (\<lambda>_. q))"
    using egress.step_inv [of "hp_egress (peer_at b i)" "EgressPush channel data sz (bk_now_us b)"]
    by (intro hub_inv_egress [OF assms]) simp
  then show ?thesis
    unfolding enqueueFrame_def push Let_def by (auto intro!: hub_intros)
qed

lemma hub_inv_disconnectSlowConsumer [hub_intros]:
  "hub_inv ports b \<Longrightarrow> hub_inv ports (snd (disconnectSlowConsumer ports b i))"
  unfolding disconnectSlowConsumer_def Let_def by (auto intro!: hub_intros)

lemma hub_inv_try_egress [hub_intros]: "hub_inv ports b \<Longrightarrow> hub_inv ports (snd (try_egress b peer_id channel bits))"
  unfolding try_egress_def by (auto intro: hub_inv_TryEgress split: prod.split)

lemma hub_inv_send_frame [hub_intros]: "hub_inv ports b \<Longrightarrow> hub_inv ports (snd (send_frame ports b peer_id channel data))"
  unfolding send_frame_def by (auto intro!: hub_intros)

lemma hub_inv_forwardFrame [hub_intros]:
  "hub_inv ports b \<Longrightarrow> hub_inv ports (snd (forwardFrame ports b route frame flags))"
  unfolding forwardFrame_def Let_def case_prod_beta by (auto intro!: hub_intros split: option.split)

lemma hub_inv_forward_routes [hub_intros]:
  "hub_inv ports (snd st) \<Longrightarrow> hub_inv ports (snd (forward_routes ports frame originator flags routes st))"
proof (induction routes arbitrary: st)
  case Nil
  then show ?case by (cases st) simp
next
  case (Cons route routes)
  obtain taken c where st: "st = (taken, c)" by (cases st)
  have "hub_inv ports (snd (if \<not> routeTakesFrame c route frame originator then (taken, c)
      else case forwardFrame ports c route frame flags of (ok, self) \<Rightarrow> (taken \<and> ok, self)))"
    using Cons.prems st by (auto intro!: hub_intros simp: case_prod_beta)
  from Cons.IH [OF this] show ?case
    by (simp add: st)
qed

lemma hub_inv_drain_channel [hub_intros]:
  "hub_inv ports b \<Longrightarrow> hub_inv ports (snd (drain_channel ports i channel fuel b))"
proof (induction fuel arbitrary: b)
  case (Suc fuel)
  then show ?case
    unfolding drain_channel.simps Let_def case_prod_beta by (auto intro!: Suc.IH hub_intros split: option.split)
qed simp

lemma hub_inv_drain_channels [hub_intros]: "hub_inv ports b \<Longrightarrow> hub_inv ports (drain_channels ports i rounds b)"
proof (induction rounds arbitrary: b)
  case (Suc rounds)
  obtain r q where next_channel: "EgressQueue_NextPendingChannel (hp_egress (peer_at b i)) = (r, q)"
    by (metis prod.exhaust)
  have "hub_inv ports (with_egress b i (\<lambda>_. q))"
    using hub_inv_NextPending [OF Suc.prems next_channel] .
  then show ?case
    using Suc.prems unfolding drain_channels.simps next_channel Let_def case_prod_beta
    by (auto intro!: Suc.IH hub_intros split: option.split)
qed simp

lemma hub_inv_drainPeer [hub_intros]: "hub_inv ports b \<Longrightarrow> hub_inv ports (drainPeer ports b i)"
  unfolding drainPeer_def by (rule hub_inv_drain_channels)

text \<open>The agent of a registered interface, once found, is an agent.\<close>

lemma found_entry:
  "InterfaceRegistry_FindByName r a n = Some e \<Longrightarrow> e \<in> set (ir_entries r) \<and> ie_in_use e"
  "InterfaceRegistry_FindById r i = Some e \<Longrightarrow> e \<in> set (ir_entries r) \<and> ie_in_use e"
  "InterfaceRegistry_FindByAgentChannel r p c = Some e \<Longrightarrow> e \<in> set (ir_entries r) \<and> ie_in_use e"
  by (auto simp: InterfaceRegistry_FindByName_def InterfaceRegistry_FindById_def InterfaceRegistry_FindByAgentChannel_def find_Some_iff)

lemma agent_found:
  assumes "hub_inv ports b" and "e \<in> set (ir_entries (bk_registry b)) \<and> ie_in_use e"
    and "PeerDirectory_Find (bk_directory b) (ie_agent_peer_id e) = Some i"
  shows "hp_in_use (peer_at b i)" "hp_role (peer_at b i) = kHUB_PEER_ROLE_AGENT"
proof -
  note found = FindD [OF assms(3)]
  show "hp_in_use (peer_at b i)"
    using found by blast
  have "\<not> InterfaceEntry_IsVirtual e"
    using hub_inv_peer [OF assms(1) found(1)] found by (auto simp: peer_ok_def slot_ok_def InterfaceEntry_IsVirtual_def)
  then have "connected_as b kHUB_PEER_ROLE_AGENT (hp_peer_id (peer_at b i))"
    using hub_invD(2) [OF assms(1), of e] assms(2) found(3) by (auto simp: entry_ok_def)
  then show "hp_role (peer_at b i) = kHUB_PEER_ROLE_AGENT"
    using role_unique [OF assms(1) found(1,2)] by blast
qed

lemma hub_inv_token:
  assumes "hub_inv ports b" and "e \<in> set (ir_entries (bk_registry b)) \<and> ie_in_use e"
    and "PeerDirectory_Find (bk_directory b) (ie_agent_peer_id e) = Some i"
    and "owner = ECHO_TOKENS_BRIDGE_OWNER \<or> connected_as b kHUB_PEER_ROLE_CLIENT owner"
  shows "hub_inv ports (snd (issue_token b i owner))"
  using hub_inv_issue_token [OF assms(1) agent_found [OF assms(1-3)] assms(4)] by (metis prod.collapse)

lemma hub_inv_bridgeInto [hub_intros]:
  assumes "hub_inv ports b"
  shows "hub_inv ports (bridgeInto ports b target frame)"
proof (cases "InterfaceRegistry_FindByName (bk_registry b) (be_agent_name (bt_destination target)) (be_interface_name (bt_destination target))")
  case None
  then show ?thesis
    using assms by (auto simp: bridgeInto_def intro!: hub_intros)
next
  case (Some e)
  let ?issued = "case PeerDirectory_Find (bk_directory b) (ie_agent_peer_id e) of
      None \<Rightarrow> (FRAME_ROUTE_NO_TOKEN, b) | Some agent \<Rightarrow> issue_token b agent ECHO_TOKENS_BRIDGE_OWNER"
  have "hub_inv ports (snd ?issued)"
    using assms hub_inv_token [OF assms found_entry(1) [OF Some]] by (simp split: option.split)
  then show ?thesis
    using assms unfolding bridgeInto_def Some option.case Let_def case_prod_beta by (auto intro!: hub_intros)
qed

lemma hub_inv_showToGroup [hub_intros]:
  "hub_inv ports b \<Longrightarrow> hub_inv ports (snd (showToGroup ports b entry frame originator flags))"
  unfolding showToGroup_def Let_def case_prod_beta snd_conv by (intro hub_intros) (simp add: hub_intros)

lemma hub_inv_show_to_groups [hub_intros]:
  "hub_inv ports (snd st) \<Longrightarrow> hub_inv ports (snd (show_to_groups ports origin frame originator flags is st))"
proof (induction "is" arbitrary: st)
  case Nil
  then show ?case by (cases st) simp
next
  case (Cons i "is")
  obtain shown c where st: "st = (shown, c)" by (cases st)
  show ?case
    unfolding st show_to_groups.simps
    using Cons.prems st by (intro Cons.IH) (auto intro!: hub_intros simp: case_prod_beta split: option.split)
qed

lemma hub_inv_showToGroups [hub_intros]:
  "hub_inv ports b \<Longrightarrow> hub_inv ports (snd (showToGroups ports b origin frame originator flags))"
  unfolding showToGroups_def by (intro hub_inv_show_to_groups) simp

lemma hub_inv_write_member [hub_intros]: "hub_inv ports b \<Longrightarrow> hub_inv ports (write_member ports writer slot frame i b)"
  unfolding write_member_def Let_def by (auto intro!: hub_intros)

lemma hub_inv_writeIntoGroup [hub_intros]: "hub_inv ports b \<Longrightarrow> hub_inv ports (writeIntoGroup ports b writer slot entry frame)"
  unfolding writeIntoGroup_def Let_def by (intro hub_inv_showToGroup) (erule upholds_fold, intro hub_intros)

lemma hub_inv_bridgeFrame [hub_intros]:
  "hub_inv ports b \<Longrightarrow> hub_inv ports (snd (bridgeFrame ports b i frame originator flags))"
  unfolding bridgeFrame_def Let_def case_prod_beta
  by (auto intro!: hub_inv_showToGroups upholds_fold [of "hub_inv ports"] hub_inv_bridgeInto split: option.split)

section \<open>Routing\<close>

lemma hub_inv_route_agent_frame [hub_intros]:
  "hub_inv ports b \<Longrightarrow> hub_inv ports (snd (route_agent_frame ports b i frame))"
  unfolding route_agent_frame_def Let_def case_prod_beta by (auto intro!: hub_intros)

text \<open>A peer with an attached channel is a connected client.\<close>

lemma client_with_channel:
  assumes "hub_inv ports b" and "i < length (pd_peers (bk_directory b))"
    and "ClientSession_InterfaceForChannel (hp_session (peer_at b i)) channel = Some interface_id"
  shows "connected_as b kHUB_PEER_ROLE_CLIENT (hp_peer_id (peer_at b i))"
proof -
  have "ClientSession_HoldsChannels (hp_session (peer_at b i))"
    using assms(3) find_index_SomeD
    by (fastforce simp: ClientSession_InterfaceForChannel_def ClientSession_HoldsChannels_def list_ex_length split: option.splits)
  then have "hp_in_use (peer_at b i) \<and> hp_role (peer_at b i) = kHUB_PEER_ROLE_CLIENT"
    using hub_inv_peer [OF assms(1,2)] by (simp add: peer_ok_def slot_ok_def)
  then show ?thesis
    using assms(2) by (auto simp: connected_as_def)
qed

lemma injectionToken_Nil [simp]: "injectionToken b p [] = (FRAME_ROUTE_NO_TOKEN, b)"
  by (simp add: injectionToken_def)

lemma hub_inv_injectionToken:
  assumes "hub_inv ports b" and "i < PEER_DIRECTORY_MAX"
  shows "hub_inv ports (snd (injectionToken b (peer_at b i) (fst (FrameRoutes_FromClient (bk_registry b) (peer_at b i) channel n))))"
proof (cases "ClientSession_InterfaceForChannel (hp_session (peer_at b i)) channel")
  case None
  then show ?thesis
    using assms(1) by (simp add: FrameRoutes_FromClient_def injectionToken_def)
next
  case (Some interface_id)
  note client = client_with_channel [OF assms(1) _ Some]
  show ?thesis
    using assms(1) hub_inv_token [OF assms(1) found_entry(2)] client hub_inv_sized [OF assms(1)] assms(2)
    by (auto simp: FrameRoutes_FromClient_def injectionToken_def Some split: option.split)
qed

lemma hub_inv_route_client_frame:
  assumes "hub_inv ports b" and "i < PEER_DIRECTORY_MAX"
  shows "hub_inv ports (snd (route_client_frame ports b i frame))"
  using assms(1) hub_inv_injectionToken [OF assms] unfolding route_client_frame_def Let_def case_prod_beta
  by (auto intro!: hub_intros split: option.split prod.split)

lemma hub_inv_routeFrame:
  assumes "hub_inv ports b" and "i < PEER_DIRECTORY_MAX"
  shows "hub_inv ports (snd (routeFrame ports b i frame))"
  using assms unfolding routeFrame_def Let_def
  by (auto intro!: hub_intros hub_inv_route_client_frame)

section \<open>Who a peer is\<close>

text \<open>
  A handler may change what is known of a peer, and give a role to one that has none: nothing names
  such a peer yet but its own requests.
\<close>

definition same_holdings :: "HubPeer \<Rightarrow> HubPeer \<Rightarrow> bool" where
  "same_holdings p q \<longleftrightarrow> hp_in_use q = hp_in_use p \<and> hp_peer_id q = hp_peer_id p \<and> hp_local q = hp_local p \<and>
     hp_fingerprint_hex q = hp_fingerprint_hex p \<and> hp_session q = hp_session p \<and> hp_echo_tokens q = hp_echo_tokens p \<and>
     hp_egress q = hp_egress p \<and>
     (hp_role q = hp_role p \<or> hp_role p = kHUB_PEER_ROLE_UNKNOWN \<and> (hp_role q = kHUB_PEER_ROLE_ADMIN \<longrightarrow> hp_local p))"

lemma slot_ok_holdings: "slot_ok p \<Longrightarrow> same_holdings p q \<Longrightarrow> slot_ok q"
  by (auto simp: slot_ok_def same_holdings_def)

lemma hub_inv_directory:
  assumes inv: "hub_inv ports b" and c: "c = b\<lparr>bk_directory := d\<rparr>"
    and as: "\<And>role peer_id. connected_as b role peer_id \<Longrightarrow> role \<noteq> kHUB_PEER_ROLE_UNKNOWN \<Longrightarrow> connected_as c role peer_id"
    and some: "\<And>peer_id. connected b peer_id \<Longrightarrow> connected c peer_id"
    and peers: "peers_ok ports c"
  shows "hub_inv ports c"
proof -
  have tables: "bk_registry c = bk_registry b" "bk_transactions c = bk_transactions b"
    "bk_pending_ifconfig c = bk_pending_ifconfig b" "tables_ok c = tables_ok b"
    by (simp_all add: c tables_ok_def)
  have "entry_ok (connected_as c kHUB_PEER_ROLE_AGENT) e" if "e \<in> set (ir_entries (bk_registry b))" for e
    using hub_invD(2) [OF inv that] as [of kHUB_PEER_ROLE_AGENT] unfolding entry_ok_def by (auto split: if_splits)
  then have "registry_ok c"
    using hub_invD(1) [OF inv] by (simp add: registry_ok_def tables)
  moreover have "connected_as c kHUB_PEER_ROLE_AGENT (rt_agent_peer_id t) \<and>
      (rt_client_peer_id t = TRANSACTION_NO_CLIENT \<or> connected_as c kHUB_PEER_ROLE_CLIENT (rt_client_peer_id t))"
    if "t \<in> set (tt_entries (bk_transactions b))" "isInUse t" for t
    using hub_invD(4) [OF inv that] as [of kHUB_PEER_ROLE_AGENT] as [of kHUB_PEER_ROLE_CLIENT] by auto
  then have "transactions_ok c"
    using hub_invD(3) [OF inv] by (simp add: transactions_ok_def tables)
  moreover have "connected_as c kHUB_PEER_ROLE_AGENT (pi_agent_peer_id q) \<and> connected c (pi_requester_peer_id q)"
    if "q \<in> set (bk_pending_ifconfig b)" "pi_in_use q" for q
    using hub_invD(6) [OF inv that] as [of kHUB_PEER_ROLE_AGENT] some by auto
  then have "pending_ok c"
    using hub_invD(5) [OF inv] by (simp add: pending_ok_def tables)
  ultimately show ?thesis
    using hub_invD(7) [OF inv] peers by (simp add: hub_inv_def tables)
qed

lemma hub_inv_holdings:
  assumes inv: "hub_inv ports b" and same: "same_holdings (peer_at b i) (f (peer_at b i))"
  shows "hub_inv ports (with_peer b i f)" (is "hub_inv ports ?c")
proof (cases "i < length (pd_peers (bk_directory b))")
  case True
  let ?ps = "pd_peers (bk_directory b)"
  have at: "same_holdings (peer_at b j) (peer_at ?c j)" if "j < length ?ps" for j
    using that same by (cases "j = i") (simp_all add: with_peer_def same_holdings_def)
  have len: "length (pd_peers (bk_directory ?c)) = length ?ps"
    by (simp add: with_peer_def)
  have as: "connected_as ?c r j" if "connected_as b r j" "r \<noteq> kHUB_PEER_ROLE_UNKNOWN" for r j
  proof -
    obtain k where "k < length ?ps" "hp_in_use (peer_at b k)" "hp_role (peer_at b k) = r" "hp_peer_id (peer_at b k) = j"
      using \<open>connected_as b r j\<close> by (auto simp: connected_as_def in_set_conv_nth)
    then show ?thesis
      using at [of k] len \<open>r \<noteq> _\<close> unfolding connected_as_def same_holdings_def
      by (intro bexI [of _ "peer_at ?c k"]) auto
  qed
  have some: "connected ?c j" if "connected b j" for j
  proof -
    obtain k where "k < length ?ps" "hp_in_use (peer_at b k)" "hp_peer_id (peer_at b k) = j"
      using \<open>connected b j\<close> by (auto simp: connected_def in_set_conv_nth)
    then show ?thesis
      using at [of k] len unfolding connected_def same_holdings_def
      by (intro bexI [of _ "peer_at ?c k"]) auto
  qed
  have "map (\<lambda>p. (hp_in_use p, hp_peer_id p)) (pd_peers (bk_directory ?c)) = map (\<lambda>p. (hp_in_use p, hp_peer_id p)) ?ps"
    using same by (simp add: with_peer_def map_list_update_same same_holdings_def)
  then have "map hp_peer_id (filter hp_in_use (pd_peers (bk_directory ?c))) = map hp_peer_id (filter hp_in_use ?ps)"
    by (rule map_filter_cong)
  then have "slots_distinct hp_in_use hp_peer_id (pd_peers (bk_directory ?c))"
    using inv by (simp add: slots_distinct_def hub_inv_def peers_ok_def)
  moreover have "peer_ok ports ?c p" if p: "p \<in> set (pd_peers (bk_directory ?c))" for p
  proof -
    obtain j where j: "j < length ?ps" "p = peer_at ?c j"
      using p len by (auto simp: in_set_conv_nth)
    note ok = hub_inv_peer [OF inv j(1)] and holdings = at [OF j(1)]
    have "slot_ok p"
      using ok holdings slot_ok_holdings j(2) by (auto simp: peer_ok_def)
    moreover have "owners_ok (connected_as ?c kHUB_PEER_ROLE_CLIENT) p"
      using ok holdings as [of kHUB_PEER_ROLE_CLIENT] j(2) unfolding peer_ok_def owners_ok_def same_holdings_def by auto
    moreover have "bk_registry ?c = bk_registry b" "bk_calls ?c = bk_calls b"
      by (simp_all add: with_peer_def)
    ultimately show ?thesis
      using ok holdings j(2) by (simp add: peer_ok_def same_holdings_def)
  qed
  ultimately have "peers_ok ports ?c"
    using inv len by (simp add: hub_inv_def peers_ok_def)
  then show ?thesis
    using hub_inv_directory [OF inv with_peer_def as some] by blast
next
  case False
  then show ?thesis
    using inv by (simp add: with_peer_def list_update_beyond)
qed

lemma hub_inv_vouched [hub_intros]: "hub_inv ports b \<Longrightarrow> hub_inv ports (with_peer b i (\<lambda>p. p\<lparr>hp_vouched := v\<rparr>))"
  by (rule hub_inv_holdings) (simp_all add: same_holdings_def)

lemma hub_inv_deadline [hub_intros]: "hub_inv ports b \<Longrightarrow> hub_inv ports (with_peer b i (\<lambda>p. p\<lparr>hp_hello_deadline_us := v\<rparr>))"
  by (rule hub_inv_holdings) (simp_all add: same_holdings_def)

lemma hub_inv_SetAgentName [hub_intros]: "hub_inv ports b \<Longrightarrow> hub_inv ports (with_peer b i (\<lambda>p. HubPeer_SetAgentName p name))"
  by (rule hub_inv_holdings) (simp_all add: same_holdings_def HubPeer_SetAgentName_def)

lemma hub_inv_AdoptRole:
  assumes "hub_inv ports b" and "hp_role (peer_at b i) = kHUB_PEER_ROLE_UNKNOWN"
    and "HubPeer_AdoptRole (peer_at b i) role = (ok, p)"
  shows "hub_inv ports (with_peer b i (\<lambda>_. p\<lparr>hp_capabilities := capabilities\<rparr>))"
  using assms by (intro hub_inv_holdings) (auto simp: same_holdings_def HubPeer_AdoptRole_def split: if_splits)

section \<open>Hello and registration\<close>

lemma hub_inv_recordRejection [hub_intros]:
  "hub_inv ports b \<Longrightarrow> hub_inv ports (b\<lparr>bk_rejected_peers := RejectedPeers_Record (bk_rejected_peers b) r\<rparr>)"
  by (intro hub_inv_rejected Record_inv hub_inv_tablesD)

lemma hub_inv_forget_rejection [hub_intros]: "hub_inv ports b \<Longrightarrow> hub_inv ports (forget_rejection b i)"
  unfolding forget_rejection_def by (intro hub_inv_rejected Forget_spec(1) hub_inv_tablesD)

lemma hub_inv_refuse_peer [hub_intros]: "hub_inv ports b \<Longrightarrow> hub_inv ports (refuse_peer ports b i code detail)"
  unfolding refuse_peer_def Let_def by (intro hub_intros)

lemma hub_inv_rejectClient [hub_intros]: "hub_inv ports b \<Longrightarrow> hub_inv ports (rejectClient ports b i)"
  unfolding rejectClient_def Let_def by (intro hub_intros)

lemma hub_inv_rejectAgent [hub_intros]: "hub_inv ports b \<Longrightarrow> hub_inv ports (rejectAgent ports b i registration status)"
  unfolding rejectAgent_def Let_def by (auto intro!: hub_intros)

lemma hub_inv_handleHello [hub_intros]:
  assumes "hub_inv ports b"
  shows "hub_inv ports (handleHello ports b i header payload)"
proof (cases "hp_role (peer_at b i) = kHUB_PEER_ROLE_UNKNOWN")
  case True
  obtain ok hello where decoded: "HelloMessage_Decode HelloMessage_zero payload = (ok, hello)"
    by (metis prod.exhaust)
  obtain adopted p where p: "HubPeer_AdoptRole (peer_at b i) (hello_role hello) = (adopted, p)"
    by (metis prod.exhaust)
  have "hub_inv ports (with_peer b i (\<lambda>_. p\<lparr>hp_capabilities := hello_capabilities hello\<rparr>))"
    by (rule hub_inv_AdoptRole [OF assms True p])
  then show ?thesis
    using assms True by (cases ok; cases adopted) (auto simp: handleHello_def decoded p Let_def intro!: hub_intros)
qed (simp add: handleHello_def assms)

text \<open>
  The peer that registers survives what the hub does for it: a ghost has another id, and the agents
  that make room are not vouched for, while it is.
\<close>

definition stays :: "nat \<Rightarrow> Broker \<Rightarrow> Broker \<Rightarrow> bool" where
  "stays i b c \<longleftrightarrow> length (pd_peers (bk_directory c)) = length (pd_peers (bk_directory b)) \<and> who (peer_at c i) = who (peer_at b i)"

lemma staysD:
  assumes "stays i b c"
  shows "hp_in_use (peer_at c i) = hp_in_use (peer_at b i)" "hp_role (peer_at c i) = hp_role (peer_at b i)"
    "hp_vouched (peer_at c i) = hp_vouched (peer_at b i)" "hp_peer_id (peer_at c i) = hp_peer_id (peer_at b i)"
    "length (pd_peers (bk_directory c)) = length (pd_peers (bk_directory b))"
  using assms who_eqD [of "peer_at c i" "peer_at b i"] by (simp_all add: stays_def)

lemma stays_trans: "stays i b c \<Longrightarrow> stays i c d \<Longrightarrow> stays i b d"
  by (simp add: stays_def)

lemma bk_directory_sendError [simp]: "bk_directory (sendError b peer_id code detail) = bk_directory b"
  by (simp add: sendError_def Let_def split_beta calling_def)

lemma stays_disconnectPeer:
  assumes "i < length (pd_peers (bk_directory b))" and "hp_peer_id (peer_at b i) \<noteq> peer_id"
  shows "stays i b (disconnectPeer ports b peer_id)"
  using disconnectPeer_others [OF assms] by (simp add: stays_def)

lemma displace_agents_keeps:
  assumes "hub_inv ports b" "i < length (pd_peers (bk_directory b))" "hp_in_use (peer_at b i)" "hp_vouched (peer_at b i)"
  shows "hub_inv ports (snd (displace_agents ports n b)) \<and> stays i b (snd (displace_agents ports n b))"
  using assms
proof (induction ports n b rule: displace_agents.induct)
  case (1 ports n b)
  show ?case
  proof (cases "INTERFACE_REGISTRY_MAX - InterfaceRegistry_Count (bk_registry b) \<ge> unat n \<or>
      PeerDirectory_FindDisplaceableAgent (bk_directory b) = None")
    case True
    then show ?thesis
      using "1.prems"(1) by (auto simp: displace_agents.simps [of ports n b] stays_def)
  next
    case False
    then obtain j where j: "PeerDirectory_FindDisplaceableAgent (bk_directory b) = Some j"
      by auto
    define c where "c = disconnectPeer ports (sendError b (hp_peer_id (peer_at b j)) kERROR_CODE_HUB_FULL
      (c_text ''displaced by an enrolled agent'')) (hp_peer_id (peer_at b j))"
    have "\<not> hp_vouched (peer_at b j)"
      using displaced_live(3) [OF j] by (auto simp: HubPeer_Displacement_def)
    then have "hp_peer_id (peer_at b i) \<noteq> hp_peer_id (peer_at b j)"
      using "1.prems" displaced_live(1,2) [OF j] by (auto simp: hub_inv_def peers_ok_def peers.distinct_iff)
    then have c: "stays i b c"
      using stays_disconnectPeer [of i "sendError b (hp_peer_id (peer_at b j)) kERROR_CODE_HUB_FULL
        (c_text ''displaced by an enrolled agent'')"] "1.prems"(2) by (simp add: c_def stays_def)
    have step: "displace_agents ports n b = displace_agents ports n c"
      using False j by (simp add: displace_agents.simps [of ports n b] c_def Let_def)
    have "hub_inv ports c"
      unfolding c_def using "1.prems"(1) by (intro hub_intros)
    then have "hub_inv ports (snd (displace_agents ports n c)) \<and> stays i c (snd (displace_agents ports n c))"
      using "1.IH" [OF _ j refl refl] False "1.prems"(2-4) staysD [OF c] unfolding c_def [symmetric] by simp
    then show ?thesis
      using stays_trans [OF c] step by simp
  qed
qed

lemma displaceGhostPeer_keeps:
  assumes "hub_inv ports b" "i < length (pd_peers (bk_directory b))"
  shows "hub_inv ports (snd (displaceGhostPeer ports b (peer_at b i) q)) \<and> stays i b (snd (displaceGhostPeer ports b (peer_at b i) q))"
  using assms hub_inv_disconnectPeer [OF assms(1)] stays_disconnectPeer [OF assms(2)]
  by (auto simp: displaceGhostPeer_def stays_def split: option.split)

definition agent_at :: "Broker \<Rightarrow> nat \<Rightarrow> bool" where
  "agent_at b i \<longleftrightarrow> i < length (pd_peers (bk_directory b)) \<and> hp_in_use (peer_at b i) \<and> hp_role (peer_at b i) = kHUB_PEER_ROLE_AGENT"

lemma agent_at_connected: "agent_at b i \<Longrightarrow> connected_as b kHUB_PEER_ROLE_AGENT (hp_peer_id (peer_at b i))"
  by (auto simp: agent_at_def connected_as_def)

lemma agent_at_stays: "agent_at b i \<Longrightarrow> stays i b c \<Longrightarrow> agent_at c i"
  using staysD [of i b c] by (simp add: agent_at_def)

lemma register_agent_keeps:
  assumes "hub_inv ports b" "agent_at b i" "registration_ok q"
  shows "hub_inv ports (snd (snd (register_agent b (hp_peer_id (peer_at b i)) q)))"
    and "stays i b (snd (snd (register_agent b (hp_peer_id (peer_at b i)) q)))"
proof -
  obtain ok ack c where c: "register_agent b (hp_peer_id (peer_at b i)) q = (ok, ack, c)"
    by (metis prod.exhaust)
  then show "stays i b (snd (snd (register_agent b (hp_peer_id (peer_at b i)) q)))"
    by (auto simp: register_agent_def stays_def split: prod.splits)
  show "hub_inv ports (snd (snd (register_agent b (hp_peer_id (peer_at b i)) q)))"
    using hub_inv_register_agent [OF assms(1) agent_at_connected [OF assms(2)] assms(3) c] c by simp
qed

lemma makeRoomForInterfaces_keeps:
  assumes "hub_inv ports b" "agent_at b i" "hp_vouched (peer_at b i)"
  shows "hub_inv ports (snd (makeRoomForInterfaces ports b n)) \<and> stays i b (snd (makeRoomForInterfaces ports b n))"
  using displace_agents_keeps [OF assms(1) _ _ assms(3)] assms(1,2) unfolding makeRoomForInterfaces_def agent_at_def
  by (auto simp: stays_def)

lemma register_attempts_keeps:
  assumes inv: "hub_inv ports b" and agent: "agent_at b i" and q: "registration_ok q"
  shows "hub_inv ports (snd (snd (register_attempts ports b i q)))" and "stays i b (snd (snd (register_attempts ports b i q)))"
proof -
  define good where "good c \<longleftrightarrow> hub_inv ports c \<and> stays i b c" for c
  have register: "good (snd (snd (register_agent c (hp_peer_id (peer_at c i)) q)))" if "good c" for c
    using that register_agent_keeps [OF _ _ q, of ports c i] agent_at_stays [OF agent] stays_trans unfolding good_def by blast
  have ghost: "good (snd (displaceGhostPeer ports c (peer_at c i) q))" if "good c" for c
    using that displaceGhostPeer_keeps [of ports c i q] agent_at_stays [OF agent, of c] stays_trans
    unfolding good_def agent_at_def by blast
  have room: "good (snd (makeRoomForInterfaces ports c n))" if "good c" "hp_vouched (peer_at c i)" for c n
    using that makeRoomForInterfaces_keeps [of ports c i n] agent_at_stays [OF agent, of c] stays_trans
    unfolding good_def by blast
  have "good b"
    using inv by (simp add: good_def stays_def)
  define x where "x = register_agent b (hp_peer_id (peer_at b i)) q"
  define y where "y = (if \<not> fst x then displaceGhostPeer ports (snd (snd x)) (peer_at (snd (snd x)) i) q else (False, snd (snd x)))"
  define z where "z = (if fst y then register_agent (snd y) (hp_peer_id (peer_at (snd y) i)) q else (fst x, fst (snd x), snd y))"
  define w where "w = (if \<not> fst z \<and> hp_vouched (peer_at (snd (snd z)) i)
    then makeRoomForInterfaces ports (snd (snd z)) (reg_interface_count q) else (False, snd (snd z)))"
  have x: "good (snd (snd x))"
    unfolding x_def by (rule register [OF \<open>good b\<close>])
  have y: "good (snd y)"
    unfolding y_def using x ghost [OF x] by auto
  have z: "good (snd (snd z))"
    unfolding z_def using y register [OF y] by auto
  have w: "good (snd w)"
    unfolding w_def using z room [OF z] by auto
  have "register_attempts ports b i q =
      (if fst w then register_agent (snd w) (hp_peer_id (peer_at (snd w) i)) q else (fst z, fst (snd z), snd w))"
    by (simp add: register_attempts_def x_def y_def z_def w_def Let_def case_prod_beta)
  then have "good (snd (snd (register_attempts ports b i q)))"
    using w register [OF w] by auto
  then show "hub_inv ports (snd (snd (register_attempts ports b i q)))" "stays i b (snd (snd (register_attempts ports b i q)))"
    by (simp_all add: good_def)
qed

lemma agentIdentityStatus_quiet:
  "hub_inv ports b \<Longrightarrow> hub_inv ports (snd (agentIdentityStatus ports b p q)) \<and>
     bk_directory (snd (agentIdentityStatus ports b p q)) = bk_directory b"
  by (auto simp: agentIdentityStatus_def Let_def calling_def split: option.split intro!: hub_inv_calling [unfolded calling_def])

lemma hub_inv_handleRegister [hub_intros]:
  assumes inv: "hub_inv ports b" and i: "i < PEER_DIRECTORY_MAX" "hp_in_use (peer_at b i)"
  shows "hub_inv ports (handleRegister ports b i header payload)"
proof (cases "hp_role (peer_at b i) = kHUB_PEER_ROLE_AGENT")
  case True
  obtain ok q where q: "RegisterMessage_Decode RegisterMessage_zero payload = (ok, q)"
    by (metis prod.exhaust)
  obtain status c where c: "agentIdentityStatus ports b (peer_at b i) q = (status, c)"
    by (metis prod.exhaust)
  define d where "d = with_peer c i (\<lambda>p. p\<lparr>hp_vouched := agentIsEnrolled ports c (peer_at c i)\<rparr>)"
  obtain registered ack e where e: "register_attempts ports d i q = (registered, ack, e)"
    by (metis prod.exhaust)
  have "hub_inv ports c" and dir: "bk_directory c = bk_directory b"
    using agentIdentityStatus_quiet [OF inv, of "peer_at b i" q] c by simp_all
  then have "hub_inv ports d"
    unfolding d_def by (intro hub_intros)
  moreover have "agent_at d i"
    using i True dir hub_inv_sized [OF inv] by (simp add: d_def agent_at_def with_peer_def)
  ultimately have "ok \<Longrightarrow> hub_inv ports e"
    using register_attempts_keeps(1) [of ports d i q] decoded_registration_ok [of payload q] q e by simp
  then show ?thesis
    using inv \<open>hub_inv ports c\<close> True
    by (cases ok) (auto simp: handleRegister_def q c e d_def [symmetric] Let_def intro!: hub_intros)
qed (simp add: handleRegister_def inv)

section \<open>Listing, channels and filters\<close>

text \<open>A handler branches on conditions, on look-ups and on whether a message decodes.\<close>

named_theorems hub_cases

lemma hub_inv_if [hub_cases]: "(c \<Longrightarrow> hub_inv ports x) \<Longrightarrow> (\<not> c \<Longrightarrow> hub_inv ports y) \<Longrightarrow> hub_inv ports (if c then x else y)"
  by simp

lemma hub_inv_option [hub_cases]:
  "(a = None \<Longrightarrow> hub_inv ports x) \<Longrightarrow> (\<And>v. a = Some v \<Longrightarrow> hub_inv ports (f v)) \<Longrightarrow>
     hub_inv ports (case a of None \<Rightarrow> x | Some v \<Rightarrow> f v)"
  by (cases a) simp_all

lemma hub_inv_bool [hub_cases]:
  "(c \<Longrightarrow> hub_inv ports x) \<Longrightarrow> (\<not> c \<Longrightarrow> hub_inv ports y) \<Longrightarrow> hub_inv ports (case c of True \<Rightarrow> x | False \<Rightarrow> y)"
  by (cases c) simp_all

lemma hub_inv_prod [hub_cases]:
  "(\<And>u v. a = (u, v) \<Longrightarrow> hub_inv ports (f u v)) \<Longrightarrow> hub_inv ports (case a of (u, v) \<Rightarrow> f u v)"
  by (cases a) simp

lemma hub_inv_sum [hub_cases]:
  "(\<And>u. a = Inl u \<Longrightarrow> hub_inv ports (f u)) \<Longrightarrow> (\<And>v. a = Inr v \<Longrightarrow> hub_inv ports (g v)) \<Longrightarrow>
     hub_inv ports (case a of Inl u \<Rightarrow> f u | Inr v \<Rightarrow> g v)"
  by (cases a) simp_all

lemma hub_inv_handleList [hub_intros]: "hub_inv ports b \<Longrightarrow> hub_inv ports (handleList ports b i header payload)"
  unfolding handleList_def by (intro hub_cases hub_intros)

lemma hub_inv_send_open_ack [hub_intros]: "hub_inv ports b \<Longrightarrow> hub_inv ports (send_open_ack ports b i status channel interface_id)"
  unfolding send_open_ack_def by (intro hub_intros)

lemma hub_inv_handleOpen [hub_intros]:
  assumes inv: "hub_inv ports b" and i: "hp_in_use (peer_at b i)"
  shows "hub_inv ports (handleOpen ports b i header payload)"
proof (cases "hp_role (peer_at b i) = kHUB_PEER_ROLE_CLIENT")
  case True
  show ?thesis
    unfolding handleOpen_def Let_def by (intro hub_cases hub_intros inv hub_inv_OpenInterface [OF inv i True]) auto
qed (simp add: handleOpen_def inv)

lemma hub_inv_handleClose [hub_intros]: "hub_inv ports b \<Longrightarrow> hub_inv ports (handleClose ports b i header payload)"
  unfolding handleClose_def by (intro hub_cases hub_intros)

lemma hub_inv_handleSubscribe [hub_intros]: "hub_inv ports b \<Longrightarrow> hub_inv ports (handleSubscribe ports b i header payload)"
  unfolding handleSubscribe_def by (intro hub_cases hub_intros; auto intro: hub_inv_SetFilters)

lemma hub_inv_handlePing [hub_intros]: "hub_inv ports b \<Longrightarrow> hub_inv ports (handlePing ports b i header payload)"
  unfolding handlePing_def by (intro hub_cases hub_intros)

end
