(* ===== verification/BrokerDrain.thy ===== *)
theory BrokerDrain
  imports BrokerEvents "HOL-Library.Sublist"
begin

text \<open>
  The inner loop of \<open>drainPeer\<close> of \<open>hub/broker.c\<close>: it ends, within the fuel the model gives it,
  and hands the frames of a channel to the transport in the order they were queued.
\<close>

section \<open>What the loop does to the queue\<close>

abbreviation (input) queued :: "Broker \<Rightarrow> nat \<Rightarrow> u8 \<Rightarrow> (bytes \<times> nat) list" where
  "queued b peer channel \<equiv> contents (hp_egress (peer_at b peer)) channel"

lemma peer_with_peer:
  "i < length (pd_peers (bk_directory b)) \<Longrightarrow> peer_at (with_peer b j f) i = (if i = j then f (peer_at b i) else peer_at b i)"
  by (simp add: with_peer_def)

lemma length_with_peer [simp]: "length (pd_peers (bk_directory (with_peer b j f))) = length (pd_peers (bk_directory b))"
  by (simp add: with_peer_def)

lemma egress_unchanged [simp]:
  assumes "i < length (pd_peers (bk_directory b))"
  shows "hp_egress (peer_at (countForwarded b j channel) i) = hp_egress (peer_at b i)"
    and "hp_egress (peer_at (countDropped b j channel) i) = hp_egress (peer_at b i)"
    and "hp_peer_id (peer_at (countForwarded b j channel) i) = hp_peer_id (peer_at b i)"
    and "hp_peer_id (peer_at (countDropped b j channel) i) = hp_peer_id (peer_at b i)"
  using assms
  by (auto simp: countForwarded_def countDropped_def Let_def with_binding_def with_session_def peer_with_peer split: option.split)
    (simp_all add: with_metrics_def peer_with_peer)

lemma counting_unchanged [simp]:
  "length (pd_peers (bk_directory (countForwarded b j channel))) = length (pd_peers (bk_directory b))"
  "length (pd_peers (bk_directory (countDropped b j channel))) = length (pd_peers (bk_directory b))"
  "bk_calls (countForwarded b j channel) = bk_calls b" "bk_calls (countDropped b j channel) = bk_calls b"
  by (auto simp: countForwarded_def countDropped_def Let_def with_binding_def with_session_def with_peer_def with_metrics_def
      split: option.split)

lemma sending_unchanged [simp]:
  "bk_directory (snd (try_egress b peer_id channel bits)) = bk_directory b"
  "bk_calls (snd (try_egress b peer_id channel bits)) = bk_calls b"
  "bk_directory (snd (send_frame ports b peer_id channel data)) = bk_directory b"
  "bk_calls (snd (send_frame ports b peer_id channel data)) = bk_calls b @ [SendFrame peer_id channel data]"
  by (simp_all add: try_egress_def send_frame_def calling_def case_prod_beta)

lemma popping [simp]:
  assumes "i < length (pd_peers (bk_directory b))"
  shows "hp_egress (peer_at (with_egress b i f) i) = f (hp_egress (peer_at b i))"
    and "hp_peer_id (peer_at (with_egress b i f) i) = hp_peer_id (peer_at b i)"
    and "length (pd_peers (bk_directory (with_egress b i f))) = length (pd_peers (bk_directory b))"
    and "bk_calls (with_egress b i f) = bk_calls b"
  using assms by (simp_all add: with_egress_def with_peer_def)

lemma front_of_queue:
  assumes "EgressQueue_inv q"
  shows "EgressQueue_FrontOfChannel q c = None \<longleftrightarrow> contents q c = []"
    and "EgressQueue_FrontOfChannel q c = Some (data, sz) \<Longrightarrow> \<exists>t fs. contents q c = (take sz data, t) # fs"
  using egress.step_sim [OF assms, of "EgressFront c"]
  by (cases "EgressQueue_FrontOfChannel q c"; cases "contents q c"; auto simp: egress_abs_def)+

lemma popped_queue:
  assumes "EgressQueue_inv q"
  shows "EgressQueue_inv (EgressQueue_PopChannel q c)" and "contents (EgressQueue_PopChannel q c) = (contents q)(c := tl (contents q c))"
  using egress.step_sim [OF assms, of "EgressPop c"] egress.step_inv [OF assms, of "EgressPop c"] by (simp_all add: egress_abs_def)

lemma queue_bounded: "EgressQueue_inv q \<Longrightarrow> length (contents q c) \<le> EGRESS_QUEUE_SLOTS_MAX"
  using pool_length contents_pool settledD(1) by (fastforce simp: EgressQueue_inv_def)

text \<open>One round takes the oldest frame off the channel, or ends the loop.\<close>

definition popped :: "Broker \<Rightarrow> nat \<Rightarrow> u8 \<Rightarrow> Broker \<Rightarrow> bool" where
  "popped b i channel c \<longleftrightarrow> EgressQueue_inv (hp_egress (peer_at c i)) \<and> i < length (pd_peers (bk_directory c)) \<and>
     hp_peer_id (peer_at c i) = hp_peer_id (peer_at b i) \<and>
     contents (hp_egress (peer_at c i)) = (contents (hp_egress (peer_at b i)))(channel := tl (queued b i channel))"

lemma popped_counted:
  assumes "EgressQueue_inv (hp_egress (peer_at b i))" and "i < length (pd_peers (bk_directory b))"
    and "c = with_egress b i (\<lambda>q. EgressQueue_PopChannel q channel)"
  shows "popped b i channel (countForwarded c j e)" "popped b i channel (countDropped c j e)"
  using assms popped_queue by (simp_all add: popped_def)

text \<open>Once the fuel exceeds the queue of the channel, more of it changes nothing.\<close>

lemma drain_channel_more:
  assumes "EgressQueue_inv (hp_egress (peer_at b i))" "i < length (pd_peers (bk_directory b))" "length (queued b i channel) < n"
  shows "drain_channel ports i channel (n + m) b = drain_channel ports i channel n b"
  using assms
proof (induction n arbitrary: b)
  case (Suc n)
  show ?case
  proof (cases "EgressQueue_FrontOfChannel (hp_egress (peer_at b i)) channel")
    case (Some front)
    obtain data sz where front: "front = (data, sz)"
      by (cases front)
    obtain f fs where q: "queued b i channel = f # fs"
      using front_of_queue(2) [OF Suc.prems(1)] Some front by blast
    have round: "drain_channel ports i channel (n + m) c = drain_channel ports i channel n c" if "popped b i channel c" for c
      using that Suc.prems(3) q by (intro Suc.IH) (auto simp: popped_def)
    have sent: "popped b i channel (countForwarded (with_egress (snd (send_frame ports (snd (try_egress b peer_id channel bits)) peer_id channel data)) i
        (\<lambda>q. EgressQueue_PopChannel q channel)) i channel)" for peer_id bits data
      using Suc.prems(1,2) popped_queue by (simp add: popped_def)
    show ?thesis
      using round [OF popped_counted(2) [OF Suc.prems(1,2) refl]] round [OF sent]
      by (simp add: Some front Let_def case_prod_beta)
  qed simp
qed simp

text \<open>
  What the loop may do with a queue: stop, be refused a frame it tried to send, which stays, drop
  the oldest frame, or send it.
\<close>

inductive handed :: "(bytes \<times> nat) list \<Rightarrow> bool \<Rightarrow> bytes list \<Rightarrow> (bytes \<times> nat) list \<Rightarrow> bool" where
  stopped: "handed q False [] q"
| refused: "handed (f # q) True [fst f] (f # q)"
| dropped: "handed q r sent rest \<Longrightarrow> handed (f # q) r sent rest"
| sent: "handed q r sent rest \<Longrightarrow> handed (f # q) r (fst f # sent) rest"

lemma handed_order: "handed q r sent rest \<Longrightarrow> subseq sent (map fst q) \<and> suffix rest q"
  by (induction rule: handed.induct) (auto intro: suffix_ConsI)

lemma drain_channel_handed:
  assumes "EgressQueue_inv (hp_egress (peer_at b i))" "i < length (pd_peers (bk_directory b))"
    and "drain_channel ports i channel n b = (r, c)"
  shows "\<exists>frames. bk_calls c = bk_calls b @ map (SendFrame (hp_peer_id (peer_at b i)) channel) frames \<and>
    handed (queued b i channel) r frames (queued c i channel) \<and> (\<forall>e. e = channel \<or> queued c i e = queued b i e)"
  using assms
proof (induction n arbitrary: b)
  case 0
  then show ?case
    using handed.stopped by (intro exI [of _ "[]"]) simp
next
  case (Suc n)
  show ?case
  proof (cases "EgressQueue_FrontOfChannel (hp_egress (peer_at b i)) channel")
    case None
    then show ?thesis
      using Suc.prems(3) handed.stopped by (intro exI [of _ "[]"]) simp
  next
    case (Some front)
    obtain data sz where front: "front = (data, sz)"
      by (cases front)
    obtain t fs where q: "queued b i channel = (take sz data, t) # fs"
      using front_of_queue(2) [OF Suc.prems(1)] Some front by blast
    define x where "x = try_egress b (hp_peer_id (peer_at b i)) channel (frameWireBits data sz)"
    define y where "y = send_frame ports (snd x) (hp_peer_id (peer_at b i)) channel (take sz data)"
    define d where "d = countDropped (with_egress b i (\<lambda>q. EgressQueue_PopChannel q channel)) i channel"
    define e where "e = countForwarded (with_egress (snd y) i (\<lambda>q. EgressQueue_PopChannel q channel)) i channel"
    have d: "popped b i channel d" "bk_calls d = bk_calls b"
      using popped_counted(2) [OF Suc.prems(1,2) refl] Suc.prems(2) by (simp_all add: d_def)
    have e: "popped b i channel e" "bk_calls e = bk_calls b @ [SendFrame (hp_peer_id (peer_at b i)) channel (take sz data)]"
      using Suc.prems(1,2) popped_queue by (simp_all add: e_def y_def x_def popped_def)
    have round: "\<exists>frames. bk_calls c = bk_calls g @ map (SendFrame (hp_peer_id (peer_at b i)) channel) frames \<and>
        handed fs r frames (queued c i channel) \<and> (\<forall>e. e = channel \<or> queued c i e = queued b i e)"
      if g_popped: "popped b i channel g" and drained: "drain_channel ports i channel n g = (r, c)" for g
    proof -
      have g: "hp_peer_id (peer_at g i) = hp_peer_id (peer_at b i)" "queued g i channel = fs"
        "\<And>e. e \<noteq> channel \<Longrightarrow> queued g i e = queued b i e"
        using g_popped q by (simp_all add: popped_def)
      obtain frames where "bk_calls c = bk_calls g @ map (SendFrame (hp_peer_id (peer_at b i)) channel) frames"
        "handed fs r frames (queued c i channel)" "\<forall>e. e = channel \<or> queued c i e = queued g i e"
        using Suc.IH [OF _ _ drained] g_popped unfolding popped_def g by blast
      moreover from this(3) have "queued c i e = queued b i e" if "e \<noteq> channel" for e
        using g(3) [OF that] that by metis
      ultimately show ?thesis
        by (intro exI [of _ frames]) blast
    qed
    have "drain_channel ports i channel (Suc n) b =
        (if liveFrameTooOld b (peer_at b i) channel then drain_channel ports i channel n d
         else if \<not> fst x then (False, snd x) else if \<not> fst y then (True, snd y) else drain_channel ports i channel n e)"
      by (simp add: Some front Let_def case_prod_beta x_def y_def d_def e_def)
    then consider "drain_channel ports i channel n d = (r, c)"
      | "r = False" "c = snd x" | "r = True" "c = snd y" | "drain_channel ports i channel n e = (r, c)"
      unfolding Suc.prems(3) by (metis prod.inject)
    then show ?thesis
    proof cases
      case 1
      then show ?thesis
        using round [OF d(1)] unfolding d(2) q by (blast intro: handed.dropped)
    next
      case 2
      then show ?thesis
        using handed.stopped by (intro exI [of _ "[]"]) (simp add: x_def)
    next
      case 3
      then show ?thesis
        using handed.refused [of "(take sz data, t)" fs] q
        by (intro exI [of _ "[take sz data]"]) (simp add: y_def x_def)
    next
      case 4
      then obtain frames where "bk_calls c = bk_calls e @ map (SendFrame (hp_peer_id (peer_at b i)) channel) frames"
        "handed fs r frames (queued c i channel)" "\<forall>e. e = channel \<or> queued c i e = queued b i e"
        using round [OF e(1)] by blast
      then show ?thesis
        using handed.sent [of fs r frames _ "(take sz data, t)"] e(2) q
        by (intro exI [of _ "take sz data # frames"]) simp
    qed
  qed
qed

section \<open>Properties\<close>

text \<open>A hub whose transport takes everything and whose access list lets everyone read and nobody write.\<close>

definition example_ports :: HubPorts where
  "example_ports =
     \<lparr>hub_transport = \<lparr>htp_send_control = \<lambda>h peer_id data. True, htp_send_frame = \<lambda>h peer_id channel data. True,
        htp_frame_fits = \<lambda>h peer_id channel sz. True, htp_channel_reliable = \<lambda>h peer_id channel. True,
        htp_receive_overflows = \<lambda>h. 0\<rparr>,
      hub_identity_store = None,
      hub_authorization = Some \<lparr>azp_read_allowed = \<lambda>h fingerprint_hex agent_name interface_name. True,
        azp_write_allowed = \<lambda>h fingerprint_hex agent_name interface_name. False,
        azp_admin_allowed = \<lambda>h fingerprint_hex agent_name interface_name. False,
        azp_grant = \<lambda>h entry. True, azp_revoke = \<lambda>h fingerprint_hex agent_name interface_name. True,
        azp_list = \<lambda>h offset. (0, [], False), azp_knows = \<lambda>h fingerprint_hex. True\<rparr>,
      hub_bridge_store = None\<rparr>"

definition example_backlog :: Broker where
  "example_backlog = with_egress (Broker_zero False) 0 (\<lambda>_. snd (EgressQueue_Push EgressQueue_Reset 3 [1, 2] 2 0))"

lemma example_backlog_ok:
  "EgressQueue_inv (hp_egress (peer_at example_backlog 0))" "0 < length (pd_peers (bk_directory example_backlog))"
  "queued example_backlog 0 3 = [([1, 2], 0)]"
proof -
  have sized: "0 < length (pd_peers (bk_directory (Broker_zero False)))"
    by (simp add: Broker_zero_def PeerDirectory_Reset_def)
  show "0 < length (pd_peers (bk_directory example_backlog))"
    using sized by (simp add: example_backlog_def)
  have "contents EgressQueue_Reset = (\<lambda>c. [])"
    using EgressQueue_Reset_abs by (simp add: egress_abs_def)
  then show "EgressQueue_inv (hp_egress (peer_at example_backlog 0))" "queued example_backlog 0 3 = [([1, 2], 0)]"
    using egress.step_inv [OF EgressQueue_Reset_inv, of "EgressPush 3 [1, 2] 2 0"]
      egress.step_sim [OF EgressQueue_Reset_inv, of "EgressPush 3 [1, 2] 2 0"] sized
    by (auto simp: example_backlog_def egress_abs_def Let_def upt_rec dest: fun_cong [of _ _ 3])
qed

text \<open>
  C12.  The inner loop of \<open>drainPeer\<close> ends: with a well-formed egress queue, the model's fuel of one
  round more than the queue has slots is enough, since any greater number of rounds gives the
  same result.
\<close>

theorem drain_channel_terminates:
  assumes "EgressQueue_inv (hp_egress (peer_at b i))" and "i < length (pd_peers (bk_directory b))"
    and "EGRESS_QUEUE_SLOTS_MAX < n"
  shows "drain_channel ports i channel n b = drain_channel ports i channel (EGRESS_QUEUE_SLOTS_MAX + 1) b"
  using drain_channel_more [OF assms(1,2), of channel "EGRESS_QUEUE_SLOTS_MAX + 1" ports "n - (EGRESS_QUEUE_SLOTS_MAX + 1)"]
    queue_bounded [OF assms(1), of channel] assms(3) by simp

theorem drain_channel_terminates_witness:
  "drain_channel example_ports 0 3 1000 example_backlog = drain_channel example_ports 0 3 513 example_backlog"
  using drain_channel_terminates [OF example_backlog_ok(1,2), of 1000 example_ports 3] by simp

text \<open>
  C11.  Draining a channel hands its frames to the transport in the order they were queued: the calls
  it adds are sends to this peer and channel whose data is a subsequence of the queued frames, what
  is left is the rest of the queue, a frame the transport refused is the last one tried and stays
  at the front, and the other channels keep their frames.
\<close>

theorem drain_channel_in_order:
  assumes "EgressQueue_inv (hp_egress (peer_at b i))" and "i < length (pd_peers (bk_directory b))"
    and "drain_channel ports i channel n b = (refused, c)"
  shows "\<exists>frames. bk_calls c = bk_calls b @ map (SendFrame (hp_peer_id (peer_at b i)) channel) frames \<and>
    handed (queued b i channel) refused frames (queued c i channel) \<and>
    subseq frames (map fst (queued b i channel)) \<and> suffix (queued c i channel) (queued b i channel) \<and>
    (\<forall>e. e = channel \<or> queued c i e = queued b i e)"
  using drain_channel_handed [OF assms] handed_order by blast

theorem drain_channel_in_order_witness:
  "\<exists>frames. handed [([1, 2], 0)] (fst (drain_channel example_ports 0 3 513 example_backlog)) frames
    (queued (snd (drain_channel example_ports 0 3 513 example_backlog)) 0 3) \<and> subseq frames [[1, 2]]"
  using drain_channel_in_order [OF example_backlog_ok(1,2), of example_ports 3 513] example_backlog_ok(3)
  by (metis (no_types, lifting) list.simps(8,9) fst_conv prod.collapse)

end
