(* ===== verification/BrokerClosure.thy ===== *)
theory BrokerClosure
  imports BrokerDrain BrokerCleanup
begin

text \<open>
  What is closed under all the hub does on behalf of agents and clients.  \<open>hub_closed\<close> is the
  contract of a property of the state that survives the small updates the handlers are made of;
  inside it every operation of the broker but a registration, a first-contact pin and the commands
  of an administrator is shown to keep the property.
\<close>

section \<open>Updates\<close>

text \<open>The calls of the ports that only an administrator causes.\<close>

fun privileged :: "HubCall \<Rightarrow> bool" where
  "privileged (EnrollAgent _ _) = True"
| "privileged (ForgetAgent _) = True"
| "privileged (GrantAccess _) = True"
| "privileged (RevokeAccess _ _ _) = True"
| "privileged (SaveRoute _) = True"
| "privileged (RemoveRoute _ _) = True"
| "privileged (SaveGroup _) = True"
| "privileged (RemoveGroup _) = True"
| "privileged (AddMember _ _) = True"
| "privileged (RemoveMember _ _) = True"
| "privileged _ = False"

text \<open>The call that pins an agent on first contact.\<close>

fun is_pin :: "HubCall \<Rightarrow> bool" where
  "is_pin (PinAgent _ _) = True"
| "is_pin _ = False"

lemma plain_ordinary: "plain_call x \<Longrightarrow> \<not> privileged x \<and> \<not> is_pin x"
  by (cases x) simp_all

named_theorems closed_intros and closed_cases

locale hub_closed =
  fixes P :: "Broker \<Rightarrow> bool"
  assumes closed_update:
      "P b \<Longrightarrow> P (b\<lparr>bk_directory := d\<rparr>)" "P b \<Longrightarrow> P (b\<lparr>bk_transactions := t\<rparr>)"
      "P b \<Longrightarrow> P (b\<lparr>bk_pending_ifconfig := q\<rparr>)" "P b \<Longrightarrow> P (b\<lparr>bk_next_ifconfig_request_id := n\<rparr>)"
      "P b \<Longrightarrow> P (b\<lparr>bk_rejected_peers := rejected\<rparr>)" "P b \<Longrightarrow> P (b\<lparr>bk_now_us := now\<rparr>)"
      "P b \<Longrightarrow> P (b\<lparr>bk_metrics := metrics\<rparr>)"
    and closed_calling: "P b \<Longrightarrow> \<not> privileged x \<Longrightarrow> \<not> is_pin x \<Longrightarrow> P (calling b x)"
    and closed_bump: "P b \<Longrightarrow> P (bump f g counters b)"
    and closed_op: "P b \<Longrightarrow> registry_cost op = 0 \<Longrightarrow> P (b\<lparr>bk_registry := snd (registry_step (bk_registry b) op)\<rparr>)"
begin

lemmas closed_updates [closed_intros] = closed_update closed_bump

lemma closed_if [closed_cases]: "(c \<Longrightarrow> P x) \<Longrightarrow> (\<not> c \<Longrightarrow> P y) \<Longrightarrow> P (if c then x else y)"
  by simp

lemma closed_option [closed_cases]:
  "(m = None \<Longrightarrow> P x) \<Longrightarrow> (\<And>v. m = Some v \<Longrightarrow> P (f v)) \<Longrightarrow> P (case m of None \<Rightarrow> x | Some v \<Rightarrow> f v)"
  by (cases m) simp_all

lemma closed_bool [closed_cases]:
  "(c \<Longrightarrow> P x) \<Longrightarrow> (\<not> c \<Longrightarrow> P y) \<Longrightarrow> P (case c of True \<Rightarrow> x | False \<Rightarrow> y)"
  by (cases c) simp_all

lemma closed_prod [closed_cases]:
  "(\<And>u v. m = (u, v) \<Longrightarrow> P (f u v)) \<Longrightarrow> P (case m of (u, v) \<Rightarrow> f u v)"
  by (cases m) simp

lemma closed_sum [closed_cases]:
  "(\<And>u. m = Inl u \<Longrightarrow> P (f u)) \<Longrightarrow> (\<And>v. m = Inr v \<Longrightarrow> P (g v)) \<Longrightarrow> P (case m of Inl u \<Rightarrow> f u | Inr v \<Rightarrow> g v)"
  by (cases m) simp_all

lemma closed_registry [closed_intros]:
  assumes "P b"
  shows "P (with_registry b (\<lambda>r. InterfaceRegistry_CountFrame r i))"
    "P (with_registry b (\<lambda>r. InterfaceRegistry_SetTxDropped r agent channel n))"
    "P (with_registry b (\<lambda>r. InterfaceRegistry_ApplyAdvertisedRate r agent channel rate credit now))"
    "P (with_registry b (\<lambda>r. InterfaceRegistry_SetFdCapable r i fd))"
    "P (with_registry b (\<lambda>r. InterfaceRegistry_RemovePeer r agent))"
    "P (with_registry b (\<lambda>r. InterfaceRegistry_RemoveVirtual r i))"
    "P (b\<lparr>bk_registry := snd (InterfaceRegistry_TryEgress (bk_registry b) agent channel bits now)\<rparr>)"
    "P (b\<lparr>bk_registry := snd (InterfaceRegistry_EgressDelayUs (bk_registry b) agent channel bits now)\<rparr>)"
  using closed_op [OF assms, of "RegistryCountFrame i"] closed_op [OF assms, of "RegistrySetTxDropped agent channel n"]
    closed_op [OF assms, of "RegistryRate agent channel rate credit now"] closed_op [OF assms, of "RegistrySetFd i fd"]
    closed_op [OF assms, of "RegistryRemovePeer agent"] closed_op [OF assms, of "RegistryRemoveVirtual i"]
    closed_op [OF assms, of "RegistryTryEgress agent channel bits now"] closed_op [OF assms, of "RegistryDelay agent channel bits now"]
  by (simp_all add: with_registry_def)

lemma closed_with [closed_intros]:
  assumes "P b"
  shows "P (with_peer b i f)" "P (with_session b i g)" "P (with_egress b i h)"
    "P (with_transaction b t l)" "P (with_metrics b m)"
    "P (with_counters b n)" "P (with_binding b i j x)" "P (forget_pending b i)"
    "P (close_transaction b t)" "P (count_aborted b)" "P (count_rejected b)"
    "P (drop_frames b y)" "P (drop_leased b)" "P (count_unroutable b)"
  unfolding with_binding_def with_session_def with_egress_def with_peer_def with_transaction_def
    count_aborted_def count_rejected_def drop_frames_def drop_leased_def count_unroutable_def with_counters_def with_metrics_def
    forget_pending_def close_transaction_def
  by (intro closed_intros assms)+

lemma closed_calls:
  assumes "P b" and "list_all plain_call cs"
  shows "P (b\<lparr>bk_calls := bk_calls b @ cs\<rparr>)"
  using assms
proof (induction cs arbitrary: b)
  case (Cons x cs)
  then have "P (calling b x)"
    using closed_calling plain_ordinary by simp
  then show ?case
    using Cons.IH [of "calling b x"] Cons.prems(2) by (simp add: calling_def)
qed simp

lemma closed_spoken:
  assumes "P b" and "spoken b c"
  shows "P c"
proof -
  obtain cs where cs: "bk_calls c = bk_calls b @ cs" "list_all plain_call cs"
    using assms(2) by (auto simp: spoken_def plainly_def)
  have "c = b\<lparr>bk_directory := bk_directory c, bk_calls := bk_calls b @ cs\<rparr>"
    using spokenD [OF assms(2)] cs(1) by (cases b; cases c) simp
  then show ?thesis
    using closed_calls [OF closed_update(1) [OF assms(1)] cs(2), of "bk_directory c"] by simp
qed

lemmas closed_speaking [closed_intros] =
  closed_spoken [OF _ spoken_sendControl [OF spoken.R_refl]]
  closed_spoken [OF _ spoken_sendError [OF spoken.R_refl]]
  closed_spoken [OF _ spoken_set_channel_mode [OF spoken.R_refl]]
  closed_spoken [OF _ spoken_close_peer [OF spoken.R_refl]]
  closed_spoken [OF _ spoken_relayPaceToClients [OF spoken.R_refl]]
  closed_spoken [OF _ spoken_announceLease [OF spoken.R_refl]]
  closed_spoken [OF _ spoken_sendTxnStatus [OF spoken.R_refl]]
  closed_spoken [OF _ spoken_sendTxnAbort [OF spoken.R_refl]]
  closed_spoken [OF _ spoken_revertAgentChannelIfUnused [OF spoken.R_refl]]
  closed_spoken [OF _ spoken_replyConfigure [OF spoken.R_refl]]

end

section \<open>The end of a peer\<close>

context hub_closed
begin

lemma closed_finishTransaction [closed_intros]: "P b \<Longrightarrow> P (finishTransaction ports b t)"
  unfolding finishTransaction_def Let_def by (intro closed_cases closed_intros)

lemma closed_abandonTransaction [closed_intros]: "P b \<Longrightarrow> P (abandonTransaction ports b t)"
  unfolding abandonTransaction_def Let_def by (intro closed_cases closed_intros)

lemma closed_failAgentTransaction [closed_intros]: "P b \<Longrightarrow> P (failAgentTransaction ports b agent)"
  unfolding failAgentTransaction_def Let_def by (intro closed_cases closed_intros)

lemma closed_abandonClientTransactions [closed_intros]: "P b \<Longrightarrow> P (abandonClientTransactions ports b client)"
  unfolding abandonClientTransactions_def
  by (rule mp [OF upholds.abandon_from_closed]) (intro impI closed_intros)

lemma closed_closeClientChannel [closed_intros]: "P b \<Longrightarrow> P (closeClientChannel ports b client channel)"
  unfolding closeClientChannel_def Let_def by (intro closed_cases closed_intros)

lemma closed_removeClientInterface [closed_intros]:
  "P b \<Longrightarrow> P (removeClientInterface ports b client interface_id)"
  by (rule mp [OF upholds.removeClientInterface_closed]) (intro impI closed_intros)

lemma closed_releaseReliableBindings [closed_intros]: "P b \<Longrightarrow> P (releaseReliableBindings b client)"
  by (rule mp [OF upholds.releaseReliableBindings_closed]) (intro impI closed_intros)

lemma closed_detachInterface [closed_intros]: "P b \<Longrightarrow> P (detachInterface b entry)"
  unfolding detachInterface_def by (erule upholds_each_peer) (intro closed_cases closed_intros)

lemma closed_detachAgent [closed_intros]: "P b \<Longrightarrow> P (detachAgent b agent)"
  unfolding detachAgent_def Let_def by (intro closed_intros, erule upholds_each_interface) (intro closed_intros)

lemma closed_reattachInterface [closed_intros]: "P b \<Longrightarrow> P (reattachInterface ports b entry)"
  unfolding reattachInterface_def reattach_client_def Let_def
  by (erule upholds_each_peer) (intro closed_cases closed_intros)

lemma closed_reattachClientsToAgent [closed_intros]: "P b \<Longrightarrow> P (reattachClientsToAgent ports b agent)"
  unfolding reattachClientsToAgent_def by (erule upholds_each_interface) (intro closed_intros)

lemma closed_releasePeer [closed_intros]: "P b \<Longrightarrow> P (releasePeer ports b i)"
  unfolding releasePeer_def Let_def releaseEchoTokens_def releasePendingIfconfig_def release_pending_def
  by (intro closed_cases closed_intros upholds_fold [of P] upholds_each_peer [of P])

lemma closed_disconnectPeer [closed_intros]: "P b \<Longrightarrow> P (disconnectPeer ports b peer_id)"
  unfolding disconnectPeer_def by (intro closed_cases closed_intros)

end

section \<open>Frames\<close>

context hub_closed
begin

lemma closed_result: "P (snd x) \<Longrightarrow> x = (u, c) \<Longrightarrow> P c"
  by auto

lemma closed_send_frame [closed_intros]: "P b \<Longrightarrow> P (snd (send_frame ports b peer_id channel data))"
  unfolding send_frame_def Let_def snd_conv by (rule closed_calling) simp_all

lemma closed_try_egress [closed_intros]: "P b \<Longrightarrow> P (snd (try_egress b peer_id channel bits))"
  unfolding try_egress_def Let_def case_prod_beta snd_conv by (intro closed_intros)

lemma closed_counting [closed_intros]:
  assumes "P b"
  shows "P (countForwarded b i channel)" "P (countDropped b i channel)"
    "P (countInterfaceFrame b p channel)" "P (enqueueFrame b i channel data sz)"
    "P (snd (issue_token b i owner))"
  unfolding enqueueFrame_def countForwarded_def countDropped_def countInterfaceFrame_def issue_token_def Let_def case_prod_beta snd_conv
  by (intro closed_cases closed_intros assms)+

lemma closed_disconnectSlowConsumer [closed_intros]: "P b \<Longrightarrow> P (snd (disconnectSlowConsumer ports b i))"
  unfolding disconnectSlowConsumer_def Let_def by (auto intro!: closed_intros)

lemma closed_forwardFrame [closed_intros]:
  "P b \<Longrightarrow> P (snd (forwardFrame ports b route frame flags))"
  unfolding forwardFrame_def Let_def case_prod_beta by (auto intro!: closed_intros split: option.split)

lemma closed_forward_routes [closed_intros]:
  "P (snd st) \<Longrightarrow> P (snd (forward_routes ports frame originator flags routes st))"
proof (induction routes arbitrary: st)
  case Nil
  then show ?case by (cases st) simp
next
  case (Cons route routes)
  obtain taken c where st: "st = (taken, c)" by (cases st)
  show ?case
    unfolding st forward_routes.simps
    using Cons.prems st by (intro Cons.IH) (auto intro!: closed_intros simp: case_prod_beta)
qed

lemma closed_drain_channel [closed_intros]:
  "P b \<Longrightarrow> P (snd (drain_channel ports i channel fuel b))"
proof (induction fuel arbitrary: b)
  case (Suc fuel)
  then show ?case
    unfolding drain_channel.simps Let_def case_prod_beta by (auto intro!: Suc.IH closed_intros split: option.split)
qed simp

lemma closed_drainPeer [closed_intros]:
  assumes "P b"
  shows "P (drainPeer ports b i)"
proof -
  have "P (drain_channels ports i rounds c)" if "P c" for rounds c
    using that
  proof (induction rounds arbitrary: c)
    case (Suc rounds)
    then show ?case
      unfolding drain_channels.simps Let_def case_prod_beta
      by (auto intro!: closed_intros Suc.IH split: option.split)
  qed simp
  then show ?thesis
    using assms by (simp add: drainPeer_def)
qed

lemma closed_bridgeInto [closed_intros]: "P b \<Longrightarrow> P (bridgeInto ports b target frame)"
  unfolding bridgeInto_def Let_def by (intro closed_cases closed_intros) (auto intro: closed_result [OF closed_counting(5)] split: option.splits)

lemma closed_showToGroup [closed_intros]:
  "P b \<Longrightarrow> P (snd (showToGroup ports b entry frame originator flags))"
  unfolding showToGroup_def Let_def case_prod_beta snd_conv by (intro closed_intros) (simp add: closed_intros)

lemma closed_show_to_groups [closed_intros]:
  "P (snd st) \<Longrightarrow> P (snd (show_to_groups ports origin frame originator flags is st))"
proof (induction "is" arbitrary: st)
  case Nil
  then show ?case by (cases st) simp
next
  case (Cons i "is")
  obtain shown c where st: "st = (shown, c)" by (cases st)
  show ?case
    unfolding st show_to_groups.simps
    using Cons.prems st by (intro Cons.IH) (auto intro!: closed_intros simp: case_prod_beta split: option.split)
qed

lemma closed_showToGroups [closed_intros]:
  "P b \<Longrightarrow> P (snd (showToGroups ports b origin frame originator flags))"
  unfolding showToGroups_def by (intro closed_show_to_groups) simp

lemma closed_writeIntoGroup [closed_intros]: "P b \<Longrightarrow> P (writeIntoGroup ports b i slot entry frame)"
  unfolding writeIntoGroup_def write_member_def Let_def
  by (intro closed_cases closed_intros upholds_fold [of P])

lemma closed_bridgeFrame [closed_intros]: "P b \<Longrightarrow> P (snd (bridgeFrame ports b i frame originator flags))"
  unfolding bridgeFrame_def Let_def case_prod_beta
  by (auto intro!: closed_intros upholds_fold [of P] split: option.split)

lemma closed_injectionToken [closed_intros]: "P b \<Longrightarrow> P (snd (injectionToken b p routes))"
  unfolding injectionToken_def by (auto intro!: closed_intros split: list.split option.split)

lemma closed_route_agent_frame [closed_intros]: "P b \<Longrightarrow> P (snd (route_agent_frame ports b i frame))"
  unfolding route_agent_frame_def Let_def case_prod_beta by (auto intro!: closed_intros)

lemma closed_route_client_frame [closed_intros]: "P b \<Longrightarrow> P (snd (route_client_frame ports b i frame))"
  unfolding route_client_frame_def Let_def case_prod_beta by (auto intro!: closed_intros split: option.split prod.split)

lemma closed_routeFrame [closed_intros]: "P b \<Longrightarrow> P (snd (routeFrame ports b i frame))"
  unfolding routeFrame_def Let_def by (auto intro!: closed_intros)

end

section \<open>Handlers of agents and clients\<close>

context hub_closed
begin

lemma closed_rejecting [closed_intros]:
  assumes "P b"
  shows "P (rejectClient ports b i)" "P (rejectAgent ports b i q status)"
    "P (refuse_peer ports b i code detail)" "P (forget_rejection b i)"
  unfolding rejectClient_def rejectAgent_def refuse_peer_def forget_rejection_def Let_def
  by (intro closed_cases closed_intros assms)+

lemma closed_displace_agents [closed_intros]: "P b \<Longrightarrow> P (snd (displace_agents ports n b))"
proof (induction ports n b rule: displace_agents.induct)
  case (1 ports n b)
  then show ?case
    unfolding displace_agents.simps [of ports n b] Let_def
    by (auto split: option.split intro!: closed_intros)
qed

lemma closed_displacing [closed_intros]:
  assumes "P b"
  shows "P (snd (displaceGhostPeer ports b p q))" "P (snd (makeRoomForInterfaces ports b n))"
  using assms by (auto simp: displaceGhostPeer_def makeRoomForInterfaces_def case_prod_beta
    intro!: closed_intros split: option.split)

lemma closed_pair [closed_cases]: "P c \<Longrightarrow> P (snd (u, c))"
  by simp

lemma closed_snd_if [closed_cases]:
  "(c \<Longrightarrow> P (snd x)) \<Longrightarrow> (\<not> c \<Longrightarrow> P (snd y)) \<Longrightarrow> P (snd (if c then x else y))"
  "(c \<Longrightarrow> P (snd (snd u))) \<Longrightarrow> (\<not> c \<Longrightarrow> P (snd (snd v))) \<Longrightarrow> P (snd (snd (if c then u else v)))"
  by simp_all

lemma closed_handleHello [closed_intros]: "P b \<Longrightarrow> P (handleHello ports b i header payload)"
  unfolding handleHello_def Let_def by (intro closed_cases closed_intros)

text \<open>A registration keeps what its first-contact pin and its attempts keep.\<close>

lemma closed_register_attempts:
  assumes "P b" and "\<And>c peer_id. P c \<Longrightarrow> P (snd (snd (register_agent c peer_id q)))"
  shows "P (snd (snd (register_attempts ports b i q)))"
  unfolding register_attempts_def Let_def case_prod_beta
  by (intro closed_cases closed_intros assms; simp add: closed_intros assms)

lemma closed_handleRegister:
  assumes "P b" and "\<And>q. P (snd (agentIdentityStatus ports b (peer_at b i) q))"
    and "\<And>q v. P (snd (snd (register_attempts ports
        (with_peer (snd (agentIdentityStatus ports b (peer_at b i) q)) i (\<lambda>p. p\<lparr>hp_vouched := v\<rparr>)) i q)))"
  shows "P (handleRegister ports b i header payload)"
  unfolding handleRegister_def Let_def case_prod_beta [of "\<lambda>x y. _ x y"]
  by (intro closed_cases closed_intros assms)

lemma closed_handlers [closed_intros]:
  assumes "P b"
  shows "P (handleList ports b i header payload)" "P (handleOpen ports b i header payload)"
    "P (handleClose ports b i header payload)" "P (handleSubscribe ports b i header payload)"
    "P (handlePing ports b i header payload)"
  unfolding handleList_def handleOpen_def send_open_ack_def handleClose_def handleSubscribe_def handlePing_def Let_def
  by (intro closed_cases closed_intros assms)+

lemma closed_pending:
  assumes "P b"
  shows "rememberPendingIfconfig b requester e = (n, c) \<Longrightarrow> P c"
    and "takePendingIfconfig b agent request_id = (q, c) \<Longrightarrow> P c"
  using assms by (auto simp: rememberPendingIfconfig_def takePendingIfconfig_def Let_def intro!: closed_intros split: option.splits)

lemma closed_configuring [closed_intros]:
  assumes "P b"
  shows "P (handleConfigure ports b i header payload)" "P (handleIfconfigReply ports b i header payload)"
  unfolding handleConfigure_def handleIfconfigReply_def learnFdFromSettings_def Let_def
  by (intro closed_cases closed_intros assms; erule closed_pending [OF assms])+

lemma closed_handleInterfaceStatus [closed_intros]: "P b \<Longrightarrow> P (handleInterfaceStatus ports b i header payload)"
  unfolding handleInterfaceStatus_def apply_status_def Let_def by (intro closed_cases closed_intros upholds_fold [of P])

lemma closed_transactions [closed_intros]:
  assumes "P b"
  shows "P (handleTxnBegin ports b i header payload)" "P (handleTxnBeginAck ports b i header payload)"
    "P (handleTxnProgress ports b i header payload)" "P (handleTxnStatus ports b i header payload)"
    "P (handleTxnAbort ports b i header payload)" "P (handleTxnRosterReport ports b i header payload)"
  unfolding handleTxnBegin_def open_transaction_def handleTxnBeginAck_def handleTxnProgress_def handleTxnStatus_def
    handleTxnAbort_def handleTxnRosterReport_def relay_to_client_def relayTransactionMessage_def Let_def
  by (intro closed_cases closed_intros assms; auto intro: closed_intros assms split: prod.splits)+

lemma closed_relayTransactionContent [closed_intros]:
  "P b \<Longrightarrow> P (snd (relayTransactionContent ports b i header payload))"
  unfolding relayTransactionContent_def refuseTransaction_def Let_def by (auto intro!: closed_intros split: option.split)

end

section \<open>Handlers of administrators\<close>

context hub_closed
begin

lemma closed_listings [closed_intros]:
  assumes "P b"
  shows "P (handleAdminStatus ports b i header payload)" "P (handleAdminPeers ports b i header payload)"
    "P (handleAdminAgents ports b i header payload)" "P (handleAdminClients ports b i header payload)"
    "P (handleAdminInterfaces ports b i header payload)" "P (handleAdminTxns ports b i header payload)"
    "P (handleAdminRejected ports b i header payload)" "P (handleAdminPins ports b i header payload)"
    "P (handleAdminAclList ports b i header payload)" "P (handleAdminBridgeList ports b i header payload)"
    "P (handleAdminGroupList ports b i header payload)" "P (handleAdminKick ports b i header payload)"
    "P (handleAdminKickPeer ports b i header payload)"
  unfolding handleAdminStatus_def handleAdminPeers_def handleAdminAgents_def handleAdminClients_def handleAdminInterfaces_def
    handleAdminTxns_def handleAdminRejected_def handleAdminPins_def handleAdminAclList_def handleAdminBridgeList_def
    handleAdminGroupList_def handleAdminKick_def handleAdminKickPeer_def kick_def Let_def
  by (intro closed_cases closed_intros assms)+

end

section \<open>Events\<close>

context hub_closed
begin

lemma closed_onPeerConnected: "P b \<Longrightarrow> P (onPeerConnected ports b peer_id info now)"
  unfolding onPeerConnected_def turn_away_def makeRoomForKnownPeer_def Let_def case_prod_beta [of "\<lambda>room self. _ room self"]
  by (intro closed_cases closed_intros; auto intro!: closed_intros split: option.splits if_splits)

lemma closed_route_frames: "P b \<Longrightarrow> P (snd (route_frames ports i frames (taken, b)))"
proof (induction frames arbitrary: taken b)
  case (Cons frame frames)
  then show ?case
    using closed_routeFrame [of b ports i frame] by (auto split: prod.split)
qed simp

lemma closed_events:
  assumes "P b"
  shows "P (onPeerDisconnected ports b peer_id)" "P (snd (onPeerFrame ports b peer_id data))"
    "P (onPeerWritable ports b peer_id)" "P (Broker_Tick ports b now)"
proof -
  show "P (onPeerDisconnected ports b peer_id)" "P (onPeerWritable ports b peer_id)"
    unfolding onPeerDisconnected_def onPeerWritable_def by (intro closed_cases closed_intros assms)+
  show "P (snd (onPeerFrame ports b peer_id data))"
    using assms unfolding onPeerFrame_def Let_def by (auto intro!: closed_intros closed_route_frames split: option.split)
  show "P (Broker_Tick ports b now)"
    unfolding Broker_Tick_def tick_peer_def tickHelloDeadline_def Let_def
    by (intro upholds_each_peer [of P] closed_cases closed_intros assms)
qed

lemma closed_NextTimeoutMs:
  assumes "P b"
  shows "P (snd (Broker_NextTimeoutMs b cap_ms))"
proof -
  have delay: "P (snd (channel_delay i channel x))" if "P (snd x)" for i channel x
    using that unfolding channel_delay_def Let_def case_prod_beta by (auto intro!: closed_intros split: option.split)
  have each: "P (snd (fold f ns x))" if "P (snd x)" and "\<And>n x. P (snd x) \<Longrightarrow> P (snd (f n x))" for f :: "nat \<Rightarrow> nat \<times> Broker \<Rightarrow> _" and ns x
    using that by (induction ns arbitrary: x) simp_all
  show ?thesis
    unfolding Broker_NextTimeoutMs_def Let_def case_prod_beta snd_conv
    by (intro each) (auto intro!: each delay assms split: option.split)
qed

text \<open>A control message keeps what the handler it is dispatched to keeps.\<close>

lemma closed_onPeerControl:
  assumes "P b" and "\<And>i type handler header payload. PeerDirectory_Find (bk_directory b) peer_id = Some i \<Longrightarrow>
    control_handlers type = Some handler \<Longrightarrow> P (handler ports (b\<lparr>bk_now_us := now\<rparr>) i header payload)"
  shows "P (onPeerControl ports b peer_id data now)"
  unfolding onPeerControl_def Let_def by (intro closed_cases closed_intros assms) auto

end

section \<open>Commands of administrators\<close>

text \<open>
  Properties that do not depend on routes and groups, nor on calls of the ports other than
  first-contact pins: they survive the commands of an administrator as well.
\<close>

lemma storing_registry: "storing ports answer x b = (ok, c) \<Longrightarrow> bk_registry c = bk_registry b"
  by (auto simp: storing_def calling_def split: option.splits)

lemma handler_cases:
  "(if c then Some h else rest) = Some handler \<Longrightarrow> (handler = h \<Longrightarrow> P) \<Longrightarrow> (rest = Some handler \<Longrightarrow> P) \<Longrightarrow> P"
  by (metis option.inject)

locale hub_closed_admin = hub_closed +
  assumes closed_command: "P b \<Longrightarrow> \<not> is_pin x \<Longrightarrow> P (calling b x)"
    and closed_tables: "P b \<Longrightarrow> P (b\<lparr>bk_bridges := routes\<rparr>)" "P b \<Longrightarrow> P (b\<lparr>bk_groups := groups\<rparr>)"
begin

lemma closed_stored: "storing ports answer x b = (ok, c) \<Longrightarrow> P b \<Longrightarrow> \<not> is_pin x \<Longrightarrow> P c"
  unfolding storing_def by (auto intro: closed_command split: option.splits)

lemma closed_closeGroupInterface: "P b \<Longrightarrow> P (closeGroupInterface b name)"
  unfolding closeGroupInterface_def by (intro closed_cases closed_intros)

lemma closed_applied:
  assumes "P b"
  shows "P (snd (applyBridgeRoute ports b route))" "P (snd (removeBridgeRoute ports b source destination))"
    "P (snd (removeGroup ports b name))" "P (snd (joinGroup ports b name member))" "P (snd (leaveGroup ports b name endpoint))"
  unfolding applyBridgeRoute_def removeBridgeRoute_def removeGroup_def joinGroup_def leaveGroup_def Let_def
  using assms
  by (auto dest: closed_stored intro!: closed_tables closed_closeGroupInterface split: prod.split bool.split option.split)

lemma closed_applyGroup:
  assumes "P b" and "\<And>c name. P c \<Longrightarrow> bk_registry c = bk_registry b \<Longrightarrow> P (openGroupInterface ports c name)"
  shows "P (snd (applyGroup ports b request))"
proof -
  have "P (openGroupInterface ports (c\<lparr>bk_groups := groups\<rparr>) name)"
    if "storing ports answer x b = (ok, c)" "\<not> is_pin x" for answer x ok c groups name
    using closed_stored [OF that(1) assms(1) that(2)] storing_registry [OF that(1)] by (intro assms(2) closed_tables) simp_all
  then show ?thesis
    unfolding applyGroup_def Let_def using assms(1) by (auto dest: closed_stored split: prod.split bool.split)
qed

lemma closed_commands:
  assumes "P b"
  shows "P (handleAdminPinAdd ports b i header payload)" "P (handleAdminForget ports b i header payload)"
    "P (handleAdminAclSet ports b i header payload)" "P (handleAdminAclRevoke ports b i header payload)"
    "P (handleAdminBridgeSet ports b i header payload)" "P (handleAdminBridgeDelete ports b i header payload)"
    "P (handleAdminGroupDelete ports b i header payload)"
    "P (handleAdminGroupJoin ports b i header payload)" "P (handleAdminGroupLeave ports b i header payload)"
  unfolding handleAdminPinAdd_def handleAdminForget_def handleAdminAclSet_def handleAdminAclRevoke_def
    handleAdminBridgeSet_def handleAdminBridgeDelete_def handleAdminGroupDelete_def
    handleAdminGroupJoin_def handleAdminGroupLeave_def send_status_def Let_def case_prod_beta [of "\<lambda>x y. _ x y"]
  by (intro closed_cases closed_intros closed_applied assms; auto intro: closed_command assms split: option.split)+

lemmas handlers_closed = closed_handleHello closed_handlers closed_configuring closed_handleInterfaceStatus
  closed_transactions closed_relayTransactionContent closed_listings closed_commands

lemma closed_handler:
  assumes "control_handlers type = Some handler" and "P b"
    and "\<And>header payload. P (handleRegister ports b i header payload)"
    and "\<And>header payload. P (handleAdminGroupSet ports b i header payload)"
  shows "P (handler ports b i header payload)"
  using assms(1) unfolding control_handlers_def
  by - ((erule handler_cases, hypsubst, rule handlers_closed [OF assms(2)] assms(3,4))+, simp)

end

end
