(* ===== verification/BrokerIds.thy ===== *)
theory BrokerIds
  imports BrokerClosure
begin

text \<open>
  The interface ids of a running hub.  \<open>ids_below n\<close> says that the registry satisfies its invariant and
  has not gone beyond \<open>n\<close>; only a registration and a new bridge group move it, by at most 255 ids an
  attempt and by one.  So the registry of a hub satisfies its invariant until the 32-bit ids run out.
\<close>

section \<open>Handing out ids\<close>

definition ids_below :: "nat \<Rightarrow> Broker \<Rightarrow> bool" where
  "ids_below n b \<longleftrightarrow> InterfaceRegistry_inv (bk_registry b) \<and> unat (ir_next_interface_id (bk_registry b)) \<le> n"

lemma ids_below_mono: "ids_below n b \<Longrightarrow> n \<le> m \<Longrightarrow> ids_below m b"
  by (auto simp: ids_below_def)

lemma ids_below_op:
  assumes "ids_below n b" and "n + registry_cost op < 2 ^ 32"
  shows "ids_below (n + registry_cost op) (b\<lparr>bk_registry := snd (registry_step (bk_registry b) op)\<rparr>)"
  using registry_step_spec [of "bk_registry b" op] assms by (simp add: ids_below_def del: registry_step.simps registry_post.simps)

lemma next_id_bounded: "unat (ir_next_interface_id r) + 0 < 2 ^ 32"
  using unsigned_less [of "ir_next_interface_id r"] by simp

interpretation ids: hub_closed_admin "ids_below n" for n
proof unfold_locales
  fix b op
  assume "ids_below n b" and "registry_cost op = 0"
  then show "ids_below n (b\<lparr>bk_registry := snd (registry_step (bk_registry b) op)\<rparr>)"
    using registry_step_spec [of "bk_registry b" op] next_id_bounded [of "bk_registry b"]
    by (simp add: ids_below_def del: registry_step.simps registry_post.simps)
qed (auto simp: ids_below_def calling_def bump_def split: Counters.split)

lemma ids_register_agent:
  assumes "ids_below n b" and "n + 255 < 2 ^ 32"
  shows "ids_below (n + 255) (snd (snd (register_agent b peer_id q)))"
proof -
  have "unat (reg_interface_count q) < 256"
    using unsigned_less [of "reg_interface_count q"] by simp
  then have few: "unat (reg_interface_count q) \<le> 255"
    by linarith
  then have "ids_below (n + unat (reg_interface_count q))
      (b\<lparr>bk_registry := snd (registry_step (bk_registry b) (RegistryRegister peer_id q))\<rparr>)"
    using ids_below_op [OF assms(1), of "RegistryRegister peer_id q"] assms(2) by simp
  then show ?thesis
    using few by (auto simp: register_agent_def Let_def case_prod_beta intro: ids_below_mono)
qed

lemma ids_register_attempts:
  assumes "ids_below n b" and "n + 765 < 2 ^ 32"
  shows "ids_below (n + 765) (snd (snd (register_attempts ports b i q)))"
proof -
  define x1 where "x1 = register_agent b (hp_peer_id (peer_at b i)) q"
  define x2 where "x2 =
    (if \<not> fst x1 then displaceGhostPeer ports (snd (snd x1)) (peer_at (snd (snd x1)) i) q else (False, snd (snd x1)))"
  define x3 where "x3 =
    (if fst x2 then register_agent (snd x2) (hp_peer_id (peer_at (snd x2) i)) q else (fst x1, fst (snd x1), snd x2))"
  define x4 where "x4 = (if \<not> fst x3 \<and> hp_vouched (peer_at (snd (snd x3)) i)
    then makeRoomForInterfaces ports (snd (snd x3)) (reg_interface_count q) else (False, snd (snd x3)))"
  have "ids_below (n + 255) (snd (snd x1))"
    unfolding x1_def using assms by (intro ids_register_agent) simp_all
  then have two: "ids_below (n + 255) (snd x2)"
    by (simp add: x2_def ids.closed_displacing)
  have "ids_below (n + 255 + 255) (snd (snd x3))"
    using assms(2) ids_below_mono [OF two, of "n + 255 + 255"] ids_register_agent [OF two] by (simp add: x3_def add.commute)
  then have four: "ids_below (n + 255 + 255) (snd x4)"
    by (simp add: x4_def ids.closed_displacing)
  then have "ids_below (n + 255 + 255 + 255) (snd (snd (register_agent (snd x4) peer_id q)))" for peer_id
    using assms(2) by (intro ids_register_agent) simp_all
  moreover have "ids_below (n + 255 + 255 + 255) (snd x4)"
    using four by (rule ids_below_mono) simp
  moreover have "register_attempts ports b i q =
      (if fst x4 then register_agent (snd x4) (hp_peer_id (peer_at (snd x4) i)) q else (fst x3, fst (snd x3), snd x4))"
    unfolding register_attempts_def Let_def case_prod_beta x4_def x3_def x2_def x1_def by simp
  ultimately show ?thesis
    by (simp add: add.commute)
qed

lemma ids_agentIdentityStatus: "ids_below n b \<Longrightarrow> ids_below n (snd (agentIdentityStatus ports b p q))"
  by (auto simp: agentIdentityStatus_def ids_below_def calling_def Let_def split: option.split)

lemma ids_handleRegister:
  assumes "ids_below n b" and "n + 765 < 2 ^ 32"
  shows "ids_below (n + 765) (handleRegister ports b i header payload)"
  using assms
  by (intro ids.closed_handleRegister ids_register_attempts ids.closed_with ids_agentIdentityStatus) (auto intro: ids_below_mono)

lemma ids_openGroupInterface:
  assumes "ids_below n b" and "n + 1 < 2 ^ 32"
  shows "ids_below (n + 1) (openGroupInterface ports b name)"
proof -
  let ?x = "InterfaceRegistry_AddVirtual (bk_registry b) BRIDGE_GROUP_AGENT_NAME name"
  have "ids_below (n + 1) (b\<lparr>bk_registry := snd ?x\<rparr>)"
    using ids_below_op [OF assms(1), of "RegistryAddVirtual BRIDGE_GROUP_AGENT_NAME name"] assms(2) by simp
  then show ?thesis
    using assms(1) unfolding openGroupInterface_def Let_def case_prod_beta
    by (auto intro!: ids.closed_reattachInterface intro: ids_below_mono split: option.split)
qed

lemma ids_handleAdminGroupSet:
  assumes "ids_below n b" and "n + 1 < 2 ^ 32"
  shows "ids_below (n + 1) (handleAdminGroupSet ports b i header payload)"
proof -
  have more: "ids_below (n + 1) b"
    using assms(1) by (rule ids_below_mono) simp
  have "ids_below (n + 1) (openGroupInterface ports c name)" if "bk_registry c = bk_registry b" for c name
    using that assms by (intro ids_openGroupInterface) (simp_all add: ids_below_def)
  then have "ids_below (n + 1) (snd (applyGroup ports b request))" for request
    by (intro ids.closed_applyGroup more)
  then show ?thesis
    unfolding handleAdminGroupSet_def send_status_def Let_def case_prod_beta [of "\<lambda>x y. _ x y"]
    by (intro ids.closed_if ids.closed_prod ids.closed_bool ids.closed_speaking more)
qed

section \<open>Events\<close>

lemma ids_onPeerControl:
  assumes "ids_below n b" and "n + 765 < 2 ^ 32"
  shows "ids_below (n + 765) (onPeerControl ports b peer_id data now)"
proof (rule ids.closed_onPeerControl)
  show more: "ids_below (n + 765) b"
    using assms(1) by (rule ids_below_mono) simp
  fix i type handler header payload
  assume handler: "control_handlers type = Some handler"
  have "ids_below n (b\<lparr>bk_now_us := now\<rparr>)"
    by (intro ids.closed_update assms(1))
  then show "ids_below (n + 765) (handler ports (b\<lparr>bk_now_us := now\<rparr>) i header payload)"
    using assms(2)
    by (intro ids.closed_handler [OF handler] ids_handleRegister ids_below_mono [OF ids_handleAdminGroupSet, of n])
      (auto intro: ids_below_mono)
qed

lemma ids_hub_step:
  assumes "ids_below n b" and "n + 765 < 2 ^ 32"
  shows "ids_below (n + 765) (hub_step ports event b)"
proof -
  define c where "c = calling b (Started event)"
  have c: "ids_below n c"
    unfolding c_def using assms(1) by (rule ids.closed_command) simp
  then have more: "ids_below (n + 765) c"
    by (rule ids_below_mono) simp
  show ?thesis
    unfolding hub_step_def c_def [symmetric]
    by (cases event) (simp_all add: ids.closed_onPeerConnected [OF more] ids.closed_events [OF more] ids_onPeerControl [OF c assms(2)])
qed

lemma ids_load_groups:
  "ids_below n b \<Longrightarrow> n + length positions < 2 ^ 32 \<Longrightarrow> ids_below (n + length positions) (load_groups ports port positions b)"
proof (induction positions arbitrary: n b)
  case (Cons position positions)
  have loaded: "ids_below (n + 1) (if restored then openGroupInterface ports (b\<lparr>bk_groups := groups\<rparr>) name else b\<lparr>bk_groups := groups\<rparr>)"
    for restored groups name
    using Cons.prems by (auto intro!: ids_openGroupInterface [of n, simplified] ids.closed_tables intro: ids_below_mono)
  show ?case
    using Cons.prems Cons.IH [OF loaded]
    by (auto simp: Let_def case_prod_beta intro: ids_below_mono split: option.split)
qed simp

lemma ids_Broker_Init: "ids_below (1 + BRIDGE_GROUPS_MAX) (Broker_Init ports known)"
proof -
  have zero: "ids_below 1 (Broker_zero known)"
    using InterfaceRegistry_Reset_inv by (simp add: ids_below_def Broker_zero_def) (simp add: InterfaceRegistry_Reset_def)
  have "ids_below 1 (load_routes port positions b)" if "ids_below 1 b" for port positions b
    using that by (induction positions arbitrary: b) (auto intro: ids.closed_tables split: option.split)
  then have routes: "ids_below 1 (loadBridgeRoutes ports (Broker_zero known))"
    using zero by (simp add: loadBridgeRoutes_def split: option.split)
  show ?thesis
    using ids_load_groups [OF routes, of "[0..<BRIDGE_GROUPS_MAX]"] ids_below_mono [OF routes, of "1 + BRIDGE_GROUPS_MAX"]
    unfolding Broker_Init_def loadBridgeGroups_def by (auto split: option.split)
qed

section \<open>The registry of a running hub\<close>

text \<open>
  The states of the hub with the number of ids handed out on the way.  An event hands out the
  difference of the two next ids, as words.
\<close>

definition ids_handed :: "Broker \<Rightarrow> Broker \<Rightarrow> nat" where
  "ids_handed b c = unat (ir_next_interface_id (bk_registry c) - ir_next_interface_id (bk_registry b))"

inductive hub_reached :: "HubPorts \<Rightarrow> nat \<Rightarrow> Broker \<Rightarrow> bool" for ports where
  started: "hub_reached ports (ids_handed (Broker_zero known) (Broker_Init ports known)) (Broker_Init ports known)"
| stepped: "hub_reached ports n b \<Longrightarrow> event_allowed b event \<Longrightarrow>
    hub_reached ports (n + ids_handed b (hub_step ports event b)) (hub_step ports event b)"
| timed: "hub_reached ports n b \<Longrightarrow> hub_reached ports n (snd (Broker_NextTimeoutMs b cap_ms))"

lemma hub_reached_reachable: "hub_reached ports n b \<Longrightarrow> hub_reachable ports b"
  by (induction rule: hub_reached.induct) (auto intro: hub_reachable.intros)

lemma hub_reachable_reached: "hub_reachable ports b \<Longrightarrow> \<exists>n. hub_reached ports n b"
  by (induction rule: hub_reachable.induct) (auto intro: hub_reached.intros)

lemma ids_moved: "unat (c :: u32) \<le> unat b + unat (c - b)"
proof -
  have "unat c = (unat b + unat (c - b)) mod 2 ^ LENGTH(32)"
    using unat_word_ariths(1) [of b "c - b"] by simp
  then show ?thesis
    using mod_less_eq_dividend by metis
qed

lemma ids_handed_below:
  assumes "ids_below n b" and "ids_below m c"
  shows "ids_below (n + ids_handed b c) c"
  using assms ids_moved [of "ir_next_interface_id (bk_registry c)" "ir_next_interface_id (bk_registry b)"]
  by (auto simp: ids_below_def ids_handed_def)

lemma hub_reached_ids: "hub_reached ports n b \<Longrightarrow> n + 1024 < 2 ^ 32 \<Longrightarrow> ids_below (n + 1) b"
proof (induction rule: hub_reached.induct)
  case (started known)
  have "ids_below 1 (Broker_zero known)"
    using InterfaceRegistry_Reset_inv by (simp add: ids_below_def Broker_zero_def) (simp add: InterfaceRegistry_Reset_def)
  from ids_handed_below [OF this ids_Broker_Init] show ?case
    by (simp add: add.commute)
next
  case (stepped n b event)
  have "ids_below (n + 1) b"
    using stepped by simp
  from ids_handed_below [OF this ids_hub_step [OF this]] stepped.prems show ?case
    by (simp add: add.commute add.left_commute)
next
  case (timed n b cap_ms)
  then show ?case
    by (intro ids.closed_NextTimeoutMs) simp
qed

end
