(* ===== verification/BrokerSafety.thy ===== *)
theory BrokerSafety
  imports BrokerKeeps BrokerIds
begin

text \<open>
  The rest of the handlers and the events keep the invariant of the hub; so it holds in every
  reachable state.
\<close>

section \<open>Configuration and pacing\<close>

lemma found_connected:
  assumes "PeerDirectory_Find (bk_directory b) peer_id = Some i"
  shows "connected b peer_id" and "hp_role (peer_at b i) = role \<Longrightarrow> connected_as b role peer_id"
  using FindD [OF assms] by (auto simp: connected_def connected_as_def)

lemma hub_inv_next_request [hub_intros]: "hub_inv ports b \<Longrightarrow> hub_inv ports (b\<lparr>bk_next_ifconfig_request_id := n\<rparr>)"
  by (rule hub_inv_peers [where cs = "[]"]) (auto simp: same_peers_def intro: hub_inv_peer)

lemma hub_inv_rememberPendingIfconfig:
  assumes inv: "hub_inv ports b" and "connected b requester" "connected_as b kHUB_PEER_ROLE_AGENT (ie_agent_peer_id e)"
  shows "hub_inv ports (snd (rememberPendingIfconfig b requester e))"
proof -
  let ?q = "\<lambda>n. \<lparr>pi_in_use = True, pi_requester_peer_id = requester, pi_agent_peer_id = ie_agent_peer_id e,
    pi_interface_id = ie_interface_id e, pi_request_id = n\<rparr>"
  have "hub_inv ports (b\<lparr>bk_next_ifconfig_request_id := n, bk_pending_ifconfig := (bk_pending_ifconfig b)[i := ?q n]\<rparr>)" for i n
  proof (rule hub_inv_pending [OF hub_inv_next_request [OF inv]])
    fix q
    assume "q \<in> set ((bk_pending_ifconfig b)[i := ?q n])" "pi_in_use q"
    then have "connected_as b kHUB_PEER_ROLE_AGENT (pi_agent_peer_id q) \<and> connected b (pi_requester_peer_id q)"
      using set_update_subset_insert [of "bk_pending_ifconfig b" i "?q n"] hub_invD(6) [OF inv, of q] assms(2,3) by auto
    then show "connected_as (b\<lparr>bk_next_ifconfig_request_id := n\<rparr>) kHUB_PEER_ROLE_AGENT (pi_agent_peer_id q) \<and>
        connected (b\<lparr>bk_next_ifconfig_request_id := n\<rparr>) (pi_requester_peer_id q)"
      by (simp add: connected_as_def connected_def)
  qed simp
  then show ?thesis
    using inv by (auto simp: rememberPendingIfconfig_def Let_def split: option.split)
qed

lemma hub_inv_result: "hub_inv ports (snd x) \<Longrightarrow> x = (u, c) \<Longrightarrow> hub_inv ports c"
  by auto

lemma hub_inv_takePendingIfconfig [hub_intros]: "hub_inv ports b \<Longrightarrow> hub_inv ports (snd (takePendingIfconfig b agent n))"
  unfolding takePendingIfconfig_def by (auto intro!: hub_intros split: option.split)

lemma hub_inv_learnFdFromSettings [hub_intros]: "hub_inv ports b \<Longrightarrow> hub_inv ports (learnFdFromSettings b interface_id settings)"
  unfolding learnFdFromSettings_def by (intro hub_cases hub_intros)

lemma hub_inv_handleConfigure [hub_intros]:
  assumes inv: "hub_inv ports b" and i: "i < PEER_DIRECTORY_MAX" "hp_in_use (peer_at b i)"
  shows "hub_inv ports (handleConfigure ports b i header payload)"
proof -
  have requester: "connected b (hp_peer_id (peer_at b i))"
    using i hub_inv_sized [OF inv] by (auto simp: connected_def)
  have "hub_inv ports c" if "PeerDirectory_Find (bk_directory b) (ie_agent_peer_id e) = Some j"
      "hp_role (peer_at b j) = kHUB_PEER_ROLE_AGENT" "rememberPendingIfconfig b (hp_peer_id (peer_at b i)) e = (n, c)" for e j n c
    using hub_inv_rememberPendingIfconfig [OF inv requester found_connected(2) [OF that(1,2)]] that(3) by simp
  then show ?thesis
    unfolding handleConfigure_def Let_def by (intro hub_cases hub_intros inv) auto
qed

lemma hub_inv_handleIfconfigReply [hub_intros]: "hub_inv ports b \<Longrightarrow> hub_inv ports (handleIfconfigReply ports b i header payload)"
  unfolding handleIfconfigReply_def Let_def
  by (intro hub_cases hub_intros) (auto intro: hub_inv_result [OF hub_inv_takePendingIfconfig])

lemma hub_inv_apply_status [hub_intros]: "hub_inv ports b \<Longrightarrow> hub_inv ports (apply_status ports peer_id status b)"
  unfolding apply_status_def Let_def by (intro hub_cases hub_intros)

lemma hub_inv_handleInterfaceStatus [hub_intros]:
  "hub_inv ports b \<Longrightarrow> hub_inv ports (handleInterfaceStatus ports b i header payload)"
  unfolding handleInterfaceStatus_def
  by (intro hub_cases upholds_fold [of "hub_inv ports"] hub_inv_apply_status)

section \<open>Transactions\<close>

lemma admitted_references:
  assumes "hub_inv ports b" "i < PEER_DIRECTORY_MAX" and "admitTransaction ports b (peer_at b i) msg = Inr q"
  shows "connected_as b kHUB_PEER_ROLE_AGENT (rt_agent_peer_id q)" "connected_as b kHUB_PEER_ROLE_CLIENT (rt_client_peer_id q)"
proof -
  obtain interface_id e j where e: "ClientSession_InterfaceForChannel (hp_session (peer_at b i)) (tb_channel msg) = Some interface_id"
    "InterfaceRegistry_FindById (bk_registry b) interface_id = Some e"
    "PeerDirectory_Find (bk_directory b) (ie_agent_peer_id e) = Some j"
    "rt_agent_peer_id q = hp_peer_id (peer_at b j)" "rt_client_peer_id q = hp_peer_id (peer_at b i)"
    using assms(3) by (auto simp: admitTransaction_def split: option.splits if_splits)
  show "connected_as b kHUB_PEER_ROLE_CLIENT (rt_client_peer_id q)"
    using client_with_channel [OF assms(1) _ e(1)] assms(1,2) e(5) hub_inv_sized by simp
  have "hp_role (peer_at b j) = kHUB_PEER_ROLE_AGENT"
    using agent_found(2) [OF assms(1) found_entry(2) [OF e(2)] e(3)] .
  then show "connected_as b kHUB_PEER_ROLE_AGENT (rt_agent_peer_id q)"
    using found_connected(2) [OF e(3)] FindD(3) [OF e(3)] e(4) by simp
qed

lemma hub_inv_handleTxnBegin [hub_intros]:
  assumes "hub_inv ports b" "i < PEER_DIRECTORY_MAX"
  shows "hub_inv ports (handleTxnBegin ports b i header payload)"
proof -
  have "hub_inv ports c" if "admitTransaction ports b (peer_at b i) msg = Inr q" "open_transaction b q = (ok, c)" for msg q ok c
    using hub_inv_open_transaction [OF assms(1) that(2)] admitted_references [OF assms that(1)] .
  then show ?thesis
    unfolding handleTxnBegin_def by (intro hub_cases hub_intros assms(1)) auto
qed

lemma hub_inv_relayTransactionMessage [hub_intros]:
  "hub_inv ports b \<Longrightarrow> hub_inv ports (relayTransactionMessage ports b destination header payload channel)"
  unfolding relayTransactionMessage_def Let_def by (intro hub_cases hub_intros)

lemma hub_inv_relay_to_client [hub_intros]: "hub_inv ports b \<Longrightarrow> hub_inv ports (relay_to_client ports b t header payload)"
  unfolding relay_to_client_def by (intro hub_intros)

lemma activeTransactionOfAgentD:
  assumes "activeTransactionOfAgent b p n = Some t"
  shows "t < length (tt_entries (bk_transactions b))"
  using assms ForAgentD(1) by (auto simp: activeTransactionOfAgent_def split: if_splits option.splits)

lemmas transactions_speaking [simp] =
  spokenD(6) [OF spoken_sendControl [OF spoken.R_refl]]
  spokenD(6) [OF spoken_sendTxnAbort [OF spoken.R_refl]]
  spokenD(6) [OF spoken_sendTxnStatus [OF spoken.R_refl]]
  spokenD(6) [OF spoken_announceLease [OF spoken.R_refl]]

lemma transactions_unchanged [simp]:
  "bk_transactions (with_counters b f) = bk_transactions b"
  "bk_transactions (relayTransactionMessage ports b destination header payload channel) = bk_transactions b"
  "bk_transactions (relay_to_client ports b t header payload) = bk_transactions b"
  by (simp_all add: with_counters_def with_metrics_def relay_to_client_def relayTransactionMessage_def Let_def split: option.split)

lemma hub_inv_handleTxnBeginAck [hub_intros]:
  assumes "hub_inv ports b"
  shows "hub_inv ports (handleTxnBeginAck ports b i header payload)"
  unfolding handleTxnBeginAck_def Let_def
  by (intro hub_cases hub_intros hub_inv_Activate assms) (auto dest: ForAgentD(1))

lemma hub_inv_handleTxnProgress [hub_intros]: "hub_inv ports b \<Longrightarrow> hub_inv ports (handleTxnProgress ports b i header payload)"
  unfolding handleTxnProgress_def Let_def
  by (intro hub_cases hub_intros hub_inv_with_transaction) (auto dest: activeTransactionOfAgentD)

lemma hub_inv_handleTxnStatus [hub_intros]: "hub_inv ports b \<Longrightarrow> hub_inv ports (handleTxnStatus ports b i header payload)"
  unfolding handleTxnStatus_def Let_def
  by (intro hub_cases hub_intros) (auto dest: activeTransactionOfAgentD)

lemma hub_inv_handleTxnAbort [hub_intros]: "hub_inv ports b \<Longrightarrow> hub_inv ports (handleTxnAbort ports b i header payload)"
  unfolding handleTxnAbort_def by (intro hub_cases hub_intros) (auto dest: ForClientChannelD)

lemma hub_inv_handleTxnRosterReport [hub_intros]:
  "hub_inv ports b \<Longrightarrow> hub_inv ports (handleTxnRosterReport ports b i header payload)"
  unfolding handleTxnRosterReport_def by (intro hub_cases hub_intros)

lemma hub_inv_refuseTransaction [hub_intros]:
  "hub_inv ports b \<Longrightarrow> t < length (tt_entries (bk_transactions b)) \<Longrightarrow> hub_inv ports (refuseTransaction ports b t agent reason)"
  unfolding refuseTransaction_def Let_def by (intro hub_intros) simp_all

lemma hub_inv_relayTransactionContent [hub_intros]:
  assumes "hub_inv ports b"
  shows "hub_inv ports (snd (relayTransactionContent ports b i header payload))"
  using assms unfolding relayTransactionContent_def Let_def
  by (auto intro!: hub_intros hub_inv_with_transaction dest: ForClientChannelD split: option.split)

section \<open>Administration\<close>

lemma hub_inv_listings [hub_intros]:
  assumes "hub_inv ports b"
  shows "hub_inv ports (handleAdminStatus ports b i header payload)" "hub_inv ports (handleAdminPeers ports b i header payload)"
    "hub_inv ports (handleAdminAgents ports b i header payload)" "hub_inv ports (handleAdminClients ports b i header payload)"
    "hub_inv ports (handleAdminInterfaces ports b i header payload)" "hub_inv ports (handleAdminTxns ports b i header payload)"
    "hub_inv ports (handleAdminRejected ports b i header payload)" "hub_inv ports (handleAdminPins ports b i header payload)"
    "hub_inv ports (handleAdminAclList ports b i header payload)" "hub_inv ports (handleAdminBridgeList ports b i header payload)"
    "hub_inv ports (handleAdminGroupList ports b i header payload)"
  unfolding handleAdminStatus_def handleAdminPeers_def handleAdminAgents_def handleAdminClients_def handleAdminInterfaces_def
    handleAdminTxns_def handleAdminRejected_def handleAdminPins_def handleAdminAclList_def handleAdminBridgeList_def
    handleAdminGroupList_def Let_def
  by (intro hub_cases hub_intros assms)+

lemma hub_inv_send_status [hub_intros]: "hub_inv ports b \<Longrightarrow> hub_inv ports (send_status ports b i type status)"
  unfolding send_status_def by (intro hub_intros)

lemma hub_inv_kick [hub_intros]: "hub_inv ports b \<Longrightarrow> hub_inv ports (kick ports b peer_id)"
  unfolding kick_def Let_def by (intro hub_intros)

lemma hub_inv_handleAdminKick [hub_intros]: "hub_inv ports b \<Longrightarrow> hub_inv ports (handleAdminKick ports b i header payload)"
  unfolding handleAdminKick_def Let_def by (intro hub_cases hub_intros)

lemma hub_inv_handleAdminKickPeer [hub_intros]: "hub_inv ports b \<Longrightarrow> hub_inv ports (handleAdminKickPeer ports b i header payload)"
  unfolding handleAdminKickPeer_def Let_def by (intro hub_cases hub_intros)

lemma hub_inv_store_handlers [hub_intros]:
  assumes "hub_inv ports b"
  shows "hub_inv ports (handleAdminPinAdd ports b i header payload)" "hub_inv ports (handleAdminForget ports b i header payload)"
    "hub_inv ports (handleAdminAclSet ports b i header payload)" "hub_inv ports (handleAdminAclRevoke ports b i header payload)"
  using hub_inv_calling [OF assms]
  unfolding handleAdminPinAdd_def handleAdminForget_def handleAdminAclSet_def handleAdminAclRevoke_def Let_def
  by (intro hub_cases hub_intros assms; auto split: option.splits simp: assms)+

text \<open>Bridge routes and bridge groups.\<close>

lemma storing_keeps: "hub_inv ports b \<Longrightarrow> storing ports answer x b = (ok, c) \<Longrightarrow> hub_inv ports c"
  by (auto simp: storing_def intro: hub_intros split: option.splits)

lemma hub_inv_BridgeRoutes [hub_intros]:
  assumes "hub_inv ports b"
  shows "hub_inv ports (b\<lparr>bk_bridges := snd (BridgeRoutes_Set (bk_bridges b) route)\<rparr>)"
    and "hub_inv ports (b\<lparr>bk_bridges := snd (BridgeRoutes_Remove (bk_bridges b) source destination)\<rparr>)"
  using hub_inv_bridges [OF assms] hub_inv_tablesD(1) [OF assms]
    BridgeRoutes_Set_spec [THEN conjunct1] BridgeRoutes_Remove_spec [THEN conjunct1] by blast+

lemma hub_inv_BridgeGroups [hub_intros]:
  assumes "hub_inv ports b"
  shows "hub_inv ports (b\<lparr>bk_groups := snd (BridgeGroups_Set (bk_groups b) name n filters)\<rparr>)"
    and "hub_inv ports (b\<lparr>bk_groups := snd (BridgeGroups_Remove (bk_groups b) name)\<rparr>)"
    and "hub_inv ports (b\<lparr>bk_groups := snd (BridgeGroups_Join (bk_groups b) name member)\<rparr>)"
    and "hub_inv ports (b\<lparr>bk_groups := snd (BridgeGroups_Leave (bk_groups b) name endpoint)\<rparr>)"
  using hub_inv_groups [OF assms] hub_inv_tablesD(2) [OF assms]
    BridgeGroups_Set_spec(1) BridgeGroups_Remove_spec(1) BridgeGroups_Join_spec(1) BridgeGroups_Leave_spec(1) by auto

lemma hub_inv_openGroupInterface [hub_intros]: "hub_inv ports b \<Longrightarrow> hub_inv ports (openGroupInterface ports b name)"
  unfolding openGroupInterface_def Let_def
  by (intro hub_cases hub_intros) (auto dest: hub_inv_AddVirtual)

lemma hub_inv_closeGroupInterface [hub_intros]: "hub_inv ports b \<Longrightarrow> hub_inv ports (closeGroupInterface b name)"
  unfolding closeGroupInterface_def by (intro hub_cases hub_inv_RemoveVirtual hub_inv_detachInterface detachInterface_detaches)

lemma hub_inv_bridging:
  assumes "hub_inv ports b"
  shows "applyBridgeRoute ports b route = (status, c) \<Longrightarrow> hub_inv ports c"
    and "removeBridgeRoute ports b source destination = (status, c) \<Longrightarrow> hub_inv ports c"
    and "applyGroup ports b request = (status, c) \<Longrightarrow> hub_inv ports c"
    and "removeGroup ports b name = (status, c) \<Longrightarrow> hub_inv ports c"
    and "joinGroup ports b name member = (status, c) \<Longrightarrow> hub_inv ports c"
    and "leaveGroup ports b name endpoint = (status, c) \<Longrightarrow> hub_inv ports c"
  using assms storing_keeps [OF assms]
  unfolding applyBridgeRoute_def removeBridgeRoute_def applyGroup_def removeGroup_def joinGroup_def leaveGroup_def Let_def
  by (auto intro!: hub_intros split: if_splits prod.splits bool.splits option.splits)

lemma hub_inv_bridge_handlers [hub_intros]:
  assumes "hub_inv ports b"
  shows "hub_inv ports (handleAdminBridgeSet ports b i header payload)" "hub_inv ports (handleAdminBridgeDelete ports b i header payload)"
    "hub_inv ports (handleAdminGroupSet ports b i header payload)" "hub_inv ports (handleAdminGroupDelete ports b i header payload)"
    "hub_inv ports (handleAdminGroupJoin ports b i header payload)" "hub_inv ports (handleAdminGroupLeave ports b i header payload)"
  unfolding handleAdminBridgeSet_def handleAdminBridgeDelete_def handleAdminGroupSet_def handleAdminGroupDelete_def
    handleAdminGroupJoin_def handleAdminGroupLeave_def Let_def
  by (intro hub_cases hub_intros assms; erule hub_inv_bridging [OF assms])+

section \<open>The start\<close>

lemma hub_inv_Broker_zero: "hub_inv ports (Broker_zero require_known_peers)"
proof -
  let ?b = "Broker_zero require_known_peers"
  have "peers_ok ports ?b"
    by (simp add: peers_ok_def Broker_zero_def PeerDirectory_Reset_def peer_ok_zero)
  moreover have "registry_ok ?b"
    by (simp add: registry_ok_def Broker_zero_def InterfaceRegistry_Reset_def entry_ok_zero)
  moreover have "transactions_ok ?b"
    using TransactionTable_Reset_inv
    by (auto simp: transactions_ok_def Broker_zero_def TransactionTable_Reset_def isInUse_def RelayedTransaction_zero_def)
  moreover have "pending_ok ?b" "tables_ok ?b"
    using BridgeRoutes_Reset_inv BridgeGroups_Reset_ok(1) RejectedPeers_Reset_inv
    by (auto simp: pending_ok_def tables_ok_def Broker_zero_def)
  ultimately show ?thesis
    by (simp add: hub_inv_def)
qed

lemma hub_inv_load_routes: "hub_inv ports b \<Longrightarrow> hub_inv ports (load_routes port positions b)"
  by (induction port positions b rule: load_routes.induct) (auto intro!: hub_intros split: option.split)

lemma hub_inv_Restore: "hub_inv ports b \<Longrightarrow> BridgeGroups_Restore (bk_groups b) g = (ok, groups) \<Longrightarrow> hub_inv ports (b\<lparr>bk_groups := groups\<rparr>)"
  using groups_map.step_inv [of "bk_groups b" "GroupsRestore g"] by (auto intro!: hub_inv_groups hub_inv_tablesD)

lemma hub_inv_load_groups: "hub_inv ports b \<Longrightarrow> hub_inv ports (load_groups ports port positions b)"
proof (induction positions arbitrary: b)
  case (Cons position positions)
  show ?case
    unfolding load_groups.simps Let_def by (intro hub_cases hub_intros Cons.IH Cons.prems hub_inv_Restore)
qed simp

lemma hub_inv_Broker_Init: "hub_inv ports (Broker_Init ports require_known_peers)"
  using hub_inv_Broker_zero hub_inv_load_routes hub_inv_load_groups
  by (auto simp: Broker_Init_def loadBridgeRoutes_def loadBridgeGroups_def split: option.split)

section \<open>Events\<close>

lemma not_connected: "PeerDirectory_Find (bk_directory b) peer_id = None \<longleftrightarrow> \<not> connected b peer_id"
  by (auto simp: PeerDirectory_Find_def connected_def find_index_None)

lemma disconnectPeer_connected: "connected (disconnectPeer ports b peer_id) j \<Longrightarrow> connected b j"
proof (cases "PeerDirectory_Find (bk_directory b) peer_id")
  case (Some i)
  obtain c where c: "same_peers b c"
    "releasePeer ports b i = c\<lparr>bk_directory := PeerDirectory_Release (bk_directory c) (hp_peer_id (peer_at b i))\<rparr>"
    by (rule releasePeer_effect)
  assume "connected (disconnectPeer ports b peer_id) j"
  then have "connected c j"
    by (auto simp: connected_def disconnectPeer_def Some c(2) close_peer_def calling_def HubPeer_zero_def dest!: Release_peers)
  then show ?thesis
    using same_peers_connected(2) [OF c(1)] by simp
qed (simp add: disconnectPeer_def)

lemma hub_inv_admitted:
  assumes inv: "hub_inv ports b" and i: "find_index (\<lambda>p. \<not> hp_in_use p) (pd_peers (bk_directory b)) = Some i"
    and fresh: "\<not> connected b (hp_peer_id p)" "hp_peer_id p \<noteq> 0" "hp_peer_id p \<noteq> ECHO_TOKENS_BRIDGE_OWNER"
    and p: "hp_in_use p" "hp_role p = kHUB_PEER_ROLE_UNKNOWN" "hp_session p = ClientSession_Reset"
      "hp_echo_tokens p = EchoTokens_Reset" "hp_egress p = EgressQueue_Reset"
  shows "hub_inv ports (b\<lparr>bk_directory := (bk_directory b)\<lparr>pd_peers := (pd_peers (bk_directory b))[i := p]\<rparr>\<rparr>)"
    (is "hub_inv ports ?c")
proof (rule hub_inv_directory [OF inv refl])
  note slot = find_index_SomeD [OF i]
  have kept: "q \<in> set (pd_peers (bk_directory ?c))" if "q \<in> set (pd_peers (bk_directory b))" "hp_in_use q" for q
    using that slot(1,2) by (auto simp: in_set_conv_nth nth_list_update)
  show as: "connected_as ?c role j" if "connected_as b role j" for role j
    using that kept unfolding connected_as_def by blast
  show "connected ?c j" if "connected b j" for j
    using that kept unfolding connected_def by blast
  have idle: "\<not> cb_in_use x" if "x \<in> set (cs_bindings ClientSession_Reset)" for x
    using that by (simp add: ClientSession_Reset_def ChannelBinding_zero_def)
  then have "peer_ok ports ?c p"
    using p fresh(2,3) ClientSession_Reset_inv EchoTokens_Reset_inv EgressQueue_Reset_inv peer_ok_zero [of ports ?c]
    by (auto simp: peer_ok_def slot_ok_def owners_ok_def channels_ok_def HubPeer_zero_def)
  moreover have "peer_ok ports ?c q" if "q \<in> set (pd_peers (bk_directory b))" for q
    using that inv as [of kHUB_PEER_ROLE_CLIENT] by (auto simp: hub_inv_def peers_ok_def peer_ok_def owners_ok_def)
  ultimately have "\<forall>q \<in> set (pd_peers (bk_directory ?c)). peer_ok ports ?c q"
    using set_update_subset_insert [of "pd_peers (bk_directory b)" i p] by auto
  moreover have "slots_distinct hp_in_use hp_peer_id ((pd_peers (bk_directory b))[i := p])"
    using inv fresh(1) by (intro peers.distinct_store) (auto simp: hub_inv_def peers_ok_def connected_def)
  ultimately show "peers_ok ports ?c"
    using inv by (simp add: hub_inv_def peers_ok_def)
qed

lemma hub_inv_turn_away [hub_intros]: "hub_inv ports b \<Longrightarrow> hub_inv ports (turn_away b peer_id detail)"
  unfolding turn_away_def by (intro hub_intros)

lemma makeRoomForKnownPeer_keeps:
  assumes "hub_inv ports b" and "makeRoomForKnownPeer ports b info = (ok, c)"
  shows "hub_inv ports c" and "connected c j \<Longrightarrow> connected b j"
proof -
  have "hub_inv ports (disconnectPeer ports (sendError b k code detail) k)" for k code detail
    using assms(1) by (intro hub_intros)
  moreover have "connected (disconnectPeer ports (sendError b k code detail) k) j \<Longrightarrow> connected b j" for k code detail
    using disconnectPeer_connected [of ports "sendError b k code detail" k j] by (simp add: connected_def)
  ultimately show "hub_inv ports c" "connected c j \<Longrightarrow> connected b j"
    using assms by (auto simp: makeRoomForKnownPeer_def Let_def split: if_splits option.splits)
qed

lemma hub_inv_onPeerConnected:
  assumes inv: "hub_inv ports b" and fresh: "peer_id \<noteq> 0" "peer_id \<noteq> ECHO_TOKENS_BRIDGE_OWNER" "\<not> connected b peer_id"
  shows "hub_inv ports (onPeerConnected ports b peer_id info now)"
proof -
  define c where "c = b\<lparr>bk_now_us := now\<rparr>"
  define x where "x = (if PeerDirectory_IsFull (bk_directory c) then makeRoomForKnownPeer ports c info else (True, c))"
  obtain ok d where d: "x = (ok, d)"
    by fastforce
  have c: "hub_inv ports c" "\<not> connected c peer_id"
    using inv fresh(3) hub_inv_now by (simp_all add: c_def connected_def)
  have d': "hub_inv ports d" "\<not> connected d peer_id"
    using d c makeRoomForKnownPeer_keeps [OF c(1), of info ok d] unfolding x_def by (auto split: if_splits)
  show ?thesis
  proof (cases "find_index (\<lambda>p. \<not> hp_in_use p) (pd_peers (bk_directory d))")
    case None
    then show ?thesis
      using c(1) d'(1) unfolding onPeerConnected_def Let_def c_def [symmetric] x_def [symmetric] d PeerDirectory_Allocate_def
      by (auto simp: None intro!: hub_intros)
  next
    case (Some i)
    let ?p = "HubPeer_zero\<lparr>hp_in_use := True, hp_peer_id := peer_id, hp_session := ClientSession_Reset, hp_egress := EgressQueue_Reset\<rparr>"
    have admitted: "hub_inv ports (with_peer (d\<lparr>bk_directory := (bk_directory d)\<lparr>pd_peers := (pd_peers (bk_directory d))[i := ?p]\<rparr>\<rparr>) i f)"
      if "hp_in_use (f ?p)" "hp_peer_id (f ?p) = peer_id" "hp_role (f ?p) = kHUB_PEER_ROLE_UNKNOWN" "hp_session (f ?p) = ClientSession_Reset"
        "hp_echo_tokens (f ?p) = EchoTokens_Reset" "hp_egress (f ?p) = EgressQueue_Reset" for f
      using hub_inv_admitted [OF d'(1) Some, of "f ?p"] that fresh(1,2) d'(2) find_index_SomeD(1) [OF Some]
      by (simp add: with_peer_def)
    show ?thesis
      using c(1) d'(1) unfolding onPeerConnected_def Let_def c_def [symmetric] x_def [symmetric] d PeerDirectory_Allocate_def
      by (auto simp: Some intro!: hub_intros admitted) (simp_all add: HubPeer_zero_def)
  qed
qed

lemma hub_inv_onPeerDisconnected: "hub_inv ports b \<Longrightarrow> hub_inv ports (onPeerDisconnected ports b peer_id)"
  unfolding onPeerDisconnected_def by (auto intro!: hub_inv_releasePeer dest: FindD split: option.split)

lemmas handlers_keep = hub_inv_handleHello hub_inv_handleRegister hub_inv_handleList hub_inv_handleOpen hub_inv_handleClose
  hub_inv_handleSubscribe hub_inv_handlePing hub_inv_handleConfigure hub_inv_handleIfconfigReply hub_inv_handleInterfaceStatus
  hub_inv_handleTxnBegin hub_inv_handleTxnBeginAck hub_inv_handleTxnProgress hub_inv_handleTxnStatus hub_inv_handleTxnAbort
  hub_inv_handleTxnRosterReport hub_inv_relayTransactionContent hub_inv_listings hub_inv_handleAdminKick hub_inv_handleAdminKickPeer
  hub_inv_store_handlers hub_inv_bridge_handlers

lemma hub_inv_handler:
  "control_handlers type = Some handler \<Longrightarrow> hub_inv ports b \<Longrightarrow> i < PEER_DIRECTORY_MAX \<Longrightarrow> hp_in_use (peer_at b i) \<Longrightarrow>
     hub_inv ports (handler ports b i header payload)"
  unfolding control_handlers_def
  by ((erule handler_cases, hypsubst, rule handlers_keep, assumption+)+, simp)

lemma hub_inv_onPeerControl:
  assumes "hub_inv ports b"
  shows "hub_inv ports (onPeerControl ports b peer_id data now)"
proof -
  define c where "c = b\<lparr>bk_now_us := now\<rparr>"
  have c: "hub_inv ports c"
    unfolding c_def using assms by (rule hub_inv_now)
  have handled: "hub_inv ports (handler ports c i header payload)"
    if "PeerDirectory_Find (bk_directory c) peer_id = Some i" "control_handlers type = Some handler" for i type handler header payload
    using hub_inv_handler [OF that(2) c] FindD(1,2) [OF that(1)] hub_inv_sized [OF c] by simp
  show ?thesis
    unfolding onPeerControl_def Let_def c_def [symmetric] by (intro hub_cases hub_intros c) (auto intro: handled)
qed

lemma hub_inv_route_frames:
  "hub_inv ports b \<Longrightarrow> i < PEER_DIRECTORY_MAX \<Longrightarrow> hub_inv ports (snd (route_frames ports i frames (taken, b)))"
proof (induction frames arbitrary: taken b)
  case (Cons frame frames)
  then show ?case
    using hub_inv_routeFrame [of ports b i frame] by (auto split: prod.split)
qed simp

lemma hub_inv_onPeerFrame: "hub_inv ports b \<Longrightarrow> hub_inv ports (snd (onPeerFrame ports b peer_id data))"
  unfolding onPeerFrame_def Let_def
  by (auto intro!: hub_intros hub_inv_route_frames dest!: FindD(1) simp: hub_inv_sized split: option.splits)

lemma hub_inv_onPeerWritable: "hub_inv ports b \<Longrightarrow> hub_inv ports (onPeerWritable ports b peer_id)"
  unfolding onPeerWritable_def by (intro hub_cases hub_intros)

lemma hub_inv_tickHelloDeadline [hub_intros]: "hub_inv ports b \<Longrightarrow> hub_inv ports (tickHelloDeadline ports b i now)"
  unfolding tickHelloDeadline_def by (intro hub_cases hub_intros)

lemma hub_inv_tick_peer [hub_intros]: "hub_inv ports b \<Longrightarrow> hub_inv ports (tick_peer ports now i b)"
  unfolding tick_peer_def Let_def by (intro hub_cases hub_intros)

lemma hub_inv_Tick: "hub_inv ports b \<Longrightarrow> hub_inv ports (Broker_Tick ports b now)"
  unfolding Broker_Tick_def by (rule upholds_each_peer) (intro hub_intros; assumption)+

lemma hub_inv_step:
  assumes "hub_inv ports b" and "event_allowed b event"
  shows "hub_inv ports (hub_step ports event b)"
proof -
  have c: "hub_inv ports (calling b (Started event))"
    using assms(1) by (intro hub_intros)
  show ?thesis
  proof (cases event)
    case (PeerConnected peer_id info now)
    moreover have "\<not> connected (calling b (Started event)) peer_id"
      using assms(2) PeerConnected by (simp add: not_connected calling_def connected_def)
    ultimately show ?thesis
      using hub_inv_onPeerConnected [OF c] assms(2) by (simp add: hub_step_def)
  qed (use c hub_inv_onPeerDisconnected hub_inv_onPeerControl hub_inv_onPeerFrame hub_inv_onPeerWritable hub_inv_Tick
    in \<open>simp_all add: hub_step_def\<close>)
qed

text \<open>Asking for the next timeout refills shapers, and nothing else.\<close>

lemma hub_inv_delays [hub_intros]:
  "hub_inv ports b \<Longrightarrow> hub_inv ports (b\<lparr>bk_registry := snd (InterfaceRegistry_EgressDelayUs (bk_registry b) agent channel bits now)\<rparr>)"
  using hub_inv_same_entries same_entries_EgressDelayUs by blast

lemma hub_inv_channel_delay: "hub_inv ports (snd x) \<Longrightarrow> hub_inv ports (snd (channel_delay i channel x))"
  by (auto simp: channel_delay_def Let_def case_prod_beta intro: hub_inv_delays split: option.split)

lemma fold_keeps: "I x \<Longrightarrow> (\<And>y x. I x \<Longrightarrow> I (f y x)) \<Longrightarrow> I (fold f ys x)"
  by (induction ys arbitrary: x) simp_all

lemma hub_inv_NextTimeoutMs:
  assumes "hub_inv ports b"
  shows "hub_inv ports (snd (Broker_NextTimeoutMs b cap_ms))"
  unfolding Broker_NextTimeoutMs_def Let_def case_prod_beta snd_conv
  by (rule fold_keeps [where I = "\<lambda>x. hub_inv ports (snd x)"])
    (use assms in \<open>auto intro!: fold_keeps [where I = "\<lambda>x. hub_inv ports (snd x)"] hub_inv_channel_delay split: option.split\<close>)

lemma hub_reachable_inv: "hub_reachable ports b \<Longrightarrow> hub_inv ports b"
  by (induction rule: hub_reachable.induct) (auto intro: hub_inv_Broker_Init hub_inv_step hub_inv_NextTimeoutMs)

section \<open>Properties\<close>

text \<open>A hub that was started, took a local connection and read the hello of an administrator from it.\<close>

definition example_hub :: Broker where
  "example_hub =
     (let (n, hello) = HelloMessage_Build kPEER_ROLE_ADMIN None 0 (replicate HELLO_NAME_SIZE 0) CONTROL_BUFFER
      in hub_step example_ports (PeerControl 1 (take n hello) 20)
           (hub_step example_ports (PeerConnected 1 \<lparr>ci_fingerprint_hex = None, ci_origin = None, ci_origin_host = None,
              ci_transport_kind = 0, ci_local = True\<rparr> 10) (Broker_Init example_ports False)))"

lemma example_hub_reachable: "hub_reachable example_ports example_hub"
proof -
  have "bk_directory (Broker_Init example_ports False) = PeerDirectory_Reset"
    by (simp add: Broker_Init_def loadBridgeRoutes_def loadBridgeGroups_def example_ports_def Broker_zero_def)
  then have "event_allowed (Broker_Init example_ports False) (PeerConnected 1 info now)" for info now
    by (auto simp: PeerDirectory_Find_def find_index_None PeerDirectory_Reset_def HubPeer_zero_def)
  then show ?thesis
    unfolding example_hub_def case_prod_beta Let_def by (intro hub_reachable.intros) simp_all
qed

definition hub_typed :: "Broker \<Rightarrow> bool" where
  "hub_typed b \<longleftrightarrow> length (pd_peers (bk_directory b)) = PEER_DIRECTORY_MAX \<and>
     slots_distinct hp_in_use hp_peer_id (pd_peers (bk_directory b)) \<and>
     length (ir_entries (bk_registry b)) = INTERFACE_REGISTRY_MAX \<and>
     length (bk_pending_ifconfig b) = BROKER_PENDING_IFCONFIG_MAX \<and>
     TransactionTable_inv (bk_transactions b) \<and> BridgeRoutes_inv (bk_bridges b) \<and> BridgeGroups_inv (bk_groups b) \<and>
     RejectedPeers_inv (bk_rejected_peers b) \<and>
     (\<forall>p \<in> set (pd_peers (bk_directory b)). ClientSession_inv (hp_session p) \<and> EchoTokens_inv (hp_echo_tokens p) \<and>
        (hp_in_use p \<longrightarrow> EgressQueue_inv (hp_egress p)))"

text \<open>
  C5.  The tables of the hub are well formed in every state the hub gets into, whatever the
  transports deliver and the ports answer.  The directory, the registry and the pending
  configurations keep their sizes, and connected peers have distinct ids; transactions, bridge
  routes, bridge groups and rejected peers satisfy their invariants; so do the session and the echo
  tokens of every slot of the directory and the egress queue of every connected peer.  And until
  2^32 - 1024 interface ids have been handed out, the registry satisfies its invariant: distinct ids
  below the next one, distinct channels of an agent, free entries empty.
\<close>

theorem hub_well_formed:
  assumes "hub_reached ports n b"
  shows "hub_typed b \<and> (n + 1024 < 2 ^ 32 \<longrightarrow> InterfaceRegistry_inv (bk_registry b))"
proof
  note reachable = hub_reached_reachable [OF assms]
  show "hub_typed b"
    using hub_reachable_inv [OF reachable] hub_invD [of ports b]
    by (auto simp: hub_typed_def hub_inv_def peers_ok_def peer_ok_def slot_ok_def tables_ok_def)
  show "n + 1024 < 2 ^ 32 \<longrightarrow> InterfaceRegistry_inv (bk_registry b)"
    using hub_reached_ids [OF assms] by (simp add: ids_below_def)
qed

definition example_connected :: Broker where
  "example_connected = hub_step example_ports (HubTick 20)
     (hub_step example_ports (PeerConnected 1 \<lparr>ci_fingerprint_hex = None, ci_origin = None, ci_origin_host = None,
        ci_transport_kind = 0, ci_local = True\<rparr> 10) (Broker_Init example_ports False))"

lemma no_ids_handed: "ids_below 1 b \<Longrightarrow> ids_below 1 c \<Longrightarrow> ids_handed b c = 0"
  unfolding ids_below_def InterfaceRegistry_inv_def ids_handed_def
  by (metis One_nat_def diff_self less_one less_antisym not_less unat_0 word_unat_eq_iff le_antisym Suc_leI)

lemma example_connected_reached: "hub_reached example_ports 0 example_connected"
proof -
  let ?init = "Broker_Init example_ports False"
  let ?connect = "PeerConnected 1 \<lparr>ci_fingerprint_hex = None, ci_origin = None, ci_origin_host = None,
        ci_transport_kind = 0, ci_local = True\<rparr> 10"
  have zero: "ids_below 1 (Broker_zero False)"
    using InterfaceRegistry_Reset_inv by (simp add: ids_below_def Broker_zero_def) (simp add: InterfaceRegistry_Reset_def)
  have init: "?init = Broker_zero False"
    by (simp add: Broker_Init_def loadBridgeRoutes_def loadBridgeGroups_def example_ports_def)
  have "event_allowed ?init ?connect"
    by (auto simp: init Broker_zero_def PeerDirectory_Find_def find_index_None PeerDirectory_Reset_def HubPeer_zero_def)
  moreover have first: "ids_below 1 (hub_step example_ports ?connect ?init)"
    unfolding hub_step_def init using zero by (auto intro!: ids.closed_onPeerConnected ids.closed_command)
  moreover have "hub_reached example_ports 0 ?init"
    using hub_reached.started [of example_ports False] by (simp add: init ids_handed_def)
  ultimately have connected: "hub_reached example_ports 0 (hub_step example_ports ?connect ?init)"
    using hub_reached.stepped [of example_ports 0 ?init ?connect] no_ids_handed [OF zero, folded init] by simp
  moreover have "ids_below 1 example_connected"
    unfolding example_connected_def hub_step_def [of _ "HubTick 20"] using first
    by (auto intro!: ids.closed_events ids.closed_command)
  ultimately show ?thesis
    using hub_reached.stepped [OF connected, of "HubTick 20"] no_ids_handed [OF first]
    by (simp add: example_connected_def)
qed

theorem hub_well_formed_witness:
  "hub_reached example_ports 0 example_connected \<and> hub_typed example_connected \<and> InterfaceRegistry_inv (bk_registry example_connected)"
  using hub_well_formed [OF example_connected_reached] example_connected_reached by simp

text \<open>
  Whom the tables of the hub name: the ids of connected peers are distinct; an interface in use is
  that of a bridge group or of a connected agent; a transaction runs on a connected agent for a
  connected client, or for one that left; a pending configuration names a connected agent and a
  connected requester; an echo token belongs to a connected client or to the bridge; a channel that
  is not dormant is bound to a registered interface of the names it was opened with.
\<close>

definition references_live :: "Broker \<Rightarrow> bool" where
  "references_live b \<longleftrightarrow> slots_distinct hp_in_use hp_peer_id (pd_peers (bk_directory b)) \<and>
     (\<forall>e \<in> set (ir_entries (bk_registry b)). ie_in_use e \<longrightarrow>
        InterfaceEntry_IsVirtual e \<or> connected_as b kHUB_PEER_ROLE_AGENT (ie_agent_peer_id e)) \<and>
     (\<forall>t \<in> set (tt_entries (bk_transactions b)). isInUse t \<longrightarrow> connected_as b kHUB_PEER_ROLE_AGENT (rt_agent_peer_id t) \<and>
        (rt_client_peer_id t = TRANSACTION_NO_CLIENT \<or> connected_as b kHUB_PEER_ROLE_CLIENT (rt_client_peer_id t))) \<and>
     (\<forall>q \<in> set (bk_pending_ifconfig b). pi_in_use q \<longrightarrow>
        connected_as b kHUB_PEER_ROLE_AGENT (pi_agent_peer_id q) \<and> connected b (pi_requester_peer_id q)) \<and>
     (\<forall>p \<in> set (pd_peers (bk_directory b)).
        (\<forall>owner \<in> set (et_owner_peer_ids (hp_echo_tokens p)). owner = NO_OWNER \<or> owner = ECHO_TOKENS_BRIDGE_OWNER \<or>
           connected_as b kHUB_PEER_ROLE_CLIENT owner) \<and>
        (\<forall>x \<in> set (cs_bindings (hp_session p)). cb_in_use x \<longrightarrow> cb_dormant x \<or> resolves (bk_registry b) x))"

text \<open>
  C4.  A disconnection at any moment, in the middle of a handler included, leaves no interface,
  transaction, pending configuration or echo token that names a peer that is gone, and no attached
  channel that names an interface that is gone.
\<close>

theorem hub_no_dangling_references: "hub_reachable ports b \<Longrightarrow> references_live b"
  using hub_reachable_inv [of ports b]
  by (fastforce simp: references_live_def hub_inv_def peers_ok_def registry_ok_def transactions_ok_def pending_ok_def
      peer_ok_def entry_ok_def owners_ok_def channels_ok_def split: if_splits)

theorem hub_no_dangling_references_witness: "references_live example_hub"
  by (rule hub_no_dangling_references [OF example_hub_reachable])

text \<open>
  Every channel in use of a peer: if the peer has a fingerprint and the hub an authorization port,
  then at some moment of the trace the port allowed this fingerprint to read the interface of the
  channel, and if the channel may write, to write it.
\<close>

definition channels_authorized :: "HubPorts \<Rightarrow> Broker \<Rightarrow> bool" where
  "channels_authorized ports b \<longleftrightarrow>
     (\<forall>p \<in> set (pd_peers (bk_directory b)). \<forall>x \<in> set (cs_bindings (hp_session p)). cb_in_use x \<longrightarrow>
        authorized ports (bk_calls b) (hp_fingerprint_hex p) x)"

text \<open>
  C1.  No client ever holds a channel the access list did not grant: opening, and reattaching after
  the agent of an interface came back, consult the authorization port, and nothing else makes a
  channel.
\<close>

theorem hub_channels_authorized: "hub_reachable ports b \<Longrightarrow> channels_authorized ports b"
  using hub_reachable_inv [of ports b]
  by (auto simp: channels_authorized_def hub_inv_def peers_ok_def peer_ok_def channels_ok_def)

theorem hub_channels_authorized_witness: "channels_authorized example_ports example_hub"
  by (rule hub_channels_authorized [OF example_hub_reachable])

text \<open>
  The channel a frame came on belongs to the client, may write, and is not leased to another
  client; and if the client has a fingerprint and the hub an authorization port, then at some moment
  of the trace the port allowed this fingerprint to write the interface of the channel.
\<close>

definition write_granted :: "HubPorts \<Rightarrow> Broker \<Rightarrow> HubPeer \<Rightarrow> u8 \<Rightarrow> bool" where
  "write_granted ports b client channel \<longleftrightarrow> \<not> channelLeasedToAnother b client channel \<and>
     (\<exists>x \<in> set (cs_bindings (hp_session client)). cb_in_use x \<and> cb_channel x = channel \<and> cb_can_write x \<and>
        (hp_fingerprint_hex client ! 0 = 0 \<or>
         (case hub_authorization ports of
            None \<Rightarrow> True
          | Some port \<Rightarrow> was_allowed (azp_write_allowed port) (bk_calls b) (hp_fingerprint_hex client) x)))"

lemma hub_inv_write_granted:
  assumes "hub_inv ports b" and "i < PEER_DIRECTORY_MAX"
    and "ClientSession_CanWrite (hp_session (peer_at b i)) channel" "\<not> channelLeasedToAnother b (peer_at b i) channel"
  shows "write_granted ports b (peer_at b i) channel"
proof -
  obtain k where k: "find_index (\<lambda>x. cb_in_use x \<and> cb_channel x = channel) (cs_bindings (hp_session (peer_at b i))) = Some k"
    "cb_can_write (cs_bindings (hp_session (peer_at b i)) ! k)"
    using assms(3) by (auto simp: ClientSession_CanWrite_def split: option.splits)
  let ?x = "cs_bindings (hp_session (peer_at b i)) ! k"
  have x: "?x \<in> set (cs_bindings (hp_session (peer_at b i)))" "cb_in_use ?x" "cb_channel ?x = channel"
    using find_index_SomeD [OF k(1)] by simp_all
  then have "authorized ports (bk_calls b) (hp_fingerprint_hex (peer_at b i)) ?x"
    using hub_inv_peer [OF assms(1), of i] hub_inv_sized [OF assms(1)] assms(2) by (auto simp: peer_ok_def channels_ok_def)
  then show ?thesis
    using assms(4) x k(2) unfolding write_granted_def authorized_def by (intro conjI bexI [of _ ?x]) (auto split: option.splits)
qed

text \<open>
  C2.  No frame of a client gets past the hub without a grant: either the frame changes nothing but
  the hub's counters, so that nothing is sent, queued or bridged, or its channel was granted the
  right to write by the access list and no other client holds a lease on the interface.
\<close>

theorem client_injection_authorized:
  assumes "hub_reachable ports b" and "i < PEER_DIRECTORY_MAX"
  shows "(\<exists>metrics. snd (route_client_frame ports b i frame) = b\<lparr>bk_metrics := metrics\<rparr>) \<or>
    write_granted ports b (peer_at b i) (fm_channel frame)"
proof (cases "ClientSession_CanWrite (hp_session (peer_at b i)) (fm_channel frame) \<and> \<not> channelLeasedToAnother b (peer_at b i) (fm_channel frame)")
  case True
  then show ?thesis
    using hub_inv_write_granted [OF hub_reachable_inv [OF assms(1)] assms(2), of "fm_channel frame"] by blast
next
  case False
  then have "snd (route_client_frame ports b i frame) = drop_frames b 1 \<or> snd (route_client_frame ports b i frame) = drop_leased b"
    by (simp add: route_client_frame_def Let_def)
  then show ?thesis
    by (auto simp: drop_frames_def drop_leased_def with_counters_def with_metrics_def)
qed

theorem client_injection_authorized_witness:
  "(\<exists>metrics. snd (route_client_frame example_ports example_hub 0 FrameMessage_zero) = example_hub\<lparr>bk_metrics := metrics\<rparr>) \<or>
    write_granted example_ports example_hub (peer_at example_hub 0) 0"
  using client_injection_authorized [OF example_hub_reachable, of 0 FrameMessage_zero] by (simp add: FrameMessage_zero_def)

end
