(* ===== verification/BrokerRoles.thy ===== *)
theory BrokerRoles
  imports BrokerSafety
begin

text \<open>
  What only a local administrator may do: pins are enrolled and forgotten, access lists, bridge routes
  and bridge groups change in no other way.  \<open>untouched\<close> relates two states between which none of them
  changed; \<open>first_contact\<close> is the one other way to a pin.  Both are properties in the sense of
  \<open>hub_closed\<close>, so that the handlers keep them.
\<close>

section \<open>Administrative state\<close>

definition configured_routes :: "Broker \<Rightarrow> (bool \<times> BridgeRoute) list" where
  "configured_routes b = map (\<lambda>s. (brs_in_use s, brs_route s)) (brt_slots (bk_bridges b))"

definition configured_groups :: "Broker \<Rightarrow> (bool \<times> BridgeGroup) list" where
  "configured_groups b = map (\<lambda>s. (bgs_in_use s, bgs_group s)) (bgt_slots (bk_groups b))"

definition untouched :: "Broker \<Rightarrow> Broker \<Rightarrow> bool" where
  "untouched b c \<longleftrightarrow> filter privileged (bk_calls c) = filter privileged (bk_calls b) \<and>
     configured_routes c = configured_routes b \<and> configured_groups c = configured_groups b \<and>
     bk_require_known_peers c = bk_require_known_peers b"

lemma untouched_refl: "untouched b b"
  by (simp add: untouched_def)

lemma untouched_calling: "untouched a b \<Longrightarrow> \<not> privileged x \<Longrightarrow> untouched a (calling b x)"
  by (simp add: untouched_def calling_def configured_routes_def configured_groups_def)

lemma untouched_registry: "untouched a b \<Longrightarrow> untouched a (b\<lparr>bk_registry := r\<rparr>)"
  by (simp add: untouched_def configured_routes_def configured_groups_def)

lemma untouched_bump: "untouched a b \<Longrightarrow> untouched a (bump f g counters b)"
  by (auto simp: untouched_def bump_def configured_routes_def configured_groups_def map_list_update_same split: Counters.split)

interpretation untouched: hub_closed "untouched a" for a
  by unfold_locales
    (rule untouched_calling untouched_registry untouched_bump, assumption+ |
     simp add: untouched_def configured_routes_def configured_groups_def)+

lemma untouched_registering:
  assumes "untouched a b"
  shows "untouched a (snd (agentIdentityStatus ports b p q))" "untouched a (snd (snd (register_agent b peer_id q)))"
  using assms
  by (auto simp: agentIdentityStatus_def register_agent_def Let_def case_prod_beta
    intro!: untouched_calling untouched_registry split: option.split)

lemma untouched_handleRegister: "untouched a b \<Longrightarrow> untouched a (handleRegister ports b i header payload)"
  by (intro untouched.closed_handleRegister untouched.closed_register_attempts untouched.closed_with untouched_registering)

section \<open>Handlers of administrators\<close>

text \<open>The others do nothing unless the sender is an administrator.\<close>

lemma admin_only:
  assumes "hp_role (peer_at b i) \<noteq> kHUB_PEER_ROLE_ADMIN"
  shows "handleAdminPinAdd ports b i header payload = b" "handleAdminForget ports b i header payload = b"
    "handleAdminAclSet ports b i header payload = b" "handleAdminAclRevoke ports b i header payload = b"
    "handleAdminBridgeSet ports b i header payload = b" "handleAdminBridgeDelete ports b i header payload = b"
    "handleAdminGroupSet ports b i header payload = b" "handleAdminGroupDelete ports b i header payload = b"
    "handleAdminGroupJoin ports b i header payload = b" "handleAdminGroupLeave ports b i header payload = b"
  using assms unfolding handleAdminPinAdd_def handleAdminForget_def handleAdminAclSet_def handleAdminAclRevoke_def
    handleAdminBridgeSet_def handleAdminBridgeDelete_def handleAdminGroupSet_def handleAdminGroupDelete_def
    handleAdminGroupJoin_def handleAdminGroupLeave_def by simp_all

lemmas handlers_untouched = untouched.closed_handleHello untouched_handleRegister untouched.closed_handlers
  untouched.closed_configuring untouched.closed_handleInterfaceStatus untouched.closed_transactions
  untouched.closed_relayTransactionContent untouched.closed_listings

lemma untouched_handler:
  assumes "control_handlers type = Some handler" and "hp_role (peer_at b i) \<noteq> kHUB_PEER_ROLE_ADMIN" and "untouched a b"
  shows "untouched a (handler ports b i header payload)"
  using assms(1) unfolding control_handlers_def
  by - ((erule handler_cases, hypsubst,
      (rule handlers_untouched [OF assms(3)] | (simp only: admin_only [OF assms(2)], rule assms(3))))+, simp)

text \<open>The event is a control message of a connected administrator on the machine of the hub.\<close>

fun by_local_admin :: "Broker \<Rightarrow> HubEvent \<Rightarrow> bool" where
  "by_local_admin b (PeerControl peer_id data now_us) \<longleftrightarrow>
     (\<exists>p \<in> set (pd_peers (bk_directory b)). hp_in_use p \<and> hp_peer_id p = peer_id \<and> hp_role p = kHUB_PEER_ROLE_ADMIN \<and> hp_local p)"
| "by_local_admin b event \<longleftrightarrow> False"

lemma untouched_onPeerControl:
  assumes "hub_inv ports b" and "\<not> by_local_admin b (PeerControl peer_id data now)" and "untouched a b"
  shows "untouched a (onPeerControl ports b peer_id data now)"
proof (rule untouched.closed_onPeerControl [OF assms(3)])
  fix i type handler header payload
  assume i: "PeerDirectory_Find (bk_directory b) peer_id = Some i" and handler: "control_handlers type = Some handler"
  have "hp_role (peer_at b i) \<noteq> kHUB_PEER_ROLE_ADMIN"
    using FindD [OF i] hub_inv_peer [OF assms(1), of i] assms(2) by (auto simp: peer_ok_def slot_ok_def)
  then show "untouched a (handler ports (b\<lparr>bk_now_us := now\<rparr>) i header payload)"
    by (intro untouched_handler [OF handler] untouched.closed_update assms(3)) simp
qed

lemma untouched_step:
  assumes "hub_inv ports b" and "\<not> by_local_admin b event"
  shows "untouched b (hub_step ports event b)"
proof -
  define c where "c = calling b (Started event)"
  have c: "untouched b c" "hub_inv ports c"
    unfolding c_def by (rule untouched_calling [OF untouched_refl], simp, rule hub_inv_calling [OF assms(1)])
  have "\<not> by_local_admin c event"
    using assms(2) by (cases event) (simp_all add: c_def calling_def)
  then show ?thesis
    unfolding hub_step_def c_def [symmetric] using untouched_onPeerControl [OF c(2) _ c(1)]
    by (cases event) (simp_all add: untouched.closed_onPeerConnected [OF c(1)] untouched.closed_events [OF c(1)])
qed

section \<open>Pins\<close>

definition pins :: "Broker \<Rightarrow> HubCall list" where
  "pins b = filter is_pin (bk_calls b)"

text \<open>
  First contact: a connected agent registers a name that has no pin, in a hub that does not require
  its peers to be known, while fewer pins than the limit came about this way; what is pinned under the
  name is the fingerprint of that agent.
\<close>

fun first_contact :: "HubPorts \<Rightarrow> Broker \<Rightarrow> HubEvent \<Rightarrow> HubCall list \<Rightarrow> bool" where
  "first_contact ports b (PeerControl peer_id data now_us) added \<longleftrightarrow> \<not> bk_require_known_peers b \<and>
     (\<exists>p \<in> set (pd_peers (bk_directory b)). \<exists>store name.
        hp_in_use p \<and> hp_peer_id p = peer_id \<and> hp_role p = kHUB_PEER_ROLE_AGENT \<and> hub_identity_store ports = Some store \<and>
        isp_lookup store (bk_calls b @ [Started (PeerControl peer_id data now_us)]) name = None \<and>
        isp_count_first_contact store (bk_calls b @ [Started (PeerControl peer_id data now_us)]) < FIRST_CONTACT_PINS_MAX \<and>
        added = [PinAgent name (hp_fingerprint_hex p)])"
| "first_contact ports b event added \<longleftrightarrow> False"

definition pinned :: "(HubCall list \<Rightarrow> bool) \<Rightarrow> Broker \<Rightarrow> bool" where
  "pinned Q b \<longleftrightarrow> Q (pins b)"

interpretation pinned: hub_closed_admin "pinned Q" for Q
  by unfold_locales (simp_all add: pinned_def pins_def calling_def bump_def split: Counters.split)

lemma pinned_register_agent: "pinned Q b \<Longrightarrow> pinned Q (snd (snd (register_agent b peer_id q)))"
  by (simp add: register_agent_def pinned_def pins_def Let_def case_prod_beta)

lemma pinned_openGroupInterface: "pinned Q b \<Longrightarrow> pinned Q (openGroupInterface ports b name)"
  unfolding openGroupInterface_def Let_def case_prod_beta
  by (intro pinned.closed_if pinned.closed_option pinned.closed_reattachInterface) (simp_all add: pinned_def pins_def)

lemma pinned_handleAdminGroupSet: "pinned Q b \<Longrightarrow> pinned Q (handleAdminGroupSet ports b i header payload)"
  unfolding handleAdminGroupSet_def send_status_def Let_def case_prod_beta [of "\<lambda>x y. _ x y"]
  by (intro pinned.closed_if pinned.closed_prod pinned.closed_bool pinned.closed_speaking pinned.closed_applyGroup pinned_openGroupInterface)

lemma pins_identity:
  "pins (snd (agentIdentityStatus ports b p q)) = pins b \<or>
   (\<exists>store. hub_identity_store ports = Some store \<and> isp_lookup store (bk_calls b) (reg_agent_name q) = None \<and>
      \<not> bk_require_known_peers b \<and> isp_count_first_contact store (bk_calls b) < FIRST_CONTACT_PINS_MAX \<and>
      pins (snd (agentIdentityStatus ports b p q)) = pins b @ [PinAgent (reg_agent_name q) (hp_fingerprint_hex p)])"
  by (auto simp: agentIdentityStatus_def pins_def calling_def Let_def split: option.split)

lemma pinned_handleRegister:
  assumes "pinned Q b"
    and "\<And>store name. hp_role (peer_at b i) = kHUB_PEER_ROLE_AGENT \<Longrightarrow> hub_identity_store ports = Some store \<Longrightarrow>
      isp_lookup store (bk_calls b) name = None \<Longrightarrow> \<not> bk_require_known_peers b \<Longrightarrow>
      isp_count_first_contact store (bk_calls b) < FIRST_CONTACT_PINS_MAX \<Longrightarrow>
      Q (pins b @ [PinAgent name (hp_fingerprint_hex (peer_at b i))])"
  shows "pinned Q (handleRegister ports b i header payload)"
proof (cases "hp_role (peer_at b i) = kHUB_PEER_ROLE_AGENT")
  case True
  have "pinned Q (snd (agentIdentityStatus ports b (peer_at b i) q))" for q
    using assms(1) assms(2) [OF True] pins_identity [of ports b "peer_at b i" q] by (auto simp: pinned_def)
  then show ?thesis
    by (intro pinned.closed_handleRegister pinned.closed_register_attempts pinned.closed_with(1) pinned_register_agent assms(1))
next
  case False
  then show ?thesis
    using assms(1) by (simp add: handleRegister_def)
qed

lemma pins_step:
  "\<exists>added. pins (hub_step ports event b) = pins b @ added \<and> (added = [] \<or> first_contact ports b event added)"
proof -
  define Q where "Q l \<longleftrightarrow> (\<exists>added. l = pins b @ added \<and> (added = [] \<or> first_contact ports b event added))" for l
  define c where "c = calling b (Started event)"
  have same: "pins c = pins b"
    by (simp add: c_def pins_def calling_def)
  then have c: "pinned Q c"
    by (simp add: pinned_def Q_def)
  have "pinned Q (onPeerControl ports c peer_id data now)" if event: "event = PeerControl peer_id data now" for peer_id data now
  proof (rule pinned.closed_onPeerControl [OF c])
    fix i type handler header payload
    assume i: "PeerDirectory_Find (bk_directory c) peer_id = Some i" and handler: "control_handlers type = Some handler"
    let ?c = "c\<lparr>bk_now_us := now\<rparr>"
    have p: "peer_at c i \<in> set (pd_peers (bk_directory b))" "hp_in_use (peer_at c i)" "hp_peer_id (peer_at c i) = peer_id"
      using FindD [OF i] by (simp_all add: c_def calling_def)
    have now: "pinned Q ?c"
      using c by (rule pinned.closed_update)
    have "Q (pins ?c @ [PinAgent name (hp_fingerprint_hex (peer_at ?c i))])"
      if "hp_role (peer_at ?c i) = kHUB_PEER_ROLE_AGENT" "hub_identity_store ports = Some store"
        "isp_lookup store (bk_calls ?c) name = None" "\<not> bk_require_known_peers ?c"
        "isp_count_first_contact store (bk_calls ?c) < FIRST_CONTACT_PINS_MAX" for store name
    proof -
      have "first_contact ports b event [PinAgent name (hp_fingerprint_hex (peer_at c i))]"
        unfolding event first_contact.simps
        by (intro conjI bexI [of _ "peer_at c i"] exI [of _ store] exI [of _ name])
          (use that p event in \<open>simp_all add: c_def calling_def\<close>)
      then show ?thesis
        using same by (auto simp: Q_def pins_def)
    qed
    then show "pinned Q (handler ports ?c i header payload)"
      by (intro pinned.closed_handler [OF handler now] pinned_handleRegister [OF now] pinned_handleAdminGroupSet [OF now])
  qed
  then have "pinned Q (handle_event ports event c)"
    by (cases event) (simp_all add: pinned.closed_onPeerConnected [OF c] pinned.closed_events [OF c])
  then show ?thesis
    unfolding hub_step_def c_def [symmetric] pinned_def Q_def .
qed

section \<open>Properties\<close>

text \<open>
  C3.  Who may do what is in the hands of local administrators.  Between two states of the hub,
  either no pin was enrolled or forgotten, no access granted or revoked, no stored bridge changed, and
  the bridge routes and groups in force are the same; or the event was a control message of a peer that
  is connected over a local transport and introduced itself as an administrator.  Apart from enrolment
  an event pins at most one agent, on first contact: a connected agent, under a name without a pin,
  with its own fingerprint, and only in a hub that does not require known peers and is below the
  limit of such pins.
\<close>

theorem administration_is_local:
  assumes "hub_reachable ports b"
  shows "(untouched b (hub_step ports event b) \<or> by_local_admin b event) \<and>
    (\<exists>added. pins (hub_step ports event b) = pins b @ added \<and> (added = [] \<or> first_contact ports b event added))"
  using untouched_step [OF hub_reachable_inv [OF assms]] pins_step by blast

theorem administration_is_local_witness:
  "untouched example_hub (hub_step example_ports (PeerFrame 1 []) example_hub) \<and>
   pins (hub_step example_ports (PeerFrame 1 []) example_hub) = pins example_hub"
  using administration_is_local [OF example_hub_reachable, of "PeerFrame 1 []"] by simp

section \<open>A listing that gets lost\<close>

lemma high_byte: "(ucast (drop_bit 8 (ucast (drop_bit 16 x) :: u16)) :: u8) = ucast (drop_bit 24 (x :: u32))"
  by (rule bit_word_eqI) (simp add: bit_simps)

text \<open>The last of the 32 bytes that \<open>fillGroupEntry\<close> copies is the top byte of the second filter's id.\<close>

lemma fillGroupEntry_name:
  assumes "length (bg_name (bgs_group slot)) = BRIDGE_GROUP_NAME_SIZE"
  shows "agl_name (fillGroupEntry b slot) ! (ADMIN_GROUP_NAME_SIZE - 1) = ucast (drop_bit 24 (flt_can_id (bg_filters (bgs_group slot) ! 1)))"
  using assms by (simp add: fillGroupEntry_def Let_def nth_append after_name_def layout mem_write_def le32_def le16_def high_byte)

lemma top_byte_nonzero: "0x01000000 \<le> (x :: u32) \<Longrightarrow> (ucast (drop_bit 24 x) :: u8) \<noteq> 0"
proof
  assume low: "0x01000000 \<le> x" and "(ucast (drop_bit 24 x) :: u8) = 0"
  then have "unat (ucast (drop_bit 24 x) :: u8) = 0"
    by simp
  moreover have "unat x < 2 ^ 32"
    using unsigned_less [of x] by simp
  ultimately have "unat x div 2 ^ 24 = 0"
    by (simp only: unsigned_ucast_eq unsigned_drop_bit_eq) (simp add: take_bit_eq_mod drop_bit_eq_div)
  then show False
    using low by (simp add: word_le_nat_alt)
qed

definition extended_group :: BridgeGroupSlot where
  "extended_group = BridgeGroupSlot_zero\<lparr>bgs_in_use := True,
     bgs_group := (bgs_group BridgeGroupSlot_zero)\<lparr>bg_name := 103 # replicate 15 0, bg_filter_count := 2,
       bg_filters := [CanFilter_zero, \<lparr>flt_can_id = 0x80000123, flt_can_mask = 0\<rparr>]\<rparr>\<rparr>"

text \<open>
  C32.  An administrator who lists the bridge groups gets no answer at all for a group whose second
  filter has an id of 0x01000000 or more, as an id with the extended flag has: the name of the group is copied with
  the length of the destination, and the encoder refuses the page because the copied name does not
  end in a zero byte.
\<close>

theorem group_listing_lost:
  assumes "decodeOffsetRequest \<lparr>ao_offset = 0\<rparr> payload = (True, request)"
    and "BridgeGroups_Nth (bk_groups b) (unat (ao_offset request)) = Some slot"
    and "length (bg_name (bgs_group slot)) = BRIDGE_GROUP_NAME_SIZE"
    and "0x01000000 \<le> flt_can_id (bg_filters (bgs_group slot) ! 1)"
  shows "handleAdminGroupList ports b i header payload = b"
  using assms(1,2) fillGroupEntry_name [OF assms(3), of b] top_byte_nonzero [OF assms(4)]
  by (simp add: handleAdminGroupList_def Let_def AdminGroupListReplyMessage_Encode_def encode_page_def isGroupNameValid_def sendControl_def)

theorem group_listing_lost_witness:
  "handleAdminGroupList example_ports (example_hub\<lparr>bk_groups := \<lparr>bgt_slots = [extended_group], bgt_count = 1\<rparr>\<rparr>) 0
     \<lparr>mh_type = kMESSAGE_TYPE_ADMIN_GROUP_LIST, mh_flags = 0, mh_length = 4\<rparr> [0, 0, 0, 0] =
   example_hub\<lparr>bk_groups := \<lparr>bgt_slots = [extended_group], bgt_count = 1\<rparr>\<rparr>"
  by (rule group_listing_lost [where request = "\<lparr>ao_offset = 0\<rparr>" and slot = extended_group])
    (simp_all add: decodeOffsetRequest_def Wire_ReadU16_def BridgeGroups_Nth_def extended_group_def BridgeGroupSlot_zero_def)

end
