(* ===== verification/Spec2Isabelle.thy ===== *)
theory Spec2Isabelle
  imports BrokerRoles
begin

text \<open>
  can-hub connects the CAN interfaces of remote machines.  Agents register the interfaces of their
  machine with a hub; clients open those interfaces over channels, subscribe to frames with filters
  and inject frames; administrators inspect and configure the hub over a local transport.  The hub
  may bridge interfaces to one another, singly or in groups, and lease an interface to one client
  for a transaction.  All parties speak one binary protocol.  File names below are relative to the
  directory \<open>src\<close> of the repository.

  \<^bold>\<open>Parts and theories.\<close>

  \<^item> \<open>Prelude\<close> has the machine types, C strings and memory, the first-match
    search, runs of operations and the locales of steps with an invariant (\<open>stepper\<close>),
    of simulations (\<open>simulation\<close>), of contracts between a concrete and an abstract
    state (\<open>contract\<close>) and of contracts that hold while a budget lasts
    (\<open>budgeted\<close>, \<open>budgeted_contract\<close>).  \<open>SlotTable\<close> has the
    laws of fixed arrays of slots read as maps from keys to slots (\<open>keyed_slots\<close>,
    \<open>slot_table\<close>).

  \<^item> The protocol, \<open>protocol\<close>: \<open>Wire\<close> (\<open>wire.c\<close>,
    \<open>message_header.c\<close>; the locale \<open>message_codec\<close> is what an encoder and
    its decoder promise each other), \<open>FrameMessage\<close> (\<open>frame_message.c\<close>),
    \<open>ControlMessages\<close> (\<open>hello_message.c\<close>, \<open>error_message.c\<close>,
    \<open>open_message.c\<close>, \<open>subscribe_message.c\<close>,
    \<open>register_message.c\<close>), \<open>ListingMessages\<close>
    (\<open>list_message.c\<close>, \<open>interface_status_message.c\<close>,
    \<open>interface_name.c\<close>), \<open>IfconfigMessages\<close>
    (\<open>ifconfig_message.c\<close>), \<open>TxnMessages\<close> and \<open>TxnSteps\<close>
    (\<open>txn_message.c\<close>, \<open>txn_steps_message.c\<close>), \<open>AdminMessages\<close>
    and \<open>AdminBridgeMessages\<close> (\<open>admin_message.c\<close>; the locale
    \<open>page_codec\<close> covers all listings).

  \<^item> \<open>Pacing\<close>: the token bucket, the reconnect delays and the credit of an agent
    (\<open>shared/egress_shaper.c\<close>, \<open>shared/reconnect_backoff.c\<close>,
    \<open>agent/domain/tx_pacer.c\<close>).

  \<^item> The tables of the hub, \<open>hub/domain\<close>: \<open>InterfaceRegistry\<close>,
    \<open>ClientSession\<close>, \<open>EchoTokens\<close>, \<open>EgressQueue\<close>,
    \<open>TransactionTable\<close>, \<open>BridgeRoutes\<close>, \<open>BridgeGroups\<close>,
    \<open>BridgeTargets\<close>, \<open>PeerDirectory\<close> (with \<open>hub_peer.c\<close>),
    \<open>RejectedPeers\<close>, \<open>FrameRoutes\<close> and \<open>AdminViews\<close>, each
    after the file of its name.

  \<^item> The broker, \<open>hub/broker.c\<close>, joins them.  \<open>HubPorts\<close> has its
    state and its ports, \<open>Broker\<close> the clean-up paths, \<open>BrokerFrames\<close> the
    way of a frame, \<open>BrokerControl\<close> and \<open>BrokerAdmin\<close> the handlers of
    control messages, \<open>BrokerEvents\<close> the entry points, one event of the hub
    (\<open>hub_step\<close>) and the states it gets into (\<open>hub_reachable\<close>).
    \<open>BrokerInvariant\<close>, \<open>BrokerCleanup\<close> and \<open>BrokerKeeps\<close> show
    function by function that the invariant of the hub is kept; \<open>BrokerDrain\<close> is about
    the loop that empties an egress queue; \<open>BrokerClosure\<close> collects what all handlers
    have in common in the locale \<open>hub_closed\<close>, on which \<open>BrokerIds\<close>
    (interface ids) and \<open>BrokerRoles\<close> (administration and pins) rest;
    \<open>BrokerSafety\<close> has the properties of all reachable states.

  \<^bold>\<open>How the model reads the code.\<close>  A struct is a record with the fields of the
  struct, an operation on it a function that returns the new record, with the result, if any, in
  front; \<open>false\<close> with an unset output parameter is \<open>None\<close>.  A pointer into
  an array is the index of its slot.  Values that are compared or treated bitwise are words of their
  width; indices, counters and clocks are natural numbers with \<open>wrap\<close> of their width
  where the code adds to them.  Clocks of microseconds, 64 bits wide, do not wrap in the model.
  Names and buffers are lists of bytes, and \<open>cstr\<close> is what C reads of them.  The ports
  (transports, identity store, access lists, bridge store) are records of functions and parameters
  of every definition that calls them.  What they answer may depend on the whole trace of calls and
  events so far, and nothing is assumed of it.  Of the transports it is assumed that a new
  connection has an id that is neither 0 nor the reserved owner of bridged frames nor that of an
  open connection (\<open>event_allowed\<close>).  \<open>fillGroupEntry\<close> reads beyond an
  array into the members that follow it in the struct; the model gives it their bytes in
  little-endian order with zero padding, as on the platforms the program is built for.

  \<^bold>\<open>What is shown of the hub.\<close>  In every reachable state the tables are well
  formed, and the registry of interfaces is until the 32-bit ids run out; nothing refers to a peer
  that left or, from an attached channel, to an interface that is gone; a channel was granted by the
  access lists and a client's frame gets through only on a channel granted writing and not against a
  lease. Administration takes a local administrator, and the only other way to a pin is first
  contact.  Draining ends and keeps the order of frames.  One listing is lost through the overlong
  read of \<open>fillGroupEntry\<close>.

  \<^bold>\<open>What is shown of the tables.\<close>  The registry, the sessions, the transactions,
  the egress queue, the echo tokens, the routes and the groups behave as their abstract
  counterparts, maps and queues; channels do not starve one another; an echo is attributed to the
  client that caused it; ids are not used twice; listings are complete; a frame reaches exactly the
  receivers and bridge targets it should; the peer least worth keeping is displaced, and a device
  that retries outlives strangers while there is an entry to spare.  The shaper keeps its rate and
  its announced delay is enough, the credit stays within bounds and recovers, the backoff doubles.

  \<^bold>\<open>What is shown of the protocol.\<close>  What an encoder accepts its decoder
  returns, and what it refuses is said exactly: frames, sessions and registration, listings,
  administration, configuration and transactions.

  \<^bold>\<open>Bounds and fuel.\<close>  Loops over arrays are recursions over lists of the size
  of the array. \<open>drain_channel\<close> has fuel; one round more than the 512 slots of the
  queue is enough. \<open>displace_agents\<close> ends because every round disconnects a peer.  The
  contract of the registry holds for 2^32 - 1 ids; in the hub a slack of 1024 covers what one event
  may hand out.

  \<^bold>\<open>What is not modelled.\<close>  The agent and its domain but for its pacer, the
  client library, the transaction scripts, the socketcand gateway and the mirror are separate
  programs around the same protocol and are left out, as are the pure parts of the platform helpers;
  transports, TLS, netlink, the SQL statements, the command line programs and the bindings are input
  and output over libraries that are not part of the repository.
\<close>

end
